(* ===== verification/Go_Base.thy ===== *)
theory Go_Base
  imports Main "HOL-Library.AList"
begin

text \<open>
  The Go run-time notions every component of the backend uses: the \<open>error\<close> interface with the
  sentinel errors of the modelled packages, \<open>time.Time\<close>, a call that may fail and may change
  the world, and Go maps as association lists.
\<close>

named_theorems go_defs \<open>the combinators of the call type, unfolded together\<close>
named_theorems err_defs \<open>the error-mapping functions of the packages\<close>

section \<open>Errors\<close>

text \<open>
  A Go \<open>error\<close> is a value of an interface type. The packages below compare it only with sentinel
  variables (\<open>errors.Is\<close>) and none of them wraps an error, so \<open>errors.Is\<close> is equality. Each
  package has its own sentinels: \<open>needs.errZeroID\<close> and \<open>needs/contracts.ErrZeroID\<close> carry the
  same text and are different values. \<open>OtherErr\<close> stands for any error of another package.
\<close>

datatype ctx_error = Canceled | DeadlineExceeded

datatype db_error = Db_ErrUnavailable | Db_ErrNoRows | Db_ErrConflict

datatype outbox_error =
    Ob_ErrUnavailable | Ob_ErrInvalidEvent | Ob_ErrInvalidPolicy | Ob_ErrSensitivePayload
  | Ob_ErrConflict | Ob_ErrNotFound | Ob_ErrStoreRequired | Ob_ErrHandlerRequired
  | Ob_ErrDuplicateHandler | Ob_ErrRelayRequired

datatype need_error =
    Need_errZeroID | Need_errInvalidNeed | Need_errInvalidStatus | Need_errInvalidTransition
  | Need_errInvalidContent | Need_errInvalidLocation | Need_errInvalidLatitude
  | Need_errInvalidLongitude | Need_errInvalidBudget | Need_errInvalidRadius
  | Need_errInvalidExpiry | Need_errInvalidCategory | Need_errStoreRequired
  | Need_errUnavailable | Need_errNotFound | Need_errForbidden | Need_errConflict

datatype need_contract_error =
    NeedC_ErrZeroID | NeedC_ErrNotFound | NeedC_ErrForbidden | NeedC_ErrUnavailable
  | NeedC_ErrConflict

datatype biz_contract_error =
    BizC_ErrZeroID | BizC_ErrNotFound | BizC_ErrForbidden | BizC_ErrUnavailable

datatype md_contract_error = MdC_ErrZeroID | MdC_ErrNotFound | MdC_ErrUnavailable

datatype offer_error =
    Offer_errZeroID | Offer_errInvalidOffer | Offer_errInvalidStatus
  | Offer_errInvalidTransition | Offer_errInvalidMessage | Offer_errInvalidPrice
  | Offer_errStoreRequired | Offer_errUnavailable | Offer_errNotFound | Offer_errForbidden
  | Offer_errConflict | Offer_errNotEligible

datatype offer_contract_error =
    OfferC_ErrZeroID | OfferC_ErrNotFound | OfferC_ErrUnavailable | OfferC_ErrInvalidEvent

datatype txn_error =
    Txn_errZeroID | Txn_errInvalidTxn | Txn_errInvalidStatus | Txn_errInvalidTransition
  | Txn_errInvalidPrice | Txn_errStoreRequired | Txn_errUnavailable | Txn_errNotFound
  | Txn_errForbidden | Txn_errConflict | Txn_errNotAccepted | Txn_errNeedDraft
  | Txn_errNeedCancelled | Txn_errNeedExpired | Txn_errNeedFulfilled

datatype txn_contract_error =
    TxnC_ErrZeroID | TxnC_ErrNotFound | TxnC_ErrUnavailable | TxnC_ErrInvalidEvent

datatype delivery_error =
    Del_errZeroID | Del_errInvalidDelivery | Del_errInvalidStatus | Del_errInvalidTransition
  | Del_errInvalidMethod | Del_errInvalidNote | Del_errInvalidEligibility
  | Del_errStoreRequired | Del_errUnavailable | Del_errNotFound | Del_errForbidden
  | Del_errConflict | Del_errNotEligible

datatype delivery_contract_error =
    DelC_ErrZeroID | DelC_ErrNotFound | DelC_ErrUnavailable | DelC_ErrInvalidEvent

datatype payment_error =
    Pay_errZeroID | Pay_errInvalidPayment | Pay_errInvalidStatus | Pay_errInvalidTransition
  | Pay_errInvalidAmount | Pay_errStoreRequired | Pay_errUnavailable | Pay_errNotFound
  | Pay_errForbidden | Pay_errConflict | Pay_errNotPriced | Pay_errNotPayable

datatype dispute_error =
    Dis_errZeroID | Dis_errInvalidDispute | Dis_errInvalidStatus | Dis_errInvalidTransition
  | Dis_errInvalidReason | Dis_errInvalidStatement | Dis_errInvalidResolution
  | Dis_errInvalidEvidence | Dis_errInvalidPolicy | Dis_errStoreRequired
  | Dis_errUnavailable | Dis_errNotFound | Dis_errForbidden | Dis_errConflict
  | Dis_errNotEligible | Dis_errConcluded | Dis_errWindowClosed

datatype dispute_contract_error =
    DisC_ErrZeroID | DisC_ErrNotFound | DisC_ErrUnavailable | DisC_ErrInvalidEvent

datatype listing_contract_error =
    ListC_ErrZeroID | ListC_ErrNotFound | ListC_ErrForbidden | ListC_ErrInvalidEvent
  | ListC_ErrUnavailable | ListC_ErrConflict | ListC_ErrInvalidModerationState
  | ListC_ErrModerationNotEnforced

datatype listing_error =
    List_errZeroID | List_errInvalidListing | List_errInvalidStatus | List_errInvalidTransition
  | List_errInvalidAttributes | List_errInvalidPrice | List_errInvalidContent
  | List_errInvalidCategorySchema | List_errPublishNotEligible | List_errInvalidModeration
  | List_errStoreRequired | List_errUnavailable | List_errNotFound | List_errForbidden | List_errConflict

datatype verified_error =
    Ver_errZeroID | Ver_errStoreRequired | Ver_errUnavailable | Ver_errNotFound | Ver_errForbidden
  | Ver_errListingsReq | Ver_errOutboxRequired | Ver_errSelfAppointment | Ver_errInvalidStatus
  | Ver_errInvalidTransition | Ver_errInvalidMethod | Ver_errInvalidToken | Ver_errExpiredChallenge
  | Ver_errChallengeConsumed | Ver_errInvalidAppointment | Ver_errInvalidChallenge
  | Ver_errInvalidInteraction | Ver_errConflict | Ver_errInvalidPolicy

datatype verified_contract_error =
    VerC_ErrZeroID | VerC_ErrNotFound | VerC_ErrUnavailable | VerC_ErrInvalidEvent

datatype review_error =
    Rev_errZeroID | Rev_errStoreRequired | Rev_errUnavailable | Rev_errNotFound | Rev_errVerifiedReq
  | Rev_errOutboxRequired | Rev_errInvalidBody | Rev_errInvalidRating | Rev_errInvalidPolicy
  | Rev_errInvalidReview | Rev_errNotEligible | Rev_errConflict | Rev_errSelfReview
  | Rev_errListingsReq | Rev_errInvalidQuery | RevC_ErrInvalidEvent

datatype aggregate_error =
    Agg_errZeroID | Agg_errInvalidEvent | Agg_errInvalidRating | Agg_errStoreRequired
  | Agg_errUnavailable | Agg_errNotFound | Agg_errInvalidSummary

datatype trust_error =
    Trust_errZeroID | Trust_errInvalidEvent | Trust_errInvalidPolicy | Trust_errInvalidProfile
  | Trust_errStoreRequired | Trust_errUnavailable | Trust_errNotFound

datatype messaging_error =
    Msg_errZeroID | Msg_errStoreRequired | Msg_errUnavailable | Msg_errNotFound | Msg_errListingsReq
  | Msg_errInvalidBody | Msg_errSelfConversation | Msg_errConflict | MsgC_ErrInvalidEvent

datatype favorites_error =
    Fav_errZeroID | Fav_errStoreRequired | Fav_errUnavailable | Fav_errNotFound | Fav_errListingsReq

datatype savedsearch_error =
    Saved_errZeroID | Saved_errStoreRequired | Saved_errUnavailable | Saved_errNotFound | Saved_errInvalid

datatype staff_error =
    Staff_ErrUnauthenticated | Staff_ErrForbidden | Staff_ErrUnavailable | Staff_ErrMisconfigured
  | Staff_ErrAdapterRequired

datatype moderation_error =
    Mod_errZeroID | Mod_errStoreRequired | Mod_errUnavailable | Mod_errNotFound | Mod_errListingsReq
  | Mod_errProfilesReq | Mod_errInvalidTarget | Mod_errInvalidReason | Mod_errInvalidStatus
  | Mod_errInvalidReport | Mod_errInvalidPolicy | Mod_errInvalidBody | Mod_errSelfReport
  | Mod_errConflict | Mod_errInvalidQuery | Mod_errInvalidTransition | Mod_errInvalidPriority
  | Mod_errInvalidCaseStatus | Mod_errInvalidCase | Mod_errInvalidAttachment | Mod_errInvalidHistory
  | Mod_errInvalidEvidence | Mod_errInvalidAction | Mod_errInvalidActionStatus | Mod_errInvalidAppeal
  | Mod_errInvalidAppealStatus | Mod_errUnsupportedAction

datatype go_error =
    CtxErr ctx_error
  | DbErr db_error
  | ObErr outbox_error
  | NeedErr need_error
  | NeedCErr need_contract_error
  | BizCErr biz_contract_error
  | MdCErr md_contract_error
  | OfferErr offer_error
  | OfferCErr offer_contract_error
  | TxnErr txn_error
  | TxnCErr txn_contract_error
  | DelErr delivery_error
  | PayErr payment_error
  | DisErr dispute_error
  | DelCErr delivery_contract_error
  | DisCErr dispute_contract_error
  | ListErr listing_error
  | ListCErr listing_contract_error
  | VerErr verified_error
  | VerCErr verified_contract_error
  | RevErr review_error
  | AggErr aggregate_error
  | TrustErr trust_error
  | MsgErr messaging_error
  | FavErr favorites_error
  | SavedErr savedsearch_error
  | StaffErr staff_error
  | ModErr moderation_error
  | OtherErr string

text \<open>\<open>context.Canceled\<close> or \<open>context.DeadlineExceeded\<close>.\<close>

definition ctx_error :: "go_error \<Rightarrow> bool" where
  "ctx_error e \<longleftrightarrow> e = CtxErr Canceled \<or> e = CtxErr DeadlineExceeded"

lemma ctx_error_simps [simp]:
  "ctx_error (CtxErr c)"
  "\<not> ctx_error (DbErr d)" "\<not> ctx_error (ObErr b)" "\<not> ctx_error (NeedErr n)"
  "\<not> ctx_error (NeedCErr nc)" "\<not> ctx_error (BizCErr bc)" "\<not> ctx_error (MdCErr mc)"
  "\<not> ctx_error (OfferErr f)" "\<not> ctx_error (OfferCErr oc)" "\<not> ctx_error (TxnErr t)"
  "\<not> ctx_error (TxnCErr tc)" "\<not> ctx_error (DelErr l)" "\<not> ctx_error (PayErr p)"
  "\<not> ctx_error (DisErr i)" "\<not> ctx_error (DelCErr lc)" "\<not> ctx_error (DisCErr ic)"
  "\<not> ctx_error (ListErr k)" "\<not> ctx_error (ListCErr kc)" "\<not> ctx_error (VerErr v)" "\<not> ctx_error (VerCErr vc)"
  "\<not> ctx_error (RevErr r)" "\<not> ctx_error (AggErr a)" "\<not> ctx_error (TrustErr u)"
  "\<not> ctx_error (MsgErr m)" "\<not> ctx_error (FavErr g)" "\<not> ctx_error (SavedErr ss)"
  "\<not> ctx_error (StaffErr sf)" "\<not> ctx_error (ModErr md)" "\<not> ctx_error (OtherErr s)"
  by (cases c; simp add: ctx_error_def) (simp_all add: ctx_error_def)

section \<open>Results and calls\<close>

text \<open>
  \<open>'a res\<close> is the pair \<open>(value, error)\<close> a Go function returns: \<open>Inl e\<close> when the error is not
  nil, \<open>Inr x\<close> otherwise. A function that returns only an error is modelled with
  \<open>go_error option\<close> (\<open>None\<close> for nil). \<open>('w, 'a) go\<close> is a call that may also change the world
  \<open>'w\<close> (stores, outbox, clock, random source) it runs in.
\<close>

type_synonym 'a res = "go_error + 'a"

type_synonym ('w, 'a) go = "'w \<Rightarrow> 'w \<times> 'a res"

definition gret :: "'a \<Rightarrow> ('w, 'a) go" where
  [go_defs]: "gret x = (\<lambda>w. (w, Inr x))"

definition gfail :: "go_error \<Rightarrow> ('w, 'a) go" where
  [go_defs]: "gfail e = (\<lambda>w. (w, Inl e))"

text \<open>\<open>x, err := m; if err != nil { return h(err) }; return k(x)\<close>\<close>

definition gcase ::
  "('w, 'a) go \<Rightarrow> (go_error \<Rightarrow> ('w, 'b) go) \<Rightarrow> ('a \<Rightarrow> ('w, 'b) go) \<Rightarrow> ('w, 'b) go" where
  [go_defs]: "gcase m h k =
     (\<lambda>w. case m w of (w', Inl e) \<Rightarrow> h e w' | (w', Inr x) \<Rightarrow> k x w')"

text \<open>\<open>x, err := m; if err != nil { return err }; return k(x)\<close>\<close>

definition gbind :: "('w, 'a) go \<Rightarrow> ('a \<Rightarrow> ('w, 'b) go) \<Rightarrow> ('w, 'b) go" where
  [go_defs]: "gbind m k = gcase m gfail k"

text \<open>A pure function called from code with effects.\<close>

definition gpure :: "'a res \<Rightarrow> ('w, 'a) go" where
  [go_defs]: "gpure r = (\<lambda>w. (w, r))"

text \<open>\<open>if err := check(); err != nil { return err }; return k\<close>\<close>

definition gguard :: "go_error option \<Rightarrow> ('w, 'a) go \<Rightarrow> ('w, 'a) go" where
  [go_defs]: "gguard c k = (case c of Some e \<Rightarrow> gfail e | None \<Rightarrow> k)"

text \<open>An error is passed through a mapping function on its way out: \<open>return mapErr(err)\<close>.\<close>

definition gmaperr :: "(go_error \<Rightarrow> go_error) \<Rightarrow> ('w, 'a) go \<Rightarrow> ('w, 'a) go" where
  [go_defs]: "gmaperr f m = gcase m (\<lambda>e. gfail (f e)) gret"

lemma gcase_gret [simp]: "gcase (gret x) h k = k x"
  by (simp add: go_defs)

lemma gcase_gfail [simp]: "gcase (gfail e) h k = h e"
  by (simp add: go_defs)

lemma gbind_gret [simp]: "gbind (gret x) k = k x"
  by (simp add: gbind_def)

lemma gbind_gfail [simp]: "gbind (gfail e) k = gfail e"
  by (simp add: gbind_def)

lemma gbind_assoc: "gbind (gbind m k) l = gbind m (\<lambda>x. gbind (k x) l)"
  by (rule ext) (simp add: go_defs split: prod.split sum.split)

lemma gpure_simps [simp]:
  "gpure (Inl e) = gfail e"  "gpure (Inr x) = gret x"
  by (simp_all add: go_defs)

lemma gguard_simps [simp]:
  "gguard None k = k"  "gguard (Some e) k = gfail e"
  by (simp_all add: go_defs)

lemma gret_apply [simp]: "gret x w = (w, Inr x)"
  by (simp add: go_defs)

lemma gfail_apply [simp]: "gfail e w = (w, Inl e)"
  by (simp add: go_defs)

lemma gcase_apply:
  "gcase m h k w = (case m w of (w', Inl e) \<Rightarrow> h e w' | (w', Inr x) \<Rightarrow> k x w')"
  by (simp add: gcase_def)

lemma gbind_apply:
  "gbind m k w = (case m w of (w', Inl e) \<Rightarrow> (w', Inl e) | (w', Inr x) \<Rightarrow> k x w')"
  by (simp add: gbind_def gcase_def gfail_def)

lemma gmaperr_apply:
  "gmaperr f m w = (case m w of (w', Inl e) \<Rightarrow> (w', Inl (f e)) | (w', Inr x) \<Rightarrow> (w', Inr x))"
  by (simp add: gmaperr_def gcase_def)

lemmas go_apply = gcase_apply gbind_apply gmaperr_apply

lemma gbind_InrE:
  assumes "gbind m k w = (w', Inr y)"
  obtains w1 x where "m w = (w1, Inr x)" and "k x w1 = (w', Inr y)"
  using assms by (auto simp: gbind_apply split: prod.splits sum.splits)

lemma gmaperr_InrD: "gmaperr f m w = (w', Inr y) \<Longrightarrow> m w = (w', Inr y)"
  by (auto simp: gmaperr_apply split: prod.splits sum.splits)

lemma gguard_InrD: "gguard c k w = (w', Inr y) \<Longrightarrow> c = None \<and> k w = (w', Inr y)"
  by (cases c) auto

section \<open>Time\<close>

text \<open>
  \<open>time.Time\<close> is the instant in nanoseconds since January 1 of year 1, UTC, so the zero value of
  the type is \<open>0\<close>. A location does not change the instant: \<open>UTC\<close> is the identity on it, and
  \<open>Before\<close>, \<open>After\<close> and \<open>Equal\<close> compare instants. A \<open>time.Duration\<close> is a signed 64-bit count
  of nanoseconds and \<open>Sub\<close> saturates at its bounds.
\<close>

type_synonym time = int

type_synonym duration = int

definition time_IsZero :: "time \<Rightarrow> bool" where
  [simp]: "time_IsZero t \<longleftrightarrow> t = 0"

definition time_UTC :: "time \<Rightarrow> time" where
  [simp]: "time_UTC t = t"

definition time_Before :: "time \<Rightarrow> time \<Rightarrow> bool" where
  [simp]: "time_Before t u \<longleftrightarrow> t < u"

definition time_After :: "time \<Rightarrow> time \<Rightarrow> bool" where
  [simp]: "time_After t u \<longleftrightarrow> u < t"

definition time_Equal :: "time \<Rightarrow> time \<Rightarrow> bool" where
  [simp]: "time_Equal t u \<longleftrightarrow> t = u"

definition minDuration :: duration where
  "minDuration = - (2 ^ 63)"

definition maxDuration :: duration where
  "maxDuration = 2 ^ 63 - 1"

definition time_Sub :: "time \<Rightarrow> time \<Rightarrow> duration" where
  "time_Sub t u = max minDuration (min maxDuration (t - u))"

definition hour :: duration where
  "hour = 60 * 60 * 1000000000"

lemma time_Sub_bounds: "minDuration \<le> time_Sub t u \<and> time_Sub t u \<le> maxDuration"
  by (auto simp: time_Sub_def minDuration_def maxDuration_def)

text \<open>Saturation does not change a comparison with a window that is itself a duration.\<close>

lemma time_Sub_greater_iff:
  assumes "minDuration \<le> d" and "d < maxDuration"
  shows "d < time_Sub t u \<longleftrightarrow> d < t - u"
  using assms by (auto simp: time_Sub_def)

section \<open>Maps\<close>

text \<open>
  A Go map is an association list with distinct keys. The order of the list is the order in which
  one \<open>range\<close> loop visits the entries: Go leaves it open, and so does every theorem here, because
  the lists it ranges over are arbitrary.
\<close>

type_synonym ('k, 'v) gomap = "('k \<times> 'v) list"

definition wf_map :: "('k, 'v) gomap \<Rightarrow> bool" where
  "wf_map m \<longleftrightarrow> distinct (map fst m)"

lemma wf_map_empty [simp]: "wf_map []"
  by (simp add: wf_map_def)

lemma wf_map_update [simp]: "wf_map m \<Longrightarrow> wf_map (AList.update k v m)"
  by (simp add: wf_map_def distinct_update)

lemma wf_map_delete [simp]: "wf_map m \<Longrightarrow> wf_map (AList.delete k m)"
  by (simp add: wf_map_def distinct_delete)

lemma map_of_update [simp]: "map_of (AList.update k v m) = (map_of m)(k \<mapsto> v)"
  by (simp add: update_conv')

lemma map_of_delete [simp]: "map_of (AList.delete k m) = (map_of m)(k := None)"
  by (simp add: delete_conv')

lemma wf_map_in_set: "wf_map m \<Longrightarrow> (k, v) \<in> set m \<longleftrightarrow> map_of m k = Some v"
  by (simp add: wf_map_def)

lemma wf_map_snd: "wf_map m \<Longrightarrow> v \<in> snd ` set m \<longleftrightarrow> (\<exists>k. map_of m k = Some v)"
  by (force simp flip: wf_map_in_set)

end
