(* ===== verification/Go_Text.thy ===== *)
theory Go_Text
  imports Go_Base
begin

text \<open>
  Go strings and the functions of \<open>strings\<close>, \<open>unicode\<close>, \<open>unicode/utf8\<close>, \<open>encoding/hex\<close>,
  \<open>regexp\<close> and \<open>math/big\<close> the domain packages call on them. A Go string is a sequence of bytes,
  here \<^typ>\<open>string\<close> (a \<^typ>\<open>char\<close> is a byte). Runes are decoded from the bytes as
  \<open>utf8.DecodeRuneInString\<close> does it, ill-formed sequences included.
\<close>

section \<open>UTF-8\<close>

type_synonym rune = nat

abbreviation byte_of :: "char \<Rightarrow> nat" where
  "byte_of c \<equiv> of_char c"

definition runeError :: rune where
  "runeError = 0xFFFD"

definition cont_byte :: "nat \<Rightarrow> bool" where
  "cont_byte b \<longleftrightarrow> 0x80 \<le> b \<and> b \<le> 0xBF"

text \<open>The range of the second byte depends on the first (the table \<open>acceptRanges\<close> of the library).\<close>

definition second_ok :: "nat \<Rightarrow> nat \<Rightarrow> bool" where
  "second_ok b0 b1 \<longleftrightarrow>
     (if b0 = 0xE0 then 0xA0 \<le> b1 \<and> b1 \<le> 0xBF
      else if b0 = 0xED then 0x80 \<le> b1 \<and> b1 \<le> 0x9F
      else if b0 = 0xF0 then 0x90 \<le> b1 \<and> b1 \<le> 0xBF
      else if b0 = 0xF4 then 0x80 \<le> b1 \<and> b1 \<le> 0x8F
      else cont_byte b1)"

text \<open>
  \<open>decode_rune s\<close> is the rune a well-formed prefix of \<open>s\<close> encodes, and its width in bytes; \<open>None\<close>
  where the library returns \<open>(RuneError, 1)\<close> for an ill-formed sequence.
\<close>

fun decode_rune :: "string \<Rightarrow> (rune \<times> nat) option" where
  "decode_rune [] = None"
| "decode_rune (c0 # cs) =
     (let b0 = byte_of c0 in
      if b0 < 0x80 then Some (b0, 1)
      else if 0xC2 \<le> b0 \<and> b0 \<le> 0xDF then
        (case cs of
           c1 # _ \<Rightarrow> if second_ok b0 (byte_of c1)
                    then Some ((b0 mod 32) * 64 + byte_of c1 mod 64, 2) else None
         | [] \<Rightarrow> None)
      else if 0xE0 \<le> b0 \<and> b0 \<le> 0xEF then
        (case cs of
           c1 # c2 # _ \<Rightarrow> if second_ok b0 (byte_of c1) \<and> cont_byte (byte_of c2)
                    then Some ((b0 mod 16) * 4096 + (byte_of c1 mod 64) * 64 + byte_of c2 mod 64, 3)
                    else None
         | _ \<Rightarrow> None)
      else if 0xF0 \<le> b0 \<and> b0 \<le> 0xF4 then
        (case cs of
           c1 # c2 # c3 # _ \<Rightarrow>
             if second_ok b0 (byte_of c1) \<and> cont_byte (byte_of c2) \<and> cont_byte (byte_of c3)
             then Some ((b0 mod 8) * 262144 + (byte_of c1 mod 64) * 4096
                        + (byte_of c2 mod 64) * 64 + byte_of c3 mod 64, 4)
             else None
         | _ \<Rightarrow> None)
      else None)"

lemma decode_rune_width:
  "decode_rune s = Some (r, w) \<Longrightarrow> 1 \<le> w \<and> w \<le> length s"
  by (cases s) (auto simp: Let_def split: if_split_asm list.split_asm)

lemma decode_rune_append:
  "decode_rune s = Some x \<Longrightarrow> decode_rune (s @ t) = Some x"
  by (cases s) (auto simp: Let_def split: if_split_asm list.split_asm)

lemma decode_rune_take:
  "decode_rune s = Some (r, w) \<Longrightarrow> decode_rune (take w s) = Some (r, w)"
  by (cases s) (auto simp: Let_def split: if_split_asm list.split_asm)

text \<open>
  The runes of a string in order, each with the bytes it was read from: what
  \<open>for _, r := range s\<close> visits.
\<close>

function runes :: "string \<Rightarrow> (rune \<times> string) list" where
  "runes [] = []"
| "runes (c # cs) =
     (case decode_rune (c # cs) of
        Some (r, w) \<Rightarrow> (r, take w (c # cs)) # runes (drop w (c # cs))
      | None \<Rightarrow> (runeError, [c]) # runes cs)"
  by pat_completeness auto
termination
  by (relation "measure length") (auto dest: decode_rune_width simp del: decode_rune.simps)

declare decode_rune.simps(2) [simp del]

definition utf8_RuneCountInString :: "string \<Rightarrow> nat" where
  "utf8_RuneCountInString s = length (runes s)"

abbreviation bytes_of_runes :: "(rune \<times> string) list \<Rightarrow> string" where
  "bytes_of_runes us \<equiv> concat (map snd us)"

lemma bytes_of_runes_runes [simp]: "bytes_of_runes (runes s) = s"
proof (induction s rule: runes.induct)
  case (2 c cs)
  show ?case
  proof (cases "decode_rune (c # cs)")
    case None
    with 2 show ?thesis by simp
  next
    case (Some x)
    obtain r w where x: "x = (r, w)" by (cases x)
    have "bytes_of_runes (runes (c # cs)) = take w (c # cs) @ bytes_of_runes (runes (drop w (c # cs)))"
      using Some x by simp
    also have "bytes_of_runes (runes (drop w (c # cs))) = drop w (c # cs)"
      using 2 Some x by simp
    finally show ?thesis by simp
  qed
qed simp

text \<open>Cutting a string at a rune boundary cuts its rune list there.\<close>

lemma runes_suffix: "runes s = us @ vs \<Longrightarrow> runes (bytes_of_runes vs) = vs"
proof (induction us arbitrary: s)
  case Nil
  then show ?case by (metis append_Nil bytes_of_runes_runes)
next
  case (Cons u us)
  then obtain c cs where s: "s = c # cs" by (cases s) auto
  obtain t where "runes t = us @ vs"
    using Cons.prems s by (cases "decode_rune (c # cs)") auto
  then show ?case by (rule Cons.IH)
qed

lemma runes_step:
  assumes "runes s = u # us"
  shows "s = snd u @ bytes_of_runes us" and "runes (bytes_of_runes us) = us"
proof -
  show "s = snd u @ bytes_of_runes us"
    by (metis assms bytes_of_runes_runes concat.simps(2) list.simps(9))
  show "runes (bytes_of_runes us) = us"
    using runes_suffix [of s "[u]" us] assms by simp
qed

lemma runes_prefix: "runes s = us @ vs \<Longrightarrow> runes (bytes_of_runes us) = us"
proof (induction us arbitrary: s)
  case Nil
  then show ?case by simp
next
  case (Cons u us)
  then have s_eq: "s = snd u @ bytes_of_runes us @ bytes_of_runes vs"
    and tail: "runes (bytes_of_runes us @ bytes_of_runes vs) = us @ vs"
    using runes_step [of s u "us @ vs"] by auto
  have IH: "runes (bytes_of_runes us) = us" by (rule Cons.IH [OF tail])
  from Cons.prems obtain c cs where s: "s = c # cs" by (cases s) auto
  show ?case
  proof (cases "decode_rune s")
    case None
    then have u: "u = (runeError, [c])"
      using Cons.prems s by simp
    have "decode_rune (c # bytes_of_runes us) = None"
      using None s_eq u decode_rune_append [of "c # bytes_of_runes us" _ "bytes_of_runes vs"]
      by (cases "decode_rune (c # bytes_of_runes us)") auto
    then show ?thesis using u IH by simp
  next
    case (Some x)
    obtain r w where x: "x = (r, w)" by (cases x)
    have u: "u = (r, take w s)"
      using Cons.prems s Some x by auto
    have w: "1 \<le> w" "w \<le> length s"
      using decode_rune_width Some x by auto
    have dec: "decode_rune (take w s @ bytes_of_runes us) = Some (r, w)"
      using decode_rune_append [OF decode_rune_take] Some x by simp
    have len: "length (take w s) = w" using w by simp
    obtain d ds where d: "take w s @ bytes_of_runes us = d # ds"
      using len w by (cases "take w s") auto
    have "runes (d # ds) = (r, take w (d # ds)) # runes (drop w (d # ds))"
      using dec d by simp
    then have "runes (take w s @ bytes_of_runes us) = (r, take w s) # runes (bytes_of_runes us)"
      using len by (simp flip: d)
    then show ?thesis using u IH by simp
  qed
qed

section \<open>Trimming\<close>

text \<open>\<open>unicode.IsSpace\<close>: the white-space code points, Latin-1 first.\<close>

definition unicode_IsSpace :: "rune \<Rightarrow> bool" where
  "unicode_IsSpace r \<longleftrightarrow>
     r \<in> {0x09, 0x0A, 0x0B, 0x0C, 0x0D, 0x20, 0x85, 0xA0,
          0x1680, 0x2028, 0x2029, 0x202F, 0x205F, 0x3000} \<or> (0x2000 \<le> r \<and> r \<le> 0x200A)"

text \<open>\<open>unicode.IsControl\<close>: the category Cc, code points below 0x20 and from 0x7F to 0x9F.\<close>

definition unicode_IsControl :: "rune \<Rightarrow> bool" where
  "unicode_IsControl r \<longleftrightarrow> r < 0x20 \<or> (0x7F \<le> r \<and> r < 0xA0)"

definition trim_runes :: "(rune \<times> string) list \<Rightarrow> (rune \<times> string) list" where
  "trim_runes us =
     rev (dropWhile (\<lambda>u. unicode_IsSpace (fst u))
       (rev (dropWhile (\<lambda>u. unicode_IsSpace (fst u)) us)))"

text \<open>
  \<open>strings.TrimSpace\<close>: leading, then trailing white space is removed rune by rune. The library
  reads the trailing runes backwards; UTF-8 is self-synchronising, so they are the last runes of the
  forward reading.
\<close>

definition strings_TrimSpace :: "string \<Rightarrow> string" where
  "strings_TrimSpace s = bytes_of_runes (trim_runes (runes s))"

lemma trim_runes_split: "\<exists>us vs. rs = us @ trim_runes rs @ vs"
proof -
  let ?p = "\<lambda>u. unicode_IsSpace (fst u)"
  have 1: "rs = takeWhile ?p rs @ dropWhile ?p rs" by simp
  have "rev (dropWhile ?p rs) =
      takeWhile ?p (rev (dropWhile ?p rs)) @ dropWhile ?p (rev (dropWhile ?p rs))" by simp
  then have 2: "dropWhile ?p rs =
      trim_runes rs @ rev (takeWhile ?p (rev (dropWhile ?p rs)))"
    unfolding trim_runes_def by (metis rev_append rev_rev_ident)
  from 1 2 show ?thesis by metis
qed

lemma trim_runes_hd: "trim_runes rs \<noteq> [] \<Longrightarrow> \<not> unicode_IsSpace (fst (hd (trim_runes rs)))"
proof -
  let ?p = "\<lambda>u. unicode_IsSpace (fst u)"
  let ?d = "dropWhile ?p rs"
  assume ne: "trim_runes rs \<noteq> []"
  have split: "?d = trim_runes rs @ rev (takeWhile ?p (rev ?d))"
    unfolding trim_runes_def by (metis rev_append rev_rev_ident takeWhile_dropWhile_id)
  with ne have "hd ?d = hd (trim_runes rs)" and "?d \<noteq> []"
    by (metis hd_append2, metis append_is_Nil_conv)
  then show ?thesis by (metis hd_dropWhile)
qed

lemma trim_runes_last: "trim_runes rs \<noteq> [] \<Longrightarrow> \<not> unicode_IsSpace (fst (last (trim_runes rs)))"
  unfolding trim_runes_def by (metis (no_types, lifting) hd_dropWhile last_rev rev_is_Nil_conv)

lemma trim_runes_id:
  assumes "t = [] \<or> \<not> unicode_IsSpace (fst (hd t)) \<and> \<not> unicode_IsSpace (fst (last t))"
  shows "trim_runes t = t"
proof -
  let ?p = "\<lambda>u. unicode_IsSpace (fst u)"
  have 1: "dropWhile ?p t = t" if "t = [] \<or> \<not> ?p (hd t)" for t :: "(rune \<times> string) list"
    using that by (cases t) auto
  have "dropWhile ?p t = t" and "dropWhile ?p (rev t) = rev t"
    using assms by (auto intro!: 1 simp: hd_rev)
  then show ?thesis by (simp only: trim_runes_def rev_rev_ident)
qed

lemma trim_runes_idem [simp]: "trim_runes (trim_runes rs) = trim_runes rs"
  using trim_runes_hd [of rs] trim_runes_last [of rs] by (intro trim_runes_id) blast

lemma runes_TrimSpace: "runes (strings_TrimSpace s) = trim_runes (runes s)"
proof -
  obtain us vs where "runes s = us @ trim_runes (runes s) @ vs"
    using trim_runes_split by blast
  then have "runes (bytes_of_runes (trim_runes (runes s) @ vs)) = trim_runes (runes s) @ vs"
    by (rule runes_suffix)
  then have "runes (bytes_of_runes (trim_runes (runes s))) = trim_runes (runes s)"
    by (rule runes_prefix)
  then show ?thesis by (simp add: strings_TrimSpace_def)
qed

lemma TrimSpace_idem [simp]: "strings_TrimSpace (strings_TrimSpace s) = strings_TrimSpace s"
  by (metis runes_TrimSpace strings_TrimSpace_def trim_runes_idem)

lemma TrimSpace_Nil [simp]: "strings_TrimSpace [] = []"
  by (simp add: strings_TrimSpace_def trim_runes_def)

lemma runes_ascii: "list_all (\<lambda>c. byte_of c < 0x80) s \<Longrightarrow> runes s = map (\<lambda>c. (byte_of c, [c])) s"
  by (induction s) (auto simp: decode_rune.simps Let_def)

text \<open>A string of printable ASCII bytes is its own trimming.\<close>

definition graphic :: "char \<Rightarrow> bool" where
  "graphic c \<longleftrightarrow> 0x20 < byte_of c \<and> byte_of c < 0x7F"

lemma TrimSpace_graphic: "list_all graphic s \<Longrightarrow> strings_TrimSpace s = s"
proof -
  assume g: "list_all graphic s"
  have "list_all (\<lambda>c. byte_of c < 0x80) s"
    using g by (induction s) (auto simp: graphic_def)
  then have r: "runes s = map (\<lambda>c. (byte_of c, [c])) s"
    by (rule runes_ascii)
  have "\<not> unicode_IsSpace (byte_of c)" if "graphic c" for c
    using that by (auto simp: graphic_def unicode_IsSpace_def)
  then have "dropWhile (\<lambda>u. unicode_IsSpace (fst u)) (map (\<lambda>c. (byte_of c, [c])) t) =
      map (\<lambda>c. (byte_of c, [c])) t" if "list_all graphic t" for t
    using that by (cases t) auto
  from this [of s] this [of "rev s"] g have "trim_runes (runes s) = runes s"
    by (simp add: r trim_runes_def rev_map list_all_rev)
  then show ?thesis by (simp add: strings_TrimSpace_def)
qed

end
