(* ===== verification/Go_Id.thy ===== *)
theory Go_Id
  imports Go_Text "HOL-Library.Word" "HOL-Library.List_Lexorder" "HOL-Library.Product_Lexorder"
begin

text \<open>
  The identifier type \<open>ID [16]byte\<close>, which every domain package declares with the same five
  functions (\<open>NewID\<close>, \<open>ParseID\<close>, \<open>IsZero\<close>, \<open>String\<close> and, in the stores, \<open>bytes.Compare\<close>).
  The packages differ only in the sentinel errors \<open>ParseID\<close> returns, which are arguments here;
  each package theory names its own instance.
\<close>

unbundle bit_operations_syntax

section \<open>Bytes and hexadecimal\<close>

type_synonym byte = "8 word"

text \<open>\<open>hex.DecodeString\<close> reads digits of either case and refuses an odd length.\<close>

definition hex_val :: "char \<Rightarrow> nat option" where
  "hex_val c = (let b = byte_of c in
     if 0x30 \<le> b \<and> b \<le> 0x39 then Some (b - 0x30)
     else if 0x61 \<le> b \<and> b \<le> 0x66 then Some (b - 0x61 + 10)
     else if 0x41 \<le> b \<and> b \<le> 0x46 then Some (b - 0x41 + 10)
     else None)"

definition hex_digit :: "nat \<Rightarrow> char" where
  "hex_digit n = (if n < 10 then char_of (0x30 + n) else char_of (0x61 + (n - 10)))"

fun hex_DecodeString :: "string \<Rightarrow> byte list option" where
  "hex_DecodeString [] = Some []"
| "hex_DecodeString [_] = None"
| "hex_DecodeString (c # d # cs) =
     (case (hex_val c, hex_val d, hex_DecodeString cs) of
        (Some h, Some l, Some bs) \<Rightarrow> Some (word_of_nat (16 * h + l) # bs)
      | _ \<Rightarrow> None)"

text \<open>The verb \<open>%x\<close> on a byte slice: two lower-case digits for each byte.\<close>

definition hex_byte :: "byte \<Rightarrow> string" where
  "hex_byte b = [hex_digit (unat b div 16), hex_digit (unat b mod 16)]"

definition hex_bytes :: "byte list \<Rightarrow> string" where
  "hex_bytes bs = concat (map hex_byte bs)"

lemma hex_digit_byte: "n < 16 \<Longrightarrow> byte_of (hex_digit n) = (if n < 10 then 0x30 + n else 0x57 + n)"
  by (simp add: hex_digit_def of_char_of)

lemma hex_val_digit [simp]: "n < 16 \<Longrightarrow> hex_val (hex_digit n) = Some n"
  by (simp add: hex_val_def hex_digit_byte Let_def)

lemma graphic_hex_digit: "n < 16 \<Longrightarrow> graphic (hex_digit n) \<and> hex_digit n \<noteq> CHR ''-''"
proof -
  assume n: "n < 16"
  have "byte_of (hex_digit n) \<noteq> (byte_of CHR ''-'' :: nat)"
    using n by (simp add: hex_digit_byte)
  then have "hex_digit n \<noteq> CHR ''-''" by metis
  moreover have "graphic (hex_digit n)" using n by (simp add: graphic_def hex_digit_byte)
  ultimately show ?thesis by simp
qed

lemma unat_byte_div: "unat (b :: byte) div 16 < 16"
proof -
  have "unat b < 2 ^ LENGTH(8)" by (rule unsigned_less)
  then show ?thesis by simp
qed

lemma hex_DecodeString_hex_bytes [simp]: "hex_DecodeString (hex_bytes bs) = Some bs"
proof (induction bs)
  case Nil
  then show ?case by (simp add: hex_bytes_def)
next
  case (Cons b bs)
  have "word_of_nat (16 * (unat b div 16) + unat b mod 16) = b"
    by simp
  then show ?case
    using Cons.IH unat_byte_div [of b] by (simp add: hex_bytes_def hex_byte_def)
qed

lemma length_hex_bytes [simp]: "length (hex_bytes bs) = 2 * length bs"
  by (induction bs) (auto simp: hex_bytes_def hex_byte_def)

lemma hex_bytes_append: "hex_bytes (xs @ ys) = hex_bytes xs @ hex_bytes ys"
  by (simp add: hex_bytes_def)

lemma hex_bytes_chars: "c \<in> set (hex_bytes bs) \<Longrightarrow> graphic c \<and> c \<noteq> CHR ''-''"
  using graphic_hex_digit [OF unat_byte_div] graphic_hex_digit [of "unat b mod 16" for b]
  by (auto simp: hex_bytes_def hex_byte_def)

lemma hex_DecodeString_length: "hex_DecodeString s = Some bs \<Longrightarrow> length s = 2 * length bs"
  by (induction s arbitrary: bs rule: hex_DecodeString.induct) (auto split: option.splits)

section \<open>The identifier type\<close>

typedef ID = "{bs :: byte list. length bs = 16}"
  morphisms id_bytes Abs_ID
  by (rule exI [of _ "replicate 16 0"]) simp

lemma ID_abstype [code abstype]: "Abs_ID (id_bytes x) = x"
  by (rule id_bytes_inverse)

lemma length_id_bytes [simp]: "length (id_bytes x) = 16"
  using id_bytes by simp

text \<open>The array with the given bytes, padded with zero bytes on the left.\<close>

definition id_of_bytes :: "byte list \<Rightarrow> ID" where
  "id_of_bytes bs = Abs_ID (replicate (16 - length bs) 0 @ drop (length bs - 16) bs)"

lemma id_of_bytes_rep [code abstract]:
  "id_bytes (id_of_bytes bs) = replicate (16 - length bs) 0 @ drop (length bs - 16) bs"
  by (simp add: id_of_bytes_def Abs_ID_inverse)

lemma id_of_bytes_id_bytes [simp]: "id_of_bytes (id_bytes x) = x"
  by (simp add: id_bytes_inject [symmetric] id_of_bytes_rep)

lemma id_bytes_id_of_bytes: "length bs = 16 \<Longrightarrow> id_bytes (id_of_bytes bs) = bs"
  by (simp add: id_of_bytes_rep)

definition zero_id :: ID where
  "zero_id = Abs_ID (replicate 16 0)"

lemma zero_id_rep [code abstract]: "id_bytes zero_id = replicate 16 0"
  by (simp add: zero_id_def Abs_ID_inverse)

instantiation ID :: equal
begin

definition equal_ID :: "ID \<Rightarrow> ID \<Rightarrow> bool" where
  "equal_ID a b \<longleftrightarrow> id_bytes a = id_bytes b"

instance
  by standard (simp add: equal_ID_def id_bytes_inject)

end

text \<open>\<open>bytes.Compare(a[:], b[:]) < 0\<close> is the lexicographic order of the bytes.\<close>

instantiation ID :: linorder
begin

definition less_eq_ID :: "ID \<Rightarrow> ID \<Rightarrow> bool" where
  "less_eq_ID a b \<longleftrightarrow> id_bytes a \<le> id_bytes b"

definition less_ID :: "ID \<Rightarrow> ID \<Rightarrow> bool" where
  "less_ID a b \<longleftrightarrow> id_bytes a < id_bytes b"

instance
  by standard (auto simp: less_eq_ID_def less_ID_def order.strict_iff_order id_bytes_inject)

end

definition ID_IsZero :: "ID \<Rightarrow> bool" where
  "ID_IsZero x \<longleftrightarrow> x = zero_id"

text \<open>
  \<open>NewID\<close> from the result of \<open>rand.Read\<close> on 16 bytes (\<open>None\<close> when it fails): bytes 6 and 8 get the
  version and variant bits of a random UUID.
\<close>

definition stamp_uuid :: "ID \<Rightarrow> ID" where
  "stamp_uuid x = (let bs = id_bytes x in
     Abs_ID (bs[6 := ((bs ! 6) AND 0x0f) OR 0x40, 8 := ((bs ! 8) AND 0x3f) OR 0x80]))"

lemma stamp_uuid_rep [code abstract]:
  "id_bytes (stamp_uuid x) =
     (let bs = id_bytes x in bs[6 := ((bs ! 6) AND 0x0f) OR 0x40, 8 := ((bs ! 8) AND 0x3f) OR 0x80])"
  by (simp add: stamp_uuid_def Let_def Abs_ID_inverse)

definition NewID :: "ID option \<Rightarrow> ID option" where
  "NewID entropy = map_option stamp_uuid entropy"

definition ID_String :: "ID \<Rightarrow> string" where
  "ID_String x = (let b = id_bytes x in
     hex_bytes (take 4 b) @ ''-'' @ hex_bytes (take 2 (drop 4 b)) @ ''-'' @
     hex_bytes (take 2 (drop 6 b)) @ ''-'' @ hex_bytes (take 2 (drop 8 b)) @ ''-'' @
     hex_bytes (drop 10 b))"

definition strip_dashes :: "string \<Rightarrow> string" where
  "strip_dashes s = filter (\<lambda>c. c \<noteq> CHR ''-'') s"

definition ParseID :: "go_error \<Rightarrow> go_error \<Rightarrow> string \<Rightarrow> ID res" where
  "ParseID errInvalid errZeroID s =
     (let s' = strip_dashes (strings_TrimSpace s) in
      if length s' \<noteq> 32 then Inl errInvalid
      else case hex_DecodeString s' of
        None \<Rightarrow> Inl errInvalid
      | Some b \<Rightarrow>
          if length b \<noteq> 16 then Inl errInvalid
          else let x = id_of_bytes b in
               if ID_IsZero x then Inl errZeroID else Inr x)"

lemma zero_id_not_stamped: "stamp_uuid x \<noteq> zero_id"
proof -
  have "id_bytes (stamp_uuid x) ! 6 = (id_bytes x ! 6 AND 0x0f) OR 0x40"
    by (simp add: stamp_uuid_rep Let_def)
  moreover have "bit ((b AND 0x0f) OR 0x40 :: byte) 6" for b
    by (simp add: bit_simps)
  ultimately have "bit (id_bytes (stamp_uuid x) ! 6) 6" by simp
  moreover have "\<not> bit (id_bytes zero_id ! 6) 6"
    by (simp add: zero_id_rep)
  ultimately show ?thesis by metis
qed

lemma NewID_not_zero: "NewID e = Some x \<Longrightarrow> \<not> ID_IsZero x"
  by (cases e) (auto simp: NewID_def ID_IsZero_def zero_id_not_stamped)

lemma strip_dashes_hex: "strip_dashes (hex_bytes bs) = hex_bytes bs"
  unfolding strip_dashes_def by (rule filter_True) (auto dest: hex_bytes_chars)

lemma take_pieces:
  "take 4 b @ take 2 (drop 4 b) @ take 2 (drop 6 b) @ take 2 (drop 8 b) @ drop 10 b = b"
proof -
  have step: "take 2 (drop n b) @ drop (n + 2) b = drop n b" for n
    using append_take_drop_id [of 2 "drop n b"] by (simp add: add.commute)
  show ?thesis
    using step [of 4] step [of 6] step [of 8] append_take_drop_id [of 4 b] by simp
qed

lemma strip_dashes_String: "strip_dashes (ID_String x) = hex_bytes (id_bytes x)"
proof -
  let ?b = "id_bytes x"
  have "strip_dashes (ID_String x) =
      hex_bytes (take 4 ?b) @ hex_bytes (take 2 (drop 4 ?b)) @ hex_bytes (take 2 (drop 6 ?b)) @
      hex_bytes (take 2 (drop 8 ?b)) @ hex_bytes (drop 10 ?b)"
    using strip_dashes_hex by (simp add: ID_String_def Let_def strip_dashes_def)
  also have "\<dots> = hex_bytes (take 4 ?b @ take 2 (drop 4 ?b) @ take 2 (drop 6 ?b) @
      take 2 (drop 8 ?b) @ drop 10 ?b)"
    by (simp add: hex_bytes_append)
  also have "take 4 ?b @ take 2 (drop 4 ?b) @ take 2 (drop 6 ?b) @ take 2 (drop 8 ?b) @
      drop 10 ?b = ?b"
    by (rule take_pieces)
  finally show ?thesis .
qed

lemma TrimSpace_String [simp]: "strings_TrimSpace (ID_String x) = ID_String x"
proof (rule TrimSpace_graphic)
  have "graphic CHR ''-''" by (simp add: graphic_def)
  then show "list_all graphic (ID_String x)"
    by (auto simp: ID_String_def Let_def list_all_iff dest: hex_bytes_chars)
qed

lemma ID_String_ne [simp]: "ID_String x \<noteq> []"
  by (simp add: ID_String_def Let_def)

lemma ParseID_String:
  "ParseID ei ez (ID_String x) = (if ID_IsZero x then Inl ez else Inr x)"
  by (simp add: ParseID_def strip_dashes_String)

lemma ParseID_Inr: "ParseID ei ez s = Inr x \<Longrightarrow> \<not> ID_IsZero x"
  by (auto simp: ParseID_def Let_def split: if_splits option.splits)

lemma ID_String_inject: "ID_String x = ID_String y \<longleftrightarrow> x = y"
  by (metis hex_DecodeString_hex_bytes id_bytes_inject option.inject strip_dashes_String)

section \<open>Listing order\<close>

text \<open>
  The stores sort what they list newest first, ties by ascending identifier (\<open>sort.Slice\<close> with the
  comparison \<open>CreatedAt.After\<close>, then \<open>bytes.Compare\<close>).
\<close>

definition newest_first :: "('a \<Rightarrow> time) \<Rightarrow> ('a \<Rightarrow> ID) \<Rightarrow> 'a list \<Rightarrow> 'a list" where
  "newest_first created ident xs = sort_key (\<lambda>x. (- created x, ident x)) xs"

lemma set_newest_first [simp]: "set (newest_first c i xs) = set xs"
  by (simp add: newest_first_def)

lemma sorted_newest_first: "sorted (map (\<lambda>x. (- c x, i x)) (newest_first c i xs))"
  by (simp add: newest_first_def)

end
