(* ===== verification/Go_Num.thy ===== *)
theory Go_Num
  imports Go_Id Complex_Main
begin

text \<open>
  Decimal amounts (\<open>regexp\<close> and \<open>math/big\<close> as the price code uses them), ISO currency codes, and
  \<open>float64\<close> as far as the coordinate and radius checks use it. The regular expressions
  \<open>amountPattern\<close> and \<open>currencyPattern\<close> are the same in every package that has prices.
\<close>

section \<open>Decimal amounts\<close>

definition is_digit :: "char \<Rightarrow> bool" where
  "is_digit c \<longleftrightarrow> 0x30 \<le> byte_of c \<and> byte_of c \<le> (0x39 :: nat)"

definition is_upper :: "char \<Rightarrow> bool" where
  "is_upper c \<longleftrightarrow> 0x41 \<le> byte_of c \<and> byte_of c \<le> (0x5A :: nat)"

text \<open>The part after the leading digits: nothing, or a dot and one to eight digits.\<close>

fun fraction_ok :: "string \<Rightarrow> bool" where
  "fraction_ok [] \<longleftrightarrow> True"
| "fraction_ok (c # ds) \<longleftrightarrow>
     c = CHR ''.'' \<and> 1 \<le> length ds \<and> length ds \<le> 8 \<and> list_all is_digit ds"

definition amountPattern :: "string \<Rightarrow> bool" where
  "amountPattern s \<longleftrightarrow> takeWhile is_digit s \<noteq> [] \<and> fraction_ok (dropWhile is_digit s)"

definition currencyPattern :: "string \<Rightarrow> bool" where
  "currencyPattern s \<longleftrightarrow> length s = 3 \<and> list_all is_upper s"

definition digits_value :: "string \<Rightarrow> nat" where
  "digits_value ds = foldl (\<lambda>n c. 10 * n + (byte_of c - 0x30)) 0 ds"

text \<open>
  \<open>big.Rat\<close> as numerator and denominator. \<open>SetString\<close> is called only on texts that match
  \<open>amountPattern\<close>, and the model covers those: it reads them exactly and never fails on them.
\<close>

type_synonym big_Rat = "nat \<times> nat"

definition big_Rat_SetString :: "string \<Rightarrow> big_Rat option" where
  "big_Rat_SetString s =
     (if amountPattern s then
        let frac = drop 1 (dropWhile is_digit s)
        in Some (digits_value (takeWhile is_digit s @ frac), 10 ^ length frac)
      else None)"

text \<open>\<open>x.Cmp(y) > 0\<close>\<close>

fun big_Rat_greater :: "big_Rat \<Rightarrow> big_Rat \<Rightarrow> bool" where
  "big_Rat_greater (a, b) (c, d) \<longleftrightarrow> c * b < a * d"

lemma big_Rat_SetString_ok: "amountPattern s \<Longrightarrow> \<exists>r. big_Rat_SetString s = Some r"
  by (simp add: big_Rat_SetString_def Let_def)

lemma amountPattern_ne: "amountPattern s \<Longrightarrow> s \<noteq> []"
  by (auto simp: amountPattern_def)

lemma currencyPattern_ne: "currencyPattern s \<Longrightarrow> s \<noteq> []"
  by (auto simp: currencyPattern_def)

lemma graphic_digit: "is_digit c \<Longrightarrow> graphic c"
  by (simp add: is_digit_def graphic_def)

lemma fraction_graphic: "fraction_ok s \<Longrightarrow> list_all graphic s"
  by (cases s) (auto simp: list_all_iff graphic_digit, simp add: graphic_def)

lemma amountPattern_graphic: "amountPattern s \<Longrightarrow> list_all graphic s"
proof -
  assume a: "amountPattern s"
  have "list_all graphic (takeWhile is_digit s)"
    by (auto simp: list_all_iff graphic_digit dest: set_takeWhileD)
  moreover have "list_all graphic (dropWhile is_digit s)"
    using a by (simp add: amountPattern_def fraction_graphic)
  ultimately have "list_all graphic (takeWhile is_digit s @ dropWhile is_digit s)"
    by (simp only: list_all_append)
  then show ?thesis by simp
qed

lemma currencyPattern_graphic: "currencyPattern s \<Longrightarrow> list_all graphic s"
  by (auto simp: currencyPattern_def list_all_iff is_upper_def graphic_def)

lemma TrimSpace_amount [simp]: "amountPattern s \<Longrightarrow> strings_TrimSpace s = s"
  by (simp add: TrimSpace_graphic amountPattern_graphic)

lemma TrimSpace_currency [simp]: "currencyPattern s \<Longrightarrow> strings_TrimSpace s = s"
  by (simp add: TrimSpace_graphic currencyPattern_graphic)

section \<open>Floating-point comparisons\<close>

text \<open>
  A \<open>float64\<close> is a finite number (a dyadic rational, read exactly), an infinity or not-a-number.
  The modelled code compares such values and stores them; it does no arithmetic on them.
\<close>

datatype float64 = NaN | PosInf | NegInf | Finite rat

fun math_IsNaN :: "float64 \<Rightarrow> bool" where
  "math_IsNaN NaN \<longleftrightarrow> True"
| "math_IsNaN _ \<longleftrightarrow> False"

text \<open>\<open>math.IsInf(f, 0)\<close>\<close>

fun math_IsInf :: "float64 \<Rightarrow> bool" where
  "math_IsInf PosInf \<longleftrightarrow> True"
| "math_IsInf NegInf \<longleftrightarrow> True"
| "math_IsInf _ \<longleftrightarrow> False"

fun float_less :: "float64 \<Rightarrow> float64 \<Rightarrow> bool" where
  "float_less NaN _ \<longleftrightarrow> False"
| "float_less _ NaN \<longleftrightarrow> False"
| "float_less (Finite x) (Finite y) \<longleftrightarrow> x < y"
| "float_less NegInf y \<longleftrightarrow> y \<noteq> NegInf"
| "float_less x PosInf \<longleftrightarrow> x \<noteq> PosInf"
| "float_less _ _ \<longleftrightarrow> False"

lemma float_finite_cases: "\<not> math_IsNaN f \<Longrightarrow> \<not> math_IsInf f \<Longrightarrow> \<exists>x. f = Finite x"
  by (cases f) auto

section \<open>Concrete identifiers\<close>

text \<open>Identifiers with one non-zero byte, for the closed instances of the theorems.\<close>

definition id_n :: "nat \<Rightarrow> ID" where
  "id_n n = id_of_bytes [word_of_nat n]"

lemma id_bytes_id_n: "id_bytes (id_n n) = replicate 15 0 @ [word_of_nat n]"
  by (simp add: id_n_def id_of_bytes_rep)

lemma word_of_nat_byte_inject:
  "n < 256 \<Longrightarrow> m < 256 \<Longrightarrow> (word_of_nat n :: byte) = word_of_nat m \<longleftrightarrow> n = m"
proof -
  assume "n < 256" "m < 256"
  then have "unat (word_of_nat n :: byte) = n" and "unat (word_of_nat m :: byte) = m"
    by (simp_all add: unsigned_of_nat take_bit_nat_eq_self)
  then show ?thesis by metis
qed

lemma id_n_inject [simp]: "n < 256 \<Longrightarrow> m < 256 \<Longrightarrow> id_n n = id_n m \<longleftrightarrow> n = m"
  by (simp add: id_bytes_inject [symmetric] id_bytes_id_n word_of_nat_byte_inject)

lemma id_n_not_zero [simp]: "0 < n \<Longrightarrow> n < 256 \<Longrightarrow> \<not> ID_IsZero (id_n n)"
proof -
  assume n: "0 < n" "n < 256"
  have "zero_id = id_n 0"
    by (simp add: id_bytes_inject [symmetric] id_bytes_id_n zero_id_rep numeral_eq_Suc)
  then show ?thesis using n id_n_inject [of n 0] by (simp add: ID_IsZero_def)
qed

lemma TrimSpace_Boya [simp]: "strings_TrimSpace ''Boya'' = ''Boya''"
  by (rule TrimSpace_graphic) (simp add: graphic_def)

end
