(* ===== verification/Go_Service.thy ===== *)
theory Go_Service
  imports Go_Num
begin

text \<open>
  What the service layers of the domain packages share: the request context, reading the clock and
  the random source, the units of work of \<open>runMaybeTx\<close>, the outbox events they enqueue, and the
  interfaces (locales) they rely on: \<open>unit_of_work\<close> for a \<open>Transactor\<close> and \<open>occ_store\<close> for a store
  with optimistic concurrency control.
\<close>

section \<open>Context, clock and random source\<close>

text \<open>
  The context of a request: what \<open>ctx.Err()\<close> returns, and whether \<open>db.WithTx\<close> attached a database
  transaction to it (\<open>db.TxFrom(ctx) != nil\<close>).
\<close>

record ctx =
  ctx_Err :: "go_error option"
  ctx_tx :: bool

definition background :: ctx where
  "background = \<lparr>ctx_Err = None, ctx_tx = False\<rparr>"

definition WithTx :: "ctx \<Rightarrow> ctx" where
  "WithTx c = c\<lparr>ctx_tx := True\<rparr>"

text \<open>A reading of the world that cannot fail (the clock, the random source), and its use.\<close>

definition gread :: "('w \<Rightarrow> 'w \<times> 'a) \<Rightarrow> ('a \<Rightarrow> ('w, 'b) go) \<Rightarrow> ('w, 'b) go" where
  [go_defs]: "gread f k = (\<lambda>w. case f w of (w', x) \<Rightarrow> k x w')"

text \<open>A dependency that may be nil.\<close>

definition gneed :: "'a option \<Rightarrow> go_error \<Rightarrow> ('a \<Rightarrow> ('w, 'b) go) \<Rightarrow> ('w, 'b) go" where
  [go_defs]: "gneed d e k = (case d of None \<Rightarrow> gfail e | Some x \<Rightarrow> k x)"

text \<open>\<open>defer f()\<close>: run after the body, whatever it returned.\<close>

definition gdefer :: "('w \<Rightarrow> 'w) \<Rightarrow> ('w, 'a) go \<Rightarrow> ('w, 'a) go" where
  [go_defs]: "gdefer f m = (\<lambda>w. case m w of (w', r) \<Rightarrow> (f w', r))"

text \<open>
  An operation of a component whose state \<open>'s\<close> lives in the world: the component is reached through
  a field of the world (its reader and its updater), as a Go struct holds a pointer to it.
\<close>

definition zoom :: "('w \<Rightarrow> 's) \<Rightarrow> (('s \<Rightarrow> 's) \<Rightarrow> 'w \<Rightarrow> 'w) \<Rightarrow> ('s, 'a) go \<Rightarrow> ('w, 'a) go" where
  "zoom get upd m = (\<lambda>w. case m (get w) of (s', r) \<Rightarrow> (upd (\<lambda>_. s') w, r))"

lemma gneed_simps [simp]:
  "gneed None e k = gfail e"  "gneed (Some x) e k = k x"
  by (simp_all add: gneed_def)

lemma gread_apply: "gread f k w = (case f w of (w', x) \<Rightarrow> k x w')"
  by (simp add: gread_def)

lemma gneed_InrD: "gneed d e k w = (w', Inr y) \<Longrightarrow> \<exists>x. d = Some x \<and> k x w = (w', Inr y)"
  by (cases d) auto

section \<open>JSON\<close>

text \<open>
  A JSON document as \<open>encoding/json\<close> sees it, with the members of an object in the order of the
  text. Raw bytes that are not valid JSON are \<open>None\<close> where a document is optional.
\<close>

datatype json =
  JNull | JBool bool | JNum string | JStr string | JArr "json list" | JObj "(string \<times> json) list"

text \<open>\<open>json.Marshal\<close> of a struct whose fields are strings; \<open>omitempty\<close> drops the empty ones.\<close>

definition json_object :: "(string \<times> string) list \<Rightarrow> json" where
  "json_object ms = JObj (map (\<lambda>(k, v). (k, JStr v)) ms)"

definition omitempty :: "string \<Rightarrow> string \<Rightarrow> (string \<times> string) list" where
  "omitempty k v = (if v = [] then [] else [(k, v)])"

text \<open>
  \<open>json.Unmarshal\<close> into a struct whose fields are strings. A member belongs to the field whose name
  it equals up to case folding (the letters k and s also have the folds U+212A and U+017F), a later
  member overwrites an earlier one, \<open>null\<close> leaves the field alone and any other value is an error.
\<close>

definition json_fold :: "string \<Rightarrow> rune list" where
  "json_fold k = map (\<lambda>u. let r = fst u in
     if 0x41 \<le> r \<and> r \<le> 0x5A then r + 32
     else if r = 0x212A then 0x6B else if r = 0x17F then 0x73 else r) (runes k)"

fun unmarshal_members ::
  "string list \<Rightarrow> (string \<times> json) list \<Rightarrow> (string \<times> string) list \<Rightarrow> (string \<times> string) list option" where
  "unmarshal_members names [] acc = Some acc"
| "unmarshal_members names ((k, v) # ms) acc =
     (case find (\<lambda>f. json_fold f = json_fold k) names of
        None \<Rightarrow> unmarshal_members names ms acc
      | Some f \<Rightarrow>
          (case v of
             JStr s \<Rightarrow> unmarshal_members names ms (AList.update f s acc)
           | JNull \<Rightarrow> unmarshal_members names ms acc
           | _ \<Rightarrow> None))"

definition json_Unmarshal_strings :: "string list \<Rightarrow> json option \<Rightarrow> (string \<times> string) list option" where
  "json_Unmarshal_strings names raw =
     (case raw of
        Some (JObj ms) \<Rightarrow> unmarshal_members names ms []
      | Some JNull \<Rightarrow> Some []
      | _ \<Rightarrow> None)"

definition string_field :: "(string \<times> string) list \<Rightarrow> string \<Rightarrow> string" where
  "string_field acc f = (case map_of acc f of None \<Rightarrow> [] | Some s \<Rightarrow> s)"

text \<open>Decoding what was encoded, for field names that differ up to case.\<close>

lemma find_fold:
  "distinct (map json_fold names) \<Longrightarrow> k \<in> set names \<Longrightarrow>
   find (\<lambda>f. json_fold f = json_fold k) names = Some k"
  by (induction names) (auto simp: image_iff)

lemma unmarshal_members_object:
  assumes "distinct (map json_fold names)" and "fst ` set ms \<subseteq> set names"
  shows "unmarshal_members names (map (\<lambda>(k, v). (k, JStr v)) ms) acc =
    Some (foldl (\<lambda>a (k, v). AList.update k v a) acc ms)"
  using assms(2)
proof (induction ms arbitrary: acc)
  case (Cons m ms)
  obtain k v where m: "m = (k, v)" by fastforce
  then have "find (\<lambda>f. json_fold f = json_fold k) names = Some k"
    using Cons.prems by (intro find_fold [OF assms(1)]) simp
  with Cons m show ?case by simp
qed simp

lemma map_of_foldl_update:
  "map_of (foldl (\<lambda>a (k, v). AList.update k v a) acc ms) = map_of acc ++ map_of (rev ms)"
  by (induction ms arbitrary: acc) (auto simp: map_add_def fun_eq_iff split: option.split)

lemma json_roundtrip_strings:
  assumes "distinct (map json_fold names)" and "fst ` set ms \<subseteq> set names"
    and "distinct (map fst ms)"
  shows "\<exists>acc. json_Unmarshal_strings names (Some (json_object ms)) = Some acc \<and>
    map_of acc = map_of ms"
proof -
  have "map_of (rev ms) = map_of ms"
    using assms(3) by (simp add: map_of_inject_set distinct_map flip: rev_map)
  then show ?thesis
    using unmarshal_members_object [OF assms(1,2), of "[]"] map_of_foldl_update [of "[]" ms]
    by (simp add: json_Unmarshal_strings_def json_object_def)
qed

text \<open>Field names of lower-case letters and underscores are their own folding.\<close>

definition plain_name :: "string \<Rightarrow> bool" where
  "plain_name s \<longleftrightarrow> list_all (\<lambda>c. 0x61 \<le> byte_of c \<and> byte_of c \<le> 0x7A \<or> c = CHR ''_'') s"

lemma plain_name_fold: "plain_name s \<Longrightarrow> json_fold s = map byte_of s"
proof -
  assume p: "plain_name s"
  then have "list_all (\<lambda>c. byte_of c < 0x80) s"
    by (auto simp: plain_name_def list_all_iff)
  then have "runes s = map (\<lambda>c. (byte_of c, [c])) s" by (rule runes_ascii)
  moreover have "\<not> (0x41 \<le> byte_of c \<and> byte_of c \<le> 0x5A) \<and> byte_of c \<noteq> 0x212A \<and> byte_of c \<noteq> 0x17F"
    if "c \<in> set s" for c
    using p that by (auto simp: plain_name_def list_all_iff)
  ultimately show ?thesis by (simp add: json_fold_def Let_def)
qed

lemma distinct_fold:
  "list_all plain_name ns \<Longrightarrow> distinct ns \<Longrightarrow> distinct (map json_fold ns)"
proof -
  assume p: "list_all plain_name ns" and d: "distinct ns"
  have "map json_fold ns = map (map byte_of) ns"
    using p by (auto simp: plain_name_fold list_all_iff)
  moreover have "inj byte_of" by (rule inj_of_char)
  then have "inj (map byte_of)" by (rule inj_mapI)
  ultimately show ?thesis using d unfolding distinct_map by (metis distinct_map inj_on_subset subset_UNIV)
qed

lemma json_roundtrip:
  assumes "list_all plain_name names" and "distinct names" and "fst ` set ms \<subseteq> set names"
    and "distinct (map fst ms)"
  shows "\<exists>acc. json_Unmarshal_strings names (Some (json_object ms)) = Some acc \<and>
    string_field acc = (\<lambda>k. case map_of ms k of None \<Rightarrow> [] | Some v \<Rightarrow> v)"
  using json_roundtrip_strings [OF distinct_fold [OF assms(1,2)] assms(3,4)]
  by (auto simp: string_field_def fun_eq_iff)

section \<open>Outbox events as the producers build them\<close>

text \<open>\<open>outbox.NewEvent\<close> (\<open>platform/outbox/outbox.go\<close>).\<close>

record new_event =
  ev_EventType :: string
  ev_EventVersion :: int
  ev_AggregateType :: string
  ev_AggregateID :: string
  ev_Payload :: "json option"
  ev_IdempotencyKey :: string
  ev_CorrelationID :: string

type_synonym 'w enqueuer = "ctx \<Rightarrow> new_event \<Rightarrow> ('w, unit) go"

text \<open>
  The services enqueue after they encoded the event. A conflict on the idempotency key means that the
  event is already there and counts as success; any other error is mapped.
\<close>

definition enqueue_event ::
  "(go_error \<Rightarrow> go_error) \<Rightarrow> 'w enqueuer option \<Rightarrow> ctx \<Rightarrow> new_event res \<Rightarrow> ('w, unit) go" where
  "enqueue_event mapErr ob c ev =
     (case ob of
        None \<Rightarrow> gret ()
      | Some enq \<Rightarrow>
          gbind (gpure ev) (\<lambda>e.
          gcase (enq c e)
            (\<lambda>err. if err = ObErr Ob_ErrConflict then gret () else gfail (mapErr err))
            (\<lambda>_. gret ())))"

section \<open>Units of work\<close>

text \<open>
  The interfaces \<open>Transactor\<close> and \<open>Tx\<close> (\<open>tx.go\<close> of the packages). A transaction lives in the world
  between \<open>Begin\<close> and the end of \<open>Rollback\<close>.
\<close>

record 'w transactor =
  tx_Begin :: "ctx \<Rightarrow> ('w, unit) go"
  tx_Commit :: "ctx \<Rightarrow> ('w, unit) go"
  tx_Rollback :: "ctx \<Rightarrow> 'w \<Rightarrow> 'w"

text \<open>
  The body of the four identical functions \<open>runMaybeTx\<close>; each package passes its own mapping of errors.
  The result of \<open>fn\<close> is what its closure hands to the caller beside the error.
\<close>

definition run_maybe_tx ::
  "(go_error \<Rightarrow> go_error) \<Rightarrow> 'w enqueuer option \<Rightarrow> 'w transactor option \<Rightarrow> ctx \<Rightarrow>
   (ctx \<Rightarrow> ('w, 'a) go) \<Rightarrow> ('w, 'a) go" where
  "run_maybe_tx mapErr ob tx c fn =
     (case (ob, tx) of
        (Some _, Some t) \<Rightarrow>
          if \<not> ctx_tx c then
            gcase (tx_Begin t c) (\<lambda>e. gfail (mapErr e)) (\<lambda>_.
            gdefer (tx_Rollback t c)
              (gbind (fn (WithTx c)) (\<lambda>x.
               gcase (tx_Commit t c) (\<lambda>e. gfail (mapErr e)) (\<lambda>_. gret x))))
          else fn c
      | _ \<Rightarrow> fn c)"

text \<open>
  What the packages rely on in a \<open>Transactor\<close>. \<open>data\<close> is what a reader of the database sees and
  \<open>saved\<close> what it was when the running transaction began. \<open>Rollback\<close> after a successful \<open>Commit\<close>
  changes nothing.
\<close>

locale unit_of_work =
  fixes tx :: "'w transactor"
    and data :: "'w \<Rightarrow> 'd"
    and saved :: "'w \<Rightarrow> 'd option"
  assumes begin_ok:
      "saved w = None \<Longrightarrow> tx_Begin tx c w = (w', Inr ()) \<Longrightarrow>
       data w' = data w \<and> saved w' = Some (data w)"
    and begin_err:
      "tx_Begin tx c w = (w', Inl e) \<Longrightarrow> data w' = data w \<and> saved w' = saved w"
    and commit_ok:
      "tx_Commit tx c w = (w', Inr ()) \<Longrightarrow> data w' = data w \<and> saved w' = None"
    and commit_err:
      "tx_Commit tx c w = (w', Inl e) \<Longrightarrow>
       data w' = data w \<and> (saved w' = saved w \<or> saved w' = None)"
    and rollback_saved: "saved w = Some d \<Longrightarrow> data (tx_Rollback tx c w) = d"
    and rollback_none: "saved w = None \<Longrightarrow> data (tx_Rollback tx c w) = data w"
    and rollback_ends: "saved (tx_Rollback tx c w) = None"
begin

lemma run_tx_cases:
  assumes "saved w = None" and "\<not> ctx_tx c"
    and keep: "\<And>w. saved (fst (fn (WithTx c) w)) = saved w"
    and run: "run_maybe_tx mp (Some ob) (Some tx) c fn w = (w', r)"
  shows "saved w' = None \<and>
    (case r of
       Inr x \<Rightarrow> \<exists>w1 w2. tx_Begin tx c w = (w1, Inr ()) \<and> fn (WithTx c) w1 = (w2, Inr x) \<and>
         (\<exists>w3. tx_Commit tx c w2 = (w3, Inr ())) \<and> data w1 = data w \<and> data w' = data w2
     | Inl e \<Rightarrow> data w' = data w \<or>
         (\<exists>w1 w2 w3 x e'. tx_Begin tx c w = (w1, Inr ()) \<and> fn (WithTx c) w1 = (w2, Inr x) \<and>
            tx_Commit tx c w2 = (w3, Inl e') \<and> data w1 = data w \<and> data w' = data w2))"
proof (cases "tx_Begin tx c w")
  case (Pair w1 b)
  show ?thesis
  proof (cases b)
    case (Inl e1)
    with Pair run assms(2) begin_err [of c w w1 e1] assms(1) show ?thesis
      by (auto simp: run_maybe_tx_def gcase_apply)
  next
    case (Inr u)
    then have b1: "tx_Begin tx c w = (w1, Inr ())" using Pair by simp
    have s1: "data w1 = data w" "saved w1 = Some (data w)" using begin_ok [OF assms(1) b1] by auto
    obtain w2 r2 where f: "fn (WithTx c) w1 = (w2, r2)" by fastforce
    then have s2: "saved w2 = Some (data w)" using keep [of w1] s1(2) by simp
    show ?thesis
    proof (cases r2)
      case (Inl e2)
      then have "w' = tx_Rollback tx c w2" "r = Inl e2"
        using run assms(2) b1 f by (auto simp: run_maybe_tx_def go_apply gdefer_def)
      then show ?thesis using rollback_saved [OF s2] rollback_ends by simp
    next
      case (Inr x)
      obtain w3 r3 where cm: "tx_Commit tx c w2 = (w3, r3)" by fastforce
      have w': "w' = tx_Rollback tx c w3" and r: "r = (case r3 of Inl e \<Rightarrow> Inl (mp e) | Inr _ \<Rightarrow> Inr x)"
        using run assms(2) b1 f Inr cm
        by (auto simp: run_maybe_tx_def go_apply gdefer_def split: sum.splits)
      show ?thesis
      proof (cases r3)
        case (Inl e3)
        have d: "data w3 = data w2" "saved w3 = Some (data w) \<or> saved w3 = None"
          using commit_err [of c w2 w3 e3] cm Inl s2 by auto
        then have "data w' = data w \<or> data w' = data w2"
          using w' rollback_saved [of w3 "data w" c] rollback_none [of w3 c] by auto
        then show ?thesis using r Inl b1 f Inr cm s1(1) w' rollback_ends by auto
      next
        case (Inr u3)
        then have "data w3 = data w2" "saved w3 = None" using commit_ok cm by auto
        then show ?thesis
          using r Inr b1 f \<open>r2 = Inr x\<close> cm s1(1) w' rollback_ends rollback_none by auto
      qed
    qed
  qed
qed

text \<open>All or nothing: whatever fails, the data are the old ones or those the whole body left.\<close>

lemma run_tx_atomic:
  assumes "saved w = None" and "\<not> ctx_tx c"
    and keep: "\<And>w. saved (fst (fn (WithTx c) w)) = saved w"
    and run: "run_maybe_tx mp (Some ob) (Some tx) c fn w = (w', r)"
  shows "saved w' = None \<and> (data w' = data w \<or>
    (\<exists>w1 w2 x. tx_Begin tx c w = (w1, Inr ()) \<and> data w1 = data w \<and> fn (WithTx c) w1 = (w2, Inr x) \<and>
       data w' = data w2))"
  using run_tx_cases [OF assms] by (cases r) (auto; metis)+

end

section \<open>What a successful call has done\<close>

text \<open>Inverting a call that succeeded: every step of it succeeded.\<close>

lemma gneed_InrE: "gneed d e k w = (w', Inr y) \<Longrightarrow> (\<And>x. d = Some x \<Longrightarrow> k x w = (w', Inr y) \<Longrightarrow> P) \<Longrightarrow> P"
  by (cases d) auto

lemma gguard_InrE: "gguard g k w = (w', Inr y) \<Longrightarrow> (g = None \<Longrightarrow> k w = (w', Inr y) \<Longrightarrow> P) \<Longrightarrow> P"
  by (cases g) auto

lemma gmaperr_InrE: "gmaperr f m w = (w', Inr y) \<Longrightarrow> (m w = (w', Inr y) \<Longrightarrow> P) \<Longrightarrow> P"
  by (drule gmaperr_InrD) blast

lemma gread_InrE:
  "gread f k w = (w', Inr y) \<Longrightarrow> (k (snd (f w)) (fst (f w)) = (w', Inr y) \<Longrightarrow> P) \<Longrightarrow> P"
  by (simp add: gread_apply case_prod_beta)

lemma gcheck_InrE: "(if b then gfail e else k) w = (w', Inr y) \<Longrightarrow> (\<not> b \<Longrightarrow> k w = (w', Inr y) \<Longrightarrow> P) \<Longrightarrow> P"
  by (cases b) auto

lemma gsome_InrE:
  "(case d of None \<Rightarrow> gfail e | Some x \<Rightarrow> k x) w = (w', Inr y) \<Longrightarrow>
   (\<And>x. d = Some x \<Longrightarrow> k x w = (w', Inr y) \<Longrightarrow> P) \<Longrightarrow> P"
  by (cases d) auto

lemma gpure_InrE: "gpure x w = (w', Inr y) \<Longrightarrow> (x = Inr y \<Longrightarrow> w' = w \<Longrightarrow> P) \<Longrightarrow> P"
  by (simp add: gpure_def)

lemma gret_InrE: "gret x w = (w', Inr y) \<Longrightarrow> (w' = w \<Longrightarrow> y = x \<Longrightarrow> P) \<Longrightarrow> P"
  by simp

lemmas go_InrE = gbind_InrE gneed_InrE gguard_InrE gmaperr_InrE gread_InrE gcheck_InrE gsome_InrE gpure_InrE gret_InrE

lemma run_maybe_tx_InrE:
  assumes "run_maybe_tx mp ob tx c fn w = (w', Inr x)"
  obtains c' wa wb where "fn c' wa = (wb, Inr x)"
  using assms
  by (auto simp: run_maybe_tx_def gdefer_def gcase_apply gbind_apply split: option.splits if_splits prod.splits sum.splits)

section \<open>What a call leaves alone\<close>

text \<open>
  \<open>keeps le m\<close>: whatever the call \<open>m\<close> does, the world after it is related to the world before. For a
  reflexive and transitive relation this is closed under the ways the code composes calls.
\<close>

definition keeps :: "('w \<Rightarrow> 'w \<Rightarrow> bool) \<Rightarrow> ('w, 'a) go \<Rightarrow> bool" where
  "keeps le m \<longleftrightarrow> (\<forall>w. le w (fst (m w)))"

locale world_order =
  fixes le :: "'w \<Rightarrow> 'w \<Rightarrow> bool"
  assumes le_refl: "le w w"
    and le_trans: "le u v \<Longrightarrow> le v w \<Longrightarrow> le u w"
begin

lemma keeps_gret [simp, intro]: "keeps le (gret x)"
  and keeps_gfail [simp, intro]: "keeps le (gfail e)"
  and keeps_gpure [simp, intro]: "keeps le (gpure r)"
  by (simp_all add: keeps_def le_refl gpure_def)

lemma keeps_gcase [intro]:
  assumes "keeps le m" and "\<And>e. keeps le (h e)" and "\<And>x. keeps le (k x)"
  shows "keeps le (gcase m h k)"
  unfolding keeps_def
proof
  fix w
  obtain w1 r where m: "m w = (w1, r)" by fastforce
  have w1: "le w w1" using assms(1) m unfolding keeps_def by (metis fst_conv)
  have h: "le w1 (fst (h e w1))" and k: "le w1 (fst (k x w1))" for e x
    using assms(2,3) by (simp_all add: keeps_def)
  show "le w (fst (gcase m h k w))"
    using le_trans [OF w1 h] le_trans [OF w1 k] m by (cases r) (simp_all add: gcase_apply)
qed

lemma keeps_gbind [intro]:
  "keeps le m \<Longrightarrow> (\<And>x. keeps le (k x)) \<Longrightarrow> keeps le (gbind m k)"
  unfolding gbind_def by auto

lemma keeps_gmaperr [intro]: "keeps le m \<Longrightarrow> keeps le (gmaperr f m)"
  unfolding gmaperr_def by auto

lemma keeps_gguard [intro]: "keeps le k \<Longrightarrow> keeps le (gguard g k)"
  unfolding gguard_def by (auto split: option.splits)

lemma keeps_gneed [intro]: "(\<And>x. d = Some x \<Longrightarrow> keeps le (k x)) \<Longrightarrow> keeps le (gneed d e k)"
  by (cases d) auto

lemma keeps_gread [intro]:
  assumes f: "\<And>w. le w (fst (f w))" and k: "\<And>x. keeps le (k x)"
  shows "keeps le (gread f k)"
  unfolding keeps_def
proof
  fix w
  have "le (fst (f w)) (fst (k (snd (f w)) (fst (f w))))" using k by (simp add: keeps_def)
  then show "le w (fst (gread f k w))"
    using f [of w] le_trans by (auto simp: gread_apply split: prod.splits)
qed

lemma keeps_if [intro]: "keeps le m \<Longrightarrow> keeps le n \<Longrightarrow> keeps le (if b then m else n)"
  by simp

lemma keeps_gdefer [intro]:
  assumes m: "keeps le m" and f: "\<And>w. le w (f w)"
  shows "keeps le (gdefer f m)"
proof -
  have "le w (f (fst (m w)))" for w
    using le_trans [of w "fst (m w)" "f (fst (m w))"] m f unfolding keeps_def by blast
  then show ?thesis by (simp add: keeps_def gdefer_def case_prod_unfold)
qed

lemma keeps_run_tx [intro]:
  assumes tx: "\<And>t c. tx = Some t \<Longrightarrow> keeps le (tx_Begin t c) \<and> keeps le (tx_Commit t c) \<and> (\<forall>w. le w (tx_Rollback t c w))"
    and fn: "\<And>c. keeps le (fn c)"
  shows "keeps le (run_maybe_tx mp ob tx c fn)"
proof (cases "ob = None \<or> tx = None \<or> ctx_tx c")
  case True
  then show ?thesis using fn by (auto simp: run_maybe_tx_def split: option.split)
next
  case False
  then obtain o' t where o: "ob = Some o'" and t: "tx = Some t" by auto
  have run: "run_maybe_tx mp ob tx c fn =
      gcase (tx_Begin t c) (\<lambda>e. gfail (mp e)) (\<lambda>_.
        gdefer (tx_Rollback t c)
          (gbind (fn (WithTx c)) (\<lambda>x. gcase (tx_Commit t c) (\<lambda>e. gfail (mp e)) (\<lambda>_. gret x))))"
    using False by (simp add: run_maybe_tx_def o t)
  show ?thesis
    unfolding run using tx [OF t] fn
    by (intro keeps_gcase keeps_gdefer keeps_gbind keeps_gfail keeps_gret) auto
qed

lemma keeps_enqueue [intro]:
  assumes "\<And>enq e. ob = Some enq \<Longrightarrow> keeps le (enq c e)"
  shows "keeps le (enqueue_event mp ob c ev)"
proof (cases ob)
  case None
  then show ?thesis by (simp add: enqueue_event_def)
next
  case (Some enq)
  show ?thesis
    unfolding enqueue_event_def Some option.case
    by (intro keeps_gbind keeps_gcase keeps_gpure keeps_if keeps_gret keeps_gfail assms [OF Some])
qed

end

end
