(* ===== verification/Occ_Store.thy ===== *)
theory Occ_Store
  imports Go_Service
begin

text \<open>
  The store interface the domain packages share (\<open>store.go\<close> of \<open>needs\<close>, \<open>offers\<close>, \<open>transactions\<close>,
  \<open>deliveries\<close>, \<open>payments\<close> and \<open>disputes\<close>): rows under an identifier, and an update that names the
  \<open>UpdatedAt\<close> of the row it was computed from (optimistic concurrency control). The locale
  \<open>occ_store\<close> states the contract over an abstract table; the packages interpret it with their
  stores. What follows from the contract for concurrent requests is proved here once.
\<close>

section \<open>The contract\<close>

locale occ_store =
  fixes key :: "'e \<Rightarrow> ID"
    and ver :: "'e \<Rightarrow> time"
    and validate :: "'e \<Rightarrow> go_error option"
    and frame :: "'e \<Rightarrow> 'e \<Rightarrow> bool"
    and table :: "'s \<Rightarrow> ID \<Rightarrow> 'e option"
    and inv :: "'s \<Rightarrow> bool"
    and create :: "'e \<Rightarrow> ('s, unit) go"
    and get :: "ID \<Rightarrow> ('s, 'e) go"
    and update :: "'e \<Rightarrow> time \<Rightarrow> ('s, unit) go"
  assumes get_ok: "inv s \<Longrightarrow> get k s = (s', Inr e) \<Longrightarrow> s' = s \<and> table s k = Some e"
    and get_err: "inv s \<Longrightarrow> get k s = (s', Inl x) \<Longrightarrow> s' = s"
    and create_ok: "inv s \<Longrightarrow> create e s = (s', Inr u) \<Longrightarrow>
      inv s' \<and> table s (key e) = None \<and> table s' = (table s)(key e \<mapsto> e)"
    and create_err: "inv s \<Longrightarrow> create e s = (s', Inl x) \<Longrightarrow> inv s' \<and> table s' = table s"
    and update_ok: "inv s \<Longrightarrow> update e v s = (s', Inr u) \<Longrightarrow>
      (\<exists>c. table s (key e) = Some c \<and> ver c = v) \<and> table s' = (table s)(key e \<mapsto> e)"
    and update_inv: "inv s \<Longrightarrow> update e v s = (s', Inr u) \<Longrightarrow>
      table s (key e) = Some c \<Longrightarrow> frame c e \<Longrightarrow> inv s'"
    and update_err: "inv s \<Longrightarrow> update e v s = (s', Inl x) \<Longrightarrow> inv s' \<and> table s' = table s"
    and table_key: "inv s \<Longrightarrow> table s k = Some e \<Longrightarrow> key e = k"
    and table_valid: "inv s \<Longrightarrow> table s k = Some e \<Longrightarrow> validate e = None"

section \<open>Concurrent requests\<close>

text \<open>
  A system of concurrent requests on one store. A request first reads a row and computes its
  replacement at the time the clock shows (\<open>Read\<close>); any number of other requests may then run before
  it calls \<open>Update\<close> with the version it read (\<open>Commit\<close>), which succeeds or fails. \<open>Insert\<close> stores a
  new row. \<open>opr now c n\<close> says that some operation of the package turns \<open>c\<close> into \<open>n\<close> at \<open>now\<close>.
  Every reading of the clock is assumed later than all before it: with two equal readings two versions of a
  row could carry the same stamp, and an update computed from the first would replace the second.
\<close>

record ('s, 'e) conc =
  c_store :: 's
  c_clock :: time
  c_pending :: "nat \<Rightarrow> ('e \<times> 'e) option"

inductive occ_step ::
  "('e \<Rightarrow> ('s, unit) go) \<Rightarrow> (ID \<Rightarrow> ('s, 'e) go) \<Rightarrow> ('e \<Rightarrow> time \<Rightarrow> ('s, unit) go) \<Rightarrow>
   ('e \<Rightarrow> time) \<Rightarrow> (time \<Rightarrow> 'e \<Rightarrow> 'e \<Rightarrow> bool) \<Rightarrow> ('s, 'e) conc \<Rightarrow> ('s, 'e) conc \<Rightarrow> bool"
  for create get update ver opr where
  Read: "get k (c_store s) = (st', Inr cur) \<Longrightarrow> c_clock s < now \<Longrightarrow> opr now cur nxt \<Longrightarrow>
    occ_step create get update ver opr s
      (s\<lparr>c_store := st', c_clock := now, c_pending := (c_pending s)(r \<mapsto> (cur, nxt))\<rparr>)"
| Commit: "c_pending s r = Some (cur, nxt) \<Longrightarrow> update nxt (ver cur) (c_store s) = (st', res) \<Longrightarrow>
    occ_step create get update ver opr s
      (s\<lparr>c_store := st', c_pending := (c_pending s)(r := None)\<rparr>)"
| Insert: "c_clock s < now \<Longrightarrow> ver e = now \<Longrightarrow> create e (c_store s) = (st', res) \<Longrightarrow>
    occ_step create get update ver opr s (s\<lparr>c_store := st', c_clock := now\<rparr>)"

inductive_cases occ_stepE: "occ_step create get update ver opr s s'"

definition some_trans :: "(time \<Rightarrow> 'e \<Rightarrow> 'e \<Rightarrow> bool) \<Rightarrow> 'e \<Rightarrow> 'e \<Rightarrow> bool" where
  "some_trans opr x y \<longleftrightarrow> (\<exists>now. opr now x y)"

context occ_store
begin

text \<open>
  The invariant of the system: a row that still has the version a pending request read is the very
  row it read, and no version is ahead of the clock.
\<close>

definition pending_ok :: "(time \<Rightarrow> 'e \<Rightarrow> 'e \<Rightarrow> bool) \<Rightarrow> ('s, 'e) conc \<Rightarrow> bool" where
  "pending_ok opr s \<longleftrightarrow>
     inv (c_store s) \<and>
     (\<forall>k e. table (c_store s) k = Some e \<longrightarrow> ver e \<le> c_clock s) \<and>
     (\<forall>r cur nxt. c_pending s r = Some (cur, nxt) \<longrightarrow>
        some_trans opr cur nxt \<and> key nxt = key cur \<and> ver cur < ver nxt \<and> ver nxt \<le> c_clock s \<and>
        (\<exists>c. table (c_store s) (key cur) = Some c \<and> ver cur \<le> ver c \<and>
             (ver c = ver cur \<longrightarrow> c = cur)))"

lemma pending_okD:
  assumes "pending_ok opr s" and "c_pending s r = Some (cur, nxt)"
  shows "some_trans opr cur nxt" "key nxt = key cur" "ver cur < ver nxt" "ver nxt \<le> c_clock s"
    and "\<exists>c. table (c_store s) (key cur) = Some c \<and> ver cur \<le> ver c \<and> (ver c = ver cur \<longrightarrow> c = cur)"
  using assms by (auto simp: pending_ok_def)

text \<open>A successful \<open>Update\<close> replaces exactly the row the request read: no update is lost.\<close>

lemma commit_replaces_what_was_read:
  assumes ok: "pending_ok opr s" and p: "c_pending s r = Some (cur, nxt)"
    and u: "update nxt (ver cur) (c_store s) = (st', Inr ())"
  shows "table (c_store s) (key cur) = Some cur"
proof -
  have inv: "inv (c_store s)" using ok by (simp add: pending_ok_def)
  obtain c where "table (c_store s) (key nxt) = Some c" "ver c = ver cur"
    using update_ok [OF inv u] by blast
  with pending_okD [OF ok p] show ?thesis by auto
qed

lemma pending_ok_table_unchanged:
  assumes "pending_ok opr s" and "inv st'" and "table st' = table (c_store s)"
    and "\<And>r x. pen r = Some x \<Longrightarrow> c_pending s r = Some x"
  shows "pending_ok opr (s\<lparr>c_store := st', c_pending := pen\<rparr>)"
  using assms by (fastforce simp: pending_ok_def)

lemma pending_ok_commit:
  assumes ok: "pending_ok opr s" and p: "c_pending s r = Some (cur, nxt)"
    and fr: "frame cur nxt"
    and u: "update nxt (ver cur) (c_store s) = (st', Inr ())"
  shows "pending_ok opr (s\<lparr>c_store := st', c_pending := (c_pending s)(r := None)\<rparr>)"
proof -
  note pend = pending_okD [OF ok p]
  have inv: "inv (c_store s)" using ok by (simp add: pending_ok_def)
  have cur: "table (c_store s) (key cur) = Some cur"
    by (rule commit_replaces_what_was_read [OF ok p u])
  have tab: "table st' = (table (c_store s))(key cur \<mapsto> nxt)"
    using update_ok [OF inv u] pend(2) by simp
  have inv': "inv st'" using update_inv [OF inv u _ fr] cur pend(2) by simp
  have rows: "ver e \<le> c_clock s" if "table st' k = Some e" for k e
    using that tab pend(4) ok by (auto simp: pending_ok_def split: if_splits)
  have others: "some_trans opr cur' nxt' \<and> key nxt' = key cur' \<and> ver cur' < ver nxt' \<and>
      ver nxt' \<le> c_clock s \<and>
      (\<exists>c. table st' (key cur') = Some c \<and> ver cur' \<le> ver c \<and> (ver c = ver cur' \<longrightarrow> c = cur'))"
    if a: "c_pending s r' = Some (cur', nxt')" for r' cur' nxt'
  proof -
    note pend' = pending_okD [OF ok a]
    have "\<exists>c. table st' (key cur') = Some c \<and> ver cur' \<le> ver c \<and> (ver c = ver cur' \<longrightarrow> c = cur')"
    proof (cases "key cur' = key cur")
      case True
      then have "ver cur' \<le> ver cur" using pend'(5) cur by auto
      then have "ver cur' < ver nxt" using pend(3) by simp
      with True tab show ?thesis by auto
    next
      case False
      with tab pend'(5) show ?thesis by auto
    qed
    with pend' show ?thesis by blast
  qed
  show ?thesis
    unfolding pending_ok_def using inv' rows others by (auto split: if_splits)
qed

lemma pending_ok_step:
  assumes tr: "\<And>now c n. opr now c n \<Longrightarrow> key n = key c \<and> ver n = now \<and> frame c n"
    and st: "occ_step create get update ver opr s s'" and ok: "pending_ok opr s"
  shows "pending_ok opr s'"
  using st
proof (cases rule: occ_step.cases)
  case (Read k st' cur now nxt r)
  have inv: "inv (c_store s)" using ok by (simp add: pending_ok_def)
  have g: "st' = c_store s" "table (c_store s) k = Some cur" using get_ok [OF inv Read(2)] by auto
  have k: "key cur = k" using table_key [OF inv g(2)] .
  have v: "ver cur \<le> c_clock s" using ok g(2) by (auto simp: pending_ok_def)
  have n: "key nxt = key cur" "ver nxt = now" using tr [OF Read(4)] by auto
  have later: "table (c_store s) k' = Some e \<Longrightarrow> ver e \<le> now" for k' e
    using ok Read(3) by (fastforce simp: pending_ok_def)
  have t: "some_trans opr cur nxt" using Read(4) by (auto simp: some_trans_def)
  have old: "some_trans opr c m \<and> key m = key c \<and> ver c < ver m \<and> ver m \<le> now \<and>
      (\<exists>d. table (c_store s) (key c) = Some d \<and> ver c \<le> ver d \<and> (ver d = ver c \<longrightarrow> d = c))"
    if "c_pending s r' = Some (c, m)" for r' c m
    using pending_okD [OF ok that] Read(3) by auto
  show ?thesis
    unfolding pending_ok_def Read(1)
    using inv later old t n k g v Read(3) by (auto simp: fun_upd_def)
next
  case (Commit r cur nxt st' res)
  have inv: "inv (c_store s)" using ok by (simp add: pending_ok_def)
  have "some_trans opr cur nxt" using pending_okD(1) [OF ok Commit(2)] .
  then have fr: "frame cur nxt" using tr by (auto simp: some_trans_def)
  show ?thesis
  proof (cases res)
    case (Inl x)
    then have "inv st'" and "table st' = table (c_store s)"
      using Commit(3) update_err [OF inv] by blast+
    then show ?thesis
      unfolding Commit(1) by (rule pending_ok_table_unchanged [OF ok]) (auto split: if_splits)
  next
    case (Inr u)
    then show ?thesis using pending_ok_commit [OF ok Commit(2) fr] Commit by simp
  qed
next
  case (Insert now e st' res)
  have inv: "inv (c_store s)" using ok by (simp add: pending_ok_def)
  have "inv st' \<and> (table st' = table (c_store s) \<or>
      table (c_store s) (key e) = None \<and> table st' = (table (c_store s))(key e \<mapsto> e))"
    using create_ok [OF inv] create_err [OF inv] Insert(4) by (cases res) blast+
  then show ?thesis
    using ok Insert unfolding pending_ok_def by (fastforce split: if_splits)
qed

text \<open>
  A store operation outside the read-and-commit protocol keeps the invariant when every row it changes
  gets a version ahead of the clock.
\<close>

lemma pending_ok_advance:
  assumes ok: "pending_ok opr s" and "inv st'" and "c_clock s \<le> now"
    and keep: "\<And>k e. table (c_store s) k = Some e \<Longrightarrow>
      \<exists>e'. table st' k = Some e' \<and> (e' = e \<or> c_clock s < ver e')"
    and new: "\<And>k e. table st' k = Some e \<Longrightarrow> ver e \<le> now"
  shows "pending_ok opr (s\<lparr>c_store := st', c_clock := now\<rparr>)"
proof -
  have "some_trans opr cur nxt \<and> key nxt = key cur \<and> ver cur < ver nxt \<and> ver nxt \<le> now \<and>
      (\<exists>c. table st' (key cur) = Some c \<and> ver cur \<le> ver c \<and> (ver c = ver cur \<longrightarrow> c = cur))"
    if p: "c_pending s r = Some (cur, nxt)" for r cur nxt
  proof -
    note pend = pending_okD [OF ok p]
    obtain c where c: "table (c_store s) (key cur) = Some c" "ver cur \<le> ver c"
      "ver c = ver cur \<longrightarrow> c = cur" using pend(5) by blast
    obtain c' where "table st' (key cur) = Some c'" "c' = c \<or> c_clock s < ver c'"
      using keep [OF c(1)] by blast
    with c pend assms(3) show ?thesis by auto
  qed
  with assms(2) new show ?thesis unfolding pending_ok_def by simp
qed

text \<open>The life of a row: every step of the system leaves it alone or applies one operation to it.\<close>

lemma row_step:
  assumes tr: "\<And>now c n. opr now c n \<Longrightarrow> key n = key c \<and> ver n = now \<and> frame c n"
    and st: "occ_step create get update ver opr s s'" and ok: "pending_ok opr s"
    and row: "table (c_store s) k = Some e"
  shows "\<exists>e'. table (c_store s') k = Some e' \<and> (e' = e \<or> some_trans opr e e')"
  using st
proof (cases rule: occ_step.cases)
  case (Read k' st' cur now nxt r)
  have "inv (c_store s)" using ok by (simp add: pending_ok_def)
  then have "st' = c_store s" using get_ok Read(2) by blast
  with row Read(1) show ?thesis by auto
next
  case (Commit r cur nxt st' res)
  have inv: "inv (c_store s)" using ok by (simp add: pending_ok_def)
  show ?thesis
  proof (cases res)
    case (Inl x)
    with Commit update_err [OF inv, of nxt "ver cur" st' x] row show ?thesis by auto
  next
    case (Inr u)
    then have u: "update nxt (ver cur) (c_store s) = (st', Inr ())" using Commit(3) by simp
    have "table (c_store s) (key cur) = Some cur"
      by (rule commit_replaces_what_was_read [OF ok Commit(2) u])
    moreover have "table st' = (table (c_store s))(key cur \<mapsto> nxt)"
      using update_ok [OF inv u] pending_okD(2) [OF ok Commit(2)] by simp
    ultimately show ?thesis
      using Commit(1) row pending_okD(1) [OF ok Commit(2)] by auto
  qed
next
  case (Insert now e' st' res)
  have inv: "inv (c_store s)" using ok by (simp add: pending_ok_def)
  show ?thesis
    using create_ok [OF inv] create_err [OF inv] Insert row by (cases res) fastforce+
qed

lemma row_history:
  assumes tr: "\<And>now c n. opr now c n \<Longrightarrow> key n = key c \<and> ver n = now \<and> frame c n"
    and run: "(occ_step create get update ver opr)\<^sup>*\<^sup>* s s'" and ok: "pending_ok opr s"
    and row: "table (c_store s) k = Some e"
  shows "pending_ok opr s' \<and> (\<exists>e'. table (c_store s') k = Some e' \<and> (some_trans opr)\<^sup>*\<^sup>* e e')"
  using run
proof (induction rule: rtranclp_induct)
  case base
  then show ?case using ok row by blast
next
  case (step y z)
  then obtain e1 where y: "table (c_store y) k = Some e1" "(some_trans opr)\<^sup>*\<^sup>* e e1"
    and oky: "pending_ok opr y" by blast
  have "pending_ok opr z" by (rule pending_ok_step [OF tr step.hyps(2) oky])
  moreover obtain e2 where "table (c_store z) k = Some e2" "e2 = e1 \<or> some_trans opr e1 e2"
    using row_step [OF tr step.hyps(2) oky y(1)] by blast
  ultimately show ?case using y(2) by (auto intro: rtranclp.rtrancl_into_rtrancl)
qed

text \<open>A row that no operation changes any more stays as it is, whatever requests run.\<close>

lemma final_row_stays:
  assumes tr: "\<And>now c n. opr now c n \<Longrightarrow> key n = key c \<and> ver n = now \<and> frame c n"
    and run: "(occ_step create get update ver opr)\<^sup>*\<^sup>* s s'" and ok: "pending_ok opr s"
    and row: "table (c_store s) k = Some e" and fin: "\<And>now n. \<not> opr now e n"
  shows "table (c_store s') k = Some e"
proof -
  obtain e' where e': "table (c_store s') k = Some e'" "(some_trans opr)\<^sup>*\<^sup>* e e'"
    using row_history [OF tr run ok row] by blast
  have "e' = e"
    using e'(2) fin by (cases rule: converse_rtranclpE) (auto simp: some_trans_def)
  with e'(1) show ?thesis by simp
qed

text \<open>
  The form in which the packages use it: from a store in which no request is pending, every row is
  still there in the end, related to what it was by any preorder the operations respect, and unchanged
  if it was final; and the invariant of the store holds.
\<close>

lemma rows_stable:
  assumes tr: "\<And>now c n. opr now c n \<Longrightarrow> key n = key c \<and> ver n = now \<and> frame c n"
    and run: "(occ_step create get update ver opr)\<^sup>*\<^sup>* \<lparr>c_store = m, c_clock = t, c_pending = (\<lambda>_. None)\<rparr> s'"
    and inv: "inv m" and old: "\<forall>k e. table m k = Some e \<longrightarrow> ver e \<le> t"
    and pre: "\<And>x. R x x" "\<And>x y z. R x y \<Longrightarrow> R y z \<Longrightarrow> R x z" "\<And>now c n. opr now c n \<Longrightarrow> R c n"
    and fin: "\<And>now c n. opr now c n \<Longrightarrow> \<not> final c"
  shows "inv (c_store s') \<and> (\<forall>k e. table m k = Some e \<longrightarrow>
    (\<exists>e'. table (c_store s') k = Some e' \<and> R e e' \<and> (final e \<longrightarrow> e' = e)))"
proof -
  let ?s = "\<lparr>c_store = m, c_clock = t, c_pending = (\<lambda>_. None)\<rparr> :: ('s, 'e) conc"
  have ok: "pending_ok opr ?s" using inv old by (simp add: pending_ok_def)
  have "pending_ok opr s'"
    using run ok by (induction rule: rtranclp_induct) (auto intro: pending_ok_step [OF tr])
  then have inv': "inv (c_store s')" by (simp add: pending_ok_def)
  have "\<exists>e'. table (c_store s') k = Some e' \<and> R e e' \<and> (final e \<longrightarrow> e' = e)"
    if "table m k = Some e" for k e
  proof -
    have row: "table (c_store ?s) k = Some e" using that by simp
    obtain e' where e': "table (c_store s') k = Some e'" "(some_trans opr)\<^sup>*\<^sup>* e e'"
      using row_history [OF tr run ok row] by blast
    have "R e e'"
      using e'(2) by (induction rule: rtranclp_induct) (auto simp: some_trans_def intro: pre)
    moreover have "table (c_store s') k = Some e" if "final e"
      by (rule final_row_stays [OF tr run ok row]) (use that in \<open>auto dest: fin\<close>)
    ultimately show ?thesis using e'(1) by auto
  qed
  with inv' show ?thesis by blast
qed

end

end
