(* ===== verification/Needs.thy ===== *)
theory Needs
  imports Occ_Store "HOL-Library.Sublist"
begin

text \<open>
  The package \<open>needs\<close>: the Need and its life cycle (\<open>domain.go\<close>), the in-memory store
  (\<open>memory.go\<close>), the service (\<open>service.go\<close>), candidate listing (\<open>matching.go\<close>), the read surface for
  other packages (\<open>lookup.go\<close>, \<open>contracts/lookup.go\<close>) and the fulfilment by a completed Transaction
  (\<open>fulfillment.go\<close>). Pointers to values are options; \<open>clone...\<close> functions copy values and are the
  identity up to \<open>UTC\<close>.
\<close>

section \<open>Data\<close>

definition MaxTitleRunes :: nat where "MaxTitleRunes = 120"

definition MaxDescriptionRunes :: nat where "MaxDescriptionRunes = 4000"

text \<open>The constant \<open>0.1\<close> as the nearest \<open>float64\<close>.\<close>

definition MinRadiusKm :: float64 where
  "MinRadiusKm = Finite (3602879701896397 / 36028797018963968)"

definition MaxRadiusKm :: float64 where "MaxRadiusKm = Finite 50"

definition NeedDraft :: string where "NeedDraft = ''draft''"
definition NeedOpen :: string where "NeedOpen = ''open''"
definition NeedFulfilled :: string where "NeedFulfilled = ''fulfilled''"
definition NeedCancelled :: string where "NeedCancelled = ''cancelled''"
definition NeedExpired :: string where "NeedExpired = ''expired''"

lemmas need_status_defs =
  NeedDraft_def NeedOpen_def NeedFulfilled_def NeedCancelled_def NeedExpired_def

lemma need_status_neq [simp]:
  "NeedDraft \<noteq> NeedOpen" "NeedDraft \<noteq> NeedFulfilled" "NeedDraft \<noteq> NeedCancelled" "NeedDraft \<noteq> NeedExpired"
  "NeedOpen \<noteq> NeedDraft" "NeedOpen \<noteq> NeedFulfilled" "NeedOpen \<noteq> NeedCancelled" "NeedOpen \<noteq> NeedExpired"
  "NeedFulfilled \<noteq> NeedDraft" "NeedFulfilled \<noteq> NeedOpen" "NeedFulfilled \<noteq> NeedCancelled" "NeedFulfilled \<noteq> NeedExpired"
  "NeedCancelled \<noteq> NeedDraft" "NeedCancelled \<noteq> NeedOpen" "NeedCancelled \<noteq> NeedFulfilled" "NeedCancelled \<noteq> NeedExpired"
  "NeedExpired \<noteq> NeedDraft" "NeedExpired \<noteq> NeedOpen" "NeedExpired \<noteq> NeedFulfilled" "NeedExpired \<noteq> NeedCancelled"
  by (simp_all add: need_status_defs)

definition need_status_valid :: "string \<Rightarrow> bool" where
  "need_status_valid s \<longleftrightarrow>
     s = NeedDraft \<or> s = NeedOpen \<or> s = NeedFulfilled \<or> s = NeedCancelled \<or> s = NeedExpired"

definition need_status_Terminal :: "string \<Rightarrow> bool" where
  "need_status_Terminal s \<longleftrightarrow> s = NeedFulfilled \<or> s = NeedCancelled \<or> s = NeedExpired"

definition need_status_ownerEditable :: "string \<Rightarrow> bool" where
  "need_status_ownerEditable s \<longleftrightarrow> s = NeedDraft \<or> s = NeedOpen"

definition need_ParseID :: "string \<Rightarrow> ID res" where
  "need_ParseID = ParseID (NeedErr Need_errInvalidNeed) (NeedErr Need_errZeroID)"

record coordinates =
  Latitude :: float64
  Longitude :: float64

definition ValidateCoordinates :: "coordinates \<Rightarrow> go_error option" where
  "ValidateCoordinates c =
     (if math_IsNaN (Latitude c) \<or> math_IsInf (Latitude c) then Some (NeedErr Need_errInvalidLatitude)
      else if math_IsNaN (Longitude c) \<or> math_IsInf (Longitude c)
        then Some (NeedErr Need_errInvalidLongitude)
      else if float_less (Latitude c) (Finite (-90)) \<or> float_less (Finite 90) (Latitude c)
        then Some (NeedErr Need_errInvalidLatitude)
      else if float_less (Longitude c) (Finite (-180)) \<or> float_less (Finite 180) (Longitude c)
        then Some (NeedErr Need_errInvalidLongitude)
      else None)"

record budget =
  MinAmount :: string
  MaxAmount :: string
  BudgetCurrency :: string

definition budget_normalized :: "budget option \<Rightarrow> budget option res" where
  "budget_normalized b =
     (case b of
        None \<Rightarrow> Inr None
      | Some b \<Rightarrow>
          let minAmt = strings_TrimSpace (MinAmount b);
              maxAmt = strings_TrimSpace (MaxAmount b);
              cur = strings_TrimSpace (BudgetCurrency b)
          in if minAmt = [] \<and> maxAmt = [] \<and> cur = [] then Inr None
             else if minAmt = [] \<or> maxAmt = [] \<or> cur = [] then Inl (NeedErr Need_errInvalidBudget)
             else if \<not> amountPattern minAmt \<or> \<not> amountPattern maxAmt \<or> \<not> currencyPattern cur
               then Inl (NeedErr Need_errInvalidBudget)
             else case (big_Rat_SetString minAmt, big_Rat_SetString maxAmt) of
                 (Some minRat, Some maxRat) \<Rightarrow>
                   if big_Rat_greater minRat maxRat then Inl (NeedErr Need_errInvalidBudget)
                   else Inr (Some \<lparr>MinAmount = minAmt, MaxAmount = maxAmt, BudgetCurrency = cur\<rparr>)
               | _ \<Rightarrow> Inl (NeedErr Need_errInvalidBudget))"

record need_content =
  nc_Title :: string
  nc_Description :: string
  nc_CategoryID :: "ID option"
  nc_Budget :: "budget option"
  nc_Location :: coordinates
  nc_RadiusKm :: "float64 option"
  nc_ExpiresAt :: "time option"

definition need_normalizeTitle :: "string \<Rightarrow> string res" where
  "need_normalizeTitle raw =
     (let trimmed = strings_TrimSpace raw in
      if trimmed = [] then Inl (NeedErr Need_errInvalidContent)
      else if MaxTitleRunes < utf8_RuneCountInString trimmed
        then Inl (NeedErr Need_errInvalidContent)
      else if list_ex (\<lambda>u. fst u = 0x7f \<or> unicode_IsControl (fst u)) (runes trimmed)
        then Inl (NeedErr Need_errInvalidContent)
      else Inr trimmed)"

text \<open>Control characters other than newline, carriage return and tab are refused.\<close>

definition text_rune_bad :: "rune \<Rightarrow> bool" where
  "text_rune_bad r \<longleftrightarrow> r = 0 \<or> r = 0x7f \<or>
     (unicode_IsControl r \<and> r \<noteq> 0x0A \<and> r \<noteq> 0x0D \<and> r \<noteq> 0x09)"

definition need_normalizeDescription :: "string \<Rightarrow> string res" where
  "need_normalizeDescription raw =
     (let trimmed = strings_TrimSpace raw in
      if trimmed = [] then Inr []
      else if MaxDescriptionRunes < utf8_RuneCountInString trimmed
        then Inl (NeedErr Need_errInvalidContent)
      else if list_ex (\<lambda>u. text_rune_bad (fst u)) (runes trimmed)
        then Inl (NeedErr Need_errInvalidContent)
      else Inr trimmed)"

definition need_normalizeRadius :: "float64 option \<Rightarrow> float64 option res" where
  "need_normalizeRadius raw =
     (case raw of
        None \<Rightarrow> Inr None
      | Some v \<Rightarrow>
          if math_IsNaN v \<or> math_IsInf v \<or> float_less v MinRadiusKm \<or> float_less MaxRadiusKm v
          then Inl (NeedErr Need_errInvalidRadius) else Inr (Some v))"

definition need_content_normalized :: "need_content \<Rightarrow> need_content res" where
  "need_content_normalized c =
     (case need_normalizeTitle (nc_Title c) of Inl e \<Rightarrow> Inl e | Inr title \<Rightarrow>
      if title = [] then Inl (NeedErr Need_errInvalidContent) else
      case need_normalizeDescription (nc_Description c) of Inl e \<Rightarrow> Inl e | Inr desc \<Rightarrow>
      case ValidateCoordinates (nc_Location c) of Some e \<Rightarrow> Inl e | None \<Rightarrow>
      case budget_normalized (nc_Budget c) of Inl e \<Rightarrow> Inl e | Inr budget \<Rightarrow>
      case need_normalizeRadius (nc_RadiusKm c) of Inl e \<Rightarrow> Inl e | Inr radius \<Rightarrow>
      if (case nc_CategoryID c of None \<Rightarrow> False | Some k \<Rightarrow> ID_IsZero k)
        then Inl (NeedErr Need_errZeroID)
      else if (case nc_ExpiresAt c of None \<Rightarrow> False | Some t \<Rightarrow> time_IsZero t)
        then Inl (NeedErr Need_errInvalidExpiry)
      else Inr \<lparr>nc_Title = title, nc_Description = desc, nc_CategoryID = nc_CategoryID c,
                nc_Budget = budget, nc_Location = nc_Location c, nc_RadiusKm = radius,
                nc_ExpiresAt = map_option time_UTC (nc_ExpiresAt c)\<rparr>)"

record need =
  need_ID :: ID
  need_RequesterUserID :: ID
  need_Title :: string
  need_Description :: string
  need_CategoryID :: "ID option"
  need_Status :: string
  need_Budget :: "budget option"
  need_Latitude :: float64
  need_Longitude :: float64
  need_RadiusKm :: "float64 option"
  need_CreatedAt :: time
  need_UpdatedAt :: time
  need_ExpiresAt :: "time option"

definition need_content_of :: "need \<Rightarrow> need_content" where
  "need_content_of n =
     \<lparr>nc_Title = need_Title n, nc_Description = need_Description n,
      nc_CategoryID = need_CategoryID n, nc_Budget = need_Budget n,
      nc_Location = \<lparr>Latitude = need_Latitude n, Longitude = need_Longitude n\<rparr>,
      nc_RadiusKm = need_RadiusKm n, nc_ExpiresAt = need_ExpiresAt n\<rparr>"

definition need_Validate :: "need \<Rightarrow> go_error option" where
  "need_Validate n =
     (if ID_IsZero (need_ID n) \<or> ID_IsZero (need_RequesterUserID n)
        then Some (NeedErr Need_errZeroID)
      else if \<not> need_status_valid (need_Status n) then Some (NeedErr Need_errInvalidStatus)
      else case need_content_normalized (need_content_of n) of
          Inl e \<Rightarrow> Some e
        | Inr normalized \<Rightarrow>
            if need_Title n \<noteq> nc_Title normalized then Some (NeedErr Need_errInvalidContent)
            else if need_Description n \<noteq> nc_Description normalized
              then Some (NeedErr Need_errInvalidContent)
            else if time_IsZero (need_CreatedAt n) \<or>
                time_Before (need_UpdatedAt n) (need_CreatedAt n)
              then Some (NeedErr Need_errInvalidNeed)
            else if (case need_ExpiresAt n of None \<Rightarrow> False
                     | Some t \<Rightarrow> \<not> time_After t (need_CreatedAt n))
              then Some (NeedErr Need_errInvalidExpiry)
            else None)"

definition cloneNeed :: "need \<Rightarrow> need" where
  "cloneNeed n = n\<lparr>need_ExpiresAt := map_option time_UTC (need_ExpiresAt n)\<rparr>"

lemma map_option_UTC [simp]: "map_option time_UTC x = x"
  by (cases x) auto

lemma cloneNeed_id [simp]: "cloneNeed n = n"
  by (simp add: cloneNeed_def)

section \<open>Life cycle\<close>

definition need_NewDraft :: "ID \<Rightarrow> need_content \<Rightarrow> time \<Rightarrow> ID option \<Rightarrow> need res" where
  "need_NewDraft requesterUserID content now entropy =
     (if ID_IsZero requesterUserID then Inl (NeedErr Need_errZeroID)
      else if time_IsZero now then Inl (NeedErr Need_errInvalidNeed)
      else case need_content_normalized content of Inl e \<Rightarrow> Inl e | Inr content \<Rightarrow>
      if (case nc_ExpiresAt content of None \<Rightarrow> False | Some t \<Rightarrow> \<not> time_After t (time_UTC now))
        then Inl (NeedErr Need_errInvalidExpiry)
      else case NewID entropy of None \<Rightarrow> Inl (NeedErr Need_errUnavailable) | Some i \<Rightarrow>
      let n = \<lparr>need_ID = i, need_RequesterUserID = requesterUserID,
               need_Title = nc_Title content, need_Description = nc_Description content,
               need_CategoryID = nc_CategoryID content, need_Status = NeedDraft,
               need_Budget = nc_Budget content,
               need_Latitude = Latitude (nc_Location content),
               need_Longitude = Longitude (nc_Location content),
               need_RadiusKm = nc_RadiusKm content,
               need_CreatedAt = time_UTC now, need_UpdatedAt = time_UTC now,
               need_ExpiresAt = map_option time_UTC (nc_ExpiresAt content)\<rparr>
      in case need_Validate n of Some e \<Rightarrow> Inl e | None \<Rightarrow> Inr n)"

definition need_UpdateContent :: "need \<Rightarrow> need_content \<Rightarrow> time \<Rightarrow> need res" where
  "need_UpdateContent n content now =
     (if \<not> need_status_ownerEditable (need_Status n) then Inl (NeedErr Need_errInvalidTransition)
      else case need_content_normalized content of Inl e \<Rightarrow> Inl e | Inr content \<Rightarrow>
      if time_Before now (need_CreatedAt n) then Inl (NeedErr Need_errInvalidNeed)
      else if (case nc_ExpiresAt content of None \<Rightarrow> False
               | Some t \<Rightarrow> \<not> time_After t (need_CreatedAt n))
        then Inl (NeedErr Need_errInvalidExpiry)
      else let n' = n\<lparr>need_Title := nc_Title content, need_Description := nc_Description content,
               need_CategoryID := nc_CategoryID content, need_Budget := nc_Budget content,
               need_Latitude := Latitude (nc_Location content),
               need_Longitude := Longitude (nc_Location content),
               need_RadiusKm := nc_RadiusKm content,
               need_ExpiresAt := map_option time_UTC (nc_ExpiresAt content),
               need_UpdatedAt := time_UTC now\<rparr>
      in case need_Validate n' of Some e \<Rightarrow> Inl e | None \<Rightarrow> Inr n')"

definition need_transition :: "need \<Rightarrow> string \<Rightarrow> time \<Rightarrow> need res" where
  "need_transition n nxt now =
     (if time_Before now (need_CreatedAt n) then Inl (NeedErr Need_errInvalidNeed)
      else let n' = n\<lparr>need_Status := nxt, need_UpdatedAt := time_UTC now\<rparr>
           in case need_Validate n' of Some e \<Rightarrow> Inl e | None \<Rightarrow> Inr n')"

definition need_Open :: "need \<Rightarrow> time \<Rightarrow> need res" where
  "need_Open n now =
     (if need_Status n \<noteq> NeedDraft then Inl (NeedErr Need_errInvalidTransition)
      else need_transition n NeedOpen now)"

definition need_Fulfill :: "need \<Rightarrow> time \<Rightarrow> need res" where
  "need_Fulfill n now =
     (if need_Status n \<noteq> NeedOpen then Inl (NeedErr Need_errInvalidTransition)
      else need_transition n NeedFulfilled now)"

definition need_ApplyCompletedTransactionFulfillment :: "need \<Rightarrow> time \<Rightarrow> (need \<times> string) res" where
  "need_ApplyCompletedTransactionFulfillment n now =
     (if need_Status n = NeedOpen then
        (case need_Fulfill n now of Inl e \<Rightarrow> Inl e | Inr nxt \<Rightarrow> Inr (nxt, ''fulfilled''))
      else if need_Status n = NeedFulfilled then Inr (n, ''already_fulfilled'')
      else Inr (n, ''not_fulfillable''))"

definition need_Cancel :: "need \<Rightarrow> time \<Rightarrow> need res" where
  "need_Cancel n now =
     (if need_Status n \<noteq> NeedDraft \<and> need_Status n \<noteq> NeedOpen
        then Inl (NeedErr Need_errInvalidTransition)
      else need_transition n NeedCancelled now)"

definition need_Expire :: "need \<Rightarrow> time \<Rightarrow> need res" where
  "need_Expire n now =
     (if need_Status n \<noteq> NeedDraft \<and> need_Status n \<noteq> NeedOpen
        then Inl (NeedErr Need_errInvalidTransition)
      else if (case need_ExpiresAt n of None \<Rightarrow> True | Some t \<Rightarrow> time_Before (time_UTC now) t)
        then Inl (NeedErr Need_errInvalidTransition)
      else need_transition n NeedExpired now)"

section \<open>The in-memory store\<close>

record need_mem =
  nm_byID :: "(ID, need) gomap"
  nm_fail :: "go_error option"

definition need_NewMemoryStore :: need_mem where
  "need_NewMemoryStore = \<lparr>nm_byID = [], nm_fail = None\<rparr>"

definition need_mem_SetFail :: "go_error option \<Rightarrow> need_mem \<Rightarrow> need_mem" where
  "need_mem_SetFail err m = m\<lparr>nm_fail := err\<rparr>"

definition need_mem_Create :: "ctx \<Rightarrow> need \<Rightarrow> (need_mem, unit) go" where
  "need_mem_Create c need = (\<lambda>m.
     gguard (ctx_Err c) (gguard (nm_fail m) (gguard (need_Validate need)
       (if map_of (nm_byID m) (need_ID need) \<noteq> None then gfail (NeedErr Need_errConflict)
        else (\<lambda>m. (m\<lparr>nm_byID := AList.update (need_ID need) (cloneNeed need) (nm_byID m)\<rparr>, Inr ()))))) m)"

definition need_mem_Get :: "ctx \<Rightarrow> ID \<Rightarrow> (need_mem, need) go" where
  "need_mem_Get c i = (\<lambda>m.
     gguard (ctx_Err c) (gguard (nm_fail m)
       (case map_of (nm_byID m) i of
          None \<Rightarrow> gfail (NeedErr Need_errNotFound)
        | Some need \<Rightarrow> gret (cloneNeed need))) m)"

definition need_mem_ListByRequester :: "ctx \<Rightarrow> ID \<Rightarrow> (need_mem, need list) go" where
  "need_mem_ListByRequester c requesterUserID = (\<lambda>m.
     gguard (ctx_Err c) (gguard (nm_fail m)
       (gret (newest_first need_CreatedAt need_ID
         (map cloneNeed (filter (\<lambda>need. need_RequesterUserID need = requesterUserID)
           (map snd (nm_byID m))))))) m)"

definition need_mem_Update :: "ctx \<Rightarrow> need \<Rightarrow> time \<Rightarrow> (need_mem, unit) go" where
  "need_mem_Update c need expectedUpdatedAt = (\<lambda>m.
     gguard (ctx_Err c) (gguard (nm_fail m) (gguard (need_Validate need)
       (case map_of (nm_byID m) (need_ID need) of
          None \<Rightarrow> gfail (NeedErr Need_errNotFound)
        | Some current \<Rightarrow>
            if need_RequesterUserID current \<noteq> need_RequesterUserID need
              then gfail (NeedErr Need_errConflict)
            else if \<not> time_Equal (need_UpdatedAt current) expectedUpdatedAt
              then gfail (NeedErr Need_errConflict)
            else (\<lambda>m. (m\<lparr>nm_byID := AList.update (need_ID need) (cloneNeed need) (nm_byID m)\<rparr>,
                       Inr ()))))) m)"

section \<open>The service\<close>

text \<open>The interface \<open>store\<close> (\<open>store.go\<close>) and the service over it. Dependencies may be nil.\<close>

record 'w need_store =
  ns_Create :: "ctx \<Rightarrow> need \<Rightarrow> ('w, unit) go"
  ns_Get :: "ctx \<Rightarrow> ID \<Rightarrow> ('w, need) go"
  ns_ListByRequester :: "ctx \<Rightarrow> ID \<Rightarrow> ('w, need list) go"
  ns_Update :: "ctx \<Rightarrow> need \<Rightarrow> time \<Rightarrow> ('w, unit) go"

text \<open>The in-memory store as an implementation of the interface, at a field of the world.\<close>

definition need_mem_store :: "('w \<Rightarrow> need_mem) \<Rightarrow> ((need_mem \<Rightarrow> need_mem) \<Rightarrow> 'w \<Rightarrow> 'w) \<Rightarrow> 'w need_store" where
  "need_mem_store get upd =
     \<lparr>ns_Create = (\<lambda>c n. zoom get upd (need_mem_Create c n)),
      ns_Get = (\<lambda>c i. zoom get upd (need_mem_Get c i)),
      ns_ListByRequester = (\<lambda>c u. zoom get upd (need_mem_ListByRequester c u)),
      ns_Update = (\<lambda>c n v. zoom get upd (need_mem_Update c n v))\<rparr>"

text \<open>
  \<open>businesses/contracts.CandidateQuery\<close> and \<open>ServiceCandidate\<close>: the search itself belongs to the
  package \<open>businesses\<close> and is an argument here.
\<close>

record candidate_query =
  cq_CategoryID :: "ID option"
  cq_Latitude :: float64
  cq_Longitude :: float64
  cq_RadiusKm :: float64
  cq_Limit :: int

record service_candidate =
  sc_BusinessID :: ID
  sc_BusinessDisplayName :: string
  sc_ServiceID :: ID
  sc_ServiceTitle :: string
  sc_ServiceDescription :: string
  sc_PriceModel :: string
  sc_PriceAmount :: "string option"
  sc_PriceCurrency :: "string option"
  sc_DistanceKm :: float64
  sc_CategoryID :: "ID option"

record 'w need_service =
  nsv_store :: "'w need_store option"
  nsv_categories :: "(ctx \<Rightarrow> ID \<Rightarrow> ('w, unit) go) option"
  nsv_candidates :: "(ctx \<Rightarrow> candidate_query \<Rightarrow> ('w, service_candidate list) go) option"
  nsv_now :: "'w \<Rightarrow> 'w \<times> time"
  nsv_rand :: "'w \<Rightarrow> 'w \<times> ID option"

definition need_mapStoreErr :: "go_error \<Rightarrow> go_error" where
  [err_defs]: "need_mapStoreErr err =
     (if ctx_error err then err
      else if err = NeedErr Need_errNotFound \<or> err = DbErr Db_ErrNoRows
        then NeedErr Need_errNotFound
      else if err = NeedErr Need_errConflict \<or> err = DbErr Db_ErrConflict
        then NeedErr Need_errConflict
      else if err = NeedErr Need_errUnavailable \<or> err = DbErr Db_ErrUnavailable
        then NeedErr Need_errUnavailable
      else if err \<in> NeedErr ` {Need_errStoreRequired, Need_errZeroID, Need_errInvalidNeed,
            Need_errInvalidStatus, Need_errInvalidTransition, Need_errInvalidContent,
            Need_errInvalidLocation, Need_errInvalidLatitude, Need_errInvalidLongitude,
            Need_errInvalidBudget, Need_errInvalidRadius, Need_errInvalidExpiry,
            Need_errInvalidCategory, Need_errForbidden}
        then err
      else NeedErr Need_errUnavailable)"

definition need_validateCategory :: "'w need_service \<Rightarrow> ctx \<Rightarrow> ID option \<Rightarrow> ('w, unit) go" where
  "need_validateCategory s c categoryID =
     (case categoryID of
        None \<Rightarrow> gret ()
      | Some k \<Rightarrow>
          if ID_IsZero k then gfail (NeedErr Need_errZeroID)
          else gneed (nsv_categories s) (NeedErr Need_errUnavailable) (\<lambda>requirePublished.
            gcase (requirePublished c k)
              (\<lambda>err. gfail
                (if err = MdCErr MdC_ErrZeroID then NeedErr Need_errZeroID
                 else if err = MdCErr MdC_ErrNotFound then NeedErr Need_errInvalidCategory
                 else if ctx_error err then err
                 else NeedErr Need_errUnavailable))
              (\<lambda>_. gret ())))"

definition need_svc_get :: "'w need_service \<Rightarrow> ctx \<Rightarrow> ID \<Rightarrow> ('w, need) go" where
  "need_svc_get s c i =
     gneed (nsv_store s) (NeedErr Need_errStoreRequired) (\<lambda>st.
       if ID_IsZero i then gfail (NeedErr Need_errZeroID)
       else gmaperr need_mapStoreErr (ns_Get st c i))"

definition need_svc_GetOwned :: "'w need_service \<Rightarrow> ctx \<Rightarrow> ID \<Rightarrow> ID \<Rightarrow> ('w, need) go" where
  "need_svc_GetOwned s c requesterUserID needID =
     gbind (need_svc_get s c needID) (\<lambda>need.
       if need_RequesterUserID need \<noteq> requesterUserID then gfail (NeedErr Need_errNotFound)
       else gret need)"

definition need_svc_ListOwned :: "'w need_service \<Rightarrow> ctx \<Rightarrow> ID \<Rightarrow> ('w, need list) go" where
  "need_svc_ListOwned s c requesterUserID =
     gneed (nsv_store s) (NeedErr Need_errStoreRequired) (\<lambda>st.
       if ID_IsZero requesterUserID then gfail (NeedErr Need_errZeroID)
       else gmaperr need_mapStoreErr (ns_ListByRequester st c requesterUserID))"

definition need_svc_Create :: "'w need_service \<Rightarrow> ctx \<Rightarrow> ID \<Rightarrow> need_content \<Rightarrow> ('w, need) go" where
  "need_svc_Create s c requesterUserID content =
     gneed (nsv_store s) (NeedErr Need_errStoreRequired) (\<lambda>st.
       if ID_IsZero requesterUserID then gfail (NeedErr Need_errZeroID)
       else gbind (need_validateCategory s c (nc_CategoryID content)) (\<lambda>_.
       gread (nsv_now s) (\<lambda>now.
       gread (nsv_rand s) (\<lambda>entropy.
       gbind (gpure (need_NewDraft requesterUserID content (time_UTC now) entropy)) (\<lambda>need.
       gcase (ns_Create st c need) (\<lambda>e. gfail (need_mapStoreErr e)) (\<lambda>_. gret need))))))"

definition need_mutateOwned ::
  "'w need_service \<Rightarrow> ctx \<Rightarrow> ID \<Rightarrow> ID \<Rightarrow> (need \<Rightarrow> time \<Rightarrow> need res) \<Rightarrow> ('w, need) go" where
  "need_mutateOwned s c requesterUserID needID fn =
     gneed (nsv_store s) (NeedErr Need_errStoreRequired) (\<lambda>st.
       gbind (need_svc_GetOwned s c requesterUserID needID) (\<lambda>current.
       gread (nsv_now s) (\<lambda>now.
       gbind (gpure (fn current (time_UTC now))) (\<lambda>nxt.
       gcase (ns_Update st c nxt (need_UpdatedAt current))
         (\<lambda>e. gfail (need_mapStoreErr e)) (\<lambda>_. gret nxt)))))"

definition need_svc_Update ::
  "'w need_service \<Rightarrow> ctx \<Rightarrow> ID \<Rightarrow> ID \<Rightarrow> need_content \<Rightarrow> ('w, need) go" where
  "need_svc_Update s c requesterUserID needID content =
     gbind (need_validateCategory s c (nc_CategoryID content)) (\<lambda>_.
     need_mutateOwned s c requesterUserID needID (\<lambda>need now. need_UpdateContent need content now))"

definition need_svc_Open :: "'w need_service \<Rightarrow> ctx \<Rightarrow> ID \<Rightarrow> ID \<Rightarrow> ('w, need) go" where
  "need_svc_Open s c requesterUserID needID =
     need_mutateOwned s c requesterUserID needID need_Open"

definition need_svc_Fulfill :: "'w need_service \<Rightarrow> ctx \<Rightarrow> ID \<Rightarrow> ID \<Rightarrow> ('w, need) go" where
  "need_svc_Fulfill s c requesterUserID needID =
     need_mutateOwned s c requesterUserID needID need_Fulfill"

definition need_svc_Cancel :: "'w need_service \<Rightarrow> ctx \<Rightarrow> ID \<Rightarrow> ID \<Rightarrow> ('w, need) go" where
  "need_svc_Cancel s c requesterUserID needID =
     need_mutateOwned s c requesterUserID needID need_Cancel"

definition need_svc_ExpireIfDue :: "'w need_service \<Rightarrow> ctx \<Rightarrow> ID \<Rightarrow> ('w, need) go" where
  "need_svc_ExpireIfDue s c needID =
     gneed (nsv_store s) (NeedErr Need_errStoreRequired) (\<lambda>st.
       gbind (need_svc_get s c needID) (\<lambda>current.
       gread (nsv_now s) (\<lambda>now.
       gbind (gpure (need_Expire current (time_UTC now))) (\<lambda>nxt.
       gcase (ns_Update st c nxt (need_UpdatedAt current))
         (\<lambda>e. gfail (need_mapStoreErr e)) (\<lambda>_. gret nxt)))))"

section \<open>Candidate listing\<close>

definition DefaultMatchRadiusKm :: float64 where "DefaultMatchRadiusKm = Finite 10"

definition DefaultCandidateLimit :: int where "DefaultCandidateLimit = 20"

definition MaxCandidateLimit :: int where "MaxCandidateLimit = 50"

definition clampCandidateLimit :: "int \<Rightarrow> int" where
  "clampCandidateLimit limit =
     (if limit \<le> 0 then DefaultCandidateLimit
      else if MaxCandidateLimit < limit then MaxCandidateLimit
      else limit)"

definition need_mapCandidateErr :: "go_error \<Rightarrow> go_error" where
  [err_defs]: "need_mapCandidateErr err =
     (if ctx_error err then err
      else if err = BizCErr BizC_ErrZeroID then NeedErr Need_errZeroID
      else if err = BizCErr BizC_ErrNotFound then NeedErr Need_errNotFound
      else if err = BizCErr BizC_ErrForbidden then NeedErr Need_errForbidden
      else NeedErr Need_errUnavailable)"

text \<open>The loop over the rows found: the first row of each service is kept.\<close>

fun dedup_candidates :: "ID set \<Rightarrow> service_candidate list \<Rightarrow> service_candidate list" where
  "dedup_candidates seen [] = []"
| "dedup_candidates seen (row # rows) =
     (if sc_ServiceID row \<in> seen then dedup_candidates seen rows
      else row # dedup_candidates (insert (sc_ServiceID row) seen) rows)"

definition need_candidate_query :: "need \<Rightarrow> int \<Rightarrow> candidate_query" where
  "need_candidate_query need limit =
     \<lparr>cq_CategoryID = need_CategoryID need, cq_Latitude = need_Latitude need,
      cq_Longitude = need_Longitude need,
      cq_RadiusKm = (case need_RadiusKm need of None \<Rightarrow> DefaultMatchRadiusKm | Some r \<Rightarrow> r),
      cq_Limit = clampCandidateLimit limit\<rparr>"

definition need_svc_ListCandidates ::
  "'w need_service \<Rightarrow> ctx \<Rightarrow> ID \<Rightarrow> ID \<Rightarrow> int \<Rightarrow> ('w, service_candidate list) go" where
  "need_svc_ListCandidates s c requesterUserID needID limit =
     gneed (nsv_store s) (NeedErr Need_errStoreRequired) (\<lambda>_.
     gneed (nsv_candidates s) (NeedErr Need_errUnavailable) (\<lambda>find.
     gbind (need_svc_GetOwned s c requesterUserID needID) (\<lambda>need.
     if need_Status need \<noteq> NeedOpen then gfail (NeedErr Need_errInvalidTransition)
     else gcase (find c (need_candidate_query need limit))
            (\<lambda>err. gfail (need_mapCandidateErr err))
            (\<lambda>found. gret (dedup_candidates {} found)))))"

section \<open>The read and write surface for other packages\<close>

record NeedRef =
  nr_ID :: ID
  nr_RequesterUserID :: ID
  nr_Status :: string
  nr_Title :: string
  nr_Description :: string
  nr_CategoryID :: "ID option"
  nr_Latitude :: float64
  nr_Longitude :: float64
  nr_RadiusKm :: "float64 option"
  nr_Budget :: "budget option"
  nr_ExpiresAt :: "time option"

definition toNeedRef :: "need \<Rightarrow> NeedRef" where
  "toNeedRef n =
     \<lparr>nr_ID = need_ID n, nr_RequesterUserID = need_RequesterUserID n, nr_Status = need_Status n,
      nr_Title = need_Title n, nr_Description = need_Description n,
      nr_CategoryID = need_CategoryID n, nr_Latitude = need_Latitude n,
      nr_Longitude = need_Longitude n, nr_RadiusKm = need_RadiusKm n, nr_Budget = need_Budget n,
      nr_ExpiresAt = map_option time_UTC (need_ExpiresAt n)\<rparr>"

definition mapNeedLookupErr :: "go_error \<Rightarrow> go_error" where
  [err_defs]: "mapNeedLookupErr err =
     (if err = NeedErr Need_errZeroID then NeedCErr NeedC_ErrZeroID
      else if err = NeedErr Need_errNotFound then NeedCErr NeedC_ErrNotFound
      else if err = NeedErr Need_errForbidden then NeedCErr NeedC_ErrForbidden
      else if ctx_error err then err
      else NeedCErr NeedC_ErrUnavailable)"

definition need_GetNeed :: "'w need_service \<Rightarrow> ctx \<Rightarrow> ID \<Rightarrow> ('w, NeedRef) go" where
  "need_GetNeed s c needID =
     gcase (need_svc_get s c needID) (\<lambda>err. gfail (mapNeedLookupErr err))
       (\<lambda>need. gret (toNeedRef need))"

definition need_AssertOwnedBy :: "'w need_service \<Rightarrow> ctx \<Rightarrow> ID \<Rightarrow> ID \<Rightarrow> ('w, unit) go" where
  "need_AssertOwnedBy s c needID userID =
     (if ID_IsZero needID \<or> ID_IsZero userID then gfail (NeedCErr NeedC_ErrZeroID)
      else gbind (need_GetNeed s c needID) (\<lambda>ref.
        if nr_RequesterUserID ref \<noteq> userID then gfail (NeedCErr NeedC_ErrNotFound)
        else gret ()))"

record FulfillmentCommand =
  fc_NeedID :: ID
  fc_RequesterUserID :: ID
  fc_TransactionID :: ID

record FulfillmentResult =
  fr_Outcome :: string
  fr_Status :: string

definition mapNeedFulfillmentErr :: "go_error \<Rightarrow> go_error" where
  [err_defs]: "mapNeedFulfillmentErr err =
     (if err = NeedErr Need_errZeroID then NeedCErr NeedC_ErrZeroID
      else if err = NeedErr Need_errNotFound then NeedCErr NeedC_ErrNotFound
      else if err = NeedErr Need_errForbidden then NeedCErr NeedC_ErrForbidden
      else if err = NeedErr Need_errConflict then NeedCErr NeedC_ErrConflict
      else if ctx_error err then err
      else NeedCErr NeedC_ErrUnavailable)"

definition need_FulfillFromCompletedTransaction ::
  "'w need_service \<Rightarrow> ctx \<Rightarrow> FulfillmentCommand \<Rightarrow> ('w, FulfillmentResult) go" where
  "need_FulfillFromCompletedTransaction s c cmd =
     gneed (nsv_store s) (NeedCErr NeedC_ErrUnavailable) (\<lambda>st.
     if ID_IsZero (fc_NeedID cmd) \<or> ID_IsZero (fc_RequesterUserID cmd) \<or>
        ID_IsZero (fc_TransactionID cmd)
       then gfail (NeedCErr NeedC_ErrZeroID)
     else gcase (need_svc_get s c (fc_NeedID cmd))
       (\<lambda>err. if err = NeedErr Need_errNotFound
              then gret \<lparr>fr_Outcome = ''not_fulfillable'', fr_Status = []\<rparr>
              else gfail (mapNeedFulfillmentErr err))
       (\<lambda>need.
          if need_RequesterUserID need \<noteq> fc_RequesterUserID cmd
            then gret \<lparr>fr_Outcome = ''not_fulfillable'', fr_Status = need_Status need\<rparr>
          else gread (nsv_now s) (\<lambda>now.
            gcase (gpure (need_ApplyCompletedTransactionFulfillment need (time_UTC now)))
              (\<lambda>err. gfail (mapNeedFulfillmentErr err))
              (\<lambda>(nxt, outcome).
                 if outcome \<noteq> ''fulfilled''
                   then gret \<lparr>fr_Outcome = outcome, fr_Status = need_Status need\<rparr>
                 else gcase (ns_Update st c nxt (need_UpdatedAt need))
                   (\<lambda>err. gfail (mapNeedFulfillmentErr err))
                   (\<lambda>_. gret \<lparr>fr_Outcome = outcome, fr_Status = need_Status nxt\<rparr>)))))"

section \<open>Content\<close>

text \<open>What normalisation returns is a fixed point of it, so a stored Need validates again.\<close>

lemma need_normalizeTitle_idem:
  "need_normalizeTitle s = Inr t \<Longrightarrow> need_normalizeTitle t = Inr t \<and> t \<noteq> []"
  by (auto simp: need_normalizeTitle_def Let_def split: if_splits)

lemma need_normalizeDescription_idem:
  "need_normalizeDescription s = Inr t \<Longrightarrow> need_normalizeDescription t = Inr t"
  by (auto simp: need_normalizeDescription_def Let_def split: if_splits)

lemma need_normalizeRadius_idem:
  "need_normalizeRadius r = Inr q \<Longrightarrow> q = r"
  by (auto simp: need_normalizeRadius_def split: option.splits if_splits)

lemma budget_normalized_Some:
  assumes "budget_normalized b = Inr (Some x)"
  shows "\<exists>p q. amountPattern (MinAmount x) \<and> amountPattern (MaxAmount x) \<and>
    currencyPattern (BudgetCurrency x) \<and> big_Rat_SetString (MinAmount x) = Some p \<and>
    big_Rat_SetString (MaxAmount x) = Some q \<and> \<not> big_Rat_greater p q"
  using assms unfolding budget_normalized_def Let_def
  by (simp split: option.splits if_split_asm) auto

lemma budget_normalized_idem:
  assumes "budget_normalized b = Inr b'"
  shows "budget_normalized b' = Inr b'"
proof (cases b')
  case None
  then show ?thesis by (simp add: budget_normalized_def)
next
  case (Some x)
  obtain p q where "amountPattern (MinAmount x)" "amountPattern (MaxAmount x)"
    "currencyPattern (BudgetCurrency x)" "big_Rat_SetString (MinAmount x) = Some p"
    "big_Rat_SetString (MaxAmount x) = Some q" "\<not> big_Rat_greater p q"
    using budget_normalized_Some assms Some by blast
  with Some show ?thesis
    by (simp add: budget_normalized_def Let_def amountPattern_ne currencyPattern_ne)
qed

lemma need_content_normalizedE:
  assumes "need_content_normalized c = Inr d"
  obtains "need_normalizeTitle (nc_Title c) = Inr (nc_Title d)"
    and "need_normalizeDescription (nc_Description c) = Inr (nc_Description d)"
    and "ValidateCoordinates (nc_Location c) = None"
    and "budget_normalized (nc_Budget c) = Inr (nc_Budget d)"
    and "need_normalizeRadius (nc_RadiusKm c) = Inr (nc_RadiusKm d)"
    and "nc_CategoryID d = nc_CategoryID c" and "nc_Location d = nc_Location c"
    and "nc_ExpiresAt d = nc_ExpiresAt c"
    and "\<And>k. nc_CategoryID c = Some k \<Longrightarrow> \<not> ID_IsZero k"
    and "\<And>t. nc_ExpiresAt c = Some t \<Longrightarrow> t \<noteq> 0"
  using assms
  by (auto simp: need_content_normalized_def split: sum.splits option.splits if_splits)

lemma need_content_normalized_idem:
  assumes "need_content_normalized c = Inr d"
  shows "need_content_normalized d = Inr d"
  using assms
proof (rule need_content_normalizedE)
  assume d: "nc_CategoryID d = nc_CategoryID c" "nc_Location d = nc_Location c"
    "nc_ExpiresAt d = nc_ExpiresAt c" "ValidateCoordinates (nc_Location c) = None"
    and r: "need_normalizeRadius (nc_RadiusKm c) = Inr (nc_RadiusKm d)"
    and k: "\<And>k. nc_CategoryID c = Some k \<Longrightarrow> \<not> ID_IsZero k"
    and x: "\<And>t. nc_ExpiresAt c = Some t \<Longrightarrow> t \<noteq> 0"
    and t: "need_normalizeTitle (nc_Title c) = Inr (nc_Title d)"
    and s: "need_normalizeDescription (nc_Description c) = Inr (nc_Description d)"
    and b: "budget_normalized (nc_Budget c) = Inr (nc_Budget d)"
  have "need_normalizeRadius (nc_RadiusKm d) = Inr (nc_RadiusKm d)"
    using r need_normalizeRadius_idem by metis
  then show ?thesis
    using d k x need_normalizeTitle_idem [OF t] need_normalizeDescription_idem [OF s]
      budget_normalized_idem [OF b]
    by (simp add: need_content_normalized_def split: option.split)
qed

text \<open>The content of a Need made of normalised content.\<close>

lemma need_content_eta:
  "\<lparr>nc_Title = nc_Title d, nc_Description = nc_Description d, nc_CategoryID = nc_CategoryID d,
    nc_Budget = nc_Budget d,
    nc_Location = \<lparr>Latitude = Latitude (nc_Location d), Longitude = Longitude (nc_Location d)\<rparr>,
    nc_RadiusKm = nc_RadiusKm d, nc_ExpiresAt = nc_ExpiresAt d\<rparr> = (d :: need_content)"
  by (simp add: need_content.equality coordinates.equality)

text \<open>The parts of \<open>Validate\<close>, in a form that rewrites.\<close>

definition need_content_valid :: "need_content \<Rightarrow> bool" where
  "need_content_valid d \<longleftrightarrow>
     (\<exists>e. need_content_normalized d = Inr e \<and> nc_Title e = nc_Title d \<and>
          nc_Description e = nc_Description d)"

lemma need_content_valid_normalized:
  "need_content_normalized c = Inr d \<Longrightarrow> need_content_valid d"
  unfolding need_content_valid_def using need_content_normalized_idem by blast

lemma need_Validate_None:
  "need_Validate n = None \<longleftrightarrow>
     \<not> ID_IsZero (need_ID n) \<and> \<not> ID_IsZero (need_RequesterUserID n) \<and>
     need_status_valid (need_Status n) \<and> need_content_valid (need_content_of n) \<and>
     need_CreatedAt n \<noteq> 0 \<and> need_CreatedAt n \<le> need_UpdatedAt n \<and>
     (\<forall>t. need_ExpiresAt n = Some t \<longrightarrow> need_CreatedAt n < t)"
  by (auto simp: need_Validate_def need_content_valid_def need_content_of_def
      split: sum.splits option.splits if_splits)

lemma need_content_of_status [simp]:
  "need_content_of (n\<lparr>need_Status := s, need_UpdatedAt := t\<rparr>) = need_content_of n"
  by (simp add: need_content_of_def)

section \<open>Domain operations\<close>

text \<open>The draft a creation stores: normalised content under a new identifier.\<close>

definition need_draft_of :: "ID \<Rightarrow> ID \<Rightarrow> need_content \<Rightarrow> time \<Rightarrow> need" where
  "need_draft_of i u d now =
     \<lparr>need_ID = i, need_RequesterUserID = u, need_Title = nc_Title d,
      need_Description = nc_Description d, need_CategoryID = nc_CategoryID d,
      need_Status = NeedDraft, need_Budget = nc_Budget d,
      need_Latitude = Latitude (nc_Location d), need_Longitude = Longitude (nc_Location d),
      need_RadiusKm = nc_RadiusKm d, need_CreatedAt = now, need_UpdatedAt = now,
      need_ExpiresAt = nc_ExpiresAt d\<rparr>"

lemma need_draft_of_valid:
  assumes "need_content_normalized content = Inr d"
    and "\<not> ID_IsZero i" "\<not> ID_IsZero u" "now \<noteq> 0" "\<forall>t. nc_ExpiresAt d = Some t \<longrightarrow> now < t"
  shows "need_Validate (need_draft_of i u d now) = None"
  using assms need_content_valid_normalized [OF assms(1)]
  by (auto simp: need_draft_of_def need_Validate_None need_content_of_def need_content_eta
      need_status_valid_def)

lemma need_status_valid_simps [simp]:
  "need_status_valid NeedDraft" "need_status_valid NeedOpen" "need_status_valid NeedFulfilled"
  "need_status_valid NeedCancelled" "need_status_valid NeedExpired"
  by (simp_all add: need_status_valid_def)

lemma need_transition_valid:
  assumes "need_Validate n = None" and "need_status_valid s"
  shows "need_transition n s now =
    (if now < need_CreatedAt n then Inl (NeedErr Need_errInvalidNeed)
     else Inr (n\<lparr>need_Status := s, need_UpdatedAt := now\<rparr>))"
proof -
  have "need_Validate (n\<lparr>need_Status := s, need_UpdatedAt := now\<rparr>) = None"
    if "\<not> now < need_CreatedAt n"
    using assms that by (simp add: need_Validate_None)
  then show ?thesis by (simp add: need_transition_def Let_def)
qed

text \<open>The operations of the domain, as one relation: what may become of a stored Need.\<close>

definition need_opr :: "time \<Rightarrow> need \<Rightarrow> need \<Rightarrow> bool" where
  "need_opr now n n' \<longleftrightarrow>
     (\<exists>content. need_UpdateContent n content now = Inr n') \<or> need_Open n now = Inr n' \<or>
     need_Fulfill n now = Inr n' \<or> need_Cancel n now = Inr n' \<or> need_Expire n now = Inr n'"

lemma need_transitionD:
  "need_transition n s now = Inr n' \<Longrightarrow>
   n' = n\<lparr>need_Status := s, need_UpdatedAt := now\<rparr> \<and> need_Validate n' = None"
  by (auto simp: need_transition_def Let_def split: if_splits option.splits)

lemma need_UpdateContentD:
  assumes "need_UpdateContent n content now = Inr n'"
  shows "need_status_ownerEditable (need_Status n) \<and> need_Validate n' = None \<and>
    need_ID n' = need_ID n \<and> need_RequesterUserID n' = need_RequesterUserID n \<and>
    need_Status n' = need_Status n \<and> need_CreatedAt n' = need_CreatedAt n \<and>
    need_UpdatedAt n' = now"
  using assms
  by (auto simp: need_UpdateContent_def Let_def split: if_splits sum.splits option.splits)

lemmas need_op_defs = need_Open_def need_Fulfill_def need_Cancel_def need_Expire_def

lemma need_opr_frame:
  assumes "need_opr now n n'"
  shows "need_ID n' = need_ID n" "need_RequesterUserID n' = need_RequesterUserID n"
    "need_CreatedAt n' = need_CreatedAt n" "need_UpdatedAt n' = now" "need_Validate n' = None"
  using assms unfolding need_opr_def need_op_defs
  by (auto split: if_splits dest!: need_UpdateContentD need_transitionD)

text \<open>The life cycle: the pairs of statuses an operation may connect.\<close>

definition need_edge :: "string \<Rightarrow> string \<Rightarrow> bool" where
  "need_edge s t \<longleftrightarrow>
     need_status_ownerEditable s \<and>
     (t = s \<or> s = NeedDraft \<and> t = NeedOpen \<or> s = NeedOpen \<and> t = NeedFulfilled \<or>
      t = NeedCancelled \<or> t = NeedExpired)"

lemma need_opr_edge:
  assumes "need_opr now n n'"
  shows "need_edge (need_Status n) (need_Status n')"
  using assms unfolding need_opr_def need_op_defs need_edge_def
  by (auto simp: need_status_ownerEditable_def split: if_splits
      dest!: need_UpdateContentD need_transitionD)

lemma need_terminal_final: "need_status_Terminal (need_Status n) \<Longrightarrow> \<not> need_opr now n n'"
  using need_opr_edge [of now n n']
  by (auto simp: need_edge_def need_status_ownerEditable_def need_status_Terminal_def)

section \<open>The store keeps the contract\<close>

abbreviation need_table :: "need_mem \<Rightarrow> ID \<Rightarrow> need option" where
  "need_table m \<equiv> map_of (nm_byID m)"

definition need_mem_inv :: "need_mem \<Rightarrow> bool" where
  "need_mem_inv m \<longleftrightarrow> wf_map (nm_byID m) \<and>
     (\<forall>k n. need_table m k = Some n \<longrightarrow> need_ID n = k \<and> need_Validate n = None)"

lemma need_mem_inv_new [simp]: "need_mem_inv need_NewMemoryStore"
  by (simp add: need_mem_inv_def need_NewMemoryStore_def)

lemma need_mem_inv_put:
  "need_mem_inv m \<Longrightarrow> need_Validate n = None \<Longrightarrow>
   need_mem_inv (m\<lparr>nm_byID := AList.update (need_ID n) n (nm_byID m)\<rparr>)"
  by (simp add: need_mem_inv_def)

lemma need_mem_Create_ok:
  "need_mem_Create c n m = (m', Inr u) \<longleftrightarrow>
     ctx_Err c = None \<and> nm_fail m = None \<and> need_Validate n = None \<and>
     need_table m (need_ID n) = None \<and>
     m' = m\<lparr>nm_byID := AList.update (need_ID n) n (nm_byID m)\<rparr>"
  by (auto simp: need_mem_Create_def gguard_def split: option.splits)

lemma need_mem_Create_err: "need_mem_Create c n m = (m', Inl e) \<Longrightarrow> m' = m"
  by (auto simp: need_mem_Create_def gguard_def split: option.splits if_splits)

lemma need_mem_Get_eq:
  "need_mem_Get c i m =
     (m, case ctx_Err c of Some e \<Rightarrow> Inl e | None \<Rightarrow>
         case nm_fail m of Some e \<Rightarrow> Inl e | None \<Rightarrow>
         case need_table m i of None \<Rightarrow> Inl (NeedErr Need_errNotFound) | Some n \<Rightarrow> Inr n)"
  by (simp add: need_mem_Get_def gguard_def split: option.split)

lemma need_mem_Update_ok:
  "need_mem_Update c n v m = (m', Inr u) \<longleftrightarrow>
     ctx_Err c = None \<and> nm_fail m = None \<and> need_Validate n = None \<and>
     (\<exists>cur. need_table m (need_ID n) = Some cur \<and>
        need_RequesterUserID cur = need_RequesterUserID n \<and> need_UpdatedAt cur = v) \<and>
     m' = m\<lparr>nm_byID := AList.update (need_ID n) n (nm_byID m)\<rparr>"
  by (auto simp: need_mem_Update_def gguard_def split: option.splits)

lemma need_mem_Update_err: "need_mem_Update c n v m = (m', Inl e) \<Longrightarrow> m' = m"
  by (auto simp: need_mem_Update_def gguard_def split: option.splits if_splits)

interpretation need_mem: occ_store need_ID need_UpdatedAt need_Validate "\<lambda>_ _. True" need_table
  need_mem_inv "need_mem_Create c" "need_mem_Get c" "need_mem_Update c" for c
proof (unfold_locales, goal_cases)
  case (1 s k s' e)
  then show ?case by (auto simp: need_mem_Get_eq split: option.splits)
next
  case (2 s k s' x)
  then show ?case by (simp add: need_mem_Get_eq)
next
  case (3 s e s' u)
  then show ?case by (auto simp: need_mem_Create_ok need_mem_inv_put)
next
  case (4 s e s' x)
  then show ?case using need_mem_Create_err by blast
next
  case (5 s e v s' u)
  then show ?case by (auto simp: need_mem_Update_ok)
next
  case (6 s e v s' u c)
  then show ?case by (auto simp: need_mem_Update_ok need_mem_inv_put)
next
  case (7 s e v s' x)
  then show ?case using need_mem_Update_err by blast
qed (auto simp: need_mem_inv_def)

text \<open>The system of concurrent requests over this store (\<open>occ_step\<close>).\<close>

abbreviation need_step :: "ctx \<Rightarrow> (need_mem, need) conc \<Rightarrow> (need_mem, need) conc \<Rightarrow> bool" where
  "need_step c \<equiv>
     occ_step (need_mem_Create c) (need_mem_Get c) (need_mem_Update c) need_UpdatedAt need_opr"

section \<open>The service over any store\<close>

lemma need_svc_get_ok:
  assumes "nsv_store s = Some st" and "need_svc_get s c k w = (w', Inr n)"
  shows "\<not> ID_IsZero k" and "ns_Get st c k w = (w', Inr n)"
  using assms by (auto simp: need_svc_get_def split: if_splits dest: gmaperr_InrD)

lemma need_svc_GetOwned_ok:
  assumes "nsv_store s = Some st" and "need_svc_GetOwned s c u k w = (w', Inr n)"
  shows "ns_Get st c k w = (w', Inr n) \<and> need_RequesterUserID n = u"
  using assms(2) unfolding need_svc_GetOwned_def
  by (rule gbind_InrE) (auto dest: need_svc_get_ok [OF assms(1)] split: if_splits)

lemma need_mutateOwned_ok:
  assumes "nsv_store s = Some st" and "need_mutateOwned s c u k fn w = (w', Inr n')"
  shows "\<exists>w1 w2 cur now. ns_Get st c k w = (w1, Inr cur) \<and> need_RequesterUserID cur = u \<and>
    nsv_now s w1 = (w2, now) \<and> fn cur now = Inr n' \<and>
    ns_Update st c n' (need_UpdatedAt cur) w2 = (w', Inr ())"
proof -
  obtain w1 cur where "need_svc_GetOwned s c u k w = (w1, Inr cur)"
    and "gread (nsv_now s) (\<lambda>now. gbind (gpure (fn cur (time_UTC now))) (\<lambda>nxt.
       gcase (ns_Update st c nxt (need_UpdatedAt cur))
         (\<lambda>e. gfail (need_mapStoreErr e)) (\<lambda>_. gret nxt))) w1 = (w', Inr n')"
    using assms by (auto simp: need_mutateOwned_def elim: gbind_InrE)
  then show ?thesis
    using need_svc_GetOwned_ok [OF assms(1)]
    by (fastforce simp: gread_apply go_apply gpure_def split: prod.splits sum.splits)
qed

lemma dedup_candidates_notin: "r \<in> set (dedup_candidates seen rows) \<Longrightarrow> sc_ServiceID r \<notin> seen"
  by (induction rows arbitrary: seen) (auto split: if_splits)

lemma dedup_candidates_distinct: "distinct (map sc_ServiceID (dedup_candidates seen rows))"
  by (induction rows arbitrary: seen) (auto dest: dedup_candidates_notin)

lemma dedup_candidates_services:
  "sc_ServiceID ` set (dedup_candidates seen rows) = sc_ServiceID ` set rows - seen"
  by (induction rows arbitrary: seen) auto

lemma dedup_candidates_subseq: "subseq (dedup_candidates seen rows) rows"
  by (induction rows arbitrary: seen) auto

lemma need_radius_bounds:
  assumes "need_Validate n = None"
  shows "\<exists>r. cq_RadiusKm (need_candidate_query n limit) = Finite r \<and> 1/20 < r \<and> r \<le> 50"
proof (cases "need_RadiusKm n")
  case None
  then show ?thesis by (simp add: need_candidate_query_def DefaultMatchRadiusKm_def)
next
  case (Some r)
  obtain e where "need_content_normalized (need_content_of n) = Inr e"
    using assms by (auto simp: need_Validate_None need_content_valid_def)
  then have "need_normalizeRadius (Some r) = Inr (nc_RadiusKm e)"
    using Some by (auto elim!: need_content_normalizedE simp: need_content_of_def)
  then obtain x where "r = Finite x" "\<not> float_less r MinRadiusKm" "\<not> float_less MaxRadiusKm r"
    using float_finite_cases [of r] by (auto simp: need_normalizeRadius_def split: if_splits)
  then show ?thesis
    using Some by (simp add: need_candidate_query_def MinRadiusKm_def MaxRadiusKm_def)
qed

section \<open>Samples\<close>

text \<open>Concrete values at which the properties are instantiated.\<close>

definition sample_content :: need_content where
  "sample_content =
     \<lparr>nc_Title = ''Boya'', nc_Description = [], nc_CategoryID = None, nc_Budget = None,
      nc_Location = \<lparr>Latitude = Finite 41, Longitude = Finite 29\<rparr>, nc_RadiusKm = None,
      nc_ExpiresAt = None\<rparr>"

definition sample_need :: "string \<Rightarrow> need" where
  "sample_need s =
     \<lparr>need_ID = id_n 1, need_RequesterUserID = id_n 2, need_Title = ''Boya'',
      need_Description = [], need_CategoryID = None, need_Status = s, need_Budget = None,
      need_Latitude = Finite 41, need_Longitude = Finite 29, need_RadiusKm = None,
      need_CreatedAt = 1, need_UpdatedAt = 1, need_ExpiresAt = None\<rparr>"

definition sample_need_mem :: "string \<Rightarrow> need_mem" where
  "sample_need_mem s = \<lparr>nm_byID = [(id_n 1, sample_need s)], nm_fail = None\<rparr>"

lemma sample_content_ok [simp]: "need_content_normalized sample_content = Inr sample_content"
  by (simp add: need_content_normalized_def sample_content_def need_normalizeTitle_def Let_def
      need_normalizeDescription_def ValidateCoordinates_def budget_normalized_def
      need_normalizeRadius_def utf8_RuneCountInString_def runes_ascii unicode_IsControl_def
      MaxTitleRunes_def del: runes.simps)

lemma sample_need_content: "need_content_of (sample_need s) = sample_content"
  by (simp add: need_content_of_def sample_need_def sample_content_def)

lemma sample_need_valid [simp]: "need_status_valid s \<Longrightarrow> need_Validate (sample_need s) = None"
  using need_content_valid_normalized [OF sample_content_ok] sample_need_content [of s]
  by (simp add: need_Validate_None) (simp add: sample_need_def)

lemma sample_need_sel [simp]:
  "need_ID (sample_need s) = id_n 1" "need_RequesterUserID (sample_need s) = id_n 2"
  "need_Status (sample_need s) = s" "need_CreatedAt (sample_need s) = 1"
  "need_UpdatedAt (sample_need s) = 1" "need_ExpiresAt (sample_need s) = None"
  by (simp_all add: sample_need_def)

lemma sample_need_mem_inv [simp]: "need_status_valid s \<Longrightarrow> need_mem_inv (sample_need_mem s)"
  by (simp add: sample_need_mem_def need_mem_inv_def wf_map_def)

section \<open>Properties\<close>

text \<open>Creating a draft. \<open>NewDraft\<close> succeeds exactly when the requester is a real identifier, the
  clock and the random source work, the content normalises and the expiry (if any) lies in the future;
  the result is then the draft built from the normalised content. In particular its last step, the
  validation of the value it just built, never refuses, and the result passes \<open>Validate\<close>.\<close>

theorem need_NewDraft_iff:
  "(need_NewDraft u content now entropy = Inr n \<longleftrightarrow>
     \<not> ID_IsZero u \<and> now \<noteq> 0 \<and>
     (\<exists>d i. need_content_normalized content = Inr d \<and>
        (\<forall>t. nc_ExpiresAt d = Some t \<longrightarrow> now < t) \<and> NewID entropy = Some i \<and>
        n = need_draft_of i u d now)) \<and>
   (need_NewDraft u content now entropy = Inr n \<longrightarrow> need_Validate n = None)"
proof -
  have eq: "need_NewDraft u content now entropy = Inr n \<longleftrightarrow>
     \<not> ID_IsZero u \<and> now \<noteq> 0 \<and>
     (\<exists>d i. need_content_normalized content = Inr d \<and>
        (\<forall>t. nc_ExpiresAt d = Some t \<longrightarrow> now < t) \<and> NewID entropy = Some i \<and>
        n = need_draft_of i u d now \<and> need_Validate n = None)"
    unfolding need_NewDraft_def need_draft_of_def [symmetric]
    by (auto simp: Let_def need_draft_of_def split: sum.split option.split)
  moreover have "need_Validate (need_draft_of i u d now) = None"
    if "need_content_normalized content = Inr d" "\<not> ID_IsZero u" "now \<noteq> 0"
      "\<forall>t. nc_ExpiresAt d = Some t \<longrightarrow> now < t" "NewID entropy = Some i" for d i
    using need_draft_of_valid [OF that(1)] NewID_not_zero that by blast
  ultimately show ?thesis by blast
qed

theorem need_NewDraft_iff_witness:
  "need_NewDraft (id_n 2) sample_content 5 (Some (id_n 7)) =
     Inr (need_draft_of (stamp_uuid (id_n 7)) (id_n 2) sample_content 5)"
  using need_NewDraft_iff [of "id_n 2" sample_content 5 "Some (id_n 7)"]
  by (simp add: NewID_def) (simp add: sample_content_def)

text \<open>The life cycle, on every branch. On a valid Need and a time not before its creation, \<open>Open\<close>
  takes a draft to open, \<open>Fulfill\<close> an open Need to fulfilled, \<open>Cancel\<close> a draft or open Need to
  cancelled and \<open>Expire\<close> one whose expiry has come to expired; each changes only the status and
  \<open>UpdatedAt\<close>, and every other call is refused as an invalid transition.\<close>

theorem need_life_cycle:
  assumes "need_Validate n = None" and "need_CreatedAt n \<le> now"
  shows "need_Open n now =
      (if need_Status n = NeedDraft then Inr (n\<lparr>need_Status := NeedOpen, need_UpdatedAt := now\<rparr>)
       else Inl (NeedErr Need_errInvalidTransition)) \<and>
    need_Fulfill n now =
      (if need_Status n = NeedOpen
       then Inr (n\<lparr>need_Status := NeedFulfilled, need_UpdatedAt := now\<rparr>)
       else Inl (NeedErr Need_errInvalidTransition)) \<and>
    need_Cancel n now =
      (if need_Status n = NeedDraft \<or> need_Status n = NeedOpen
       then Inr (n\<lparr>need_Status := NeedCancelled, need_UpdatedAt := now\<rparr>)
       else Inl (NeedErr Need_errInvalidTransition)) \<and>
    need_Expire n now =
      (if (need_Status n = NeedDraft \<or> need_Status n = NeedOpen) \<and>
          (\<exists>t. need_ExpiresAt n = Some t \<and> t \<le> now)
       then Inr (n\<lparr>need_Status := NeedExpired, need_UpdatedAt := now\<rparr>)
       else Inl (NeedErr Need_errInvalidTransition))"
  using assms by (auto simp: need_op_defs need_transition_valid split: option.split)

theorem need_life_cycle_witness:
  "need_Open (sample_need NeedDraft) 3 =
     Inr (sample_need NeedDraft\<lparr>need_Status := NeedOpen, need_UpdatedAt := 3\<rparr>)"
  using need_life_cycle [of "sample_need NeedDraft" 3] by simp



end
