(* ===== verification/Pg.thy ===== *)
theory Pg
  imports Go_Service
begin

text \<open>
  The package \<open>platform/db\<close>: the connection pool and its transactions as the stores see them. The
  driver and the server are outside the repository; what they do with each command is a choice of the
  environment (\<open>pg_fate\<close>), so a theorem about this world holds whatever fails and whenever. The SQL
  statements the stores send are functions on tables, built from the four forms at the end.
\<close>

section \<open>The database\<close>

text \<open>
  What the driver reports: the request was cancelled, a unique index was violated (SQLSTATE 23505), a
  query for one row found none, or anything else.
\<close>

datatype pg_error = Pg_Ctx ctx_error | Pg_Unique | Pg_NoRows | Pg_Other

text \<open>
  A command runs; or it fails before it has an effect; or it takes effect on the server and the
  connection is lost before the answer arrives.
\<close>

datatype pg_fate = Runs | Refused pg_error | Lost pg_error

text \<open>
  \<open>pg_data\<close> is the content of the database as the request sees it. While a transaction is open,
  \<open>pg_saved\<close> holds what is committed, and \<open>pg_aborted\<close> tells whether a statement of it has failed: the
  server then refuses every further statement and turns a \<open>COMMIT\<close> into a \<open>ROLLBACK\<close>. The clock and the
  random source of the process belong to the world, too.
\<close>

record 'd pg =
  pg_data :: 'd
  pg_saved :: "'d option"
  pg_aborted :: bool
  pg_fate :: "nat \<Rightarrow> pg_fate"
  pg_seq :: nat
  pg_clock :: "nat \<Rightarrow> time"
  pg_ticks :: nat
  pg_entropy :: "nat \<Rightarrow> ID option"
  pg_draws :: nat

definition pg_now :: "'d pg \<Rightarrow> 'd pg \<times> time" where
  "pg_now w = (w\<lparr>pg_ticks := Suc (pg_ticks w)\<rparr>, pg_clock w (pg_ticks w))"

definition pg_rand :: "'d pg \<Rightarrow> 'd pg \<times> ID option" where
  "pg_rand w = (w\<lparr>pg_draws := Suc (pg_draws w)\<rparr>, pg_entropy w (pg_draws w))"

type_synonym ('d, 'a) stmt = "'d \<Rightarrow> 'd \<times> (pg_error + 'a)"

definition pg_cause :: "go_error \<Rightarrow> pg_error" where
  "pg_cause e = (case e of CtxErr x \<Rightarrow> Pg_Ctx x | _ \<Rightarrow> Pg_Other)"

text \<open>A failed command: in a transaction, nothing but a rollback helps afterwards.\<close>

definition pg_broken :: "ctx \<Rightarrow> pg_error \<Rightarrow> 'd pg \<Rightarrow> 'd pg \<times> (pg_error + 'a)" where
  "pg_broken c e w = (w\<lparr>pg_aborted := pg_aborted w \<or> ctx_tx c\<rparr>, Inl e)"

text \<open>One command on the pool or on the transaction of the context.\<close>

definition pg_run :: "ctx \<Rightarrow> ('d, 'a) stmt \<Rightarrow> 'd pg \<Rightarrow> 'd pg \<times> (pg_error + 'a)" where
  "pg_run c stmt w =
     (let w1 = w\<lparr>pg_seq := Suc (pg_seq w)\<rparr> in
      case ctx_Err c of Some e \<Rightarrow> pg_broken c (pg_cause e) w1 | None \<Rightarrow>
      if ctx_tx c \<and> pg_aborted w then (w1, Inl Pg_Other)
      else case pg_fate w (pg_seq w) of
          Refused e \<Rightarrow> pg_broken c e w1
        | Runs \<Rightarrow>
            (case stmt (pg_data w) of
               (d, Inl e) \<Rightarrow> pg_broken c e w1
             | (d, Inr x) \<Rightarrow> (w1\<lparr>pg_data := d\<rparr>, Inr x))
        | Lost e \<Rightarrow>
            (case stmt (pg_data w) of
               (d, Inl e') \<Rightarrow> pg_broken c e' w1
             | (d, Inr x) \<Rightarrow> pg_broken c e (w1\<lparr>pg_data := d\<rparr>)))"

section \<open>The pool\<close>

definition mapWriteErr :: "pg_error \<Rightarrow> go_error" where
  "mapWriteErr err =
     (case err of
        Pg_Ctx x \<Rightarrow> CtxErr x
      | Pg_Unique \<Rightarrow> DbErr Db_ErrConflict
      | _ \<Rightarrow> DbErr Db_ErrUnavailable)"

definition pg_go :: "(pg_error \<Rightarrow> go_error) \<Rightarrow> ('w \<Rightarrow> 'w \<times> (pg_error + 'a)) \<Rightarrow> ('w, 'a) go" where
  "pg_go f m = (\<lambda>w. case m w of (w', Inl e) \<Rightarrow> (w', Inl (f e)) | (w', Inr x) \<Rightarrow> (w', Inr x))"

definition pool_Exec :: "ctx \<Rightarrow> ('d, 'a) stmt \<Rightarrow> ('d pg, 'a) go" where
  "pool_Exec c stmt = pg_go mapWriteErr (pg_run c stmt)"

text \<open>\<open>mappedRow.Scan\<close>: a cancelled context is not told apart here.\<close>

definition mapRowErr :: "pg_error \<Rightarrow> go_error" where
  "mapRowErr err = (if err = Pg_NoRows then DbErr Db_ErrNoRows else DbErr Db_ErrUnavailable)"

definition pool_QueryRow :: "ctx \<Rightarrow> ('d, 'a) stmt \<Rightarrow> ('d pg, 'a) go" where
  "pool_QueryRow c stmt = pg_go mapRowErr (pg_run c stmt)"

definition mapQueryErr :: "pg_error \<Rightarrow> go_error" where
  "mapQueryErr err = (case err of Pg_Ctx x \<Rightarrow> CtxErr x | _ \<Rightarrow> DbErr Db_ErrUnavailable)"

definition pool_Query :: "ctx \<Rightarrow> ('d, 'a) stmt \<Rightarrow> ('d pg, 'a) go" where
  "pool_Query c stmt = pg_go mapQueryErr (pg_run c stmt)"

section \<open>Transactions\<close>

definition pool_Begin :: "ctx \<Rightarrow> ('d pg, unit) go" where
  "pool_Begin c = pg_go mapQueryErr (\<lambda>w.
     let w1 = w\<lparr>pg_seq := Suc (pg_seq w)\<rparr> in
     case ctx_Err c of Some e \<Rightarrow> (w1, Inl (pg_cause e)) | None \<Rightarrow>
     case pg_fate w (pg_seq w) of
       Runs \<Rightarrow> (w1\<lparr>pg_saved := Some (pg_data w), pg_aborted := False\<rparr>, Inr ())
     | Refused e \<Rightarrow> (w1, Inl e)
     | Lost e \<Rightarrow> (w1, Inl e))"

text \<open>A lost answer to \<open>COMMIT\<close> leaves the caller with an error and the data committed.\<close>

definition poolTx_Commit :: "ctx \<Rightarrow> ('d pg, unit) go" where
  "poolTx_Commit c = pg_go mapWriteErr (\<lambda>w.
     let w1 = w\<lparr>pg_seq := Suc (pg_seq w)\<rparr> in
     case ctx_Err c of Some e \<Rightarrow> (w1, Inl (pg_cause e)) | None \<Rightarrow>
     if pg_aborted w then (w1, Inl Pg_Other)
     else case pg_fate w (pg_seq w) of
       Runs \<Rightarrow> (w1\<lparr>pg_saved := None\<rparr>, Inr ())
     | Refused e \<Rightarrow> (w1, Inl e)
     | Lost e \<Rightarrow> (w1\<lparr>pg_saved := None\<rparr>, Inl e))"

text \<open>After a commit there is nothing left to roll back. The callers ignore the error of \<open>Rollback\<close>;
  a connection that cannot be told to roll back is closed, which the server takes as the same.\<close>

definition poolTx_Rollback :: "ctx \<Rightarrow> 'd pg \<Rightarrow> 'd pg" where
  "poolTx_Rollback c w =
     (case pg_saved w of
        None \<Rightarrow> w
      | Some d \<Rightarrow> w\<lparr>pg_data := d, pg_saved := None, pg_aborted := False, pg_seq := Suc (pg_seq w)\<rparr>)"

definition PoolTransactor :: "(go_error \<Rightarrow> go_error) \<Rightarrow> 'd pg transactor" where
  "PoolTransactor mapStoreErr =
     \<lparr>tx_Begin = (\<lambda>c. gmaperr mapStoreErr (pool_Begin c)), tx_Commit = poolTx_Commit,
      tx_Rollback = poolTx_Rollback\<rparr>"

section \<open>SQL statements on one table\<close>

text \<open>
  A table is the list of its rows under their primary key. \<open>chk\<close> are its \<open>CHECK\<close> constraints and
  \<open>clash r s\<close> says that the rows \<open>r\<close> and \<open>s\<close> agree on a unique index other than the primary key.
\<close>

definition pg_insert ::
  "('r \<Rightarrow> 'k) \<Rightarrow> ('r \<Rightarrow> bool) \<Rightarrow> ('r \<Rightarrow> 'r \<Rightarrow> bool) \<Rightarrow> 'r \<Rightarrow> (('k, 'r) gomap, unit) stmt" where
  "pg_insert key chk clash r = (\<lambda>rows.
     if \<not> chk r then (rows, Inl Pg_Other)
     else if map_of rows (key r) \<noteq> None \<or> list_ex (\<lambda>s. clash r (snd s)) rows
       then (rows, Inl Pg_Unique)
     else (AList.update (key r) r rows, Inr ()))"

text \<open>\<open>UPDATE \<dots> SET \<dots> WHERE id = k AND cond\<close>, with the number of rows it affected.\<close>

definition pg_update ::
  "'k \<Rightarrow> ('r \<Rightarrow> bool) \<Rightarrow> ('r \<Rightarrow> 'r) \<Rightarrow> ('r \<Rightarrow> bool) \<Rightarrow> ('r \<Rightarrow> 'r \<Rightarrow> bool) \<Rightarrow> (('k, 'r) gomap, int) stmt" where
  "pg_update k cond asg chk clash = (\<lambda>rows.
     case map_of rows k of
       None \<Rightarrow> (rows, Inr 0)
     | Some r \<Rightarrow>
         if \<not> cond r then (rows, Inr 0)
         else if \<not> chk (asg r) then (rows, Inl Pg_Other)
         else if list_ex (\<lambda>s. fst s \<noteq> k \<and> clash (asg r) (snd s)) rows then (rows, Inl Pg_Unique)
         else (AList.update k (asg r) rows, Inr 1))"

definition pg_select_row :: "('r \<Rightarrow> bool) \<Rightarrow> (('k, 'r) gomap, 'r) stmt" where
  "pg_select_row p = (\<lambda>rows.
     (rows, case find p (map snd rows) of None \<Rightarrow> Inl Pg_NoRows | Some r \<Rightarrow> Inr r))"

definition pg_select :: "('r \<Rightarrow> bool) \<Rightarrow> ('r list \<Rightarrow> 'r list) \<Rightarrow> (('k, 'r) gomap, 'r list) stmt" where
  "pg_select p order = (\<lambda>rows. (rows, Inr (order (filter p (map snd rows)))))"

text \<open>The table is one field of the database.\<close>

definition on_table ::
  "('d \<Rightarrow> 't) \<Rightarrow> (('t \<Rightarrow> 't) \<Rightarrow> 'd \<Rightarrow> 'd) \<Rightarrow> ('t, 'a) stmt \<Rightarrow> ('d, 'a) stmt" where
  "on_table get upd stmt = (\<lambda>d. case stmt (get d) of (t, r) \<Rightarrow> (upd (\<lambda>_. t) d, r))"

text \<open>
  The statements of a store on its table, which it reaches as a field of the database (\<open>fst l\<close> reads it,
  \<open>snd l\<close> updates it); \<open>mp\<close> is the \<open>mapDBErr\<close> of the package. \<open>pg_occ_update\<close> is the update with
  optimistic concurrency control all the packages repeat: when no row matched, a second query tells a
  missing row from a changed one.
\<close>

type_synonym ('d, 't) lens = "('d \<Rightarrow> 't) \<times> (('t \<Rightarrow> 't) \<Rightarrow> 'd \<Rightarrow> 'd)"

definition lens_ok :: "('d, 't) lens \<Rightarrow> bool" where
  "lens_ok l \<longleftrightarrow> (\<forall>f d. fst l (snd l f d) = f (fst l d)) \<and> (\<forall>d. snd l (\<lambda>_. fst l d) d = d)"

definition pg_create ::
  "(go_error \<Rightarrow> go_error) \<Rightarrow> ('d, ('k, 'r) gomap) lens \<Rightarrow> ('r \<Rightarrow> 'k) \<Rightarrow> ('r \<Rightarrow> bool) \<Rightarrow>
   ('r \<Rightarrow> 'r \<Rightarrow> bool) \<Rightarrow> ctx \<Rightarrow> 'r \<Rightarrow> ('d pg, unit) go" where
  "pg_create mp l key chk clash c r =
     gmaperr mp (pool_Exec c (on_table (fst l) (snd l) (pg_insert key chk clash r)))"

definition pg_get ::
  "(go_error \<Rightarrow> go_error) \<Rightarrow> ('d, ('k, 'r) gomap) lens \<Rightarrow> ctx \<Rightarrow> ('r \<Rightarrow> bool) \<Rightarrow> ('d pg, 'r) go" where
  "pg_get mp l c p = gmaperr mp (pool_QueryRow c (on_table (fst l) (snd l) (pg_select_row p)))"

definition pg_list ::
  "(go_error \<Rightarrow> go_error) \<Rightarrow> ('d, ('k, 'r) gomap) lens \<Rightarrow> ctx \<Rightarrow> ('r \<Rightarrow> bool) \<Rightarrow>
   ('r list \<Rightarrow> 'r list) \<Rightarrow> ('d pg, 'r list) go" where
  "pg_list mp l c p order = gmaperr mp (pool_Query c (on_table (fst l) (snd l) (pg_select p order)))"

definition pg_occ_update ::
  "(go_error \<Rightarrow> go_error) \<Rightarrow> go_error \<Rightarrow> ('d, ('k, 'r) gomap) lens \<Rightarrow> ('r \<Rightarrow> 'k) \<Rightarrow> ('r \<Rightarrow> bool) \<Rightarrow>
   ('r \<Rightarrow> 'r \<Rightarrow> bool) \<Rightarrow> ctx \<Rightarrow> 'k \<Rightarrow> ('r \<Rightarrow> bool) \<Rightarrow> ('r \<Rightarrow> 'r) \<Rightarrow> ('d pg, unit) go" where
  "pg_occ_update mp errConflict l key chk clash c k cond asg =
     gcase (pool_Exec c (on_table (fst l) (snd l) (pg_update k cond asg chk clash)))
       (\<lambda>e. gfail (mp e))
       (\<lambda>n. if n = 0 then gbind (pg_get mp l c (\<lambda>r. key r = k)) (\<lambda>_. gfail errConflict) else gret ())"

text \<open>
  A value goes through its column type on the way in and back: \<open>TIMESTAMPTZ\<close> keeps microseconds,
  \<open>NUMERIC\<close> written as text drops leading zeros. Both conversions are the server's.
\<close>

record pg_codec =
  pc_time :: "time \<Rightarrow> time"
  pc_numeric :: "string \<Rightarrow> string"

section \<open>Facts about commands\<close>

lemmas pool_defs = pool_Exec_def pool_QueryRow_def pool_Query_def

lemma pg_go_apply:
  "pg_go f m w = (case m w of (w', Inl e) \<Rightarrow> (w', Inl (f e)) | (w', Inr x) \<Rightarrow> (w', Inr x))"
  by (simp add: pg_go_def)

lemma fst_pg_go [simp]: "fst (pg_go f m w) = fst (m w)"
  by (simp add: pg_go_apply split: prod.split sum.split)

text \<open>
  What every command of a request keeps while its transaction is open: the committed data, the
  environment, and the fact that a statement has failed.
\<close>

definition pg_grows :: "'d pg \<Rightarrow> 'd pg \<Rightarrow> bool" where
  "pg_grows w w' \<longleftrightarrow> pg_saved w' = pg_saved w \<and> (pg_aborted w \<longrightarrow> pg_aborted w') \<and>
     pg_fate w' = pg_fate w \<and> pg_clock w' = pg_clock w \<and> pg_entropy w' = pg_entropy w"

interpretation grows: world_order pg_grows
  by unfold_locales (auto simp: pg_grows_def)

lemma pg_grows_run: "pg_grows w (fst (pg_run c stmt w))"
  by (auto simp: pg_grows_def pg_run_def pg_broken_def Let_def split: option.splits pg_fate.splits
      prod.splits sum.splits)

lemma pg_grows_pool [simp, intro]:
  "keeps pg_grows (pool_Exec c stmt)" "keeps pg_grows (pool_QueryRow c stmt)"
  "keeps pg_grows (pool_Query c stmt)"
  by (simp_all add: keeps_def pool_defs pg_grows_run)

lemma pg_grows_read [simp]: "pg_grows w (fst (pg_now w))" "pg_grows w (fst (pg_rand w))"
  by (simp_all add: pg_grows_def pg_now_def pg_rand_def)

lemma keeps_savedD: "keeps pg_grows m \<Longrightarrow> pg_saved (fst (m w)) = pg_saved w"
  by (simp add: keeps_def pg_grows_def)

text \<open>The pool keeps the contract of a \<open>Transactor\<close>.\<close>

lemma pool_Begin_cases:
  "pool_Begin c w = (w', r) \<Longrightarrow>
     (case r of
        Inr _ \<Rightarrow> w' = w\<lparr>pg_seq := Suc (pg_seq w), pg_saved := Some (pg_data w), pg_aborted := False\<rparr>
      | Inl _ \<Rightarrow> w' = w\<lparr>pg_seq := Suc (pg_seq w)\<rparr>)"
  by (auto simp: pool_Begin_def pg_go_apply Let_def split: option.splits pg_fate.splits)

lemma poolTx_Commit_cases:
  "poolTx_Commit c w = (w', r) \<Longrightarrow>
     (case r of
        Inr _ \<Rightarrow> \<not> pg_aborted w \<and> w' = w\<lparr>pg_seq := Suc (pg_seq w), pg_saved := None\<rparr>
      | Inl _ \<Rightarrow> w' = w\<lparr>pg_seq := Suc (pg_seq w)\<rparr> \<or>
          \<not> pg_aborted w \<and> w' = w\<lparr>pg_seq := Suc (pg_seq w), pg_saved := None\<rparr>)"
  by (auto simp: poolTx_Commit_def pg_go_apply Let_def split: option.splits pg_fate.splits if_splits)

interpretation pool_tx: unit_of_work "PoolTransactor mapStoreErr" pg_data pg_saved for mapStoreErr
proof (unfold_locales, goal_cases)
  case (1 w c w')
  then have "pool_Begin c w = (w', Inr ())"
    by (auto simp: PoolTransactor_def gmaperr_apply split: prod.splits sum.splits)
  from pool_Begin_cases [OF this] show ?case by simp
next
  case (2 c w w' e)
  then obtain e' where "pool_Begin c w = (w', Inl e')"
    by (auto simp: PoolTransactor_def gmaperr_apply split: prod.splits sum.splits)
  from pool_Begin_cases [OF this] show ?case by simp
next
  case (3 c w w')
  then have "poolTx_Commit c w = (w', Inr ())" by (simp add: PoolTransactor_def)
  from poolTx_Commit_cases [OF this] show ?case by simp
next
  case (4 c w w' e)
  then have "poolTx_Commit c w = (w', Inl e)" by (simp add: PoolTransactor_def)
  from poolTx_Commit_cases [OF this] show ?case by auto
qed (simp_all add: PoolTransactor_def poolTx_Rollback_def split: option.splits)

text \<open>
  Units of work on the pool. When the data changed at all, the body ran to its end without one failed
  statement, whether or not the caller learnt of it.
\<close>

lemma pool_unit_of_work:
  assumes "pg_saved w = None" and "\<not> ctx_tx c" and keep: "keeps pg_grows (fn (WithTx c))"
    and run: "run_maybe_tx mp (Some ob) (Some (PoolTransactor mp')) c fn w = (w', r)"
  shows "pg_saved w' = None \<and>
    (pg_data w' = pg_data w \<and> (\<exists>e. r = Inl e) \<or>
     (\<exists>w1 w2 x. pg_saved w1 = Some (pg_data w) \<and> \<not> pg_aborted w1 \<and> pg_data w1 = pg_data w \<and>
        fn (WithTx c) w1 = (w2, Inr x) \<and> \<not> pg_aborted w2 \<and> pg_data w' = pg_data w2 \<and>
        (r = Inr x \<or> (\<exists>e. r = Inl e))))"
proof -
  note cs = pool_tx.run_tx_cases [OF assms(1,2) keeps_savedD [OF keep] run]
  have bg: "pg_saved w1 = Some (pg_data w) \<and> \<not> pg_aborted w1 \<and> pg_data w1 = pg_data w"
    if "tx_Begin (PoolTransactor mp') c w = (w1, Inr ())" for w1
  proof -
    have "pool_Begin c w = (w1, Inr ())"
      using that by (auto simp: PoolTransactor_def gmaperr_apply split: prod.splits sum.splits)
    from pool_Begin_cases [OF this] show ?thesis by simp
  qed
  have cm: "\<not> pg_aborted w2" if "tx_Commit (PoolTransactor mp') c w2 = (w3, Inr ())" for w2 w3
  proof -
    have "poolTx_Commit c w2 = (w3, Inr ())" using that by (simp add: PoolTransactor_def)
    from poolTx_Commit_cases [OF this] show ?thesis by simp
  qed
  show ?thesis
  proof (cases r)
    case (Inr x)
    then show ?thesis using cs bg cm by (auto; blast)
  next
    case (Inl e)
    then have s: "pg_saved w' = None" using cs by simp
    show ?thesis
    proof (cases "pg_data w' = pg_data w")
      case True
      with s Inl show ?thesis by simp
    next
      case False
      with cs Inl obtain w1 w2 w3 x e' where b: "tx_Begin (PoolTransactor mp') c w = (w1, Inr ())"
        and f: "fn (WithTx c) w1 = (w2, Inr x)"
        and m: "tx_Commit (PoolTransactor mp') c w2 = (w3, Inl e')" and d: "pg_data w' = pg_data w2"
        by auto
      have m': "poolTx_Commit c w2 = (w3, Inl e')" using m by (simp add: PoolTransactor_def)
      have "\<not> pg_aborted w2"
      proof
        assume ab: "pg_aborted w2"
        then have w3: "pg_data w3 = pg_data w2" "pg_saved w3 = pg_saved w2"
          using poolTx_Commit_cases [OF m'] by auto
        have "pg_saved w2 = Some (pg_data w)"
          using keeps_savedD [OF keep, of w1] f bg [OF b] by simp
        then have "pg_data (poolTx_Rollback c w3) = pg_data w" using w3 by (simp add: poolTx_Rollback_def)
        moreover have "w' = poolTx_Rollback c w3"
          using run assms(2) b f m
          by (auto simp: run_maybe_tx_def go_apply gdefer_def PoolTransactor_def)
        ultimately show False using False by simp
      qed
      with s Inl b f d bg [OF b] show ?thesis by blast
    qed
  qed
qed

text \<open>While everything works, a command is its statement.\<close>

definition pg_up :: "ctx \<Rightarrow> 'd pg \<Rightarrow> bool" where
  "pg_up c w \<longleftrightarrow> ctx_Err c = None \<and> \<not> (ctx_tx c \<and> pg_aborted w) \<and> (\<forall>n. pg_fate w n = Runs)"

lemma pg_run_up:
  "pg_up c w \<Longrightarrow> pg_run c stmt w =
     (let w1 = w\<lparr>pg_seq := Suc (pg_seq w)\<rparr> in
      case stmt (pg_data w) of
        (d, Inl e) \<Rightarrow> pg_broken c e w1
      | (d, Inr x) \<Rightarrow> (w1\<lparr>pg_data := d\<rparr>, Inr x))"
  by (auto simp: pg_run_def pg_up_def Let_def)

lemma pool_up:
  assumes "pg_up c w"
  shows "pool_Exec c (on_table get upd st) w =
      (case st (get (pg_data w)) of
         (t, Inl e) \<Rightarrow> (w\<lparr>pg_seq := Suc (pg_seq w), pg_aborted := pg_aborted w \<or> ctx_tx c\<rparr>, Inl (mapWriteErr e))
       | (t, Inr x) \<Rightarrow> (w\<lparr>pg_seq := Suc (pg_seq w), pg_data := upd (\<lambda>_. t) (pg_data w)\<rparr>, Inr x))"
    and "pool_QueryRow c (on_table get upd st) w =
      (case st (get (pg_data w)) of
         (t, Inl e) \<Rightarrow> (w\<lparr>pg_seq := Suc (pg_seq w), pg_aborted := pg_aborted w \<or> ctx_tx c\<rparr>, Inl (mapRowErr e))
       | (t, Inr x) \<Rightarrow> (w\<lparr>pg_seq := Suc (pg_seq w), pg_data := upd (\<lambda>_. t) (pg_data w)\<rparr>, Inr x))"
    and "pool_Query c (on_table get upd st) w =
      (case st (get (pg_data w)) of
         (t, Inl e) \<Rightarrow> (w\<lparr>pg_seq := Suc (pg_seq w), pg_aborted := pg_aborted w \<or> ctx_tx c\<rparr>, Inl (mapQueryErr e))
       | (t, Inr x) \<Rightarrow> (w\<lparr>pg_seq := Suc (pg_seq w), pg_data := upd (\<lambda>_. t) (pg_data w)\<rparr>, Inr x))"
  unfolding pool_defs pg_go_apply pg_run_up [OF assms] pg_broken_def on_table_def Let_def
  by (auto split: prod.splits sum.splits)

text \<open>Looking up one row is a lookup by key, or by an index that is unique.\<close>

lemma find_by_key:
  assumes "wf_map rows" and "\<And>k r. map_of rows k = Some r \<Longrightarrow> key r = k"
  shows "find (\<lambda>r. key r = i) (map snd rows) = map_of rows i"
  using assms
proof (induction rows)
  case (Cons x xs)
  obtain k r where x: "x = (k, r)" by fastforce
  have kr: "key r = k" using Cons.prems(2) [of k r] x by simp
  have "key r' = k'" if m: "map_of xs k' = Some r'" for k' r'
  proof -
    have "k' \<noteq> k" using Cons.prems(1) x map_of_SomeD [OF m] by (force simp: wf_map_def)
    then show ?thesis using Cons.prems(2) [of k' r'] x m by simp
  qed
  then have "find (\<lambda>r. key r = i) (map snd xs) = map_of xs i"
    using Cons.IH Cons.prems(1) by (simp add: wf_map_def)
  with x kr show ?case by simp
qed simp

lemma find_only:
  assumes "x \<in> set xs" and "p x" and "\<And>y. y \<in> set xs \<Longrightarrow> p y \<Longrightarrow> y = x"
  shows "find p xs = Some x"
proof (cases "find p xs")
  case None
  then show ?thesis using assms(1,2) by (auto simp: find_None_iff)
next
  case (Some y)
  then have "y \<in> set xs" "p y" by (auto simp: find_Some_iff)
  with assms(3) Some show ?thesis by simp
qed

text \<open>An index is a map from the indexed value to the key of the row.\<close>

lemma find_by_index:
  assumes wf: "wf_map rows"
    and in_idx: "\<And>k r. map_of rows k = Some r \<Longrightarrow> map_of idx (f r) = Some k"
    and idx_in: "\<And>x k. map_of idx x = Some k \<Longrightarrow> \<exists>r. map_of rows k = Some r \<and> f r = x"
  shows "find (\<lambda>r. f r = x) (map snd rows) = (case map_of idx x of None \<Rightarrow> None | Some k \<Rightarrow> map_of rows k)"
proof -
  have snd: "r \<in> set (map snd rows) \<longleftrightarrow> (\<exists>k. map_of rows k = Some r)" for r
    using wf_map_snd [OF wf] by simp
  show ?thesis
  proof (cases "map_of idx x")
    case None
    have "f r \<noteq> x" if r: "r \<in> set (map snd rows)" for r
    proof -
      obtain k where "map_of rows k = Some r" using r [unfolded snd] by blast
      from in_idx [OF this] show ?thesis using None by auto
    qed
    then have "find (\<lambda>r. f r = x) (map snd rows) = None" unfolding find_None_iff by blast
    with None show ?thesis by simp
  next
    case (Some k)
    then obtain r where r: "map_of rows k = Some r" "f r = x" using idx_in by blast
    have only: "s = r" if s: "s \<in> set (map snd rows)" "f s = x" for s
    proof -
      obtain l where l: "map_of rows l = Some s" using s(1) [unfolded snd] by blast
      from in_idx [OF this] s(2) Some have "l = k" by simp
      with l r(1) show ?thesis by simp
    qed
    have "r \<in> set (map snd rows)" unfolding snd using r(1) by blast
    then have "find (\<lambda>r. f r = x) (map snd rows) = Some r" using r(2) only by (rule find_only)
    with Some r(1) show ?thesis by simp
  qed
qed

lemma rows_ex:
  assumes "wf_map rows"
  shows "list_ex (\<lambda>s. P (fst s) (snd s)) rows \<longleftrightarrow> (\<exists>k r. map_of rows k = Some r \<and> P k r)"
  unfolding list_ex_iff using wf_map_in_set [OF assms] by force

text \<open>The statements of a store while everything works.\<close>

lemma lens_okD:
  assumes "lens_ok l"
  shows "fst l (snd l f d) = f (fst l d)" and "snd l (\<lambda>_. fst l d) d = d"
  using assms by (auto simp: lens_ok_def)

lemma pg_create_up:
  assumes "pg_up c w" and "lens_ok l" and "pg_create mp l key chk clash c r w = (w', res)"
  shows "if \<not> chk r then res = Inl (mp (DbErr Db_ErrUnavailable)) \<and> pg_data w' = pg_data w
    else if map_of (fst l (pg_data w)) (key r) \<noteq> None \<or> list_ex (\<lambda>s. clash r (snd s)) (fst l (pg_data w))
      then res = Inl (mp (DbErr Db_ErrConflict)) \<and> pg_data w' = pg_data w
    else res = Inr () \<and> fst l (pg_data w') = AList.update (key r) r (fst l (pg_data w))"
  using assms(3) lens_okD [OF assms(2)]
  by (auto simp: pg_create_def gmaperr_apply pool_up [OF assms(1)] pg_insert_def mapWriteErr_def
      split: if_splits)

lemma pg_get_up:
  assumes "pg_up c w" and "lens_ok l" and "pg_get mp l c p w = (w', res)"
  shows "pg_data w' = pg_data w \<and>
    res = (case find p (map snd (fst l (pg_data w))) of
             None \<Rightarrow> Inl (mp (DbErr Db_ErrNoRows)) | Some r \<Rightarrow> Inr r)"
  using assms(3) lens_okD [OF assms(2)]
  by (auto simp: pg_get_def gmaperr_apply pool_up [OF assms(1)] pg_select_row_def mapRowErr_def
      split: option.splits)

lemma pg_list_up:
  assumes "pg_up c w" and "lens_ok l" and "pg_list mp l c p order w = (w', res)"
  shows "pg_data w' = pg_data w \<and> res = Inr (order (filter p (map snd (fst l (pg_data w)))))"
  using assms(3) lens_okD [OF assms(2)]
  by (auto simp: pg_list_def gmaperr_apply pool_up [OF assms(1)] pg_select_def)

lemma pg_occ_update_up:
  assumes up: "pg_up c w" and l: "lens_ok l" and wf: "wf_map (fst l (pg_data w))"
    and keys: "\<And>k r. map_of (fst l (pg_data w)) k = Some r \<Longrightarrow> key r = k"
    and run: "pg_occ_update mp errConflict l key chk clash c k cond asg w = (w', res)"
  shows "case map_of (fst l (pg_data w)) k of
      None \<Rightarrow> res = Inl (mp (DbErr Db_ErrNoRows)) \<and> pg_data w' = pg_data w
    | Some r \<Rightarrow>
        if \<not> cond r then res = Inl errConflict \<and> pg_data w' = pg_data w
        else if \<not> chk (asg r) then res = Inl (mp (DbErr Db_ErrUnavailable)) \<and> pg_data w' = pg_data w
        else if list_ex (\<lambda>s. fst s \<noteq> k \<and> clash (asg r) (snd s)) (fst l (pg_data w))
          then res = Inl (mp (DbErr Db_ErrConflict)) \<and> pg_data w' = pg_data w
        else res = Inr () \<and> fst l (pg_data w') = AList.update k (asg r) (fst l (pg_data w))"
proof -
  let ?rows = "fst l (pg_data w)" and ?w = "w\<lparr>pg_seq := Suc (pg_seq w)\<rparr>"
  have same: "snd l (\<lambda>_. ?rows) (pg_data w) = pg_data w" by (rule lens_okD(2) [OF l])
  have up': "pg_up c ?w" using up by (simp add: pg_up_def)
  have miss: "pg_data w' = pg_data w \<and>
      res = Inl (if map_of ?rows k = None then mp (DbErr Db_ErrNoRows) else errConflict)"
    if "gbind (pg_get mp l c (\<lambda>r. key r = k)) (\<lambda>_. gfail errConflict) ?w = (w', res)"
  proof -
    obtain w2 r2 where g: "pg_get mp l c (\<lambda>r. key r = k) ?w = (w2, r2)" by fastforce
    show ?thesis
      using that g pg_get_up [OF up' l g] find_by_key [of ?rows key k, OF wf keys]
      by (auto simp: gbind_apply split: option.splits)
  qed
  note run' = run [unfolded pg_occ_update_def gcase_apply pool_up [OF up] pg_update_def]
  show ?thesis
  proof (cases "map_of ?rows k")
    case None
    then show ?thesis using run' same miss by simp
  next
    case (Some r)
    show ?thesis
    proof (cases "cond r")
      case False
      then show ?thesis using run' same miss Some by simp
    next
      case True
      then show ?thesis
        using run' Some lens_okD(1) [OF l] by (auto simp: mapWriteErr_def split: if_splits)
    qed
  qed
qed

lemma keeps_pg_store [simp, intro]:
  "keeps pg_grows (pg_create mp l key chk clash c r)" "keeps pg_grows (pg_get mp l c p)"
  "keeps pg_grows (pg_list mp l c p order)"
  "keeps pg_grows (pg_occ_update mp errConflict l key chk clash c k cond asg)"
  unfolding pg_create_def pg_get_def pg_list_def pg_occ_update_def
  by (intro grows.keeps_gmaperr grows.keeps_gcase grows.keeps_gbind grows.keeps_gfail grows.keeps_gret
      grows.keeps_if pg_grows_pool)+

section \<open>What a result tells\<close>

text \<open>A command that reports success did what its statement says, whatever else fails.\<close>

lemma pg_run_Inr:
  assumes "pg_run c stmt w = (w', Inr x)"
  shows "stmt (pg_data w) = (pg_data w', Inr x) \<and> w' = w\<lparr>pg_seq := Suc (pg_seq w), pg_data := pg_data w'\<rparr> \<and>
    \<not> (ctx_tx c \<and> pg_aborted w)"
  using assms
  by (auto simp: pg_run_def pg_broken_def Let_def split: option.splits pg_fate.splits prod.splits sum.splits
      if_splits)

text \<open>One that reports an error changed nothing, or its answer was lost; a transaction is aborted by it.\<close>

lemma pg_run_Inl:
  assumes "pg_run c stmt w = (w', Inl e)"
  shows "(pg_data w' = pg_data w \<or> (\<exists>x. stmt (pg_data w) = (pg_data w', Inr x))) \<and>
    (ctx_tx c \<longrightarrow> pg_aborted w')"
  using assms
  by (auto simp: pg_run_def pg_broken_def Let_def split: option.splits pg_fate.splits prod.splits sum.splits
      if_splits)

lemma pg_go_Inr: "pg_go f m w = (w', Inr x) \<longleftrightarrow> m w = (w', Inr x)"
  by (auto simp: pg_go_apply split: prod.splits sum.splits)

lemma pg_go_Inl: "pg_go f m w = (w', Inl e) \<longleftrightarrow> (\<exists>e'. m w = (w', Inl e') \<and> e = f e')"
  by (auto simp: pg_go_apply split: prod.splits sum.splits)

lemma gmaperr_Inr: "gmaperr f m w = (w', Inr x) \<longleftrightarrow> m w = (w', Inr x)"
  by (auto simp: gmaperr_apply split: prod.splits sum.splits)

lemma gmaperr_Inl: "gmaperr f m w = (w', Inl e) \<longleftrightarrow> (\<exists>e'. m w = (w', Inl e') \<and> e = f e')"
  by (auto simp: gmaperr_apply split: prod.splits sum.splits)

lemmas pg_Inr = gmaperr_Inr pg_go_Inr pool_defs

lemma on_table_Inr:
  "on_table get upd st d = (d', Inr x) \<longleftrightarrow> (\<exists>t. st (get d) = (t, Inr x) \<and> d' = upd (\<lambda>_. t) d)"
  by (auto simp: on_table_def split: prod.splits)

lemma pg_create_ok:
  assumes "pg_create mp l key chk clash c r w = (w', Inr u)"
  shows "chk r \<and> map_of (fst l (pg_data w)) (key r) = None \<and>
    \<not> list_ex (\<lambda>s. clash r (snd s)) (fst l (pg_data w)) \<and>
    pg_data w' = snd l (\<lambda>_. AList.update (key r) r (fst l (pg_data w))) (pg_data w)"
  using pg_run_Inr [of c _ w w' u] assms
  by (auto simp: pg_create_def pg_Inr on_table_Inr pg_insert_def dest!: pg_run_Inr split: if_splits)

lemma pg_get_ok:
  assumes "lens_ok l" and "pg_get mp l c p w = (w', Inr r)"
  shows "pg_data w' = pg_data w \<and> find p (map snd (fst l (pg_data w))) = Some r"
  using assms lens_okD(2) [OF assms(1), of "pg_data w"]
  by (auto simp: pg_get_def pg_Inr on_table_Inr pg_select_row_def dest!: pg_run_Inr split: option.splits)

lemma pg_list_ok:
  assumes "lens_ok l" and "pg_list mp l c p order w = (w', Inr rs)"
  shows "pg_data w' = pg_data w \<and> rs = order (filter p (map snd (fst l (pg_data w))))"
  using assms lens_okD(2) [OF assms(1), of "pg_data w"]
  by (auto simp: pg_list_def pg_Inr on_table_Inr pg_select_def dest!: pg_run_Inr)

lemma pg_occ_update_ok:
  assumes "lens_ok l" and run: "pg_occ_update mp e l key chk clash c k cond asg w = (w', Inr u)"
  shows "\<exists>r. map_of (fst l (pg_data w)) k = Some r \<and> cond r \<and> chk (asg r) \<and>
    \<not> list_ex (\<lambda>s. fst s \<noteq> k \<and> clash (asg r) (snd s)) (fst l (pg_data w)) \<and>
    pg_data w' = snd l (\<lambda>_. AList.update k (asg r) (fst l (pg_data w))) (pg_data w)"
proof -
  obtain w1 n where x: "pool_Exec c (on_table (fst l) (snd l) (pg_update k cond asg chk clash)) w = (w1, Inr n)"
    and n: "n \<noteq> 0" "w' = w1"
    using run by (auto simp: pg_occ_update_def go_apply split: prod.splits sum.splits if_splits)
  then show ?thesis
    by (auto simp: pg_Inr on_table_Inr pg_update_def dest!: pg_run_Inr split: option.splits if_splits)
qed

text \<open>Whatever they report, a write left the rows alone or took effect as a whole, and a query changed nothing.\<close>

lemma pg_run_either:
  "pg_run c stmt w = (w', r) \<Longrightarrow> pg_data w' = pg_data w \<or> (\<exists>x. stmt (pg_data w) = (pg_data w', Inr x))"
  using pg_run_Inr [of c stmt w w'] pg_run_Inl [of c stmt w w'] by (cases r) auto

lemma pool_either:
  assumes "pool_Exec c stmt w = (w', r) \<or> pool_QueryRow c stmt w = (w', r) \<or> pool_Query c stmt w = (w', r)"
  shows "pg_data w' = pg_data w \<or> (\<exists>x. stmt (pg_data w) = (pg_data w', Inr x))"
proof -
  have "fst (pg_run c stmt w) = w'" using assms unfolding pool_defs by (metis fst_pg_go fst_conv)
  then show ?thesis using pg_run_either [of c stmt w w' "snd (pg_run c stmt w)"] by (simp add: prod_eq_iff)
qed

lemma pg_create_either:
  assumes l: "lens_ok l" and run: "pg_create mp l key chk clash c r w = (w', res)"
  shows "pg_data w' = pg_data w \<or>
    chk r \<and> map_of (fst l (pg_data w)) (key r) = None \<and> \<not> list_ex (\<lambda>s. clash r (snd s)) (fst l (pg_data w)) \<and>
    pg_data w' = snd l (\<lambda>_. AList.update (key r) r (fst l (pg_data w))) (pg_data w)"
proof -
  obtain res' where "pool_Exec c (on_table (fst l) (snd l) (pg_insert key chk clash r)) w = (w', res')"
    using run by (auto simp: pg_create_def gmaperr_apply split: prod.splits sum.splits)
  from pool_either [OF disjI1 [OF this]] show ?thesis
    by (auto simp: on_table_Inr pg_insert_def split: if_splits)
qed

lemma pg_get_same:
  assumes l: "lens_ok l" and run: "pg_get mp l c p w = (w', res)"
  shows "pg_data w' = pg_data w"
proof -
  obtain res' where "pool_QueryRow c (on_table (fst l) (snd l) (pg_select_row p)) w = (w', res')"
    using run by (auto simp: pg_get_def gmaperr_apply split: prod.splits sum.splits)
  from pool_either [OF disjI2 [OF disjI1 [OF this]]] show ?thesis
    by (auto simp: on_table_Inr pg_select_row_def lens_okD(2) [OF l] split: option.splits)
qed

lemma pg_list_same:
  assumes l: "lens_ok l" and run: "pg_list mp l c p order w = (w', res)"
  shows "pg_data w' = pg_data w"
proof -
  obtain res' where "pool_Query c (on_table (fst l) (snd l) (pg_select p order)) w = (w', res')"
    using run by (auto simp: pg_list_def gmaperr_apply split: prod.splits sum.splits)
  from pool_either [OF disjI2 [OF disjI2 [OF this]]] show ?thesis
    by (auto simp: on_table_Inr pg_select_def lens_okD(2) [OF l])
qed

lemma pg_occ_update_either:
  assumes l: "lens_ok l" and run: "pg_occ_update mp e l key chk clash c k cond asg w = (w', res)"
  shows "pg_data w' = pg_data w \<or>
    (\<exists>r. map_of (fst l (pg_data w)) k = Some r \<and> cond r \<and> chk (asg r) \<and>
      \<not> list_ex (\<lambda>s. fst s \<noteq> k \<and> clash (asg r) (snd s)) (fst l (pg_data w)) \<and>
      pg_data w' = snd l (\<lambda>_. AList.update k (asg r) (fst l (pg_data w))) (pg_data w))"
proof -
  obtain w1 res1 where x: "pool_Exec c (on_table (fst l) (snd l) (pg_update k cond asg chk clash)) w = (w1, res1)"
    by fastforce
  have "pg_data w' = pg_data w1"
  proof (cases "res1 = Inr 0")
    case True
    then show ?thesis
      using run x pg_get_same [OF l, of mp c "\<lambda>r. key r = k" w1]
      by (auto simp: pg_occ_update_def go_apply split: prod.splits sum.splits)
  next
    case False
    then show ?thesis using run x by (auto simp: pg_occ_update_def go_apply split: sum.splits)
  qed
  with pool_either [OF disjI1 [OF x]] show ?thesis
    by (auto simp: on_table_Inr pg_update_def lens_okD(2) [OF l] split: option.splits if_splits)
qed

section \<open>What the constraints of a table guarantee\<close>

text \<open>
  A table keeps its rows under their key, every row meets the \<open>CHECK\<close> constraints, and no two rows agree
  on a unique index.
\<close>

definition table_ok ::
  "('r \<Rightarrow> 'k) \<Rightarrow> ('r \<Rightarrow> bool) \<Rightarrow> ('r \<Rightarrow> 'r \<Rightarrow> bool) \<Rightarrow> ('k, 'r) gomap \<Rightarrow> bool" where
  "table_ok key chk clash rows \<longleftrightarrow> wf_map rows \<and>
     (\<forall>k r. map_of rows k = Some r \<longrightarrow> key r = k \<and> chk r) \<and>
     (\<forall>k l a b. map_of rows k = Some a \<longrightarrow> map_of rows l = Some b \<longrightarrow> clash a b \<longrightarrow> k = l)"

lemma table_okD:
  assumes "table_ok key chk clash rows"
  shows "wf_map rows" and "map_of rows k = Some r \<Longrightarrow> key r = k" and "map_of rows k = Some r \<Longrightarrow> chk r"
    and "map_of rows k = Some a \<Longrightarrow> map_of rows l = Some b \<Longrightarrow> clash a b \<Longrightarrow> k = l"
  using assms by (auto simp: table_ok_def)

lemma table_ok_put:
  assumes ok: "table_ok key chk clash rows" and sym: "\<And>a b. clash a b \<Longrightarrow> clash b a"
    and r: "key r = k" "chk r"
    and free: "\<not> list_ex (\<lambda>s. fst s \<noteq> k \<and> clash r (snd s)) rows"
  shows "table_ok key chk clash (AList.update k r rows)"
proof -
  note D = table_okD [OF ok]
  have no: "\<not> clash r b" if "map_of rows l = Some b" "l \<noteq> k" for l b
  proof -
    have "(l, b) \<in> set rows" using that(1) by (rule map_of_SomeD)
    with free that(2) show ?thesis by (auto simp: list_ex_iff)
  qed
  let ?t = "(map_of rows)(k \<mapsto> r)"
  have "x = y" if x: "?t x = Some a" and y: "?t y = Some b" and cl: "clash a b" for x y a b
  proof (cases "x = k"; cases "y = k")
    assume "x = k" "y \<noteq> k"
    then show ?thesis using x y cl no [of y b] by simp
  next
    assume "x \<noteq> k" "y = k"
    then show ?thesis using x y sym [OF cl] no [of x a] by simp
  next
    assume "x \<noteq> k" "y \<noteq> k"
    then have "map_of rows x = Some a" "map_of rows y = Some b" using x y by simp_all
    then show ?thesis using cl by (rule D(4))
  qed simp
  then have "\<forall>x y a b. ?t x = Some a \<longrightarrow> ?t y = Some b \<longrightarrow> clash a b \<longrightarrow> x = y" by blast
  moreover have "key a = x \<and> chk a" if "?t x = Some a" for x a
    using that D(2,3) [of x a] r by (cases "x = k") auto
  ultimately show ?thesis unfolding table_ok_def map_of_update using wf_map_update [OF D(1)] by blast
qed

text \<open>The rows a query selects.\<close>

lemma table_ok_rows:
  assumes ok: "table_ok key chk clash rows"
  shows "distinct (map key (sort_key f (filter p (map snd rows))))"
    and "r \<in> set (filter p (map snd rows)) \<longleftrightarrow> map_of rows (key r) = Some r \<and> p r"
proof -
  note D = table_okD [OF ok]
  have "map key (map snd rows) = map fst rows"
    using wf_map_in_set [OF D(1)] D(2) by (fastforce simp: o_def)
  then have "distinct (map key (map snd rows))" using D(1) by (simp only: wf_map_def)
  then have "distinct (map key (filter p (map snd rows)))" by (rule distinct_map_filter)
  then show "distinct (map key (sort_key f (filter p (map snd rows))))"
    unfolding distinct_map by simp
  show "r \<in> set (filter p (map snd rows)) \<longleftrightarrow> map_of rows (key r) = Some r \<and> p r"
    using wf_map_snd [OF D(1), of r] D(2) [of _ r] by auto
qed

lemma pg_insert_ok:
  assumes "table_ok key chk clash rows" and "\<And>a b. clash a b \<Longrightarrow> clash b a"
    and "pg_insert key chk clash r rows = (rows', res)"
  shows "table_ok key chk clash rows'"
proof (cases res)
  case (Inl e)
  then have "rows' = rows" using assms(3) by (auto simp: pg_insert_def split: if_splits)
  with assms(1) show ?thesis by simp
next
  case (Inr u)
  then have r: "chk r" "\<not> list_ex (\<lambda>s. clash r (snd s)) rows" "rows' = AList.update (key r) r rows"
    using assms(3) by (auto simp: pg_insert_def split: if_splits)
  then have "\<not> list_ex (\<lambda>s. fst s \<noteq> key r \<and> clash r (snd s)) rows" by (auto simp: list_ex_iff)
  with table_ok_put [OF assms(1,2) refl r(1)] r(3) show ?thesis by simp
qed

lemma pg_update_ok:
  assumes "table_ok key chk clash rows" and "\<And>a b. clash a b \<Longrightarrow> clash b a"
    and "\<And>r. key (asg r) = key r"
    and "pg_update k cond asg chk clash rows = (rows', res)"
  shows "table_ok key chk clash rows'"
proof (cases "map_of rows k")
  case None
  then show ?thesis using assms(1,4) by (simp add: pg_update_def)
next
  case (Some r)
  have "key (asg r) = k" using assms(3) table_okD(2) [OF assms(1) Some] by simp
  then have put: "table_ok key chk clash (AList.update k (asg r) rows)"
    if "chk (asg r)" "\<not> list_ex (\<lambda>s. fst s \<noteq> k \<and> clash (asg r) (snd s)) rows"
    using table_ok_put [OF assms(1,2) _ that] by blast
  have "rows' = rows \<or> rows' = AList.update k (asg r) rows \<and> chk (asg r) \<and>
      \<not> list_ex (\<lambda>s. fst s \<noteq> k \<and> clash (asg r) (snd s)) rows"
    using assms(4) Some by (simp add: pg_update_def split: if_splits)
  with put assms(1) show ?thesis by blast
qed

text \<open>A write and the constraints, whatever happens.\<close>

lemma pg_create_table:
  assumes l: "lens_ok l" and ok: "table_ok key chk clash (fst l (pg_data w))"
    and sym: "\<And>a b. clash a b \<Longrightarrow> clash b a"
    and run: "pg_create mp l key chk clash c r w = (w', res)"
  shows "table_ok key chk clash (fst l (pg_data w')) \<and>
    (fst l (pg_data w') = fst l (pg_data w) \<and> res \<noteq> Inr () \<or>
     map_of (fst l (pg_data w)) (key r) = None \<and>
     fst l (pg_data w') = AList.update (key r) r (fst l (pg_data w)))"
proof (cases "pg_data w' = pg_data w \<and> res \<noteq> Inr ()")
  case True
  then show ?thesis using ok by simp
next
  case False
  have "chk r \<and> map_of (fst l (pg_data w)) (key r) = None \<and>
      \<not> list_ex (\<lambda>s. clash r (snd s)) (fst l (pg_data w)) \<and>
      pg_data w' = snd l (\<lambda>_. AList.update (key r) r (fst l (pg_data w))) (pg_data w)"
  proof (cases "res = Inr ()")
    case True
    show ?thesis by (rule pg_create_ok [OF run [unfolded True]])
  next
    case no: False
    then show ?thesis using pg_create_either [OF l run] False by blast
  qed
  moreover from this have "table_ok key chk clash (AList.update (key r) r (fst l (pg_data w)))"
    by (intro table_ok_put [OF ok sym]) (auto simp: list_ex_iff)
  ultimately show ?thesis using lens_okD(1) [OF l] by simp
qed

lemma pg_occ_update_table:
  assumes l: "lens_ok l" and ok: "table_ok key chk clash (fst l (pg_data w))"
    and sym: "\<And>a b. clash a b \<Longrightarrow> clash b a" and asg: "\<And>r. key (asg r) = key r"
    and run: "pg_occ_update mp e l key chk clash c k cond asg w = (w', res)"
  shows "table_ok key chk clash (fst l (pg_data w')) \<and>
    (fst l (pg_data w') = fst l (pg_data w) \<and> res \<noteq> Inr () \<or>
     (\<exists>r. map_of (fst l (pg_data w)) k = Some r \<and> cond r \<and>
        fst l (pg_data w') = AList.update k (asg r) (fst l (pg_data w))))"
proof (cases "pg_data w' = pg_data w \<and> res \<noteq> Inr ()")
  case True
  then show ?thesis using ok by simp
next
  case False
  have "\<exists>r. map_of (fst l (pg_data w)) k = Some r \<and> cond r \<and> chk (asg r) \<and>
      \<not> list_ex (\<lambda>s. fst s \<noteq> k \<and> clash (asg r) (snd s)) (fst l (pg_data w)) \<and>
      pg_data w' = snd l (\<lambda>_. AList.update k (asg r) (fst l (pg_data w))) (pg_data w)"
  proof (cases "res = Inr ()")
    case True
    show ?thesis by (rule pg_occ_update_ok [OF l run [unfolded True]])
  next
    case no: False
    then show ?thesis using pg_occ_update_either [OF l run] False by blast
  qed
  then obtain r where r: "map_of (fst l (pg_data w)) k = Some r" "cond r" "chk (asg r)"
      "\<not> list_ex (\<lambda>s. fst s \<noteq> k \<and> clash (asg r) (snd s)) (fst l (pg_data w))"
      "pg_data w' = snd l (\<lambda>_. AList.update k (asg r) (fst l (pg_data w))) (pg_data w)" by blast
  have "key (asg r) = k" using asg table_okD(2) [OF ok r(1)] by simp
  from table_ok_put [OF ok sym this r(3,4)] r lens_okD(1) [OF l] show ?thesis by auto
qed

text \<open>
  A property of the data that every command of a request keeps, both in what the request sees and in what
  is committed. Opening and ending a transaction keeps any such property.
\<close>

definition pg_safe :: "('d \<Rightarrow> bool) \<Rightarrow> 'd pg \<Rightarrow> bool" where
  "pg_safe P w \<longleftrightarrow> P (pg_data w) \<and> (case pg_saved w of None \<Rightarrow> True | Some d \<Rightarrow> P d)"

definition pg_keeps_safe :: "('d \<Rightarrow> bool) \<Rightarrow> 'd pg \<Rightarrow> 'd pg \<Rightarrow> bool" where
  "pg_keeps_safe P w w' \<longleftrightarrow> (pg_safe P w \<longrightarrow> pg_safe P w')"

interpretation safe: world_order "pg_keeps_safe P" for P
  by unfold_locales (auto simp: pg_keeps_safe_def)

lemma keeps_safe_pool:
  assumes "\<And>d d' r. P d \<Longrightarrow> stmt d = (d', r) \<Longrightarrow> P d'"
  shows "keeps (pg_keeps_safe P) (pool_Exec c stmt)" "keeps (pg_keeps_safe P) (pool_QueryRow c stmt)"
    "keeps (pg_keeps_safe P) (pool_Query c stmt)"
proof -
  have "pg_keeps_safe P w (fst (pg_run c stmt w))" for w
    using assms [of "pg_data w"]
    by (auto simp: pg_keeps_safe_def pg_safe_def pg_run_def pg_broken_def Let_def
        split: option.splits pg_fate.splits prod.splits sum.splits)
  then show "keeps (pg_keeps_safe P) (pool_Exec c stmt)" "keeps (pg_keeps_safe P) (pool_QueryRow c stmt)"
    "keeps (pg_keeps_safe P) (pool_Query c stmt)"
    by (simp_all add: keeps_def pool_defs)
qed

lemma keeps_safe_read [simp]: "pg_keeps_safe P w (fst (pg_now w))" "pg_keeps_safe P w (fst (pg_rand w))"
  by (simp_all add: pg_keeps_safe_def pg_safe_def pg_now_def pg_rand_def)

lemma keeps_safe_tx:
  "keeps (pg_keeps_safe P) (pool_Begin c)" "keeps (pg_keeps_safe P) (poolTx_Commit c)"
  "pg_keeps_safe P w (poolTx_Rollback c w)"
proof -
  show "keeps (pg_keeps_safe P) (pool_Begin c)" unfolding keeps_def
  proof
    fix w :: "'a pg"
    obtain w' r where b: "pool_Begin c w = (w', r)" by fastforce
    from pool_Begin_cases [OF b] show "pg_keeps_safe P w (fst (pool_Begin c w))"
      by (cases r) (auto simp: b pg_keeps_safe_def pg_safe_def)
  qed
  show "keeps (pg_keeps_safe P) (poolTx_Commit c)" unfolding keeps_def
  proof
    fix w :: "'a pg"
    obtain w' r where b: "poolTx_Commit c w = (w', r)" by fastforce
    from poolTx_Commit_cases [OF b] show "pg_keeps_safe P w (fst (poolTx_Commit c w))"
      by (cases r) (auto simp: b pg_keeps_safe_def pg_safe_def)
  qed
  show "pg_keeps_safe P w (poolTx_Rollback c w)"
    by (auto simp: poolTx_Rollback_def pg_keeps_safe_def pg_safe_def split: option.split)
qed

text \<open>
  One table of the database: the property says at least that its constraints hold, and no more than that
  of this table.
\<close>

definition table_part ::
  "('d \<Rightarrow> bool) \<Rightarrow> ('d, ('k, 'r) gomap) lens \<Rightarrow> ('r \<Rightarrow> 'k) \<Rightarrow> ('r \<Rightarrow> bool) \<Rightarrow> ('r \<Rightarrow> 'r \<Rightarrow> bool) \<Rightarrow> bool" where
  "table_part P l key chk clash \<longleftrightarrow> (\<forall>a b. clash a b \<longrightarrow> clash b a) \<and>
     (\<forall>d. P d \<longrightarrow> table_ok key chk clash (fst l d)) \<and>
     (\<forall>d rows. P d \<longrightarrow> table_ok key chk clash rows \<longrightarrow> P (snd l (\<lambda>_. rows) d))"

lemma table_part_on:
  assumes "table_part P l key chk clash" and "P d" and "on_table (fst l) (snd l) st d = (d', res)"
    and "\<And>rows rows' res. table_ok key chk clash rows \<Longrightarrow> st rows = (rows', res) \<Longrightarrow> table_ok key chk clash rows'"
  shows "P d'"
proof -
  obtain rows res' where st: "st (fst l d) = (rows, res')" by fastforce
  have "table_ok key chk clash rows" using assms(1,2) by (intro assms(4) [OF _ st]) (simp add: table_part_def)
  moreover have "d' = snd l (\<lambda>_. rows) d" using assms(3) st by (simp add: on_table_def)
  ultimately show ?thesis using assms(1,2) by (simp add: table_part_def)
qed

lemma table_part_single:
  assumes "lens_ok l" and "\<And>a b. clash a b \<Longrightarrow> clash b a"
  shows "table_part (\<lambda>d. table_ok key chk clash (fst l d)) l key chk clash"
  using assms lens_okD(1) [OF assms(1)] by (simp add: table_part_def)

lemma keeps_safe_store:
  assumes P: "table_part P l key chk clash"
  shows "keeps (pg_keeps_safe P) (pg_create mp l key chk clash c r)"
    and "keeps (pg_keeps_safe P) (pg_get mp l c p)" and "keeps (pg_keeps_safe P) (pg_list mp l c p order)"
    and "(\<And>r. key (asg r) = key r) \<Longrightarrow>
      keeps (pg_keeps_safe P) (pg_occ_update mp e l key chk clash c k cond asg)"
proof -
  have sym: "clash b a" if "clash a b" for a b using P that unfolding table_part_def by blast
  note on = table_part_on [OF P]
  show "keeps (pg_keeps_safe P) (pg_create mp l key chk clash c r)"
    unfolding pg_create_def
    by (rule safe.keeps_gmaperr, rule keeps_safe_pool(1), erule (1) on, erule (1) pg_insert_ok [OF _ sym])
  show get: "keeps (pg_keeps_safe P) (pg_get mp l c p)" for p
    unfolding pg_get_def
    by (rule safe.keeps_gmaperr, rule keeps_safe_pool(2), erule (1) on) (simp add: pg_select_row_def)
  show "keeps (pg_keeps_safe P) (pg_list mp l c p order)"
    unfolding pg_list_def
    by (rule safe.keeps_gmaperr, rule keeps_safe_pool(3), erule (1) on) (simp add: pg_select_def)
  show "keeps (pg_keeps_safe P) (pg_occ_update mp e l key chk clash c k cond asg)"
    if "\<And>r. key (asg r) = key r"
    unfolding pg_occ_update_def
  proof (rule safe.keeps_gcase)
    show "keeps (pg_keeps_safe P) (pool_Exec c (on_table (fst l) (snd l) (pg_update k cond asg chk clash)))"
      by (rule keeps_safe_pool(1), erule (1) on, erule (1) pg_update_ok [where key = key and asg = asg, OF _ sym that])
  qed (intro safe.keeps_gbind safe.keeps_gfail safe.keeps_gret safe.keeps_if get)+
qed

section \<open>The contract of a store and its table\<close>

text \<open>
  What a store promises about its rows, as the in-memory stores keep it: \<open>create\<close> refuses a taken key
  and a clash with another row, \<open>update\<close> also a row that is not there or has another version. \<open>frame\<close>
  is what an update must agree on with the row it replaces. A client of the contract is the comparison
  with the SQL statements below.
\<close>

locale table_store =
  fixes rows :: "'m \<Rightarrow> ('k \<times> 'r) list" and inv :: "'m \<Rightarrow> bool"
    and key :: "'r \<Rightarrow> 'k" and ver :: "'r \<Rightarrow> time" and valid :: "'r \<Rightarrow> bool"
    and clash :: "'r \<Rightarrow> 'r \<Rightarrow> bool" and frame :: "'r \<Rightarrow> 'r \<Rightarrow> bool"
    and errNotFound :: go_error and errConflict :: go_error
    and create :: "ctx \<Rightarrow> 'r \<Rightarrow> ('m, unit) go" and get :: "ctx \<Rightarrow> 'k \<Rightarrow> ('m, 'r) go"
    and update :: "ctx \<Rightarrow> 'r \<Rightarrow> time \<Rightarrow> ('m, unit) go"
  assumes wf: "inv m \<Longrightarrow> wf_map (rows m)"
    and keys: "inv m \<Longrightarrow> map_of (rows m) k = Some r \<Longrightarrow> key r = k"
    and create: "inv m \<Longrightarrow> ctx_Err c = None \<Longrightarrow> valid r \<Longrightarrow> create c r m = (m', res) \<Longrightarrow>
      inv m' \<and> (if map_of (rows m) (key r) \<noteq> None \<or> list_ex (\<lambda>s. clash r (snd s)) (rows m)
        then res = Inl errConflict \<and> rows m' = rows m
        else res = Inr () \<and> rows m' = AList.update (key r) r (rows m))"
    and get: "inv m \<Longrightarrow> ctx_Err c = None \<Longrightarrow> get c k m =
      (m, case map_of (rows m) k of None \<Rightarrow> Inl errNotFound | Some r \<Rightarrow> Inr r)"
    and update: "inv m \<Longrightarrow> ctx_Err c = None \<Longrightarrow> valid r \<Longrightarrow> update c r v m = (m', res) \<Longrightarrow>
      (\<And>cur. map_of (rows m) (key r) = Some cur \<Longrightarrow> frame cur r) \<Longrightarrow>
      inv m' \<and> (case map_of (rows m) (key r) of
        None \<Rightarrow> res = Inl errNotFound \<and> rows m' = rows m
      | Some cur \<Rightarrow>
          if ver cur \<noteq> v \<or> list_ex (\<lambda>s. fst s \<noteq> key r \<and> clash r (snd s)) (rows m)
          then res = Inl errConflict \<and> rows m' = rows m
          else res = Inr () \<and> rows m' = AList.update (key r) r (rows m))"
begin

definition sim :: "('d, ('k, 'r) gomap) lens \<Rightarrow> 'm \<Rightarrow> 'd pg \<Rightarrow> bool" where
  "sim l m w \<longleftrightarrow> inv m \<and> fst l (pg_data w) = rows m"

lemma create_sim:
  assumes "sim l m w" and up: "pg_up c w" and l: "lens_ok l" and r: "valid r" "chk r"
    and mp: "mp (DbErr Db_ErrConflict) = errConflict"
    and run: "pg_create mp l key chk clash c r w = (w', res)"
  shows "\<exists>m'. create c r m = (m', res) \<and> sim l m' w'"
proof -
  obtain m' res' where c: "create c r m = (m', res')" by fastforce
  have m: "inv m" "fst l (pg_data w) = rows m" using assms(1) by (simp_all add: sim_def)
  have "ctx_Err c = None" using up by (simp add: pg_up_def)
  from create [OF m(1) this r(1) c] pg_create_up [OF up l run] m r(2) mp
  have "res' = res \<and> fst l (pg_data w') = rows m' \<and> inv m'" by (auto split: if_splits)
  with c show ?thesis by (simp add: sim_def)
qed

lemma get_sim:
  assumes "sim l m w" and up: "pg_up c w" and l: "lens_ok l"
    and mp: "mp (DbErr Db_ErrNoRows) = errNotFound"
    and run: "pg_get mp l c (\<lambda>r. key r = k) w = (w', res)"
  shows "get c k m = (m, res) \<and> sim l m w'"
proof -
  have m: "inv m" "fst l (pg_data w) = rows m" using assms(1) by (simp_all add: sim_def)
  have "find (\<lambda>r. key r = k) (map snd (rows m)) = map_of (rows m) k"
    by (rule find_by_key [OF wf [OF m(1)] keys [OF m(1)]])
  then show ?thesis
    using pg_get_up [OF up l run] get [OF m(1), of c k] up m mp
    by (auto simp: pg_up_def sim_def split: option.splits)
qed

lemma list_sim:
  assumes "sim l m w" and up: "pg_up c w" and l: "lens_ok l"
    and run: "pg_list mp l c p order w = (w', res)"
  shows "res = Inr (order (filter p (map snd (rows m)))) \<and> sim l m w'"
  using pg_list_up [OF up l run] assms(1) by (simp add: sim_def)

text \<open>A query for one row by something else than its key.\<close>

lemma find_sim:
  assumes "sim l m w" and up: "pg_up c w" and l: "lens_ok l"
    and mp: "mp (DbErr Db_ErrNoRows) = errNotFound"
    and run: "pg_get mp l c p w = (w', res)"
  shows "res = (case find p (map snd (rows m)) of None \<Rightarrow> Inl errNotFound | Some r \<Rightarrow> Inr r) \<and> sim l m w'"
  using pg_get_up [OF up l run] assms(1) mp by (auto simp: sim_def split: option.splits)

lemma update_sim:
  assumes "sim l m w" and up: "pg_up c w" and l: "lens_ok l" and r: "valid r" "chk r"
    and mp: "mp (DbErr Db_ErrConflict) = errConflict" "mp (DbErr Db_ErrNoRows) = errNotFound"
    and frame: "\<And>cur. map_of (rows m) (key r) = Some cur \<Longrightarrow>
      asg cur = r \<and> frame cur r \<and> (cond cur \<longleftrightarrow> ver cur = v)"
    and run: "pg_occ_update mp errConflict l key chk clash c (key r) cond asg w = (w', res)"
  shows "\<exists>m'. update c r v m = (m', res) \<and> sim l m' w'"
proof -
  obtain m' res' where c: "update c r v m = (m', res')" by fastforce
  have m: "inv m" "fst l (pg_data w) = rows m" using assms(1) by (simp_all add: sim_def)
  have ok: "ctx_Err c = None" using up by (simp add: pg_up_def)
  have fr: "\<And>cur. map_of (rows m) (key r) = Some cur \<Longrightarrow> frame cur r" using frame by blast
  note u = update [OF m(1) ok r(1) c fr]
  note p = pg_occ_update_up [OF up l _ _ run, unfolded m(2), OF wf [OF m(1)] keys [OF m(1)]]
  have "res' = res \<and> fst l (pg_data w') = rows m' \<and> inv m'"
  proof (cases "map_of (rows m) (key r)")
    case None
    then show ?thesis using u p m(2) mp by simp
  next
    case (Some cur)
    then show ?thesis using u p m(2) mp r(2) frame [OF Some] by (simp split: if_splits)
  qed
  with c show ?thesis by (simp add: sim_def)
qed

end

section \<open>Text columns\<close>

text \<open>\<open>char_length(s) BETWEEN 1 AND n\<close> holds of every text that a normalisation accepts as it is.\<close>

lemma rune_count_pos: "s \<noteq> [] \<Longrightarrow> 1 \<le> utf8_RuneCountInString s"
proof -
  assume s: "s \<noteq> []"
  have "runes s \<noteq> []"
  proof
    assume "runes s = []"
    then have "bytes_of_runes (runes s) = bytes_of_runes []" by simp
    then show False using s by simp
  qed
  then show ?thesis by (cases "runes s") (auto simp: utf8_RuneCountInString_def)
qed

section \<open>Samples\<close>

definition sample_codec :: pg_codec where
  "sample_codec = \<lparr>pc_time = (\<lambda>t. t div 1000 * 1000),
     pc_numeric = (\<lambda>s. let r = dropWhile (\<lambda>c. c = CHR ''0'') s
       in if r = [] \<or> hd r = CHR ''.'' then CHR ''0'' # r else r)\<rparr>"

definition sample_pg :: "'d \<Rightarrow> 'd pg" where
  "sample_pg d = \<lparr>pg_data = d, pg_saved = None, pg_aborted = False, pg_fate = (\<lambda>_. Runs), pg_seq = 0,
     pg_clock = (\<lambda>n. 60000 + 1000 * int n), pg_ticks = 0, pg_entropy = (\<lambda>n. Some (id_n (200 + n))),
     pg_draws = 0\<rparr>"

definition whole :: "('t, 't) lens" where
  "whole = (\<lambda>d. d, \<lambda>f. f)"

lemma whole_ok [simp]: "lens_ok whole" "fst whole d = d"
  by (simp_all add: whole_def lens_ok_def)

lemma sample_pg_up [simp]: "pg_up background (sample_pg d)" "pg_data (sample_pg d) = d"
  by (simp_all add: pg_up_def sample_pg_def background_def)

end
