(* ===== verification/Pg_Needs.thy ===== *)
theory Pg_Needs
  imports Needs Pg
begin

text \<open>
  The Postgres store of the package \<open>needs\<close> (\<open>postgres.go\<close>) on the table of migration
  \<open>000043_needs_core\<close>, and that it does what the in-memory store does.
\<close>

section \<open>The table\<close>

definition budget_column :: "pg_codec \<Rightarrow> budget option \<Rightarrow> budget option" where
  "budget_column cd = map_option (\<lambda>b. b\<lparr>MinAmount := pc_numeric cd (MinAmount b),
     MaxAmount := pc_numeric cd (MaxAmount b)\<rparr>)"

definition need_row :: "pg_codec \<Rightarrow> need \<Rightarrow> need" where
  "need_row cd n = n\<lparr>need_Budget := budget_column cd (need_Budget n),
     need_CreatedAt := pc_time cd (need_CreatedAt n), need_UpdatedAt := pc_time cd (need_UpdatedAt n),
     need_ExpiresAt := map_option (pc_time cd) (need_ExpiresAt n)\<rparr>"

definition budget_check :: "budget option \<Rightarrow> bool" where
  "budget_check b \<longleftrightarrow>
     (case b of
        None \<Rightarrow> True
      | Some b \<Rightarrow> currencyPattern (BudgetCurrency b) \<and>
          (case (big_Rat_SetString (MinAmount b), big_Rat_SetString (MaxAmount b)) of
             (Some p, Some q) \<Rightarrow> \<not> big_Rat_greater p q
           | _ \<Rightarrow> False))"

definition need_check :: "need \<Rightarrow> bool" where
  "need_check n \<longleftrightarrow>
     need_Status n \<in> {NeedDraft, NeedOpen, NeedFulfilled, NeedCancelled, NeedExpired} \<and>
     dropWhile (\<lambda>c. c = CHR '' '') (need_Title n) \<noteq> [] \<and> budget_check (need_Budget n) \<and>
     (case need_RadiusKm n of None \<Rightarrow> True
      | Some r \<Rightarrow> \<not> float_less r MinRadiusKm \<and> \<not> float_less MaxRadiusKm r) \<and>
     \<not> float_less (need_Latitude n) (Finite (-90)) \<and> \<not> float_less (Finite 90) (need_Latitude n) \<and>
     \<not> float_less (need_Longitude n) (Finite (-180)) \<and> \<not> float_less (Finite 180) (need_Longitude n) \<and>
     (case need_ExpiresAt n of None \<Rightarrow> True | Some t \<Rightarrow> need_CreatedAt n < t) \<and>
     need_CreatedAt n \<le> need_UpdatedAt n"

section \<open>The store\<close>

definition need_mapDBErr :: "go_error \<Rightarrow> go_error" where
  [err_defs]: "need_mapDBErr err =
     (if err = DbErr Db_ErrNoRows then NeedErr Need_errNotFound
      else if err = DbErr Db_ErrConflict then NeedErr Need_errConflict
      else if ctx_error err then err
      else NeedErr Need_errUnavailable)"

type_synonym 'd need_lens = "('d, (ID, need) gomap) lens"

definition need_pg_Create :: "pg_codec \<Rightarrow> 'd need_lens \<Rightarrow> ctx \<Rightarrow> need \<Rightarrow> ('d pg, unit) go" where
  "need_pg_Create cd l c need =
     gguard (need_Validate need)
       (pg_create need_mapDBErr l need_ID need_check (\<lambda>_ _. False) c (need_row cd need))"

definition need_pg_Get :: "'d need_lens \<Rightarrow> ctx \<Rightarrow> ID \<Rightarrow> ('d pg, need) go" where
  "need_pg_Get l c i = pg_get need_mapDBErr l c (\<lambda>n. need_ID n = i)"

definition need_pg_ListByRequester :: "'d need_lens \<Rightarrow> ctx \<Rightarrow> ID \<Rightarrow> ('d pg, need list) go" where
  "need_pg_ListByRequester l c requesterUserID =
     pg_list need_mapDBErr l c (\<lambda>n. need_RequesterUserID n = requesterUserID)
       (newest_first need_CreatedAt need_ID)"

text \<open>The \<open>UPDATE\<close> sets every column but the identifier, the requester and the creation time.\<close>

definition need_set :: "need \<Rightarrow> need \<Rightarrow> need" where
  "need_set n r = n\<lparr>need_ID := need_ID r, need_RequesterUserID := need_RequesterUserID r,
     need_CreatedAt := need_CreatedAt r\<rparr>"

definition need_pg_Update :: "pg_codec \<Rightarrow> 'd need_lens \<Rightarrow> ctx \<Rightarrow> need \<Rightarrow> time \<Rightarrow> ('d pg, unit) go" where
  "need_pg_Update cd l c need expectedUpdatedAt =
     gguard (need_Validate need)
       (pg_occ_update need_mapDBErr (NeedErr Need_errConflict) l need_ID need_check (\<lambda>_ _. False) c
          (need_ID need)
          (\<lambda>r. need_RequesterUserID r = need_RequesterUserID need \<and>
               need_UpdatedAt r = pc_time cd expectedUpdatedAt)
          (need_set (need_row cd need)))"

definition need_pg_store :: "pg_codec \<Rightarrow> 'd need_lens \<Rightarrow> 'd pg need_store" where
  "need_pg_store cd l =
     \<lparr>ns_Create = need_pg_Create cd l, ns_Get = need_pg_Get l,
      ns_ListByRequester = need_pg_ListByRequester l, ns_Update = need_pg_Update cd l\<rparr>"

section \<open>It does what the in-memory store does\<close>

definition need_storable :: "pg_codec \<Rightarrow> need \<Rightarrow> bool" where
  "need_storable cd n \<longleftrightarrow> need_Validate n = None \<and> need_Validate (need_row cd n) = None \<and>
     budget_normalized (need_Budget (need_row cd n)) = Inr (need_Budget (need_row cd n))"

lemma need_row_fields [simp]:
  "need_ID (need_row cd n) = need_ID n" "need_RequesterUserID (need_row cd n) = need_RequesterUserID n"
  by (simp_all add: need_row_def)

lemma blank_trim: "dropWhile (\<lambda>c. c = CHR '' '') s = [] \<Longrightarrow> strings_TrimSpace s = []"
proof -
  assume "dropWhile (\<lambda>c. c = CHR '' '') s = []"
  then have sp: "\<forall>c \<in> set s. c = CHR '' ''" by simp
  have b: "byte_of (CHR '' '') < 0x80" "unicode_IsSpace (byte_of (CHR '' ''))"
    by (simp_all add: unicode_IsSpace_def)
  have "list_all (\<lambda>c. byte_of c < 0x80) s" unfolding list_all_iff using sp b(1) by metis
  then have r: "runes s = map (\<lambda>c. (byte_of c, [c])) s" by (rule runes_ascii)
  have "unicode_IsSpace (fst u)" if "u \<in> set (runes s)" for u
    using that sp b(2) unfolding r by fastforce
  then have "dropWhile (\<lambda>u. unicode_IsSpace (fst u)) (runes s) = []" by (simp add: dropWhile_eq_Nil_conv)
  then show ?thesis
    unfolding strings_TrimSpace_def trim_runes_def
    by (simp only: rev.simps dropWhile.simps list.map concat.simps)
qed

lemma need_check_valid:
  assumes "need_Validate n = None" and "budget_normalized (need_Budget n) = Inr (need_Budget n)"
  shows "need_check n"
proof -
  have v: "need_status_valid (need_Status n)" "need_CreatedAt n \<le> need_UpdatedAt n"
    "\<forall>t. need_ExpiresAt n = Some t \<longrightarrow> need_CreatedAt n < t"
    using assms(1) by (auto simp: need_Validate_None)
  obtain e where e: "need_content_normalized (need_content_of n) = Inr e" "nc_Title e = need_Title n"
    using assms(1) by (auto simp: need_Validate_None need_content_valid_def need_content_of_def)
  then have t: "need_normalizeTitle (need_Title n) = Inr (need_Title n)"
    and co: "ValidateCoordinates \<lparr>Latitude = need_Latitude n, Longitude = need_Longitude n\<rparr> = None"
    and ra: "\<exists>q. need_normalizeRadius (need_RadiusKm n) = Inr q"
    by (auto elim!: need_content_normalizedE simp: need_content_of_def)
  have "strings_TrimSpace (need_Title n) \<noteq> []"
    using t by (auto simp: need_normalizeTitle_def Let_def split: if_splits)
  then have "dropWhile (\<lambda>c. c = CHR '' '') (need_Title n) \<noteq> []" using blank_trim by blast
  moreover have "budget_check (need_Budget n)"
    using budget_normalized_Some [of "need_Budget n"] assms(2)
    by (cases "need_Budget n") (auto simp: budget_check_def)
  moreover have "case need_RadiusKm n of None \<Rightarrow> True
      | Some r \<Rightarrow> \<not> float_less r MinRadiusKm \<and> \<not> float_less MaxRadiusKm r"
    using ra by (auto simp: need_normalizeRadius_def split: option.splits if_splits)
  moreover have "\<not> float_less (need_Latitude n) (Finite (-90)) \<and> \<not> float_less (Finite 90) (need_Latitude n) \<and>
      \<not> float_less (need_Longitude n) (Finite (-180)) \<and> \<not> float_less (Finite 180) (need_Longitude n)"
    using co by (simp add: ValidateCoordinates_def split: if_splits)
  moreover have "need_Status n \<in> {NeedDraft, NeedOpen, NeedFulfilled, NeedCancelled, NeedExpired}"
    using v(1) by (auto simp: need_status_valid_def)
  moreover have "case need_ExpiresAt n of None \<Rightarrow> True | Some t \<Rightarrow> need_CreatedAt n < t"
    using v(3) by (simp split: option.splits)
  ultimately show ?thesis unfolding need_check_def using v(2) by blast
qed

lemma need_storableD:
  assumes "need_storable cd n"
  shows "need_Validate n = None" "need_Validate (need_row cd n) = None" "need_check (need_row cd n)"
  using assms by (auto simp: need_storable_def need_check_valid)

interpretation need_pg: table_store nm_byID "\<lambda>m. need_mem_inv m \<and> nm_fail m = None" need_ID need_UpdatedAt
  "\<lambda>n. need_Validate n = None" "\<lambda>_ _. False" "\<lambda>cur n. need_RequesterUserID cur = need_RequesterUserID n"
  "NeedErr Need_errNotFound" "NeedErr Need_errConflict" need_mem_Create need_mem_Get need_mem_Update
proof (unfold_locales, goal_cases)
  case (3 m c n m' res)
  then show ?case
    using need_mem_inv_put [of m n] by (auto simp: need_mem_Create_def list_ex_iff split: if_splits)
next
  case (4 m c k)
  then show ?case by (simp add: need_mem_Get_eq)
next
  case (5 m c n v m' res)
  then show ?case
    using need_mem_inv_put [of m n]
    by (auto simp: need_mem_Update_def list_ex_iff split: option.splits if_splits)
qed (auto simp: need_mem_inv_def)

lemma need_mapDBErr_simps [simp]:
  "need_mapDBErr (DbErr Db_ErrNoRows) = NeedErr Need_errNotFound"
  "need_mapDBErr (DbErr Db_ErrConflict) = NeedErr Need_errConflict"
  by (simp_all add: need_mapDBErr_def)

lemma need_set_requester: "need_RequesterUserID (need_set n r) = need_RequesterUserID r"
  by (simp add: need_set_def)

lemmas need_pg_defs = need_pg_Create_def need_pg_Get_def need_pg_ListByRequester_def need_pg_Update_def

text \<open>C32. The Postgres store of Needs implements the in-memory one: on the same rows both return the same
  and leave the same, and the constraints of the table (blank titles, budget range, radius, coordinates,
  expiry) never get in the way of a valid Need.\<close>

theorem need_pg_refines:
  assumes "need_pg.sim l m w" and "pg_up c w" and "lens_ok l" and "need_storable cd n"
    and "\<forall>cur. need_table m (need_ID n) = Some cur \<longrightarrow> need_set (need_row cd n) cur = need_row cd n"
  shows "(\<exists>m' w' r. need_pg_Create cd l c n w = (w', r) \<and>
      need_mem_Create c (need_row cd n) m = (m', r) \<and> need_pg.sim l m' w') \<and>
    (\<exists>m' w' r. need_pg_Update cd l c n v w = (w', r) \<and>
      need_mem_Update c (need_row cd n) (pc_time cd v) m = (m', r) \<and> need_pg.sim l m' w') \<and>
    (\<exists>w' r. need_pg_Get l c i w = (w', r) \<and> need_mem_Get c i m = (m, r) \<and> need_pg.sim l m w') \<and>
    (\<exists>w' r. need_pg_ListByRequester l c u w = (w', r) \<and> need_mem_ListByRequester c u m = (m, r) \<and>
      need_pg.sim l m w')"
proof -
  obtain w1 r1 where 1: "need_pg_Create cd l c n w = (w1, r1)" by fastforce
  obtain w2 r2 where 2: "need_pg_Update cd l c n v w = (w2, r2)" by fastforce
  obtain w3 r3 where 3: "need_pg_Get l c i w = (w3, r3)" by fastforce
  obtain w4 r4 where 4: "need_pg_ListByRequester l c u w = (w4, r4)" by fastforce
  note st = need_storableD [OF assms(4)] and ctx = assms(2) [unfolded pg_up_def]
  have inv: "nm_fail m = None" using assms(1) by (simp add: need_pg.sim_def)
  have c1: "\<exists>m'. need_mem_Create c (need_row cd n) m = (m', r1) \<and> need_pg.sim l m' w1"
    using 1 st by (intro need_pg.create_sim [OF assms(1-3)]) (simp_all add: need_pg_defs)
  have c2: "\<exists>m'. need_mem_Update c (need_row cd n) (pc_time cd v) m = (m', r2) \<and> need_pg.sim l m' w2"
  proof (rule need_pg.update_sim [where r = "need_row cd n" and chk = need_check, OF assms(1-3) st(2,3),
        where mp = need_mapDBErr and asg = "need_set (need_row cd n)"
        and cond = "\<lambda>r. need_RequesterUserID r = need_RequesterUserID n \<and> need_UpdatedAt r = pc_time cd v"],
        goal_cases)
    case (3 cur)
    then show ?case using assms(5) need_set_requester [of "need_row cd n" cur] by auto
  qed (use 2 st(1) in \<open>simp_all add: need_pg_defs\<close>)
  have c3: "need_mem_Get c i m = (m, r3) \<and> need_pg.sim l m w3"
    using 3 by (intro need_pg.get_sim [OF assms(1-3)]) (simp_all add: need_pg_defs)
  have c4: "need_pg.sim l m w4 \<and> need_mem_ListByRequester c u m = (m, r4)"
    using need_pg.list_sim [OF assms(1-3) 4 [unfolded need_pg_defs]] ctx inv
    by (simp add: need_mem_ListByRequester_def map_idI)
  show ?thesis unfolding 1 2 3 4 prod.inject using c1 c2 c3 c4 by blast
qed

definition sample_pg_need :: "string \<Rightarrow> time \<Rightarrow> need" where
  "sample_pg_need s t = (sample_need s)\<lparr>need_CreatedAt := 40000, need_UpdatedAt := t\<rparr>"

lemma sample_pg_need_fields [simp]:
  "need_ID (sample_pg_need s t) = id_n 1" "need_UpdatedAt (sample_pg_need s t) = t"
  "need_Budget (sample_pg_need s t) = None"
  "need_RequesterUserID (sample_pg_need s t) = id_n 2"
  by (simp_all add: sample_pg_need_def sample_need_def)

lemma sample_pg_need_valid [simp]:
  assumes "40000 \<le> t" and "need_status_valid s"
  shows "need_Validate (sample_pg_need s t) = None"
proof -
  have "need_content_of (sample_pg_need s t) = sample_content"
    using sample_need_content [of s] by (simp add: sample_pg_need_def need_content_of_def)
  then show ?thesis
    using assms need_content_valid_normalized [OF sample_content_ok]
    by (simp add: need_Validate_None) (simp add: sample_pg_need_def)
qed

lemma sample_pg_need_row [simp]:
  "need_row sample_codec (sample_pg_need s t) = sample_pg_need s (t div 1000 * 1000)"
  by (simp add: need_row_def sample_pg_need_def sample_need_def sample_codec_def budget_column_def)

theorem need_pg_refines_witness:
  "\<exists>w'. need_pg_Update sample_codec whole background (sample_pg_need NeedOpen 50700) 40000
      (sample_pg [(id_n 1, sample_pg_need NeedDraft 40000)]) = (w', Inr ()) \<and>
    pg_data w' = [(id_n 1, sample_pg_need NeedOpen 50000)]"
proof -
  let ?m = "\<lparr>nm_byID = [(id_n 1, sample_pg_need NeedDraft 40000)], nm_fail = None\<rparr>"
  have st: "need_storable sample_codec (sample_pg_need NeedOpen 50700)"
    by (simp add: need_storable_def budget_normalized_def)
  have "need_mem_inv ?m" by (simp add: need_mem_inv_def wf_map_def)
  then have sim: "need_pg.sim whole ?m (sample_pg [(id_n 1, sample_pg_need NeedDraft 40000)])"
    by (simp add: need_pg.sim_def)
  have fr: "\<forall>cur. need_table ?m (need_ID (sample_pg_need NeedOpen 50700)) = Some cur \<longrightarrow>
      need_set (need_row sample_codec (sample_pg_need NeedOpen 50700)) cur =
      need_row sample_codec (sample_pg_need NeedOpen 50700)"
    by simp (simp add: need_set_def sample_pg_need_def sample_need_def)
  have mem: "need_mem_Update background (sample_pg_need NeedOpen 50000) 40000 ?m =
      (?m\<lparr>nm_byID := [(id_n 1, sample_pg_need NeedOpen 50000)]\<rparr>, Inr ())"
    by (simp add: need_mem_Update_def background_def)
  obtain m' w' r where u: "need_pg_Update sample_codec whole background (sample_pg_need NeedOpen 50700)
      40000 (sample_pg [(id_n 1, sample_pg_need NeedDraft 40000)]) = (w', r)"
    and m': "need_mem_Update background (need_row sample_codec (sample_pg_need NeedOpen 50700))
      (pc_time sample_codec 40000) ?m = (m', r)" and s: "need_pg.sim whole m' w'"
    using need_pg_refines [OF sim sample_pg_up(1) whole_ok(1) st fr, of 40000] by blast
  have "pc_time sample_codec 40000 = 40000" by (simp add: sample_codec_def)
  then have "r = Inr ()" "nm_byID m' = [(id_n 1, sample_pg_need NeedOpen 50000)]"
    using m' mem by auto
  then show ?thesis using u s by (simp add: need_pg.sim_def)
qed

end
