(* ===== verification/Outbox.thy ===== *)
theory Outbox
  imports Go_Service
begin

text \<open>
  The transactional outbox (\<open>platform/outbox\<close>): the event and its validation (\<open>event.go\<close>), the
  writer and claim API (\<open>outbox.go\<close>), and the table \<open>platform.outbox_events\<close> with the statements of
  \<open>postgres.go\<close> and the constraints of migration \<open>000008\<close>. A statement is one atomic step on the
  table; rows are kept as an association list by identifier.
\<close>

section \<open>Events\<close>

record outbox_event =
  oe_ID :: ID
  oe_EventType :: string
  oe_EventVersion :: int
  oe_AggregateType :: "string option"
  oe_AggregateID :: "string option"
  oe_Payload :: "json option"
  oe_IdempotencyKey :: "string option"
  oe_CorrelationID :: "string option"
  oe_CreatedAt :: time
  oe_AvailableAt :: time
  oe_ClaimedAt :: "time option"
  oe_ClaimUntil :: "time option"
  oe_CompletedAt :: "time option"
  oe_Attempts :: int
  oe_LastErrorClass :: "string option"

text \<open>
  The runes of a member name that are letters or digits, in lower case. Upper-case ASCII, U+212A
  (Kelvin) and U+0130 (dotted capital I) lower to ASCII letters; \<open>letter\<close> is the table of the package
  \<open>unicode\<close> for the other runes beyond ASCII, which lower to runes beyond ASCII.
\<close>

definition lower_rune :: "rune \<Rightarrow> rune" where
  "lower_rune r =
     (if 0x41 \<le> r \<and> r \<le> 0x5A then r + 32
      else if r = 0x212A then 0x6B else if r = 0x130 then 0x69 else r)"

definition letter_or_digit :: "(rune \<Rightarrow> bool) \<Rightarrow> rune \<Rightarrow> bool" where
  "letter_or_digit letter r \<longleftrightarrow>
     (if r < 0x80 then 0x61 \<le> r \<and> r \<le> 0x7A \<or> 0x41 \<le> r \<and> r \<le> 0x5A \<or> 0x30 \<le> r \<and> r \<le> 0x39
      else letter r)"

definition sensitive_names :: "string list" where
  "sensitive_names =
     [''password'', ''passwd'', ''otp'', ''token'', ''secret'', ''cookie'', ''authorization'',
      ''sessiontoken'', ''accesstoken'', ''refreshtoken'', ''apikey'', ''privatekey'',
      ''rawtoken'', ''rawsecret'', ''rawotp'']"

definition sensitiveKey :: "(rune \<Rightarrow> bool) \<Rightarrow> string \<Rightarrow> bool" where
  "sensitiveKey letter k \<longleftrightarrow>
     filter (letter_or_digit letter) (map (\<lambda>u. lower_rune (fst u)) (runes k))
       \<in> set (map (map byte_of) sensitive_names)"

text \<open>
  The recursive walk over a document. An object becomes a map, in which the last of several members
  with one name counts; Go visits its entries in any order and stops at the first sensitive one, with
  the same error whichever it is.
\<close>

definition json_map :: "(string \<times> json) list \<Rightarrow> (string, json) gomap" where
  "json_map ms = AList.clearjunk (rev ms)"

lemma json_map_subset: "(k, v) \<in> set (json_map ms) \<Longrightarrow> (k, v) \<in> set ms"
  by (metis json_map_def distinct_clearjunk map_of_clearjunk map_of_eq_Some_iff map_of_SomeD set_rev)

function rejectSensitive :: "(rune \<Rightarrow> bool) \<Rightarrow> json \<Rightarrow> go_error option" where
  "rejectSensitive letter (JObj ms) =
     (if list_ex (\<lambda>m. sensitiveKey letter (fst m) \<or> rejectSensitive letter (snd m) \<noteq> None)
           (json_map ms)
      then Some (ObErr Ob_ErrSensitivePayload) else None)"
| "rejectSensitive letter (JArr vs) =
     (if list_ex (\<lambda>v. rejectSensitive letter v \<noteq> None) vs
      then Some (ObErr Ob_ErrSensitivePayload) else None)"
| "rejectSensitive letter JNull = None"
| "rejectSensitive letter (JBool _) = None"
| "rejectSensitive letter (JNum _) = None"
| "rejectSensitive letter (JStr _) = None"
  by pat_completeness auto

lemma json_member_size: "(k, v) \<in> set ms \<Longrightarrow> size v < size (JObj ms)"
  by (induction ms) auto

lemma json_element_size: "v \<in> set vs \<Longrightarrow> size v < size (JArr vs)"
  by (induction vs) auto

termination rejectSensitive
proof (relation "measure (\<lambda>(letter, v). size v)", goal_cases)
  case (2 letter ms m)
  then have "(fst m, snd m) \<in> set ms" using json_map_subset [of "fst m" "snd m"] by simp
  from json_member_size [OF this] show ?case by (simp del: json.size)
qed (simp_all add: json_element_size del: json.size)

definition validatePayload :: "(rune \<Rightarrow> bool) \<Rightarrow> json option \<Rightarrow> go_error option" where
  "validatePayload letter raw =
     (case raw of
        None \<Rightarrow> Some (ObErr Ob_ErrInvalidEvent)
      | Some v \<Rightarrow>
          (case v of
             JObj _ \<Rightarrow> rejectSensitive letter v
           | JArr _ \<Rightarrow> rejectSensitive letter v
           | _ \<Rightarrow> Some (ObErr Ob_ErrInvalidEvent)))"

definition event_Validate :: "(rune \<Rightarrow> bool) \<Rightarrow> outbox_event \<Rightarrow> go_error option" where
  "event_Validate letter e =
     (if ID_IsZero (oe_ID e) then Some (ObErr Ob_ErrInvalidEvent)
      else if strings_TrimSpace (oe_EventType e) = [] \<or>
          oe_EventType e \<noteq> strings_TrimSpace (oe_EventType e)
        then Some (ObErr Ob_ErrInvalidEvent)
      else if oe_EventVersion e \<le> 0 then Some (ObErr Ob_ErrInvalidEvent)
      else if time_IsZero (oe_CreatedAt e) \<or> time_Before (oe_AvailableAt e) (oe_CreatedAt e)
        then Some (ObErr Ob_ErrInvalidEvent)
      else if oe_Attempts e < 0 then Some (ObErr Ob_ErrInvalidEvent)
      else if (oe_ClaimedAt e = None) \<noteq> (oe_ClaimUntil e = None)
        then Some (ObErr Ob_ErrInvalidEvent)
      else if (case (oe_ClaimedAt e, oe_ClaimUntil e) of
            (Some a, Some u) \<Rightarrow> \<not> time_After u a | _ \<Rightarrow> False)
        then Some (ObErr Ob_ErrInvalidEvent)
      else validatePayload letter (oe_Payload e))"

definition isClaimable :: "outbox_event \<Rightarrow> time \<Rightarrow> bool" where
  "isClaimable e now \<longleftrightarrow>
     (if oe_CompletedAt e \<noteq> None then False
      else if time_Before now (oe_AvailableAt e) then False
      else if (case oe_ClaimUntil e of None \<Rightarrow> False | Some u \<Rightarrow> time_Before now u) then False
      else True)"

section \<open>The table\<close>

text \<open>The table, and what the database answers while it is unreachable.\<close>

record outbox_db =
  od_rows :: "(ID, outbox_event) gomap"
  od_fail :: "go_error option"

definition ob_mapDBErr :: "go_error \<Rightarrow> go_error" where
  [err_defs]: "ob_mapDBErr err =
     (if err = DbErr Db_ErrNoRows then ObErr Ob_ErrNotFound
      else if err = DbErr Db_ErrConflict then ObErr Ob_ErrConflict
      else if ctx_error err then err
      else ObErr Ob_ErrUnavailable)"

text \<open>The constraints of the table other than its two unique indexes.\<close>

definition outbox_check :: "outbox_event \<Rightarrow> bool" where
  "outbox_check e \<longleftrightarrow>
     oe_EventType e \<noteq> [] \<and> oe_EventVersion e > 0 \<and>
     (case oe_Payload e of Some (JObj _) \<Rightarrow> True | Some (JArr _) \<Rightarrow> True | _ \<Rightarrow> False) \<and>
     oe_Attempts e \<ge> 0 \<and> oe_AvailableAt e \<ge> oe_CreatedAt e \<and>
     (case (oe_ClaimedAt e, oe_ClaimUntil e) of
        (None, None) \<Rightarrow> True | (Some a, Some u) \<Rightarrow> u > a | _ \<Rightarrow> False)"

text \<open>The primary key and the partial unique index on \<open>idempotency_key\<close>.\<close>

definition outbox_taken :: "outbox_event \<Rightarrow> (ID, outbox_event) gomap \<Rightarrow> bool" where
  "outbox_taken e rows \<longleftrightarrow>
     map_of rows (oe_ID e) \<noteq> None \<or>
     (oe_IdempotencyKey e \<noteq> None \<and>
      list_ex (\<lambda>r. oe_IdempotencyKey (snd r) = oe_IdempotencyKey e) rows)"

definition outbox_exec :: "ctx \<Rightarrow> (outbox_db, 'a) go \<Rightarrow> (outbox_db, 'a) go" where
  "outbox_exec c stmt = (\<lambda>d. gguard (ctx_Err c) (gguard (od_fail d) stmt) d)"

definition outbox_Insert :: "ctx \<Rightarrow> outbox_event \<Rightarrow> (outbox_db, unit) go" where
  "outbox_Insert c e =
     gmaperr ob_mapDBErr (outbox_exec c (\<lambda>d.
       if outbox_taken e (od_rows d) then (d, Inl (DbErr Db_ErrConflict))
       else if \<not> outbox_check e then (d, Inl (DbErr Db_ErrUnavailable))
       else (d\<lparr>od_rows := AList.update (oe_ID e) e (od_rows d)\<rparr>, Inr ())))"

text \<open>
  The rows the common table expression \<open>picked\<close> selects, in its order. A statement is one step here, so \<open>SKIP LOCKED\<close> has
  no row to skip; and the rows an \<open>UPDATE \<dots> RETURNING\<close> returns, whose order SQL leaves to the server, are taken to
  come in the order they were picked.
\<close>

definition claim_picked :: "time \<Rightarrow> int \<Rightarrow> outbox_event list \<Rightarrow> outbox_event list" where
  "claim_picked now limit rows =
     take (nat limit) (sort_key (\<lambda>e. (oe_AvailableAt e, oe_ID e))
       (filter (\<lambda>e. oe_CompletedAt e = None \<and> oe_AvailableAt e \<le> now \<and>
          (case oe_ClaimUntil e of None \<Rightarrow> True | Some u \<Rightarrow> u \<le> now)) rows))"

definition claim_set :: "time \<Rightarrow> duration \<Rightarrow> outbox_event \<Rightarrow> outbox_event" where
  "claim_set now lease e =
     e\<lparr>oe_ClaimedAt := Some now, oe_ClaimUntil := Some (now + lease),
       oe_Attempts := oe_Attempts e + 1\<rparr>"

definition outbox_Claim :: "ctx \<Rightarrow> time \<Rightarrow> duration \<Rightarrow> int \<Rightarrow> (outbox_db, outbox_event list) go" where
  "outbox_Claim c now lease limit =
     (if lease \<le> 0 \<or> limit \<le> 0 then gfail (ObErr Ob_ErrInvalidPolicy)
      else gmaperr ob_mapDBErr (outbox_exec c (\<lambda>d.
        let out = map (claim_set now lease) (claim_picked now limit (map snd (od_rows d)))
        in (d\<lparr>od_rows := foldl (\<lambda>m e. AList.update (oe_ID e) e m) (od_rows d) out\<rparr>, Inr out))))"

text \<open>An \<open>UPDATE\<close> of the row with an identifier, if the row is there and not completed.\<close>

definition outbox_update_open ::
  "ID \<Rightarrow> (outbox_event \<Rightarrow> outbox_event) \<Rightarrow> (outbox_db, outbox_event option) go" where
  "outbox_update_open i f = (\<lambda>d.
     case map_of (od_rows d) i of
       Some e \<Rightarrow>
         if oe_CompletedAt e = None
         then (d\<lparr>od_rows := AList.update i (f e) (od_rows d)\<rparr>, Inr (Some (f e)))
         else (d, Inr None)
     | None \<Rightarrow> (d, Inr None))"

definition outbox_Complete :: "ctx \<Rightarrow> ID \<Rightarrow> time \<Rightarrow> (outbox_db, unit) go" where
  "outbox_Complete c i now =
     gcase (outbox_exec c (outbox_update_open i (\<lambda>e. e\<lparr>oe_CompletedAt := Some now\<rparr>)))
       (\<lambda>e. gfail (ob_mapDBErr e))
       (\<lambda>n. if n = None then gfail (ObErr Ob_ErrNotFound) else gret ())"

definition outbox_Reschedule :: "ctx \<Rightarrow> ID \<Rightarrow> time \<Rightarrow> string \<Rightarrow> (outbox_db, unit) go" where
  "outbox_Reschedule c i availableAt errorClass =
     gcase (outbox_exec c (\<lambda>d.
         case map_of (od_rows d) i of
           Some e \<Rightarrow>
             if oe_CompletedAt e = None \<and> availableAt < oe_CreatedAt e
             then (d, Inl (DbErr Db_ErrUnavailable))
             else outbox_update_open i (\<lambda>e. e\<lparr>oe_AvailableAt := availableAt, oe_ClaimedAt := None,
                    oe_ClaimUntil := None, oe_LastErrorClass := Some errorClass\<rparr>) d
         | None \<Rightarrow> (d, Inr None)))
       (\<lambda>e. gfail (ob_mapDBErr e))
       (\<lambda>n. if n = None then gfail (ObErr Ob_ErrNotFound) else gret ())"

definition outbox_IncrementAttempts :: "ctx \<Rightarrow> ID \<Rightarrow> (outbox_db, int) go" where
  "outbox_IncrementAttempts c i =
     gcase (outbox_exec c (outbox_update_open i (\<lambda>e. e\<lparr>oe_Attempts := oe_Attempts e + 1\<rparr>)))
       (\<lambda>e. gfail (ob_mapDBErr e))
       (\<lambda>n. case n of None \<Rightarrow> gfail (ObErr Ob_ErrNotFound) | Some e \<Rightarrow> gret (oe_Attempts e))"

section \<open>The writer and claim API\<close>

record 'w outbox_store =
  os_Insert :: "ctx \<Rightarrow> outbox_event \<Rightarrow> ('w, unit) go"
  os_Claim :: "ctx \<Rightarrow> time \<Rightarrow> duration \<Rightarrow> int \<Rightarrow> ('w, outbox_event list) go"
  os_Complete :: "ctx \<Rightarrow> ID \<Rightarrow> time \<Rightarrow> ('w, unit) go"
  os_Reschedule :: "ctx \<Rightarrow> ID \<Rightarrow> time \<Rightarrow> string \<Rightarrow> ('w, unit) go"
  os_IncrementAttempts :: "ctx \<Rightarrow> ID \<Rightarrow> ('w, int) go"

text \<open>
  \<open>ob_next\<close> is \<open>policy.NextAvailableAt\<close>, which draws jitter from the random source.
\<close>

record 'w outbox =
  ob_store :: "'w outbox_store"
  ob_Lease :: duration
  ob_BatchSize :: int
  ob_next :: "time \<Rightarrow> int \<Rightarrow> ('w, time) go"
  ob_now :: "'w \<Rightarrow> 'w \<times> time"
  ob_rand :: "'w \<Rightarrow> 'w \<times> ID option"
  ob_letter :: "rune \<Rightarrow> bool"

definition ob_mapStoreErr :: "go_error \<Rightarrow> go_error" where
  [err_defs]: "ob_mapStoreErr err =
     (if ctx_error err then err
      else if err \<in> ObErr ` {Ob_ErrUnavailable, Ob_ErrInvalidEvent, Ob_ErrSensitivePayload,
            Ob_ErrConflict, Ob_ErrNotFound, Ob_ErrStoreRequired, Ob_ErrInvalidPolicy,
            Ob_ErrHandlerRequired, Ob_ErrDuplicateHandler, Ob_ErrRelayRequired}
        then err
      else ObErr Ob_ErrUnavailable)"

definition nonempty :: "string \<Rightarrow> string option" where
  "nonempty s = (if s = [] then None else Some s)"

definition event_of :: "ID \<Rightarrow> time \<Rightarrow> new_event \<Rightarrow> outbox_event" where
  "event_of i now inp =
     \<lparr>oe_ID = i, oe_EventType = strings_TrimSpace (ev_EventType inp),
      oe_EventVersion = ev_EventVersion inp, oe_AggregateType = nonempty (ev_AggregateType inp),
      oe_AggregateID = nonempty (ev_AggregateID inp), oe_Payload = ev_Payload inp,
      oe_IdempotencyKey = nonempty (ev_IdempotencyKey inp),
      oe_CorrelationID = nonempty (ev_CorrelationID inp), oe_CreatedAt = now,
      oe_AvailableAt = now, oe_ClaimedAt = None, oe_ClaimUntil = None, oe_CompletedAt = None,
      oe_Attempts = 0, oe_LastErrorClass = None\<rparr>"

definition ob_Enqueue :: "'w outbox \<Rightarrow> ctx \<Rightarrow> new_event \<Rightarrow> ('w, outbox_event) go" where
  "ob_Enqueue o' c inp =
     gread (ob_rand o') (\<lambda>entropy.
     case NewID entropy of None \<Rightarrow> gfail (ObErr Ob_ErrUnavailable) | Some i \<Rightarrow>
     gread (ob_now o') (\<lambda>now.
     let e = event_of i now inp in
     gguard (event_Validate (ob_letter o') e)
       (gcase (os_Insert (ob_store o') c e) (\<lambda>err. gfail (ob_mapStoreErr err)) (\<lambda>_. gret e))))"

definition ob_Claim :: "'w outbox \<Rightarrow> ctx \<Rightarrow> time \<Rightarrow> ('w, outbox_event list) go" where
  "ob_Claim o' c now =
     gread (\<lambda>w. if time_IsZero now then ob_now o' w else (w, now)) (\<lambda>now.
     gmaperr ob_mapStoreErr (os_Claim (ob_store o') c now (ob_Lease o') (ob_BatchSize o')))"

definition ob_Complete :: "'w outbox \<Rightarrow> ctx \<Rightarrow> ID \<Rightarrow> time \<Rightarrow> ('w, unit) go" where
  "ob_Complete o' c i now =
     (if ID_IsZero i then gfail (ObErr Ob_ErrInvalidEvent)
      else gread (\<lambda>w. if time_IsZero now then ob_now o' w else (w, now)) (\<lambda>now.
        gmaperr ob_mapStoreErr (os_Complete (ob_store o') c i now)))"

definition ob_Reschedule :: "'w outbox \<Rightarrow> ctx \<Rightarrow> outbox_event \<Rightarrow> string \<Rightarrow> time \<Rightarrow> ('w, unit) go" where
  "ob_Reschedule o' c event errorClass now =
     (if ID_IsZero (oe_ID event) then gfail (ObErr Ob_ErrInvalidEvent)
      else if strings_TrimSpace errorClass = [] then gfail (ObErr Ob_ErrInvalidEvent)
      else gread (\<lambda>w. if time_IsZero now then ob_now o' w else (w, now)) (\<lambda>now.
        gcase (ob_next o' now (oe_Attempts event))
          (\<lambda>_. gfail (ObErr Ob_ErrUnavailable))
          (\<lambda>nxt. gmaperr ob_mapStoreErr
             (os_Reschedule (ob_store o') c (oe_ID event) nxt (strings_TrimSpace errorClass)))))"

definition ob_IncrementAttempts :: "'w outbox \<Rightarrow> ctx \<Rightarrow> ID \<Rightarrow> ('w, int) go" where
  "ob_IncrementAttempts o' c i =
     (if ID_IsZero i then gfail (ObErr Ob_ErrInvalidEvent)
      else gmaperr ob_mapStoreErr (os_IncrementAttempts (ob_store o') c i))"

section \<open>The invariant of the table\<close>

abbreviation outbox_table :: "outbox_db \<Rightarrow> ID \<Rightarrow> outbox_event option" where
  "outbox_table d \<equiv> map_of (od_rows d)"

definition outbox_inv :: "outbox_db \<Rightarrow> bool" where
  "outbox_inv d \<longleftrightarrow> wf_map (od_rows d) \<and>
     (\<forall>k e. outbox_table d k = Some e \<longrightarrow> oe_ID e = k \<and> outbox_check e) \<and>
     (\<forall>k e l f. outbox_table d k = Some e \<longrightarrow> outbox_table d l = Some f \<longrightarrow>
        oe_IdempotencyKey e \<noteq> None \<longrightarrow> oe_IdempotencyKey e = oe_IdempotencyKey f \<longrightarrow> k = l)"

lemma outbox_invD:
  assumes "outbox_inv d"
  shows "wf_map (od_rows d)"
    and "outbox_table d k = Some e \<Longrightarrow> oe_ID e = k"
    and "outbox_table d k = Some e \<Longrightarrow> outbox_check e"
    and "outbox_table d k = Some e \<Longrightarrow> outbox_table d l = Some f \<Longrightarrow> oe_IdempotencyKey e \<noteq> None \<Longrightarrow>
      oe_IdempotencyKey f = oe_IdempotencyKey e \<Longrightarrow> k = l"
  using assms unfolding outbox_inv_def by (simp, blast, blast, metis)

lemma outbox_invI:
  assumes "wf_map (od_rows d)"
    and "\<And>k e. outbox_table d k = Some e \<Longrightarrow> oe_ID e = k \<and> outbox_check e"
    and "\<And>k e l f. outbox_table d k = Some e \<Longrightarrow> outbox_table d l = Some f \<Longrightarrow>
      oe_IdempotencyKey e \<noteq> None \<Longrightarrow> oe_IdempotencyKey f = oe_IdempotencyKey e \<Longrightarrow> k = l"
  shows "outbox_inv d"
  unfolding outbox_inv_def using assms by metis

text \<open>What no statement changes in a row: everything but the delivery bookkeeping.\<close>

definition same_event :: "outbox_event \<Rightarrow> outbox_event \<Rightarrow> bool" where
  "same_event e f \<longleftrightarrow>
     oe_ID f = oe_ID e \<and> oe_EventType f = oe_EventType e \<and> oe_EventVersion f = oe_EventVersion e \<and>
     oe_AggregateType f = oe_AggregateType e \<and> oe_AggregateID f = oe_AggregateID e \<and>
     oe_Payload f = oe_Payload e \<and> oe_IdempotencyKey f = oe_IdempotencyKey e \<and>
     oe_CorrelationID f = oe_CorrelationID e \<and> oe_CreatedAt f = oe_CreatedAt e"

lemma same_event_refl [simp]: "same_event e e"
  by (simp add: same_event_def)

lemma same_event_trans: "same_event e f \<Longrightarrow> same_event f g \<Longrightarrow> same_event e g"
  by (simp add: same_event_def)

text \<open>Rows may be rewritten as long as they stay the same events and keep the constraints.\<close>

lemma outbox_inv_rewrite:
  assumes inv: "outbox_inv d" and wf: "wf_map rows"
    and old: "\<And>k. (map_of rows k = None) = (outbox_table d k = None)"
    and new: "\<And>k e f. outbox_table d k = Some e \<Longrightarrow> map_of rows k = Some f \<Longrightarrow>
      same_event e f \<and> outbox_check f"
  shows "outbox_inv (d\<lparr>od_rows := rows\<rparr>)"
proof (rule outbox_invI)
  have pre: "\<exists>e. outbox_table d k = Some e \<and> same_event e f \<and> outbox_check f"
    if "map_of rows k = Some f" for k f
    using that old [of k] new by fastforce
  show "oe_ID f = k \<and> outbox_check f" if "outbox_table (d\<lparr>od_rows := rows\<rparr>) k = Some f" for k f
    using pre [of k f] that outbox_invD(2) [OF inv] by (auto simp: same_event_def)
  show "k = l" if k: "outbox_table (d\<lparr>od_rows := rows\<rparr>) k = Some e"
    and l: "outbox_table (d\<lparr>od_rows := rows\<rparr>) l = Some f"
    and n: "oe_IdempotencyKey e \<noteq> None" and s: "oe_IdempotencyKey f = oe_IdempotencyKey e" for k e l f
  proof -
    obtain e0 where e0: "outbox_table d k = Some e0" "same_event e0 e"
      using pre [of k e] k by auto
    obtain f0 where f0: "outbox_table d l = Some f0" "same_event f0 f"
      using pre [of l f] l by auto
    have "oe_IdempotencyKey e0 \<noteq> None" and "oe_IdempotencyKey f0 = oe_IdempotencyKey e0"
      using e0(2) f0(2) n s by (auto simp: same_event_def)
    with e0(1) f0(1) show ?thesis by (rule outbox_invD(4) [OF inv])
  qed
qed (use wf in simp)

lemma outbox_Insert_ok:
  "outbox_Insert c e d = (d', Inr u) \<longleftrightarrow>
     ctx_Err c = None \<and> od_fail d = None \<and> \<not> outbox_taken e (od_rows d) \<and> outbox_check e \<and>
     d' = d\<lparr>od_rows := AList.update (oe_ID e) e (od_rows d)\<rparr>"
  by (auto simp: outbox_Insert_def outbox_exec_def gmaperr_apply gguard_def
      split: option.splits if_splits)

lemma outbox_Insert_err: "outbox_Insert c e d = (d', Inl x) \<Longrightarrow> d' = d"
  by (auto simp: outbox_Insert_def outbox_exec_def gmaperr_apply gguard_def
      split: option.splits if_splits)

lemma outbox_taken_iff:
  assumes "outbox_inv d"
  shows "outbox_taken e (od_rows d) \<longleftrightarrow>
    outbox_table d (oe_ID e) \<noteq> None \<or>
    (oe_IdempotencyKey e \<noteq> None \<and>
     (\<exists>k f. outbox_table d k = Some f \<and> oe_IdempotencyKey f = oe_IdempotencyKey e))"
  using outbox_invD(1) [OF assms]
  by (fastforce simp: outbox_taken_def list_ex_iff wf_map_in_set [symmetric])

lemma outbox_inv_Insert:
  assumes inv: "outbox_inv d" and ins: "outbox_Insert c e d = (d', Inr u)"
  shows "outbox_inv d'"
proof -
  have d': "d' = d\<lparr>od_rows := AList.update (oe_ID e) e (od_rows d)\<rparr>" and chk: "outbox_check e"
    and free: "outbox_table d (oe_ID e) = None"
    and key: "\<And>k f. outbox_table d k = Some f \<Longrightarrow> oe_IdempotencyKey e \<noteq> None \<Longrightarrow>
      oe_IdempotencyKey f \<noteq> oe_IdempotencyKey e"
    using ins outbox_taken_iff [OF inv, of e] by (auto simp: outbox_Insert_ok)
  show ?thesis
    unfolding d'
  proof (rule outbox_invI, goal_cases)
    case 1
    then show ?case using outbox_invD(1) [OF inv] by simp
  next
    case (2 k f)
    then show ?case using outbox_invD(2,3) [OF inv] chk by (auto split: if_splits)
  next
    case (3 k f l g)
    then show ?case using key outbox_invD(4) [OF inv, of k f l g] by (auto split: if_splits)
  qed
qed

lemma outbox_update_open_eq:
  "outbox_update_open i f d = (d', Inr n) \<longleftrightarrow>
     (if \<exists>e. outbox_table d i = Some e \<and> oe_CompletedAt e = None
      then d' = d\<lparr>od_rows := AList.update i (f (the (outbox_table d i))) (od_rows d)\<rparr> \<and>
           n = Some (f (the (outbox_table d i)))
      else d' = d \<and> n = None)"
  by (auto simp: outbox_update_open_def split: option.splits if_splits)

section \<open>Claiming\<close>

lemma claimable_where:
  "isClaimable e now \<longleftrightarrow>
     oe_CompletedAt e = None \<and> oe_AvailableAt e \<le> now \<and>
     (case oe_ClaimUntil e of None \<Rightarrow> True | Some u \<Rightarrow> u \<le> now)"
  by (auto simp: isClaimable_def split: option.splits)

lemma claim_picked_eq:
  "claim_picked now limit rows =
     take (nat limit) (sort_key (\<lambda>e. (oe_AvailableAt e, oe_ID e))
       (filter (\<lambda>e. isClaimable e now) rows))"
  by (simp add: claim_picked_def claimable_where)

lemma set_claim_picked:
  "e \<in> set (claim_picked now limit rows) \<Longrightarrow> e \<in> set rows \<and> isClaimable e now"
  by (auto simp: claim_picked_eq dest: in_set_takeD)

lemma outbox_ids: "outbox_inv d \<Longrightarrow> map oe_ID (map snd (od_rows d)) = map fst (od_rows d)"
  by (auto simp: wf_map_in_set outbox_inv_def)

lemma claim_picked_distinct:
  assumes "outbox_inv d"
  shows "distinct (map oe_ID (claim_picked now limit (map snd (od_rows d))))"
proof -
  have "distinct (map oe_ID (map snd (od_rows d)))"
    using outbox_invD(1) [OF assms] unfolding outbox_ids [OF assms] wf_map_def .
  then have "distinct (map oe_ID (filter (\<lambda>e. isClaimable e now) (map snd (od_rows d))))"
    by (rule distinct_map_filter)
  then have "distinct (map oe_ID (sort_key (\<lambda>e. (oe_AvailableAt e, oe_ID e))
      (filter (\<lambda>e. isClaimable e now) (map snd (od_rows d)))))"
    by (simp add: distinct_map)
  then show ?thesis by (simp add: claim_picked_eq take_map [symmetric])
qed

lemma claim_picked_row:
  assumes "outbox_inv d" and "e \<in> set (claim_picked now limit (map snd (od_rows d)))"
  shows "outbox_table d (oe_ID e) = Some e"
proof -
  obtain k where "(k, e) \<in> set (od_rows d)" using set_claim_picked [OF assms(2)] by auto
  then have "outbox_table d k = Some e" using outbox_invD(1) [OF assms(1)] by (simp add: wf_map_in_set)
  with outbox_invD(2) [OF assms(1) this] show ?thesis by simp
qed

text \<open>The claimable rows a claim leaves behind come later in the queue than those it takes.\<close>

lemma claim_picked_prefix:
  assumes "e \<in> set rows" and "isClaimable e now" and "e \<notin> set (claim_picked now limit rows)"
  shows "nat limit \<le> length (claim_picked now limit rows) \<and>
    (\<forall>p \<in> set (claim_picked now limit rows).
       (oe_AvailableAt p, oe_ID p) \<le> (oe_AvailableAt e, oe_ID e))"
proof -
  let ?key = "\<lambda>e. (oe_AvailableAt e, oe_ID e)"
  let ?q = "sort_key ?key (filter (\<lambda>e. isClaimable e now) rows)"
  have e: "e \<in> set ?q" using assms(1,2) by simp
  then have "e \<in> set (take (nat limit) ?q @ drop (nat limit) ?q)"
    unfolding append_take_drop_id .
  then have drop: "e \<in> set (drop (nat limit) ?q)"
    using assms(3) unfolding claim_picked_eq set_append by blast
  have "sorted (map ?key (take (nat limit) ?q @ drop (nat limit) ?q))"
    unfolding append_take_drop_id by (rule sorted_sort_key)
  then have "\<forall>p \<in> set (take (nat limit) ?q). ?key p \<le> ?key e"
    using drop unfolding map_append sorted_append by simp
  moreover have "nat limit \<le> length ?q" using drop by (cases "nat limit \<le> length ?q") auto
  ultimately show ?thesis by (simp add: claim_picked_eq)
qed

lemma foldl_put:
  assumes "distinct (map oe_ID es)"
  shows "map_of (foldl (\<lambda>m e. AList.update (oe_ID e) e m) rows es) =
    map_of rows ++ map_of (map (\<lambda>e. (oe_ID e, e)) es)"
proof -
  have "map_of (rev (map (\<lambda>e. (oe_ID e, e)) es)) = map_of (map (\<lambda>e. (oe_ID e, e)) es)"
    using assms by (intro map_of_inject_set [THEN iffD2]) (auto simp: comp_def simp flip: rev_map)
  then show ?thesis
    using map_of_foldl_update [of rows "map (\<lambda>e. (oe_ID e, e)) es"]
    by (simp add: foldl_map)
qed

lemma wf_map_foldl_put: "wf_map rows \<Longrightarrow> wf_map (foldl (\<lambda>m e. AList.update (oe_ID e) e m) rows es)"
  by (induction es arbitrary: rows) auto

lemma claim_set_sel [simp]:
  "oe_ID (claim_set now lease e) = oe_ID e" "oe_ClaimUntil (claim_set now lease e) = Some (now + lease)"
  "oe_CompletedAt (claim_set now lease e) = oe_CompletedAt e"
  "oe_Attempts (claim_set now lease e) = oe_Attempts e + 1"
  "same_event e (claim_set now lease e)"
  by (simp_all add: claim_set_def same_event_def)

lemma claim_set_check: "outbox_check e \<Longrightarrow> 0 < lease \<Longrightarrow> outbox_check (claim_set now lease e)"
  by (simp add: outbox_check_def claim_set_def)

text \<open>The table after a claim.\<close>

lemma outbox_Claim_ok:
  assumes inv: "outbox_inv d" and cl: "outbox_Claim c now lease limit d = (d', Inr out)"
  shows "0 < lease \<and> 0 < limit" and "out = map (claim_set now lease) (claim_picked now limit (map snd (od_rows d)))"
    and "outbox_table d' = (\<lambda>k. case outbox_table d k of None \<Rightarrow> None
      | Some e \<Rightarrow> Some (if e \<in> set (claim_picked now limit (map snd (od_rows d)))
                       then claim_set now lease e else e))"
    and "outbox_inv d'"
proof -
  let ?p = "claim_picked now limit (map snd (od_rows d))"
  show pos: "0 < lease \<and> 0 < limit" and out: "out = map (claim_set now lease) ?p"
    using cl by (auto simp: outbox_Claim_def outbox_exec_def gmaperr_apply gguard_def Let_def
        split: if_splits option.splits)
  have d': "d' = d\<lparr>od_rows := foldl (\<lambda>m e. AList.update (oe_ID e) e m) (od_rows d) out\<rparr>"
    using cl by (auto simp: outbox_Claim_def outbox_exec_def gmaperr_apply gguard_def Let_def
        split: if_splits option.splits)
  have "distinct (map oe_ID out)"
    using claim_picked_distinct [OF inv] by (simp add: out comp_def)
  then have tab0: "outbox_table d' = outbox_table d ++ map_of (map (\<lambda>e. (oe_ID e, e)) out)"
    by (simp add: d' foldl_put)
  have hit: "map_of (map (\<lambda>e. (oe_ID e, e)) out) k =
      (case outbox_table d k of None \<Rightarrow> None
       | Some e \<Rightarrow> if e \<in> set ?p then Some (claim_set now lease e) else None)" for k
  proof (cases "map_of (map (\<lambda>e. (oe_ID e, e)) out) k")
    case None
    then have "\<not> (\<exists>e \<in> set ?p. oe_ID e = k)" by (force simp: out map_of_eq_None_iff)
    with None outbox_invD(2) [OF inv, of k] show ?thesis by (auto split: option.split)
  next
    case (Some f)
    then obtain e where "e \<in> set ?p" "f = claim_set now lease e" "oe_ID e = k"
      by (auto simp: out dest!: map_of_SomeD)
    with Some claim_picked_row [OF inv, of e now limit] show ?thesis by auto
  qed
  show tab: "outbox_table d' = (\<lambda>k. case outbox_table d k of None \<Rightarrow> None
      | Some e \<Rightarrow> Some (if e \<in> set ?p then claim_set now lease e else e))"
    unfolding tab0 map_add_def hit by (auto split: option.split)
  show "outbox_inv d'"
    unfolding d'
  proof (rule outbox_inv_rewrite [OF inv wf_map_foldl_put [OF outbox_invD(1) [OF inv]]], goal_cases)
    case (1 k)
    then show ?case using fun_cong [OF tab, of k] by (simp add: d' split: option.splits)
  next
    case (2 k e f)
    then show ?case
      using fun_cong [OF tab, of k] outbox_invD(3) [OF inv, of k e] pos claim_set_check
      by (auto simp: d' split: option.splits if_splits)
  qed
qed

section \<open>Histories of the table\<close>

text \<open>
  Any sequence of statements by producers and workers, failing ones included, with the database going
  away and coming back.
\<close>

inductive outbox_step :: "outbox_db \<Rightarrow> outbox_db \<Rightarrow> bool" where
  Insert: "outbox_Insert c e d = (d', r) \<Longrightarrow> outbox_step d d'"
| Claim: "outbox_Claim c now lease limit d = (d', r) \<Longrightarrow> outbox_step d d'"
| Complete: "outbox_Complete c i now d = (d', r) \<Longrightarrow> outbox_step d d'"
| Reschedule: "outbox_Reschedule c i availableAt errorClass d = (d', r) \<Longrightarrow> outbox_step d d'"
| Increment: "outbox_IncrementAttempts c i d = (d', r) \<Longrightarrow> outbox_step d d'"
| Env: "outbox_step d (d\<lparr>od_fail := x\<rparr>)"

text \<open>What may become of a row.\<close>

definition row_later :: "outbox_event \<Rightarrow> outbox_event \<Rightarrow> bool" where
  "row_later e f \<longleftrightarrow> same_event e f \<and> oe_Attempts e \<le> oe_Attempts f \<and> (oe_CompletedAt e \<noteq> None \<longrightarrow> f = e)"

lemma row_later_refl [simp]: "row_later e e"
  by (simp add: row_later_def)

lemma row_later_trans: "row_later e f \<Longrightarrow> row_later f g \<Longrightarrow> row_later e g"
  unfolding row_later_def using same_event_trans by (auto intro: order_trans)

text \<open>A statement keeps the table: the invariant holds and no row is lost or altered.\<close>

definition keeps_rows :: "outbox_db \<Rightarrow> outbox_db \<Rightarrow> bool" where
  "keeps_rows d d' \<longleftrightarrow>
     outbox_inv d' \<and> (\<forall>k e. outbox_table d k = Some e \<longrightarrow> (\<exists>f. outbox_table d' k = Some f \<and> row_later e f))"

lemma keeps_rows_refl: "outbox_inv d \<Longrightarrow> keeps_rows d d"
  by (simp add: keeps_rows_def)

lemma keeps_rows_put:
  assumes inv: "outbox_inv d" and row: "outbox_table d i = Some e"
    and f: "same_event e f" "oe_Attempts e \<le> oe_Attempts f" "oe_CompletedAt e = None" "outbox_check f"
  shows "keeps_rows d (d\<lparr>od_rows := AList.update i f (od_rows d)\<rparr>)"
proof -
  have "outbox_inv (d\<lparr>od_rows := AList.update i f (od_rows d)\<rparr>)"
    by (rule outbox_inv_rewrite [OF inv])
      (use row f outbox_invD(1) [OF inv] outbox_invD(3) [OF inv] in \<open>auto split: if_splits\<close>)
  then show ?thesis using row f by (simp add: keeps_rows_def row_later_def)
qed

lemma keeps_rows_update_open:
  assumes inv: "outbox_inv d" and st: "outbox_exec c (outbox_update_open i g) d = (d', r)"
    and g: "\<And>e. outbox_table d i = Some e \<Longrightarrow> oe_CompletedAt e = None \<Longrightarrow>
      same_event e (g e) \<and> oe_Attempts e \<le> oe_Attempts (g e) \<and> outbox_check (g e)"
  shows "keeps_rows d d'"
proof (cases "\<exists>e. outbox_table d i = Some e \<and> oe_CompletedAt e = None \<and> d' \<noteq> d")
  case True
  then obtain e where e: "outbox_table d i = Some e" "oe_CompletedAt e = None" "d' \<noteq> d" by blast
  then have "d' = d\<lparr>od_rows := AList.update i (g e) (od_rows d)\<rparr>"
    using st by (auto simp: outbox_exec_def outbox_update_open_def gguard_def split: option.splits)
  then show ?thesis using keeps_rows_put [OF inv e(1), of "g e"] g [OF e(1,2)] e(2) by simp
next
  case False
  then have "d' = d"
    using st by (auto simp: outbox_exec_def outbox_update_open_def gguard_def split: option.splits if_splits)
  then show ?thesis by (simp add: keeps_rows_refl inv)
qed

lemma gcase_final:
  assumes "gcase m (\<lambda>e. gfail (f e)) k w = (w', r)"
    and "\<And>x. k x = gfail (h x) \<or> (\<exists>y. k x = gret y)"
  shows "\<exists>s. m w = (w', s)"
proof -
  obtain w1 s where s: "m w = (w1, s)" by fastforce
  show ?thesis
  proof (cases s)
    case (Inl e)
    then show ?thesis using assms(1) s by (simp add: gcase_apply)
  next
    case (Inr x)
    then show ?thesis using assms(1) s assms(2) [of x] by (auto simp: gcase_apply)
  qed
qed

lemma keeps_rows_Insert:
  assumes "outbox_inv d" and "outbox_Insert c e d = (d', r)"
  shows "keeps_rows d d'"
proof (cases r)
  case (Inl x)
  then show ?thesis using assms outbox_Insert_err keeps_rows_refl by blast
next
  case (Inr u)
  then have "outbox_inv d'" using assms outbox_inv_Insert by blast
  moreover have "outbox_table d' = (outbox_table d)(oe_ID e \<mapsto> e)" "outbox_table d (oe_ID e) = None"
    using Inr assms(2) outbox_taken_iff [OF assms(1), of e] by (auto simp: outbox_Insert_ok)
  ultimately show ?thesis by (auto simp: keeps_rows_def)
qed

lemma keeps_rows_Claim:
  assumes "outbox_inv d" and "outbox_Claim c now lease limit d = (d', r)"
  shows "keeps_rows d d'"
proof (cases r)
  case (Inl x)
  then have "d' = d"
    using assms(2) by (auto simp: outbox_Claim_def outbox_exec_def gmaperr_apply gguard_def Let_def
        split: if_splits option.splits)
  then show ?thesis by (simp add: keeps_rows_refl assms(1))
next
  case (Inr out)
  note ok = outbox_Claim_ok [OF assms(1) assms(2) [unfolded Inr]]
  have "row_later e (claim_set now lease e)"
    if "e \<in> set (claim_picked now limit (map snd (od_rows d)))" for e
    using set_claim_picked [OF that] by (simp add: row_later_def claimable_where)
  then show ?thesis using ok(3,4) by (simp add: keeps_rows_def)
qed

lemma keeps_rows_Complete:
  assumes inv: "outbox_inv d" and st: "outbox_Complete c i now d = (d', r)"
  shows "keeps_rows d d'"
proof -
  let ?g = "\<lambda>e. e\<lparr>oe_CompletedAt := Some now\<rparr>"
  have "\<exists>s. outbox_exec c (outbox_update_open i ?g) d = (d', s)"
    by (rule gcase_final [OF st [unfolded outbox_Complete_def], where h = "\<lambda>_. ObErr Ob_ErrNotFound"]) auto
  then obtain s where s: "outbox_exec c (outbox_update_open i ?g) d = (d', s)" by blast
  show ?thesis
    by (rule keeps_rows_update_open [OF inv s])
      (use outbox_invD(3) [OF inv] in \<open>auto simp: same_event_def outbox_check_def\<close>)
qed

lemma keeps_rows_Increment:
  assumes inv: "outbox_inv d" and st: "outbox_IncrementAttempts c i d = (d', r)"
  shows "keeps_rows d d'"
proof -
  let ?g = "\<lambda>e. e\<lparr>oe_Attempts := oe_Attempts e + 1\<rparr>"
  have "\<exists>s. outbox_exec c (outbox_update_open i ?g) d = (d', s)"
    by (rule gcase_final [OF st [unfolded outbox_IncrementAttempts_def],
          where h = "\<lambda>_. ObErr Ob_ErrNotFound"]) (auto split: option.split)
  then obtain s where s: "outbox_exec c (outbox_update_open i ?g) d = (d', s)" by blast
  show ?thesis
    by (rule keeps_rows_update_open [OF inv s])
      (use outbox_invD(3) [OF inv] in \<open>auto simp: same_event_def outbox_check_def\<close>)
qed

lemma keeps_rows_Reschedule:
  assumes inv: "outbox_inv d" and st: "outbox_Reschedule c i availableAt errorClass d = (d', r)"
  shows "keeps_rows d d'"
proof (cases "\<exists>e. outbox_table d i = Some e \<and> \<not> (oe_CompletedAt e = None \<and> availableAt < oe_CreatedAt e)")
  case False
  then have "d' = d"
    using st by (auto simp: outbox_Reschedule_def outbox_exec_def gcase_apply gguard_def
        split: option.splits if_splits)
  then show ?thesis by (simp add: keeps_rows_refl inv)
next
  case True
  then obtain e where e: "outbox_table d i = Some e"
    "\<not> (oe_CompletedAt e = None \<and> availableAt < oe_CreatedAt e)" by blast
  let ?g = "\<lambda>e. e\<lparr>oe_AvailableAt := availableAt, oe_ClaimedAt := None, oe_ClaimUntil := None,
    oe_LastErrorClass := Some errorClass\<rparr>"
  have "\<exists>s. outbox_exec c (outbox_update_open i ?g) d = (d', s)"
    using st e by (auto simp: outbox_Reschedule_def outbox_exec_def gcase_apply gguard_def
        split: option.splits if_splits sum.splits prod.splits)
  then show ?thesis
    using keeps_rows_update_open [OF inv, of c i ?g d'] outbox_invD(3) [OF inv e(1)] e
    by (auto simp: same_event_def outbox_check_def)
qed

lemma keeps_rows_step: "outbox_step d d' \<Longrightarrow> outbox_inv d \<Longrightarrow> keeps_rows d d'"
proof (induction rule: outbox_step.induct)
  case (Env d x)
  then show ?case by (auto simp: keeps_rows_def outbox_inv_def)
qed (blast intro: keeps_rows_Insert keeps_rows_Claim keeps_rows_Complete keeps_rows_Reschedule
    keeps_rows_Increment)+

lemma keeps_rows_history:
  assumes "outbox_step\<^sup>*\<^sup>* d d'" and "outbox_inv d"
  shows "keeps_rows d d'"
  using assms(1)
proof (induction rule: rtranclp_induct)
  case base
  then show ?case by (rule keeps_rows_refl [OF assms(2)])
next
  case (step y z)
  then have "keeps_rows y z" using keeps_rows_step by (auto simp: keeps_rows_def)
  with step.IH show ?case unfolding keeps_rows_def using row_later_trans by meson
qed

text \<open>What the Go validation promises the table.\<close>

lemma event_Validate_check:
  assumes "event_Validate letter e = None"
  shows "outbox_check e"
proof -
  have "oe_EventType e \<noteq> []" using assms by (auto simp: event_Validate_def split: if_splits)
  moreover have "0 < oe_EventVersion e" "0 \<le> oe_Attempts e" "oe_CreatedAt e \<le> oe_AvailableAt e"
    using assms by (auto simp: event_Validate_def split: if_splits)
  moreover have "validatePayload letter (oe_Payload e) = None"
    using assms by (auto simp: event_Validate_def split: if_splits)
  then have "case oe_Payload e of Some (JObj _) \<Rightarrow> True | Some (JArr _) \<Rightarrow> True | _ \<Rightarrow> False"
    by (auto simp: validatePayload_def split: option.splits json.splits)
  moreover have "case (oe_ClaimedAt e, oe_ClaimUntil e) of
      (None, None) \<Rightarrow> True | (Some a, Some u) \<Rightarrow> u > a | _ \<Rightarrow> False"
    using assms by (auto simp: event_Validate_def split: if_splits option.splits)
  ultimately show ?thesis unfolding outbox_check_def by blast
qed

text \<open>The documents inside a document.\<close>

inductive json_inside :: "json \<Rightarrow> json \<Rightarrow> bool" where
  json_self: "json_inside v v"
| json_member: "(k, v) \<in> set (json_map ms) \<Longrightarrow> json_inside v u \<Longrightarrow> json_inside (JObj ms) u"
| json_element: "v \<in> set vs \<Longrightarrow> json_inside v u \<Longrightarrow> json_inside (JArr vs) u"

inductive_cases json_inside_ObjE: "json_inside (JObj ms) u"
inductive_cases json_inside_ArrE: "json_inside (JArr vs) u"

lemma rejectSensitive_inside:
  "json_inside v u \<Longrightarrow> rejectSensitive letter v = None \<Longrightarrow> rejectSensitive letter u = None"
  by (induction rule: json_inside.induct) (auto simp: list_ex_iff split: if_splits)

lemma rejectSensitive_complete:
  "(\<And>ms k. json_inside v (JObj ms) \<Longrightarrow> k \<in> fst ` set (json_map ms) \<Longrightarrow> \<not> sensitiveKey letter k) \<Longrightarrow>
   rejectSensitive letter v = None"
proof (induction letter v rule: rejectSensitive.induct)
  case (1 letter ms)
  have "\<not> sensitiveKey letter (fst m) \<and> rejectSensitive letter (snd m) = None"
    if m: "m \<in> set (json_map ms)" for m
  proof
    show "\<not> sensitiveKey letter (fst m)" using 1(2) [of ms] m by (auto intro: json_self)
    have "json_inside (JObj ms) u" if "json_inside (snd m) u" for u
      using json_member [of "fst m" "snd m" ms u] m that by simp
    then show "rejectSensitive letter (snd m) = None" using 1(1) [OF m] 1(2) m by auto
  qed
  then show ?case by (auto simp: list_ex_iff)
next
  case (2 letter vs)
  have "rejectSensitive letter v = None" if "v \<in> set vs" for v
    using 2(1) [OF that] 2(2) json_element [OF that] by blast
  then show ?case by (auto simp: list_ex_iff)
qed auto

section \<open>Properties\<close>

definition sample_event :: "nat \<Rightarrow> outbox_event" where
  "sample_event n =
     \<lparr>oe_ID = id_n n, oe_EventType = ''created'', oe_EventVersion = 1, oe_AggregateType = None,
      oe_AggregateID = None, oe_Payload = Some (JObj []), oe_IdempotencyKey = Some ''k'',
      oe_CorrelationID = None, oe_CreatedAt = 1, oe_AvailableAt = 1, oe_ClaimedAt = None,
      oe_ClaimUntil = None, oe_CompletedAt = None, oe_Attempts = 0, oe_LastErrorClass = None\<rparr>"

definition sample_outbox :: outbox_db where
  "sample_outbox = \<lparr>od_rows = [(id_n 1, sample_event 1)], od_fail = None\<rparr>"

lemma sample_outbox_inv [simp]: "outbox_inv sample_outbox"
  by (rule outbox_invI)
    (auto simp: sample_outbox_def sample_event_def wf_map_def outbox_check_def split: if_splits)

lemma sample_event_valid [simp]:
  assumes "0 < n" and "n < 256"
  shows "event_Validate (\<lambda>_. False) (sample_event n) = None"
proof -
  have "strings_TrimSpace ''created'' = ''created''"
    by (rule TrimSpace_graphic) (simp add: graphic_def)
  with assms show ?thesis
    by (simp add: event_Validate_def sample_event_def validatePayload_def json_map_def)
qed

text \<open>C13. Leases. A claim returns at most the requested number of events, each once, each claimable at
  that time before and not claimable again until its lease ends; the rows it returns are the rows it
  stored, with one more attempt counted; every other row is untouched, and a claimable event is left
  behind only when the batch is full and every event taken comes before it in the queue.\<close>

theorem outbox_claim_leases:
  assumes "outbox_inv d" and "outbox_Claim c now lease limit d = (d', Inr out)"
  shows "int (length out) \<le> limit \<and> distinct (map oe_ID out) \<and>
    (\<forall>e \<in> set out. \<exists>e0. outbox_table d (oe_ID e) = Some e0 \<and> isClaimable e0 now \<and>
       outbox_table d' (oe_ID e) = Some e \<and> oe_Attempts e = oe_Attempts e0 + 1 \<and> same_event e0 e \<and>
       (\<forall>t. now \<le> t \<and> t < now + lease \<longrightarrow> \<not> isClaimable e t)) \<and>
    (\<forall>k. k \<notin> oe_ID ` set out \<longrightarrow> outbox_table d' k = outbox_table d k) \<and>
    (\<forall>k e. outbox_table d k = Some e \<longrightarrow> isClaimable e now \<longrightarrow> k \<notin> oe_ID ` set out \<longrightarrow>
       int (length out) = limit \<and>
       (\<forall>p \<in> set out. (oe_AvailableAt p, oe_ID p) \<le> (oe_AvailableAt e, k)))"
proof -
  let ?p = "claim_picked now limit (map snd (od_rows d))"
  note ok = outbox_Claim_ok [OF assms]
  note row = claim_picked_row [OF assms(1)]
  have len: "length out = length ?p" and le: "length ?p \<le> nat limit"
    using ok(2) by (auto simp: claim_picked_eq)
  have each: "\<exists>e0. outbox_table d (oe_ID e) = Some e0 \<and> isClaimable e0 now \<and>
       outbox_table d' (oe_ID e) = Some e \<and> oe_Attempts e = oe_Attempts e0 + 1 \<and> same_event e0 e \<and>
       (\<forall>t. now \<le> t \<and> t < now + lease \<longrightarrow> \<not> isClaimable e t)" if "e \<in> set out" for e
    using that row [of _ now limit] ok(3) set_claim_picked [of _ now limit]
    by (auto simp: ok(2) claimable_where)
  have others: "outbox_table d' k = outbox_table d k" if "k \<notin> oe_ID ` set out" for k
    using that outbox_invD(2) [OF assms(1), of k]
    by (fastforce simp: ok(2) ok(3) image_image split: option.split)
  have behind: "int (length out) = limit \<and>
       (\<forall>p \<in> set out. (oe_AvailableAt p, oe_ID p) \<le> (oe_AvailableAt e, k))"
    if e: "outbox_table d k = Some e" "isClaimable e now" "k \<notin> oe_ID ` set out" for k e
  proof -
    have k: "oe_ID e = k" using outbox_invD(2) [OF assms(1) e(1)] .
    have "e \<in> set (map snd (od_rows d))" using e(1) by (force dest: map_of_SomeD)
    moreover have "oe_ID ` set out = oe_ID ` set ?p" by (simp add: ok(2) image_image)
    then have "e \<notin> set ?p" using e(3) k by blast
    ultimately have "nat limit \<le> length ?p \<and>
        (\<forall>p \<in> set ?p. (oe_AvailableAt p, oe_ID p) \<le> (oe_AvailableAt e, oe_ID e))"
      using e(2) by (intro claim_picked_prefix)
    moreover have "(oe_AvailableAt q, oe_ID q) \<in> (\<lambda>p. (oe_AvailableAt p, oe_ID p)) ` set ?p"
      if "q \<in> set out" for q
      using that by (auto simp: ok(2) claim_set_def)
    ultimately show ?thesis using k len le ok(1) by fastforce
  qed
  have "int (length out) \<le> limit" using len le ok(1) by linarith
  moreover have "distinct (map oe_ID out)"
    using claim_picked_distinct [OF assms(1)] by (simp add: ok(2) comp_def)
  ultimately show ?thesis using each others behind by blast
qed

theorem outbox_claim_leases_witness:
  "\<exists>d' out. outbox_Claim background 5 10 2 sample_outbox = (d', Inr out) \<and> length out = 1 \<and>
     (\<forall>e \<in> set out. \<not> isClaimable e 14)"
proof -
  have "isClaimable (sample_event 1) 5" by (simp add: isClaimable_def sample_event_def)
  then have "claim_picked 5 2 [sample_event 1] = [sample_event 1]" by (simp add: claim_picked_eq)
  then have "\<exists>d'. outbox_Claim background 5 10 2 sample_outbox =
      (d', Inr [claim_set 5 10 (sample_event 1)])"
    by (simp add: outbox_Claim_def outbox_exec_def background_def gmaperr_apply sample_outbox_def)
  then obtain d' where cl: "outbox_Claim background 5 10 2 sample_outbox =
      (d', Inr [claim_set 5 10 (sample_event 1)])" by blast
  have "\<forall>t. 5 \<le> t \<and> t < 5 + 10 \<longrightarrow> \<not> isClaimable (claim_set 5 10 (sample_event 1)) t"
    using outbox_claim_leases [OF sample_outbox_inv cl, THEN conjunct2, THEN conjunct2, THEN conjunct1]
    unfolding list.set by blast
  then have "\<not> isClaimable (claim_set 5 10 (sample_event 1)) 14" by simp
  with cl show ?thesis by simp
qed

text \<open>C12. Durability. Whatever statements run, in whatever order, with failures in between, every event
  that was inserted is still there under its identifier, with its type, version, aggregate, payload,
  idempotency key and creation time unchanged and its attempts not decreased; a completed event does
  not change at all any more, and the table invariant (unique identifiers and idempotency keys, the
  constraints of the migration) still holds.\<close>

theorem outbox_durable:
  assumes "outbox_step\<^sup>*\<^sup>* d d'" and "outbox_inv d" and "outbox_table d k = Some e"
  shows "outbox_inv d' \<and>
    (\<exists>f. outbox_table d' k = Some f \<and> same_event e f \<and> oe_Attempts e \<le> oe_Attempts f \<and>
         (oe_CompletedAt e \<noteq> None \<longrightarrow> f = e))"
  using keeps_rows_history [OF assms(1,2)] assms(3) unfolding keeps_rows_def row_later_def by blast

theorem outbox_durable_witness:
  "\<exists>d' f. outbox_step sample_outbox d' \<and> outbox_table d' (id_n 1) = Some f \<and> same_event (sample_event 1) f"
proof -
  obtain d' r where "outbox_Complete background (id_n 1) 7 sample_outbox = (d', r)" by fastforce
  then have st: "outbox_step sample_outbox d'" by (rule outbox_step.Complete)
  then have run: "outbox_step\<^sup>*\<^sup>* sample_outbox d'" by (rule r_into_rtranclp)
  have "outbox_table sample_outbox (id_n 1) = Some (sample_event 1)" by (simp add: sample_outbox_def)
  from outbox_durable [OF run sample_outbox_inv this] st show ?thesis by blast
qed

text \<open>Enqueueing is idempotent and never half-done. For an event that passes the Go validation the
  insert has one way to fail while the database is up: an event with the same identifier or the same
  idempotency key is already there, and then the table is left as it is. In particular the validation
  implies every CHECK constraint of the table.\<close>

theorem outbox_insert_validated:
  assumes "outbox_inv d" and "event_Validate letter e = None"
    and "ctx_Err c = None" and "od_fail d = None"
  shows "outbox_Insert c e d =
    (if outbox_table d (oe_ID e) \<noteq> None \<or>
        (oe_IdempotencyKey e \<noteq> None \<and>
         (\<exists>k f. outbox_table d k = Some f \<and> oe_IdempotencyKey f = oe_IdempotencyKey e))
     then (d, Inl (ObErr Ob_ErrConflict))
     else (d\<lparr>od_rows := AList.update (oe_ID e) e (od_rows d)\<rparr>, Inr ()))"
  using assms(3,4) event_Validate_check [OF assms(2)] outbox_taken_iff [OF assms(1), of e]
  by (simp add: outbox_Insert_def outbox_exec_def gmaperr_apply ob_mapDBErr_def)

theorem outbox_insert_validated_witness:
  "outbox_Insert background (sample_event 2) sample_outbox =
     (sample_outbox, Inl (ObErr Ob_ErrConflict))"
proof -
  have "\<exists>k f. outbox_table sample_outbox k = Some f \<and> oe_IdempotencyKey f = Some ''k''"
    by (rule exI [of _ "id_n 1"]) (simp add: sample_outbox_def sample_event_def)
  moreover have "oe_IdempotencyKey (sample_event 2) = Some ''k''"
    by (simp add: sample_event_def)
  ultimately show ?thesis
    using outbox_insert_validated [OF sample_outbox_inv sample_event_valid, of 2 background]
    by (simp add: background_def sample_outbox_def)
qed

text \<open>C37. No secrets. \<open>rejectSensitive\<close> accepts a document exactly when no object anywhere inside it,
  at any depth, has a member whose name reads as one of the sensitive words.\<close>

theorem rejectSensitive_iff:
  "rejectSensitive letter v = None \<longleftrightarrow>
     \<not> (\<exists>ms k. json_inside v (JObj ms) \<and> k \<in> fst ` set (json_map ms) \<and> sensitiveKey letter k)"
proof
  assume ok: "rejectSensitive letter v = None"
  have "\<not> sensitiveKey letter k" if "json_inside v (JObj ms)" "k \<in> fst ` set (json_map ms)" for ms k
    using rejectSensitive_inside [OF that(1) ok] that(2) by (auto simp: list_ex_iff split: if_splits)
  then show "\<not> (\<exists>ms k. json_inside v (JObj ms) \<and> k \<in> fst ` set (json_map ms) \<and> sensitiveKey letter k)"
    by blast
qed (blast intro: rejectSensitive_complete)

end
