(* ===== verification/Offers.thy ===== *)
theory Offers
  imports Needs Outbox
begin

text \<open>
  The package \<open>offers\<close>: the Offer and its life cycle (\<open>domain.go\<close>), the in-memory store with the
  exclusive acceptance (\<open>memory.go\<close>), the service (\<open>service.go\<close>), its events (\<open>events.go\<close>,
  \<open>contracts/events.go\<close>) and the read surface for other packages (\<open>lookup.go\<close>). Status values that a
  package compares with string literals of another package are written with that package's constants.
\<close>

section \<open>Data\<close>

definition MaxMessageRunes :: nat where "MaxMessageRunes = 2000"

definition OfferSubmitted :: string where "OfferSubmitted = ''submitted''"
definition OfferWithdrawn :: string where "OfferWithdrawn = ''withdrawn''"
definition OfferAccepted :: string where "OfferAccepted = ''accepted''"
definition OfferRejected :: string where "OfferRejected = ''rejected''"
definition OfferExpired :: string where "OfferExpired = ''expired''"

lemmas offer_status_defs =
  OfferSubmitted_def OfferWithdrawn_def OfferAccepted_def OfferRejected_def OfferExpired_def

lemma offer_status_neq [simp]:
  "OfferSubmitted \<noteq> OfferWithdrawn" "OfferSubmitted \<noteq> OfferAccepted" "OfferSubmitted \<noteq> OfferRejected" "OfferSubmitted \<noteq> OfferExpired"
  "OfferWithdrawn \<noteq> OfferSubmitted" "OfferWithdrawn \<noteq> OfferAccepted" "OfferWithdrawn \<noteq> OfferRejected" "OfferWithdrawn \<noteq> OfferExpired"
  "OfferAccepted \<noteq> OfferSubmitted" "OfferAccepted \<noteq> OfferWithdrawn" "OfferAccepted \<noteq> OfferRejected" "OfferAccepted \<noteq> OfferExpired"
  "OfferRejected \<noteq> OfferSubmitted" "OfferRejected \<noteq> OfferWithdrawn" "OfferRejected \<noteq> OfferAccepted" "OfferRejected \<noteq> OfferExpired"
  "OfferExpired \<noteq> OfferSubmitted" "OfferExpired \<noteq> OfferWithdrawn" "OfferExpired \<noteq> OfferAccepted" "OfferExpired \<noteq> OfferRejected"
  by (simp_all add: offer_status_defs)

definition offer_status_valid :: "string \<Rightarrow> bool" where
  "offer_status_valid s \<longleftrightarrow>
     s = OfferSubmitted \<or> s = OfferWithdrawn \<or> s = OfferAccepted \<or> s = OfferRejected \<or> s = OfferExpired"

definition offer_status_Terminal :: "string \<Rightarrow> bool" where
  "offer_status_Terminal s \<longleftrightarrow>
     s = OfferWithdrawn \<or> s = OfferAccepted \<or> s = OfferRejected \<or> s = OfferExpired"

definition offer_ParseID :: "string \<Rightarrow> ID res" where
  "offer_ParseID = ParseID (OfferErr Offer_errInvalidOffer) (OfferErr Offer_errZeroID)"

text \<open>
  A price, as \<open>offers\<close>, \<open>transactions\<close> and \<open>payments\<close> have it, and its normalisation with the error the
  package returns.
\<close>

record price =
  Amount :: string
  Currency :: string

definition price_normalized :: "go_error \<Rightarrow> price option \<Rightarrow> price option res" where
  "price_normalized errInvalidPrice p =
     (case p of
        None \<Rightarrow> Inr None
      | Some p \<Rightarrow>
          let amt = strings_TrimSpace (Amount p); cur = strings_TrimSpace (Currency p)
          in if amt = [] \<and> cur = [] then Inr None
             else if amt = [] \<or> cur = [] then Inl errInvalidPrice
             else if \<not> amountPattern amt \<or> \<not> currencyPattern cur then Inl errInvalidPrice
             else if big_Rat_SetString amt = None then Inl errInvalidPrice
             else Inr (Some \<lparr>Amount = amt, Currency = cur\<rparr>))"

definition offer_price_normalized :: "price option \<Rightarrow> price option res" where
  "offer_price_normalized = price_normalized (OfferErr Offer_errInvalidPrice)"

record offer_content =
  oc_NeedID :: ID
  oc_ProviderBusinessID :: ID
  oc_ServiceID :: ID
  oc_Message :: string
  oc_Price :: "price option"

definition normalizeMessage :: "string \<Rightarrow> string res" where
  "normalizeMessage raw =
     (let trimmed = strings_TrimSpace raw in
      if trimmed = [] then Inr []
      else if MaxMessageRunes < utf8_RuneCountInString trimmed
        then Inl (OfferErr Offer_errInvalidMessage)
      else if list_ex (\<lambda>u. text_rune_bad (fst u)) (runes trimmed)
        then Inl (OfferErr Offer_errInvalidMessage)
      else Inr trimmed)"

definition offer_content_normalized :: "offer_content \<Rightarrow> offer_content res" where
  "offer_content_normalized c =
     (if ID_IsZero (oc_NeedID c) \<or> ID_IsZero (oc_ProviderBusinessID c) \<or> ID_IsZero (oc_ServiceID c)
        then Inl (OfferErr Offer_errZeroID)
      else case normalizeMessage (oc_Message c) of Inl e \<Rightarrow> Inl e | Inr msg \<Rightarrow>
      case offer_price_normalized (oc_Price c) of Inl e \<Rightarrow> Inl e | Inr price \<Rightarrow>
      Inr \<lparr>oc_NeedID = oc_NeedID c, oc_ProviderBusinessID = oc_ProviderBusinessID c,
           oc_ServiceID = oc_ServiceID c, oc_Message = msg, oc_Price = price\<rparr>)"

record offer =
  offer_ID :: ID
  offer_NeedID :: ID
  offer_ProviderBusinessID :: ID
  offer_ServiceID :: ID
  offer_ProviderUserID :: ID
  offer_Message :: string
  offer_Price :: "price option"
  offer_Status :: string
  offer_CreatedAt :: time
  offer_UpdatedAt :: time

definition offer_Validate :: "offer \<Rightarrow> go_error option" where
  "offer_Validate o' =
     (if ID_IsZero (offer_ID o') \<or> ID_IsZero (offer_NeedID o') \<or>
         ID_IsZero (offer_ProviderBusinessID o') \<or> ID_IsZero (offer_ServiceID o') \<or>
         ID_IsZero (offer_ProviderUserID o')
        then Some (OfferErr Offer_errZeroID)
      else if \<not> offer_status_valid (offer_Status o') then Some (OfferErr Offer_errInvalidStatus)
      else case normalizeMessage (offer_Message o') of Inl e \<Rightarrow> Some e | Inr _ \<Rightarrow>
      if offer_Message o' \<noteq> strings_TrimSpace (offer_Message o')
        then Some (OfferErr Offer_errInvalidMessage)
      else case offer_price_normalized (offer_Price o') of Inl e \<Rightarrow> Some e | Inr _ \<Rightarrow>
      if time_IsZero (offer_CreatedAt o') \<or> time_Before (offer_UpdatedAt o') (offer_CreatedAt o')
        then Some (OfferErr Offer_errInvalidOffer)
      else None)"

definition cloneOffer :: "offer \<Rightarrow> offer" where
  [simp]: "cloneOffer o' = o'"

section \<open>Life cycle\<close>

definition offer_Submit :: "ID \<Rightarrow> offer_content \<Rightarrow> time \<Rightarrow> ID option \<Rightarrow> offer res" where
  "offer_Submit providerUserID content now entropy =
     (if ID_IsZero providerUserID then Inl (OfferErr Offer_errZeroID)
      else if time_IsZero now then Inl (OfferErr Offer_errInvalidOffer)
      else case offer_content_normalized content of Inl e \<Rightarrow> Inl e | Inr content \<Rightarrow>
      case NewID entropy of None \<Rightarrow> Inl (OfferErr Offer_errUnavailable) | Some i \<Rightarrow>
      let o' = \<lparr>offer_ID = i, offer_NeedID = oc_NeedID content,
                offer_ProviderBusinessID = oc_ProviderBusinessID content,
                offer_ServiceID = oc_ServiceID content, offer_ProviderUserID = providerUserID,
                offer_Message = oc_Message content, offer_Price = oc_Price content,
                offer_Status = OfferSubmitted, offer_CreatedAt = time_UTC now,
                offer_UpdatedAt = time_UTC now\<rparr>
      in case offer_Validate o' of Some e \<Rightarrow> Inl e | None \<Rightarrow> Inr o')"

definition offer_transition :: "offer \<Rightarrow> string \<Rightarrow> time \<Rightarrow> offer res" where
  "offer_transition o' nxt now =
     (if time_Before now (offer_CreatedAt o') then Inl (OfferErr Offer_errInvalidOffer)
      else let n = o'\<lparr>offer_Status := nxt, offer_UpdatedAt := time_UTC now\<rparr>
           in case offer_Validate n of Some e \<Rightarrow> Inl e | None \<Rightarrow> Inr n)"

definition offer_Withdraw :: "offer \<Rightarrow> time \<Rightarrow> offer res" where
  "offer_Withdraw o' now =
     (if offer_Status o' \<noteq> OfferSubmitted then Inl (OfferErr Offer_errInvalidTransition)
      else offer_transition o' OfferWithdrawn now)"

definition offer_Accept :: "offer \<Rightarrow> time \<Rightarrow> offer res" where
  "offer_Accept o' now =
     (if offer_Status o' \<noteq> OfferSubmitted then Inl (OfferErr Offer_errInvalidTransition)
      else offer_transition o' OfferAccepted now)"

definition offer_Reject :: "offer \<Rightarrow> time \<Rightarrow> offer res" where
  "offer_Reject o' now =
     (if offer_Status o' \<noteq> OfferSubmitted then Inl (OfferErr Offer_errInvalidTransition)
      else offer_transition o' OfferRejected now)"

definition offer_Expire :: "offer \<Rightarrow> time \<Rightarrow> offer res" where
  "offer_Expire o' now =
     (if offer_Status o' \<noteq> OfferSubmitted then Inl (OfferErr Offer_errInvalidTransition)
      else offer_transition o' OfferExpired now)"

section \<open>The in-memory store\<close>

record offer_mem =
  om_byID :: "(ID, offer) gomap"
  om_fail :: "go_error option"

definition offer_NewMemoryStore :: offer_mem where
  "offer_NewMemoryStore = \<lparr>om_byID = [], om_fail = None\<rparr>"

definition offer_mem_SetFail :: "go_error option \<Rightarrow> offer_mem \<Rightarrow> offer_mem" where
  "offer_mem_SetFail err m = m\<lparr>om_fail := err\<rparr>"

definition offer_mem_Create :: "ctx \<Rightarrow> offer \<Rightarrow> (offer_mem, unit) go" where
  "offer_mem_Create c offer = (\<lambda>m.
     gguard (ctx_Err c) (gguard (om_fail m) (gguard (offer_Validate offer)
       (if map_of (om_byID m) (offer_ID offer) \<noteq> None then gfail (OfferErr Offer_errConflict)
        else if offer_Status offer = OfferSubmitted \<and>
            list_ex (\<lambda>existing. offer_NeedID existing = offer_NeedID offer \<and>
              offer_ServiceID existing = offer_ServiceID offer \<and>
              offer_Status existing = OfferSubmitted) (map snd (om_byID m))
          then gfail (OfferErr Offer_errConflict)
        else if offer_Status offer = OfferAccepted \<and>
            list_ex (\<lambda>existing. offer_NeedID existing = offer_NeedID offer \<and>
              offer_Status existing = OfferAccepted) (map snd (om_byID m))
          then gfail (OfferErr Offer_errConflict)
        else (\<lambda>m. (m\<lparr>om_byID := AList.update (offer_ID offer) (cloneOffer offer) (om_byID m)\<rparr>,
                   Inr ()))))) m)"

definition offer_mem_Get :: "ctx \<Rightarrow> ID \<Rightarrow> (offer_mem, offer) go" where
  "offer_mem_Get c i = (\<lambda>m.
     gguard (ctx_Err c) (gguard (om_fail m)
       (case map_of (om_byID m) i of
          None \<Rightarrow> gfail (OfferErr Offer_errNotFound)
        | Some offer \<Rightarrow> gret (cloneOffer offer))) m)"

definition sortOffers :: "offer list \<Rightarrow> offer list" where
  "sortOffers = newest_first offer_CreatedAt offer_ID"

definition offer_mem_ListByNeed :: "ctx \<Rightarrow> ID \<Rightarrow> (offer_mem, offer list) go" where
  "offer_mem_ListByNeed c needID = (\<lambda>m.
     gguard (ctx_Err c) (gguard (om_fail m)
       (gret (sortOffers (map cloneOffer
         (filter (\<lambda>o'. offer_NeedID o' = needID) (map snd (om_byID m))))))) m)"

definition offer_mem_ListByProvider :: "ctx \<Rightarrow> ID \<Rightarrow> (offer_mem, offer list) go" where
  "offer_mem_ListByProvider c providerUserID = (\<lambda>m.
     gguard (ctx_Err c) (gguard (om_fail m)
       (gret (sortOffers (map cloneOffer
         (filter (\<lambda>o'. offer_ProviderUserID o' = providerUserID) (map snd (om_byID m))))))) m)"

definition offer_mem_FindSubmitted :: "ctx \<Rightarrow> ID \<Rightarrow> ID \<Rightarrow> (offer_mem, offer) go" where
  "offer_mem_FindSubmitted c needID serviceID = (\<lambda>m.
     gguard (ctx_Err c) (gguard (om_fail m)
       (case find (\<lambda>o'. offer_NeedID o' = needID \<and> offer_ServiceID o' = serviceID \<and>
                       offer_Status o' = OfferSubmitted) (map snd (om_byID m)) of
          None \<Rightarrow> gfail (OfferErr Offer_errNotFound)
        | Some o' \<Rightarrow> gret (cloneOffer o'))) m)"

definition offer_mem_Update :: "ctx \<Rightarrow> offer \<Rightarrow> time \<Rightarrow> (offer_mem, unit) go" where
  "offer_mem_Update c offer expectedUpdatedAt = (\<lambda>m.
     gguard (ctx_Err c) (gguard (om_fail m) (gguard (offer_Validate offer)
       (case map_of (om_byID m) (offer_ID offer) of
          None \<Rightarrow> gfail (OfferErr Offer_errNotFound)
        | Some current \<Rightarrow>
            if \<not> time_Equal (offer_UpdatedAt current) expectedUpdatedAt
              then gfail (OfferErr Offer_errConflict)
            else (\<lambda>m. (m\<lparr>om_byID := AList.update (offer_ID offer) (cloneOffer offer) (om_byID m)\<rparr>,
                       Inr ()))))) m)"

text \<open>
  The loop of \<open>AcceptExclusive\<close> over the entries of the map: the submitted siblings are rejected one
  by one, and an error stops it where it is.
\<close>

fun reject_siblings ::
  "ID \<Rightarrow> ID \<Rightarrow> time \<Rightarrow> (ID \<times> offer) list \<Rightarrow> (ID, offer) gomap \<Rightarrow> (ID, offer) gomap \<times> go_error option" where
  "reject_siblings offerID needID now [] m = (m, None)"
| "reject_siblings offerID needID now ((i, other) # es) m =
     (if i = offerID \<or> offer_NeedID other \<noteq> needID \<or> offer_Status other \<noteq> OfferSubmitted
        then reject_siblings offerID needID now es m
      else case offer_Reject other now of
          Inl err \<Rightarrow> (m, Some err)
        | Inr rejected \<Rightarrow>
            reject_siblings offerID needID now es (AList.update i (cloneOffer rejected) m))"

definition offer_mem_AcceptExclusive :: "ctx \<Rightarrow> ID \<Rightarrow> ID \<Rightarrow> time \<Rightarrow> (offer_mem, offer) go" where
  "offer_mem_AcceptExclusive c offerID needID now = (\<lambda>m.
     gguard (ctx_Err c) (gguard (om_fail m)
       (case map_of (om_byID m) offerID of
          None \<Rightarrow> gfail (OfferErr Offer_errNotFound)
        | Some current \<Rightarrow>
            if offer_NeedID current \<noteq> needID then gfail (OfferErr Offer_errNotFound)
            else if offer_Status current = OfferAccepted then gret (cloneOffer current)
            else if list_ex (\<lambda>other. offer_NeedID other = needID \<and>
                offer_Status other = OfferAccepted) (map snd (om_byID m))
              then gfail (OfferErr Offer_errConflict)
            else case offer_Accept current now of
                Inl err \<Rightarrow> gfail err
              | Inr nxt \<Rightarrow> (\<lambda>m.
                  let accepted = AList.update offerID (cloneOffer nxt) (om_byID m)
                  in case reject_siblings offerID needID now accepted accepted of
                      (rows, Some err) \<Rightarrow> (m\<lparr>om_byID := rows\<rparr>, Inl err)
                    | (rows, None) \<Rightarrow> (m\<lparr>om_byID := rows\<rparr>, Inr (cloneOffer nxt))))) m)"

section \<open>Events\<close>

definition OfferEventSubmitted :: string where "OfferEventSubmitted = ''offers.offer.submitted''"
definition OfferEventAccepted :: string where "OfferEventAccepted = ''offers.offer.accepted''"
definition OfferEventRejected :: string where "OfferEventRejected = ''offers.offer.rejected''"

record offer_transition_payload =
  otp_OfferID :: string
  otp_NeedID :: string
  otp_ProviderUserID :: string
  otp_RequesterUserID :: string
  otp_ActorUserID :: string
  otp_Transition :: string

definition offer_payload_json :: "offer_transition_payload \<Rightarrow> json" where
  "offer_payload_json p = json_object
     [(''offer_id'', otp_OfferID p), (''need_id'', otp_NeedID p),
      (''provider_user_id'', otp_ProviderUserID p), (''requester_user_id'', otp_RequesterUserID p),
      (''actor_user_id'', otp_ActorUserID p), (''transition'', otp_Transition p)]"

definition offer_DecodeTransition :: "json option \<Rightarrow> offer_transition_payload res" where
  "offer_DecodeTransition raw =
     (case json_Unmarshal_strings [''offer_id'', ''need_id'', ''provider_user_id'',
          ''requester_user_id'', ''actor_user_id'', ''transition''] raw of
        None \<Rightarrow> Inl (OfferCErr OfferC_ErrInvalidEvent)
      | Some acc \<Rightarrow>
          let f = (\<lambda>k. strings_TrimSpace (string_field acc k));
              p = \<lparr>otp_OfferID = f ''offer_id'', otp_NeedID = f ''need_id'',
                   otp_ProviderUserID = f ''provider_user_id'',
                   otp_RequesterUserID = f ''requester_user_id'',
                   otp_ActorUserID = f ''actor_user_id'', otp_Transition = f ''transition''\<rparr>
          in if otp_OfferID p = [] \<or> otp_NeedID p = [] \<or> otp_ProviderUserID p = [] \<or>
                otp_RequesterUserID p = [] \<or> otp_ActorUserID p = [] \<or> otp_Transition p = []
             then Inl (OfferCErr OfferC_ErrInvalidEvent) else Inr p)"

definition encodeOfferTransition :: "string \<Rightarrow> string \<Rightarrow> offer \<Rightarrow> ID \<Rightarrow> ID \<Rightarrow> new_event res" where
  "encodeOfferTransition eventType tr offer requesterUserID actorUserID =
     (if ID_IsZero (offer_ID offer) \<or> ID_IsZero requesterUserID \<or> ID_IsZero actorUserID
        then Inl (OfferErr Offer_errUnavailable)
      else Inr \<lparr>ev_EventType = eventType, ev_EventVersion = 1, ev_AggregateType = ''offer'',
        ev_AggregateID = ID_String (offer_ID offer),
        ev_Payload = Some (offer_payload_json
          \<lparr>otp_OfferID = ID_String (offer_ID offer), otp_NeedID = ID_String (offer_NeedID offer),
           otp_ProviderUserID = ID_String (offer_ProviderUserID offer),
           otp_RequesterUserID = ID_String requesterUserID,
           otp_ActorUserID = ID_String actorUserID, otp_Transition = tr\<rparr>),
        ev_IdempotencyKey = eventType @ '':'' @ ID_String (offer_ID offer) @ '':'' @ tr,
        ev_CorrelationID = []\<rparr>)"

section \<open>The service\<close>

record 'w offer_store =
  ofs_Create :: "ctx \<Rightarrow> offer \<Rightarrow> ('w, unit) go"
  ofs_Get :: "ctx \<Rightarrow> ID \<Rightarrow> ('w, offer) go"
  ofs_ListByNeed :: "ctx \<Rightarrow> ID \<Rightarrow> ('w, offer list) go"
  ofs_ListByProvider :: "ctx \<Rightarrow> ID \<Rightarrow> ('w, offer list) go"
  ofs_FindSubmitted :: "ctx \<Rightarrow> ID \<Rightarrow> ID \<Rightarrow> ('w, offer) go"
  ofs_Update :: "ctx \<Rightarrow> offer \<Rightarrow> time \<Rightarrow> ('w, unit) go"
  ofs_AcceptExclusive :: "ctx \<Rightarrow> ID \<Rightarrow> ID \<Rightarrow> time \<Rightarrow> ('w, offer) go"

definition offer_mem_store ::
  "('w \<Rightarrow> offer_mem) \<Rightarrow> ((offer_mem \<Rightarrow> offer_mem) \<Rightarrow> 'w \<Rightarrow> 'w) \<Rightarrow> 'w offer_store" where
  "offer_mem_store get upd =
     \<lparr>ofs_Create = (\<lambda>c o'. zoom get upd (offer_mem_Create c o')),
      ofs_Get = (\<lambda>c i. zoom get upd (offer_mem_Get c i)),
      ofs_ListByNeed = (\<lambda>c n. zoom get upd (offer_mem_ListByNeed c n)),
      ofs_ListByProvider = (\<lambda>c u. zoom get upd (offer_mem_ListByProvider c u)),
      ofs_FindSubmitted = (\<lambda>c n s. zoom get upd (offer_mem_FindSubmitted c n s)),
      ofs_Update = (\<lambda>c o' v. zoom get upd (offer_mem_Update c o' v)),
      ofs_AcceptExclusive = (\<lambda>c o' n t. zoom get upd (offer_mem_AcceptExclusive c o' n t))\<rparr>"

text \<open>
  The contract \<open>needs/contracts.Lookup\<close> as its callers hold it, and the parts of
  \<open>businesses/contracts\<close> the service calls: ownership of a business and the eligibility check.
\<close>

record 'w need_lookup =
  nl_GetNeed :: "ctx \<Rightarrow> ID \<Rightarrow> ('w, NeedRef) go"
  nl_AssertOwnedBy :: "ctx \<Rightarrow> ID \<Rightarrow> ID \<Rightarrow> ('w, unit) go"

definition need_lookup_of :: "'w need_service \<Rightarrow> 'w need_lookup" where
  "need_lookup_of s = \<lparr>nl_GetNeed = need_GetNeed s, nl_AssertOwnedBy = need_AssertOwnedBy s\<rparr>"

record eligibility_check =
  ec_BusinessID :: ID
  ec_ServiceID :: ID
  ec_Latitude :: float64
  ec_Longitude :: float64
  ec_RadiusKm :: float64
  ec_CategoryID :: "ID option"

record 'w offer_service =
  osv_store :: "'w offer_store option"
  osv_needs :: "'w need_lookup option"
  osv_eligibility :: "(ctx \<Rightarrow> eligibility_check \<Rightarrow> ('w, service_candidate) go) option"
  osv_businessOwner :: "(ctx \<Rightarrow> ID \<Rightarrow> ID \<Rightarrow> ('w, unit) go) option"
  osv_now :: "'w \<Rightarrow> 'w \<times> time"
  osv_rand :: "'w \<Rightarrow> 'w \<times> ID option"
  osv_tx :: "'w transactor option"
  osv_outbox :: "'w enqueuer option"

definition offer_mapNeedErr :: "go_error \<Rightarrow> go_error" where
  [err_defs]: "offer_mapNeedErr err =
     (if err = NeedCErr NeedC_ErrZeroID then OfferErr Offer_errZeroID
      else if err = NeedCErr NeedC_ErrNotFound \<or> err = NeedCErr NeedC_ErrForbidden
        then OfferErr Offer_errNotFound
      else if ctx_error err then err
      else OfferErr Offer_errUnavailable)"

definition offer_mapBizErr :: "go_error \<Rightarrow> go_error" where
  [err_defs]: "offer_mapBizErr err =
     (if err = BizCErr BizC_ErrZeroID then OfferErr Offer_errZeroID
      else if err = BizCErr BizC_ErrNotFound \<or> err = BizCErr BizC_ErrForbidden
        then OfferErr Offer_errNotFound
      else if ctx_error err then err
      else OfferErr Offer_errUnavailable)"

definition offer_mapStoreErr :: "go_error \<Rightarrow> go_error" where
  [err_defs]: "offer_mapStoreErr err =
     (if ctx_error err then err
      else if err = OfferErr Offer_errNotFound \<or> err = DbErr Db_ErrNoRows
        then OfferErr Offer_errNotFound
      else if err = OfferErr Offer_errConflict \<or> err = DbErr Db_ErrConflict
        then OfferErr Offer_errConflict
      else if err = OfferErr Offer_errUnavailable \<or> err = DbErr Db_ErrUnavailable
        then OfferErr Offer_errUnavailable
      else if err \<in> OfferErr ` {Offer_errStoreRequired, Offer_errZeroID, Offer_errInvalidOffer,
            Offer_errInvalidStatus, Offer_errInvalidTransition, Offer_errInvalidMessage,
            Offer_errInvalidPrice, Offer_errForbidden, Offer_errNotEligible}
        then err
      else OfferErr Offer_errUnavailable)"

definition offer_enqueueTransition ::
  "'w offer_service \<Rightarrow> ctx \<Rightarrow> string \<Rightarrow> string \<Rightarrow> offer \<Rightarrow> ID \<Rightarrow> ID \<Rightarrow> ('w, unit) go" where
  "offer_enqueueTransition s c eventType tr offer requesterUserID actorUserID =
     enqueue_event offer_mapStoreErr (osv_outbox s) c
       (encodeOfferTransition eventType tr offer requesterUserID actorUserID)"

definition offer_runMaybeTx :: "'w offer_service \<Rightarrow> ctx \<Rightarrow> (ctx \<Rightarrow> ('w, 'a) go) \<Rightarrow> ('w, 'a) go" where
  "offer_runMaybeTx s = run_maybe_tx offer_mapStoreErr (osv_outbox s) (osv_tx s)"

definition offer_svc_get :: "'w offer_service \<Rightarrow> ctx \<Rightarrow> ID \<Rightarrow> ('w, offer) go" where
  "offer_svc_get s c i =
     gneed (osv_store s) (OfferErr Offer_errStoreRequired) (\<lambda>st.
       if ID_IsZero i then gfail (OfferErr Offer_errZeroID)
       else gmaperr offer_mapStoreErr (ofs_Get st c i))"

definition offer_svc_getNeed :: "'w offer_service \<Rightarrow> ctx \<Rightarrow> ID \<Rightarrow> ('w, NeedRef) go" where
  "offer_svc_getNeed s c needID =
     gneed (osv_needs s) (OfferErr Offer_errUnavailable) (\<lambda>needs.
       if ID_IsZero needID then gfail (OfferErr Offer_errZeroID)
       else gmaperr offer_mapNeedErr (nl_GetNeed needs c needID))"

definition offer_requireOpenNeed :: "'w offer_service \<Rightarrow> ctx \<Rightarrow> ID \<Rightarrow> ('w, NeedRef) go" where
  "offer_requireOpenNeed s c needID =
     gbind (offer_svc_getNeed s c needID) (\<lambda>need.
       if nr_Status need \<noteq> NeedOpen then gfail (OfferErr Offer_errNotFound) else gret need)"

definition offer_assertNeedOwner :: "'w offer_service \<Rightarrow> ctx \<Rightarrow> ID \<Rightarrow> ID \<Rightarrow> ('w, unit) go" where
  "offer_assertNeedOwner s c needID userID =
     gneed (osv_needs s) (OfferErr Offer_errUnavailable) (\<lambda>needs.
       if ID_IsZero needID \<or> ID_IsZero userID then gfail (OfferErr Offer_errZeroID)
       else gmaperr offer_mapNeedErr (nl_AssertOwnedBy needs c needID userID))"

definition offer_assertBusinessOwner :: "'w offer_service \<Rightarrow> ctx \<Rightarrow> ID \<Rightarrow> ID \<Rightarrow> ('w, unit) go" where
  "offer_assertBusinessOwner s c businessID userID =
     gneed (osv_businessOwner s) (OfferErr Offer_errUnavailable) (\<lambda>owner.
       gcase (owner c businessID userID)
         (\<lambda>err. gfail (if err = BizCErr BizC_ErrForbidden then OfferErr Offer_errNotFound
                       else offer_mapBizErr err))
         (\<lambda>_. gret ()))"

definition offer_eligibility_check :: "NeedRef \<Rightarrow> ID \<Rightarrow> ID \<Rightarrow> eligibility_check" where
  "offer_eligibility_check need businessID serviceID =
     \<lparr>ec_BusinessID = businessID, ec_ServiceID = serviceID, ec_Latitude = nr_Latitude need,
      ec_Longitude = nr_Longitude need,
      ec_RadiusKm = (case nr_RadiusKm need of None \<Rightarrow> DefaultMatchRadiusKm | Some r \<Rightarrow> r),
      ec_CategoryID = nr_CategoryID need\<rparr>"

definition offer_assertEligible :: "'w offer_service \<Rightarrow> ctx \<Rightarrow> NeedRef \<Rightarrow> ID \<Rightarrow> ID \<Rightarrow> ('w, unit) go" where
  "offer_assertEligible s c need businessID serviceID =
     gneed (osv_eligibility s) (OfferErr Offer_errUnavailable) (\<lambda>chk.
       gcase (chk c (offer_eligibility_check need businessID serviceID))
         (\<lambda>err. gfail (if err = BizCErr BizC_ErrNotFound then OfferErr Offer_errNotEligible
                       else offer_mapBizErr err))
         (\<lambda>_. gret ()))"

definition offer_svc_listByNeed :: "'w offer_service \<Rightarrow> ctx \<Rightarrow> ID \<Rightarrow> ('w, offer list) go" where
  "offer_svc_listByNeed s c needID =
     gneed (osv_store s) (OfferErr Offer_errStoreRequired) (\<lambda>st.
       gmaperr offer_mapStoreErr (ofs_ListByNeed st c needID))"

definition offer_svc_Create :: "'w offer_service \<Rightarrow> ctx \<Rightarrow> ID \<Rightarrow> offer_content \<Rightarrow> ('w, offer) go" where
  "offer_svc_Create s c providerUserID content =
     gneed (osv_store s) (OfferErr Offer_errStoreRequired) (\<lambda>st.
     if ID_IsZero providerUserID then gfail (OfferErr Offer_errZeroID)
     else gbind (gpure (offer_content_normalized content)) (\<lambda>content.
     gbind (offer_requireOpenNeed s c (oc_NeedID content)) (\<lambda>need.
     gbind (offer_assertBusinessOwner s c (oc_ProviderBusinessID content) providerUserID) (\<lambda>_.
     gbind (offer_assertEligible s c need (oc_ProviderBusinessID content) (oc_ServiceID content)) (\<lambda>_.
     gcase (ofs_FindSubmitted st c (oc_NeedID content) (oc_ServiceID content))
       (\<lambda>err.
         if err \<noteq> OfferErr Offer_errNotFound then gfail (offer_mapStoreErr err)
         else gread (osv_now s) (\<lambda>now. gread (osv_rand s) (\<lambda>entropy.
           gbind (gpure (offer_Submit providerUserID content (time_UTC now) entropy)) (\<lambda>offer.
           gcase (offer_runMaybeTx s c (\<lambda>c.
               gcase (ofs_Create st c offer) (\<lambda>e. gfail (offer_mapStoreErr e)) (\<lambda>_.
               offer_enqueueTransition s c OfferEventSubmitted ''submitted'' offer
                 (nr_RequesterUserID need) providerUserID)))
             (\<lambda>err.
               if err = OfferErr Offer_errConflict then
                 gcase (ofs_FindSubmitted st c (oc_NeedID content) (oc_ServiceID content))
                   (\<lambda>_. gfail (OfferErr Offer_errConflict))
                   (\<lambda>existing. if offer_ProviderUserID existing = providerUserID then gret existing
                               else gfail (OfferErr Offer_errConflict))
               else gfail err)
             (\<lambda>_. gret offer)))))
       (\<lambda>existing.
         if offer_ProviderUserID existing \<noteq> providerUserID \<or>
            offer_ProviderBusinessID existing \<noteq> oc_ProviderBusinessID content
           then gfail (OfferErr Offer_errConflict)
         else gret existing))))))"

definition offer_svc_ListForRequester :: "'w offer_service \<Rightarrow> ctx \<Rightarrow> ID \<Rightarrow> ID \<Rightarrow> ('w, offer list) go" where
  "offer_svc_ListForRequester s c requesterUserID needID =
     gbind (offer_assertNeedOwner s c needID requesterUserID) (\<lambda>_. offer_svc_listByNeed s c needID)"

definition offer_svc_ListMine :: "'w offer_service \<Rightarrow> ctx \<Rightarrow> ID \<Rightarrow> ('w, offer list) go" where
  "offer_svc_ListMine s c providerUserID =
     gneed (osv_store s) (OfferErr Offer_errStoreRequired) (\<lambda>st.
       if ID_IsZero providerUserID then gfail (OfferErr Offer_errZeroID)
       else gmaperr offer_mapStoreErr (ofs_ListByProvider st c providerUserID))"

definition offer_svc_Withdraw :: "'w offer_service \<Rightarrow> ctx \<Rightarrow> ID \<Rightarrow> ID \<Rightarrow> ('w, offer) go" where
  "offer_svc_Withdraw s c providerUserID offerID =
     gneed (osv_store s) (OfferErr Offer_errStoreRequired) (\<lambda>st.
     gbind (offer_svc_get s c offerID) (\<lambda>current.
     if offer_ProviderUserID current \<noteq> providerUserID then gfail (OfferErr Offer_errNotFound)
     else if offer_Status current = OfferWithdrawn then gret current
     else gread (osv_now s) (\<lambda>now.
       gbind (gpure (offer_Withdraw current (time_UTC now))) (\<lambda>nxt.
       gcase (ofs_Update st c nxt (offer_UpdatedAt current))
         (\<lambda>e. gfail (offer_mapStoreErr e)) (\<lambda>_. gret nxt)))))"

text \<open>One event per sibling, until one fails.\<close>

fun offer_enqueueRejected :: "'w offer_service \<Rightarrow> ctx \<Rightarrow> ID \<Rightarrow> offer list \<Rightarrow> ('w, unit) go" where
  "offer_enqueueRejected s c requesterUserID [] = gret ()"
| "offer_enqueueRejected s c requesterUserID (sibling # siblings) =
     gbind (offer_enqueueTransition s c OfferEventRejected ''rejected'' sibling requesterUserID
              requesterUserID)
       (\<lambda>_. offer_enqueueRejected s c requesterUserID siblings)"

definition offer_svc_Accept :: "'w offer_service \<Rightarrow> ctx \<Rightarrow> ID \<Rightarrow> ID \<Rightarrow> ID \<Rightarrow> ('w, offer) go" where
  "offer_svc_Accept s c requesterUserID needID offerID =
     gbind (offer_assertNeedOwner s c needID requesterUserID) (\<lambda>_.
     gbind (offer_requireOpenNeed s c needID) (\<lambda>_.
     gbind (offer_svc_get s c offerID) (\<lambda>current.
     if offer_NeedID current \<noteq> needID then gfail (OfferErr Offer_errNotFound)
     else if offer_Status current = OfferAccepted then gret current
     else gbind (offer_svc_listByNeed s c needID) (\<lambda>all.
       let submittedSiblings =
             filter (\<lambda>o'. offer_ID o' \<noteq> offerID \<and> offer_Status o' = OfferSubmitted) all
       in gneed (osv_store s) (OfferErr Offer_errStoreRequired) (\<lambda>st.
          offer_runMaybeTx s c (\<lambda>c.
            gread (osv_now s) (\<lambda>now.
            gcase (ofs_AcceptExclusive st c offerID needID (time_UTC now))
              (\<lambda>e. gfail (offer_mapStoreErr e))
              (\<lambda>accepted.
                if offer_Status accepted \<noteq> OfferAccepted then gret accepted
                else gbind (offer_enqueueTransition s c OfferEventAccepted ''accepted'' accepted
                              requesterUserID requesterUserID) (\<lambda>_.
                     gbind (offer_enqueueRejected s c requesterUserID submittedSiblings) (\<lambda>_.
                     gret accepted))))))))))"

definition offer_svc_Reject :: "'w offer_service \<Rightarrow> ctx \<Rightarrow> ID \<Rightarrow> ID \<Rightarrow> ID \<Rightarrow> ('w, offer) go" where
  "offer_svc_Reject s c requesterUserID needID offerID =
     gbind (offer_assertNeedOwner s c needID requesterUserID) (\<lambda>_.
     gbind (offer_svc_get s c offerID) (\<lambda>current.
     if offer_NeedID current \<noteq> needID then gfail (OfferErr Offer_errNotFound)
     else if offer_Status current = OfferRejected then gret current
     else gread (osv_now s) (\<lambda>now.
       gbind (gpure (offer_Reject current (time_UTC now))) (\<lambda>nxt.
       gneed (osv_store s) (OfferErr Offer_errStoreRequired) (\<lambda>st.
       gbind (offer_runMaybeTx s c (\<lambda>c.
           gcase (ofs_Update st c nxt (offer_UpdatedAt current))
             (\<lambda>e. gfail (offer_mapStoreErr e)) (\<lambda>_.
           offer_enqueueTransition s c OfferEventRejected ''rejected'' nxt requesterUserID
             requesterUserID)))
         (\<lambda>_. gret nxt))))))"

definition offer_ProviderNeedView ::
  "'w offer_service \<Rightarrow> ctx \<Rightarrow> ID \<Rightarrow> ID \<Rightarrow> ID \<Rightarrow> ID \<Rightarrow> ('w, NeedRef) go" where
  "offer_ProviderNeedView s c providerUserID needID businessID serviceID =
     (if ID_IsZero providerUserID \<or> ID_IsZero needID \<or> ID_IsZero businessID \<or> ID_IsZero serviceID
        then gfail (OfferErr Offer_errZeroID)
      else gbind (offer_requireOpenNeed s c needID) (\<lambda>need.
        gbind (offer_assertBusinessOwner s c businessID providerUserID) (\<lambda>_.
        gbind (offer_assertEligible s c need businessID serviceID) (\<lambda>_. gret need))))"

section \<open>The read surface for other packages\<close>

record OfferRef =
  or_ID :: ID
  or_NeedID :: ID
  or_ProviderBusinessID :: ID
  or_ServiceID :: ID
  or_ProviderUserID :: ID
  or_Price :: "price option"
  or_Status :: string

definition toOfferRef :: "offer \<Rightarrow> OfferRef" where
  "toOfferRef o' =
     \<lparr>or_ID = offer_ID o', or_NeedID = offer_NeedID o',
      or_ProviderBusinessID = offer_ProviderBusinessID o', or_ServiceID = offer_ServiceID o',
      or_ProviderUserID = offer_ProviderUserID o', or_Price = offer_Price o',
      or_Status = offer_Status o'\<rparr>"

definition mapOfferLookupErr :: "go_error \<Rightarrow> go_error" where
  [err_defs]: "mapOfferLookupErr err =
     (if err = OfferErr Offer_errZeroID then OfferCErr OfferC_ErrZeroID
      else if err = OfferErr Offer_errNotFound then OfferCErr OfferC_ErrNotFound
      else if ctx_error err then err
      else OfferCErr OfferC_ErrUnavailable)"

definition offer_GetOffer :: "'w offer_service \<Rightarrow> ctx \<Rightarrow> ID \<Rightarrow> ('w, OfferRef) go" where
  "offer_GetOffer s c offerID =
     gcase (offer_svc_get s c offerID) (\<lambda>err. gfail (mapOfferLookupErr err))
       (\<lambda>o'. gret (toOfferRef o'))"

section \<open>Domain operations\<close>

lemma price_normalized_idem:
  assumes "price_normalized e p = Inr q"
  shows "price_normalized e q = Inr q"
proof (cases q)
  case None
  then show ?thesis by (simp add: price_normalized_def)
next
  case (Some x)
  have "amountPattern (Amount x)" "currencyPattern (Currency x)" "big_Rat_SetString (Amount x) \<noteq> None"
    using assms Some unfolding price_normalized_def Let_def
    by (auto split: option.splits if_split_asm)
  with Some show ?thesis
    by (auto simp: price_normalized_def Let_def amountPattern_ne currencyPattern_ne)
qed

lemma normalizeMessage_idem:
  "normalizeMessage s = Inr t \<Longrightarrow> normalizeMessage t = Inr t \<and> strings_TrimSpace t = t"
  by (auto simp: normalizeMessage_def Let_def split: if_splits)

definition offer_text_valid :: "offer \<Rightarrow> bool" where
  "offer_text_valid o' \<longleftrightarrow>
     (\<exists>m. normalizeMessage (offer_Message o') = Inr m) \<and>
     strings_TrimSpace (offer_Message o') = offer_Message o' \<and>
     (\<exists>p. offer_price_normalized (offer_Price o') = Inr p)"

lemma offer_Validate_None:
  "offer_Validate o' = None \<longleftrightarrow>
     \<not> ID_IsZero (offer_ID o') \<and> \<not> ID_IsZero (offer_NeedID o') \<and>
     \<not> ID_IsZero (offer_ProviderBusinessID o') \<and> \<not> ID_IsZero (offer_ServiceID o') \<and>
     \<not> ID_IsZero (offer_ProviderUserID o') \<and> offer_status_valid (offer_Status o') \<and>
     offer_text_valid o' \<and> offer_CreatedAt o' \<noteq> 0 \<and> offer_CreatedAt o' \<le> offer_UpdatedAt o'"
  by (auto simp: offer_Validate_def offer_text_valid_def split: sum.splits if_splits)

lemma offer_text_valid_status [simp]:
  "offer_text_valid (o'\<lparr>offer_Status := s, offer_UpdatedAt := t\<rparr>) = offer_text_valid o'"
  by (simp add: offer_text_valid_def)

lemma offer_status_valid_simps [simp]:
  "offer_status_valid OfferSubmitted" "offer_status_valid OfferWithdrawn"
  "offer_status_valid OfferAccepted" "offer_status_valid OfferRejected" "offer_status_valid OfferExpired"
  by (simp_all add: offer_status_valid_def)

lemma offer_transition_valid:
  assumes "offer_Validate o' = None" and "offer_status_valid s"
  shows "offer_transition o' s now =
    (if now < offer_CreatedAt o' then Inl (OfferErr Offer_errInvalidOffer)
     else Inr (o'\<lparr>offer_Status := s, offer_UpdatedAt := now\<rparr>))"
proof -
  have "offer_Validate (o'\<lparr>offer_Status := s, offer_UpdatedAt := now\<rparr>) = None"
    if "\<not> now < offer_CreatedAt o'"
    using assms that by (simp add: offer_Validate_None)
  then show ?thesis by (simp add: offer_transition_def Let_def)
qed

lemma offer_transitionD:
  "offer_transition o' s now = Inr n \<Longrightarrow>
   n = o'\<lparr>offer_Status := s, offer_UpdatedAt := now\<rparr> \<and> offer_Validate n = None"
  by (auto simp: offer_transition_def Let_def split: if_splits option.splits)

lemmas offer_op_defs = offer_Withdraw_def offer_Accept_def offer_Reject_def offer_Expire_def

lemma offer_RejectD:
  "offer_Reject o' now = Inr n \<Longrightarrow> offer_Status o' = OfferSubmitted \<and>
   n = o'\<lparr>offer_Status := OfferRejected, offer_UpdatedAt := now\<rparr> \<and> offer_Validate n = None"
  by (auto simp: offer_Reject_def split: if_splits dest: offer_transitionD)

lemma offer_Reject_ok:
  "offer_Validate o' = None \<Longrightarrow> offer_Status o' = OfferSubmitted \<Longrightarrow> offer_CreatedAt o' \<le> now \<Longrightarrow>
   offer_Reject o' now = Inr (o'\<lparr>offer_Status := OfferRejected, offer_UpdatedAt := now\<rparr>)"
  by (simp add: offer_Reject_def offer_transition_valid)

lemma offer_AcceptD:
  "offer_Accept o' now = Inr n \<Longrightarrow> offer_Status o' = OfferSubmitted \<and>
   n = o'\<lparr>offer_Status := OfferAccepted, offer_UpdatedAt := now\<rparr> \<and> offer_Validate n = None"
  by (auto simp: offer_Accept_def split: if_splits dest: offer_transitionD)

text \<open>The operations the service commits through \<open>Update\<close>.\<close>

definition offer_opr :: "time \<Rightarrow> offer \<Rightarrow> offer \<Rightarrow> bool" where
  "offer_opr now o' n \<longleftrightarrow>
     offer_Withdraw o' now = Inr n \<or> offer_Reject o' now = Inr n \<or> offer_Expire o' now = Inr n"

definition offer_frame :: "offer \<Rightarrow> offer \<Rightarrow> bool" where
  "offer_frame o' n \<longleftrightarrow>
     offer_NeedID n = offer_NeedID o' \<and> offer_ServiceID n = offer_ServiceID o' \<and>
     offer_Status n \<noteq> OfferSubmitted \<and> offer_Status n \<noteq> OfferAccepted"

lemma offer_oprD:
  assumes "offer_opr now o' n"
  shows "offer_ID n = offer_ID o'" "offer_UpdatedAt n = now" "offer_frame o' n"
    "offer_Status o' = OfferSubmitted" "offer_Validate n = None"
  using assms unfolding offer_opr_def offer_op_defs offer_frame_def
  by (auto split: if_splits dest!: offer_transitionD)

section \<open>The store keeps the contract\<close>

abbreviation offer_table :: "offer_mem \<Rightarrow> ID \<Rightarrow> offer option" where
  "offer_table m \<equiv> map_of (om_byID m)"

text \<open>At most one accepted offer per Need, at most one submitted offer per Need and service.\<close>

definition offers_exclusive :: "(ID \<Rightarrow> offer option) \<Rightarrow> bool" where
  "offers_exclusive t \<longleftrightarrow>
     (\<forall>k l a b. t k = Some a \<longrightarrow> t l = Some b \<longrightarrow> offer_NeedID a = offer_NeedID b \<longrightarrow>
        (offer_Status a = OfferAccepted \<and> offer_Status b = OfferAccepted \<or>
         offer_ServiceID a = offer_ServiceID b \<and>
         offer_Status a = OfferSubmitted \<and> offer_Status b = OfferSubmitted) \<longrightarrow> k = l)"

definition offer_mem_inv :: "offer_mem \<Rightarrow> bool" where
  "offer_mem_inv m \<longleftrightarrow> wf_map (om_byID m) \<and>
     (\<forall>k o'. offer_table m k = Some o' \<longrightarrow> offer_ID o' = k \<and> offer_Validate o' = None) \<and>
     offers_exclusive (offer_table m)"

lemma offer_mem_inv_new [simp]: "offer_mem_inv offer_NewMemoryStore"
  by (simp add: offer_mem_inv_def offer_NewMemoryStore_def offers_exclusive_def)

lemma offer_mem_invD:
  assumes "offer_mem_inv m"
  shows "wf_map (om_byID m)" "offers_exclusive (offer_table m)"
    and "offer_table m k = Some o' \<Longrightarrow> offer_ID o' = k"
    and "offer_table m k = Some o' \<Longrightarrow> offer_Validate o' = None"
  using assms by (auto simp: offer_mem_inv_def)

lemma offers_exclusiveD:
  assumes "offers_exclusive t" "t k = Some a" "t l = Some b" "offer_NeedID a = offer_NeedID b"
    and "offer_Status a = OfferAccepted \<and> offer_Status b = OfferAccepted \<or>
         offer_ServiceID a = offer_ServiceID b \<and>
         offer_Status a = OfferSubmitted \<and> offer_Status b = OfferSubmitted"
  shows "k = l"
  using assms unfolding offers_exclusive_def by metis

text \<open>Rows that only move out of the two exclusive statuses keep the table exclusive.\<close>

lemma offers_exclusive_retire:
  assumes ex: "offers_exclusive t"
    and new: "\<And>k n. u k = Some n \<Longrightarrow> \<exists>o'. t k = Some o' \<and> (n = o' \<or> offer_frame o' n)"
  shows "offers_exclusive u"
  unfolding offers_exclusive_def
proof (intro allI impI)
  fix k l a b
  assume k: "u k = Some a" and l: "u l = Some b" and need: "offer_NeedID a = offer_NeedID b"
    and st: "offer_Status a = OfferAccepted \<and> offer_Status b = OfferAccepted \<or>
      offer_ServiceID a = offer_ServiceID b \<and>
      offer_Status a = OfferSubmitted \<and> offer_Status b = OfferSubmitted"
  have "t k = Some a" using new [OF k] st by (auto simp: offer_frame_def)
  moreover have "t l = Some b" using new [OF l] st by (auto simp: offer_frame_def)
  ultimately show "k = l" using offers_exclusiveD [OF ex] need st by blast
qed

lemma offer_mem_Create_ok:
  assumes "offer_mem_inv m"
  shows "offer_mem_Create c o' m = (m', Inr u) \<longleftrightarrow>
     ctx_Err c = None \<and> om_fail m = None \<and> offer_Validate o' = None \<and>
     offer_table m (offer_ID o') = None \<and>
     (\<forall>k p. offer_table m k = Some p \<longrightarrow> offer_NeedID p = offer_NeedID o' \<longrightarrow>
        \<not> (offer_Status o' = OfferSubmitted \<and> offer_Status p = OfferSubmitted \<and>
           offer_ServiceID p = offer_ServiceID o') \<and>
        \<not> (offer_Status o' = OfferAccepted \<and> offer_Status p = OfferAccepted)) \<and>
     m' = m\<lparr>om_byID := AList.update (offer_ID o') o' (om_byID m)\<rparr>"
proof -
  have rows: "list_ex P (map snd (om_byID m)) \<longleftrightarrow> (\<exists>k p. offer_table m k = Some p \<and> P p)" for P
    using wf_map_snd [OF offer_mem_invD(1) [OF assms]] by (auto simp: list_ex_iff image_iff Bex_def)
  show ?thesis
    unfolding offer_mem_Create_def gguard_def rows by (auto split: option.splits)
qed

lemma offer_mem_Create_err: "offer_mem_Create c o' m = (m', Inl e) \<Longrightarrow> m' = m"
  by (auto simp: offer_mem_Create_def gguard_def split: option.splits if_splits)

lemma offer_mem_Create_inv:
  assumes inv: "offer_mem_inv m" and "offer_mem_Create c o' m = (m', Inr u)"
  shows "offer_mem_inv m'"
proof -
  note cr = assms(2) [unfolded offer_mem_Create_ok [OF inv]]
  have "offers_exclusive ((offer_table m)(offer_ID o' \<mapsto> o'))"
    unfolding offers_exclusive_def
  proof (intro allI impI)
    fix k l a b
    assume "((offer_table m)(offer_ID o' \<mapsto> o')) k = Some a"
      "((offer_table m)(offer_ID o' \<mapsto> o')) l = Some b" "offer_NeedID a = offer_NeedID b"
      "offer_Status a = OfferAccepted \<and> offer_Status b = OfferAccepted \<or>
       offer_ServiceID a = offer_ServiceID b \<and>
       offer_Status a = OfferSubmitted \<and> offer_Status b = OfferSubmitted"
    then show "k = l"
      using cr offers_exclusiveD [OF offer_mem_invD(2) [OF inv], of k a l b]
      by (auto split: if_splits) blast
  qed
  with cr offer_mem_invD [OF inv] show ?thesis by (auto simp: offer_mem_inv_def)
qed

lemma offer_mem_Get_eq:
  "offer_mem_Get c i m =
     (m, case ctx_Err c of Some e \<Rightarrow> Inl e | None \<Rightarrow>
         case om_fail m of Some e \<Rightarrow> Inl e | None \<Rightarrow>
         case offer_table m i of None \<Rightarrow> Inl (OfferErr Offer_errNotFound) | Some o' \<Rightarrow> Inr o')"
  by (simp add: offer_mem_Get_def gguard_def split: option.split)

lemma offer_mem_Update_ok:
  "offer_mem_Update c o' v m = (m', Inr u) \<longleftrightarrow>
     ctx_Err c = None \<and> om_fail m = None \<and> offer_Validate o' = None \<and>
     (\<exists>cur. offer_table m (offer_ID o') = Some cur \<and> offer_UpdatedAt cur = v) \<and>
     m' = m\<lparr>om_byID := AList.update (offer_ID o') o' (om_byID m)\<rparr>"
  by (auto simp: offer_mem_Update_def gguard_def split: option.splits)

lemma offer_mem_Update_err: "offer_mem_Update c o' v m = (m', Inl e) \<Longrightarrow> m' = m"
  by (auto simp: offer_mem_Update_def gguard_def split: option.splits if_splits)

lemma offer_mem_Update_inv:
  assumes inv: "offer_mem_inv m" and up: "offer_mem_Update c n v m = (m', Inr u)"
    and cur: "offer_table m (offer_ID n) = Some o'" and fr: "offer_frame o' n"
  shows "offer_mem_inv m'"
proof -
  have m': "m' = m\<lparr>om_byID := AList.update (offer_ID n) n (om_byID m)\<rparr>" "offer_Validate n = None"
    using up by (simp_all add: offer_mem_Update_ok)
  have "offers_exclusive ((offer_table m)(offer_ID n \<mapsto> n))"
    by (rule offers_exclusive_retire [OF offer_mem_invD(2) [OF inv]])
      (use cur fr in \<open>auto split: if_splits\<close>)
  with m' offer_mem_invD [OF inv] show ?thesis by (auto simp: offer_mem_inv_def)
qed

interpretation offer_mem: occ_store offer_ID offer_UpdatedAt offer_Validate offer_frame offer_table
  offer_mem_inv "offer_mem_Create c" "offer_mem_Get c" "offer_mem_Update c" for c
proof (unfold_locales, goal_cases)
  case (1 s k s' e)
  then show ?case by (auto simp: offer_mem_Get_eq split: option.splits)
next
  case (2 s k s' x)
  then show ?case by (simp add: offer_mem_Get_eq)
next
  case (3 s e s' u)
  then show ?case using offer_mem_Create_inv [of s c e s' u] by (simp add: offer_mem_Create_ok)
next
  case (4 s e s' x)
  then show ?case using offer_mem_Create_err by blast
next
  case (5 s e v s' u)
  then show ?case by (auto simp: offer_mem_Update_ok)
next
  case (6 s e v s' u cur)
  then show ?case using offer_mem_Update_inv by blast
next
  case (7 s e v s' x)
  then show ?case using offer_mem_Update_err by blast
qed (auto simp: offer_mem_invD)

section \<open>Exclusive acceptance\<close>

definition sibling :: "ID \<Rightarrow> ID \<Rightarrow> ID \<Rightarrow> offer \<Rightarrow> bool" where
  "sibling offerID needID i o' \<longleftrightarrow>
     i \<noteq> offerID \<and> offer_NeedID o' = needID \<and> offer_Status o' = OfferSubmitted"

text \<open>What the loop may have done to a row when it stops, with or without an error.\<close>

lemma reject_siblings_rows:
  assumes "reject_siblings offerID needID now es m = (m', r)" and "distinct (map fst es)"
  shows "(wf_map m \<longrightarrow> wf_map m') \<and>
    (\<forall>k. map_of m' k = map_of m k \<or>
       (\<exists>o' n. (k, o') \<in> set es \<and> sibling offerID needID k o' \<and> offer_Reject o' now = Inr n \<and>
               map_of m' k = Some n)) \<and>
    (r = None \<longrightarrow> (\<forall>k o'. (k, o') \<in> set es \<longrightarrow> sibling offerID needID k o' \<longrightarrow>
       (\<exists>n. offer_Reject o' now = Inr n \<and> map_of m' k = Some n)))"
  using assms
proof (induction es arbitrary: m)
  case (Cons e es)
  obtain i o' where e: "e = (i, o')" by fastforce
  show ?case
  proof (cases "sibling offerID needID i o'")
    case False
    then have "reject_siblings offerID needID now es m = (m', r)"
      using Cons.prems(1) by (auto simp: e sibling_def)
    from Cons.IH [OF this] Cons.prems(2) False show ?thesis unfolding e by auto
  next
    case sib: True
    show ?thesis
    proof (cases "offer_Reject o' now")
      case (Inl x)
      then show ?thesis using Cons.prems(1) sib by (auto simp: e sibling_def)
    next
      case (Inr n)
      then have rest: "reject_siblings offerID needID now es (AList.update i n m) = (m', r)"
        using Cons.prems(1) sib by (auto simp: e sibling_def)
      have i: "i \<notin> fst ` set es" using Cons.prems(2) by (simp add: e)
      note IH = Cons.IH [OF rest]
      have own: "map_of m' i = Some n"
        using IH Cons.prems(2) i by (force simp: e)
      from IH Cons.prems(2) own Inr sib i show ?thesis
        unfolding e by (auto simp: fun_upd_apply) (metis option.inject)+
    qed
  qed
qed simp

text \<open>With every sibling created by \<open>now\<close> the loop cannot fail.\<close>

lemma reject_siblings_total:
  assumes "\<And>k o'. (k, o') \<in> set es \<Longrightarrow> sibling offerID needID k o' \<Longrightarrow>
      offer_Validate o' = None \<and> offer_CreatedAt o' \<le> now"
  shows "\<exists>m'. reject_siblings offerID needID now es m = (m', None)"
  using assms
proof (induction es arbitrary: m)
  case (Cons e es)
  obtain i o' where e: "e = (i, o')" by fastforce
  have rest: "\<exists>m'. reject_siblings offerID needID now es x = (m', None)" for x
    by (rule Cons.IH) (use Cons.prems in auto)
  show ?case
  proof (cases "sibling offerID needID i o'")
    case False
    then show ?thesis using rest by (auto simp: e sibling_def)
  next
    case True
    then have "offer_Validate o' = None \<and> offer_CreatedAt o' \<le> now" using Cons.prems [of i o'] by (simp add: e)
    then have "offer_Reject o' now = Inr (o'\<lparr>offer_Status := OfferRejected, offer_UpdatedAt := now\<rparr>)"
      using True by (simp add: offer_Reject_ok sibling_def)
    with True rest show ?thesis by (simp add: e sibling_def)
  qed
qed simp

text \<open>The table after an acceptance.\<close>

definition accept_rows :: "ID \<Rightarrow> ID \<Rightarrow> time \<Rightarrow> (ID \<Rightarrow> offer option) \<Rightarrow> ID \<Rightarrow> offer option" where
  "accept_rows offerID needID now t = (\<lambda>k. case t k of None \<Rightarrow> None | Some o' \<Rightarrow>
     Some (if k = offerID then o'\<lparr>offer_Status := OfferAccepted, offer_UpdatedAt := now\<rparr>
           else if sibling offerID needID k o'
             then o'\<lparr>offer_Status := OfferRejected, offer_UpdatedAt := now\<rparr>
           else o'))"

lemma offer_rows_ex:
  "offer_mem_inv m \<Longrightarrow>
   list_ex P (map snd (om_byID m)) \<longleftrightarrow> (\<exists>k p. offer_table m k = Some p \<and> P p)"
  using wf_map_snd [OF offer_mem_invD(1), of m] by (auto simp: list_ex_iff image_iff Bex_def)

lemma accept_loop:
  assumes inv: "offer_mem_inv m" and cur: "offer_table m offerID = Some cur"
    and acc: "offer_Accept cur now = Inr nxt"
    and run: "reject_siblings offerID needID now (AList.update offerID nxt (om_byID m))
      (AList.update offerID nxt (om_byID m)) = (rows, r)"
  shows "wf_map rows"
    and "\<And>k. map_of rows k = map_of (AList.update offerID nxt (om_byID m)) k \<or>
      (\<exists>o' n. offer_table m k = Some o' \<and> sibling offerID needID k o' \<and> offer_Reject o' now = Inr n \<and>
             map_of rows k = Some n)"
    and "r = None \<Longrightarrow> map_of rows = accept_rows offerID needID now (offer_table m)"
proof -
  let ?es = "AList.update offerID nxt (om_byID m)"
  have wf: "wf_map ?es" using offer_mem_invD(1) [OF inv] by simp
  have rows: "(k, o') \<in> set ?es \<longleftrightarrow> ((offer_table m)(offerID \<mapsto> nxt)) k = Some o'" for k o'
    using wf_map_in_set [OF wf] by simp
  have nsib: "\<not> sibling offerID needID offerID o'" for o' by (simp add: sibling_def)
  note loop = reject_siblings_rows [OF run wf [unfolded wf_map_def], unfolded rows]
  from loop wf show "wf_map rows" by blast
  show one: "map_of rows k = map_of ?es k \<or>
      (\<exists>o' n. offer_table m k = Some o' \<and> sibling offerID needID k o' \<and> offer_Reject o' now = Inr n \<and>
             map_of rows k = Some n)" for k
    using loop nsib by (auto simp: sibling_def split: if_splits)
  assume "r = None"
  then have all: "\<exists>n. offer_Reject o' now = Inr n \<and> map_of rows k = Some n"
    if "offer_table m k = Some o'" "sibling offerID needID k o'" for k o'
    using loop that by (auto simp: sibling_def)
  show "map_of rows = accept_rows offerID needID now (offer_table m)"
  proof
    fix k
    show "map_of rows k = accept_rows offerID needID now (offer_table m) k"
    proof (cases "\<exists>o'. offer_table m k = Some o' \<and> sibling offerID needID k o'")
      case True
      then obtain o' where o': "offer_table m k = Some o'" "sibling offerID needID k o'" by blast
      from all [OF o'] show ?thesis
        using o' by (auto simp: accept_rows_def sibling_def dest!: offer_RejectD)
    next
      case False
      then have "map_of rows k = ((offer_table m)(offerID \<mapsto> nxt)) k" using one [of k] by auto
      with False cur offer_AcceptD [OF acc] show ?thesis
        by (auto simp: accept_rows_def split: option.split)
    qed
  qed
qed

lemma accept_rows_inv:
  assumes inv: "offer_mem_inv m" and cur: "offer_table m offerID = Some cur"
    and need: "offer_NeedID cur = needID"
    and free: "\<And>k p. offer_table m k = Some p \<Longrightarrow> offer_NeedID p = needID \<Longrightarrow> offer_Status p \<noteq> OfferAccepted"
    and acc: "offer_Accept cur now = Inr nxt" and wf: "wf_map rows"
    and upd: "\<And>k. map_of rows k = map_of (AList.update offerID nxt (om_byID m)) k \<or>
      (\<exists>o' n. offer_table m k = Some o' \<and> sibling offerID needID k o' \<and> offer_Reject o' now = Inr n \<and>
             map_of rows k = Some n)"
  shows "offer_mem_inv (m\<lparr>om_byID := rows\<rparr>)"
proof -
  note nxt = offer_AcceptD [OF acc]
  have pre: "\<exists>o'. offer_table m k = Some o' \<and> offer_ID n = offer_ID o' \<and> offer_Validate n = None \<and>
      (k = offerID \<and> n = nxt \<or> k \<noteq> offerID \<and> (n = o' \<or> offer_frame o' n))"
    if "map_of rows k = Some n" for k n
    using upd [of k] that cur nxt offer_mem_invD(4) [OF inv, of k]
    by (cases "offer_table m k") (auto simp: sibling_def offer_frame_def split: if_splits dest!: offer_RejectD)
  have "offers_exclusive (map_of rows)"
    unfolding offers_exclusive_def
  proof (intro allI impI)
    fix k l a b
    assume k: "map_of rows k = Some a" and l: "map_of rows l = Some b"
      and nd: "offer_NeedID a = offer_NeedID b"
      and st: "offer_Status a = OfferAccepted \<and> offer_Status b = OfferAccepted \<or>
       offer_ServiceID a = offer_ServiceID b \<and>
       offer_Status a = OfferSubmitted \<and> offer_Status b = OfferSubmitted"
    have "k = offerID \<and> a = nxt \<or> k \<noteq> offerID \<and> offer_table m k = Some a"
      using pre [OF k] st by (auto simp: offer_frame_def)
    moreover have "l = offerID \<and> b = nxt \<or> l \<noteq> offerID \<and> offer_table m l = Some b"
      using pre [OF l] st by (auto simp: offer_frame_def)
    ultimately show "k = l"
      using offers_exclusiveD [OF offer_mem_invD(2) [OF inv], of k a l b] nd st free nxt need by auto
  qed
  moreover have "offer_ID n = k \<and> offer_Validate n = None" if "map_of rows k = Some n" for k n
    using pre [OF that] offer_mem_invD(3) [OF inv, of k] by auto
  ultimately show ?thesis using wf by (simp add: offer_mem_inv_def)
qed

text \<open>Every outcome of the operation.\<close>

lemma AcceptExclusive_cases:
  assumes inv: "offer_mem_inv m" and run: "offer_mem_AcceptExclusive c offerID needID now m = (m', r)"
  obtains (same) "m' = m" "\<And>a. r = Inr a \<Longrightarrow> offer_table m offerID = Some a \<and>
        offer_NeedID a = needID \<and> offer_Status a = OfferAccepted"
  | (accepted) cur nxt rows s where "offer_table m offerID = Some cur" "offer_NeedID cur = needID"
      "\<And>k p. offer_table m k = Some p \<Longrightarrow> offer_NeedID p = needID \<Longrightarrow> offer_Status p \<noteq> OfferAccepted"
      "offer_Accept cur now = Inr nxt"
      "reject_siblings offerID needID now (AList.update offerID nxt (om_byID m))
         (AList.update offerID nxt (om_byID m)) = (rows, s)"
      "m' = m\<lparr>om_byID := rows\<rparr>" "r = (case s of Some e \<Rightarrow> Inl e | None \<Rightarrow> Inr nxt)"
proof (cases "offer_table m offerID")
  case None
  then show ?thesis using run same
    by (auto simp: offer_mem_AcceptExclusive_def gguard_def split: option.splits)
next
  case (Some cur)
  let ?taken = "\<exists>k p. offer_table m k = Some p \<and> offer_NeedID p = needID \<and> offer_Status p = OfferAccepted"
  have ex: "list_ex (\<lambda>other. offer_NeedID other = needID \<and> offer_Status other = OfferAccepted)
      (map snd (om_byID m)) \<longleftrightarrow> ?taken"
    by (rule offer_rows_ex [OF inv])
  show ?thesis
  proof (cases "ctx_Err c = None \<and> om_fail m = None \<and> offer_NeedID cur = needID \<and>
      offer_Status cur \<noteq> OfferAccepted \<and> \<not> ?taken \<and> (\<exists>nxt. offer_Accept cur now = Inr nxt)")
    case False
    then show ?thesis using run Some same
      by (cases "offer_Accept cur now")
        (auto simp: offer_mem_AcceptExclusive_def gguard_def ex split: option.splits if_splits
          dest: sym [of "Inl x" for x])
  next
    case True
    then obtain nxt where nxt: "offer_Accept cur now = Inr nxt" by blast
    obtain rows s where loop: "reject_siblings offerID needID now
        (AList.update offerID nxt (om_byID m)) (AList.update offerID nxt (om_byID m)) = (rows, s)"
      by fastforce
    have "m' = m\<lparr>om_byID := rows\<rparr> \<and> r = (case s of Some e \<Rightarrow> Inl e | None \<Rightarrow> Inr nxt)"
      using run Some True nxt loop
      by (auto simp: offer_mem_AcceptExclusive_def gguard_def ex Let_def split: option.splits)
    then show ?thesis using accepted [OF Some _ _ nxt loop] True by blast
  qed
qed

lemma AcceptExclusive_inv:
  assumes inv: "offer_mem_inv m" and run: "offer_mem_AcceptExclusive c offerID needID now m = (m', r)"
  shows "offer_mem_inv m'"
  using inv run
proof (cases rule: AcceptExclusive_cases)
  case same
  then show ?thesis using inv by simp
next
  case (accepted cur nxt rows s)
  note loop = accept_loop [OF inv accepted(1,4,5)]
  show ?thesis unfolding accepted(6)
    by (rule accept_rows_inv [OF inv accepted(1,2,3,4) loop(1,2)])
qed

lemma AcceptExclusive_ok:
  assumes inv: "offer_mem_inv m" and run: "offer_mem_AcceptExclusive c offerID needID now m = (m', Inr a)"
  shows "offer_NeedID a = needID \<and> offer_Status a = OfferAccepted \<and> offer_table m' offerID = Some a \<and>
    (m' = m \<or> offer_table m' = accept_rows offerID needID now (offer_table m))"
  using inv run
proof (cases rule: AcceptExclusive_cases)
  case same
  then show ?thesis by simp
next
  case (accepted cur nxt rows s)
  then have s: "s = None" "a = nxt" by (auto split: option.splits)
  note loop = accept_loop [OF inv accepted(1,4,5)]
  have "map_of rows = accept_rows offerID needID now (offer_table m)" using loop(3) s(1) by simp
  then show ?thesis
    using accepted(1,2,6) s(2) offer_AcceptD [OF accepted(4)] by (simp add: accept_rows_def)
qed

section \<open>Concurrent requests\<close>

text \<open>
  Providers and requesters at once: creation, withdrawal, rejection and expiry through read and
  \<open>Update\<close>, and exclusive acceptance as one locked operation of the store at the time it reads from the clock.
  The service reads the clock before it takes the lock: the window between the two is left out here.
\<close>

inductive offer_step :: "ctx \<Rightarrow> (offer_mem, offer) conc \<Rightarrow> (offer_mem, offer) conc \<Rightarrow> bool" for c where
  offer_occ: "occ_step (offer_mem_Create c) (offer_mem_Get c) (offer_mem_Update c) offer_UpdatedAt
      offer_opr s s' \<Longrightarrow> offer_step c s s'"
| offer_accept: "offer_mem_AcceptExclusive c offerID needID now (c_store s) = (st', r) \<Longrightarrow>
    c_clock s < now \<Longrightarrow> offer_step c s (s\<lparr>c_store := st', c_clock := now\<rparr>)"

abbreviation offer_conc_ok :: "(offer_mem, offer) conc \<Rightarrow> bool" where
  "offer_conc_ok \<equiv> offer_mem.pending_ok offer_opr"

lemma offer_conc_okD:
  assumes "offer_conc_ok s"
  shows "offer_mem_inv (c_store s)"
    and "offer_table (c_store s) k = Some o' \<Longrightarrow> offer_UpdatedAt o' \<le> c_clock s"
  using assms by (auto simp: offer_mem.pending_ok_def)

text \<open>A clock that has moved on makes the acceptance all or nothing.\<close>

lemma AcceptExclusive_atomic:
  assumes inv: "offer_mem_inv m" and run: "offer_mem_AcceptExclusive c offerID needID now m = (m', r)"
    and old: "\<And>k o'. offer_table m k = Some o' \<Longrightarrow> offer_CreatedAt o' \<le> now"
  shows "m' = m \<or> offer_table m' = accept_rows offerID needID now (offer_table m)"
  using inv run
proof (cases rule: AcceptExclusive_cases)
  case (accepted cur nxt rows s)
  let ?es = "AList.update offerID nxt (om_byID m)"
  have wf: "wf_map ?es" using offer_mem_invD(1) [OF inv] by simp
  have "\<exists>m'. reject_siblings offerID needID now ?es ?es = (m', None)"
  proof (rule reject_siblings_total)
    fix k o'
    assume "(k, o') \<in> set ?es" and "sibling offerID needID k o'"
    then have "offer_table m k = Some o'"
      using wf_map_in_set [OF wf] by (auto simp: sibling_def split: if_splits)
    then show "offer_Validate o' = None \<and> offer_CreatedAt o' \<le> now"
      using offer_mem_invD(4) [OF inv] old by blast
  qed
  then have "s = None" using accepted(5) by auto
  then show ?thesis using accept_loop(3) [OF inv accepted(1,4,5)] accepted(6) by simp
qed simp

lemma offer_row_step:
  assumes st: "offer_step c s s'" and ok: "offer_conc_ok s"
  shows "offer_conc_ok s' \<and>
    (\<forall>k o'. offer_table (c_store s) k = Some o' \<longrightarrow>
       (\<exists>n. offer_table (c_store s') k = Some n \<and> (n = o' \<or> offer_Status o' = OfferSubmitted)))"
  using st
proof (cases rule: offer_step.cases)
  case offer_occ
  have tr: "offer_opr now o' n \<Longrightarrow>
      offer_ID n = offer_ID o' \<and> offer_UpdatedAt n = now \<and> offer_frame o' n" for now o' n
    using offer_oprD by blast
  have "offer_conc_ok s'" by (rule offer_mem.pending_ok_step [OF tr offer_occ ok])
  moreover have "\<exists>n. offer_table (c_store s') k = Some n \<and> (n = o' \<or> offer_Status o' = OfferSubmitted)"
    if "offer_table (c_store s) k = Some o'" for k o'
    using offer_mem.row_step [OF tr offer_occ ok that] offer_oprD(4) by (auto simp: some_trans_def)
  ultimately show ?thesis by blast
next
  case (offer_accept offerID needID now st' r)
  note inv = offer_conc_okD(1) [OF ok]
  have old: "offer_CreatedAt o' \<le> now \<and> offer_UpdatedAt o' \<le> now"
    if "offer_table (c_store s) k = Some o'" for k o'
    using offer_conc_okD(2) [OF ok that] offer_mem_invD(4) [OF inv that] offer_accept(3)
    by (simp add: offer_Validate_None)
  have rows: "st' = c_store s \<or>
      offer_table st' = accept_rows offerID needID now (offer_table (c_store s))"
    using AcceptExclusive_atomic [OF inv offer_accept(2)] old by blast
  have cur: "offer_Status o' = OfferSubmitted"
    if "st' \<noteq> c_store s" "offer_table (c_store s) offerID = Some o'" for o'
    using inv offer_accept(2)
  proof (cases rule: AcceptExclusive_cases)
    case same
    then show ?thesis using that by simp
  next
    case (accepted cur nxt rows s')
    then show ?thesis using that offer_AcceptD [OF accepted(4)] by simp
  qed
  have keep: "\<exists>n. offer_table st' k = Some n \<and>
      (n = o' \<or> offer_Status o' = OfferSubmitted \<and> offer_UpdatedAt n = now)"
    if "offer_table (c_store s) k = Some o'" for k o'
    using rows cur [of o'] that
    by (cases "st' = c_store s") (auto simp: accept_rows_def sibling_def)
  have new: "offer_UpdatedAt n \<le> now" if "offer_table st' k = Some n" for k n
    using rows that old by (auto simp: accept_rows_def split: option.splits if_splits)
  have "offer_conc_ok (s\<lparr>c_store := st', c_clock := now\<rparr>)"
    by (rule offer_mem.pending_ok_advance [OF ok AcceptExclusive_inv [OF inv offer_accept(2)]])
      (use keep new offer_accept(3) in fastforce)+
  with keep offer_accept(1) show ?thesis by fastforce
qed

lemma offer_history:
  assumes "(offer_step c)\<^sup>*\<^sup>* s s'" and "offer_conc_ok s"
  shows "offer_conc_ok s' \<and>
    (\<forall>k o'. offer_table (c_store s) k = Some o' \<longrightarrow> offer_Status o' \<noteq> OfferSubmitted \<longrightarrow>
       offer_table (c_store s') k = Some o')"
  using assms(1)
proof (induction rule: rtranclp_induct)
  case base
  then show ?case using assms(2) by simp
next
  case (step y z)
  then show ?case using offer_row_step [of c y z] by fastforce
qed

section \<open>Samples\<close>

definition sample_offer :: "nat \<Rightarrow> string \<Rightarrow> offer" where
  "sample_offer n s =
     \<lparr>offer_ID = id_n n, offer_NeedID = id_n 1, offer_ProviderBusinessID = id_n 5,
      offer_ServiceID = id_n (n + 100), offer_ProviderUserID = id_n 3, offer_Message = [],
      offer_Price = None, offer_Status = s, offer_CreatedAt = int n, offer_UpdatedAt = int n\<rparr>"

lemma sample_offer_valid [simp]:
  "0 < n \<Longrightarrow> n < 100 \<Longrightarrow> offer_status_valid s \<Longrightarrow> offer_Validate (sample_offer n s) = None"
  by (simp add: offer_Validate_def sample_offer_def normalizeMessage_def offer_price_normalized_def
      price_normalized_def)

definition sample_offers :: offer_mem where
  "sample_offers =
     \<lparr>om_byID = [(id_n 10, sample_offer 10 OfferSubmitted), (id_n 20, sample_offer 20 OfferSubmitted)],
      om_fail = None\<rparr>"

lemma sample_offers_inv [simp]: "offer_mem_inv sample_offers"
proof -
  have "offers_exclusive (offer_table sample_offers)"
    by (auto simp: offers_exclusive_def sample_offers_def sample_offer_def split: if_splits)
  then show ?thesis
    by (auto simp: offer_mem_inv_def sample_offers_def wf_map_def split: if_splits)
      (simp_all add: sample_offer_def)
qed

section \<open>Properties\<close>



text \<open>C14. Accepting an offer. When every stored offer was created by \<open>now\<close>, \<open>AcceptExclusive\<close> on a
  submitted offer of the Need succeeds exactly when no offer of that Need is accepted yet; it then
  accepts that offer, rejects every other submitted offer of the same Need, stamps both with \<open>now\<close>,
  and leaves all other rows alone. On any other outcome nothing changes: accepting the accepted offer
  again returns it, and the remaining cases are errors.\<close>

theorem AcceptExclusive_spec:
  assumes "offer_mem_inv m" and "ctx_Err c = None" and "om_fail m = None"
    and "offer_table m offerID = Some cur" and "offer_NeedID cur = needID"
    and "\<forall>k o'. offer_table m k = Some o' \<longrightarrow> offer_CreatedAt o' \<le> now"
  shows "\<exists>m' r. offer_mem_AcceptExclusive c offerID needID now m = (m', r) \<and>
    (if offer_Status cur = OfferSubmitted \<and>
        \<not> (\<exists>k p. offer_table m k = Some p \<and> offer_NeedID p = needID \<and> offer_Status p = OfferAccepted)
     then r = Inr (cur\<lparr>offer_Status := OfferAccepted, offer_UpdatedAt := now\<rparr>) \<and>
       (\<forall>k. offer_table m' k =
          (case offer_table m k of
             None \<Rightarrow> None
           | Some o' \<Rightarrow> Some
               (if k = offerID then o'\<lparr>offer_Status := OfferAccepted, offer_UpdatedAt := now\<rparr>
                else if offer_NeedID o' = needID \<and> offer_Status o' = OfferSubmitted
                  then o'\<lparr>offer_Status := OfferRejected, offer_UpdatedAt := now\<rparr>
                else o')))
     else m' = m \<and>
       r = (if offer_Status cur = OfferAccepted then Inr cur
            else if \<exists>k p. offer_table m k = Some p \<and> offer_NeedID p = needID \<and>
                 offer_Status p = OfferAccepted
              then Inl (OfferErr Offer_errConflict)
            else Inl (OfferErr Offer_errInvalidTransition)))"
proof -
  obtain m' r where run: "offer_mem_AcceptExclusive c offerID needID now m = (m', r)" by fastforce
  have ex: "list_ex (\<lambda>other. offer_NeedID other = needID \<and> offer_Status other = OfferAccepted)
      (map snd (om_byID m)) \<longleftrightarrow>
      (\<exists>k p. offer_table m k = Some p \<and> offer_NeedID p = needID \<and> offer_Status p = OfferAccepted)"
    (is "_ \<longleftrightarrow> ?taken") by (rule offer_rows_ex [OF assms(1)])
  show ?thesis
  proof (cases "offer_Status cur = OfferSubmitted \<and> \<not> ?taken")
    case True
    have "offer_CreatedAt cur \<le> now" and v: "offer_Validate cur = None"
      using assms(4,6) offer_mem_invD(4) [OF assms(1,4)] by blast+
    then have acc: "offer_Accept cur now = Inr (cur\<lparr>offer_Status := OfferAccepted, offer_UpdatedAt := now\<rparr>)"
      using True by (simp add: offer_Accept_def offer_transition_valid)
    let ?nxt = "cur\<lparr>offer_Status := OfferAccepted, offer_UpdatedAt := now\<rparr>"
    let ?es = "AList.update offerID ?nxt (om_byID m)"
    have wf: "wf_map ?es" using offer_mem_invD(1) [OF assms(1)] by simp
    have "\<exists>rows. reject_siblings offerID needID now ?es ?es = (rows, None)"
      by (rule reject_siblings_total)
        (use wf_map_in_set [OF wf] offer_mem_invD(4) [OF assms(1)] assms(6) in
          \<open>auto simp: sibling_def split: if_splits\<close>)
    then obtain rows where loop: "reject_siblings offerID needID now ?es ?es = (rows, None)" by blast
    have "m' = m\<lparr>om_byID := rows\<rparr> \<and> r = Inr ?nxt"
      using run assms(2-5) True acc loop
      by (simp add: offer_mem_AcceptExclusive_def ex Let_def)
    moreover have "map_of rows = accept_rows offerID needID now (offer_table m)"
      by (rule accept_loop(3) [OF assms(1,4) acc loop refl])
    ultimately show ?thesis
      using run True by (auto simp: accept_rows_def sibling_def split: option.split)
  next
    case False
    then have "m' = m \<and>
       r = (if offer_Status cur = OfferAccepted then Inr cur
            else if ?taken then Inl (OfferErr Offer_errConflict)
            else Inl (OfferErr Offer_errInvalidTransition))"
      using run
      by (cases "offer_Status cur = OfferAccepted"; cases ?taken)
        (simp_all add: offer_mem_AcceptExclusive_def assms(2-5) ex offer_Accept_def, blast)
    with run False show ?thesis by auto
  qed
qed

theorem AcceptExclusive_spec_witness:
  "\<exists>m'. offer_mem_AcceptExclusive background (id_n 10) (id_n 1) 31 sample_offers =
     (m', Inr (sample_offer 10 OfferSubmitted\<lparr>offer_Status := OfferAccepted, offer_UpdatedAt := 31\<rparr>)) \<and>
     offer_table m' (id_n 20) =
       Some (sample_offer 20 OfferSubmitted\<lparr>offer_Status := OfferRejected, offer_UpdatedAt := 31\<rparr>)"
proof -
  have row: "offer_table sample_offers (id_n 10) = Some (sample_offer 10 OfferSubmitted)"
    "offer_table sample_offers (id_n 20) = Some (sample_offer 20 OfferSubmitted)"
    by (simp_all add: sample_offers_def)
  have sel: "offer_NeedID (sample_offer n s) = id_n 1" "offer_Status (sample_offer n s) = s" for n s
    by (simp_all add: sample_offer_def)
  have old: "\<forall>k o'. offer_table sample_offers k = Some o' \<longrightarrow> offer_CreatedAt o' \<le> 31"
    by (auto simp: sample_offers_def sample_offer_def split: if_splits)
  have free: "offer_Status (sample_offer 10 OfferSubmitted) = OfferSubmitted \<and>
      \<not> (\<exists>k p. offer_table sample_offers k = Some p \<and> offer_NeedID p = id_n 1 \<and>
        offer_Status p = OfferAccepted)"
    by (auto simp: sample_offers_def sel split: if_splits)
  have up: "ctx_Err background = None" "om_fail sample_offers = None"
    by (simp_all add: background_def sample_offers_def)
  note spec = AcceptExclusive_spec [OF sample_offers_inv up row(1) sel(1) old, unfolded if_P [OF free]]
  obtain m' r where run: "offer_mem_AcceptExclusive background (id_n 10) (id_n 1) 31 sample_offers = (m', r)"
    and res: "r = Inr (sample_offer 10 OfferSubmitted\<lparr>offer_Status := OfferAccepted, offer_UpdatedAt := 31\<rparr>)"
    and tab: "\<forall>k. offer_table m' k =
       (case offer_table sample_offers k of None \<Rightarrow> None
        | Some o' \<Rightarrow> Some
            (if k = id_n 10 then o'\<lparr>offer_Status := OfferAccepted, offer_UpdatedAt := 31\<rparr>
             else if offer_NeedID o' = id_n 1 \<and> offer_Status o' = OfferSubmitted
               then o'\<lparr>offer_Status := OfferRejected, offer_UpdatedAt := 31\<rparr> else o'))"
    using spec by blast
  have "offer_table m' (id_n 20) =
      Some (sample_offer 20 OfferSubmitted\<lparr>offer_Status := OfferRejected, offer_UpdatedAt := 31\<rparr>)"
    using tab [rule_format, of "id_n 20"] row(2) by (simp add: sel)
  with run res show ?thesis by blast
qed

text \<open>C40. A half-done acceptance. When the clock reads earlier than the creation time of a sibling,
  \<open>AcceptExclusive\<close> of the in-memory store returns an error although it has already stored the
  acceptance: the caller sees a failure and the offer is accepted all the same.\<close>

theorem AcceptExclusive_partial_failure:
  "\<exists>m'. offer_mem_AcceptExclusive background (id_n 10) (id_n 1) 15 sample_offers =
      (m', Inl (OfferErr Offer_errInvalidOffer)) \<and>
    (\<exists>a. offer_table m' (id_n 10) = Some a \<and> offer_Status a = OfferAccepted)"
proof -
  have sel: "offer_NeedID (sample_offer n s) = id_n 1" "offer_Status (sample_offer n s) = s"
    "offer_CreatedAt (sample_offer n s) = int n" for n s
    by (simp_all add: sample_offer_def)
  have "offer_Accept (sample_offer 10 OfferSubmitted) 15 =
      Inr (sample_offer 10 OfferSubmitted\<lparr>offer_Status := OfferAccepted, offer_UpdatedAt := 15\<rparr>)"
    by (simp add: offer_Accept_def offer_transition_valid sel)
  moreover have "offer_Reject (sample_offer 20 OfferSubmitted) 15 = Inl (OfferErr Offer_errInvalidOffer)"
    by (simp add: offer_Reject_def offer_transition_def sel)
  ultimately show ?thesis
    by (simp add: offer_mem_AcceptExclusive_def background_def sample_offers_def sel Let_def)
qed

end
