(* ===== verification/Pg_Offers.thy ===== *)
theory Pg_Offers
  imports Offers Pg
begin

text \<open>
  The Postgres store of the package \<open>offers\<close> (\<open>postgres.go\<close>) on the table of migration
  \<open>000045_offers_core\<close>. Its single-row operations do what the in-memory store does; its
  \<open>AcceptExclusive\<close> runs in a transaction and is all or nothing.
\<close>

section \<open>The table\<close>

text \<open>What a price becomes on its way through its two columns, and the constraint on the currency.\<close>

definition price_column :: "pg_codec \<Rightarrow> price option \<Rightarrow> price option" where
  "price_column cd = map_option (\<lambda>p. p\<lparr>Amount := pc_numeric cd (Amount p)\<rparr>)"

definition price_check :: "price option \<Rightarrow> bool" where
  "price_check p \<longleftrightarrow> (case p of None \<Rightarrow> True | Some p \<Rightarrow> currencyPattern (Currency p))"

definition offer_row :: "pg_codec \<Rightarrow> offer \<Rightarrow> offer" where
  "offer_row cd o' = o'\<lparr>offer_Price := price_column cd (offer_Price o'),
     offer_CreatedAt := pc_time cd (offer_CreatedAt o'), offer_UpdatedAt := pc_time cd (offer_UpdatedAt o')\<rparr>"

definition offer_check :: "offer \<Rightarrow> bool" where
  "offer_check o' \<longleftrightarrow>
     offer_Status o' \<in> {OfferSubmitted, OfferWithdrawn, OfferAccepted, OfferRejected, OfferExpired} \<and>
     price_check (offer_Price o') \<and> offer_CreatedAt o' \<le> offer_UpdatedAt o'"

text \<open>The two partial unique indexes.\<close>

definition offer_clash :: "offer \<Rightarrow> offer \<Rightarrow> bool" where
  "offer_clash a b \<longleftrightarrow> offer_NeedID a = offer_NeedID b \<and>
     (offer_Status a = OfferAccepted \<and> offer_Status b = OfferAccepted \<or>
      offer_ServiceID a = offer_ServiceID b \<and>
      offer_Status a = OfferSubmitted \<and> offer_Status b = OfferSubmitted)"

section \<open>The store\<close>

definition offer_mapDBErr :: "go_error \<Rightarrow> go_error" where
  [err_defs]: "offer_mapDBErr err =
     (if err = DbErr Db_ErrNoRows then OfferErr Offer_errNotFound
      else if err = DbErr Db_ErrConflict then OfferErr Offer_errConflict
      else if ctx_error err then err
      else OfferErr Offer_errUnavailable)"

type_synonym 'd offer_lens = "('d, (ID, offer) gomap) lens"

definition offer_pg_Create :: "pg_codec \<Rightarrow> 'd offer_lens \<Rightarrow> ctx \<Rightarrow> offer \<Rightarrow> ('d pg, unit) go" where
  "offer_pg_Create cd l c offer =
     gguard (offer_Validate offer)
       (pg_create offer_mapDBErr l offer_ID offer_check offer_clash c (offer_row cd offer))"

definition offer_pg_Get :: "'d offer_lens \<Rightarrow> ctx \<Rightarrow> ID \<Rightarrow> ('d pg, offer) go" where
  "offer_pg_Get l c i = pg_get offer_mapDBErr l c (\<lambda>o'. offer_ID o' = i)"

definition offer_pg_ListByNeed :: "'d offer_lens \<Rightarrow> ctx \<Rightarrow> ID \<Rightarrow> ('d pg, offer list) go" where
  "offer_pg_ListByNeed l c needID =
     pg_list offer_mapDBErr l c (\<lambda>o'. offer_NeedID o' = needID) (newest_first offer_CreatedAt offer_ID)"

definition offer_pg_ListByProvider :: "'d offer_lens \<Rightarrow> ctx \<Rightarrow> ID \<Rightarrow> ('d pg, offer list) go" where
  "offer_pg_ListByProvider l c providerUserID =
     pg_list offer_mapDBErr l c (\<lambda>o'. offer_ProviderUserID o' = providerUserID)
       (newest_first offer_CreatedAt offer_ID)"

definition offer_pg_FindSubmitted :: "'d offer_lens \<Rightarrow> ctx \<Rightarrow> ID \<Rightarrow> ID \<Rightarrow> ('d pg, offer) go" where
  "offer_pg_FindSubmitted l c needID serviceID =
     pg_get offer_mapDBErr l c (\<lambda>o'. offer_NeedID o' = needID \<and> offer_ServiceID o' = serviceID \<and>
       offer_Status o' = OfferSubmitted)"

definition offer_set :: "offer \<Rightarrow> offer \<Rightarrow> offer" where
  "offer_set o' r = r\<lparr>offer_Message := offer_Message o', offer_Price := offer_Price o',
     offer_Status := offer_Status o', offer_UpdatedAt := offer_UpdatedAt o'\<rparr>"

definition offer_pg_Update :: "pg_codec \<Rightarrow> 'd offer_lens \<Rightarrow> ctx \<Rightarrow> offer \<Rightarrow> time \<Rightarrow> ('d pg, unit) go" where
  "offer_pg_Update cd l c offer expectedUpdatedAt =
     gguard (offer_Validate offer)
       (pg_occ_update offer_mapDBErr (OfferErr Offer_errConflict) l offer_ID offer_check offer_clash c
          (offer_ID offer) (\<lambda>r. offer_UpdatedAt r = pc_time cd expectedUpdatedAt)
          (offer_set (offer_row cd offer)))"

text \<open>The loop over the siblings.\<close>

fun offer_pg_reject ::
  "pg_codec \<Rightarrow> 'd offer_lens \<Rightarrow> ctx \<Rightarrow> ID \<Rightarrow> time \<Rightarrow> offer list \<Rightarrow> ('d pg, unit) go" where
  "offer_pg_reject cd l c offerID now [] = gret ()"
| "offer_pg_reject cd l c offerID now (other # list) =
     (if offer_ID other = offerID \<or> offer_Status other \<noteq> OfferSubmitted
      then offer_pg_reject cd l c offerID now list
      else gbind (gpure (offer_Reject other now)) (\<lambda>rejected.
        gbind (offer_pg_Update cd l c rejected (offer_UpdatedAt other)) (\<lambda>_.
        offer_pg_reject cd l c offerID now list)))"

definition offer_pg_acceptExclusive ::
  "pg_codec \<Rightarrow> 'd offer_lens \<Rightarrow> ctx \<Rightarrow> ID \<Rightarrow> ID \<Rightarrow> time \<Rightarrow> ('d pg, offer) go" where
  "offer_pg_acceptExclusive cd l c offerID needID now =
     gbind (pg_list offer_mapDBErr l c (\<lambda>o'. offer_NeedID o' = needID) (sort_key offer_ID)) (\<lambda>list.
     case find (\<lambda>o'. offer_ID o' = offerID) list of
       None \<Rightarrow> gfail (OfferErr Offer_errNotFound)
     | Some current \<Rightarrow>
         if offer_Status current = OfferAccepted then gret (cloneOffer current)
         else if list_ex (\<lambda>other. offer_ID other \<noteq> offerID \<and> offer_Status other = OfferAccepted) list
           then gfail (OfferErr Offer_errConflict)
         else gbind (gpure (offer_Accept current now)) (\<lambda>nxt.
           gbind (offer_pg_Update cd l c nxt (offer_UpdatedAt current)) (\<lambda>_.
           gbind (offer_pg_reject cd l c offerID now list) (\<lambda>_. gret nxt))))"

definition offer_pg_AcceptExclusive ::
  "pg_codec \<Rightarrow> 'd offer_lens \<Rightarrow> ctx \<Rightarrow> ID \<Rightarrow> ID \<Rightarrow> time \<Rightarrow> ('d pg, offer) go" where
  "offer_pg_AcceptExclusive cd l c offerID needID now =
     (if ctx_tx c then offer_pg_acceptExclusive cd l c offerID needID now
      else gcase (pool_Begin c) (\<lambda>e. gfail (offer_mapDBErr e)) (\<lambda>_.
        gdefer (poolTx_Rollback c)
          (gbind (offer_pg_acceptExclusive cd l (WithTx c) offerID needID now) (\<lambda>got.
           gcase (poolTx_Commit c) (\<lambda>e. gfail (offer_mapDBErr e)) (\<lambda>_. gret got)))))"

definition offer_pg_store :: "pg_codec \<Rightarrow> 'd offer_lens \<Rightarrow> 'd pg offer_store" where
  "offer_pg_store cd l =
     \<lparr>ofs_Create = offer_pg_Create cd l, ofs_Get = offer_pg_Get l, ofs_ListByNeed = offer_pg_ListByNeed l,
      ofs_ListByProvider = offer_pg_ListByProvider l, ofs_FindSubmitted = offer_pg_FindSubmitted l,
      ofs_Update = offer_pg_Update cd l, ofs_AcceptExclusive = offer_pg_AcceptExclusive cd l\<rparr>"

section \<open>Its rows\<close>

definition offer_storable :: "pg_codec \<Rightarrow> offer \<Rightarrow> bool" where
  "offer_storable cd o' \<longleftrightarrow> offer_Validate o' = None \<and> offer_Validate (offer_row cd o') = None \<and>
     price_check (offer_Price o')"

lemma price_check_column [simp]: "price_check (price_column cd p) = price_check p"
  by (cases p) (simp_all add: price_check_def price_column_def)

lemma offer_row_fields [simp]:
  "offer_ID (offer_row cd o') = offer_ID o'" "offer_NeedID (offer_row cd o') = offer_NeedID o'"
  "offer_ServiceID (offer_row cd o') = offer_ServiceID o'" "offer_Status (offer_row cd o') = offer_Status o'"
  "offer_Price (offer_row cd o') = price_column cd (offer_Price o')"
  by (simp_all add: offer_row_def)

lemma offer_set_fields:
  "offer_NeedID (offer_set o' r) = offer_NeedID r" "offer_ServiceID (offer_set o' r) = offer_ServiceID r"
  by (simp_all add: offer_set_def)

lemma offer_storableD:
  assumes "offer_storable cd o'"
  shows "offer_Validate o' = None" "offer_Validate (offer_row cd o') = None" "offer_check (offer_row cd o')"
  using assms by (auto simp: offer_storable_def offer_Validate_None offer_check_def offer_status_valid_def)

lemma offer_clash_iff:
  "list_ex (\<lambda>s. offer_clash o' (snd s)) rows \<longleftrightarrow>
     offer_Status o' = OfferSubmitted \<and>
       list_ex (\<lambda>e. offer_NeedID e = offer_NeedID o' \<and> offer_ServiceID e = offer_ServiceID o' \<and>
         offer_Status e = OfferSubmitted) (map snd rows) \<or>
     offer_Status o' = OfferAccepted \<and>
       list_ex (\<lambda>e. offer_NeedID e = offer_NeedID o' \<and> offer_Status e = OfferAccepted) (map snd rows)"
  by (induction rows) (auto simp: offer_clash_def)

lemma offers_exclusive_clash:
  "offers_exclusive t \<longleftrightarrow> (\<forall>k l a b. t k = Some a \<longrightarrow> t l = Some b \<longrightarrow> offer_clash a b \<longrightarrow> k = l)"
  unfolding offers_exclusive_def offer_clash_def by blast

lemma offer_mem_inv_put:
  assumes inv: "offer_mem_inv m" and v: "offer_Validate o' = None"
    and free: "\<And>k x. offer_table m k = Some x \<Longrightarrow> offer_clash o' x \<Longrightarrow> k = offer_ID o'"
  shows "offer_mem_inv (m\<lparr>om_byID := AList.update (offer_ID o') o' (om_byID m)\<rparr>)"
proof -
  have sym: "offer_clash a b \<Longrightarrow> offer_clash b a" for a b by (auto simp: offer_clash_def)
  have "offers_exclusive ((offer_table m)(offer_ID o' \<mapsto> o'))"
    unfolding offers_exclusive_clash
  proof (intro allI impI)
    fix k l a b
    assume k: "((offer_table m)(offer_ID o' \<mapsto> o')) k = Some a"
      and l: "((offer_table m)(offer_ID o' \<mapsto> o')) l = Some b" and cl: "offer_clash a b"
    show "k = l"
    proof (cases "k = offer_ID o'"; cases "l = offer_ID o'")
      assume "k = offer_ID o'" "l \<noteq> offer_ID o'"
      then show ?thesis using k l cl free [of l b] by simp
    next
      assume "k \<noteq> offer_ID o'" "l = offer_ID o'"
      then show ?thesis using k l sym [OF cl] free [of k a] by simp
    next
      assume "k \<noteq> offer_ID o'" "l \<noteq> offer_ID o'"
      then show ?thesis
        using k l cl offer_mem_invD(2) [OF inv] unfolding offers_exclusive_clash by simp
    qed simp
  qed
  then show ?thesis using offer_mem_invD [OF inv] v by (simp add: offer_mem_inv_def)
qed

text \<open>
  An update keeps the Need and the service, and does not put an offer back among the submitted or into
  the accepted ones; acceptance goes through \<open>AcceptExclusive\<close>.
\<close>

interpretation offer_pg: table_store om_byID "\<lambda>m. offer_mem_inv m \<and> om_fail m = None" offer_ID offer_UpdatedAt
  "\<lambda>o'. offer_Validate o' = None" offer_clash
  "\<lambda>cur o'. offer_NeedID cur = offer_NeedID o' \<and> offer_ServiceID cur = offer_ServiceID o' \<and>
     (offer_Status o' \<in> {OfferSubmitted, OfferAccepted} \<longrightarrow> offer_Status cur = offer_Status o')"
  "OfferErr Offer_errNotFound" "OfferErr Offer_errConflict" offer_mem_Create offer_mem_Get offer_mem_Update
proof (unfold_locales, goal_cases)
  case (3 m c o' m' res)
  have inv: "res = Inr () \<Longrightarrow> offer_mem_inv m'" "\<And>e. res = Inl e \<Longrightarrow> m' = m"
    using 3 offer_mem_Create_inv [of m c o' m' "()"] offer_mem_Create_err [of c o' m m'] by auto
  have "offer_mem_Create c o' m =
      (if offer_table m (offer_ID o') \<noteq> None \<or> list_ex (\<lambda>s. offer_clash o' (snd s)) (om_byID m)
       then (m, Inl (OfferErr Offer_errConflict))
       else (m\<lparr>om_byID := AList.update (offer_ID o') o' (om_byID m)\<rparr>, Inr ()))"
    using 3(1-3) unfolding offer_clash_iff by (simp add: offer_mem_Create_def)
  with 3(1,4) inv show ?case by (auto split: if_splits)
next
  case (4 m c k)
  then show ?case by (simp add: offer_mem_Get_eq)
next
  case (5 m c o' v m' res)
  show ?case
  proof (cases "offer_table m (offer_ID o')")
    case None
    then show ?thesis using 5(1-4) by (auto simp: offer_mem_Update_def)
  next
    case (Some cur)
    have inv: "offer_mem_inv m" using 5(1) by simp
    note fr = 5(5) [OF Some]
    have one: "k = offer_ID o'" if "offer_table m k = Some x" "offer_clash o' x" for k x
    proof -
      have "offer_clash cur x" using that(2) fr by (auto simp: offer_clash_def)
      then show ?thesis
        using offer_mem_invD(2) [OF inv] Some that(1) unfolding offers_exclusive_clash by metis
    qed
    have free: "\<not> list_ex (\<lambda>s. fst s \<noteq> offer_ID o' \<and> offer_clash o' (snd s)) (om_byID m)"
      unfolding rows_ex [OF offer_mem_invD(1) [OF inv], of "\<lambda>k r. k \<noteq> offer_ID o' \<and> offer_clash o' r"]
      using one by blast
    have "offer_mem_inv (m\<lparr>om_byID := AList.update (offer_ID o') o' (om_byID m)\<rparr>)"
      by (rule offer_mem_inv_put [OF inv 5(3) one])
    moreover have "offer_mem_Update c o' v m =
        (if offer_UpdatedAt cur \<noteq> v then (m, Inl (OfferErr Offer_errConflict))
         else (m\<lparr>om_byID := AList.update (offer_ID o') o' (om_byID m)\<rparr>, Inr ()))"
      using 5(1-3) Some by (simp add: offer_mem_Update_def)
    ultimately show ?thesis using 5(1,4) free Some by (auto split: if_splits)
  qed
qed (auto simp: offer_mem_invD)

lemma offer_mapDBErr_simps [simp]:
  "offer_mapDBErr (DbErr Db_ErrNoRows) = OfferErr Offer_errNotFound"
  "offer_mapDBErr (DbErr Db_ErrConflict) = OfferErr Offer_errConflict"
  by (simp_all add: offer_mapDBErr_def)

lemmas offer_pg_defs = offer_pg_Create_def offer_pg_Get_def offer_pg_ListByNeed_def
  offer_pg_ListByProvider_def offer_pg_FindSubmitted_def offer_pg_Update_def

text \<open>C33. The Postgres store of offers implements the in-memory one, operation by operation and row by row,
  as long as an update does not try to accept an offer or to put one back (that is \<open>AcceptExclusive\<close>'s
  part, and the in-memory \<open>Update\<close> does not check it).\<close>

theorem offer_pg_refines:
  assumes "offer_pg.sim l m w" and "pg_up c w" and "lens_ok l" and "offer_storable cd o'"
    and "\<forall>cur. offer_table m (offer_ID o') = Some cur \<longrightarrow>
      offer_set (offer_row cd o') cur = offer_row cd o' \<and>
      (offer_Status o' \<in> {OfferSubmitted, OfferAccepted} \<longrightarrow> offer_Status cur = offer_Status o')"
  shows "(\<exists>m' w' r. offer_pg_Create cd l c o' w = (w', r) \<and>
      offer_mem_Create c (offer_row cd o') m = (m', r) \<and> offer_pg.sim l m' w') \<and>
    (\<exists>m' w' r. offer_pg_Update cd l c o' v w = (w', r) \<and>
      offer_mem_Update c (offer_row cd o') (pc_time cd v) m = (m', r) \<and> offer_pg.sim l m' w') \<and>
    (\<exists>w' r. offer_pg_Get l c i w = (w', r) \<and> offer_mem_Get c i m = (m, r) \<and> offer_pg.sim l m w') \<and>
    (\<exists>w' r. offer_pg_FindSubmitted l c i k w = (w', r) \<and> offer_mem_FindSubmitted c i k m = (m, r) \<and>
      offer_pg.sim l m w') \<and>
    (\<exists>w' r. offer_pg_ListByNeed l c i w = (w', r) \<and> offer_mem_ListByNeed c i m = (m, r) \<and>
      offer_pg.sim l m w') \<and>
    (\<exists>w' r. offer_pg_ListByProvider l c i w = (w', r) \<and> offer_mem_ListByProvider c i m = (m, r) \<and>
      offer_pg.sim l m w')"
proof -
  obtain w1 r1 where 1: "offer_pg_Create cd l c o' w = (w1, r1)" by fastforce
  obtain w2 r2 where 2: "offer_pg_Update cd l c o' v w = (w2, r2)" by fastforce
  obtain w3 r3 where 3: "offer_pg_Get l c i w = (w3, r3)" by fastforce
  obtain w4 r4 where 4: "offer_pg_FindSubmitted l c i k w = (w4, r4)" by fastforce
  obtain w5 r5 where 5: "offer_pg_ListByNeed l c i w = (w5, r5)" by fastforce
  obtain w6 r6 where 6: "offer_pg_ListByProvider l c i w = (w6, r6)" by fastforce
  note st = offer_storableD [OF assms(4)] and ctx = assms(2) [unfolded pg_up_def]
  have inv: "om_fail m = None" using assms(1) by (simp add: offer_pg.sim_def)
  have c1: "\<exists>m'. offer_mem_Create c (offer_row cd o') m = (m', r1) \<and> offer_pg.sim l m' w1"
    using 1 st by (intro offer_pg.create_sim [OF assms(1-3)]) (simp_all add: offer_pg_defs)
  have c2: "\<exists>m'. offer_mem_Update c (offer_row cd o') (pc_time cd v) m = (m', r2) \<and> offer_pg.sim l m' w2"
  proof (rule offer_pg.update_sim [where r = "offer_row cd o'" and chk = offer_check, OF assms(1-3) st(2,3),
        where mp = offer_mapDBErr and asg = "offer_set (offer_row cd o')"
        and cond = "\<lambda>r. offer_UpdatedAt r = pc_time cd v"], goal_cases)
    case (3 cur)
    then show ?case using assms(5) offer_set_fields [of "offer_row cd o'" cur] by auto
  qed (use 2 st(1) in \<open>simp_all add: offer_pg_defs\<close>)
  have c3: "offer_mem_Get c i m = (m, r3) \<and> offer_pg.sim l m w3"
    using 3 by (intro offer_pg.get_sim [OF assms(1-3)]) (simp_all add: offer_pg_defs)
  have c4: "offer_mem_FindSubmitted c i k m = (m, r4) \<and> offer_pg.sim l m w4"
    using offer_pg.find_sim [OF assms(1-3) _ 4 [unfolded offer_pg_defs]] ctx inv
    by (auto simp: offer_mem_FindSubmitted_def split: option.splits)
  have c5: "offer_pg.sim l m w5 \<and> offer_mem_ListByNeed c i m = (m, r5)"
    using offer_pg.list_sim [OF assms(1-3) 5 [unfolded offer_pg_defs]] ctx inv
    by (simp add: offer_mem_ListByNeed_def sortOffers_def map_idI)
  have c6: "offer_pg.sim l m w6 \<and> offer_mem_ListByProvider c i m = (m, r6)"
    using offer_pg.list_sim [OF assms(1-3) 6 [unfolded offer_pg_defs]] ctx inv
    by (simp add: offer_mem_ListByProvider_def sortOffers_def map_idI)
  show ?thesis unfolding 1 2 3 4 5 6 prod.inject using c1 c2 c3 c4 c5 c6 by blast
qed

section \<open>Acceptance\<close>

text \<open>
  What one call of \<open>AcceptExclusive\<close> makes of the rows: the offer is accepted, every submitted offer for
  the same Need is rejected, all other rows stay.
\<close>

definition offer_stamped :: "pg_codec \<Rightarrow> string \<Rightarrow> time \<Rightarrow> offer \<Rightarrow> offer" where
  "offer_stamped cd s now r = offer_set (offer_row cd (r\<lparr>offer_Status := s, offer_UpdatedAt := now\<rparr>)) r"

definition accept_pg_rows ::
  "pg_codec \<Rightarrow> ID \<Rightarrow> ID \<Rightarrow> time \<Rightarrow> (ID \<Rightarrow> offer option) \<Rightarrow> ID \<Rightarrow> offer option" where
  "accept_pg_rows cd offerID needID now t = (\<lambda>k. map_option (\<lambda>r.
     if k = offerID then offer_stamped cd OfferAccepted now r
     else if offer_NeedID r = needID \<and> offer_Status r = OfferSubmitted
       then offer_stamped cd OfferRejected now r
     else r) (t k))"

lemma offer_stamped_fields [simp]:
  "offer_Status (offer_stamped cd s now r) = s" "offer_NeedID (offer_stamped cd s now r) = offer_NeedID r"
  "offer_ID (offer_stamped cd s now r) = offer_ID r"
  "offer_ServiceID (offer_stamped cd s now r) = offer_ServiceID r"
  by (simp_all add: offer_stamped_def offer_set_def)

lemma offer_pg_Update_ok:
  assumes l: "lens_ok l" and run: "offer_pg_Update cd l c o' v w = (w', Inr u)"
  shows "\<exists>r. map_of (fst l (pg_data w)) (offer_ID o') = Some r \<and>
    fst l (pg_data w') = AList.update (offer_ID o') (offer_set (offer_row cd o') r) (fst l (pg_data w))"
proof -
  have "pg_occ_update offer_mapDBErr (OfferErr Offer_errConflict) l offer_ID offer_check offer_clash c
      (offer_ID o') (\<lambda>r. offer_UpdatedAt r = pc_time cd v) (offer_set (offer_row cd o')) w = (w', Inr u)"
    using gguard_InrD [OF run [unfolded offer_pg_Update_def]] by blast
  from pg_occ_update_ok [OF l this] show ?thesis by (auto simp: lens_okD(1) [OF l])
qed

lemma find_SomeD: "find p xs = Some x \<Longrightarrow> x \<in> set xs \<and> p x"
  by (auto simp: find_Some_iff)

lemma offer_pg_reject_ok:
  assumes l: "lens_ok l"
    and run: "offer_pg_reject cd l c offerID now list w = (w', Inr u)"
    and list: "distinct (map offer_ID list)"
      "\<And>r. r \<in> set list \<Longrightarrow> offer_ID r \<noteq> offerID \<Longrightarrow> map_of (fst l (pg_data w)) (offer_ID r) = Some r"
  shows "map_of (fst l (pg_data w')) k =
    (case find (\<lambda>r. offer_ID r = k) list of
       Some r \<Rightarrow> if k \<noteq> offerID \<and> offer_Status r = OfferSubmitted
         then Some (offer_stamped cd OfferRejected now r) else map_of (fst l (pg_data w)) k
     | None \<Rightarrow> map_of (fst l (pg_data w)) k)"
  using run list
proof (induction list arbitrary: w)
  case (Cons x xs)
  have notin: "find (\<lambda>r. offer_ID r = offer_ID x) xs = None"
    using Cons.prems(2) by (auto simp: find_None_iff) (metis imageI)
  show ?case
  proof (cases "offer_ID x = offerID \<or> offer_Status x \<noteq> OfferSubmitted")
    case True
    then have "offer_pg_reject cd l c offerID now xs w = (w', Inr u)" using Cons.prems(1) by simp
    from Cons.IH [OF this] Cons.prems(2,3) True notin show ?thesis by (auto split: if_splits)
  next
    case False
    with Cons.prems(1) obtain rj w1 where rj: "offer_Reject x now = Inr rj"
      and u1: "offer_pg_Update cd l c rj (offer_UpdatedAt x) w = (w1, Inr ())"
      and rest: "offer_pg_reject cd l c offerID now xs w1 = (w', Inr u)"
      by (auto elim!: gbind_InrE simp: gpure_def split: sum.splits)
    have rj': "rj = x\<lparr>offer_Status := OfferRejected, offer_UpdatedAt := now\<rparr>"
      using offer_RejectD [OF rj] by simp
    have x: "map_of (fst l (pg_data w)) (offer_ID x) = Some x" using Cons.prems(3) [of x] False by simp
    have w1: "map_of (fst l (pg_data w1)) =
        (map_of (fst l (pg_data w)))(offer_ID x \<mapsto> offer_stamped cd OfferRejected now x)"
      using offer_pg_Update_ok [OF l u1] x rj' by (auto simp: offer_stamped_def)
    have "map_of (fst l (pg_data w1)) (offer_ID r) = Some r" if "r \<in> set xs" "offer_ID r \<noteq> offerID" for r
      using that Cons.prems(2) Cons.prems(3) [of r] w1 by (auto simp: image_iff)
    from Cons.IH [OF rest _ this] Cons.prems(2) False w1 notin show ?thesis
      by (auto split: option.splits)
  qed
qed simp

lemma offer_pg_acceptExclusive_ok:
  assumes l: "lens_ok l" and ok: "table_ok offer_ID offer_check offer_clash (fst l (pg_data w))"
    and run: "offer_pg_acceptExclusive cd l c offerID needID now w = (w', Inr o')"
  shows "\<exists>cur. map_of (fst l (pg_data w)) offerID = Some cur \<and> offer_NeedID cur = needID \<and>
    (offer_Status cur = OfferAccepted \<and> fst l (pg_data w') = fst l (pg_data w) \<or>
     offer_Status cur = OfferSubmitted \<and>
     map_of (fst l (pg_data w')) = accept_pg_rows cd offerID needID now (map_of (fst l (pg_data w))))"
proof -
  let ?rows = "fst l (pg_data w)"
  let ?of = "\<lambda>o'. offer_NeedID o' = needID"
  define rs where "rs = sort_key offer_ID (filter ?of (map snd ?rows))"
  obtain w1 rs' where ls: "pg_list offer_mapDBErr l c ?of (sort_key offer_ID) w = (w1, Inr rs')"
    and run1: "(case find (\<lambda>o'. offer_ID o' = offerID) rs' of
       None \<Rightarrow> gfail (OfferErr Offer_errNotFound)
     | Some current \<Rightarrow>
         if offer_Status current = OfferAccepted then gret (cloneOffer current)
         else if list_ex (\<lambda>other. offer_ID other \<noteq> offerID \<and> offer_Status other = OfferAccepted) rs'
           then gfail (OfferErr Offer_errConflict)
         else gbind (gpure (offer_Accept current now)) (\<lambda>nxt.
           gbind (offer_pg_Update cd l c nxt (offer_UpdatedAt current)) (\<lambda>_.
           gbind (offer_pg_reject cd l c offerID now rs') (\<lambda>_. gret nxt)))) w1 = (w', Inr o')"
    using run [unfolded offer_pg_acceptExclusive_def] by (rule gbind_InrE)
  have w1: "pg_data w1 = pg_data w" and rs': "rs' = rs" using pg_list_ok [OF l ls] by (auto simp: rs_def)
  note run1 = run1 [unfolded rs']
  have in_rs: "r \<in> set rs \<longleftrightarrow> map_of ?rows (offer_ID r) = Some r \<and> ?of r" for r
    using table_ok_rows(2) [OF ok, of r ?of] by (simp add: rs_def)
  have dist: "distinct (map offer_ID rs)" unfolding rs_def by (rule table_ok_rows(1) [OF ok])
  obtain cur where cur: "find (\<lambda>o'. offer_ID o' = offerID) rs = Some cur"
    using run1 by (cases "find (\<lambda>o'. offer_ID o' = offerID) rs") auto
  then have c1: "map_of ?rows offerID = Some cur" "?of cur" using in_rs [of cur] find_SomeD by fastforce+
  show ?thesis
  proof (cases "offer_Status cur = OfferAccepted")
    case True
    then show ?thesis using run1 cur c1 w1 by auto
  next
    case False
    with run1 cur obtain nxt w2 w3 where nxt: "offer_Accept cur now = Inr nxt"
      and u2: "offer_pg_Update cd l c nxt (offer_UpdatedAt cur) w1 = (w2, Inr ())"
      and u3: "offer_pg_reject cd l c offerID now rs w2 = (w3, Inr ())" and w': "w' = w3"
      by (auto elim!: gbind_InrE simp: gpure_def split: sum.splits if_splits)
    note acc = offer_AcceptD [OF nxt]
    have id: "offer_ID cur = offerID" using table_okD(2) [OF ok c1(1)] .
    have w2: "map_of (fst l (pg_data w2)) = (map_of ?rows)(offerID \<mapsto> offer_stamped cd OfferAccepted now cur)"
      using offer_pg_Update_ok [OF l u2] acc c1(1) w1 id by (auto simp: offer_stamped_def)
    have "map_of (fst l (pg_data w2)) (offer_ID r) = Some r" if "r \<in> set rs" "offer_ID r \<noteq> offerID" for r
      using that in_rs w2 by simp
    note rej = offer_pg_reject_ok [OF l u3 dist this]
    have "map_of (fst l (pg_data w')) k = accept_pg_rows cd offerID needID now (map_of ?rows) k" for k
    proof (cases "find (\<lambda>r. offer_ID r = k) rs")
      case None
      have "\<not> ?of r" if "map_of ?rows k = Some r" for r
        using None that in_rs [of r] table_okD(2) [OF ok that] by (auto simp: find_None_iff)
      then show ?thesis using rej [of k] None w' w2 c1
        by (cases "map_of ?rows k") (auto simp: accept_pg_rows_def)
    next
      case (Some r)
      then have "map_of ?rows k = Some r" "?of r" using in_rs [of r] find_SomeD by fastforce+
      then show ?thesis using rej [of k] Some w' w2 c1 by (auto simp: accept_pg_rows_def)
    qed
    then show ?thesis using c1 acc by auto
  qed
qed

lemma keeps_offer_pg_Update [intro]: "keeps pg_grows (offer_pg_Update cd l c o' v)"
  unfolding offer_pg_Update_def by (intro grows.keeps_gguard keeps_pg_store)

lemma keeps_offer_pg_reject: "keeps pg_grows (offer_pg_reject cd l c offerID now list)"
proof (induction list)
  case Nil
  show ?case unfolding offer_pg_reject.simps by (rule grows.keeps_gret)
next
  case (Cons x xs)
  then show ?case
    unfolding offer_pg_reject.simps
    by (intro grows.keeps_if grows.keeps_gbind grows.keeps_gpure keeps_offer_pg_Update)
qed

lemma keeps_offer_pg_acceptExclusive: "keeps pg_grows (offer_pg_acceptExclusive cd l c offerID needID now)"
  unfolding offer_pg_acceptExclusive_def
  by (intro grows.keeps_gbind keeps_pg_store)
    (auto intro!: grows.keeps_gbind keeps_offer_pg_reject split: option.split)

lemma gmaperr_id [simp]: "gmaperr (\<lambda>e. e) m = m"
  by (auto simp: gmaperr_apply split: prod.split sum.split)

text \<open>Outside of a transaction the operation opens one, as the services do for theirs.\<close>

lemma offer_pg_AcceptExclusive_tx:
  assumes "\<not> ctx_tx c"
  shows "offer_pg_AcceptExclusive cd l c offerID needID now =
    run_maybe_tx offer_mapDBErr (Some ob) (Some (PoolTransactor (\<lambda>e. e))) c
      (\<lambda>c. offer_pg_acceptExclusive cd l c offerID needID now)"
  using assms by (simp add: offer_pg_AcceptExclusive_def run_maybe_tx_def PoolTransactor_def)

text \<open>No command of the store breaks the constraints of the table.\<close>

lemma offer_clash_sym: "offer_clash a b \<Longrightarrow> offer_clash b a"
  by (auto simp: offer_clash_def)

lemma offer_pg_safe:
  assumes P: "table_part P l offer_ID offer_check offer_clash"
  shows "keeps (pg_keeps_safe P) (offer_pg_Create cd l c o')"
    and "keeps (pg_keeps_safe P) (offer_pg_Get l c i)"
    and "keeps (pg_keeps_safe P) (offer_pg_ListByNeed l c i)"
    and "keeps (pg_keeps_safe P) (offer_pg_ListByProvider l c i)"
    and "keeps (pg_keeps_safe P) (offer_pg_FindSubmitted l c i k)"
    and "keeps (pg_keeps_safe P) (offer_pg_Update cd l c o' v)"
    and "keeps (pg_keeps_safe P) (offer_pg_AcceptExclusive cd l c i k now)"
proof -
  have upd: "keeps (pg_keeps_safe P) (offer_pg_Update cd l c o' v)" for c o' v
    unfolding offer_pg_defs by (intro safe.keeps_gguard keeps_safe_store(4) [OF P]) (simp add: offer_set_def)
  then show "keeps (pg_keeps_safe P) (offer_pg_Update cd l c o' v)" .
  have rej: "keeps (pg_keeps_safe P) (offer_pg_reject cd l c i now list)" for c list
  proof (induction list)
    case Nil
    show ?case unfolding offer_pg_reject.simps by (rule safe.keeps_gret)
  next
    case (Cons x xs)
    then show ?case
      unfolding offer_pg_reject.simps by (intro safe.keeps_if safe.keeps_gbind safe.keeps_gpure upd)
  qed
  have body: "keeps (pg_keeps_safe P) (offer_pg_acceptExclusive cd l c i k now)" for c
    unfolding offer_pg_acceptExclusive_def
    by (intro safe.keeps_gbind keeps_safe_store(3) [OF P])
      (auto intro!: safe.keeps_gbind upd rej split: option.split)
  show "keeps (pg_keeps_safe P) (offer_pg_AcceptExclusive cd l c i k now)"
    unfolding offer_pg_AcceptExclusive_def
    by (intro safe.keeps_if safe.keeps_gcase safe.keeps_gdefer safe.keeps_gbind safe.keeps_gfail safe.keeps_gret
        keeps_safe_tx body)
qed (unfold offer_pg_defs, (intro safe.keeps_gguard keeps_safe_store(1-3) [OF P])+)

text \<open>C15. \<open>AcceptExclusive\<close> of the Postgres store is all or nothing, whatever the database refuses or
  loses: either no row changed, or the offer is accepted and every other submitted offer for its Need is
  rejected, and nothing else is touched. Success means that the offer is accepted; in no case has the Need
  two accepted offers afterwards.\<close>

theorem offer_pg_accept_atomic:
  assumes "pg_saved w = None" and "\<not> ctx_tx c" and l: "lens_ok l"
    and ok: "table_ok offer_ID offer_check offer_clash (fst l (pg_data w))"
    and run: "offer_pg_AcceptExclusive cd l c offerID needID now w = (w', r)"
  shows "pg_saved w' = None \<and>
    (fst l (pg_data w') = fst l (pg_data w) \<or>
     (\<exists>cur. map_of (fst l (pg_data w)) offerID = Some cur \<and> offer_NeedID cur = needID \<and>
        offer_Status cur = OfferSubmitted) \<and>
     map_of (fst l (pg_data w')) = accept_pg_rows cd offerID needID now (map_of (fst l (pg_data w)))) \<and>
    ((\<exists>o'. r = Inr o') \<longrightarrow> (\<exists>acc. map_of (fst l (pg_data w')) offerID = Some acc \<and>
       offer_Status acc = OfferAccepted \<and> offer_NeedID acc = needID)) \<and>
    table_ok offer_ID offer_check offer_clash (fst l (pg_data w'))"
proof -
  let ?P = "\<lambda>d. table_ok offer_ID offer_check offer_clash (fst l d)"
  have "pg_safe ?P w" using ok assms(1) by (simp add: pg_safe_def)
  then have "pg_safe ?P w'"
    using offer_pg_safe(7) [OF table_part_single [OF l, of offer_clash offer_ID offer_check, OF offer_clash_sym],
        of cd c offerID needID now] run
    unfolding keeps_def pg_keeps_safe_def by (metis fst_conv)
  then have ok': "?P (pg_data w')" by (simp add: pg_safe_def)
  note uw = pool_unit_of_work [OF assms(1,2) keeps_offer_pg_acceptExclusive
      run [unfolded offer_pg_AcceptExclusive_tx [OF assms(2), where ob = "\<lambda>_ _. gret ()"]]]
  show ?thesis
  proof (cases "pg_data w' = pg_data w \<and> (\<exists>e. r = Inl e)")
    case True
    then show ?thesis using uw ok' by auto
  next
    case False
    with uw obtain w1 w2 x where w1: "pg_data w1 = pg_data w" and w2: "pg_data w' = pg_data w2"
      and body: "offer_pg_acceptExclusive cd l (WithTx c) offerID needID now w1 = (w2, Inr x)"
      by blast
    have ok1: "table_ok offer_ID offer_check offer_clash (fst l (pg_data w1))" using ok w1 by simp
    from offer_pg_acceptExclusive_ok [OF l ok1 body] uw ok' show ?thesis
      unfolding w1 w2 by (auto simp: accept_pg_rows_def)
  qed
qed

section \<open>Samples\<close>

definition sample_price :: price where
  "sample_price = \<lparr>Amount = ''10.50'', Currency = ''TRY''\<rparr>"

lemma sample_price_ok [simp]:
  "price_normalized e (Some sample_price) = Inr (Some sample_price)"
  "price_check (Some sample_price)" "price_column sample_codec (Some sample_price) = Some sample_price"
proof -
  have "amountPattern ''10.50''" "currencyPattern ''TRY''"
    by (simp_all add: amountPattern_def currencyPattern_def is_digit_def is_upper_def)
  then show "price_normalized e (Some sample_price) = Inr (Some sample_price)"
    "price_check (Some sample_price)"
    using big_Rat_SetString_ok [of "''10.50''"]
    by (auto simp: price_normalized_def price_check_def sample_price_def)
  show "price_column sample_codec (Some sample_price) = Some sample_price"
    by (simp add: price_column_def sample_codec_def sample_price_def)
qed

definition sample_pg_offer :: "nat \<Rightarrow> string \<Rightarrow> time \<Rightarrow> offer" where
  "sample_pg_offer n s t = (sample_offer n s)\<lparr>offer_CreatedAt := 40000, offer_UpdatedAt := t,
     offer_Price := Some sample_price\<rparr>"

lemma sample_pg_offer_fields [simp]:
  "offer_ID (sample_pg_offer n s t) = id_n n" "offer_UpdatedAt (sample_pg_offer n s t) = t"
  "offer_Status (sample_pg_offer n s t) = s" "offer_Price (sample_pg_offer n s t) = Some sample_price"
  "offer_NeedID (sample_pg_offer n s t) = id_n 1" "offer_CreatedAt (sample_pg_offer n s t) = 40000"
  "offer_ServiceID (sample_pg_offer n s t) = id_n (n + 100)"
  by (simp_all add: sample_pg_offer_def sample_offer_def)

lemma sample_pg_offer_valid [simp]:
  "0 < n \<Longrightarrow> n < 100 \<Longrightarrow> 40000 \<le> t \<Longrightarrow> offer_status_valid s \<Longrightarrow> offer_Validate (sample_pg_offer n s t) = None"
  by (simp add: offer_Validate_def) (simp add: sample_pg_offer_def sample_offer_def
      normalizeMessage_def offer_price_normalized_def)

lemma sample_pg_offer_row [simp]:
  "offer_row sample_codec (sample_pg_offer n s t) = sample_pg_offer n s (t div 1000 * 1000)"
  by (simp add: offer_row_def sample_pg_offer_def sample_offer_def) (simp add: sample_codec_def)

theorem offer_pg_refines_witness:
  "\<exists>w'. offer_pg_Update sample_codec whole background (sample_pg_offer 10 OfferWithdrawn 50700) 40000
      (sample_pg [(id_n 10, sample_pg_offer 10 OfferSubmitted 40000)]) = (w', Inr ()) \<and>
    pg_data w' = [(id_n 10, sample_pg_offer 10 OfferWithdrawn 50000)]"
proof -
  let ?m = "\<lparr>om_byID = [(id_n 10, sample_pg_offer 10 OfferSubmitted 40000)], om_fail = None\<rparr>"
  have st: "offer_storable sample_codec (sample_pg_offer 10 OfferWithdrawn 50700)"
    by (simp add: offer_storable_def)
  have "offer_mem_inv ?m" by (simp add: offer_mem_inv_def wf_map_def offers_exclusive_def)
  then have sim: "offer_pg.sim whole ?m (sample_pg [(id_n 10, sample_pg_offer 10 OfferSubmitted 40000)])"
    by (simp add: offer_pg.sim_def)
  have fr: "\<forall>cur. offer_table ?m (offer_ID (sample_pg_offer 10 OfferWithdrawn 50700)) = Some cur \<longrightarrow>
      offer_set (offer_row sample_codec (sample_pg_offer 10 OfferWithdrawn 50700)) cur =
      offer_row sample_codec (sample_pg_offer 10 OfferWithdrawn 50700) \<and>
      (offer_Status (sample_pg_offer 10 OfferWithdrawn 50700) \<in> {OfferSubmitted, OfferAccepted} \<longrightarrow>
       offer_Status cur = offer_Status (sample_pg_offer 10 OfferWithdrawn 50700))"
    by simp (simp add: offer_set_def sample_pg_offer_def sample_offer_def)
  have mem: "offer_mem_Update background (sample_pg_offer 10 OfferWithdrawn 50000) 40000 ?m =
      (?m\<lparr>om_byID := [(id_n 10, sample_pg_offer 10 OfferWithdrawn 50000)]\<rparr>, Inr ())"
    by (simp add: offer_mem_Update_def background_def)
  obtain m' w' r where u: "offer_pg_Update sample_codec whole background (sample_pg_offer 10 OfferWithdrawn 50700)
      40000 (sample_pg [(id_n 10, sample_pg_offer 10 OfferSubmitted 40000)]) = (w', r)"
    and m': "offer_mem_Update background (offer_row sample_codec (sample_pg_offer 10 OfferWithdrawn 50700))
      (pc_time sample_codec 40000) ?m = (m', r)" and s: "offer_pg.sim whole m' w'"
    using offer_pg_refines [OF sim sample_pg_up(1) whole_ok(1) st fr, of 40000] by blast
  have "pc_time sample_codec 40000 = 40000" by (simp add: sample_codec_def)
  then have "r = Inr ()" "om_byID m' = [(id_n 10, sample_pg_offer 10 OfferWithdrawn 50000)]"
    using m' mem by auto
  then show ?thesis using u s by (simp add: offer_pg.sim_def)
qed

definition sample_pg_offers :: "(ID, offer) gomap" where
  "sample_pg_offers = [(id_n 10, sample_pg_offer 10 OfferSubmitted 40000),
     (id_n 11, sample_pg_offer 11 OfferSubmitted 40000)]"

lemma sample_pg_offers_ok: "table_ok offer_ID offer_check offer_clash sample_pg_offers"
  by (auto simp: sample_pg_offers_def table_ok_def wf_map_def offer_check_def offer_clash_def split: if_splits)

theorem offer_pg_accept_atomic_witness:
  "\<exists>w' r. offer_pg_AcceptExclusive sample_codec whole background (id_n 10) (id_n 1) 50700
      ((sample_pg sample_pg_offers)\<lparr>pg_fate := (\<lambda>n. if n = 4 then Lost Pg_Other else Runs)\<rparr>) = (w', r) \<and>
    (pg_data w' = sample_pg_offers \<or>
     map_of (pg_data w') =
       accept_pg_rows sample_codec (id_n 10) (id_n 1) 50700 (map_of sample_pg_offers)) \<and>
    table_ok offer_ID offer_check offer_clash (pg_data w')"
proof -
  let ?w = "(sample_pg sample_pg_offers)\<lparr>pg_fate := (\<lambda>n. if n = 4 then Lost Pg_Other else Runs)\<rparr>"
  obtain w' r where run: "offer_pg_AcceptExclusive sample_codec whole background (id_n 10) (id_n 1) 50700 ?w = (w', r)"
    by fastforce
  have "pg_saved ?w = None" "\<not> ctx_tx background" "pg_data ?w = sample_pg_offers"
    by (simp_all add: sample_pg_def background_def)
  from offer_pg_accept_atomic [OF this(1,2) whole_ok(1) _ run] this(3) sample_pg_offers_ok run show ?thesis
    by auto
qed

end
