(* ===== verification/Go_Time.thy ===== *)
theory Go_Time
  imports Go_Id
begin

text \<open>
  Instants written as RFC 3339 text, the form in which events carry them: the calendar of Go's
  \<open>time\<close> package and \<open>t.UTC().Format(time.RFC3339)\<close>.
\<close>

section \<open>Decimal text\<close>

definition dec_digit :: "nat \<Rightarrow> char" where
  "dec_digit n = char_of (0x30 + n mod 10)"

fun dec :: "nat \<Rightarrow> string" where
  "dec n = (if n < 10 then [dec_digit n] else dec (n div 10) @ [dec_digit n])"

declare dec.simps [simp del]

text \<open>\<open>appendInt\<close>: at least \<open>w\<close> digits, a sign in front of a negative number.\<close>

definition pad_dec :: "nat \<Rightarrow> int \<Rightarrow> string" where
  "pad_dec w n =
     (let ds = dec (nat \<bar>n\<bar>)
      in (if n < 0 then ''-'' else []) @ replicate (w - length ds) CHR ''0'' @ ds)"

lemma graphic_dec_digit [simp]: "graphic (dec_digit n)"
proof -
  have "n mod 10 < 10" by simp
  then show ?thesis by (simp add: dec_digit_def graphic_def of_char_of)
qed

lemma graphic_dec: "list_all graphic (dec n)"
  by (induction n rule: dec.induct) (subst dec.simps, simp)

lemma dec_ne [simp]: "dec n \<noteq> []"
  by (subst dec.simps) simp

lemma graphic_pad_dec: "list_all graphic (pad_dec w n)"
proof -
  have "graphic CHR ''0''" and "graphic CHR ''-''" by (simp_all add: graphic_def)
  then show ?thesis by (simp add: pad_dec_def Let_def graphic_dec list_all_iff)
      (use graphic_dec in \<open>auto simp: list_all_iff\<close>)
qed

section \<open>The calendar\<close>

definition leap_year :: "int \<Rightarrow> bool" where
  "leap_year y \<longleftrightarrow> y mod 4 = 0 \<and> (y mod 100 \<noteq> 0 \<or> y mod 400 = 0)"

definition month_lengths :: "int \<Rightarrow> int list" where
  "month_lengths y = [31, if leap_year y then 29 else 28, 31, 30, 31, 30, 31, 31, 30, 31, 30, 31]"

fun month_day :: "int list \<Rightarrow> int \<Rightarrow> int \<Rightarrow> int \<times> int" where
  "month_day [] m d = (m, d)"
| "month_day (l # ls) m d = (if d \<le> l then (m, d) else month_day ls (m + 1) (d - l))"

text \<open>Year, month and day of a day counted from January 1 of year 1.\<close>

definition civil :: "int \<Rightarrow> int \<times> int \<times> int" where
  "civil days =
     (let n400 = days div 146097; r400 = days mod 146097;
          n100 = min 3 (r400 div 36524); r100 = r400 - 36524 * n100;
          n4 = r100 div 1461; r4 = r100 mod 1461;
          n1 = min 3 (r4 div 365);
          y = 400 * n400 + 100 * n100 + 4 * n4 + n1 + 1;
          (m, d) = month_day (month_lengths y) 1 (r4 - 365 * n1 + 1)
      in (y, m, d))"

definition time_Format_RFC3339 :: "time \<Rightarrow> string" where
  "time_Format_RFC3339 t =
     (let secs = t div 1000000000; sod = secs mod 86400;
          (y, m, d) = civil (secs div 86400)
      in pad_dec 4 y @ ''-'' @ pad_dec 2 m @ ''-'' @ pad_dec 2 d @ ''T'' @
         pad_dec 2 (sod div 3600) @ '':'' @ pad_dec 2 (sod mod 3600 div 60) @ '':'' @
         pad_dec 2 (sod mod 60) @ ''Z'')"

lemma graphic_RFC3339: "list_all graphic (time_Format_RFC3339 t)"
proof -
  have c: "graphic CHR ''-''" "graphic CHR ''T''" "graphic CHR '':''" "graphic CHR ''Z''"
    by (simp_all add: graphic_def)
  show ?thesis
    by (simp add: time_Format_RFC3339_def Let_def graphic_pad_dec c split: prod.split)
qed

lemma RFC3339_ne [simp]: "time_Format_RFC3339 t \<noteq> []"
  by (simp add: time_Format_RFC3339_def Let_def split: prod.split)

lemma TrimSpace_RFC3339 [simp]: "strings_TrimSpace (time_Format_RFC3339 t) = time_Format_RFC3339 t"
  by (simp add: TrimSpace_graphic graphic_RFC3339)

text \<open>Known dates: the Unix epoch, and a leap day.\<close>

lemma civil_epoch: "civil 719162 = (1970, 1, 1)"
  by (simp add: civil_def month_lengths_def leap_year_def Let_def)

lemma civil_leap_day: "civil 738944 = (2024, 2, 29)"
  by (simp add: civil_def month_lengths_def leap_year_def Let_def)

end
