(* ===== verification/Transactions.thy ===== *)
theory Transactions
  imports Offers Go_Time
begin

text \<open>
  The package \<open>transactions\<close>: the commercial agreement made from an accepted offer (\<open>domain.go\<close>), the
  in-memory store with its index by offer (\<open>memory.go\<close>), the service (\<open>service.go\<close>), its events
  (\<open>events.go\<close>, \<open>contracts/events.go\<close>), the handler that fulfils the Need of a completed Transaction
  (\<open>handler.go\<close>), and the read surface for other packages (\<open>lookup.go\<close>, \<open>contracts/lookup.go\<close>).
\<close>

section \<open>Data\<close>

definition TxnPending :: string where "TxnPending = ''pending''"
definition TxnActive :: string where "TxnActive = ''active''"
definition TxnCompleted :: string where "TxnCompleted = ''completed''"
definition TxnCancelled :: string where "TxnCancelled = ''cancelled''"

lemmas txn_status_defs = TxnPending_def TxnActive_def TxnCompleted_def TxnCancelled_def

lemma txn_status_neq [simp]:
  "TxnPending \<noteq> TxnActive" "TxnPending \<noteq> TxnCompleted" "TxnPending \<noteq> TxnCancelled"
  "TxnActive \<noteq> TxnPending" "TxnActive \<noteq> TxnCompleted" "TxnActive \<noteq> TxnCancelled"
  "TxnCompleted \<noteq> TxnPending" "TxnCompleted \<noteq> TxnActive" "TxnCompleted \<noteq> TxnCancelled"
  "TxnCancelled \<noteq> TxnPending" "TxnCancelled \<noteq> TxnActive" "TxnCancelled \<noteq> TxnCompleted"
  by (simp_all add: txn_status_defs)

definition txn_status_valid :: "string \<Rightarrow> bool" where
  "txn_status_valid s \<longleftrightarrow> s = TxnPending \<or> s = TxnActive \<or> s = TxnCompleted \<or> s = TxnCancelled"

definition txn_status_Terminal :: "string \<Rightarrow> bool" where
  "txn_status_Terminal s \<longleftrightarrow> s = TxnCompleted \<or> s = TxnCancelled"

definition txn_ParseID :: "string \<Rightarrow> ID res" where
  "txn_ParseID = ParseID (TxnErr Txn_errInvalidTxn) (TxnErr Txn_errZeroID)"

definition txn_price_normalized :: "price option \<Rightarrow> price option res" where
  "txn_price_normalized = price_normalized (TxnErr Txn_errInvalidPrice)"

record txn =
  txn_ID :: ID
  txn_OfferID :: ID
  txn_NeedID :: ID
  txn_RequesterUserID :: ID
  txn_ProviderUserID :: ID
  txn_ProviderBusinessID :: ID
  txn_ServiceID :: ID
  txn_Price :: "price option"
  txn_Status :: string
  txn_CreatedAt :: time
  txn_UpdatedAt :: time
  txn_CompletedAt :: "time option"
  txn_CancelledAt :: "time option"

definition txn_Validate :: "txn \<Rightarrow> go_error option" where
  "txn_Validate t =
     (if ID_IsZero (txn_ID t) \<or> ID_IsZero (txn_OfferID t) \<or> ID_IsZero (txn_NeedID t) \<or>
         ID_IsZero (txn_RequesterUserID t) \<or> ID_IsZero (txn_ProviderUserID t) \<or>
         ID_IsZero (txn_ProviderBusinessID t) \<or> ID_IsZero (txn_ServiceID t)
        then Some (TxnErr Txn_errZeroID)
      else if txn_RequesterUserID t = txn_ProviderUserID t then Some (TxnErr Txn_errInvalidTxn)
      else if \<not> txn_status_valid (txn_Status t) then Some (TxnErr Txn_errInvalidStatus)
      else case txn_price_normalized (txn_Price t) of Inl e \<Rightarrow> Some e | Inr _ \<Rightarrow>
      if time_IsZero (txn_CreatedAt t) \<or> time_Before (txn_UpdatedAt t) (txn_CreatedAt t)
        then Some (TxnErr Txn_errInvalidTxn)
      else if txn_Status t = TxnCompleted then
        (case txn_CompletedAt t of
           None \<Rightarrow> Some (TxnErr Txn_errInvalidTxn)
         | Some d \<Rightarrow>
             if txn_CancelledAt t \<noteq> None then Some (TxnErr Txn_errInvalidTxn)
             else if time_Before d (txn_CreatedAt t) then Some (TxnErr Txn_errInvalidTxn)
             else None)
      else if txn_Status t = TxnCancelled then
        (case txn_CancelledAt t of
           None \<Rightarrow> Some (TxnErr Txn_errInvalidTxn)
         | Some d \<Rightarrow>
             if txn_CompletedAt t \<noteq> None then Some (TxnErr Txn_errInvalidTxn)
             else if time_Before d (txn_CreatedAt t) then Some (TxnErr Txn_errInvalidTxn)
             else None)
      else if txn_CompletedAt t \<noteq> None \<or> txn_CancelledAt t \<noteq> None
        then Some (TxnErr Txn_errInvalidTxn)
      else None)"

definition txn_Participant :: "txn \<Rightarrow> ID \<Rightarrow> bool" where
  "txn_Participant t userID \<longleftrightarrow>
     \<not> ID_IsZero userID \<and> (txn_RequesterUserID t = userID \<or> txn_ProviderUserID t = userID)"

definition cloneTxn :: "txn \<Rightarrow> txn" where
  "cloneTxn t = t\<lparr>txn_CompletedAt := map_option time_UTC (txn_CompletedAt t),
                  txn_CancelledAt := map_option time_UTC (txn_CancelledAt t)\<rparr>"

lemma cloneTxn_id [simp]: "cloneTxn t = t"
  by (simp add: cloneTxn_def)

section \<open>Life cycle\<close>

record accepted_source =
  as_OfferID :: ID
  as_NeedID :: ID
  as_RequesterUserID :: ID
  as_ProviderUserID :: ID
  as_ProviderBusinessID :: ID
  as_ServiceID :: ID
  as_Price :: "price option"

definition txn_CreatePending :: "accepted_source \<Rightarrow> time \<Rightarrow> ID option \<Rightarrow> txn res" where
  "txn_CreatePending src now entropy =
     (if ID_IsZero (as_OfferID src) \<or> ID_IsZero (as_NeedID src) \<or>
         ID_IsZero (as_RequesterUserID src) \<or> ID_IsZero (as_ProviderUserID src) \<or>
         ID_IsZero (as_ProviderBusinessID src) \<or> ID_IsZero (as_ServiceID src)
        then Inl (TxnErr Txn_errZeroID)
      else if time_IsZero now then Inl (TxnErr Txn_errInvalidTxn)
      else case txn_price_normalized (as_Price src) of Inl e \<Rightarrow> Inl e | Inr price \<Rightarrow>
      case NewID entropy of None \<Rightarrow> Inl (TxnErr Txn_errUnavailable) | Some i \<Rightarrow>
      let t = \<lparr>txn_ID = i, txn_OfferID = as_OfferID src, txn_NeedID = as_NeedID src,
               txn_RequesterUserID = as_RequesterUserID src,
               txn_ProviderUserID = as_ProviderUserID src,
               txn_ProviderBusinessID = as_ProviderBusinessID src,
               txn_ServiceID = as_ServiceID src, txn_Price = price, txn_Status = TxnPending,
               txn_CreatedAt = time_UTC now, txn_UpdatedAt = time_UTC now,
               txn_CompletedAt = None, txn_CancelledAt = None\<rparr>
      in case txn_Validate t of Some e \<Rightarrow> Inl e | None \<Rightarrow> Inr t)"

definition txn_withStatus :: "txn \<Rightarrow> string \<Rightarrow> time \<Rightarrow> txn" where
  "txn_withStatus t nxt now = t\<lparr>txn_Status := nxt, txn_UpdatedAt := time_UTC now\<rparr>"

definition txn_Start :: "txn \<Rightarrow> time \<Rightarrow> (txn \<times> bool) res" where
  "txn_Start t now =
     (if txn_Status t = TxnActive then Inr (t, False)
      else if txn_Status t \<noteq> TxnPending then Inl (TxnErr Txn_errInvalidTransition)
      else let nxt = txn_withStatus t TxnActive now
           in case txn_Validate nxt of Some e \<Rightarrow> Inl e | None \<Rightarrow> Inr (nxt, True))"

definition txn_Complete :: "txn \<Rightarrow> time \<Rightarrow> (txn \<times> bool) res" where
  "txn_Complete t now =
     (if txn_Status t = TxnCompleted then Inr (t, False)
      else if txn_Status t \<noteq> TxnActive then Inl (TxnErr Txn_errInvalidTransition)
      else let nxt = txn_withStatus t TxnCompleted now;
               nxt = nxt\<lparr>txn_CompletedAt := Some (txn_UpdatedAt nxt)\<rparr>
           in case txn_Validate nxt of Some e \<Rightarrow> Inl e | None \<Rightarrow> Inr (nxt, True))"

definition txn_Cancel :: "txn \<Rightarrow> time \<Rightarrow> (txn \<times> bool) res" where
  "txn_Cancel t now =
     (if txn_Status t = TxnCancelled then Inr (t, False)
      else if txn_Status t \<noteq> TxnPending \<and> txn_Status t \<noteq> TxnActive
        then Inl (TxnErr Txn_errInvalidTransition)
      else let nxt = txn_withStatus t TxnCancelled now;
               nxt = nxt\<lparr>txn_CancelledAt := Some (txn_UpdatedAt nxt)\<rparr>
           in case txn_Validate nxt of Some e \<Rightarrow> Inl e | None \<Rightarrow> Inr (nxt, True))"

section \<open>The in-memory store\<close>

record txn_mem =
  tm_byID :: "(ID, txn) gomap"
  tm_byOffer :: "(ID, ID) gomap"
  tm_fail :: "go_error option"

definition txn_NewMemoryStore :: txn_mem where
  "txn_NewMemoryStore = \<lparr>tm_byID = [], tm_byOffer = [], tm_fail = None\<rparr>"

definition txn_mem_SetFail :: "go_error option \<Rightarrow> txn_mem \<Rightarrow> txn_mem" where
  "txn_mem_SetFail err m = m\<lparr>tm_fail := err\<rparr>"

definition txn_mem_Create :: "ctx \<Rightarrow> txn \<Rightarrow> (txn_mem, unit) go" where
  "txn_mem_Create c txn = (\<lambda>m.
     gguard (ctx_Err c) (gguard (tm_fail m) (gguard (txn_Validate txn)
       (if map_of (tm_byID m) (txn_ID txn) \<noteq> None then gfail (TxnErr Txn_errConflict)
        else if map_of (tm_byOffer m) (txn_OfferID txn) \<noteq> None then gfail (TxnErr Txn_errConflict)
        else (\<lambda>m. (m\<lparr>tm_byID := AList.update (txn_ID txn) (cloneTxn txn) (tm_byID m),
                     tm_byOffer := AList.update (txn_OfferID txn) (txn_ID txn) (tm_byOffer m)\<rparr>,
                   Inr ()))))) m)"

definition txn_mem_Get :: "ctx \<Rightarrow> ID \<Rightarrow> (txn_mem, txn) go" where
  "txn_mem_Get c i = (\<lambda>m.
     gguard (ctx_Err c) (gguard (tm_fail m)
       (case map_of (tm_byID m) i of
          None \<Rightarrow> gfail (TxnErr Txn_errNotFound)
        | Some txn \<Rightarrow> gret (cloneTxn txn))) m)"

text \<open>
  The zero value of the struct, which \<open>m.byID[id]\<close> yields for a missing key: \<open>GetByOfferID\<close> reads the
  second map without a check.
\<close>

definition zero_txn :: txn where
  "zero_txn = \<lparr>txn_ID = zero_id, txn_OfferID = zero_id, txn_NeedID = zero_id,
     txn_RequesterUserID = zero_id, txn_ProviderUserID = zero_id, txn_ProviderBusinessID = zero_id,
     txn_ServiceID = zero_id, txn_Price = None, txn_Status = [], txn_CreatedAt = 0,
     txn_UpdatedAt = 0, txn_CompletedAt = None, txn_CancelledAt = None\<rparr>"

definition txn_mem_GetByOfferID :: "ctx \<Rightarrow> ID \<Rightarrow> (txn_mem, txn) go" where
  "txn_mem_GetByOfferID c offerID = (\<lambda>m.
     gguard (ctx_Err c) (gguard (tm_fail m)
       (case map_of (tm_byOffer m) offerID of
          None \<Rightarrow> gfail (TxnErr Txn_errNotFound)
        | Some i \<Rightarrow> gret (cloneTxn
            (case map_of (tm_byID m) i of None \<Rightarrow> zero_txn | Some txn \<Rightarrow> txn)))) m)"

definition txn_mem_ListForParticipant :: "ctx \<Rightarrow> ID \<Rightarrow> (txn_mem, txn list) go" where
  "txn_mem_ListForParticipant c userID = (\<lambda>m.
     gguard (ctx_Err c) (gguard (tm_fail m)
       (gret (newest_first txn_CreatedAt txn_ID (map cloneTxn
         (filter (\<lambda>t. txn_Participant t userID) (map snd (tm_byID m))))))) m)"

definition txn_mem_Update :: "ctx \<Rightarrow> txn \<Rightarrow> time \<Rightarrow> (txn_mem, unit) go" where
  "txn_mem_Update c txn expectedUpdatedAt = (\<lambda>m.
     gguard (ctx_Err c) (gguard (tm_fail m) (gguard (txn_Validate txn)
       (case map_of (tm_byID m) (txn_ID txn) of
          None \<Rightarrow> gfail (TxnErr Txn_errNotFound)
        | Some current \<Rightarrow>
            if \<not> time_Equal (txn_UpdatedAt current) expectedUpdatedAt
              then gfail (TxnErr Txn_errConflict)
            else (\<lambda>m. (m\<lparr>tm_byID := AList.update (txn_ID txn) (cloneTxn txn) (tm_byID m)\<rparr>,
                       Inr ()))))) m)"

section \<open>Events\<close>

definition TxnEventCreated :: string where "TxnEventCreated = ''transactions.transaction.created''"
definition TxnEventCompleted :: string where "TxnEventCompleted = ''transactions.transaction.completed''"
definition TxnEventCancelled :: string where "TxnEventCancelled = ''transactions.transaction.cancelled''"

record completed_payload =
  cp_TransactionID :: string
  cp_OfferID :: string
  cp_NeedID :: string
  cp_RequesterUserID :: string
  cp_ProviderUserID :: string
  cp_ActorUserID :: string
  cp_CompletedAt :: string

definition completed_json :: "completed_payload \<Rightarrow> json" where
  "completed_json p = json_object
     ([(''transaction_id'', cp_TransactionID p), (''offer_id'', cp_OfferID p),
       (''need_id'', cp_NeedID p), (''requester_user_id'', cp_RequesterUserID p)] @
      omitempty ''provider_user_id'' (cp_ProviderUserID p) @
      omitempty ''actor_user_id'' (cp_ActorUserID p) @
      [(''completed_at'', cp_CompletedAt p)])"

definition txn_DecodeCompleted :: "json option \<Rightarrow> completed_payload res" where
  "txn_DecodeCompleted raw =
     (case json_Unmarshal_strings [''transaction_id'', ''offer_id'', ''need_id'',
          ''requester_user_id'', ''provider_user_id'', ''actor_user_id'', ''completed_at''] raw of
        None \<Rightarrow> Inl (TxnCErr TxnC_ErrInvalidEvent)
      | Some acc \<Rightarrow>
          let f = (\<lambda>k. strings_TrimSpace (string_field acc k));
              p = \<lparr>cp_TransactionID = f ''transaction_id'', cp_OfferID = f ''offer_id'',
                   cp_NeedID = f ''need_id'', cp_RequesterUserID = f ''requester_user_id'',
                   cp_ProviderUserID = f ''provider_user_id'',
                   cp_ActorUserID = f ''actor_user_id'', cp_CompletedAt = f ''completed_at''\<rparr>
          in if cp_TransactionID p = [] \<or> cp_OfferID p = [] \<or> cp_NeedID p = [] \<or>
                cp_RequesterUserID p = [] \<or> cp_CompletedAt p = []
             then Inl (TxnCErr TxnC_ErrInvalidEvent) else Inr p)"

record lifecycle_payload =
  lp_TransactionID :: string
  lp_OfferID :: string
  lp_NeedID :: string
  lp_RequesterUserID :: string
  lp_ProviderUserID :: string
  lp_ActorUserID :: string
  lp_StatusCode :: string

definition lifecycle_json :: "lifecycle_payload \<Rightarrow> json" where
  "lifecycle_json p = json_object
     [(''transaction_id'', lp_TransactionID p), (''offer_id'', lp_OfferID p),
      (''need_id'', lp_NeedID p), (''requester_user_id'', lp_RequesterUserID p),
      (''provider_user_id'', lp_ProviderUserID p), (''actor_user_id'', lp_ActorUserID p),
      (''status_code'', lp_StatusCode p)]"

definition txn_DecodeLifecycle :: "json option \<Rightarrow> lifecycle_payload res" where
  "txn_DecodeLifecycle raw =
     (case json_Unmarshal_strings [''transaction_id'', ''offer_id'', ''need_id'',
          ''requester_user_id'', ''provider_user_id'', ''actor_user_id'', ''status_code''] raw of
        None \<Rightarrow> Inl (TxnCErr TxnC_ErrInvalidEvent)
      | Some acc \<Rightarrow>
          let f = (\<lambda>k. strings_TrimSpace (string_field acc k));
              p = \<lparr>lp_TransactionID = f ''transaction_id'', lp_OfferID = f ''offer_id'',
                   lp_NeedID = f ''need_id'', lp_RequesterUserID = f ''requester_user_id'',
                   lp_ProviderUserID = f ''provider_user_id'',
                   lp_ActorUserID = f ''actor_user_id'', lp_StatusCode = f ''status_code''\<rparr>
          in if lp_TransactionID p = [] \<or> lp_OfferID p = [] \<or> lp_NeedID p = [] \<or>
                lp_RequesterUserID p = [] \<or> lp_ProviderUserID p = [] \<or> lp_StatusCode p = []
             then Inl (TxnCErr TxnC_ErrInvalidEvent) else Inr p)"

definition encodeCompletedEvent :: "txn \<Rightarrow> ID \<Rightarrow> new_event res" where
  "encodeCompletedEvent txn actorUserID =
     (case txn_CompletedAt txn of
        None \<Rightarrow> Inl (TxnErr Txn_errInvalidTxn)
      | Some d \<Rightarrow> Inr
          \<lparr>ev_EventType = TxnEventCompleted, ev_EventVersion = 1, ev_AggregateType = ''transaction'',
           ev_AggregateID = ID_String (txn_ID txn),
           ev_Payload = Some (completed_json
             \<lparr>cp_TransactionID = ID_String (txn_ID txn), cp_OfferID = ID_String (txn_OfferID txn),
              cp_NeedID = ID_String (txn_NeedID txn),
              cp_RequesterUserID = ID_String (txn_RequesterUserID txn),
              cp_ProviderUserID = ID_String (txn_ProviderUserID txn),
              cp_ActorUserID = ID_String actorUserID,
              cp_CompletedAt = time_Format_RFC3339 (time_UTC d)\<rparr>),
           ev_IdempotencyKey = TxnEventCompleted @ '':'' @ ID_String (txn_ID txn),
           ev_CorrelationID = []\<rparr>)"

definition encodeLifecycleEvent :: "string \<Rightarrow> string \<Rightarrow> txn \<Rightarrow> ID \<Rightarrow> new_event res" where
  "encodeLifecycleEvent eventType status txn actorUserID =
     (if ID_IsZero (txn_ID txn) \<or> ID_IsZero actorUserID then Inl (TxnErr Txn_errInvalidTxn)
      else Inr
          \<lparr>ev_EventType = eventType, ev_EventVersion = 1, ev_AggregateType = ''transaction'',
           ev_AggregateID = ID_String (txn_ID txn),
           ev_Payload = Some (lifecycle_json
             \<lparr>lp_TransactionID = ID_String (txn_ID txn), lp_OfferID = ID_String (txn_OfferID txn),
              lp_NeedID = ID_String (txn_NeedID txn),
              lp_RequesterUserID = ID_String (txn_RequesterUserID txn),
              lp_ProviderUserID = ID_String (txn_ProviderUserID txn),
              lp_ActorUserID = ID_String actorUserID, lp_StatusCode = status\<rparr>),
           ev_IdempotencyKey = eventType @ '':'' @ ID_String (txn_ID txn) @ '':'' @ status,
           ev_CorrelationID = []\<rparr>)"

section \<open>The service\<close>

record 'w txn_store =
  ts_Create :: "ctx \<Rightarrow> txn \<Rightarrow> ('w, unit) go"
  ts_Get :: "ctx \<Rightarrow> ID \<Rightarrow> ('w, txn) go"
  ts_GetByOfferID :: "ctx \<Rightarrow> ID \<Rightarrow> ('w, txn) go"
  ts_ListForParticipant :: "ctx \<Rightarrow> ID \<Rightarrow> ('w, txn list) go"
  ts_Update :: "ctx \<Rightarrow> txn \<Rightarrow> time \<Rightarrow> ('w, unit) go"

definition txn_mem_store ::
  "('w \<Rightarrow> txn_mem) \<Rightarrow> ((txn_mem \<Rightarrow> txn_mem) \<Rightarrow> 'w \<Rightarrow> 'w) \<Rightarrow> 'w txn_store" where
  "txn_mem_store get upd =
     \<lparr>ts_Create = (\<lambda>c t. zoom get upd (txn_mem_Create c t)),
      ts_Get = (\<lambda>c i. zoom get upd (txn_mem_Get c i)),
      ts_GetByOfferID = (\<lambda>c i. zoom get upd (txn_mem_GetByOfferID c i)),
      ts_ListForParticipant = (\<lambda>c u. zoom get upd (txn_mem_ListForParticipant c u)),
      ts_Update = (\<lambda>c t v. zoom get upd (txn_mem_Update c t v))\<rparr>"

record 'w txn_service =
  tsv_store :: "'w txn_store option"
  tsv_offers :: "(ctx \<Rightarrow> ID \<Rightarrow> ('w, OfferRef) go) option"
  tsv_needs :: "'w need_lookup option"
  tsv_now :: "'w \<Rightarrow> 'w \<times> time"
  tsv_rand :: "'w \<Rightarrow> 'w \<times> ID option"
  tsv_tx :: "'w transactor option"
  tsv_outbox :: "'w enqueuer option"

definition txn_mapOfferErr :: "go_error \<Rightarrow> go_error" where
  [err_defs]: "txn_mapOfferErr err =
     (if err = OfferCErr OfferC_ErrZeroID then TxnErr Txn_errZeroID
      else if err = OfferCErr OfferC_ErrNotFound then TxnErr Txn_errNotFound
      else if ctx_error err then err
      else TxnErr Txn_errUnavailable)"

definition txn_mapNeedErr :: "go_error \<Rightarrow> go_error" where
  [err_defs]: "txn_mapNeedErr err =
     (if err = NeedCErr NeedC_ErrZeroID then TxnErr Txn_errZeroID
      else if err = NeedCErr NeedC_ErrNotFound \<or> err = NeedCErr NeedC_ErrForbidden
        then TxnErr Txn_errNotFound
      else if ctx_error err then err
      else TxnErr Txn_errUnavailable)"

definition txn_mapStoreErr :: "go_error \<Rightarrow> go_error" where
  [err_defs]: "txn_mapStoreErr err =
     (if ctx_error err then err
      else if err = TxnErr Txn_errNotFound \<or> err = DbErr Db_ErrNoRows then TxnErr Txn_errNotFound
      else if err = TxnErr Txn_errConflict \<or> err = DbErr Db_ErrConflict then TxnErr Txn_errConflict
      else if err = TxnErr Txn_errUnavailable \<or> err = DbErr Db_ErrUnavailable
        then TxnErr Txn_errUnavailable
      else if err \<in> TxnErr ` {Txn_errStoreRequired, Txn_errZeroID, Txn_errInvalidTxn,
            Txn_errInvalidStatus, Txn_errInvalidTransition, Txn_errInvalidPrice, Txn_errForbidden,
            Txn_errNotAccepted, Txn_errNeedDraft, Txn_errNeedCancelled, Txn_errNeedExpired,
            Txn_errNeedFulfilled}
        then err
      else TxnErr Txn_errUnavailable)"

definition requireNeedOpen :: "string \<Rightarrow> go_error option" where
  "requireNeedOpen status =
     (if status = NeedOpen then None
      else if status = NeedDraft then Some (TxnErr Txn_errNeedDraft)
      else if status = NeedCancelled then Some (TxnErr Txn_errNeedCancelled)
      else if status = NeedExpired then Some (TxnErr Txn_errNeedExpired)
      else if status = NeedFulfilled then Some (TxnErr Txn_errNeedFulfilled)
      else Some (TxnErr Txn_errInvalidTransition))"

definition requireNeedCompletable :: "string \<Rightarrow> go_error option" where
  "requireNeedCompletable status =
     (if status = NeedOpen \<or> status = NeedFulfilled then None
      else if status = NeedDraft then Some (TxnErr Txn_errNeedDraft)
      else if status = NeedCancelled then Some (TxnErr Txn_errNeedCancelled)
      else if status = NeedExpired then Some (TxnErr Txn_errNeedExpired)
      else Some (TxnErr Txn_errInvalidTransition))"

definition txn_svc_get :: "'w txn_service \<Rightarrow> ctx \<Rightarrow> ID \<Rightarrow> ('w, txn) go" where
  "txn_svc_get s c i =
     gneed (tsv_store s) (TxnErr Txn_errStoreRequired) (\<lambda>st.
       if ID_IsZero i then gfail (TxnErr Txn_errZeroID)
       else gmaperr txn_mapStoreErr (ts_Get st c i))"

definition txn_svc_Get :: "'w txn_service \<Rightarrow> ctx \<Rightarrow> ID \<Rightarrow> ID \<Rightarrow> ('w, txn) go" where
  "txn_svc_Get s c userID transactionID =
     gbind (txn_svc_get s c transactionID) (\<lambda>txn.
       if \<not> txn_Participant txn userID then gfail (TxnErr Txn_errNotFound) else gret txn)"

definition txn_svc_ListMine :: "'w txn_service \<Rightarrow> ctx \<Rightarrow> ID \<Rightarrow> ('w, txn list) go" where
  "txn_svc_ListMine s c userID =
     gneed (tsv_store s) (TxnErr Txn_errStoreRequired) (\<lambda>st.
       if ID_IsZero userID then gfail (TxnErr Txn_errZeroID)
       else gmaperr txn_mapStoreErr (ts_ListForParticipant st c userID))"

definition txn_getOffer :: "'w txn_service \<Rightarrow> ctx \<Rightarrow> ID \<Rightarrow> ('w, OfferRef) go" where
  "txn_getOffer s c offerID =
     gneed (tsv_offers s) (TxnErr Txn_errUnavailable) (\<lambda>getOffer.
       gmaperr txn_mapOfferErr (getOffer c offerID))"

definition txn_getNeed :: "'w txn_service \<Rightarrow> ctx \<Rightarrow> ID \<Rightarrow> ('w, NeedRef) go" where
  "txn_getNeed s c needID =
     gneed (tsv_needs s) (TxnErr Txn_errUnavailable) (\<lambda>needs.
       gmaperr txn_mapNeedErr (nl_GetNeed needs c needID))"

definition txn_sourceNeed :: "'w txn_service \<Rightarrow> ctx \<Rightarrow> txn \<Rightarrow> ('w, NeedRef) go" where
  "txn_sourceNeed s c txn =
     gbind (txn_getNeed s c (txn_NeedID txn)) (\<lambda>need.
       if nr_ID need \<noteq> txn_NeedID txn \<or> nr_RequesterUserID need \<noteq> txn_RequesterUserID txn
         then gfail (TxnErr Txn_errNotFound)
       else gret need)"

definition txn_requireNeedOpenForTxn :: "'w txn_service \<Rightarrow> ctx \<Rightarrow> txn \<Rightarrow> ('w, unit) go" where
  "txn_requireNeedOpenForTxn s c txn =
     gbind (txn_sourceNeed s c txn) (\<lambda>need. gguard (requireNeedOpen (nr_Status need)) (gret ()))"

definition txn_requireNeedCompletableForTxn :: "'w txn_service \<Rightarrow> ctx \<Rightarrow> txn \<Rightarrow> ('w, unit) go" where
  "txn_requireNeedCompletableForTxn s c txn =
     gbind (txn_sourceNeed s c txn) (\<lambda>need.
       gguard (requireNeedCompletable (nr_Status need)) (gret ()))"

definition txn_enqueueCompleted :: "'w txn_service \<Rightarrow> ctx \<Rightarrow> txn \<Rightarrow> ID \<Rightarrow> ('w, unit) go" where
  "txn_enqueueCompleted s c txn actorUserID =
     enqueue_event txn_mapStoreErr (tsv_outbox s) c (encodeCompletedEvent txn actorUserID)"

definition txn_enqueueLifecycle ::
  "'w txn_service \<Rightarrow> ctx \<Rightarrow> string \<Rightarrow> string \<Rightarrow> txn \<Rightarrow> ID \<Rightarrow> ('w, unit) go" where
  "txn_enqueueLifecycle s c eventType status txn actorUserID =
     enqueue_event txn_mapStoreErr (tsv_outbox s) c
       (encodeLifecycleEvent eventType status txn actorUserID)"

definition txn_runMaybeTx :: "'w txn_service \<Rightarrow> ctx \<Rightarrow> (ctx \<Rightarrow> ('w, 'a) go) \<Rightarrow> ('w, 'a) go" where
  "txn_runMaybeTx s = run_maybe_tx txn_mapStoreErr (tsv_outbox s) (tsv_tx s)"

definition accepted_source_of :: "OfferRef \<Rightarrow> NeedRef \<Rightarrow> accepted_source" where
  "accepted_source_of offer need =
     \<lparr>as_OfferID = or_ID offer, as_NeedID = or_NeedID offer,
      as_RequesterUserID = nr_RequesterUserID need, as_ProviderUserID = or_ProviderUserID offer,
      as_ProviderBusinessID = or_ProviderBusinessID offer, as_ServiceID = or_ServiceID offer,
      as_Price = or_Price offer\<rparr>"

definition txn_svc_CreateFromAcceptedOffer :: "'w txn_service \<Rightarrow> ctx \<Rightarrow> ID \<Rightarrow> ID \<Rightarrow> ('w, txn) go" where
  "txn_svc_CreateFromAcceptedOffer s c requesterUserID offerID =
     gneed (tsv_store s) (TxnErr Txn_errStoreRequired) (\<lambda>st.
     if ID_IsZero requesterUserID \<or> ID_IsZero offerID then gfail (TxnErr Txn_errZeroID)
     else gbind (txn_getOffer s c offerID) (\<lambda>offer.
     gbind (txn_getNeed s c (or_NeedID offer)) (\<lambda>need.
     if nr_RequesterUserID need \<noteq> requesterUserID \<or> nr_ID need \<noteq> or_NeedID offer
       then gfail (TxnErr Txn_errNotFound)
     else if or_Status offer \<noteq> OfferAccepted then gfail (TxnErr Txn_errNotAccepted)
     else gcase (ts_GetByOfferID st c (or_ID offer))
       (\<lambda>err.
         if err \<noteq> TxnErr Txn_errNotFound then gfail (txn_mapStoreErr err)
         else gguard (requireNeedOpen (nr_Status need))
           (gread (tsv_now s) (\<lambda>now. gread (tsv_rand s) (\<lambda>entropy.
            gbind (gpure (txn_CreatePending (accepted_source_of offer need) (time_UTC now) entropy)) (\<lambda>txn.
            gcase (txn_runMaybeTx s c (\<lambda>c.
                gcase (ts_Create st c txn) (\<lambda>e. gfail (txn_mapStoreErr e)) (\<lambda>_.
                txn_enqueueLifecycle s c TxnEventCreated ''created'' txn requesterUserID)))
              (\<lambda>err.
                if err = TxnErr Txn_errConflict then
                  gcase (ts_GetByOfferID st c (or_ID offer))
                    (\<lambda>_. gfail (TxnErr Txn_errConflict)) gret
                else gfail err)
              (\<lambda>_. gret txn))))))
       gret)))"

text \<open>
  The two operations with a check of the source Need run it between reading the row and the
  transition; the clock is read before (an argument of the call).
\<close>

definition txn_start_fn :: "'w txn_service \<Rightarrow> ctx \<Rightarrow> txn \<Rightarrow> time \<Rightarrow> ('w, txn \<times> bool) go" where
  "txn_start_fn s c txn now =
     gbind (if txn_Status txn = TxnPending then txn_requireNeedOpenForTxn s c txn else gret ())
       (\<lambda>_. gpure (txn_Start txn now))"

definition txn_complete_fn :: "'w txn_service \<Rightarrow> ctx \<Rightarrow> txn \<Rightarrow> time \<Rightarrow> ('w, txn \<times> bool) go" where
  "txn_complete_fn s c txn now =
     gbind (if txn_Status txn = TxnActive then txn_requireNeedCompletableForTxn s c txn else gret ())
       (\<lambda>_. gpure (txn_Complete txn now))"

definition txn_commit ::
  "'w txn_service \<Rightarrow> 'w txn_store \<Rightarrow> ID \<Rightarrow> string \<Rightarrow> txn \<Rightarrow> txn \<Rightarrow> ctx \<Rightarrow> ('w, unit) go" where
  "txn_commit s st userID emit current nxt c =
     gcase (ts_Update st c nxt (txn_UpdatedAt current)) (\<lambda>e. gfail (txn_mapStoreErr e)) (\<lambda>_.
       if emit = [] then gret ()
       else if emit = ''completed'' then txn_enqueueCompleted s c nxt userID
       else if emit = ''cancelled''
         then txn_enqueueLifecycle s c TxnEventCancelled ''cancelled'' nxt userID
       else gret ())"

definition txn_apply ::
  "'w txn_service \<Rightarrow> ctx \<Rightarrow> ID \<Rightarrow> ID \<Rightarrow> (txn \<Rightarrow> time \<Rightarrow> ('w, txn \<times> bool) go) \<Rightarrow> string \<Rightarrow> ('w, txn) go" where
  "txn_apply s c userID transactionID fn emit =
     gbind (txn_svc_Get s c userID transactionID) (\<lambda>current.
     gread (tsv_now s) (\<lambda>now.
     gbind (fn current (time_UTC now)) (\<lambda>(nxt, changed).
     if \<not> changed then gret current
     else gneed (tsv_store s) (TxnErr Txn_errStoreRequired) (\<lambda>st.
       gcase (txn_runMaybeTx s c (txn_commit s st userID emit current nxt))
         (\<lambda>err.
           if err \<noteq> TxnErr Txn_errConflict then gfail err
           else gbind (txn_svc_Get s c userID transactionID) (\<lambda>latest.
             gread (tsv_now s) (\<lambda>now.
             gbind (fn latest (time_UTC now)) (\<lambda>(_, againChanged).
             if \<not> againChanged then gret latest else gfail (TxnErr Txn_errConflict)))))
         (\<lambda>_. gret nxt)))))"

definition txn_svc_Start :: "'w txn_service \<Rightarrow> ctx \<Rightarrow> ID \<Rightarrow> ID \<Rightarrow> ('w, txn) go" where
  "txn_svc_Start s c userID transactionID =
     txn_apply s c userID transactionID (txn_start_fn s c) []"

definition txn_svc_Complete :: "'w txn_service \<Rightarrow> ctx \<Rightarrow> ID \<Rightarrow> ID \<Rightarrow> ('w, txn) go" where
  "txn_svc_Complete s c userID transactionID =
     txn_apply s c userID transactionID (txn_complete_fn s c) ''completed''"

definition txn_svc_Cancel :: "'w txn_service \<Rightarrow> ctx \<Rightarrow> ID \<Rightarrow> ID \<Rightarrow> ('w, txn) go" where
  "txn_svc_Cancel s c userID transactionID =
     txn_apply s c userID transactionID (\<lambda>txn now. gpure (txn_Cancel txn now)) ''cancelled''"

section \<open>The completion handler\<close>

record 'w completion_handler =
  ch_store :: "'w txn_store option"
  ch_fulfill :: "(ctx \<Rightarrow> FulfillmentCommand \<Rightarrow> ('w, FulfillmentResult) go) option"

definition mapNeedFulfillErr :: "go_error \<Rightarrow> go_error" where
  [err_defs]: "mapNeedFulfillErr err =
     (if err = NeedCErr NeedC_ErrUnavailable \<or> err = NeedCErr NeedC_ErrConflict then err
      else if ctx_error err then err
      else if err = NeedCErr NeedC_ErrZeroID then TxnErr Txn_errInvalidTxn
      else TxnErr Txn_errUnavailable)"

definition completion_Handle :: "'w completion_handler \<Rightarrow> ctx \<Rightarrow> outbox_event \<Rightarrow> ('w, unit) go" where
  "completion_Handle h c event =
     gneed (ch_store h) (TxnErr Txn_errStoreRequired) (\<lambda>st.
     gneed (ch_fulfill h) (TxnErr Txn_errStoreRequired) (\<lambda>fulfill.
     if oe_EventType event \<noteq> TxnEventCompleted \<or> oe_EventVersion event \<noteq> 1
       then gfail (TxnErr Txn_errInvalidTxn)
     else gbind (gpure (txn_DecodeCompleted (oe_Payload event))) (\<lambda>payload.
     gcase (gpure (txn_ParseID (cp_TransactionID payload)))
       (\<lambda>_. gfail (TxnErr Txn_errInvalidTxn))
       (\<lambda>txnID.
         gcase (ts_Get st c txnID)
           (\<lambda>err. if err = TxnErr Txn_errNotFound then gret () else gfail (txn_mapStoreErr err))
           (\<lambda>txn.
             if txn_Status txn \<noteq> TxnCompleted then gret ()
             else gcase (fulfill c \<lparr>fc_NeedID = txn_NeedID txn,
                 fc_RequesterUserID = txn_RequesterUserID txn, fc_TransactionID = txn_ID txn\<rparr>)
               (\<lambda>err. gfail (mapNeedFulfillErr err)) (\<lambda>_. gret ()))))))"

section \<open>The read surface for other packages\<close>

record TransactionRef =
  tr_ID :: ID
  tr_RequesterUserID :: ID
  tr_ProviderUserID :: ID
  tr_Price :: "price option"
  tr_Status :: string
  tr_CreatedAt :: time
  tr_CompletedAt :: "time option"

definition toTransactionRef :: "txn \<Rightarrow> TransactionRef" where
  "toTransactionRef t =
     \<lparr>tr_ID = txn_ID t, tr_RequesterUserID = txn_RequesterUserID t,
      tr_ProviderUserID = txn_ProviderUserID t, tr_Price = txn_Price t, tr_Status = txn_Status t,
      tr_CreatedAt = time_UTC (txn_CreatedAt t),
      tr_CompletedAt = map_option time_UTC (txn_CompletedAt t)\<rparr>"

definition mapTxnLookupErr :: "go_error \<Rightarrow> go_error" where
  [err_defs]: "mapTxnLookupErr err =
     (if err = TxnErr Txn_errZeroID then TxnCErr TxnC_ErrZeroID
      else if err = TxnErr Txn_errNotFound then TxnCErr TxnC_ErrNotFound
      else if ctx_error err then err
      else TxnCErr TxnC_ErrUnavailable)"

definition txn_GetTransaction :: "'w txn_service \<Rightarrow> ctx \<Rightarrow> ID \<Rightarrow> ('w, TransactionRef) go" where
  "txn_GetTransaction s c transactionID =
     gcase (txn_svc_get s c transactionID) (\<lambda>err. gfail (mapTxnLookupErr err))
       (\<lambda>t. gret (toTransactionRef t))"

definition DeliveryEligibilityNone :: string where "DeliveryEligibilityNone = ''no_delivery_required''"

definition DeliveryEligibilityRequired :: string where
  "DeliveryEligibilityRequired = ''delivery_required''"

definition tr_DeliveryEligibility :: "TransactionRef \<Rightarrow> string" where
  "tr_DeliveryEligibility r = DeliveryEligibilityNone"

definition tr_MayCreateDelivery :: "TransactionRef \<Rightarrow> bool" where
  "tr_MayCreateDelivery r \<longleftrightarrow> tr_Status r = TxnPending \<or> tr_Status r = TxnActive"

definition tr_Participant :: "TransactionRef \<Rightarrow> ID \<Rightarrow> bool" where
  "tr_Participant r userID \<longleftrightarrow>
     \<not> ID_IsZero userID \<and> (tr_RequesterUserID r = userID \<or> tr_ProviderUserID r = userID)"

definition tr_MayOpenDispute :: "TransactionRef \<Rightarrow> bool" where
  "tr_MayOpenDispute r \<longleftrightarrow>
     tr_Status r = TxnPending \<or> tr_Status r = TxnActive \<or> tr_Status r = TxnCompleted"

definition tr_DisputeAnchor :: "TransactionRef \<Rightarrow> time" where
  "tr_DisputeAnchor r =
     (case tr_CompletedAt r of
        Some d \<Rightarrow> if tr_Status r = TxnCompleted \<and> \<not> time_IsZero d then time_UTC d
                  else time_UTC (tr_CreatedAt r)
      | None \<Rightarrow> time_UTC (tr_CreatedAt r))"

section \<open>Domain operations\<close>

text \<open>The parts of \<open>Validate\<close> that no operation touches, and the whole of it.\<close>

definition txn_base_valid :: "txn \<Rightarrow> bool" where
  "txn_base_valid t \<longleftrightarrow>
     \<not> ID_IsZero (txn_ID t) \<and> \<not> ID_IsZero (txn_OfferID t) \<and> \<not> ID_IsZero (txn_NeedID t) \<and>
     \<not> ID_IsZero (txn_RequesterUserID t) \<and> \<not> ID_IsZero (txn_ProviderUserID t) \<and>
     \<not> ID_IsZero (txn_ProviderBusinessID t) \<and> \<not> ID_IsZero (txn_ServiceID t) \<and>
     txn_RequesterUserID t \<noteq> txn_ProviderUserID t \<and>
     (\<exists>p. txn_price_normalized (txn_Price t) = Inr p) \<and> txn_CreatedAt t \<noteq> 0"

lemma txn_Validate_None:
  "txn_Validate t = None \<longleftrightarrow>
     txn_base_valid t \<and> txn_CreatedAt t \<le> txn_UpdatedAt t \<and>
     (txn_Status t = TxnPending \<and> txn_CompletedAt t = None \<and> txn_CancelledAt t = None \<or>
      txn_Status t = TxnActive \<and> txn_CompletedAt t = None \<and> txn_CancelledAt t = None \<or>
      txn_Status t = TxnCompleted \<and> txn_CancelledAt t = None \<and>
        (\<exists>d. txn_CompletedAt t = Some d \<and> txn_CreatedAt t \<le> d) \<or>
      txn_Status t = TxnCancelled \<and> txn_CompletedAt t = None \<and>
        (\<exists>d. txn_CancelledAt t = Some d \<and> txn_CreatedAt t \<le> d))"
  by (auto simp: txn_Validate_def txn_base_valid_def txn_status_valid_def
      split: sum.splits option.splits if_splits)

lemma txn_base_valid_upd [simp]:
  "txn_base_valid (t\<lparr>txn_Status := s, txn_UpdatedAt := u\<rparr>) = txn_base_valid t"
  "txn_base_valid (t\<lparr>txn_Status := s, txn_UpdatedAt := u, txn_CompletedAt := d\<rparr>) = txn_base_valid t"
  "txn_base_valid (t\<lparr>txn_Status := s, txn_UpdatedAt := u, txn_CancelledAt := e\<rparr>) = txn_base_valid t"
  by (simp_all add: txn_base_valid_def)

lemmas txn_op_defs = txn_Start_def txn_Complete_def txn_Cancel_def

text \<open>The three operations on a valid Transaction, at a time not before its creation.\<close>

lemma txn_ops_valid:
  assumes "txn_Validate t = None" and "txn_CreatedAt t \<le> now"
  shows "txn_Start t now =
      (if txn_Status t = TxnActive then Inr (t, False)
       else if txn_Status t = TxnPending
         then Inr (t\<lparr>txn_Status := TxnActive, txn_UpdatedAt := now\<rparr>, True)
       else Inl (TxnErr Txn_errInvalidTransition))"
    and "txn_Complete t now =
      (if txn_Status t = TxnCompleted then Inr (t, False)
       else if txn_Status t = TxnActive
         then Inr (t\<lparr>txn_Status := TxnCompleted, txn_UpdatedAt := now, txn_CompletedAt := Some now\<rparr>, True)
       else Inl (TxnErr Txn_errInvalidTransition))"
    and "txn_Cancel t now =
      (if txn_Status t = TxnCancelled then Inr (t, False)
       else if txn_Status t = TxnPending \<or> txn_Status t = TxnActive
         then Inr (t\<lparr>txn_Status := TxnCancelled, txn_UpdatedAt := now, txn_CancelledAt := Some now\<rparr>, True)
       else Inl (TxnErr Txn_errInvalidTransition))"
proof -
  have 1: "txn_Status t = TxnPending \<Longrightarrow>
      txn_Validate (t\<lparr>txn_Status := TxnActive, txn_UpdatedAt := now\<rparr>) = None"
    using assms by (auto simp: txn_Validate_None)
  have 2: "txn_Status t = TxnActive \<Longrightarrow> txn_Validate
      (t\<lparr>txn_Status := TxnCompleted, txn_UpdatedAt := now, txn_CompletedAt := Some now\<rparr>) = None"
    using assms by (auto simp: txn_Validate_None)
  have 3: "txn_Status t = TxnPending \<or> txn_Status t = TxnActive \<Longrightarrow> txn_Validate
      (t\<lparr>txn_Status := TxnCancelled, txn_UpdatedAt := now, txn_CancelledAt := Some now\<rparr>) = None"
    using assms by (auto simp: txn_Validate_None)
  show "txn_Start t now =
      (if txn_Status t = TxnActive then Inr (t, False)
       else if txn_Status t = TxnPending
         then Inr (t\<lparr>txn_Status := TxnActive, txn_UpdatedAt := now\<rparr>, True)
       else Inl (TxnErr Txn_errInvalidTransition))"
    using 1 by (simp add: txn_Start_def txn_withStatus_def)
  show "txn_Complete t now =
      (if txn_Status t = TxnCompleted then Inr (t, False)
       else if txn_Status t = TxnActive
         then Inr (t\<lparr>txn_Status := TxnCompleted, txn_UpdatedAt := now, txn_CompletedAt := Some now\<rparr>, True)
       else Inl (TxnErr Txn_errInvalidTransition))"
    using 2 by (simp add: txn_Complete_def txn_withStatus_def Let_def)
  show "txn_Cancel t now =
      (if txn_Status t = TxnCancelled then Inr (t, False)
       else if txn_Status t = TxnPending \<or> txn_Status t = TxnActive
         then Inr (t\<lparr>txn_Status := TxnCancelled, txn_UpdatedAt := now, txn_CancelledAt := Some now\<rparr>, True)
       else Inl (TxnErr Txn_errInvalidTransition))"
    using 3 by (auto simp: txn_Cancel_def txn_withStatus_def Let_def)
qed

text \<open>What the service may store over a Transaction.\<close>

definition txn_opr :: "time \<Rightarrow> txn \<Rightarrow> txn \<Rightarrow> bool" where
  "txn_opr now t n \<longleftrightarrow>
     txn_Start t now = Inr (n, True) \<or> txn_Complete t now = Inr (n, True) \<or> txn_Cancel t now = Inr (n, True)"

definition txn_frame :: "txn \<Rightarrow> txn \<Rightarrow> bool" where
  "txn_frame t n \<longleftrightarrow>
     txn_OfferID n = txn_OfferID t \<and> txn_NeedID n = txn_NeedID t \<and>
     txn_RequesterUserID n = txn_RequesterUserID t \<and> txn_ProviderUserID n = txn_ProviderUserID t \<and>
     txn_ProviderBusinessID n = txn_ProviderBusinessID t \<and> txn_ServiceID n = txn_ServiceID t \<and>
     txn_Price n = txn_Price t \<and> txn_CreatedAt n = txn_CreatedAt t"

lemma txn_frame_refl [simp]: "txn_frame t t"
  by (simp add: txn_frame_def)

lemma txn_frame_trans: "txn_frame t n \<Longrightarrow> txn_frame n p \<Longrightarrow> txn_frame t p"
  by (simp add: txn_frame_def)

lemma txn_oprD:
  assumes "txn_opr now t n"
  shows "txn_ID n = txn_ID t" "txn_UpdatedAt n = now" "txn_frame t n" "txn_Validate n = None"
    "\<not> txn_status_Terminal (txn_Status t)"
  using assms unfolding txn_opr_def txn_op_defs txn_frame_def txn_status_Terminal_def
  by (auto simp: txn_withStatus_def Let_def split: if_splits option.splits)

section \<open>The store keeps the contract\<close>

abbreviation txn_table :: "txn_mem \<Rightarrow> ID \<Rightarrow> txn option" where
  "txn_table m \<equiv> map_of (tm_byID m)"

text \<open>The index by offer names exactly the stored Transactions.\<close>

definition txn_mem_inv :: "txn_mem \<Rightarrow> bool" where
  "txn_mem_inv m \<longleftrightarrow> wf_map (tm_byID m) \<and> wf_map (tm_byOffer m) \<and>
     (\<forall>k t. txn_table m k = Some t \<longrightarrow> txn_ID t = k \<and> txn_Validate t = None \<and>
        map_of (tm_byOffer m) (txn_OfferID t) = Some k) \<and>
     (\<forall>f i. map_of (tm_byOffer m) f = Some i \<longrightarrow>
        (\<exists>t. txn_table m i = Some t \<and> txn_OfferID t = f))"

lemma txn_mem_inv_new [simp]: "txn_mem_inv txn_NewMemoryStore"
  by (simp add: txn_mem_inv_def txn_NewMemoryStore_def)

lemma txn_mem_invD:
  assumes "txn_mem_inv m"
  shows "wf_map (tm_byID m)" "wf_map (tm_byOffer m)"
    and "txn_table m k = Some t \<Longrightarrow> txn_ID t = k"
    and "txn_table m k = Some t \<Longrightarrow> txn_Validate t = None"
    and "txn_table m k = Some t \<Longrightarrow> map_of (tm_byOffer m) (txn_OfferID t) = Some k"
    and "map_of (tm_byOffer m) f = Some i \<Longrightarrow> \<exists>t. txn_table m i = Some t \<and> txn_OfferID t = f"
  using assms by (auto simp: txn_mem_inv_def)

lemma txn_mem_Create_ok:
  "txn_mem_Create c t m = (m', Inr u) \<longleftrightarrow>
     ctx_Err c = None \<and> tm_fail m = None \<and> txn_Validate t = None \<and>
     txn_table m (txn_ID t) = None \<and> map_of (tm_byOffer m) (txn_OfferID t) = None \<and>
     m' = m\<lparr>tm_byID := AList.update (txn_ID t) t (tm_byID m),
            tm_byOffer := AList.update (txn_OfferID t) (txn_ID t) (tm_byOffer m)\<rparr>"
  by (auto simp: txn_mem_Create_def gguard_def split: option.splits)

lemma txn_mem_Create_err: "txn_mem_Create c t m = (m', Inl e) \<Longrightarrow> m' = m"
  by (auto simp: txn_mem_Create_def gguard_def split: option.splits if_splits)

lemma txn_mem_Create_inv:
  assumes inv: "txn_mem_inv m" and cr: "txn_mem_Create c t m = (m', Inr u)"
  shows "txn_mem_inv m'"
proof -
  note ok = cr [unfolded txn_mem_Create_ok]
  have new: "map_of (tm_byOffer m) f \<noteq> Some (txn_ID t)" for f
    using txn_mem_invD(6) [OF inv, of f "txn_ID t"] ok by auto
  have old: "txn_OfferID p \<noteq> txn_OfferID t" if "txn_table m k = Some p" for k p
    using txn_mem_invD(5) [OF inv that] ok by auto
  show ?thesis
    unfolding txn_mem_inv_def using ok txn_mem_invD [OF inv] new old by auto
qed

lemma txn_mem_Get_eq:
  "txn_mem_Get c i m =
     (m, case ctx_Err c of Some e \<Rightarrow> Inl e | None \<Rightarrow>
         case tm_fail m of Some e \<Rightarrow> Inl e | None \<Rightarrow>
         case txn_table m i of None \<Rightarrow> Inl (TxnErr Txn_errNotFound) | Some t \<Rightarrow> Inr t)"
  by (simp add: txn_mem_Get_def gguard_def split: option.split)

lemma txn_mem_Update_ok:
  "txn_mem_Update c t v m = (m', Inr u) \<longleftrightarrow>
     ctx_Err c = None \<and> tm_fail m = None \<and> txn_Validate t = None \<and>
     (\<exists>cur. txn_table m (txn_ID t) = Some cur \<and> txn_UpdatedAt cur = v) \<and>
     m' = m\<lparr>tm_byID := AList.update (txn_ID t) t (tm_byID m)\<rparr>"
  by (auto simp: txn_mem_Update_def gguard_def split: option.splits)

lemma txn_mem_Update_err: "txn_mem_Update c t v m = (m', Inl e) \<Longrightarrow> m' = m"
  by (auto simp: txn_mem_Update_def gguard_def split: option.splits if_splits)

lemma txn_mem_Update_inv:
  assumes inv: "txn_mem_inv m" and up: "txn_mem_Update c n v m = (m', Inr u)"
    and cur: "txn_table m (txn_ID n) = Some t" and fr: "txn_frame t n"
  shows "txn_mem_inv m'"
proof -
  have "m' = m\<lparr>tm_byID := AList.update (txn_ID n) n (tm_byID m)\<rparr>" "txn_Validate n = None"
    using up by (simp_all add: txn_mem_Update_ok)
  then show ?thesis
    using txn_mem_invD [OF inv] txn_mem_invD(5) [OF inv cur] cur fr
    by (auto simp: txn_mem_inv_def txn_frame_def) (metis option.inject)
qed

text \<open>With the invariant, \<open>GetByOfferID\<close> finds the Transaction of the offer.\<close>

lemma txn_mem_GetByOfferID_eq:
  assumes inv: "txn_mem_inv m"
  shows "txn_mem_GetByOfferID c f m = (m', Inr t) \<longleftrightarrow>
    m' = m \<and> ctx_Err c = None \<and> tm_fail m = None \<and> txn_table m (txn_ID t) = Some t \<and> txn_OfferID t = f"
proof (cases "map_of (tm_byOffer m) f")
  case None
  then have "\<not> (txn_table m (txn_ID t) = Some t \<and> txn_OfferID t = f)"
    using txn_mem_invD(5) [OF inv, of "txn_ID t" t] by auto
  with None show ?thesis by (auto simp: txn_mem_GetByOfferID_def gguard_def split: option.splits)
next
  case (Some i)
  then obtain t' where t': "txn_table m i = Some t'" "txn_OfferID t' = f"
    using txn_mem_invD(6) [OF inv] by blast
  have "t = t'" if "txn_table m (txn_ID t) = Some t" "txn_OfferID t = f"
  proof -
    have "i = txn_ID t" using txn_mem_invD(5) [OF inv that(1)] that(2) Some by simp
    then show ?thesis using that(1) t'(1) by simp
  qed
  moreover have "txn_table m (txn_ID t') = Some t'" using txn_mem_invD(3) [OF inv t'(1)] t'(1) by simp
  ultimately have "txn_table m (txn_ID t) = Some t \<and> txn_OfferID t = f \<longleftrightarrow> t = t'" using t'(2) by blast
  with Some t'(1) show ?thesis by (auto simp: txn_mem_GetByOfferID_def gguard_def split: option.splits)
qed

interpretation txn_mem: occ_store txn_ID txn_UpdatedAt txn_Validate txn_frame txn_table
  txn_mem_inv "txn_mem_Create c" "txn_mem_Get c" "txn_mem_Update c" for c
proof (unfold_locales, goal_cases)
  case (1 s k s' e)
  then show ?case by (auto simp: txn_mem_Get_eq split: option.splits)
next
  case (2 s k s' x)
  then show ?case by (simp add: txn_mem_Get_eq)
next
  case (3 s e s' u)
  then show ?case using txn_mem_Create_inv [of s c e s' u] by (simp add: txn_mem_Create_ok)
next
  case (4 s e s' x)
  then show ?case using txn_mem_Create_err by blast
next
  case (5 s e v s' u)
  then show ?case by (auto simp: txn_mem_Update_ok)
next
  case (6 s e v s' u cur)
  then show ?case using txn_mem_Update_inv by blast
next
  case (7 s e v s' x)
  then show ?case using txn_mem_Update_err by blast
qed (auto simp: txn_mem_invD)

abbreviation txn_step :: "ctx \<Rightarrow> (txn_mem, txn) conc \<Rightarrow> (txn_mem, txn) conc \<Rightarrow> bool" where
  "txn_step c \<equiv> occ_step (txn_mem_Create c) (txn_mem_Get c) (txn_mem_Update c) txn_UpdatedAt txn_opr"

section \<open>The completion event\<close>

lemma decode_completed:
  assumes "cp_ProviderUserID p \<noteq> []" "cp_ActorUserID p \<noteq> []"
    and trim: "\<And>f. f \<in> {cp_TransactionID, cp_OfferID, cp_NeedID, cp_RequesterUserID, cp_ProviderUserID,
      cp_ActorUserID, cp_CompletedAt} \<Longrightarrow> strings_TrimSpace (f p) = f p"
    and "cp_TransactionID p \<noteq> []" "cp_OfferID p \<noteq> []" "cp_NeedID p \<noteq> []"
    "cp_RequesterUserID p \<noteq> []" "cp_CompletedAt p \<noteq> []"
  shows "txn_DecodeCompleted (Some (completed_json p)) = Inr p"
proof -
  let ?names = "[''transaction_id'', ''offer_id'', ''need_id'', ''requester_user_id'',
    ''provider_user_id'', ''actor_user_id'', ''completed_at'']"
  let ?ms = "[(''transaction_id'', cp_TransactionID p), (''offer_id'', cp_OfferID p),
       (''need_id'', cp_NeedID p), (''requester_user_id'', cp_RequesterUserID p),
       (''provider_user_id'', cp_ProviderUserID p), (''actor_user_id'', cp_ActorUserID p),
       (''completed_at'', cp_CompletedAt p)]"
  have js: "completed_json p = json_object ?ms"
    using assms(1,2) by (simp add: completed_json_def omitempty_def)
  obtain acc where acc: "json_Unmarshal_strings ?names (Some (json_object ?ms)) = Some acc"
    and fld: "string_field acc = (\<lambda>k. case map_of ?ms k of None \<Rightarrow> [] | Some v \<Rightarrow> v)"
    using json_roundtrip [of ?names ?ms] by (auto simp: plain_name_def)
  show ?thesis
    unfolding txn_DecodeCompleted_def js acc option.case Let_def fld
    using assms(4-8) trim by simp
qed

lemma decode_encoded_completed:
  assumes "encodeCompletedEvent t actor = Inr ev"
  shows "\<exists>p. txn_DecodeCompleted (ev_Payload ev) = Inr p \<and> cp_TransactionID p = ID_String (txn_ID t) \<and>
    cp_OfferID p = ID_String (txn_OfferID t) \<and> cp_NeedID p = ID_String (txn_NeedID t) \<and>
    cp_RequesterUserID p = ID_String (txn_RequesterUserID t) \<and>
    cp_ProviderUserID p = ID_String (txn_ProviderUserID t) \<and> cp_ActorUserID p = ID_String actor"
proof -
  obtain d where d: "txn_CompletedAt t = Some d"
    using assms by (auto simp: encodeCompletedEvent_def split: option.splits)
  let ?p = "\<lparr>cp_TransactionID = ID_String (txn_ID t), cp_OfferID = ID_String (txn_OfferID t),
    cp_NeedID = ID_String (txn_NeedID t), cp_RequesterUserID = ID_String (txn_RequesterUserID t),
    cp_ProviderUserID = ID_String (txn_ProviderUserID t), cp_ActorUserID = ID_String actor,
    cp_CompletedAt = time_Format_RFC3339 d\<rparr>"
  have "ev_Payload ev = Some (completed_json ?p)"
    using assms d by (auto simp: encodeCompletedEvent_def)
  moreover have "txn_DecodeCompleted (Some (completed_json ?p)) = Inr ?p"
    by (rule decode_completed) auto
  ultimately show ?thesis by simp
qed

section \<open>Samples\<close>

definition sample_txn :: "string \<Rightarrow> txn" where
  "sample_txn s =
     \<lparr>txn_ID = id_n 50, txn_OfferID = id_n 10, txn_NeedID = id_n 1, txn_RequesterUserID = id_n 2,
      txn_ProviderUserID = id_n 3, txn_ProviderBusinessID = id_n 5, txn_ServiceID = id_n 110,
      txn_Price = None, txn_Status = s, txn_CreatedAt = 40, txn_UpdatedAt = 40,
      txn_CompletedAt = (if s = TxnCompleted then Some 40 else None),
      txn_CancelledAt = (if s = TxnCancelled then Some 40 else None)\<rparr>"

lemma sample_txn_valid [simp]: "txn_status_valid s \<Longrightarrow> txn_Validate (sample_txn s) = None"
  by (auto simp: txn_Validate_None txn_base_valid_def sample_txn_def txn_status_valid_def
      txn_price_normalized_def price_normalized_def)

lemma txn_status_valid_simps [simp]:
  "txn_status_valid TxnPending" "txn_status_valid TxnActive" "txn_status_valid TxnCompleted"
  "txn_status_valid TxnCancelled"
  by (simp_all add: txn_status_valid_def)

lemma sample_txn_fields [simp]:
  "txn_Status (sample_txn s) = s" "txn_CreatedAt (sample_txn s) = 40"
  "txn_UpdatedAt (sample_txn s) = 40" "txn_ID (sample_txn s) = id_n 50"
  by (simp_all add: sample_txn_def)

definition sample_txn_mem :: "string \<Rightarrow> txn_mem" where
  "sample_txn_mem s =
     \<lparr>tm_byID = [(id_n 50, sample_txn s)], tm_byOffer = [(id_n 10, id_n 50)], tm_fail = None\<rparr>"

lemma sample_txn_mem_inv [simp]: "txn_status_valid s \<Longrightarrow> txn_mem_inv (sample_txn_mem s)"
  by (simp add: txn_mem_inv_def sample_txn_mem_def wf_map_def) (simp add: sample_txn_def)

section \<open>Properties\<close>

text \<open>The life cycle, on every branch. On a valid Transaction and a time not before its creation,
  \<open>Start\<close> takes pending to active, \<open>Complete\<close> active to completed with its completion time, and
  \<open>Cancel\<close> pending or active to cancelled with its cancellation time; repeating an operation is
  accepted and reported as no change, and every other call is refused.\<close>

theorem txn_life_cycle:
  assumes "txn_Validate t = None" and "txn_CreatedAt t \<le> now"
  shows "txn_Start t now =
      (if txn_Status t = TxnActive then Inr (t, False)
       else if txn_Status t = TxnPending
         then Inr (t\<lparr>txn_Status := TxnActive, txn_UpdatedAt := now\<rparr>, True)
       else Inl (TxnErr Txn_errInvalidTransition)) \<and>
    txn_Complete t now =
      (if txn_Status t = TxnCompleted then Inr (t, False)
       else if txn_Status t = TxnActive
         then Inr (t\<lparr>txn_Status := TxnCompleted, txn_UpdatedAt := now, txn_CompletedAt := Some now\<rparr>, True)
       else Inl (TxnErr Txn_errInvalidTransition)) \<and>
    txn_Cancel t now =
      (if txn_Status t = TxnCancelled then Inr (t, False)
       else if txn_Status t = TxnPending \<or> txn_Status t = TxnActive
         then Inr (t\<lparr>txn_Status := TxnCancelled, txn_UpdatedAt := now, txn_CancelledAt := Some now\<rparr>, True)
       else Inl (TxnErr Txn_errInvalidTransition))"
  using txn_ops_valid [OF assms] by blast

theorem txn_life_cycle_witness:
  "txn_Complete (sample_txn TxnActive) 41 =
     Inr (sample_txn TxnActive\<lparr>txn_Status := TxnCompleted, txn_UpdatedAt := 41,
       txn_CompletedAt := Some 41\<rparr>, True)"
  using txn_life_cycle [of "sample_txn TxnActive" 41] by simp



text \<open>C36. The completion event survives the wire. What \<open>DecodeCompleted\<close> reads from the payload
  \<open>encodeCompletedEvent\<close> wrote for a completed Transaction parses back to the identifiers of that
  Transaction, its offer, its Need and its parties.\<close>

theorem completed_event_roundtrip:
  assumes "txn_Validate t = None" and "txn_Status t = TxnCompleted" and "\<not> ID_IsZero actor"
  shows "\<exists>ev p. encodeCompletedEvent t actor = Inr ev \<and> txn_DecodeCompleted (ev_Payload ev) = Inr p \<and>
    txn_ParseID (cp_TransactionID p) = Inr (txn_ID t) \<and> txn_ParseID (cp_OfferID p) = Inr (txn_OfferID t) \<and>
    txn_ParseID (cp_NeedID p) = Inr (txn_NeedID t) \<and>
    txn_ParseID (cp_RequesterUserID p) = Inr (txn_RequesterUserID t) \<and>
    txn_ParseID (cp_ProviderUserID p) = Inr (txn_ProviderUserID t) \<and>
    txn_ParseID (cp_ActorUserID p) = Inr actor"
proof -
  have v: "txn_base_valid t" and "txn_CompletedAt t \<noteq> None"
    using assms(1,2) by (auto simp: txn_Validate_None)
  then obtain ev where ev: "encodeCompletedEvent t actor = Inr ev"
    by (auto simp: encodeCompletedEvent_def)
  from decode_encoded_completed [OF ev] obtain p
    where "txn_DecodeCompleted (ev_Payload ev) = Inr p" and "cp_TransactionID p = ID_String (txn_ID t)"
      and "cp_OfferID p = ID_String (txn_OfferID t)" and "cp_NeedID p = ID_String (txn_NeedID t)"
      and "cp_RequesterUserID p = ID_String (txn_RequesterUserID t)"
      and "cp_ProviderUserID p = ID_String (txn_ProviderUserID t)"
      and "cp_ActorUserID p = ID_String actor" by blast
  with ev v assms(3) show ?thesis
    by (auto simp: txn_ParseID_def ParseID_String txn_base_valid_def)
qed

theorem completed_event_roundtrip_witness:
  "\<exists>ev p. encodeCompletedEvent (sample_txn TxnCompleted) (id_n 2) = Inr ev \<and>
     txn_DecodeCompleted (ev_Payload ev) = Inr p \<and> txn_ParseID (cp_NeedID p) = Inr (id_n 1)"
proof -
  have "txn_NeedID (sample_txn TxnCompleted) = id_n 1" "txn_Status (sample_txn TxnCompleted) = TxnCompleted"
    by (simp_all add: sample_txn_def)
  then show ?thesis using completed_event_roundtrip [of "sample_txn TxnCompleted" "id_n 2"] by auto
qed

end
