(* ===== verification/Pg_Transactions.thy ===== *)
theory Pg_Transactions
  imports Transactions Pg_Offers
begin

text \<open>
  The Postgres store of the package \<open>transactions\<close> (\<open>postgres.go\<close>) on the table of migration
  \<open>000046_transactions_core\<close>, and that it does what the in-memory store does.
\<close>

section \<open>The table\<close>

text \<open>What a record becomes on its way through the columns.\<close>

definition txn_row :: "pg_codec \<Rightarrow> txn \<Rightarrow> txn" where
  "txn_row cd t = t\<lparr>txn_Price := price_column cd (txn_Price t),
     txn_CreatedAt := pc_time cd (txn_CreatedAt t), txn_UpdatedAt := pc_time cd (txn_UpdatedAt t),
     txn_CompletedAt := map_option (pc_time cd) (txn_CompletedAt t),
     txn_CancelledAt := map_option (pc_time cd) (txn_CancelledAt t)\<rparr>"

definition txn_check :: "txn \<Rightarrow> bool" where
  "txn_check t \<longleftrightarrow>
     txn_Status t \<in> {TxnPending, TxnActive, TxnCompleted, TxnCancelled} \<and> price_check (txn_Price t) \<and>
     txn_CreatedAt t \<le> txn_UpdatedAt t \<and> txn_RequesterUserID t \<noteq> txn_ProviderUserID t \<and>
     (if txn_Status t = TxnCompleted
      then (case txn_CompletedAt t of None \<Rightarrow> False | Some d \<Rightarrow> txn_CancelledAt t = None \<and> txn_CreatedAt t \<le> d)
      else txn_CompletedAt t = None) \<and>
     (if txn_Status t = TxnCancelled
      then (case txn_CancelledAt t of None \<Rightarrow> False | Some d \<Rightarrow> txn_CompletedAt t = None \<and> txn_CreatedAt t \<le> d)
      else txn_CancelledAt t = None)"

definition txn_clash :: "txn \<Rightarrow> txn \<Rightarrow> bool" where
  "txn_clash t u \<longleftrightarrow> txn_OfferID t = txn_OfferID u"

section \<open>The store\<close>

definition txn_mapDBErr :: "go_error \<Rightarrow> go_error" where
  [err_defs]: "txn_mapDBErr err =
     (if err = DbErr Db_ErrNoRows then TxnErr Txn_errNotFound
      else if err = DbErr Db_ErrConflict then TxnErr Txn_errConflict
      else if ctx_error err then err
      else TxnErr Txn_errUnavailable)"

type_synonym 'd txn_lens = "('d, (ID, txn) gomap) lens"

definition txn_pg_Create :: "pg_codec \<Rightarrow> 'd txn_lens \<Rightarrow> ctx \<Rightarrow> txn \<Rightarrow> ('d pg, unit) go" where
  "txn_pg_Create cd l c txn =
     gguard (txn_Validate txn)
       (pg_create txn_mapDBErr l txn_ID txn_check txn_clash c (txn_row cd txn))"

definition txn_pg_Get :: "'d txn_lens \<Rightarrow> ctx \<Rightarrow> ID \<Rightarrow> ('d pg, txn) go" where
  "txn_pg_Get l c i = pg_get txn_mapDBErr l c (\<lambda>t. txn_ID t = i)"

definition txn_pg_GetByOfferID :: "'d txn_lens \<Rightarrow> ctx \<Rightarrow> ID \<Rightarrow> ('d pg, txn) go" where
  "txn_pg_GetByOfferID l c offerID = pg_get txn_mapDBErr l c (\<lambda>t. txn_OfferID t = offerID)"

definition txn_pg_ListForParticipant :: "'d txn_lens \<Rightarrow> ctx \<Rightarrow> ID \<Rightarrow> ('d pg, txn list) go" where
  "txn_pg_ListForParticipant l c userID =
     pg_list txn_mapDBErr l c (\<lambda>t. txn_RequesterUserID t = userID \<or> txn_ProviderUserID t = userID)
       (newest_first txn_CreatedAt txn_ID)"

text \<open>The columns the \<open>UPDATE\<close> sets.\<close>

definition txn_set :: "txn \<Rightarrow> txn \<Rightarrow> txn" where
  "txn_set t r = r\<lparr>txn_Price := txn_Price t, txn_Status := txn_Status t, txn_UpdatedAt := txn_UpdatedAt t,
     txn_CompletedAt := txn_CompletedAt t, txn_CancelledAt := txn_CancelledAt t\<rparr>"

definition txn_pg_Update :: "pg_codec \<Rightarrow> 'd txn_lens \<Rightarrow> ctx \<Rightarrow> txn \<Rightarrow> time \<Rightarrow> ('d pg, unit) go" where
  "txn_pg_Update cd l c txn expectedUpdatedAt =
     gguard (txn_Validate txn)
       (pg_occ_update txn_mapDBErr (TxnErr Txn_errConflict) l txn_ID txn_check txn_clash c (txn_ID txn)
          (\<lambda>r. txn_UpdatedAt r = pc_time cd expectedUpdatedAt) (txn_set (txn_row cd txn)))"

definition txn_pg_store :: "pg_codec \<Rightarrow> 'd txn_lens \<Rightarrow> 'd pg txn_store" where
  "txn_pg_store cd l =
     \<lparr>ts_Create = txn_pg_Create cd l, ts_Get = txn_pg_Get l, ts_GetByOfferID = txn_pg_GetByOfferID l,
      ts_ListForParticipant = txn_pg_ListForParticipant l, ts_Update = txn_pg_Update cd l\<rparr>"

section \<open>It does what the in-memory store does\<close>

text \<open>A record is storable when it and what the columns make of it are valid and its price is in the
  normal form in which \<open>CreatePending\<close> leaves it.\<close>

definition txn_storable :: "pg_codec \<Rightarrow> txn \<Rightarrow> bool" where
  "txn_storable cd t \<longleftrightarrow> txn_Validate t = None \<and> txn_Validate (txn_row cd t) = None \<and>
     price_check (txn_Price t)"

lemma txn_row_fields [simp]:
  "txn_ID (txn_row cd t) = txn_ID t" "txn_OfferID (txn_row cd t) = txn_OfferID t"
  "txn_Price (txn_row cd t) = price_column cd (txn_Price t)"
  by (simp_all add: txn_row_def)

lemma txn_set_offer: "txn_OfferID (txn_set t r) = txn_OfferID r"
  by (simp add: txn_set_def)

lemma txn_check_valid: "txn_Validate t = None \<Longrightarrow> price_check (txn_Price t) \<Longrightarrow> txn_check t"
  by (auto simp: txn_Validate_None txn_check_def txn_base_valid_def)

lemma txn_storableD:
  assumes "txn_storable cd t"
  shows "txn_Validate t = None" "txn_Validate (txn_row cd t) = None" "txn_check (txn_row cd t)"
  using assms by (auto simp: txn_storable_def txn_check_valid)

lemma txn_clash_iff:
  assumes "txn_mem_inv m"
  shows "list_ex (\<lambda>s. txn_clash t (snd s)) (tm_byID m) \<longleftrightarrow> map_of (tm_byOffer m) (txn_OfferID t) \<noteq> None"
  using rows_ex [of "tm_byID m" "\<lambda>k s. txn_clash t s"] txn_mem_invD [OF assms]
  by (auto simp: txn_clash_def) (metis option.inject)+

interpretation txn_pg: table_store tm_byID "\<lambda>m. txn_mem_inv m \<and> tm_fail m = None" txn_ID txn_UpdatedAt
  "\<lambda>t. txn_Validate t = None" txn_clash "\<lambda>cur t. txn_OfferID cur = txn_OfferID t"
  "TxnErr Txn_errNotFound" "TxnErr Txn_errConflict" txn_mem_Create txn_mem_Get txn_mem_Update
proof (unfold_locales, goal_cases)
  case (3 m c r m' res)
  then have "res = Inr () \<Longrightarrow> txn_mem_inv m'" "\<And>e. res = Inl e \<Longrightarrow> m' = m"
    using txn_mem_Create_inv [of m c r m' "()"] txn_mem_Create_err [of c r m m'] by auto
  then show ?case
    using 3 txn_clash_iff [of m r] by (auto simp: txn_mem_Create_def split: if_splits)
next
  case (4 m c k)
  then show ?case by (simp add: txn_mem_Get_eq)
next
  case (5 m c t v m' res)
  show ?case
  proof (cases "txn_table m (txn_ID t)")
    case None
    then show ?thesis using 5(1-4) by (auto simp: txn_mem_Update_def)
  next
    case (Some cur)
    have inv: "txn_mem_inv m" and offer: "txn_OfferID cur = txn_OfferID t" using 5(1,5) Some by auto
    have free: "\<not> list_ex (\<lambda>s. fst s \<noteq> txn_ID t \<and> txn_clash t (snd s)) (tm_byID m)"
      unfolding rows_ex [OF txn_mem_invD(1) [OF inv], of "\<lambda>k r. k \<noteq> txn_ID t \<and> txn_clash t r"]
      using txn_mem_invD(5) [OF inv] Some offer by (auto simp: txn_clash_def) (metis option.inject)
    have "txn_mem_inv (m\<lparr>tm_byID := AList.update (txn_ID t) t (tm_byID m)\<rparr>)"
      using txn_mem_invD [OF inv] txn_mem_invD(5) [OF inv Some] Some offer 5(3)
      by (auto simp: txn_mem_inv_def) (metis option.inject)
    with free Some show ?thesis using 5(1-4) by (auto simp: txn_mem_Update_def split: if_splits)
  qed
qed (auto simp: txn_mem_invD)

lemma txn_mapDBErr_simps [simp]:
  "txn_mapDBErr (DbErr Db_ErrNoRows) = TxnErr Txn_errNotFound"
  "txn_mapDBErr (DbErr Db_ErrConflict) = TxnErr Txn_errConflict"
  by (simp_all add: txn_mapDBErr_def)

lemma txn_mem_GetByOfferID_find:
  assumes inv: "txn_mem_inv m" and "ctx_Err c = None" and "tm_fail m = None"
  shows "txn_mem_GetByOfferID c f m = (m, case find (\<lambda>t. txn_OfferID t = f) (map snd (tm_byID m)) of
    None \<Rightarrow> Inl (TxnErr Txn_errNotFound) | Some t \<Rightarrow> Inr t)"
proof -
  have "find (\<lambda>t. txn_OfferID t = f) (map snd (tm_byID m)) =
      (case map_of (tm_byOffer m) f of None \<Rightarrow> None | Some k \<Rightarrow> txn_table m k)"
    by (rule find_by_index) (use txn_mem_invD [OF inv] in auto)
  then show ?thesis
    using txn_mem_invD(6) [OF inv, of f] assms(2,3)
    by (cases "map_of (tm_byOffer m) f") (auto simp: txn_mem_GetByOfferID_def)
qed

lemmas txn_pg_defs = txn_pg_Create_def txn_pg_Get_def txn_pg_GetByOfferID_def
  txn_pg_ListForParticipant_def txn_pg_Update_def

text \<open>C31. The Postgres store of Transactions implements the in-memory one. While the database works, every
  operation returns what the in-memory store returns on the same rows, the constraints of the table
  never get in the way of a valid record, and afterwards the rows are the same again; an update must
  agree with the stored row on the columns it does not set, as those of the service do.\<close>

theorem txn_pg_refines:
  assumes "txn_pg.sim l m w" and "pg_up c w" and "lens_ok l" and "txn_storable cd t"
    and "\<forall>cur. txn_table m (txn_ID t) = Some cur \<longrightarrow> txn_set (txn_row cd t) cur = txn_row cd t"
  shows "(\<exists>m' w' r. txn_pg_Create cd l c t w = (w', r) \<and>
      txn_mem_Create c (txn_row cd t) m = (m', r) \<and> txn_pg.sim l m' w') \<and>
    (\<exists>m' w' r. txn_pg_Update cd l c t v w = (w', r) \<and>
      txn_mem_Update c (txn_row cd t) (pc_time cd v) m = (m', r) \<and> txn_pg.sim l m' w') \<and>
    (\<exists>w' r. txn_pg_Get l c i w = (w', r) \<and> txn_mem_Get c i m = (m, r) \<and> txn_pg.sim l m w') \<and>
    (\<exists>w' r. txn_pg_GetByOfferID l c i w = (w', r) \<and> txn_mem_GetByOfferID c i m = (m, r) \<and>
      txn_pg.sim l m w') \<and>
    (\<exists>w' r. txn_pg_ListForParticipant l c u w = (w', r) \<and> txn_pg.sim l m w' \<and>
      (\<not> ID_IsZero u \<longrightarrow> txn_mem_ListForParticipant c u m = (m, r)))"
proof -
  obtain w1 r1 where 1: "txn_pg_Create cd l c t w = (w1, r1)" by fastforce
  obtain w2 r2 where 2: "txn_pg_Update cd l c t v w = (w2, r2)" by fastforce
  obtain w3 r3 where 3: "txn_pg_Get l c i w = (w3, r3)" by fastforce
  obtain w4 r4 where 4: "txn_pg_GetByOfferID l c i w = (w4, r4)" by fastforce
  obtain w5 r5 where 5: "txn_pg_ListForParticipant l c u w = (w5, r5)" by fastforce
  note st = txn_storableD [OF assms(4)] and ctx = assms(2) [unfolded pg_up_def]
  have inv: "txn_mem_inv m" "tm_fail m = None" using assms(1) by (simp_all add: txn_pg.sim_def)
  have c1: "\<exists>m'. txn_mem_Create c (txn_row cd t) m = (m', r1) \<and> txn_pg.sim l m' w1"
    using 1 st by (intro txn_pg.create_sim [OF assms(1-3)]) (simp_all add: txn_pg_defs)
  have c2: "\<exists>m'. txn_mem_Update c (txn_row cd t) (pc_time cd v) m = (m', r2) \<and> txn_pg.sim l m' w2"
  proof (rule txn_pg.update_sim [where r = "txn_row cd t" and chk = txn_check, OF assms(1-3) st(2,3), where mp = txn_mapDBErr
        and cond = "\<lambda>r. txn_UpdatedAt r = pc_time cd v" and asg = "txn_set (txn_row cd t)"])
    show "txn_set (txn_row cd t) cur = txn_row cd t \<and> txn_OfferID cur = txn_OfferID (txn_row cd t) \<and>
        (txn_UpdatedAt cur = pc_time cd v) = (txn_UpdatedAt cur = pc_time cd v)"
      if "txn_table m (txn_ID (txn_row cd t)) = Some cur" for cur
      using assms(5) that txn_set_offer [of "txn_row cd t" cur] by auto
  qed (use 2 st(1) in \<open>simp_all add: txn_pg_defs\<close>)
  have c3: "txn_mem_Get c i m = (m, r3) \<and> txn_pg.sim l m w3"
    using 3 by (intro txn_pg.get_sim [OF assms(1-3)]) (simp_all add: txn_pg_defs)
  have c4: "txn_pg.sim l m w4 \<and> txn_mem_GetByOfferID c i m = (m, r4)"
    using txn_pg.find_sim [OF assms(1-3) _ 4 [unfolded txn_pg_defs]] txn_mem_GetByOfferID_find [OF inv(1) _ inv(2)] ctx
    by simp
  have c5: "txn_pg.sim l m w5 \<and> (\<not> ID_IsZero u \<longrightarrow> txn_mem_ListForParticipant c u m = (m, r5))"
    using txn_pg.list_sim [OF assms(1-3) 5 [unfolded txn_pg_defs]] ctx inv
    by (simp add: txn_mem_ListForParticipant_def txn_Participant_def map_idI)
  show ?thesis unfolding 1 2 3 4 5 prod.inject using c1 c2 c3 c4 c5 by blast
qed

definition sample_pg_txn :: "string \<Rightarrow> time \<Rightarrow> txn" where
  "sample_pg_txn s t = (sample_txn s)\<lparr>txn_CreatedAt := 40000, txn_UpdatedAt := t,
     txn_Price := Some sample_price\<rparr>"

lemma sample_pg_txn_fields [simp]:
  "txn_ID (sample_pg_txn s t) = id_n 50" "txn_OfferID (sample_pg_txn s t) = id_n 10"
  "txn_UpdatedAt (sample_pg_txn s t) = t" "txn_Price (sample_pg_txn s t) = Some sample_price"
  by (simp_all add: sample_pg_txn_def sample_txn_def)

lemma sample_pg_txn_valid [simp]:
  "40000 \<le> t \<Longrightarrow> s = TxnPending \<or> s = TxnActive \<Longrightarrow> txn_Validate (sample_pg_txn s t) = None"
  by (auto simp: txn_Validate_None txn_base_valid_def sample_pg_txn_def sample_txn_def
      txn_price_normalized_def)

lemma sample_pg_txn_row [simp]:
  "s = TxnPending \<or> s = TxnActive \<Longrightarrow>
     txn_row sample_codec (sample_pg_txn s t) = sample_pg_txn s (t div 1000 * 1000)"
  by (auto simp: txn_row_def sample_pg_txn_def sample_txn_def) (simp_all add: sample_codec_def)

theorem txn_pg_refines_witness:
  "\<exists>w'. txn_pg_Update sample_codec whole background (sample_pg_txn TxnActive 50700) 40000
      (sample_pg [(id_n 50, sample_pg_txn TxnPending 40000)]) = (w', Inr ()) \<and>
    pg_data w' = [(id_n 50, sample_pg_txn TxnActive 50000)]"
proof -
  let ?m = "\<lparr>tm_byID = [(id_n 50, sample_pg_txn TxnPending 40000)], tm_byOffer = [(id_n 10, id_n 50)],
    tm_fail = None\<rparr>"
  have st: "txn_storable sample_codec (sample_pg_txn TxnActive 50700)"
    by (simp add: txn_storable_def)
  have "txn_mem_inv ?m" by (simp add: txn_mem_inv_def wf_map_def)
  then have sim: "txn_pg.sim whole ?m (sample_pg [(id_n 50, sample_pg_txn TxnPending 40000)])"
    by (simp add: txn_pg.sim_def)
  have fr: "\<forall>cur. txn_table ?m (txn_ID (sample_pg_txn TxnActive 50700)) = Some cur \<longrightarrow>
      txn_set (txn_row sample_codec (sample_pg_txn TxnActive 50700)) cur =
      txn_row sample_codec (sample_pg_txn TxnActive 50700)"
    by simp (simp add: txn_set_def sample_pg_txn_def sample_txn_def)
  have mem: "txn_mem_Update background (sample_pg_txn TxnActive 50000) 40000 ?m =
      (?m\<lparr>tm_byID := [(id_n 50, sample_pg_txn TxnActive 50000)]\<rparr>, Inr ())"
    by (simp add: txn_mem_Update_def background_def)
  obtain m' w' r where u: "txn_pg_Update sample_codec whole background (sample_pg_txn TxnActive 50700) 40000
      (sample_pg [(id_n 50, sample_pg_txn TxnPending 40000)]) = (w', r)"
    and m': "txn_mem_Update background (txn_row sample_codec (sample_pg_txn TxnActive 50700))
      (pc_time sample_codec 40000) ?m = (m', r)" and s: "txn_pg.sim whole m' w'"
    using txn_pg_refines [OF sim sample_pg_up(1) whole_ok(1) st fr, of 40000] by blast
  have "pc_time sample_codec 40000 = 40000" by (simp add: sample_codec_def)
  then have "r = Inr ()" "tm_byID m' = [(id_n 50, sample_pg_txn TxnActive 50000)]"
    using m' mem by auto
  then show ?thesis using u s by (simp add: txn_pg.sim_def)
qed

end
