(* ===== verification/Payments.thy ===== *)
theory Payments
  imports Transactions
begin

text \<open>
  The package \<open>payments\<close>: the payment intent of a Transaction (\<open>domain.go\<close>), what a payment provider
  reports (\<open>ProviderSignal\<close> of \<open>gateway.go\<close>), the in-memory store with its indices by Transaction and
  by provider reference (\<open>memory.go\<close>) and the service (\<open>service.go\<close>).
\<close>

section \<open>Data\<close>

definition PayPending :: string where "PayPending = ''pending''"
definition PayAuthorized :: string where "PayAuthorized = ''authorized''"
definition PayCaptured :: string where "PayCaptured = ''captured''"
definition PayFailed :: string where "PayFailed = ''failed''"
definition PayCancelled :: string where "PayCancelled = ''cancelled''"

lemmas pay_status_defs = PayPending_def PayAuthorized_def PayCaptured_def PayFailed_def PayCancelled_def

lemma pay_status_neq [simp]:
  "PayPending \<noteq> PayAuthorized" "PayPending \<noteq> PayCaptured" "PayPending \<noteq> PayFailed" "PayPending \<noteq> PayCancelled"
  "PayAuthorized \<noteq> PayPending" "PayAuthorized \<noteq> PayCaptured" "PayAuthorized \<noteq> PayFailed" "PayAuthorized \<noteq> PayCancelled"
  "PayCaptured \<noteq> PayPending" "PayCaptured \<noteq> PayAuthorized" "PayCaptured \<noteq> PayFailed" "PayCaptured \<noteq> PayCancelled"
  "PayFailed \<noteq> PayPending" "PayFailed \<noteq> PayAuthorized" "PayFailed \<noteq> PayCaptured" "PayFailed \<noteq> PayCancelled"
  "PayCancelled \<noteq> PayPending" "PayCancelled \<noteq> PayAuthorized" "PayCancelled \<noteq> PayCaptured" "PayCancelled \<noteq> PayFailed"
  by (simp_all add: pay_status_defs)

definition pay_status_valid :: "string \<Rightarrow> bool" where
  "pay_status_valid s \<longleftrightarrow>
     s = PayPending \<or> s = PayAuthorized \<or> s = PayCaptured \<or> s = PayFailed \<or> s = PayCancelled"

definition pay_status_Terminal :: "string \<Rightarrow> bool" where
  "pay_status_Terminal s \<longleftrightarrow> s = PayCaptured \<or> s = PayFailed \<or> s = PayCancelled"

definition pay_status_ActiveIntent :: "string \<Rightarrow> bool" where
  "pay_status_ActiveIntent s \<longleftrightarrow> s = PayPending \<or> s = PayAuthorized"

definition pay_ParseID :: "string \<Rightarrow> ID res" where
  "pay_ParseID = ParseID (PayErr Pay_errInvalidPayment) (PayErr Pay_errZeroID)"

definition money_normalized :: "price \<Rightarrow> price res" where
  "money_normalized m =
     (let amt = strings_TrimSpace (Amount m); cur = strings_TrimSpace (Currency m)
      in if amt = [] \<or> cur = [] then Inl (PayErr Pay_errInvalidAmount)
         else if \<not> amountPattern amt \<or> \<not> currencyPattern cur then Inl (PayErr Pay_errInvalidAmount)
         else case big_Rat_SetString amt of
                None \<Rightarrow> Inl (PayErr Pay_errInvalidAmount)
              | Some _ \<Rightarrow> Inr \<lparr>Amount = amt, Currency = cur\<rparr>)"

record payment =
  p_ID :: ID
  p_TransactionID :: ID
  p_PayerUserID :: ID
  p_PayeeUserID :: ID
  p_Amount :: price
  p_Status :: string
  p_Provider :: "string option"
  p_ProviderReference :: "string option"
  p_CreatedAt :: time
  p_UpdatedAt :: time
  p_AuthorizedAt :: "time option"
  p_CapturedAt :: "time option"
  p_CancelledAt :: "time option"
  p_FailedAt :: "time option"

definition validateProviderFields :: "string option \<Rightarrow> string option \<Rightarrow> go_error option" where
  "validateProviderFields provider ref =
     (if (case provider of None \<Rightarrow> False | Some s \<Rightarrow> strings_TrimSpace s = [])
        then Some (PayErr Pay_errInvalidPayment)
      else if (case ref of None \<Rightarrow> False | Some s \<Rightarrow> strings_TrimSpace s = [])
        then Some (PayErr Pay_errInvalidPayment)
      else None)"

text \<open>The last part of \<open>Validate\<close>: the \<open>switch\<close> on the status.\<close>

definition pay_validateStamps :: "payment \<Rightarrow> go_error option" where
  "pay_validateStamps p =
     (if p_Status p = PayPending then
        (if p_AuthorizedAt p \<noteq> None \<or> p_CapturedAt p \<noteq> None \<or> p_CancelledAt p \<noteq> None \<or>
            p_FailedAt p \<noteq> None
           then Some (PayErr Pay_errInvalidPayment) else None)
      else if p_Status p = PayAuthorized then
        (case p_AuthorizedAt p of
           None \<Rightarrow> Some (PayErr Pay_errInvalidPayment)
         | Some x \<Rightarrow>
             if p_CapturedAt p \<noteq> None \<or> p_CancelledAt p \<noteq> None \<or> p_FailedAt p \<noteq> None
               then Some (PayErr Pay_errInvalidPayment)
             else if time_Before x (p_CreatedAt p) then Some (PayErr Pay_errInvalidPayment)
             else None)
      else if p_Status p = PayCaptured then
        (case (p_AuthorizedAt p, p_CapturedAt p) of
           (Some x, Some y) \<Rightarrow>
             if p_CancelledAt p \<noteq> None \<or> p_FailedAt p \<noteq> None
               then Some (PayErr Pay_errInvalidPayment)
             else if time_Before y x then Some (PayErr Pay_errInvalidPayment)
             else None
         | _ \<Rightarrow> Some (PayErr Pay_errInvalidPayment))
      else if p_Status p = PayCancelled then
        (case p_CancelledAt p of
           None \<Rightarrow> Some (PayErr Pay_errInvalidPayment)
         | Some x \<Rightarrow>
             if p_CapturedAt p \<noteq> None \<or> p_FailedAt p \<noteq> None
               then Some (PayErr Pay_errInvalidPayment)
             else if time_Before x (p_CreatedAt p) then Some (PayErr Pay_errInvalidPayment)
             else None)
      else if p_Status p = PayFailed then
        (case p_FailedAt p of
           None \<Rightarrow> Some (PayErr Pay_errInvalidPayment)
         | Some x \<Rightarrow>
             if p_CapturedAt p \<noteq> None \<or> p_CancelledAt p \<noteq> None
               then Some (PayErr Pay_errInvalidPayment)
             else if time_Before x (p_CreatedAt p) then Some (PayErr Pay_errInvalidPayment)
             else None)
      else None)"

definition pay_Validate :: "payment \<Rightarrow> go_error option" where
  "pay_Validate p =
     (if ID_IsZero (p_ID p) \<or> ID_IsZero (p_TransactionID p) \<or> ID_IsZero (p_PayerUserID p) \<or>
         ID_IsZero (p_PayeeUserID p)
        then Some (PayErr Pay_errZeroID)
      else if p_PayerUserID p = p_PayeeUserID p then Some (PayErr Pay_errInvalidPayment)
      else if \<not> pay_status_valid (p_Status p) then Some (PayErr Pay_errInvalidStatus)
      else case money_normalized (p_Amount p) of Inl e \<Rightarrow> Some e | Inr _ \<Rightarrow>
      if time_IsZero (p_CreatedAt p) \<or> time_Before (p_UpdatedAt p) (p_CreatedAt p)
        then Some (PayErr Pay_errInvalidPayment)
      else case validateProviderFields (p_Provider p) (p_ProviderReference p) of
        Some e \<Rightarrow> Some e
      | None \<Rightarrow> pay_validateStamps p)"

definition pay_Participant :: "payment \<Rightarrow> ID \<Rightarrow> bool" where
  "pay_Participant p userID \<longleftrightarrow>
     \<not> ID_IsZero userID \<and> (p_PayerUserID p = userID \<or> p_PayeeUserID p = userID)"

definition clonePayment :: "payment \<Rightarrow> payment" where
  "clonePayment p = p\<lparr>p_Provider := map_option (\<lambda>v. v) (p_Provider p),
     p_ProviderReference := map_option (\<lambda>v. v) (p_ProviderReference p),
     p_AuthorizedAt := map_option time_UTC (p_AuthorizedAt p),
     p_CapturedAt := map_option time_UTC (p_CapturedAt p),
     p_CancelledAt := map_option time_UTC (p_CancelledAt p),
     p_FailedAt := map_option time_UTC (p_FailedAt p)\<rparr>"

lemma clonePayment_id [simp]: "clonePayment p = p"
  by (simp add: clonePayment_def option.map_ident)

section \<open>Life cycle\<close>

record payment_create =
  pc_TransactionID :: ID
  pc_PayerUserID :: ID
  pc_PayeeUserID :: ID
  pc_Amount :: price

definition pay_CreatePending :: "payment_create \<Rightarrow> time \<Rightarrow> ID option \<Rightarrow> payment res" where
  "pay_CreatePending cmd now entropy =
     (if ID_IsZero (pc_TransactionID cmd) \<or> ID_IsZero (pc_PayerUserID cmd) \<or>
         ID_IsZero (pc_PayeeUserID cmd)
        then Inl (PayErr Pay_errZeroID)
      else if time_IsZero now then Inl (PayErr Pay_errInvalidPayment)
      else case money_normalized (pc_Amount cmd) of Inl e \<Rightarrow> Inl e | Inr amount \<Rightarrow>
      case NewID entropy of None \<Rightarrow> Inl (PayErr Pay_errUnavailable) | Some i \<Rightarrow>
      let p = \<lparr>p_ID = i, p_TransactionID = pc_TransactionID cmd,
               p_PayerUserID = pc_PayerUserID cmd, p_PayeeUserID = pc_PayeeUserID cmd,
               p_Amount = amount, p_Status = PayPending, p_Provider = None,
               p_ProviderReference = None, p_CreatedAt = time_UTC now, p_UpdatedAt = time_UTC now,
               p_AuthorizedAt = None, p_CapturedAt = None, p_CancelledAt = None, p_FailedAt = None\<rparr>
      in case pay_Validate p of Some e \<Rightarrow> Inl e | None \<Rightarrow> Inr p)"

record provider_signal =
  sg_Provider :: "string option"
  sg_ProviderReference :: "string option"

definition signal_value :: "string option \<Rightarrow> string option \<Rightarrow> string option" where
  "signal_value old s =
     (case s of None \<Rightarrow> old
      | Some x \<Rightarrow> let v = strings_TrimSpace x in if v \<noteq> [] then Some v else old)"

definition pay_applySignal :: "provider_signal \<Rightarrow> payment \<Rightarrow> payment" where
  "pay_applySignal signal p =
     p\<lparr>p_Provider := signal_value (p_Provider p) (sg_Provider signal),
       p_ProviderReference := signal_value (p_ProviderReference p) (sg_ProviderReference signal)\<rparr>"

definition pay_withStatus :: "payment \<Rightarrow> string \<Rightarrow> time \<Rightarrow> payment" where
  "pay_withStatus p nxt now = p\<lparr>p_Status := nxt, p_UpdatedAt := time_UTC now\<rparr>"

definition pay_Authorize :: "payment \<Rightarrow> time \<Rightarrow> provider_signal \<Rightarrow> (payment \<times> bool) res" where
  "pay_Authorize p now signal =
     (if p_Status p = PayAuthorized then Inr (p, False)
      else if p_Status p \<noteq> PayPending then Inl (PayErr Pay_errInvalidTransition)
      else let nxt = pay_withStatus p PayAuthorized now;
               nxt = nxt\<lparr>p_AuthorizedAt := Some (p_UpdatedAt nxt)\<rparr>;
               nxt = pay_applySignal signal nxt
           in case pay_Validate nxt of Some e \<Rightarrow> Inl e | None \<Rightarrow> Inr (nxt, True))"

definition pay_Capture :: "payment \<Rightarrow> time \<Rightarrow> provider_signal \<Rightarrow> (payment \<times> bool) res" where
  "pay_Capture p now signal =
     (if p_Status p = PayCaptured then Inr (p, False)
      else if p_Status p \<noteq> PayAuthorized then Inl (PayErr Pay_errInvalidTransition)
      else let nxt = pay_withStatus p PayCaptured now;
               nxt = nxt\<lparr>p_CapturedAt := Some (p_UpdatedAt nxt)\<rparr>;
               nxt = pay_applySignal signal nxt
           in case pay_Validate nxt of Some e \<Rightarrow> Inl e | None \<Rightarrow> Inr (nxt, True))"

definition pay_Cancel :: "payment \<Rightarrow> time \<Rightarrow> provider_signal \<Rightarrow> (payment \<times> bool) res" where
  "pay_Cancel p now signal =
     (if p_Status p = PayCancelled then Inr (p, False)
      else if p_Status p \<noteq> PayPending \<and> p_Status p \<noteq> PayAuthorized
        then Inl (PayErr Pay_errInvalidTransition)
      else let nxt = pay_withStatus p PayCancelled now;
               nxt = nxt\<lparr>p_CancelledAt := Some (p_UpdatedAt nxt)\<rparr>;
               nxt = pay_applySignal signal nxt
           in case pay_Validate nxt of Some e \<Rightarrow> Inl e | None \<Rightarrow> Inr (nxt, True))"

definition pay_Fail :: "payment \<Rightarrow> time \<Rightarrow> provider_signal \<Rightarrow> (payment \<times> bool) res" where
  "pay_Fail p now signal =
     (if p_Status p = PayFailed then Inr (p, False)
      else if p_Status p \<noteq> PayPending \<and> p_Status p \<noteq> PayAuthorized
        then Inl (PayErr Pay_errInvalidTransition)
      else let nxt = pay_withStatus p PayFailed now;
               nxt = nxt\<lparr>p_FailedAt := Some (p_UpdatedAt nxt)\<rparr>;
               nxt = pay_applySignal signal nxt
           in case pay_Validate nxt of Some e \<Rightarrow> Inl e | None \<Rightarrow> Inr (nxt, True))"

section \<open>The in-memory store\<close>

record payment_mem =
  pm_byID :: "(ID, payment) gomap"
  pm_byTxn :: "(ID, ID) gomap"
  pm_byProvider :: "(string, ID) gomap"
  pm_fail :: "go_error option"

definition pay_NewMemoryStore :: payment_mem where
  "pay_NewMemoryStore = \<lparr>pm_byID = [], pm_byTxn = [], pm_byProvider = [], pm_fail = None\<rparr>"

definition pay_mem_SetFail :: "go_error option \<Rightarrow> payment_mem \<Rightarrow> payment_mem" where
  "pay_mem_SetFail err m = m\<lparr>pm_fail := err\<rparr>"

definition pay_put :: "payment \<Rightarrow> payment_mem \<Rightarrow> payment_mem" where
  "pay_put p m = m\<lparr>pm_byID := AList.update (p_ID p) (clonePayment p) (pm_byID m)\<rparr>"

definition pay_mem_Create :: "ctx \<Rightarrow> payment \<Rightarrow> (payment_mem, unit) go" where
  "pay_mem_Create c p = (\<lambda>m.
     gguard (ctx_Err c) (gguard (pm_fail m) (gguard (pay_Validate p)
       (if map_of (pm_byID m) (p_ID p) \<noteq> None then gfail (PayErr Pay_errConflict)
        else if map_of (pm_byTxn m) (p_TransactionID p) \<noteq> None then gfail (PayErr Pay_errConflict)
        else (\<lambda>m.
          let finish = (\<lambda>m. (pay_put p m\<lparr>pm_byTxn :=
                AList.update (p_TransactionID p) (p_ID p) (pm_byTxn m)\<rparr>, Inr ()))
          in case p_ProviderReference p of
               None \<Rightarrow> finish m
             | Some r \<Rightarrow>
                 if map_of (pm_byProvider m) r \<noteq> None then (m, Inl (PayErr Pay_errConflict))
                 else finish (m\<lparr>pm_byProvider := AList.update r (p_ID p) (pm_byProvider m)\<rparr>))))) m)"

definition pay_mem_Get :: "ctx \<Rightarrow> ID \<Rightarrow> (payment_mem, payment) go" where
  "pay_mem_Get c i = (\<lambda>m.
     gguard (ctx_Err c) (gguard (pm_fail m)
       (case map_of (pm_byID m) i of
          None \<Rightarrow> gfail (PayErr Pay_errNotFound)
        | Some p \<Rightarrow> gret (clonePayment p))) m)"

text \<open>The zero value of the struct, for the unchecked \<open>m.byID[id]\<close> of \<open>GetByTransactionID\<close>.\<close>

definition zero_payment :: payment where
  "zero_payment = \<lparr>p_ID = zero_id, p_TransactionID = zero_id, p_PayerUserID = zero_id,
     p_PayeeUserID = zero_id, p_Amount = \<lparr>Amount = [], Currency = []\<rparr>, p_Status = [],
     p_Provider = None, p_ProviderReference = None, p_CreatedAt = 0, p_UpdatedAt = 0,
     p_AuthorizedAt = None, p_CapturedAt = None, p_CancelledAt = None, p_FailedAt = None\<rparr>"

definition pay_mem_GetByTransactionID :: "ctx \<Rightarrow> ID \<Rightarrow> (payment_mem, payment) go" where
  "pay_mem_GetByTransactionID c transactionID = (\<lambda>m.
     gguard (ctx_Err c) (gguard (pm_fail m)
       (case map_of (pm_byTxn m) transactionID of
          None \<Rightarrow> gfail (PayErr Pay_errNotFound)
        | Some i \<Rightarrow> gret (clonePayment
            (case map_of (pm_byID m) i of None \<Rightarrow> zero_payment | Some p \<Rightarrow> p)))) m)"

definition pay_mem_ListForParticipant :: "ctx \<Rightarrow> ID \<Rightarrow> (payment_mem, payment list) go" where
  "pay_mem_ListForParticipant c userID = (\<lambda>m.
     gguard (ctx_Err c) (gguard (pm_fail m)
       (gret (newest_first p_CreatedAt p_ID (map clonePayment
         (filter (\<lambda>p. pay_Participant p userID) (map snd (pm_byID m))))))) m)"

text \<open>
  \<open>Update\<close> removes the old reference from the index before it checks that the new one is free, and
  does not put it back when it is not.
\<close>

definition pay_mem_Update :: "ctx \<Rightarrow> payment \<Rightarrow> time \<Rightarrow> (payment_mem, unit) go" where
  "pay_mem_Update c p expectedUpdatedAt = (\<lambda>m.
     gguard (ctx_Err c) (gguard (pm_fail m) (gguard (pay_Validate p)
       (case map_of (pm_byID m) (p_ID p) of
          None \<Rightarrow> gfail (PayErr Pay_errNotFound)
        | Some current \<Rightarrow>
            if \<not> time_Equal (p_UpdatedAt current) expectedUpdatedAt
              then gfail (PayErr Pay_errConflict)
            else (\<lambda>m.
              let m = (case p_ProviderReference current of
                         None \<Rightarrow> m
                       | Some r \<Rightarrow> m\<lparr>pm_byProvider := AList.delete r (pm_byProvider m)\<rparr>)
              in case p_ProviderReference p of
                   None \<Rightarrow> (pay_put p m, Inr ())
                 | Some r \<Rightarrow>
                     if (case map_of (pm_byProvider m) r of
                           None \<Rightarrow> False | Some owner \<Rightarrow> owner \<noteq> p_ID p)
                       then (m, Inl (PayErr Pay_errConflict))
                     else (pay_put p (m\<lparr>pm_byProvider :=
                             AList.update r (p_ID p) (pm_byProvider m)\<rparr>), Inr ()))))) m)"

section \<open>The service\<close>

record 'w payment_store =
  ps_Create :: "ctx \<Rightarrow> payment \<Rightarrow> ('w, unit) go"
  ps_Get :: "ctx \<Rightarrow> ID \<Rightarrow> ('w, payment) go"
  ps_GetByTransactionID :: "ctx \<Rightarrow> ID \<Rightarrow> ('w, payment) go"
  ps_ListForParticipant :: "ctx \<Rightarrow> ID \<Rightarrow> ('w, payment list) go"
  ps_Update :: "ctx \<Rightarrow> payment \<Rightarrow> time \<Rightarrow> ('w, unit) go"

definition payment_mem_store ::
  "('w \<Rightarrow> payment_mem) \<Rightarrow> ((payment_mem \<Rightarrow> payment_mem) \<Rightarrow> 'w \<Rightarrow> 'w) \<Rightarrow> 'w payment_store" where
  "payment_mem_store get upd =
     \<lparr>ps_Create = (\<lambda>c p. zoom get upd (pay_mem_Create c p)),
      ps_Get = (\<lambda>c i. zoom get upd (pay_mem_Get c i)),
      ps_GetByTransactionID = (\<lambda>c i. zoom get upd (pay_mem_GetByTransactionID c i)),
      ps_ListForParticipant = (\<lambda>c u. zoom get upd (pay_mem_ListForParticipant c u)),
      ps_Update = (\<lambda>c p v. zoom get upd (pay_mem_Update c p v))\<rparr>"

record 'w payment_service =
  psv_store :: "'w payment_store option"
  psv_txns :: "(ctx \<Rightarrow> ID \<Rightarrow> ('w, TransactionRef) go) option"
  psv_now :: "'w \<Rightarrow> 'w \<times> time"
  psv_rand :: "'w \<Rightarrow> 'w \<times> ID option"

definition pay_mapTxnErr :: "go_error \<Rightarrow> go_error" where
  [err_defs]: "pay_mapTxnErr err =
     (if err = TxnCErr TxnC_ErrZeroID then PayErr Pay_errZeroID
      else if err = TxnCErr TxnC_ErrNotFound then PayErr Pay_errNotFound
      else if ctx_error err then err
      else PayErr Pay_errUnavailable)"

definition pay_mapStoreErr :: "go_error \<Rightarrow> go_error" where
  [err_defs]: "pay_mapStoreErr err =
     (if ctx_error err then err
      else if err = PayErr Pay_errNotFound \<or> err = DbErr Db_ErrNoRows then PayErr Pay_errNotFound
      else if err = PayErr Pay_errConflict \<or> err = DbErr Db_ErrConflict then PayErr Pay_errConflict
      else if err = PayErr Pay_errUnavailable \<or> err = DbErr Db_ErrUnavailable
        then PayErr Pay_errUnavailable
      else if err \<in> PayErr ` {Pay_errStoreRequired, Pay_errZeroID, Pay_errInvalidPayment,
            Pay_errInvalidStatus, Pay_errInvalidTransition, Pay_errInvalidAmount, Pay_errForbidden,
            Pay_errNotPriced, Pay_errNotPayable}
        then err
      else PayErr Pay_errUnavailable)"

definition assertPayable :: "TransactionRef \<Rightarrow> go_error option" where
  "assertPayable ref =
     (if (case tr_Price ref of
            None \<Rightarrow> True | Some pr \<Rightarrow> Amount pr = [] \<or> Currency pr = [])
        then Some (PayErr Pay_errNotPriced)
      else if tr_Status ref = TxnPending \<or> tr_Status ref = TxnActive then None
      else Some (PayErr Pay_errNotPayable))"

definition pay_svc_get :: "'w payment_service \<Rightarrow> ctx \<Rightarrow> ID \<Rightarrow> ('w, payment) go" where
  "pay_svc_get s c i =
     gneed (psv_store s) (PayErr Pay_errStoreRequired) (\<lambda>st.
       if ID_IsZero i then gfail (PayErr Pay_errZeroID)
       else gmaperr pay_mapStoreErr (ps_Get st c i))"

definition pay_svc_Get :: "'w payment_service \<Rightarrow> ctx \<Rightarrow> ID \<Rightarrow> ID \<Rightarrow> ('w, payment) go" where
  "pay_svc_Get s c userID paymentID =
     gbind (pay_svc_get s c paymentID) (\<lambda>p.
       if \<not> pay_Participant p userID then gfail (PayErr Pay_errNotFound) else gret p)"

definition pay_svc_ListMine :: "'w payment_service \<Rightarrow> ctx \<Rightarrow> ID \<Rightarrow> ('w, payment list) go" where
  "pay_svc_ListMine s c userID =
     gneed (psv_store s) (PayErr Pay_errStoreRequired) (\<lambda>st.
       if ID_IsZero userID then gfail (PayErr Pay_errZeroID)
       else gmaperr pay_mapStoreErr (ps_ListForParticipant st c userID))"

definition pay_getTransaction :: "'w payment_service \<Rightarrow> ctx \<Rightarrow> ID \<Rightarrow> ('w, TransactionRef) go" where
  "pay_getTransaction s c transactionID =
     gneed (psv_txns s) (PayErr Pay_errUnavailable) (\<lambda>getTxn.
       gmaperr pay_mapTxnErr (getTxn c transactionID))"

text \<open>\<open>ref.Price\<close> is dereferenced after \<open>assertPayable\<close> has checked that it is there.\<close>

definition pay_create_of :: "TransactionRef \<Rightarrow> price \<Rightarrow> payment_create" where
  "pay_create_of ref pr =
     \<lparr>pc_TransactionID = tr_ID ref, pc_PayerUserID = tr_RequesterUserID ref,
      pc_PayeeUserID = tr_ProviderUserID ref,
      pc_Amount = \<lparr>Amount = Amount pr, Currency = Currency pr\<rparr>\<rparr>"

definition pay_svc_CreateForTransaction ::
  "'w payment_service \<Rightarrow> ctx \<Rightarrow> ID \<Rightarrow> ID \<Rightarrow> ('w, payment) go" where
  "pay_svc_CreateForTransaction s c payerUserID transactionID =
     gneed (psv_store s) (PayErr Pay_errStoreRequired) (\<lambda>st.
     if ID_IsZero payerUserID \<or> ID_IsZero transactionID then gfail (PayErr Pay_errZeroID)
     else gbind (pay_getTransaction s c transactionID) (\<lambda>ref.
     if tr_RequesterUserID ref \<noteq> payerUserID then gfail (PayErr Pay_errNotFound)
     else gguard (assertPayable ref) (gneed (tr_Price ref) (PayErr Pay_errNotPriced) (\<lambda>pr.
       gcase (ps_GetByTransactionID st c transactionID)
       (\<lambda>err.
         if err \<noteq> PayErr Pay_errNotFound then gfail (pay_mapStoreErr err)
         else gread (psv_now s) (\<lambda>now. gread (psv_rand s) (\<lambda>entropy.
           gbind (gpure (pay_CreatePending (pay_create_of ref pr) (time_UTC now) entropy)) (\<lambda>created.
           gcase (ps_Create st c created)
             (\<lambda>err.
               if pay_mapStoreErr err = PayErr Pay_errConflict then
                 gcase (ps_GetByTransactionID st c transactionID)
                   (\<lambda>_. gfail (PayErr Pay_errConflict)) gret
               else gfail (pay_mapStoreErr err))
             (\<lambda>_. gret created)))))
       gret))))"

definition pay_applyInternal ::
  "'w payment_service \<Rightarrow> ctx \<Rightarrow> ID \<Rightarrow> (payment \<Rightarrow> time \<Rightarrow> (payment \<times> bool) res) \<Rightarrow> ('w, payment) go" where
  "pay_applyInternal s c paymentID fn =
     gbind (pay_svc_get s c paymentID) (\<lambda>current.
     gread (psv_now s) (\<lambda>now.
     gbind (gpure (fn current (time_UTC now))) (\<lambda>(nxt, changed).
     if \<not> changed then gret current
     else gneed (psv_store s) (PayErr Pay_errStoreRequired) (\<lambda>st.
       gcase (ps_Update st c nxt (p_UpdatedAt current))
         (\<lambda>err.
           if pay_mapStoreErr err \<noteq> PayErr Pay_errConflict then gfail (pay_mapStoreErr err)
           else gbind (pay_svc_get s c paymentID) (\<lambda>latest.
             gread (psv_now s) (\<lambda>now.
             gbind (gpure (fn latest (time_UTC now))) (\<lambda>(_, againChanged).
             if \<not> againChanged then gret latest else gfail (PayErr Pay_errConflict)))))
         (\<lambda>_. gret nxt)))))"

definition pay_svc_ApplyAuthorized ::
  "'w payment_service \<Rightarrow> ctx \<Rightarrow> ID \<Rightarrow> provider_signal \<Rightarrow> ('w, payment) go" where
  "pay_svc_ApplyAuthorized s c paymentID signal =
     pay_applyInternal s c paymentID (\<lambda>p now. pay_Authorize p now signal)"

definition pay_svc_ApplyCaptured ::
  "'w payment_service \<Rightarrow> ctx \<Rightarrow> ID \<Rightarrow> provider_signal \<Rightarrow> ('w, payment) go" where
  "pay_svc_ApplyCaptured s c paymentID signal =
     pay_applyInternal s c paymentID (\<lambda>p now. pay_Capture p now signal)"

definition pay_svc_ApplyCancelled ::
  "'w payment_service \<Rightarrow> ctx \<Rightarrow> ID \<Rightarrow> provider_signal \<Rightarrow> ('w, payment) go" where
  "pay_svc_ApplyCancelled s c paymentID signal =
     pay_applyInternal s c paymentID (\<lambda>p now. pay_Cancel p now signal)"

definition pay_svc_ApplyFailed ::
  "'w payment_service \<Rightarrow> ctx \<Rightarrow> ID \<Rightarrow> provider_signal \<Rightarrow> ('w, payment) go" where
  "pay_svc_ApplyFailed s c paymentID signal =
     pay_applyInternal s c paymentID (\<lambda>p now. pay_Fail p now signal)"

section \<open>Domain operations\<close>

definition pay_base_valid :: "payment \<Rightarrow> bool" where
  "pay_base_valid p \<longleftrightarrow>
     \<not> ID_IsZero (p_ID p) \<and> \<not> ID_IsZero (p_TransactionID p) \<and> \<not> ID_IsZero (p_PayerUserID p) \<and>
     \<not> ID_IsZero (p_PayeeUserID p) \<and> p_PayerUserID p \<noteq> p_PayeeUserID p \<and>
     (\<exists>a. money_normalized (p_Amount p) = Inr a) \<and> p_CreatedAt p \<noteq> 0"

lemma pay_Validate_split:
  "pay_Validate p = None \<longleftrightarrow>
     pay_base_valid p \<and> pay_status_valid (p_Status p) \<and> p_CreatedAt p \<le> p_UpdatedAt p \<and>
     validateProviderFields (p_Provider p) (p_ProviderReference p) = None \<and> pay_validateStamps p = None"
  by (auto simp: pay_Validate_def pay_base_valid_def split: sum.splits option.splits if_splits)

lemma pay_stamps_None:
  "pay_validateStamps p = None \<longleftrightarrow>
     (p_Status p = PayPending \<longrightarrow> p_AuthorizedAt p = None \<and> p_CapturedAt p = None \<and>
        p_CancelledAt p = None \<and> p_FailedAt p = None) \<and>
     (p_Status p = PayAuthorized \<longrightarrow> (\<exists>x. p_AuthorizedAt p = Some x \<and> p_CreatedAt p \<le> x) \<and>
        p_CapturedAt p = None \<and> p_CancelledAt p = None \<and> p_FailedAt p = None) \<and>
     (p_Status p = PayCaptured \<longrightarrow>
        (\<exists>x y. p_AuthorizedAt p = Some x \<and> p_CapturedAt p = Some y \<and> x \<le> y) \<and>
        p_CancelledAt p = None \<and> p_FailedAt p = None) \<and>
     (p_Status p = PayCancelled \<longrightarrow> (\<exists>x. p_CancelledAt p = Some x \<and> p_CreatedAt p \<le> x) \<and>
        p_CapturedAt p = None \<and> p_FailedAt p = None) \<and>
     (p_Status p = PayFailed \<longrightarrow> (\<exists>x. p_FailedAt p = Some x \<and> p_CreatedAt p \<le> x) \<and>
        p_CapturedAt p = None \<and> p_CancelledAt p = None)"
  by (auto simp: pay_validateStamps_def split: option.splits if_splits)

lemma pay_upd_simps [simp]:
  "pay_base_valid (p\<lparr>p_Status := s\<rparr>) = pay_base_valid p"
  "pay_base_valid (p\<lparr>p_UpdatedAt := u\<rparr>) = pay_base_valid p"
  "pay_base_valid (p\<lparr>p_AuthorizedAt := x\<rparr>) = pay_base_valid p"
  "pay_base_valid (p\<lparr>p_CapturedAt := x\<rparr>) = pay_base_valid p"
  "pay_base_valid (p\<lparr>p_CancelledAt := x\<rparr>) = pay_base_valid p"
  "pay_base_valid (p\<lparr>p_FailedAt := x\<rparr>) = pay_base_valid p"
  "pay_base_valid (pay_applySignal g p) = pay_base_valid p"
  by (simp_all add: pay_base_valid_def pay_applySignal_def)

lemma pay_applySignal_fields [simp]:
  "p_ID (pay_applySignal g p) = p_ID p" "p_Status (pay_applySignal g p) = p_Status p"
  "p_TransactionID (pay_applySignal g p) = p_TransactionID p"
  "p_PayerUserID (pay_applySignal g p) = p_PayerUserID p"
  "p_PayeeUserID (pay_applySignal g p) = p_PayeeUserID p"
  "p_Amount (pay_applySignal g p) = p_Amount p"
  "p_CreatedAt (pay_applySignal g p) = p_CreatedAt p"
  "p_UpdatedAt (pay_applySignal g p) = p_UpdatedAt p"
  "p_AuthorizedAt (pay_applySignal g p) = p_AuthorizedAt p"
  "p_CapturedAt (pay_applySignal g p) = p_CapturedAt p"
  "p_CancelledAt (pay_applySignal g p) = p_CancelledAt p"
  "p_FailedAt (pay_applySignal g p) = p_FailedAt p"
  by (simp_all add: pay_applySignal_def)

lemma pay_stamps_signal [simp]:
  "pay_validateStamps (pay_applySignal g p) = None \<longleftrightarrow> pay_validateStamps p = None"
  by (simp add: pay_stamps_None)

lemma signal_value_ok:
  "old = None \<or> (\<exists>s. old = Some s \<and> strings_TrimSpace s \<noteq> []) \<Longrightarrow>
   signal_value old g = None \<or> (\<exists>s. signal_value old g = Some s \<and> strings_TrimSpace s \<noteq> [])"
  by (auto simp: signal_value_def Let_def split: option.split)

lemma provider_fields_signal:
  "validateProviderFields (p_Provider p) (p_ProviderReference p) = None \<Longrightarrow>
   validateProviderFields (p_Provider (pay_applySignal g p)) (p_ProviderReference (pay_applySignal g p)) = None"
  using signal_value_ok [of "p_Provider p" "sg_Provider g"]
    signal_value_ok [of "p_ProviderReference p" "sg_ProviderReference g"]
  by (auto simp: validateProviderFields_def pay_applySignal_def split: option.splits if_splits)

lemmas pay_op_defs = pay_Authorize_def pay_Capture_def pay_Cancel_def pay_Fail_def

lemma pay_ops_valid:
  assumes v: "pay_Validate p = None" and t: "p_CreatedAt p \<le> now"
    and au: "\<And>x. p_AuthorizedAt p = Some x \<Longrightarrow> x \<le> now"
  shows "pay_Authorize p now g =
      (if p_Status p = PayAuthorized then Inr (p, False)
       else if p_Status p = PayPending then Inr (pay_applySignal g
         (p\<lparr>p_Status := PayAuthorized, p_UpdatedAt := now, p_AuthorizedAt := Some now\<rparr>), True)
       else Inl (PayErr Pay_errInvalidTransition))" (is ?A)
    and "pay_Capture p now g =
      (if p_Status p = PayCaptured then Inr (p, False)
       else if p_Status p = PayAuthorized then Inr (pay_applySignal g
         (p\<lparr>p_Status := PayCaptured, p_UpdatedAt := now, p_CapturedAt := Some now\<rparr>), True)
       else Inl (PayErr Pay_errInvalidTransition))" (is ?P)
    and "pay_Cancel p now g =
      (if p_Status p = PayCancelled then Inr (p, False)
       else if pay_status_ActiveIntent (p_Status p) then Inr (pay_applySignal g
         (p\<lparr>p_Status := PayCancelled, p_UpdatedAt := now, p_CancelledAt := Some now\<rparr>), True)
       else Inl (PayErr Pay_errInvalidTransition))" (is ?C)
    and "pay_Fail p now g =
      (if p_Status p = PayFailed then Inr (p, False)
       else if pay_status_ActiveIntent (p_Status p) then Inr (pay_applySignal g
         (p\<lparr>p_Status := PayFailed, p_UpdatedAt := now, p_FailedAt := Some now\<rparr>), True)
       else Inl (PayErr Pay_errInvalidTransition))" (is ?F)
proof -
  note v' = v [unfolded pay_Validate_split pay_stamps_None]
  have sig: "pay_Validate (pay_applySignal g q) = None" if "pay_Validate q = None" for q
    using that provider_fields_signal [of q g] by (simp add: pay_Validate_split)
  have 1: "p_Status p = PayPending \<Longrightarrow> pay_Validate
      (p\<lparr>p_Status := PayAuthorized, p_UpdatedAt := now, p_AuthorizedAt := Some now\<rparr>) = None"
    using v' t by (simp add: pay_Validate_split pay_stamps_None pay_status_valid_def)
  show ?A using sig [OF 1] by (simp add: pay_Authorize_def pay_withStatus_def Let_def)
  have 2: "p_Status p = PayAuthorized \<Longrightarrow> pay_Validate
      (p\<lparr>p_Status := PayCaptured, p_UpdatedAt := now, p_CapturedAt := Some now\<rparr>) = None"
    using v' t au by (auto simp: pay_Validate_split pay_stamps_None pay_status_valid_def)
  show ?P using sig [OF 2] by (simp add: pay_Capture_def pay_withStatus_def Let_def)
  have 3: "pay_status_ActiveIntent (p_Status p) \<Longrightarrow> pay_Validate
      (p\<lparr>p_Status := PayCancelled, p_UpdatedAt := now, p_CancelledAt := Some now\<rparr>) = None"
    using v' t by (auto simp: pay_Validate_split pay_stamps_None pay_status_valid_def pay_status_ActiveIntent_def)
  show ?C using sig [OF 3]
    by (auto simp: pay_Cancel_def pay_withStatus_def Let_def pay_status_ActiveIntent_def)
  have 4: "pay_status_ActiveIntent (p_Status p) \<Longrightarrow> pay_Validate
      (p\<lparr>p_Status := PayFailed, p_UpdatedAt := now, p_FailedAt := Some now\<rparr>) = None"
    using v' t by (auto simp: pay_Validate_split pay_stamps_None pay_status_valid_def pay_status_ActiveIntent_def)
  show ?F using sig [OF 4]
    by (auto simp: pay_Fail_def pay_withStatus_def Let_def pay_status_ActiveIntent_def)
qed

text \<open>What the service may store over a payment.\<close>

definition pay_opr :: "time \<Rightarrow> payment \<Rightarrow> payment \<Rightarrow> bool" where
  "pay_opr now p n \<longleftrightarrow> (\<exists>g. pay_Authorize p now g = Inr (n, True) \<or> pay_Capture p now g = Inr (n, True) \<or>
     pay_Cancel p now g = Inr (n, True) \<or> pay_Fail p now g = Inr (n, True))"

definition pay_frame :: "payment \<Rightarrow> payment \<Rightarrow> bool" where
  "pay_frame p n \<longleftrightarrow>
     p_TransactionID n = p_TransactionID p \<and> p_PayerUserID n = p_PayerUserID p \<and>
     p_PayeeUserID n = p_PayeeUserID p \<and> p_Amount n = p_Amount p \<and> p_CreatedAt n = p_CreatedAt p"

lemma pay_frame_refl [simp]: "pay_frame p p"
  by (simp add: pay_frame_def)

lemma pay_frame_trans: "pay_frame p n \<Longrightarrow> pay_frame n q \<Longrightarrow> pay_frame p q"
  by (simp add: pay_frame_def)

lemma pay_changed:
  shows "pay_Authorize p now g = Inr (n, True) \<Longrightarrow> p_Status p = PayPending \<and> pay_Validate n = None \<and>
      n = pay_applySignal g (p\<lparr>p_Status := PayAuthorized, p_UpdatedAt := now, p_AuthorizedAt := Some now\<rparr>)"
    and "pay_Capture p now g = Inr (n, True) \<Longrightarrow> p_Status p = PayAuthorized \<and> pay_Validate n = None \<and>
      n = pay_applySignal g (p\<lparr>p_Status := PayCaptured, p_UpdatedAt := now, p_CapturedAt := Some now\<rparr>)"
    and "pay_Cancel p now g = Inr (n, True) \<Longrightarrow>
      (p_Status p = PayPending \<or> p_Status p = PayAuthorized) \<and> pay_Validate n = None \<and>
      n = pay_applySignal g (p\<lparr>p_Status := PayCancelled, p_UpdatedAt := now, p_CancelledAt := Some now\<rparr>)"
    and "pay_Fail p now g = Inr (n, True) \<Longrightarrow>
      (p_Status p = PayPending \<or> p_Status p = PayAuthorized) \<and> pay_Validate n = None \<and>
      n = pay_applySignal g (p\<lparr>p_Status := PayFailed, p_UpdatedAt := now, p_FailedAt := Some now\<rparr>)"
  by (simp_all add: pay_op_defs pay_withStatus_def Let_def split: if_splits option.splits)

lemma pay_oprD:
  assumes "pay_opr now p n"
  shows "p_ID n = p_ID p" "p_UpdatedAt n = now" "pay_frame p n" "pay_Validate n = None"
    "\<not> pay_status_Terminal (p_Status p)"
    "p_Status n = PayCaptured \<Longrightarrow> p_Status p = PayAuthorized"
proof -
  have st: "pay_Validate n = None \<and> \<not> pay_status_Terminal (p_Status p) \<and> p_ID n = p_ID p \<and>
      p_UpdatedAt n = now \<and> pay_frame p n \<and> (p_Status n = PayCaptured \<longrightarrow> p_Status p = PayAuthorized)"
    using assms unfolding pay_opr_def
    by (auto dest!: pay_changed simp: pay_status_Terminal_def pay_frame_def)
  then show "p_ID n = p_ID p" "p_UpdatedAt n = now" "pay_frame p n" "pay_Validate n = None"
    "\<not> pay_status_Terminal (p_Status p)"
    "p_Status n = PayCaptured \<Longrightarrow> p_Status p = PayAuthorized"
    by blast+
qed

section \<open>The store keeps the contract\<close>

abbreviation pay_table :: "payment_mem \<Rightarrow> ID \<Rightarrow> payment option" where
  "pay_table m \<equiv> map_of (pm_byID m)"

definition pay_mem_inv :: "payment_mem \<Rightarrow> bool" where
  "pay_mem_inv m \<longleftrightarrow> wf_map (pm_byID m) \<and> wf_map (pm_byTxn m) \<and>
     (\<forall>k p. pay_table m k = Some p \<longrightarrow> p_ID p = k \<and> pay_Validate p = None \<and>
        map_of (pm_byTxn m) (p_TransactionID p) = Some k) \<and>
     (\<forall>f i. map_of (pm_byTxn m) f = Some i \<longrightarrow>
        (\<exists>p. pay_table m i = Some p \<and> p_TransactionID p = f))"

lemma pay_mem_inv_new [simp]: "pay_mem_inv pay_NewMemoryStore"
  by (simp add: pay_mem_inv_def pay_NewMemoryStore_def)

lemma pay_mem_invD:
  assumes "pay_mem_inv m"
  shows "wf_map (pm_byID m)" "wf_map (pm_byTxn m)"
    and "pay_table m k = Some p \<Longrightarrow> p_ID p = k"
    and "pay_table m k = Some p \<Longrightarrow> pay_Validate p = None"
    and "pay_table m k = Some p \<Longrightarrow> map_of (pm_byTxn m) (p_TransactionID p) = Some k"
    and "map_of (pm_byTxn m) f = Some i \<Longrightarrow> \<exists>p. pay_table m i = Some p \<and> p_TransactionID p = f"
  using assms by (auto simp: pay_mem_inv_def)

lemma pay_mem_inv_byProvider [simp]:
  "pay_mem_inv (m\<lparr>pm_byProvider := x\<rparr>) = pay_mem_inv m"
  by (simp add: pay_mem_inv_def)

text \<open>The index by provider reference, before and after a payment is stored.\<close>

definition pay_unindex :: "payment \<Rightarrow> (string, ID) gomap \<Rightarrow> (string, ID) gomap" where
  "pay_unindex p ix = (case p_ProviderReference p of None \<Rightarrow> ix | Some r \<Rightarrow> AList.delete r ix)"

definition pay_index :: "payment \<Rightarrow> (string, ID) gomap \<Rightarrow> (string, ID) gomap" where
  "pay_index p ix = (case p_ProviderReference p of None \<Rightarrow> ix | Some r \<Rightarrow> AList.update r (p_ID p) ix)"

definition pay_ref_free :: "payment \<Rightarrow> (string, ID) gomap \<Rightarrow> bool" where
  "pay_ref_free p ix \<longleftrightarrow> (\<forall>r o'. p_ProviderReference p = Some r \<longrightarrow> map_of ix r = Some o' \<longrightarrow> o' = p_ID p)"

lemma pay_mem_Create_ok:
  "pay_mem_Create c p m = (m', Inr u) \<longleftrightarrow>
     ctx_Err c = None \<and> pm_fail m = None \<and> pay_Validate p = None \<and>
     pay_table m (p_ID p) = None \<and> map_of (pm_byTxn m) (p_TransactionID p) = None \<and>
     (\<forall>r. p_ProviderReference p = Some r \<longrightarrow> map_of (pm_byProvider m) r = None) \<and>
     m' = m\<lparr>pm_byID := AList.update (p_ID p) p (pm_byID m),
            pm_byTxn := AList.update (p_TransactionID p) (p_ID p) (pm_byTxn m),
            pm_byProvider := pay_index p (pm_byProvider m)\<rparr>"
  by (auto simp: pay_mem_Create_def gguard_def pay_put_def pay_index_def Let_def split: option.splits if_splits)

lemma pay_mem_Create_err: "pay_mem_Create c p m = (m', Inl e) \<Longrightarrow> m' = m"
  by (auto simp: pay_mem_Create_def gguard_def Let_def split: option.splits if_splits)

lemma pay_mem_Create_inv:
  assumes inv: "pay_mem_inv m" and cr: "pay_mem_Create c p m = (m', Inr u)"
  shows "pay_mem_inv m'"
proof -
  note ok = cr [unfolded pay_mem_Create_ok]
  have new: "map_of (pm_byTxn m) f \<noteq> Some (p_ID p)" for f
    using pay_mem_invD(6) [OF inv, of f "p_ID p"] ok by auto
  have old: "p_TransactionID q \<noteq> p_TransactionID p" if "pay_table m k = Some q" for k q
    using pay_mem_invD(5) [OF inv that] ok by auto
  show ?thesis
    unfolding pay_mem_inv_def using ok pay_mem_invD [OF inv] new old by auto
qed

lemma pay_mem_Get_eq:
  "pay_mem_Get c i m =
     (m, case ctx_Err c of Some e \<Rightarrow> Inl e | None \<Rightarrow>
         case pm_fail m of Some e \<Rightarrow> Inl e | None \<Rightarrow>
         case pay_table m i of None \<Rightarrow> Inl (PayErr Pay_errNotFound) | Some p \<Rightarrow> Inr p)"
  by (simp add: pay_mem_Get_def gguard_def split: option.split)

lemma pay_mem_Update_ok:
  "pay_mem_Update c p v m = (m', Inr u) \<longleftrightarrow>
     ctx_Err c = None \<and> pm_fail m = None \<and> pay_Validate p = None \<and>
     (\<exists>cur. pay_table m (p_ID p) = Some cur \<and> p_UpdatedAt cur = v \<and>
        pay_ref_free p (pay_unindex cur (pm_byProvider m)) \<and>
        m' = m\<lparr>pm_byID := AList.update (p_ID p) p (pm_byID m),
               pm_byProvider := pay_index p (pay_unindex cur (pm_byProvider m))\<rparr>)"
  by (auto simp: pay_mem_Update_def gguard_def pay_put_def pay_index_def pay_unindex_def pay_ref_free_def
      Let_def split: option.splits if_splits)

text \<open>A failed \<open>Update\<close> may have changed the index by provider reference, and nothing else.\<close>

lemma pay_mem_Update_err:
  "pay_mem_Update c p v m = (m', Inl e) \<Longrightarrow> \<exists>ix. m' = m\<lparr>pm_byProvider := ix\<rparr>"
  unfolding pay_mem_Update_def gguard_def Let_def
  by (auto split: option.splits if_splits) (metis payment_mem.surjective payment_mem.update_convs(3))+

lemma pay_mem_Update_inv:
  assumes inv: "pay_mem_inv m" and up: "pay_mem_Update c n v m = (m', Inr u)"
    and cur: "pay_table m (p_ID n) = Some p" and fr: "pay_frame p n"
  shows "pay_mem_inv m'"
proof -
  obtain ix where "m' = m\<lparr>pm_byID := AList.update (p_ID n) n (pm_byID m), pm_byProvider := ix\<rparr>"
    "pay_Validate n = None"
    using up by (auto simp: pay_mem_Update_ok)
  then show ?thesis
    using pay_mem_invD [OF inv] pay_mem_invD(5) [OF inv cur] cur fr
    by (auto simp: pay_mem_inv_def pay_frame_def) (metis option.inject)
qed

lemma pay_mem_GetByTransactionID_cases:
  assumes inv: "pay_mem_inv m" and "ctx_Err c = None" and "pm_fail m = None"
  obtains (found) p where "pay_mem_GetByTransactionID c f m = (m, Inr p)"
      "pay_table m (p_ID p) = Some p" "p_TransactionID p = f"
    | (missing) "pay_mem_GetByTransactionID c f m = (m, Inl (PayErr Pay_errNotFound))"
      "\<And>k p. pay_table m k = Some p \<Longrightarrow> p_TransactionID p \<noteq> f"
proof (cases "map_of (pm_byTxn m) f")
  case None
  then have "pay_mem_GetByTransactionID c f m = (m, Inl (PayErr Pay_errNotFound))"
    using assms by (simp add: pay_mem_GetByTransactionID_def)
  moreover have "p_TransactionID p \<noteq> f" if "pay_table m k = Some p" for k p
    using pay_mem_invD(5) [OF inv that] None by auto
  ultimately show ?thesis by (rule missing)
next
  case (Some i)
  then obtain p where p: "pay_table m i = Some p" "p_TransactionID p = f"
    using pay_mem_invD(6) [OF inv] by blast
  then have "pay_mem_GetByTransactionID c f m = (m, Inr p)"
    using Some assms by (simp add: pay_mem_GetByTransactionID_def)
  moreover have "pay_table m (p_ID p) = Some p" using pay_mem_invD(3) [OF inv p(1)] p(1) by simp
  ultimately show ?thesis using p(2) by (rule found)
qed

interpretation pay_mem: occ_store p_ID p_UpdatedAt pay_Validate pay_frame pay_table
  pay_mem_inv "pay_mem_Create c" "pay_mem_Get c" "pay_mem_Update c" for c
proof (unfold_locales, goal_cases)
  case (1 s k s' e)
  then show ?case by (auto simp: pay_mem_Get_eq split: option.splits)
next
  case (2 s k s' x)
  then show ?case by (simp add: pay_mem_Get_eq)
next
  case (3 s e s' u)
  then show ?case using pay_mem_Create_inv [of s c e s' u] by (simp add: pay_mem_Create_ok)
next
  case (4 s e s' x)
  then show ?case using pay_mem_Create_err by blast
next
  case (5 s e v s' u)
  then show ?case by (auto simp: pay_mem_Update_ok)
next
  case (6 s e v s' u cur)
  then show ?case using pay_mem_Update_inv by blast
next
  case (7 s e v s' x)
  then show ?case using pay_mem_Update_err [of c e v s s' x] by auto
qed (auto simp: pay_mem_invD)

abbreviation pay_step :: "ctx \<Rightarrow> (payment_mem, payment) conc \<Rightarrow> (payment_mem, payment) conc \<Rightarrow> bool" where
  "pay_step c \<equiv> occ_step (pay_mem_Create c) (pay_mem_Get c) (pay_mem_Update c) p_UpdatedAt pay_opr"

section \<open>The index by provider reference\<close>

text \<open>The index is exact: it names the payment that carries the reference, and no other.\<close>

definition pay_ref_inv :: "payment_mem \<Rightarrow> bool" where
  "pay_ref_inv m \<longleftrightarrow>
     (\<forall>r i. map_of (pm_byProvider m) r = Some i \<longleftrightarrow>
        (\<exists>p. pay_table m i = Some p \<and> p_ProviderReference p = Some r))"

lemma pay_ref_inv_new [simp]: "pay_ref_inv pay_NewMemoryStore"
  by (simp add: pay_ref_inv_def pay_NewMemoryStore_def)

lemma pay_ref_unique:
  assumes "pay_ref_inv m" and "pay_table m k = Some p" and "pay_table m l = Some q"
    and "p_ProviderReference p = Some r" and "p_ProviderReference q = Some r"
  shows "k = l"
proof -
  have "map_of (pm_byProvider m) r = Some k" "map_of (pm_byProvider m) r = Some l"
    using assms by (auto simp: pay_ref_inv_def)
  then show ?thesis by simp
qed

lemma pay_ref_inv_Create:
  assumes "pay_ref_inv m" and "pay_mem_Create c p m = (m', Inr u)"
  shows "pay_ref_inv m'"
proof -
  note ok = assms(2) [unfolded pay_mem_Create_ok]
  have r: "map_of (pm_byProvider m) r = Some i \<longleftrightarrow>
      (\<exists>p. pay_table m i = Some p \<and> p_ProviderReference p = Some r)" for r i
    using assms(1) by (simp add: pay_ref_inv_def)
  have free: "p_ProviderReference q \<noteq> Some r" if "p_ProviderReference p = Some r" "pay_table m i = Some q" for r i q
    using ok r [of r i] that by auto
  show ?thesis
    unfolding pay_ref_inv_def using ok r free by (auto simp: pay_index_def split: option.splits)
qed

lemma pay_ref_inv_Update:
  assumes inv: "pay_mem_inv m" and r: "pay_ref_inv m" and up: "pay_mem_Update c p v m = (m', Inr u)"
  shows "pay_ref_inv m'"
proof -
  obtain cur where cur: "pay_table m (p_ID p) = Some cur"
    and free: "pay_ref_free p (pay_unindex cur (pm_byProvider m))"
    and m': "m' = m\<lparr>pm_byID := AList.update (p_ID p) p (pm_byID m),
               pm_byProvider := pay_index p (pay_unindex cur (pm_byProvider m))\<rparr>"
    using up by (auto simp: pay_mem_Update_ok)
  have ix: "map_of (pay_unindex cur (pm_byProvider m)) q = Some i \<longleftrightarrow>
      i \<noteq> p_ID p \<and> (\<exists>x. pay_table m i = Some x \<and> p_ProviderReference x = Some q)" for q i
    using r cur pay_ref_unique [OF r _ cur, of i]
    by (auto simp: pay_unindex_def pay_ref_inv_def split: option.splits)
  have other: "p_ProviderReference q \<noteq> Some x" if "p_ProviderReference p = Some x" "i \<noteq> p_ID p"
    "pay_table m i = Some q" for x i q
    using free ix [of x i] that by (auto simp: pay_ref_free_def)
  show ?thesis
    unfolding pay_ref_inv_def m'
    using ix free other by (auto simp: pay_index_def pay_ref_free_def split: option.splits)
qed

section \<open>Samples\<close>

definition sample_payment :: "nat \<Rightarrow> string option \<Rightarrow> string \<Rightarrow> time \<Rightarrow> payment" where
  "sample_payment n ref s t =
     \<lparr>p_ID = id_n (70 + n), p_TransactionID = id_n (50 + n), p_PayerUserID = id_n 2,
      p_PayeeUserID = id_n 3, p_Amount = \<lparr>Amount = ''120.50'', Currency = ''TRY''\<rparr>, p_Status = s,
      p_Provider = None, p_ProviderReference = ref, p_CreatedAt = 40, p_UpdatedAt = t,
      p_AuthorizedAt = (if s = PayPending then None else Some t), p_CapturedAt = None,
      p_CancelledAt = None, p_FailedAt = None\<rparr>"

lemma sample_payment_fields [simp]:
  "p_ID (sample_payment n ref s t) = id_n (70 + n)" "p_Status (sample_payment n ref s t) = s"
  "p_TransactionID (sample_payment n ref s t) = id_n (50 + n)"
  "p_ProviderReference (sample_payment n ref s t) = ref"
  "p_CreatedAt (sample_payment n ref s t) = 40" "p_UpdatedAt (sample_payment n ref s t) = t"
  "p_AuthorizedAt (sample_payment n ref s t) = (if s = PayPending then None else Some t)"
  by (simp_all add: sample_payment_def)

lemma sample_money: "money_normalized \<lparr>Amount = ''120.50'', Currency = ''TRY''\<rparr> =
  Inr \<lparr>Amount = ''120.50'', Currency = ''TRY''\<rparr>"
proof -
  have "amountPattern ''120.50''" "currencyPattern ''TRY''"
    by (simp_all add: amountPattern_def currencyPattern_def is_digit_def is_upper_def)
  then show ?thesis
    using big_Rat_SetString_ok [of "''120.50''"] by (auto simp: money_normalized_def)
qed

lemma trim_letters [simp]:
  "strings_TrimSpace ''a'' = ''a''" "strings_TrimSpace ''b'' = ''b''" "strings_TrimSpace ''c'' = ''c''"
  by (simp_all add: TrimSpace_graphic graphic_def)

lemma sample_payment_valid [simp]:
  assumes "n < 100" and "40 \<le> t" and "s = PayPending \<or> s = PayAuthorized"
    and "ref = None \<or> ref = Some ''a'' \<or> ref = Some ''b'' \<or> ref = Some ''c''"
  shows "pay_Validate (sample_payment n ref s t) = None"
proof -
  have "validateProviderFields None ref = None"
    using assms(4) by (auto simp: validateProviderFields_def)
  with assms(1-3) show ?thesis
    by (auto simp: pay_Validate_split pay_stamps_None pay_base_valid_def pay_status_valid_def
        sample_payment_def sample_money)
qed

text \<open>Two payments with their references, and one that has none yet.\<close>

definition sample_payment_mem :: payment_mem where
  "sample_payment_mem =
     \<lparr>pm_byID = [(id_n 70, sample_payment 0 (Some ''a'') PayAuthorized 40),
                 (id_n 71, sample_payment 1 (Some ''b'') PayAuthorized 40),
                 (id_n 72, sample_payment 2 None PayPending 40)],
      pm_byTxn = [(id_n 50, id_n 70), (id_n 51, id_n 71), (id_n 52, id_n 72)],
      pm_byProvider = [(''a'', id_n 70), (''b'', id_n 71)], pm_fail = None\<rparr>"

lemma sample_payment_mem_inv [simp]: "pay_mem_inv sample_payment_mem"
  by (auto simp: pay_mem_inv_def sample_payment_mem_def wf_map_def split: if_splits)

lemma sample_payment_mem_ref [simp]: "pay_ref_inv sample_payment_mem"
  by (auto simp: pay_ref_inv_def sample_payment_mem_def split: if_splits)

section \<open>Properties\<close>

text \<open>The life cycle, on every branch. On a valid payment and a time not before its creation and its
  authorisation: \<open>Authorize\<close> takes pending to authorized, \<open>Capture\<close> takes authorized to captured (money
  is never captured without an authorisation), \<open>Cancel\<close> and \<open>Fail\<close> end a pending or authorized
  payment. Each stamps its time and applies the signal of the provider, repeating it is reported as no
  change, and every other call is refused.\<close>

theorem payment_life_cycle:
  assumes "pay_Validate p = None" and "p_CreatedAt p \<le> now"
    and "\<And>x. p_AuthorizedAt p = Some x \<Longrightarrow> x \<le> now"
  shows "pay_Authorize p now g =
      (if p_Status p = PayAuthorized then Inr (p, False)
       else if p_Status p = PayPending then Inr (pay_applySignal g
         (p\<lparr>p_Status := PayAuthorized, p_UpdatedAt := now, p_AuthorizedAt := Some now\<rparr>), True)
       else Inl (PayErr Pay_errInvalidTransition)) \<and>
    pay_Capture p now g =
      (if p_Status p = PayCaptured then Inr (p, False)
       else if p_Status p = PayAuthorized then Inr (pay_applySignal g
         (p\<lparr>p_Status := PayCaptured, p_UpdatedAt := now, p_CapturedAt := Some now\<rparr>), True)
       else Inl (PayErr Pay_errInvalidTransition)) \<and>
    pay_Cancel p now g =
      (if p_Status p = PayCancelled then Inr (p, False)
       else if pay_status_ActiveIntent (p_Status p) then Inr (pay_applySignal g
         (p\<lparr>p_Status := PayCancelled, p_UpdatedAt := now, p_CancelledAt := Some now\<rparr>), True)
       else Inl (PayErr Pay_errInvalidTransition)) \<and>
    pay_Fail p now g =
      (if p_Status p = PayFailed then Inr (p, False)
       else if pay_status_ActiveIntent (p_Status p) then Inr (pay_applySignal g
         (p\<lparr>p_Status := PayFailed, p_UpdatedAt := now, p_FailedAt := Some now\<rparr>), True)
       else Inl (PayErr Pay_errInvalidTransition))"
  using pay_ops_valid [OF assms] by blast

theorem payment_life_cycle_witness:
  "pay_Capture (sample_payment 0 None PayPending 40) 41 \<lparr>sg_Provider = None, sg_ProviderReference = None\<rparr> =
     Inl (PayErr Pay_errInvalidTransition)"
  using payment_life_cycle [of "sample_payment 0 None PayPending 40" 41
      "\<lparr>sg_Provider = None, sg_ProviderReference = None\<rparr>"] by simp



text \<open>Provider references are unique, while writes succeed. \<open>Create\<close> and a successful \<open>Update\<close>
  keep the index by provider reference exact, so afterwards, too, no two payments carry the same
  reference.\<close>

theorem payment_refs_unique:
  assumes "pay_mem_inv m" and "pay_ref_inv m"
    and "pay_mem_Create c p m = (m', Inr ()) \<or> pay_mem_Update c p v m = (m', Inr ())"
  shows "pay_ref_inv m' \<and>
    (\<forall>k l a b r. pay_table m' k = Some a \<longrightarrow> pay_table m' l = Some b \<longrightarrow>
       p_ProviderReference a = Some r \<longrightarrow> p_ProviderReference b = Some r \<longrightarrow> k = l)"
proof -
  have r: "pay_ref_inv m'"
    using assms pay_ref_inv_Create pay_ref_inv_Update by blast
  then show ?thesis using pay_ref_unique [OF r] by blast
qed

theorem payment_refs_unique_witness:
  "\<exists>m'. pay_mem_Update background (sample_payment 2 (Some ''c'') PayAuthorized 41) 40 sample_payment_mem =
       (m', Inr ()) \<and> pay_ref_inv m'"
proof -
  let ?p = "sample_payment 2 (Some ''c'') PayAuthorized 41"
  obtain m' where "pay_mem_Update background ?p 40 sample_payment_mem = (m', Inr ())"
    by (simp add: pay_mem_Update_ok background_def sample_payment_mem_def pay_ref_free_def pay_unindex_def)
  with payment_refs_unique [OF sample_payment_mem_inv sample_payment_mem_ref, of background ?p m' 40]
  show ?thesis by blast
qed

text \<open>C39. A failed update frees a reference that is in use. In a store whose index is exact, an \<open>Update\<close>
  that is refused because the new reference belongs to another payment leaves the payment as it was but
  takes its old reference out of the index, and a third payment can then be given that reference: two
  payments share one.\<close>

theorem payment_reference_freed_by_failed_update:
  "\<exists>m p q m1 m2 a b. pay_mem_inv m \<and> pay_ref_inv m \<and>
     pay_mem_Update background p 40 m = (m1, Inl (PayErr Pay_errConflict)) \<and>
     pay_mem_Update background q 40 m1 = (m2, Inr ()) \<and>
     pay_table m2 (id_n 70) = Some a \<and> pay_table m2 (id_n 72) = Some b \<and>
     p_ProviderReference a = Some ''a'' \<and> p_ProviderReference b = Some ''a''"
proof -
  let ?m1 = "sample_payment_mem\<lparr>pm_byProvider := [(''b'', id_n 71)]\<rparr>"
  let ?p = "sample_payment 0 (Some ''b'') PayAuthorized 41"
  let ?q = "sample_payment 2 (Some ''a'') PayAuthorized 41"
  have 1: "pay_mem_Update background ?p 40 sample_payment_mem = (?m1, Inl (PayErr Pay_errConflict))"
    by (simp add: pay_mem_Update_def background_def sample_payment_mem_def)
  obtain m2 where 2: "pay_mem_Update background ?q 40 ?m1 = (m2, Inr ())"
    by (simp add: pay_mem_Update_ok background_def sample_payment_mem_def pay_ref_free_def pay_unindex_def)
  have "pay_table m2 (id_n 70) = Some (sample_payment 0 (Some ''a'') PayAuthorized 40)"
    "pay_table m2 (id_n 72) = Some ?q"
    using 2 by (auto simp: pay_mem_Update_ok sample_payment_mem_def)
  with 1 2 sample_payment_mem_inv sample_payment_mem_ref show ?thesis
    by (intro exI [of _ sample_payment_mem] exI [of _ ?p] exI [of _ ?q] exI [of _ ?m1] exI [of _ m2]
      exI [of _ "sample_payment 0 (Some ''a'') PayAuthorized 40"] exI [of _ ?q]) simp
qed

end
