(* ===== verification/Pg_Payments.thy ===== *)
theory Pg_Payments
  imports Payments Pg_Offers
begin

text \<open>
  The Postgres store of the package \<open>payments\<close> (\<open>postgres.go\<close>) on the table of migration
  \<open>000047_payments_core\<close>. The two unique indexes hold whatever an update does, which the in-memory store
  does not achieve: there a refused update loses the entry of the old provider reference.
\<close>

section \<open>The table\<close>

definition pay_row :: "pg_codec \<Rightarrow> payment \<Rightarrow> payment" where
  "pay_row cd p = p\<lparr>p_Amount := (p_Amount p)\<lparr>Amount := pc_numeric cd (Amount (p_Amount p))\<rparr>,
     p_CreatedAt := pc_time cd (p_CreatedAt p), p_UpdatedAt := pc_time cd (p_UpdatedAt p),
     p_AuthorizedAt := map_option (pc_time cd) (p_AuthorizedAt p),
     p_CapturedAt := map_option (pc_time cd) (p_CapturedAt p),
     p_CancelledAt := map_option (pc_time cd) (p_CancelledAt p),
     p_FailedAt := map_option (pc_time cd) (p_FailedAt p)\<rparr>"

text \<open>The constraint on status and timestamps; a cancelled or failed payment may have been authorized or not.\<close>

definition pay_stamps_check :: "payment \<Rightarrow> bool" where
  "pay_stamps_check p \<longleftrightarrow>
     p_Status p = PayPending \<and> p_AuthorizedAt p = None \<and> p_CapturedAt p = None \<and> p_CancelledAt p = None \<and>
       p_FailedAt p = None \<or>
     p_Status p = PayAuthorized \<and> p_CapturedAt p = None \<and> p_CancelledAt p = None \<and> p_FailedAt p = None \<and>
       (case p_AuthorizedAt p of None \<Rightarrow> False | Some a \<Rightarrow> p_CreatedAt p \<le> a) \<or>
     p_Status p = PayCaptured \<and> p_CancelledAt p = None \<and> p_FailedAt p = None \<and>
       (case (p_AuthorizedAt p, p_CapturedAt p) of (Some a, Some x) \<Rightarrow> a \<le> x | _ \<Rightarrow> False) \<or>
     p_Status p = PayCancelled \<and> p_CapturedAt p = None \<and> p_FailedAt p = None \<and>
       (case p_CancelledAt p of None \<Rightarrow> False | Some x \<Rightarrow> p_CreatedAt p \<le> x) \<or>
     p_Status p = PayFailed \<and> p_CapturedAt p = None \<and> p_CancelledAt p = None \<and>
       (case p_FailedAt p of None \<Rightarrow> False | Some x \<Rightarrow> p_CreatedAt p \<le> x)"

definition pay_check :: "payment \<Rightarrow> bool" where
  "pay_check p \<longleftrightarrow>
     p_Status p \<in> {PayPending, PayAuthorized, PayCaptured, PayFailed, PayCancelled} \<and>
     currencyPattern (Currency (p_Amount p)) \<and> p_CreatedAt p \<le> p_UpdatedAt p \<and>
     p_PayerUserID p \<noteq> p_PayeeUserID p \<and> pay_stamps_check p"

definition pay_clash :: "payment \<Rightarrow> payment \<Rightarrow> bool" where
  "pay_clash p q \<longleftrightarrow> p_TransactionID p = p_TransactionID q \<or>
     p_ProviderReference p \<noteq> None \<and> p_ProviderReference p = p_ProviderReference q"

section \<open>The store\<close>

definition pay_mapDBErr :: "go_error \<Rightarrow> go_error" where
  [err_defs]: "pay_mapDBErr err =
     (if err = DbErr Db_ErrNoRows then PayErr Pay_errNotFound
      else if err = DbErr Db_ErrConflict then PayErr Pay_errConflict
      else if ctx_error err then err
      else PayErr Pay_errUnavailable)"

type_synonym 'd payment_lens = "('d, (ID, payment) gomap) lens"

definition pay_pg_Create :: "pg_codec \<Rightarrow> 'd payment_lens \<Rightarrow> ctx \<Rightarrow> payment \<Rightarrow> ('d pg, unit) go" where
  "pay_pg_Create cd l c pay =
     gguard (pay_Validate pay)
       (pg_create pay_mapDBErr l p_ID pay_check pay_clash c (pay_row cd pay))"

definition pay_pg_Get :: "'d payment_lens \<Rightarrow> ctx \<Rightarrow> ID \<Rightarrow> ('d pg, payment) go" where
  "pay_pg_Get l c i = pg_get pay_mapDBErr l c (\<lambda>p. p_ID p = i)"

definition pay_pg_GetByTransactionID :: "'d payment_lens \<Rightarrow> ctx \<Rightarrow> ID \<Rightarrow> ('d pg, payment) go" where
  "pay_pg_GetByTransactionID l c transactionID =
     pg_get pay_mapDBErr l c (\<lambda>p. p_TransactionID p = transactionID)"

definition pay_pg_ListForParticipant :: "'d payment_lens \<Rightarrow> ctx \<Rightarrow> ID \<Rightarrow> ('d pg, payment list) go" where
  "pay_pg_ListForParticipant l c userID =
     pg_list pay_mapDBErr l c (\<lambda>p. p_PayerUserID p = userID \<or> p_PayeeUserID p = userID)
       (newest_first p_CreatedAt p_ID)"

text \<open>The columns the \<open>UPDATE\<close> sets.\<close>

definition pay_set :: "payment \<Rightarrow> payment \<Rightarrow> payment" where
  "pay_set p r = r\<lparr>p_Status := p_Status p, p_Provider := p_Provider p,
     p_ProviderReference := p_ProviderReference p, p_UpdatedAt := p_UpdatedAt p,
     p_AuthorizedAt := p_AuthorizedAt p, p_CapturedAt := p_CapturedAt p,
     p_CancelledAt := p_CancelledAt p, p_FailedAt := p_FailedAt p\<rparr>"

definition pay_pg_Update :: "pg_codec \<Rightarrow> 'd payment_lens \<Rightarrow> ctx \<Rightarrow> payment \<Rightarrow> time \<Rightarrow> ('d pg, unit) go" where
  "pay_pg_Update cd l c pay expectedUpdatedAt =
     gguard (pay_Validate pay)
       (pg_occ_update pay_mapDBErr (PayErr Pay_errConflict) l p_ID pay_check pay_clash c (p_ID pay)
          (\<lambda>r. p_UpdatedAt r = pc_time cd expectedUpdatedAt) (pay_set (pay_row cd pay)))"

definition payment_pg_store :: "pg_codec \<Rightarrow> 'd payment_lens \<Rightarrow> 'd pg payment_store" where
  "payment_pg_store cd l =
     \<lparr>ps_Create = pay_pg_Create cd l, ps_Get = pay_pg_Get l,
      ps_GetByTransactionID = pay_pg_GetByTransactionID l,
      ps_ListForParticipant = pay_pg_ListForParticipant l, ps_Update = pay_pg_Update cd l\<rparr>"

lemmas pay_pg_defs = pay_pg_Create_def pay_pg_Get_def pay_pg_GetByTransactionID_def
  pay_pg_ListForParticipant_def pay_pg_Update_def

section \<open>Its rows\<close>

lemma pay_clash_sym: "pay_clash a b \<Longrightarrow> pay_clash b a"
  unfolding pay_clash_def by metis

lemma pay_pg_safe:
  assumes P: "table_part P l p_ID pay_check pay_clash"
  shows "keeps (pg_keeps_safe P) (pay_pg_Create cd l c p)"
    and "keeps (pg_keeps_safe P) (pay_pg_Get l c i)"
    and "keeps (pg_keeps_safe P) (pay_pg_GetByTransactionID l c i)"
    and "keeps (pg_keeps_safe P) (pay_pg_ListForParticipant l c i)"
    and "keeps (pg_keeps_safe P) (pay_pg_Update cd l c p v)"
proof -
  show "keeps (pg_keeps_safe P) (pay_pg_Update cd l c p v)"
    unfolding pay_pg_defs by (intro safe.keeps_gguard keeps_safe_store(4) [OF P]) (simp add: pay_set_def)
qed (unfold pay_pg_defs, (intro safe.keeps_gguard keeps_safe_store(1-3) [OF P])+)

text \<open>What \<open>Validate\<close> accepts with a normal amount meets the constraints.\<close>

lemma pay_check_valid:
  assumes "pay_Validate p = None" and "currencyPattern (Currency (p_Amount p))"
  shows "pay_check p"
proof -
  have b: "pay_base_valid p" and s: "pay_status_valid (p_Status p)" and u: "p_CreatedAt p \<le> p_UpdatedAt p"
    and st: "pay_validateStamps p = None"
    using assms(1) by (simp_all add: pay_Validate_split)
  have "pay_stamps_check p"
    using s st [unfolded pay_stamps_None] unfolding pay_status_valid_def
    by (elim disjE) (auto simp: pay_stamps_check_def)
  with b s u assms(2) show ?thesis by (auto simp: pay_check_def pay_base_valid_def pay_status_valid_def)
qed

text \<open>C16. Whatever the database refuses or loses, a write of the Postgres store leaves the payments as they
  were or takes effect as a whole, and reports success only in the second case. An update replaces only a
  row that still has the version the caller read. In any case there is at most one payment for a
  transaction and for a provider reference afterwards, and every payment is in a consistent state (a
  captured one was authorized before).\<close>

theorem pay_pg_writes:
  assumes l: "lens_ok l" and ok: "table_ok p_ID pay_check pay_clash (fst l (pg_data w))"
  shows "(\<exists>w' r. pay_pg_Create cd l c p w = (w', r) \<and>
      table_ok p_ID pay_check pay_clash (fst l (pg_data w')) \<and>
      (fst l (pg_data w') = fst l (pg_data w) \<and> r \<noteq> Inr () \<or>
       map_of (fst l (pg_data w)) (p_ID p) = None \<and>
       fst l (pg_data w') = AList.update (p_ID p) (pay_row cd p) (fst l (pg_data w)))) \<and>
    (\<exists>w' r. pay_pg_Update cd l c p v w = (w', r) \<and>
      table_ok p_ID pay_check pay_clash (fst l (pg_data w')) \<and>
      (fst l (pg_data w') = fst l (pg_data w) \<and> r \<noteq> Inr () \<or>
       (\<exists>cur. map_of (fst l (pg_data w)) (p_ID p) = Some cur \<and> p_UpdatedAt cur = pc_time cd v \<and>
          fst l (pg_data w') = AList.update (p_ID p) (pay_set (pay_row cd p) cur) (fst l (pg_data w)))))"
proof -
  obtain w1 r1 where 1: "pay_pg_Create cd l c p w = (w1, r1)" by fastforce
  obtain w2 r2 where 2: "pay_pg_Update cd l c p v w = (w2, r2)" by fastforce
  have key: "p_ID (pay_row cd p) = p_ID p" and set: "p_ID (pay_set q r) = p_ID r" for q r
    by (simp_all add: pay_row_def pay_set_def)
  have c1: "table_ok p_ID pay_check pay_clash (fst l (pg_data w1)) \<and>
      (fst l (pg_data w1) = fst l (pg_data w) \<and> r1 \<noteq> Inr () \<or>
       map_of (fst l (pg_data w)) (p_ID p) = None \<and>
       fst l (pg_data w1) = AList.update (p_ID p) (pay_row cd p) (fst l (pg_data w)))"
  proof (cases "pay_Validate p")
    case None
    then have "pg_create pay_mapDBErr l p_ID pay_check pay_clash c (pay_row cd p) w = (w1, r1)"
      using 1 by (simp add: pay_pg_defs)
    from pg_create_table [OF l ok pay_clash_sym this] show ?thesis unfolding key by blast
  qed (use 1 ok in \<open>auto simp: pay_pg_defs\<close>)
  have c2: "table_ok p_ID pay_check pay_clash (fst l (pg_data w2)) \<and>
      (fst l (pg_data w2) = fst l (pg_data w) \<and> r2 \<noteq> Inr () \<or>
       (\<exists>cur. map_of (fst l (pg_data w)) (p_ID p) = Some cur \<and> p_UpdatedAt cur = pc_time cd v \<and>
          fst l (pg_data w2) = AList.update (p_ID p) (pay_set (pay_row cd p) cur) (fst l (pg_data w))))"
  proof (cases "pay_Validate p")
    case None
    then have "pg_occ_update pay_mapDBErr (PayErr Pay_errConflict) l p_ID pay_check pay_clash c (p_ID p)
        (\<lambda>r. p_UpdatedAt r = pc_time cd v) (pay_set (pay_row cd p)) w = (w2, r2)"
      using 2 by (simp add: pay_pg_defs)
    from pg_occ_update_table [OF l ok pay_clash_sym set this] show ?thesis .
  qed (use 2 ok in \<open>auto simp: pay_pg_defs\<close>)
  show ?thesis unfolding 1 2 prod.inject using c1 c2 by blast
qed

section \<open>Samples\<close>

text \<open>The state in which the in-memory store loses a provider reference.\<close>

lemma sample_payments_ok: "table_ok p_ID pay_check pay_clash (pm_byID sample_payment_mem)"
proof -
  have "currencyPattern ''TRY''" by (simp add: currencyPattern_def is_upper_def)
  then have "pay_check (sample_payment n ref s t)"
    if "n < 100" "40 \<le> t" "s = PayPending \<or> s = PayAuthorized"
      "ref = None \<or> ref = Some ''a'' \<or> ref = Some ''b'' \<or> ref = Some ''c''" for n ref s t
    using pay_check_valid [OF sample_payment_valid [OF that]] by (simp add: sample_payment_def)
  then show ?thesis
    by (auto simp: table_ok_def sample_payment_mem_def wf_map_def pay_clash_def split: if_splits)
qed

theorem pay_pg_writes_witness:
  "\<exists>w' r. pay_pg_Update sample_codec whole background (sample_payment 0 (Some ''b'') PayAuthorized 50) 40
      (sample_pg (pm_byID sample_payment_mem)) = (w', r) \<and> table_ok p_ID pay_check pay_clash (pg_data w')"
  using pay_pg_writes [OF whole_ok(1), where w = "sample_pg (pm_byID sample_payment_mem)" and cd = sample_codec
      and c = background and p = "sample_payment 0 (Some ''b'') PayAuthorized 50" and v = 40]
    sample_payments_ok by auto

end
