(* ===== verification/Deliveries.thy ===== *)
theory Deliveries
  imports Transactions
begin

text \<open>
  The package \<open>deliveries\<close>: the logistics state of a Transaction (\<open>domain.go\<close>), the in-memory store
  with its index by Transaction (\<open>memory.go\<close>), the service (\<open>service.go\<close>), its event (\<open>events.go\<close>,
  \<open>contracts/events.go\<close>) and the read surface for other packages (\<open>lookup.go\<close>, \<open>contracts/lookup.go\<close>).
\<close>

section \<open>Data\<close>

definition DelPending :: string where "DelPending = ''pending''"
definition DelReady :: string where "DelReady = ''ready''"
definition DelInTransit :: string where "DelInTransit = ''in_transit''"
definition DelDelivered :: string where "DelDelivered = ''delivered''"
definition DelCancelled :: string where "DelCancelled = ''cancelled''"

lemmas del_status_defs = DelPending_def DelReady_def DelInTransit_def DelDelivered_def DelCancelled_def

lemma del_status_neq [simp]:
  "DelPending \<noteq> DelReady" "DelPending \<noteq> DelInTransit" "DelPending \<noteq> DelDelivered" "DelPending \<noteq> DelCancelled"
  "DelReady \<noteq> DelPending" "DelReady \<noteq> DelInTransit" "DelReady \<noteq> DelDelivered" "DelReady \<noteq> DelCancelled"
  "DelInTransit \<noteq> DelPending" "DelInTransit \<noteq> DelReady" "DelInTransit \<noteq> DelDelivered" "DelInTransit \<noteq> DelCancelled"
  "DelDelivered \<noteq> DelPending" "DelDelivered \<noteq> DelReady" "DelDelivered \<noteq> DelInTransit" "DelDelivered \<noteq> DelCancelled"
  "DelCancelled \<noteq> DelPending" "DelCancelled \<noteq> DelReady" "DelCancelled \<noteq> DelInTransit" "DelCancelled \<noteq> DelDelivered"
  by (simp_all add: del_status_defs)

definition del_status_valid :: "string \<Rightarrow> bool" where
  "del_status_valid s \<longleftrightarrow>
     s = DelPending \<or> s = DelReady \<or> s = DelInTransit \<or> s = DelDelivered \<or> s = DelCancelled"

definition del_status_Terminal :: "string \<Rightarrow> bool" where
  "del_status_Terminal s \<longleftrightarrow> s = DelDelivered \<or> s = DelCancelled"

definition MethodHandoff :: string where "MethodHandoff = ''handoff''"
definition MethodCourier :: string where "MethodCourier = ''courier''"
definition MethodPickup :: string where "MethodPickup = ''pickup''"

definition del_method_valid :: "string \<Rightarrow> bool" where
  "del_method_valid m \<longleftrightarrow> m = MethodHandoff \<or> m = MethodCourier \<or> m = MethodPickup"

definition del_method_skipsInTransit :: "string \<Rightarrow> bool" where
  "del_method_skipsInTransit m \<longleftrightarrow> m = MethodHandoff \<or> m = MethodPickup"

definition del_MaxNoteRunes :: nat where "del_MaxNoteRunes = 500"

definition EligibilityRequired :: string where "EligibilityRequired = ''delivery_required''"
definition EligibilityNone :: string where "EligibilityNone = ''no_delivery_required''"

lemma eligibility_simps [simp]:
  "EligibilityRequired \<noteq> EligibilityNone" "EligibilityNone \<noteq> EligibilityRequired"
  "EligibilityRequired \<noteq> []" "EligibilityNone \<noteq> []"
  by (simp_all add: EligibilityRequired_def EligibilityNone_def)

definition del_ParseID :: "string \<Rightarrow> ID res" where
  "del_ParseID = ParseID (DelErr Del_errInvalidDelivery) (DelErr Del_errZeroID)"

definition del_normalizeMethod :: "string option \<Rightarrow> string option res" where
  "del_normalizeMethod m =
     (case m of
        None \<Rightarrow> Inr None
      | Some s \<Rightarrow>
          let v = strings_TrimSpace s
          in if v = [] then Inr None
             else if \<not> del_method_valid v then Inl (DelErr Del_errInvalidMethod)
             else Inr (Some v))"

definition del_normalizeNote :: "string \<Rightarrow> string res" where
  "del_normalizeNote s =
     (let v = strings_TrimSpace s
      in if v = [] then Inl (DelErr Del_errInvalidNote)
         else if utf8_RuneCountInString v > del_MaxNoteRunes then Inl (DelErr Del_errInvalidNote)
         else Inr v)"

definition del_cloneNormalizedNote :: "string option \<Rightarrow> string option res" where
  "del_cloneNormalizedNote s =
     (case s of
        None \<Rightarrow> Inr None
      | Some n \<Rightarrow> (case del_normalizeNote n of Inl e \<Rightarrow> Inl e | Inr v \<Rightarrow> Inr (Some v)))"

record delivery =
  dl_ID :: ID
  dl_TransactionID :: ID
  dl_RequesterUserID :: ID
  dl_ProviderUserID :: ID
  dl_Eligibility :: string
  dl_Status :: string
  dl_Method :: "string option"
  dl_Note :: "string option"
  dl_CreatedAt :: time
  dl_UpdatedAt :: time
  dl_DispatchedAt :: "time option"
  dl_DeliveredAt :: "time option"
  dl_CancelledAt :: "time option"

definition del_skipsInTransit :: "delivery \<Rightarrow> bool" where
  "del_skipsInTransit d \<longleftrightarrow>
     (case dl_Method d of None \<Rightarrow> False | Some m \<Rightarrow> del_method_skipsInTransit m)"

text \<open>The last part of \<open>Validate\<close>: the \<open>switch\<close> on the status.\<close>

definition del_validateStamps :: "delivery \<Rightarrow> go_error option" where
  "del_validateStamps d =
     (if dl_Status d = DelPending \<or> dl_Status d = DelReady then
        (if dl_DispatchedAt d \<noteq> None \<or> dl_DeliveredAt d \<noteq> None \<or> dl_CancelledAt d \<noteq> None
           then Some (DelErr Del_errInvalidDelivery) else None)
      else if dl_Status d = DelInTransit then
        (case dl_DispatchedAt d of
           None \<Rightarrow> Some (DelErr Del_errInvalidDelivery)
         | Some x \<Rightarrow>
             if dl_DeliveredAt d \<noteq> None \<or> dl_CancelledAt d \<noteq> None
               then Some (DelErr Del_errInvalidDelivery)
             else if time_Before x (dl_CreatedAt d) then Some (DelErr Del_errInvalidDelivery)
             else if del_skipsInTransit d then Some (DelErr Del_errInvalidDelivery)
             else None)
      else if dl_Status d = DelDelivered then
        (case dl_DeliveredAt d of
           None \<Rightarrow> Some (DelErr Del_errInvalidDelivery)
         | Some x \<Rightarrow>
             if dl_CancelledAt d \<noteq> None then Some (DelErr Del_errInvalidDelivery)
             else if time_Before x (dl_CreatedAt d) then Some (DelErr Del_errInvalidDelivery)
             else if del_skipsInTransit d then
               (if dl_DispatchedAt d \<noteq> None then Some (DelErr Del_errInvalidDelivery) else None)
             else (case dl_DispatchedAt d of
                     None \<Rightarrow> Some (DelErr Del_errInvalidDelivery)
                   | Some y \<Rightarrow> if time_Before x y then Some (DelErr Del_errInvalidDelivery) else None))
      else if dl_Status d = DelCancelled then
        (case dl_CancelledAt d of
           None \<Rightarrow> Some (DelErr Del_errInvalidDelivery)
         | Some x \<Rightarrow>
             if dl_DeliveredAt d \<noteq> None then Some (DelErr Del_errInvalidDelivery)
             else if time_Before x (dl_CreatedAt d) then Some (DelErr Del_errInvalidDelivery)
             else None)
      else None)"

definition del_Validate :: "delivery \<Rightarrow> go_error option" where
  "del_Validate d =
     (if ID_IsZero (dl_ID d) \<or> ID_IsZero (dl_TransactionID d) \<or> ID_IsZero (dl_RequesterUserID d) \<or>
         ID_IsZero (dl_ProviderUserID d)
        then Some (DelErr Del_errZeroID)
      else if dl_RequesterUserID d = dl_ProviderUserID d then Some (DelErr Del_errInvalidDelivery)
      else if dl_Eligibility d \<noteq> EligibilityRequired then Some (DelErr Del_errInvalidEligibility)
      else if \<not> del_status_valid (dl_Status d) then Some (DelErr Del_errInvalidStatus)
      else if (case dl_Method d of None \<Rightarrow> False | Some m \<Rightarrow> \<not> del_method_valid m)
        then Some (DelErr Del_errInvalidMethod)
      else case (case dl_Note d of
                   None \<Rightarrow> None
                 | Some n \<Rightarrow> (case del_normalizeNote n of Inl e \<Rightarrow> Some e | Inr _ \<Rightarrow> None)) of
        Some e \<Rightarrow> Some e
      | None \<Rightarrow>
      if time_IsZero (dl_CreatedAt d) \<or> time_Before (dl_UpdatedAt d) (dl_CreatedAt d)
        then Some (DelErr Del_errInvalidDelivery)
      else del_validateStamps d)"

definition del_Participant :: "delivery \<Rightarrow> ID \<Rightarrow> bool" where
  "del_Participant d userID \<longleftrightarrow>
     \<not> ID_IsZero userID \<and> (dl_RequesterUserID d = userID \<or> dl_ProviderUserID d = userID)"

definition del_Provider :: "delivery \<Rightarrow> ID \<Rightarrow> bool" where
  "del_Provider d userID \<longleftrightarrow> \<not> ID_IsZero userID \<and> dl_ProviderUserID d = userID"

text \<open>Copies of pointers are copies of the values they point to.\<close>

definition cloneDelivery :: "delivery \<Rightarrow> delivery" where
  "cloneDelivery d = d\<lparr>dl_Method := map_option (\<lambda>v. v) (dl_Method d),
     dl_Note := map_option (\<lambda>v. v) (dl_Note d),
     dl_DispatchedAt := map_option time_UTC (dl_DispatchedAt d),
     dl_DeliveredAt := map_option time_UTC (dl_DeliveredAt d),
     dl_CancelledAt := map_option time_UTC (dl_CancelledAt d)\<rparr>"

lemma cloneDelivery_id [simp]: "cloneDelivery d = d"
  by (simp add: cloneDelivery_def option.map_ident)

section \<open>Life cycle\<close>

record delivery_create =
  dc_TransactionID :: ID
  dc_RequesterUserID :: ID
  dc_ProviderUserID :: ID
  dc_Eligibility :: string
  dc_Method :: "string option"
  dc_Note :: "string option"

definition del_CreatePending :: "delivery_create \<Rightarrow> time \<Rightarrow> ID option \<Rightarrow> delivery res" where
  "del_CreatePending cmd now entropy =
     (if ID_IsZero (dc_TransactionID cmd) \<or> ID_IsZero (dc_RequesterUserID cmd) \<or>
         ID_IsZero (dc_ProviderUserID cmd)
        then Inl (DelErr Del_errZeroID)
      else if time_IsZero now then Inl (DelErr Del_errInvalidDelivery)
      else let eligibility = strings_TrimSpace (dc_Eligibility cmd);
               eligibility = (if eligibility = [] then EligibilityRequired else eligibility)
      in if eligibility = EligibilityNone then Inl (DelErr Del_errNotEligible)
      else if eligibility \<noteq> EligibilityRequired then Inl (DelErr Del_errInvalidEligibility)
      else case del_normalizeMethod (dc_Method cmd) of Inl e \<Rightarrow> Inl e | Inr method \<Rightarrow>
      case del_cloneNormalizedNote (dc_Note cmd) of Inl e \<Rightarrow> Inl e | Inr note \<Rightarrow>
      case NewID entropy of None \<Rightarrow> Inl (DelErr Del_errUnavailable) | Some i \<Rightarrow>
      let d = \<lparr>dl_ID = i, dl_TransactionID = dc_TransactionID cmd,
               dl_RequesterUserID = dc_RequesterUserID cmd,
               dl_ProviderUserID = dc_ProviderUserID cmd, dl_Eligibility = EligibilityRequired,
               dl_Status = DelPending, dl_Method = method, dl_Note = note,
               dl_CreatedAt = time_UTC now, dl_UpdatedAt = time_UTC now,
               dl_DispatchedAt = None, dl_DeliveredAt = None, dl_CancelledAt = None\<rparr>
      in case del_Validate d of Some e \<Rightarrow> Inl e | None \<Rightarrow> Inr d)"

definition del_withStatus :: "delivery \<Rightarrow> string \<Rightarrow> time \<Rightarrow> delivery" where
  "del_withStatus d nxt now = d\<lparr>dl_Status := nxt, dl_UpdatedAt := time_UTC now\<rparr>"

definition del_MarkReady :: "delivery \<Rightarrow> time \<Rightarrow> (delivery \<times> bool) res" where
  "del_MarkReady d now =
     (if dl_Status d = DelReady then Inr (d, False)
      else if dl_Status d \<noteq> DelPending then Inl (DelErr Del_errInvalidTransition)
      else let nxt = del_withStatus d DelReady now
           in case del_Validate nxt of Some e \<Rightarrow> Inl e | None \<Rightarrow> Inr (nxt, True))"

definition del_MarkInTransit :: "delivery \<Rightarrow> time \<Rightarrow> (delivery \<times> bool) res" where
  "del_MarkInTransit d now =
     (if dl_Status d = DelInTransit then Inr (d, False)
      else if del_skipsInTransit d then Inl (DelErr Del_errInvalidTransition)
      else if dl_Status d \<noteq> DelReady then Inl (DelErr Del_errInvalidTransition)
      else let nxt = del_withStatus d DelInTransit now;
               nxt = nxt\<lparr>dl_DispatchedAt := Some (dl_UpdatedAt nxt)\<rparr>
           in case del_Validate nxt of Some e \<Rightarrow> Inl e | None \<Rightarrow> Inr (nxt, True))"

definition del_MarkDelivered :: "delivery \<Rightarrow> time \<Rightarrow> (delivery \<times> bool) res" where
  "del_MarkDelivered d now =
     (if dl_Status d = DelDelivered then Inr (d, False)
      else if del_skipsInTransit d \<and> dl_Status d \<noteq> DelReady
        then Inl (DelErr Del_errInvalidTransition)
      else if \<not> del_skipsInTransit d \<and> dl_Status d \<noteq> DelInTransit
        then Inl (DelErr Del_errInvalidTransition)
      else let nxt = del_withStatus d DelDelivered now;
               nxt = nxt\<lparr>dl_DeliveredAt := Some (dl_UpdatedAt nxt)\<rparr>
           in case del_Validate nxt of Some e \<Rightarrow> Inl e | None \<Rightarrow> Inr (nxt, True))"

definition del_Cancel :: "delivery \<Rightarrow> time \<Rightarrow> (delivery \<times> bool) res" where
  "del_Cancel d now =
     (if dl_Status d = DelCancelled then Inr (d, False)
      else if dl_Status d \<noteq> DelPending \<and> dl_Status d \<noteq> DelReady \<and> dl_Status d \<noteq> DelInTransit
        then Inl (DelErr Del_errInvalidTransition)
      else let nxt = del_withStatus d DelCancelled now;
               nxt = nxt\<lparr>dl_CancelledAt := Some (dl_UpdatedAt nxt)\<rparr>
           in case del_Validate nxt of Some e \<Rightarrow> Inl e | None \<Rightarrow> Inr (nxt, True))"

section \<open>The in-memory store\<close>

record delivery_mem =
  lm_byID :: "(ID, delivery) gomap"
  lm_byTxn :: "(ID, ID) gomap"
  lm_fail :: "go_error option"

definition del_NewMemoryStore :: delivery_mem where
  "del_NewMemoryStore = \<lparr>lm_byID = [], lm_byTxn = [], lm_fail = None\<rparr>"

definition del_mem_SetFail :: "go_error option \<Rightarrow> delivery_mem \<Rightarrow> delivery_mem" where
  "del_mem_SetFail err m = m\<lparr>lm_fail := err\<rparr>"

definition del_mem_Create :: "ctx \<Rightarrow> delivery \<Rightarrow> (delivery_mem, unit) go" where
  "del_mem_Create c d = (\<lambda>m.
     gguard (ctx_Err c) (gguard (lm_fail m) (gguard (del_Validate d)
       (if map_of (lm_byID m) (dl_ID d) \<noteq> None then gfail (DelErr Del_errConflict)
        else if map_of (lm_byTxn m) (dl_TransactionID d) \<noteq> None
          then gfail (DelErr Del_errConflict)
        else (\<lambda>m. (m\<lparr>lm_byID := AList.update (dl_ID d) (cloneDelivery d) (lm_byID m),
                     lm_byTxn := AList.update (dl_TransactionID d) (dl_ID d) (lm_byTxn m)\<rparr>,
                   Inr ()))))) m)"

definition del_mem_Get :: "ctx \<Rightarrow> ID \<Rightarrow> (delivery_mem, delivery) go" where
  "del_mem_Get c i = (\<lambda>m.
     gguard (ctx_Err c) (gguard (lm_fail m)
       (case map_of (lm_byID m) i of
          None \<Rightarrow> gfail (DelErr Del_errNotFound)
        | Some d \<Rightarrow> gret (cloneDelivery d))) m)"

text \<open>The zero value of the struct, for the unchecked \<open>m.byID[id]\<close> of \<open>GetByTransactionID\<close>.\<close>

definition zero_delivery :: delivery where
  "zero_delivery = \<lparr>dl_ID = zero_id, dl_TransactionID = zero_id, dl_RequesterUserID = zero_id,
     dl_ProviderUserID = zero_id, dl_Eligibility = [], dl_Status = [], dl_Method = None,
     dl_Note = None, dl_CreatedAt = 0, dl_UpdatedAt = 0, dl_DispatchedAt = None,
     dl_DeliveredAt = None, dl_CancelledAt = None\<rparr>"

definition del_mem_GetByTransactionID :: "ctx \<Rightarrow> ID \<Rightarrow> (delivery_mem, delivery) go" where
  "del_mem_GetByTransactionID c transactionID = (\<lambda>m.
     gguard (ctx_Err c) (gguard (lm_fail m)
       (case map_of (lm_byTxn m) transactionID of
          None \<Rightarrow> gfail (DelErr Del_errNotFound)
        | Some i \<Rightarrow> gret (cloneDelivery
            (case map_of (lm_byID m) i of None \<Rightarrow> zero_delivery | Some d \<Rightarrow> d)))) m)"

definition del_mem_ListForParticipant :: "ctx \<Rightarrow> ID \<Rightarrow> (delivery_mem, delivery list) go" where
  "del_mem_ListForParticipant c userID = (\<lambda>m.
     gguard (ctx_Err c) (gguard (lm_fail m)
       (gret (newest_first dl_CreatedAt dl_ID (map cloneDelivery
         (filter (\<lambda>d. del_Participant d userID) (map snd (lm_byID m))))))) m)"

definition del_mem_Update :: "ctx \<Rightarrow> delivery \<Rightarrow> time \<Rightarrow> (delivery_mem, unit) go" where
  "del_mem_Update c d expectedUpdatedAt = (\<lambda>m.
     gguard (ctx_Err c) (gguard (lm_fail m) (gguard (del_Validate d)
       (case map_of (lm_byID m) (dl_ID d) of
          None \<Rightarrow> gfail (DelErr Del_errNotFound)
        | Some current \<Rightarrow>
            if \<not> time_Equal (dl_UpdatedAt current) expectedUpdatedAt
              then gfail (DelErr Del_errConflict)
            else (\<lambda>m. (m\<lparr>lm_byID := AList.update (dl_ID d) (cloneDelivery d) (lm_byID m)\<rparr>,
                       Inr ()))))) m)"

section \<open>Events\<close>

definition DelEventStatusChanged :: string where
  "DelEventStatusChanged = ''deliveries.delivery.status_changed''"

record del_status_payload =
  dp_DeliveryID :: string
  dp_TransactionID :: string
  dp_RequesterUserID :: string
  dp_ProviderUserID :: string
  dp_ActorUserID :: string
  dp_StatusCode :: string

definition del_status_json :: "del_status_payload \<Rightarrow> json" where
  "del_status_json p = json_object
     [(''delivery_id'', dp_DeliveryID p), (''transaction_id'', dp_TransactionID p),
      (''requester_user_id'', dp_RequesterUserID p), (''provider_user_id'', dp_ProviderUserID p),
      (''actor_user_id'', dp_ActorUserID p), (''status_code'', dp_StatusCode p)]"

definition del_DecodeStatusChanged :: "json option \<Rightarrow> del_status_payload res" where
  "del_DecodeStatusChanged raw =
     (case json_Unmarshal_strings [''delivery_id'', ''transaction_id'', ''requester_user_id'',
          ''provider_user_id'', ''actor_user_id'', ''status_code''] raw of
        None \<Rightarrow> Inl (DelCErr DelC_ErrInvalidEvent)
      | Some acc \<Rightarrow>
          let f = (\<lambda>k. strings_TrimSpace (string_field acc k));
              p = \<lparr>dp_DeliveryID = f ''delivery_id'', dp_TransactionID = f ''transaction_id'',
                   dp_RequesterUserID = f ''requester_user_id'',
                   dp_ProviderUserID = f ''provider_user_id'',
                   dp_ActorUserID = f ''actor_user_id'', dp_StatusCode = f ''status_code''\<rparr>
          in if dp_DeliveryID p = [] \<or> dp_TransactionID p = [] \<or> dp_RequesterUserID p = [] \<or>
                dp_ProviderUserID p = [] \<or> dp_ActorUserID p = [] \<or> dp_StatusCode p = []
             then Inl (DelCErr DelC_ErrInvalidEvent) else Inr p)"

definition del_encodeStatusChanged :: "delivery \<Rightarrow> ID \<Rightarrow> new_event res" where
  "del_encodeStatusChanged d actorUserID =
     (if ID_IsZero (dl_ID d) \<or> ID_IsZero actorUserID then Inl (DelErr Del_errUnavailable)
      else Inr
          \<lparr>ev_EventType = DelEventStatusChanged, ev_EventVersion = 1, ev_AggregateType = ''delivery'',
           ev_AggregateID = ID_String (dl_ID d),
           ev_Payload = Some (del_status_json
             \<lparr>dp_DeliveryID = ID_String (dl_ID d),
              dp_TransactionID = ID_String (dl_TransactionID d),
              dp_RequesterUserID = ID_String (dl_RequesterUserID d),
              dp_ProviderUserID = ID_String (dl_ProviderUserID d),
              dp_ActorUserID = ID_String actorUserID, dp_StatusCode = dl_Status d\<rparr>),
           ev_IdempotencyKey =
             DelEventStatusChanged @ '':'' @ ID_String (dl_ID d) @ '':'' @ dl_Status d,
           ev_CorrelationID = []\<rparr>)"

section \<open>The service\<close>

record 'w delivery_store =
  ls_Create :: "ctx \<Rightarrow> delivery \<Rightarrow> ('w, unit) go"
  ls_Get :: "ctx \<Rightarrow> ID \<Rightarrow> ('w, delivery) go"
  ls_GetByTransactionID :: "ctx \<Rightarrow> ID \<Rightarrow> ('w, delivery) go"
  ls_ListForParticipant :: "ctx \<Rightarrow> ID \<Rightarrow> ('w, delivery list) go"
  ls_Update :: "ctx \<Rightarrow> delivery \<Rightarrow> time \<Rightarrow> ('w, unit) go"

definition delivery_mem_store ::
  "('w \<Rightarrow> delivery_mem) \<Rightarrow> ((delivery_mem \<Rightarrow> delivery_mem) \<Rightarrow> 'w \<Rightarrow> 'w) \<Rightarrow> 'w delivery_store" where
  "delivery_mem_store get upd =
     \<lparr>ls_Create = (\<lambda>c d. zoom get upd (del_mem_Create c d)),
      ls_Get = (\<lambda>c i. zoom get upd (del_mem_Get c i)),
      ls_GetByTransactionID = (\<lambda>c i. zoom get upd (del_mem_GetByTransactionID c i)),
      ls_ListForParticipant = (\<lambda>c u. zoom get upd (del_mem_ListForParticipant c u)),
      ls_Update = (\<lambda>c d v. zoom get upd (del_mem_Update c d v))\<rparr>"

record 'w delivery_service =
  lsv_store :: "'w delivery_store option"
  lsv_txns :: "(ctx \<Rightarrow> ID \<Rightarrow> ('w, TransactionRef) go) option"
  lsv_now :: "'w \<Rightarrow> 'w \<times> time"
  lsv_rand :: "'w \<Rightarrow> 'w \<times> ID option"
  lsv_tx :: "'w transactor option"
  lsv_outbox :: "'w enqueuer option"

record delivery_input =
  di_Eligibility :: string
  di_Method :: "string option"
  di_Note :: "string option"

definition del_mapTxnErr :: "go_error \<Rightarrow> go_error" where
  [err_defs]: "del_mapTxnErr err =
     (if err = TxnCErr TxnC_ErrZeroID then DelErr Del_errZeroID
      else if err = TxnCErr TxnC_ErrNotFound then DelErr Del_errNotFound
      else if ctx_error err then err
      else DelErr Del_errUnavailable)"

definition del_mapStoreErr :: "go_error \<Rightarrow> go_error" where
  [err_defs]: "del_mapStoreErr err =
     (if ctx_error err then err
      else if err = DelErr Del_errNotFound \<or> err = DbErr Db_ErrNoRows then DelErr Del_errNotFound
      else if err = DelErr Del_errConflict \<or> err = DbErr Db_ErrConflict then DelErr Del_errConflict
      else if err = DelErr Del_errUnavailable \<or> err = DbErr Db_ErrUnavailable
        then DelErr Del_errUnavailable
      else if err \<in> DelErr ` {Del_errStoreRequired, Del_errZeroID, Del_errInvalidDelivery,
            Del_errInvalidStatus, Del_errInvalidTransition, Del_errInvalidMethod,
            Del_errInvalidNote, Del_errInvalidEligibility, Del_errForbidden, Del_errNotEligible}
        then err
      else DelErr Del_errUnavailable)"

definition del_svc_get :: "'w delivery_service \<Rightarrow> ctx \<Rightarrow> ID \<Rightarrow> ('w, delivery) go" where
  "del_svc_get s c i =
     gneed (lsv_store s) (DelErr Del_errStoreRequired) (\<lambda>st.
       if ID_IsZero i then gfail (DelErr Del_errZeroID)
       else gmaperr del_mapStoreErr (ls_Get st c i))"

definition del_svc_Get :: "'w delivery_service \<Rightarrow> ctx \<Rightarrow> ID \<Rightarrow> ID \<Rightarrow> ('w, delivery) go" where
  "del_svc_Get s c userID deliveryID =
     gbind (del_svc_get s c deliveryID) (\<lambda>d.
       if \<not> del_Participant d userID then gfail (DelErr Del_errNotFound) else gret d)"

definition del_svc_ListMine :: "'w delivery_service \<Rightarrow> ctx \<Rightarrow> ID \<Rightarrow> ('w, delivery list) go" where
  "del_svc_ListMine s c userID =
     gneed (lsv_store s) (DelErr Del_errStoreRequired) (\<lambda>st.
       if ID_IsZero userID then gfail (DelErr Del_errZeroID)
       else gmaperr del_mapStoreErr (ls_ListForParticipant st c userID))"

definition del_getTransaction :: "'w delivery_service \<Rightarrow> ctx \<Rightarrow> ID \<Rightarrow> ('w, TransactionRef) go" where
  "del_getTransaction s c transactionID =
     gneed (lsv_txns s) (DelErr Del_errUnavailable) (\<lambda>getTxn.
       gmaperr del_mapTxnErr (getTxn c transactionID))"

definition del_refuseIfTransactionCancelled :: "'w delivery_service \<Rightarrow> ctx \<Rightarrow> ID \<Rightarrow> ('w, unit) go" where
  "del_refuseIfTransactionCancelled s c transactionID =
     gbind (del_getTransaction s c transactionID) (\<lambda>ref.
       if tr_Status ref = TxnCancelled then gfail (DelErr Del_errNotEligible) else gret ())"

definition del_enqueueStatus :: "'w delivery_service \<Rightarrow> ctx \<Rightarrow> delivery \<Rightarrow> ID \<Rightarrow> ('w, unit) go" where
  "del_enqueueStatus s c d actorUserID =
     enqueue_event del_mapStoreErr (lsv_outbox s) c (del_encodeStatusChanged d actorUserID)"

definition del_runMaybeTx :: "'w delivery_service \<Rightarrow> ctx \<Rightarrow> (ctx \<Rightarrow> ('w, 'a) go) \<Rightarrow> ('w, 'a) go" where
  "del_runMaybeTx s = run_maybe_tx del_mapStoreErr (lsv_outbox s) (lsv_tx s)"

definition del_create_of :: "TransactionRef \<Rightarrow> delivery_input \<Rightarrow> delivery_create" where
  "del_create_of ref inp =
     \<lparr>dc_TransactionID = tr_ID ref, dc_RequesterUserID = tr_RequesterUserID ref,
      dc_ProviderUserID = tr_ProviderUserID ref, dc_Eligibility = di_Eligibility inp,
      dc_Method = di_Method inp, dc_Note = di_Note inp\<rparr>"

definition del_svc_CreateForTransaction ::
  "'w delivery_service \<Rightarrow> ctx \<Rightarrow> ID \<Rightarrow> ID \<Rightarrow> delivery_input \<Rightarrow> ('w, delivery) go" where
  "del_svc_CreateForTransaction s c actorUserID transactionID inp =
     gneed (lsv_store s) (DelErr Del_errStoreRequired) (\<lambda>st.
     if ID_IsZero actorUserID \<or> ID_IsZero transactionID then gfail (DelErr Del_errZeroID)
     else gbind (del_getTransaction s c transactionID) (\<lambda>ref.
     if \<not> tr_Participant ref actorUserID then gfail (DelErr Del_errNotFound)
     else gcase (ls_GetByTransactionID st c transactionID)
       (\<lambda>err.
         if err \<noteq> DelErr Del_errNotFound then gfail (del_mapStoreErr err)
         else if \<not> tr_MayCreateDelivery ref then gfail (DelErr Del_errNotEligible)
         else gread (lsv_now s) (\<lambda>now. gread (lsv_rand s) (\<lambda>entropy.
           gbind (gpure (del_CreatePending (del_create_of ref inp) (time_UTC now) entropy)) (\<lambda>created.
           gcase (del_runMaybeTx s c (\<lambda>c.
               gcase (ls_Create st c created) (\<lambda>e. gfail (del_mapStoreErr e)) (\<lambda>_.
               del_enqueueStatus s c created actorUserID)))
             (\<lambda>err.
               if err = DelErr Del_errConflict then
                 gcase (ls_GetByTransactionID st c transactionID)
                   (\<lambda>_. gfail (DelErr Del_errConflict)) gret
               else gfail err)
             (\<lambda>_. gret created)))))
       gret))"

definition del_authorizeParticipant :: "'w delivery_service \<Rightarrow> ctx \<Rightarrow> ID \<Rightarrow> ID \<Rightarrow> ('w, delivery) go" where
  "del_authorizeParticipant s c actorUserID deliveryID =
     gbind (del_svc_get s c deliveryID) (\<lambda>current.
       if \<not> del_Participant current actorUserID then gfail (DelErr Del_errNotFound)
       else gret current)"

definition del_apply ::
  "'w delivery_service \<Rightarrow> ctx \<Rightarrow> delivery \<Rightarrow> ID \<Rightarrow> (delivery \<Rightarrow> time \<Rightarrow> (delivery \<times> bool) res) \<Rightarrow> bool \<Rightarrow>
   ('w, delivery) go" where
  "del_apply s c current actorUserID fn refuseCancelledTxn =
     gread (lsv_now s) (\<lambda>now.
     gbind (gpure (fn current (time_UTC now))) (\<lambda>(nxt, changed).
     if \<not> changed then gret current
     else gbind (if refuseCancelledTxn
                   then del_refuseIfTransactionCancelled s c (dl_TransactionID current)
                   else gret ()) (\<lambda>_.
       gneed (lsv_store s) (DelErr Del_errStoreRequired) (\<lambda>st.
       gcase (del_runMaybeTx s c (\<lambda>c.
           gcase (ls_Update st c nxt (dl_UpdatedAt current)) (\<lambda>e. gfail (del_mapStoreErr e)) (\<lambda>_.
           del_enqueueStatus s c nxt actorUserID)))
         (\<lambda>err.
           if err \<noteq> DelErr Del_errConflict then gfail err
           else gbind (del_svc_get s c (dl_ID current)) (\<lambda>latest.
             gread (lsv_now s) (\<lambda>now.
             gbind (gpure (fn latest (time_UTC now))) (\<lambda>(_, againChanged).
             if \<not> againChanged then gret latest else gfail (DelErr Del_errConflict)))))
         (\<lambda>_. gret nxt)))))"

definition del_applyProvider ::
  "'w delivery_service \<Rightarrow> ctx \<Rightarrow> ID \<Rightarrow> ID \<Rightarrow> (delivery \<Rightarrow> time \<Rightarrow> (delivery \<times> bool) res) \<Rightarrow>
   ('w, delivery) go" where
  "del_applyProvider s c actorUserID deliveryID fn =
     gbind (del_authorizeParticipant s c actorUserID deliveryID) (\<lambda>current.
       if \<not> del_Provider current actorUserID then gfail (DelErr Del_errNotFound)
       else del_apply s c current actorUserID fn True)"

definition del_applyParticipant ::
  "'w delivery_service \<Rightarrow> ctx \<Rightarrow> ID \<Rightarrow> ID \<Rightarrow> (delivery \<Rightarrow> time \<Rightarrow> (delivery \<times> bool) res) \<Rightarrow>
   ('w, delivery) go" where
  "del_applyParticipant s c actorUserID deliveryID fn =
     gbind (del_authorizeParticipant s c actorUserID deliveryID) (\<lambda>current.
       del_apply s c current actorUserID fn False)"

definition del_svc_MarkReady :: "'w delivery_service \<Rightarrow> ctx \<Rightarrow> ID \<Rightarrow> ID \<Rightarrow> ('w, delivery) go" where
  "del_svc_MarkReady s c actorUserID deliveryID =
     del_applyProvider s c actorUserID deliveryID del_MarkReady"

definition del_svc_MarkInTransit :: "'w delivery_service \<Rightarrow> ctx \<Rightarrow> ID \<Rightarrow> ID \<Rightarrow> ('w, delivery) go" where
  "del_svc_MarkInTransit s c actorUserID deliveryID =
     del_applyProvider s c actorUserID deliveryID del_MarkInTransit"

definition del_svc_MarkDelivered :: "'w delivery_service \<Rightarrow> ctx \<Rightarrow> ID \<Rightarrow> ID \<Rightarrow> ('w, delivery) go" where
  "del_svc_MarkDelivered s c actorUserID deliveryID =
     del_applyProvider s c actorUserID deliveryID del_MarkDelivered"

definition del_svc_Cancel :: "'w delivery_service \<Rightarrow> ctx \<Rightarrow> ID \<Rightarrow> ID \<Rightarrow> ('w, delivery) go" where
  "del_svc_Cancel s c actorUserID deliveryID =
     del_applyParticipant s c actorUserID deliveryID del_Cancel"

section \<open>The read surface for other packages\<close>

record DeliveryRef =
  dr_ID :: ID
  dr_TransactionID :: ID
  dr_Eligibility :: string
  dr_Status :: string
  dr_Method :: "string option"

definition toDeliveryRef :: "delivery \<Rightarrow> DeliveryRef" where
  "toDeliveryRef d =
     \<lparr>dr_ID = dl_ID d, dr_TransactionID = dl_TransactionID d, dr_Eligibility = dl_Eligibility d,
      dr_Status = dl_Status d, dr_Method = dl_Method d\<rparr>"

definition mapDeliveryLookupErr :: "go_error \<Rightarrow> go_error" where
  [err_defs]: "mapDeliveryLookupErr err =
     (if err = DelErr Del_errZeroID then DelCErr DelC_ErrZeroID
      else if err = DelErr Del_errNotFound then DelCErr DelC_ErrNotFound
      else if ctx_error err then err
      else DelCErr DelC_ErrUnavailable)"

definition del_GetDelivery :: "'w delivery_service \<Rightarrow> ctx \<Rightarrow> ID \<Rightarrow> ('w, DeliveryRef) go" where
  "del_GetDelivery s c deliveryID =
     gcase (del_svc_get s c deliveryID) (\<lambda>err. gfail (mapDeliveryLookupErr err))
       (\<lambda>d. gret (toDeliveryRef d))"

definition del_GetDeliveryByTransaction :: "'w delivery_service \<Rightarrow> ctx \<Rightarrow> ID \<Rightarrow> ('w, DeliveryRef) go" where
  "del_GetDeliveryByTransaction s c transactionID =
     gneed (lsv_store s) (DelCErr DelC_ErrUnavailable) (\<lambda>st.
     if ID_IsZero transactionID then gfail (DelCErr DelC_ErrZeroID)
     else gcase (ls_GetByTransactionID st c transactionID)
       (\<lambda>err. gfail (mapDeliveryLookupErr (del_mapStoreErr err)))
       (\<lambda>d. gret (toDeliveryRef d)))"

section \<open>Domain operations\<close>

text \<open>The parts of \<open>Validate\<close> that no operation touches, and the whole of it.\<close>

definition del_base_valid :: "delivery \<Rightarrow> bool" where
  "del_base_valid d \<longleftrightarrow>
     \<not> ID_IsZero (dl_ID d) \<and> \<not> ID_IsZero (dl_TransactionID d) \<and> \<not> ID_IsZero (dl_RequesterUserID d) \<and>
     \<not> ID_IsZero (dl_ProviderUserID d) \<and> dl_RequesterUserID d \<noteq> dl_ProviderUserID d \<and>
     dl_Eligibility d = EligibilityRequired \<and>
     (\<forall>m. dl_Method d = Some m \<longrightarrow> del_method_valid m) \<and>
     (\<forall>n. dl_Note d = Some n \<longrightarrow> (\<exists>v. del_normalizeNote n = Inr v)) \<and> dl_CreatedAt d \<noteq> 0"

lemma del_Validate_split:
  "del_Validate d = None \<longleftrightarrow>
     del_base_valid d \<and> del_status_valid (dl_Status d) \<and> dl_CreatedAt d \<le> dl_UpdatedAt d \<and>
     del_validateStamps d = None"
  by (auto simp: del_Validate_def del_base_valid_def split: sum.splits option.splits if_splits)

lemma del_stamps_None:
  "del_validateStamps d = None \<longleftrightarrow>
     (dl_Status d = DelPending \<or> dl_Status d = DelReady \<longrightarrow>
        dl_DispatchedAt d = None \<and> dl_DeliveredAt d = None \<and> dl_CancelledAt d = None) \<and>
     (dl_Status d = DelInTransit \<longrightarrow>
        (\<exists>x. dl_DispatchedAt d = Some x \<and> dl_CreatedAt d \<le> x) \<and> dl_DeliveredAt d = None \<and>
        dl_CancelledAt d = None \<and> \<not> del_skipsInTransit d) \<and>
     (dl_Status d = DelDelivered \<longrightarrow>
        dl_CancelledAt d = None \<and> (\<exists>x. dl_DeliveredAt d = Some x \<and> dl_CreatedAt d \<le> x \<and>
          (if del_skipsInTransit d then dl_DispatchedAt d = None
           else (\<exists>y. dl_DispatchedAt d = Some y \<and> y \<le> x)))) \<and>
     (dl_Status d = DelCancelled \<longrightarrow>
        (\<exists>x. dl_CancelledAt d = Some x \<and> dl_CreatedAt d \<le> x) \<and> dl_DeliveredAt d = None)"
  by (auto simp: del_validateStamps_def split: option.splits if_splits)

lemma del_upd_simps [simp]:
  "del_base_valid (d\<lparr>dl_Status := s\<rparr>) = del_base_valid d"
  "del_base_valid (d\<lparr>dl_UpdatedAt := u\<rparr>) = del_base_valid d"
  "del_base_valid (d\<lparr>dl_DispatchedAt := x\<rparr>) = del_base_valid d"
  "del_base_valid (d\<lparr>dl_DeliveredAt := x\<rparr>) = del_base_valid d"
  "del_base_valid (d\<lparr>dl_CancelledAt := x\<rparr>) = del_base_valid d"
  "del_skipsInTransit (d\<lparr>dl_Status := s\<rparr>) = del_skipsInTransit d"
  "del_skipsInTransit (d\<lparr>dl_UpdatedAt := u\<rparr>) = del_skipsInTransit d"
  "del_skipsInTransit (d\<lparr>dl_DispatchedAt := x\<rparr>) = del_skipsInTransit d"
  "del_skipsInTransit (d\<lparr>dl_DeliveredAt := x\<rparr>) = del_skipsInTransit d"
  "del_skipsInTransit (d\<lparr>dl_CancelledAt := x\<rparr>) = del_skipsInTransit d"
  by (simp_all add: del_base_valid_def del_skipsInTransit_def)

lemmas del_op_defs = del_MarkReady_def del_MarkInTransit_def del_MarkDelivered_def del_Cancel_def

lemma del_ops_valid:
  assumes v: "del_Validate d = None" and t: "dl_CreatedAt d \<le> now"
    and disp: "\<And>x. dl_DispatchedAt d = Some x \<Longrightarrow> x \<le> now"
  shows "del_MarkReady d now =
      (if dl_Status d = DelReady then Inr (d, False)
       else if dl_Status d = DelPending
         then Inr (d\<lparr>dl_Status := DelReady, dl_UpdatedAt := now\<rparr>, True)
       else Inl (DelErr Del_errInvalidTransition))" (is ?R)
    and "del_MarkInTransit d now =
      (if dl_Status d = DelInTransit then Inr (d, False)
       else if dl_Status d = DelReady \<and> \<not> del_skipsInTransit d
         then Inr (d\<lparr>dl_Status := DelInTransit, dl_UpdatedAt := now, dl_DispatchedAt := Some now\<rparr>, True)
       else Inl (DelErr Del_errInvalidTransition))" (is ?I)
    and "del_MarkDelivered d now =
      (if dl_Status d = DelDelivered then Inr (d, False)
       else if dl_Status d = (if del_skipsInTransit d then DelReady else DelInTransit)
         then Inr (d\<lparr>dl_Status := DelDelivered, dl_UpdatedAt := now, dl_DeliveredAt := Some now\<rparr>, True)
       else Inl (DelErr Del_errInvalidTransition))" (is ?D)
    and "del_Cancel d now =
      (if dl_Status d = DelCancelled then Inr (d, False)
       else if dl_Status d \<noteq> DelDelivered
         then Inr (d\<lparr>dl_Status := DelCancelled, dl_UpdatedAt := now, dl_CancelledAt := Some now\<rparr>, True)
       else Inl (DelErr Del_errInvalidTransition))" (is ?C)
proof -
  note v' = v [unfolded del_Validate_split del_stamps_None]
  have 1: "dl_Status d = DelPending \<Longrightarrow> del_Validate (d\<lparr>dl_Status := DelReady, dl_UpdatedAt := now\<rparr>) = None"
    using v' t by (simp add: del_Validate_split del_stamps_None del_status_valid_def)
  show ?R using 1 by (simp add: del_MarkReady_def del_withStatus_def)
  have 2: "dl_Status d = DelReady \<Longrightarrow> \<not> del_skipsInTransit d \<Longrightarrow> del_Validate
      (d\<lparr>dl_Status := DelInTransit, dl_UpdatedAt := now, dl_DispatchedAt := Some now\<rparr>) = None"
    using v' t by (simp add: del_Validate_split del_stamps_None del_status_valid_def)
  show ?I using 2 by (simp add: del_MarkInTransit_def del_withStatus_def Let_def)
  have 3: "dl_Status d = (if del_skipsInTransit d then DelReady else DelInTransit) \<Longrightarrow> del_Validate
      (d\<lparr>dl_Status := DelDelivered, dl_UpdatedAt := now, dl_DeliveredAt := Some now\<rparr>) = None"
    using v' t disp by (auto simp: del_Validate_split del_stamps_None del_status_valid_def split: if_splits)
  show ?D using 3 by (auto simp: del_MarkDelivered_def del_withStatus_def Let_def split: if_splits)
  have 4: "dl_Status d \<noteq> DelDelivered \<Longrightarrow> dl_Status d \<noteq> DelCancelled \<Longrightarrow> del_Validate
      (d\<lparr>dl_Status := DelCancelled, dl_UpdatedAt := now, dl_CancelledAt := Some now\<rparr>) = None"
    using v' t by (auto simp: del_Validate_split del_stamps_None del_status_valid_def)
  have "dl_Status d \<noteq> DelDelivered \<Longrightarrow> dl_Status d \<noteq> DelCancelled \<Longrightarrow>
      dl_Status d = DelPending \<or> dl_Status d = DelReady \<or> dl_Status d = DelInTransit"
    using v' by (auto simp: del_status_valid_def)
  then show ?C using 4 by (auto simp: del_Cancel_def del_withStatus_def Let_def)
qed

text \<open>What the service may store over a delivery, and how far the delivery has come.\<close>

definition del_opr :: "time \<Rightarrow> delivery \<Rightarrow> delivery \<Rightarrow> bool" where
  "del_opr now d n \<longleftrightarrow>
     del_MarkReady d now = Inr (n, True) \<or> del_MarkInTransit d now = Inr (n, True) \<or>
     del_MarkDelivered d now = Inr (n, True) \<or> del_Cancel d now = Inr (n, True)"

definition del_rank :: "string \<Rightarrow> nat" where
  "del_rank s =
     (if s = DelPending then 0 else if s = DelReady then 1 else if s = DelInTransit then 2
      else if s = DelDelivered then 3 else 4)"

definition del_frame :: "delivery \<Rightarrow> delivery \<Rightarrow> bool" where
  "del_frame d n \<longleftrightarrow>
     dl_TransactionID n = dl_TransactionID d \<and> dl_RequesterUserID n = dl_RequesterUserID d \<and>
     dl_ProviderUserID n = dl_ProviderUserID d \<and> dl_Method n = dl_Method d \<and> dl_Note n = dl_Note d \<and>
     dl_CreatedAt n = dl_CreatedAt d"

lemma del_frame_refl [simp]: "del_frame d d"
  by (simp add: del_frame_def)

lemma del_frame_trans: "del_frame d n \<Longrightarrow> del_frame n p \<Longrightarrow> del_frame d p"
  by (simp add: del_frame_def)

lemma del_changed:
  shows "del_MarkReady d now = Inr (n, True) \<Longrightarrow> dl_Status d = DelPending \<and> del_Validate n = None \<and>
      n = d\<lparr>dl_Status := DelReady, dl_UpdatedAt := now\<rparr>"
    and "del_MarkInTransit d now = Inr (n, True) \<Longrightarrow> dl_Status d = DelReady \<and> del_Validate n = None \<and>
      n = d\<lparr>dl_Status := DelInTransit, dl_UpdatedAt := now, dl_DispatchedAt := Some now\<rparr>"
    and "del_MarkDelivered d now = Inr (n, True) \<Longrightarrow>
      (dl_Status d = DelReady \<or> dl_Status d = DelInTransit) \<and> del_Validate n = None \<and>
      n = d\<lparr>dl_Status := DelDelivered, dl_UpdatedAt := now, dl_DeliveredAt := Some now\<rparr>"
    and "del_Cancel d now = Inr (n, True) \<Longrightarrow>
      (dl_Status d = DelPending \<or> dl_Status d = DelReady \<or> dl_Status d = DelInTransit) \<and>
      del_Validate n = None \<and>
      n = d\<lparr>dl_Status := DelCancelled, dl_UpdatedAt := now, dl_CancelledAt := Some now\<rparr>"
  by (simp_all add: del_op_defs del_withStatus_def Let_def split: if_splits option.splits) blast+

lemma del_oprD:
  assumes "del_opr now d n"
  shows "dl_ID n = dl_ID d" "dl_UpdatedAt n = now" "del_frame d n" "del_Validate n = None"
    "\<not> del_status_Terminal (dl_Status d)" "del_rank (dl_Status d) < del_rank (dl_Status n)"
proof -
  have st: "del_Validate n = None \<and> \<not> del_status_Terminal (dl_Status d) \<and>
      del_rank (dl_Status d) < del_rank (dl_Status n) \<and>
      dl_ID n = dl_ID d \<and> dl_UpdatedAt n = now \<and> del_frame d n"
    using assms unfolding del_opr_def
    by (auto dest!: del_changed simp: del_status_Terminal_def del_rank_def del_frame_def)
  then show "dl_ID n = dl_ID d" "dl_UpdatedAt n = now" "del_frame d n" "del_Validate n = None"
    "\<not> del_status_Terminal (dl_Status d)" "del_rank (dl_Status d) < del_rank (dl_Status n)"
    by blast+
qed

section \<open>The store keeps the contract\<close>

abbreviation del_table :: "delivery_mem \<Rightarrow> ID \<Rightarrow> delivery option" where
  "del_table m \<equiv> map_of (lm_byID m)"

text \<open>The index by Transaction names exactly the stored deliveries.\<close>

definition del_mem_inv :: "delivery_mem \<Rightarrow> bool" where
  "del_mem_inv m \<longleftrightarrow> wf_map (lm_byID m) \<and> wf_map (lm_byTxn m) \<and>
     (\<forall>k d. del_table m k = Some d \<longrightarrow> dl_ID d = k \<and> del_Validate d = None \<and>
        map_of (lm_byTxn m) (dl_TransactionID d) = Some k) \<and>
     (\<forall>f i. map_of (lm_byTxn m) f = Some i \<longrightarrow>
        (\<exists>d. del_table m i = Some d \<and> dl_TransactionID d = f))"

lemma del_mem_inv_new [simp]: "del_mem_inv del_NewMemoryStore"
  by (simp add: del_mem_inv_def del_NewMemoryStore_def)

lemma del_mem_invD:
  assumes "del_mem_inv m"
  shows "wf_map (lm_byID m)" "wf_map (lm_byTxn m)"
    and "del_table m k = Some d \<Longrightarrow> dl_ID d = k"
    and "del_table m k = Some d \<Longrightarrow> del_Validate d = None"
    and "del_table m k = Some d \<Longrightarrow> map_of (lm_byTxn m) (dl_TransactionID d) = Some k"
    and "map_of (lm_byTxn m) f = Some i \<Longrightarrow> \<exists>d. del_table m i = Some d \<and> dl_TransactionID d = f"
  using assms by (auto simp: del_mem_inv_def)

lemma del_mem_Create_ok:
  "del_mem_Create c d m = (m', Inr u) \<longleftrightarrow>
     ctx_Err c = None \<and> lm_fail m = None \<and> del_Validate d = None \<and>
     del_table m (dl_ID d) = None \<and> map_of (lm_byTxn m) (dl_TransactionID d) = None \<and>
     m' = m\<lparr>lm_byID := AList.update (dl_ID d) d (lm_byID m),
            lm_byTxn := AList.update (dl_TransactionID d) (dl_ID d) (lm_byTxn m)\<rparr>"
  by (auto simp: del_mem_Create_def gguard_def split: option.splits)

lemma del_mem_Create_err: "del_mem_Create c d m = (m', Inl e) \<Longrightarrow> m' = m"
  by (auto simp: del_mem_Create_def gguard_def split: option.splits if_splits)

lemma del_mem_Create_inv:
  assumes inv: "del_mem_inv m" and cr: "del_mem_Create c d m = (m', Inr u)"
  shows "del_mem_inv m'"
proof -
  note ok = cr [unfolded del_mem_Create_ok]
  have new: "map_of (lm_byTxn m) f \<noteq> Some (dl_ID d)" for f
    using del_mem_invD(6) [OF inv, of f "dl_ID d"] ok by auto
  have old: "dl_TransactionID p \<noteq> dl_TransactionID d" if "del_table m k = Some p" for k p
    using del_mem_invD(5) [OF inv that] ok by auto
  show ?thesis
    unfolding del_mem_inv_def using ok del_mem_invD [OF inv] new old by auto
qed

lemma del_mem_Get_eq:
  "del_mem_Get c i m =
     (m, case ctx_Err c of Some e \<Rightarrow> Inl e | None \<Rightarrow>
         case lm_fail m of Some e \<Rightarrow> Inl e | None \<Rightarrow>
         case del_table m i of None \<Rightarrow> Inl (DelErr Del_errNotFound) | Some d \<Rightarrow> Inr d)"
  by (simp add: del_mem_Get_def gguard_def split: option.split)

lemma del_mem_Update_ok:
  "del_mem_Update c d v m = (m', Inr u) \<longleftrightarrow>
     ctx_Err c = None \<and> lm_fail m = None \<and> del_Validate d = None \<and>
     (\<exists>cur. del_table m (dl_ID d) = Some cur \<and> dl_UpdatedAt cur = v) \<and>
     m' = m\<lparr>lm_byID := AList.update (dl_ID d) d (lm_byID m)\<rparr>"
  by (auto simp: del_mem_Update_def gguard_def split: option.splits)

lemma del_mem_Update_err: "del_mem_Update c d v m = (m', Inl e) \<Longrightarrow> m' = m"
  by (auto simp: del_mem_Update_def gguard_def split: option.splits if_splits)

lemma del_mem_Update_inv:
  assumes inv: "del_mem_inv m" and up: "del_mem_Update c n v m = (m', Inr u)"
    and cur: "del_table m (dl_ID n) = Some d" and fr: "del_frame d n"
  shows "del_mem_inv m'"
proof -
  have "m' = m\<lparr>lm_byID := AList.update (dl_ID n) n (lm_byID m)\<rparr>" "del_Validate n = None"
    using up by (simp_all add: del_mem_Update_ok)
  then show ?thesis
    using del_mem_invD [OF inv] del_mem_invD(5) [OF inv cur] cur fr
    by (auto simp: del_mem_inv_def del_frame_def) (metis option.inject)
qed

text \<open>With the invariant, \<open>GetByTransactionID\<close> finds the delivery of the Transaction.\<close>

lemma del_mem_GetByTransactionID_cases:
  assumes inv: "del_mem_inv m" and "ctx_Err c = None" and "lm_fail m = None"
  obtains (found) d where "del_mem_GetByTransactionID c f m = (m, Inr d)"
      "del_table m (dl_ID d) = Some d" "dl_TransactionID d = f"
    | (missing) "del_mem_GetByTransactionID c f m = (m, Inl (DelErr Del_errNotFound))"
      "\<And>k d. del_table m k = Some d \<Longrightarrow> dl_TransactionID d \<noteq> f"
proof (cases "map_of (lm_byTxn m) f")
  case None
  then have "del_mem_GetByTransactionID c f m = (m, Inl (DelErr Del_errNotFound))"
    using assms by (simp add: del_mem_GetByTransactionID_def)
  moreover have "dl_TransactionID d \<noteq> f" if "del_table m k = Some d" for k d
    using del_mem_invD(5) [OF inv that] None by auto
  ultimately show ?thesis by (rule missing)
next
  case (Some i)
  then obtain d where d: "del_table m i = Some d" "dl_TransactionID d = f"
    using del_mem_invD(6) [OF inv] by blast
  then have "del_mem_GetByTransactionID c f m = (m, Inr d)"
    using Some assms by (simp add: del_mem_GetByTransactionID_def)
  moreover have "del_table m (dl_ID d) = Some d" using del_mem_invD(3) [OF inv d(1)] d(1) by simp
  ultimately show ?thesis using d(2) by (rule found)
qed

interpretation del_mem: occ_store dl_ID dl_UpdatedAt del_Validate del_frame del_table
  del_mem_inv "del_mem_Create c" "del_mem_Get c" "del_mem_Update c" for c
proof (unfold_locales, goal_cases)
  case (1 s k s' e)
  then show ?case by (auto simp: del_mem_Get_eq split: option.splits)
next
  case (2 s k s' x)
  then show ?case by (simp add: del_mem_Get_eq)
next
  case (3 s e s' u)
  then show ?case using del_mem_Create_inv [of s c e s' u] by (simp add: del_mem_Create_ok)
next
  case (4 s e s' x)
  then show ?case using del_mem_Create_err by blast
next
  case (5 s e v s' u)
  then show ?case by (auto simp: del_mem_Update_ok)
next
  case (6 s e v s' u cur)
  then show ?case using del_mem_Update_inv by blast
next
  case (7 s e v s' x)
  then show ?case using del_mem_Update_err by blast
qed (auto simp: del_mem_invD)

abbreviation del_step :: "ctx \<Rightarrow> (delivery_mem, delivery) conc \<Rightarrow> (delivery_mem, delivery) conc \<Rightarrow> bool" where
  "del_step c \<equiv> occ_step (del_mem_Create c) (del_mem_Get c) (del_mem_Update c) dl_UpdatedAt del_opr"

text \<open>Moving forward: the same delivery, further along. Its events then have different keys.\<close>

definition del_forward :: "delivery \<Rightarrow> delivery \<Rightarrow> bool" where
  "del_forward x y \<longleftrightarrow>
     dl_ID y = dl_ID x \<and> del_frame x y \<and> (y = x \<or> del_rank (dl_Status x) < del_rank (dl_Status y))"

lemma del_forward_refl [simp]: "del_forward d d"
  by (simp add: del_forward_def)

lemma del_forward_trans: "del_forward x y \<Longrightarrow> del_forward y z \<Longrightarrow> del_forward x z"
  by (auto simp: del_forward_def intro: del_frame_trans)

lemma del_opr_forward: "del_opr now x y \<Longrightarrow> del_forward x y"
  by (auto simp: del_forward_def dest: del_oprD)

lemma del_forwardD:
  assumes "del_forward x y"
  shows "del_frame x y" "del_rank (dl_Status x) \<le> del_rank (dl_Status y)"
    "\<forall>a b ev ev'. del_encodeStatusChanged x a = Inr ev \<longrightarrow> del_encodeStatusChanged y b = Inr ev' \<longrightarrow>
       ev_IdempotencyKey ev = ev_IdempotencyKey ev' \<longrightarrow> y = x"
  using assms by (auto simp: del_forward_def del_encodeStatusChanged_def split: if_splits)

section \<open>Samples\<close>

definition sample_delivery :: "string option \<Rightarrow> string \<Rightarrow> delivery" where
  "sample_delivery method s =
     \<lparr>dl_ID = id_n 60, dl_TransactionID = id_n 50, dl_RequesterUserID = id_n 2,
      dl_ProviderUserID = id_n 3, dl_Eligibility = EligibilityRequired, dl_Status = s,
      dl_Method = method, dl_Note = None, dl_CreatedAt = 40, dl_UpdatedAt = 40,
      dl_DispatchedAt = (if s = DelInTransit then Some 40 else None), dl_DeliveredAt = None,
      dl_CancelledAt = None\<rparr>"

lemma sample_delivery_fields [simp]:
  "dl_ID (sample_delivery me s) = id_n 60" "dl_Status (sample_delivery me s) = s"
  "dl_CreatedAt (sample_delivery me s) = 40" "dl_UpdatedAt (sample_delivery me s) = 40"
  "dl_TransactionID (sample_delivery me s) = id_n 50" "dl_Method (sample_delivery me s) = me"
  "dl_DispatchedAt (sample_delivery me s) = (if s = DelInTransit then Some 40 else None)"
  by (simp_all add: sample_delivery_def)

lemma sample_delivery_valid [simp]:
  "del_Validate (sample_delivery None DelPending) = None"
  "del_Validate (sample_delivery (Some MethodPickup) DelReady) = None"
  "del_Validate (sample_delivery None DelInTransit) = None"
  by (simp_all add: del_Validate_split del_stamps_None del_base_valid_def del_status_valid_def
      sample_delivery_def del_skipsInTransit_def del_method_valid_def)

definition sample_delivery_mem :: delivery_mem where
  "sample_delivery_mem =
     \<lparr>lm_byID = [(id_n 60, sample_delivery None DelPending)], lm_byTxn = [(id_n 50, id_n 60)],
      lm_fail = None\<rparr>"

lemma sample_delivery_mem_inv [simp]: "del_mem_inv sample_delivery_mem"
  by (simp add: del_mem_inv_def sample_delivery_mem_def wf_map_def)

section \<open>Properties\<close>

text \<open>The life cycle, on every branch. On a valid delivery and a time not before its creation and
  its dispatch: \<open>MarkReady\<close> takes pending to ready; \<open>MarkInTransit\<close> takes ready to in transit, and
  is refused for a hand-over or a pickup; \<open>MarkDelivered\<close> takes a hand-over or pickup from ready, and
  everything else only from in transit; \<open>Cancel\<close> takes whatever is not delivered. Each stamps its time,
  repeating it is reported as no change, and every other call is refused.\<close>

theorem delivery_life_cycle:
  assumes "del_Validate d = None" and "dl_CreatedAt d \<le> now"
    and "\<And>x. dl_DispatchedAt d = Some x \<Longrightarrow> x \<le> now"
  shows "del_MarkReady d now =
      (if dl_Status d = DelReady then Inr (d, False)
       else if dl_Status d = DelPending
         then Inr (d\<lparr>dl_Status := DelReady, dl_UpdatedAt := now\<rparr>, True)
       else Inl (DelErr Del_errInvalidTransition)) \<and>
    del_MarkInTransit d now =
      (if dl_Status d = DelInTransit then Inr (d, False)
       else if dl_Status d = DelReady \<and> \<not> del_skipsInTransit d
         then Inr (d\<lparr>dl_Status := DelInTransit, dl_UpdatedAt := now, dl_DispatchedAt := Some now\<rparr>, True)
       else Inl (DelErr Del_errInvalidTransition)) \<and>
    del_MarkDelivered d now =
      (if dl_Status d = DelDelivered then Inr (d, False)
       else if dl_Status d = (if del_skipsInTransit d then DelReady else DelInTransit)
         then Inr (d\<lparr>dl_Status := DelDelivered, dl_UpdatedAt := now, dl_DeliveredAt := Some now\<rparr>, True)
       else Inl (DelErr Del_errInvalidTransition)) \<and>
    del_Cancel d now =
      (if dl_Status d = DelCancelled then Inr (d, False)
       else if dl_Status d \<noteq> DelDelivered
         then Inr (d\<lparr>dl_Status := DelCancelled, dl_UpdatedAt := now, dl_CancelledAt := Some now\<rparr>, True)
       else Inl (DelErr Del_errInvalidTransition))"
  using del_ops_valid [OF assms] by blast

theorem delivery_life_cycle_witness:
  "del_MarkInTransit (sample_delivery (Some MethodPickup) DelReady) 41 =
     Inl (DelErr Del_errInvalidTransition) \<and>
   del_MarkDelivered (sample_delivery None DelInTransit) 41 =
     Inr (sample_delivery None DelInTransit\<lparr>dl_Status := DelDelivered, dl_UpdatedAt := 41,
       dl_DeliveredAt := Some 41\<rparr>, True)"
proof -
  have "del_skipsInTransit (sample_delivery (Some MethodPickup) DelReady)"
    "\<not> del_skipsInTransit (sample_delivery None DelInTransit)"
    by (simp_all add: del_skipsInTransit_def del_method_skipsInTransit_def)
  then show ?thesis
    using delivery_life_cycle [of "sample_delivery (Some MethodPickup) DelReady" 41]
      delivery_life_cycle [of "sample_delivery None DelInTransit" 41] by simp
qed



end
