(* ===== verification/Pg_Deliveries.thy ===== *)
theory Pg_Deliveries
  imports Deliveries Pg
begin

text \<open>
  The Postgres store of the package \<open>deliveries\<close> (\<open>postgres.go\<close>) on the table of migration
  \<open>000048_deliveries_core\<close>, and that it does what the in-memory store does.
\<close>

section \<open>The table\<close>

definition del_row :: "pg_codec \<Rightarrow> delivery \<Rightarrow> delivery" where
  "del_row cd d = d\<lparr>dl_CreatedAt := pc_time cd (dl_CreatedAt d), dl_UpdatedAt := pc_time cd (dl_UpdatedAt d),
     dl_DispatchedAt := map_option (pc_time cd) (dl_DispatchedAt d),
     dl_DeliveredAt := map_option (pc_time cd) (dl_DeliveredAt d),
     dl_CancelledAt := map_option (pc_time cd) (dl_CancelledAt d)\<rparr>"

text \<open>The constraint \<open>status_timestamps_check\<close>, one alternative per status.\<close>

definition del_stamps_check :: "delivery \<Rightarrow> bool" where
  "del_stamps_check d \<longleftrightarrow>
     (let courier = (case dl_Method d of None \<Rightarrow> True | Some me \<Rightarrow> me = MethodCourier);
          later = (\<lambda>x y. case x of None \<Rightarrow> False | Some t \<Rightarrow> y \<le> t) in
      (dl_Status d = DelPending \<or> dl_Status d = DelReady) \<and>
        dl_DispatchedAt d = None \<and> dl_DeliveredAt d = None \<and> dl_CancelledAt d = None \<or>
      dl_Status d = DelInTransit \<and> later (dl_DispatchedAt d) (dl_CreatedAt d) \<and>
        dl_DeliveredAt d = None \<and> dl_CancelledAt d = None \<and> courier \<or>
      dl_Status d = DelDelivered \<and> later (dl_DeliveredAt d) (dl_CreatedAt d) \<and> dl_CancelledAt d = None \<and>
        (courier \<and> (case dl_DispatchedAt d of None \<Rightarrow> False | Some x \<Rightarrow> later (dl_DeliveredAt d) x) \<or>
         dl_Method d \<in> {Some MethodHandoff, Some MethodPickup} \<and> dl_DispatchedAt d = None) \<or>
      dl_Status d = DelCancelled \<and> later (dl_CancelledAt d) (dl_CreatedAt d) \<and> dl_DeliveredAt d = None)"

definition del_check :: "delivery \<Rightarrow> bool" where
  "del_check d \<longleftrightarrow>
     dl_Eligibility d = EligibilityRequired \<and>
     dl_Status d \<in> {DelPending, DelReady, DelInTransit, DelDelivered, DelCancelled} \<and>
     (case dl_Method d of None \<Rightarrow> True | Some me \<Rightarrow> me \<in> {MethodHandoff, MethodCourier, MethodPickup}) \<and>
     (case dl_Note d of None \<Rightarrow> True
      | Some n \<Rightarrow> 1 \<le> utf8_RuneCountInString n \<and> utf8_RuneCountInString n \<le> 500) \<and>
     dl_CreatedAt d \<le> dl_UpdatedAt d \<and> dl_RequesterUserID d \<noteq> dl_ProviderUserID d \<and>
     del_stamps_check d"

definition del_clash :: "delivery \<Rightarrow> delivery \<Rightarrow> bool" where
  "del_clash d e \<longleftrightarrow> dl_TransactionID d = dl_TransactionID e"

section \<open>The store\<close>

definition del_mapDBErr :: "go_error \<Rightarrow> go_error" where
  [err_defs]: "del_mapDBErr err =
     (if err = DbErr Db_ErrNoRows then DelErr Del_errNotFound
      else if err = DbErr Db_ErrConflict then DelErr Del_errConflict
      else if ctx_error err then err
      else DelErr Del_errUnavailable)"

type_synonym 'd del_lens = "('d, (ID, delivery) gomap) lens"

definition del_pg_Create :: "pg_codec \<Rightarrow> 'd del_lens \<Rightarrow> ctx \<Rightarrow> delivery \<Rightarrow> ('d pg, unit) go" where
  "del_pg_Create cd l c d =
     gguard (del_Validate d) (pg_create del_mapDBErr l dl_ID del_check del_clash c (del_row cd d))"

definition del_pg_Get :: "'d del_lens \<Rightarrow> ctx \<Rightarrow> ID \<Rightarrow> ('d pg, delivery) go" where
  "del_pg_Get l c i = pg_get del_mapDBErr l c (\<lambda>d. dl_ID d = i)"

definition del_pg_GetByTransactionID :: "'d del_lens \<Rightarrow> ctx \<Rightarrow> ID \<Rightarrow> ('d pg, delivery) go" where
  "del_pg_GetByTransactionID l c transactionID =
     pg_get del_mapDBErr l c (\<lambda>d. dl_TransactionID d = transactionID)"

definition del_pg_ListForParticipant :: "'d del_lens \<Rightarrow> ctx \<Rightarrow> ID \<Rightarrow> ('d pg, delivery list) go" where
  "del_pg_ListForParticipant l c userID =
     pg_list del_mapDBErr l c (\<lambda>d. dl_RequesterUserID d = userID \<or> dl_ProviderUserID d = userID)
       (newest_first dl_CreatedAt dl_ID)"

definition del_set :: "delivery \<Rightarrow> delivery \<Rightarrow> delivery" where
  "del_set d r = r\<lparr>dl_Status := dl_Status d, dl_UpdatedAt := dl_UpdatedAt d,
     dl_DispatchedAt := dl_DispatchedAt d, dl_DeliveredAt := dl_DeliveredAt d,
     dl_CancelledAt := dl_CancelledAt d\<rparr>"

definition del_pg_Update :: "pg_codec \<Rightarrow> 'd del_lens \<Rightarrow> ctx \<Rightarrow> delivery \<Rightarrow> time \<Rightarrow> ('d pg, unit) go" where
  "del_pg_Update cd l c d expectedUpdatedAt =
     gguard (del_Validate d)
       (pg_occ_update del_mapDBErr (DelErr Del_errConflict) l dl_ID del_check del_clash c (dl_ID d)
          (\<lambda>r. dl_UpdatedAt r = pc_time cd expectedUpdatedAt) (del_set (del_row cd d)))"

definition del_pg_store :: "pg_codec \<Rightarrow> 'd del_lens \<Rightarrow> 'd pg delivery_store" where
  "del_pg_store cd l =
     \<lparr>ls_Create = del_pg_Create cd l, ls_Get = del_pg_Get l,
      ls_GetByTransactionID = del_pg_GetByTransactionID l,
      ls_ListForParticipant = del_pg_ListForParticipant l, ls_Update = del_pg_Update cd l\<rparr>"

section \<open>It does what the in-memory store does\<close>

text \<open>A delivery is storable when it and what the columns make of it are valid and its note is in the
  normal form in which \<open>CreatePending\<close> leaves it.\<close>

definition del_storable :: "pg_codec \<Rightarrow> delivery \<Rightarrow> bool" where
  "del_storable cd d \<longleftrightarrow> del_Validate d = None \<and> del_Validate (del_row cd d) = None \<and>
     del_cloneNormalizedNote (dl_Note d) = Inr (dl_Note d)"

lemma del_row_fields [simp]:
  "dl_ID (del_row cd d) = dl_ID d" "dl_TransactionID (del_row cd d) = dl_TransactionID d"
  "dl_Note (del_row cd d) = dl_Note d"
  by (simp_all add: del_row_def)

lemma del_set_txn: "dl_TransactionID (del_set d r) = dl_TransactionID r"
  by (simp add: del_set_def)

lemma del_note_check:
  "del_normalizeNote n = Inr n \<Longrightarrow> 1 \<le> utf8_RuneCountInString n \<and> utf8_RuneCountInString n \<le> 500"
  using rune_count_pos [of n]
  by (auto simp: del_normalizeNote_def Let_def del_MaxNoteRunes_def split: if_splits)

lemma method_neq:
  "MethodCourier \<noteq> MethodHandoff" "MethodCourier \<noteq> MethodPickup"
  by (simp_all add: MethodCourier_def MethodHandoff_def MethodPickup_def)

lemma del_check_valid:
  assumes "del_Validate d = None" and "del_cloneNormalizedNote (dl_Note d) = Inr (dl_Note d)"
  shows "del_check d"
proof -
  note v = assms(1) [unfolded del_Validate_split]
  have "case dl_Note d of None \<Rightarrow> True
      | Some n \<Rightarrow> 1 \<le> utf8_RuneCountInString n \<and> utf8_RuneCountInString n \<le> 500"
    using assms(2) del_note_check by (auto simp: del_cloneNormalizedNote_def split: option.splits sum.splits)
  moreover have me: "(case dl_Method d of None \<Rightarrow> True | Some me \<Rightarrow> me = MethodCourier) \<longleftrightarrow> \<not> del_skipsInTransit d"
    "del_skipsInTransit d \<longleftrightarrow> dl_Method d \<in> {Some MethodHandoff, Some MethodPickup}"
    using v by (auto simp: del_skipsInTransit_def del_method_skipsInTransit_def del_base_valid_def
        del_method_valid_def method_neq split: option.splits)
  have "del_stamps_check d"
    using v unfolding del_stamps_None del_stamps_check_def Let_def me(1) me(2) [symmetric] del_status_valid_def
    by (elim conjE disjE) (auto split: if_splits)
  ultimately show ?thesis
    using v by (auto simp: del_check_def del_base_valid_def del_status_valid_def del_method_valid_def
        split: option.splits)
qed

lemma del_storableD:
  assumes "del_storable cd t"
  shows "del_Validate t = None" "del_Validate (del_row cd t) = None" "del_check (del_row cd t)"
  using assms by (auto simp: del_storable_def del_check_valid)

lemma del_clash_iff:
  assumes "del_mem_inv m"
  shows "list_ex (\<lambda>s. del_clash t (snd s)) (lm_byID m) \<longleftrightarrow> map_of (lm_byTxn m) (dl_TransactionID t) \<noteq> None"
  using rows_ex [of "lm_byID m" "\<lambda>k s. del_clash t s"] del_mem_invD [OF assms]
  by (auto simp: del_clash_def) (metis option.inject)+

interpretation del_pg: table_store lm_byID "\<lambda>m. del_mem_inv m \<and> lm_fail m = None" dl_ID dl_UpdatedAt
  "\<lambda>t. del_Validate t = None" del_clash "\<lambda>cur t. dl_TransactionID cur = dl_TransactionID t"
  "DelErr Del_errNotFound" "DelErr Del_errConflict" del_mem_Create del_mem_Get del_mem_Update
proof (unfold_locales, goal_cases)
  case (3 m c r m' res)
  then have "res = Inr () \<Longrightarrow> del_mem_inv m'" "\<And>e. res = Inl e \<Longrightarrow> m' = m"
    using del_mem_Create_inv [of m c r m' "()"] del_mem_Create_err [of c r m m'] by auto
  then show ?case
    using 3 del_clash_iff [of m r] by (auto simp: del_mem_Create_def split: if_splits)
next
  case (4 m c k)
  then show ?case by (simp add: del_mem_Get_eq)
next
  case (5 m c t v m' res)
  show ?case
  proof (cases "del_table m (dl_ID t)")
    case None
    then show ?thesis using 5(1-4) by (auto simp: del_mem_Update_def)
  next
    case (Some cur)
    have inv: "del_mem_inv m" and offer: "dl_TransactionID cur = dl_TransactionID t" using 5(1,5) Some by auto
    have free: "\<not> list_ex (\<lambda>s. fst s \<noteq> dl_ID t \<and> del_clash t (snd s)) (lm_byID m)"
      unfolding rows_ex [OF del_mem_invD(1) [OF inv], of "\<lambda>k r. k \<noteq> dl_ID t \<and> del_clash t r"]
      using del_mem_invD(5) [OF inv] Some offer by (auto simp: del_clash_def) (metis option.inject)
    have "del_mem_inv (m\<lparr>lm_byID := AList.update (dl_ID t) t (lm_byID m)\<rparr>)"
      using del_mem_invD [OF inv] del_mem_invD(5) [OF inv Some] Some offer 5(3)
      by (auto simp: del_mem_inv_def) (metis option.inject)
    with free Some show ?thesis using 5(1-4) by (auto simp: del_mem_Update_def split: if_splits)
  qed
qed (auto simp: del_mem_invD)

lemma del_mapDBErr_simps [simp]:
  "del_mapDBErr (DbErr Db_ErrNoRows) = DelErr Del_errNotFound"
  "del_mapDBErr (DbErr Db_ErrConflict) = DelErr Del_errConflict"
  by (simp_all add: del_mapDBErr_def)

lemma del_mem_GetByTransactionID_find:
  assumes inv: "del_mem_inv m" and "ctx_Err c = None" and "lm_fail m = None"
  shows "del_mem_GetByTransactionID c f m = (m, case find (\<lambda>t. dl_TransactionID t = f) (map snd (lm_byID m)) of
    None \<Rightarrow> Inl (DelErr Del_errNotFound) | Some t \<Rightarrow> Inr t)"
proof -
  have "find (\<lambda>t. dl_TransactionID t = f) (map snd (lm_byID m)) =
      (case map_of (lm_byTxn m) f of None \<Rightarrow> None | Some k \<Rightarrow> del_table m k)"
    by (rule find_by_index) (use del_mem_invD [OF inv] in auto)
  then show ?thesis
    using del_mem_invD(6) [OF inv, of f] assms(2,3)
    by (cases "map_of (lm_byTxn m) f") (auto simp: del_mem_GetByTransactionID_def)
qed

lemmas del_pg_defs = del_pg_Create_def del_pg_Get_def del_pg_GetByTransactionID_def
  del_pg_ListForParticipant_def del_pg_Update_def

text \<open>C34. The Postgres store of deliveries implements the in-memory one. While the database works, every
  operation returns what the in-memory store returns on the same rows, the constraints of the table
  never get in the way of a valid record, and afterwards the rows are the same again; an update must
  agree with the stored row on the columns it does not set, as those of the service do.\<close>

theorem del_pg_refines:
  assumes "del_pg.sim l m w" and "pg_up c w" and "lens_ok l" and "del_storable cd t"
    and "\<forall>cur. del_table m (dl_ID t) = Some cur \<longrightarrow> del_set (del_row cd t) cur = del_row cd t"
  shows "(\<exists>m' w' r. del_pg_Create cd l c t w = (w', r) \<and>
      del_mem_Create c (del_row cd t) m = (m', r) \<and> del_pg.sim l m' w') \<and>
    (\<exists>m' w' r. del_pg_Update cd l c t v w = (w', r) \<and>
      del_mem_Update c (del_row cd t) (pc_time cd v) m = (m', r) \<and> del_pg.sim l m' w') \<and>
    (\<exists>w' r. del_pg_Get l c i w = (w', r) \<and> del_mem_Get c i m = (m, r) \<and> del_pg.sim l m w') \<and>
    (\<exists>w' r. del_pg_GetByTransactionID l c i w = (w', r) \<and> del_mem_GetByTransactionID c i m = (m, r) \<and>
      del_pg.sim l m w') \<and>
    (\<exists>w' r. del_pg_ListForParticipant l c u w = (w', r) \<and> del_pg.sim l m w' \<and>
      (\<not> ID_IsZero u \<longrightarrow> del_mem_ListForParticipant c u m = (m, r)))"
proof -
  obtain w1 r1 where 1: "del_pg_Create cd l c t w = (w1, r1)" by fastforce
  obtain w2 r2 where 2: "del_pg_Update cd l c t v w = (w2, r2)" by fastforce
  obtain w3 r3 where 3: "del_pg_Get l c i w = (w3, r3)" by fastforce
  obtain w4 r4 where 4: "del_pg_GetByTransactionID l c i w = (w4, r4)" by fastforce
  obtain w5 r5 where 5: "del_pg_ListForParticipant l c u w = (w5, r5)" by fastforce
  note st = del_storableD [OF assms(4)] and ctx = assms(2) [unfolded pg_up_def]
  have inv: "del_mem_inv m" "lm_fail m = None" using assms(1) by (simp_all add: del_pg.sim_def)
  have c1: "\<exists>m'. del_mem_Create c (del_row cd t) m = (m', r1) \<and> del_pg.sim l m' w1"
    using 1 st by (intro del_pg.create_sim [OF assms(1-3)]) (simp_all add: del_pg_defs)
  have c2: "\<exists>m'. del_mem_Update c (del_row cd t) (pc_time cd v) m = (m', r2) \<and> del_pg.sim l m' w2"
  proof (rule del_pg.update_sim [where r = "del_row cd t" and chk = del_check, OF assms(1-3) st(2,3), where mp = del_mapDBErr
        and cond = "\<lambda>r. dl_UpdatedAt r = pc_time cd v" and asg = "del_set (del_row cd t)"])
    show "del_set (del_row cd t) cur = del_row cd t \<and> dl_TransactionID cur = dl_TransactionID (del_row cd t) \<and>
        (dl_UpdatedAt cur = pc_time cd v) = (dl_UpdatedAt cur = pc_time cd v)"
      if "del_table m (dl_ID (del_row cd t)) = Some cur" for cur
      using assms(5) that del_set_txn [of "del_row cd t" cur] by auto
  qed (use 2 st(1) in \<open>simp_all add: del_pg_defs\<close>)
  have c3: "del_mem_Get c i m = (m, r3) \<and> del_pg.sim l m w3"
    using 3 by (intro del_pg.get_sim [OF assms(1-3)]) (simp_all add: del_pg_defs)
  have c4: "del_pg.sim l m w4 \<and> del_mem_GetByTransactionID c i m = (m, r4)"
    using del_pg.find_sim [OF assms(1-3) _ 4 [unfolded del_pg_defs]] del_mem_GetByTransactionID_find [OF inv(1) _ inv(2)] ctx
    by simp
  have c5: "del_pg.sim l m w5 \<and> (\<not> ID_IsZero u \<longrightarrow> del_mem_ListForParticipant c u m = (m, r5))"
    using del_pg.list_sim [OF assms(1-3) 5 [unfolded del_pg_defs]] ctx inv
    by (simp add: del_mem_ListForParticipant_def del_Participant_def map_idI)
  show ?thesis unfolding 1 2 3 4 5 prod.inject using c1 c2 c3 c4 c5 by blast
qed

definition sample_pg_delivery :: "string \<Rightarrow> time \<Rightarrow> delivery" where
  "sample_pg_delivery s t = (sample_delivery None s)\<lparr>dl_CreatedAt := 40000, dl_UpdatedAt := t\<rparr>"

lemma sample_pg_delivery_fields [simp]:
  "dl_ID (sample_pg_delivery s t) = id_n 60" "dl_TransactionID (sample_pg_delivery s t) = id_n 50"
  "dl_UpdatedAt (sample_pg_delivery s t) = t" "dl_Note (sample_pg_delivery s t) = None"
  by (simp_all add: sample_pg_delivery_def sample_delivery_def)

lemma sample_pg_delivery_valid [simp]:
  "40000 \<le> t \<Longrightarrow> s = DelPending \<or> s = DelReady \<Longrightarrow> del_Validate (sample_pg_delivery s t) = None"
  by (auto simp: del_Validate_split del_stamps_None del_base_valid_def del_status_valid_def
      sample_pg_delivery_def sample_delivery_def)

lemma sample_pg_delivery_row [simp]:
  "s = DelPending \<or> s = DelReady \<Longrightarrow>
     del_row sample_codec (sample_pg_delivery s t) = sample_pg_delivery s (t div 1000 * 1000)"
  by (auto simp: del_row_def sample_pg_delivery_def sample_delivery_def sample_codec_def)

theorem del_pg_refines_witness:
  "\<exists>w'. del_pg_Update sample_codec whole background (sample_pg_delivery DelReady 50700) 40000
      (sample_pg [(id_n 60, sample_pg_delivery DelPending 40000)]) = (w', Inr ()) \<and>
    pg_data w' = [(id_n 60, sample_pg_delivery DelReady 50000)]"
proof -
  let ?m = "\<lparr>lm_byID = [(id_n 60, sample_pg_delivery DelPending 40000)], lm_byTxn = [(id_n 50, id_n 60)],
    lm_fail = None\<rparr>"
  have st: "del_storable sample_codec (sample_pg_delivery DelReady 50700)"
    by (simp add: del_storable_def del_cloneNormalizedNote_def)
  have "del_mem_inv ?m" by (simp add: del_mem_inv_def wf_map_def)
  then have sim: "del_pg.sim whole ?m (sample_pg [(id_n 60, sample_pg_delivery DelPending 40000)])"
    by (simp add: del_pg.sim_def)
  have fr: "\<forall>cur. del_table ?m (dl_ID (sample_pg_delivery DelReady 50700)) = Some cur \<longrightarrow>
      del_set (del_row sample_codec (sample_pg_delivery DelReady 50700)) cur =
      del_row sample_codec (sample_pg_delivery DelReady 50700)"
    by simp (simp add: del_set_def sample_pg_delivery_def sample_delivery_def)
  have mem: "del_mem_Update background (sample_pg_delivery DelReady 50000) 40000 ?m =
      (?m\<lparr>lm_byID := [(id_n 60, sample_pg_delivery DelReady 50000)]\<rparr>, Inr ())"
    by (simp add: del_mem_Update_def background_def)
  obtain m' w' r where u: "del_pg_Update sample_codec whole background (sample_pg_delivery DelReady 50700) 40000
      (sample_pg [(id_n 60, sample_pg_delivery DelPending 40000)]) = (w', r)"
    and m': "del_mem_Update background (del_row sample_codec (sample_pg_delivery DelReady 50700))
      (pc_time sample_codec 40000) ?m = (m', r)" and s: "del_pg.sim whole m' w'"
    using del_pg_refines [OF sim sample_pg_up(1) whole_ok(1) st fr, of 40000] by blast
  have "pc_time sample_codec 40000 = 40000" by (simp add: sample_codec_def)
  then have "r = Inr ()" "lm_byID m' = [(id_n 60, sample_pg_delivery DelReady 50000)]"
    using m' mem by auto
  then show ?thesis using u s by (simp add: del_pg.sim_def)
qed

end
