(* ===== verification/Disputes.thy ===== *)
theory Disputes
  imports Deliveries
begin

text \<open>
  The package \<open>disputes\<close>: the dispute of a Transaction with its evidence (\<open>domain.go\<close>), the in-memory
  store (\<open>memory.go\<close>), the service (\<open>service.go\<close>), its event (\<open>events.go\<close>, \<open>contracts/events.go\<close>) and
  the read surface for other packages (\<open>lookup.go\<close>, \<open>contracts/lookup.go\<close>).
\<close>

section \<open>Data\<close>

definition DisOpen :: string where "DisOpen = ''open''"
definition DisUnderReview :: string where "DisUnderReview = ''under_review''"
definition DisResolved :: string where "DisResolved = ''resolved''"
definition DisClosed :: string where "DisClosed = ''closed''"
definition DisWithdrawn :: string where "DisWithdrawn = ''withdrawn''"

lemmas dis_status_defs = DisOpen_def DisUnderReview_def DisResolved_def DisClosed_def DisWithdrawn_def

lemma dis_status_neq [simp]:
  "DisOpen \<noteq> DisUnderReview" "DisOpen \<noteq> DisResolved" "DisOpen \<noteq> DisClosed" "DisOpen \<noteq> DisWithdrawn"
  "DisUnderReview \<noteq> DisOpen" "DisUnderReview \<noteq> DisResolved" "DisUnderReview \<noteq> DisClosed" "DisUnderReview \<noteq> DisWithdrawn"
  "DisResolved \<noteq> DisOpen" "DisResolved \<noteq> DisUnderReview" "DisResolved \<noteq> DisClosed" "DisResolved \<noteq> DisWithdrawn"
  "DisClosed \<noteq> DisOpen" "DisClosed \<noteq> DisUnderReview" "DisClosed \<noteq> DisResolved" "DisClosed \<noteq> DisWithdrawn"
  "DisWithdrawn \<noteq> DisOpen" "DisWithdrawn \<noteq> DisUnderReview" "DisWithdrawn \<noteq> DisResolved" "DisWithdrawn \<noteq> DisClosed"
  by (simp_all add: dis_status_defs)

definition dis_status_valid :: "string \<Rightarrow> bool" where
  "dis_status_valid s \<longleftrightarrow>
     s = DisOpen \<or> s = DisUnderReview \<or> s = DisResolved \<or> s = DisClosed \<or> s = DisWithdrawn"

definition dis_status_Active :: "string \<Rightarrow> bool" where
  "dis_status_Active s \<longleftrightarrow> s = DisOpen \<or> s = DisUnderReview"

definition dis_status_Terminal :: "string \<Rightarrow> bool" where
  "dis_status_Terminal s \<longleftrightarrow> s = DisClosed \<or> s = DisWithdrawn"

definition dis_status_Concluded :: "string \<Rightarrow> bool" where
  "dis_status_Concluded s \<longleftrightarrow> s = DisResolved \<or> s = DisClosed"

definition ReasonNonDelivery :: string where "ReasonNonDelivery = ''non_delivery''"

definition dis_reason_valid :: "string \<Rightarrow> bool" where
  "dis_reason_valid r \<longleftrightarrow>
     r \<in> {''item_or_service_not_as_described'', ReasonNonDelivery, ''damaged_or_incomplete'',
          ''payment_issue'', ''cancellation_issue'', ''other''}"

definition dis_resolution_valid :: "string \<Rightarrow> bool" where
  "dis_resolution_valid r \<longleftrightarrow>
     r \<in> {''no_action'', ''buyer_favored'', ''provider_favored'', ''mutual_resolution'',
          ''insufficient_evidence'', ''other''}"

definition EvidencePartyStatement :: string where "EvidencePartyStatement = ''party_statement''"
definition EvidenceExternalReference :: string where "EvidenceExternalReference = ''external_reference''"
definition EvidenceInternalReference :: string where "EvidenceInternalReference = ''internal_reference''"

lemma evidence_type_neq [simp]:
  "EvidencePartyStatement \<noteq> EvidenceExternalReference" "EvidencePartyStatement \<noteq> EvidenceInternalReference"
  "EvidenceExternalReference \<noteq> EvidencePartyStatement" "EvidenceExternalReference \<noteq> EvidenceInternalReference"
  "EvidenceInternalReference \<noteq> EvidencePartyStatement" "EvidenceInternalReference \<noteq> EvidenceExternalReference"
  by (simp_all add: EvidencePartyStatement_def EvidenceExternalReference_def EvidenceInternalReference_def)

definition evidence_type_valid :: "string \<Rightarrow> bool" where
  "evidence_type_valid t \<longleftrightarrow>
     t = EvidencePartyStatement \<or> t = EvidenceExternalReference \<or> t = EvidenceInternalReference"

definition evidence_requiresReference :: "string \<Rightarrow> bool" where
  "evidence_requiresReference t \<longleftrightarrow> t = EvidenceExternalReference \<or> t = EvidenceInternalReference"

definition evidence_forbidsReference :: "string \<Rightarrow> bool" where
  "evidence_forbidsReference t \<longleftrightarrow> t = EvidencePartyStatement"

definition RoleRequester :: string where "RoleRequester = ''requester''"
definition RoleProvider :: string where "RoleProvider = ''provider''"
definition RoleInternal :: string where "RoleInternal = ''internal''"

lemma role_neq [simp]:
  "RoleRequester \<noteq> RoleInternal" "RoleInternal \<noteq> RoleRequester" "RoleProvider \<noteq> RoleInternal"
  "RoleInternal \<noteq> RoleProvider" "RoleRequester \<noteq> []" "RoleProvider \<noteq> []"
  by (simp_all add: RoleRequester_def RoleProvider_def RoleInternal_def)

definition dis_MaxStatementRunes :: nat where "dis_MaxStatementRunes = 2000"
definition dis_MaxTitleRunes :: nat where "dis_MaxTitleRunes = 200"
definition dis_MaxDescriptionRunes :: nat where "dis_MaxDescriptionRunes = 2000"
definition dis_MaxReferenceRunes :: nat where "dis_MaxReferenceRunes = 512"

text \<open>The policy is its window. \<open>NewService\<close> replaces the zero value by the default and refuses the rest.\<close>

definition dis_DefaultWindow :: duration where "dis_DefaultWindow = 14 * 24 * hour"

definition dis_policy_normalized :: "duration \<Rightarrow> duration res" where
  "dis_policy_normalized window =
     (if window \<le> 0 then Inl (DisErr Dis_errInvalidPolicy) else Inr window)"

definition dis_NewService_policy :: "duration \<Rightarrow> duration res" where
  "dis_NewService_policy window =
     dis_policy_normalized (if window = 0 then dis_DefaultWindow else window)"

definition dis_ParseID :: "string \<Rightarrow> ID res" where
  "dis_ParseID = ParseID (DisErr Dis_errInvalidDispute) (DisErr Dis_errZeroID)"

definition normalizeOptionalText :: "string \<Rightarrow> nat \<Rightarrow> go_error \<Rightarrow> string res" where
  "normalizeOptionalText s mx invalid =
     (let v = strings_TrimSpace s
      in if v = [] then Inl invalid
         else if utf8_RuneCountInString v > mx then Inl invalid
         else Inr v)"

definition cloneNormalizedOptional :: "string option \<Rightarrow> nat \<Rightarrow> go_error \<Rightarrow> string option res" where
  "cloneNormalizedOptional s mx invalid =
     (case s of
        None \<Rightarrow> Inr None
      | Some t \<Rightarrow>
          (case normalizeOptionalText t mx invalid of Inl e \<Rightarrow> Inl e | Inr v \<Rightarrow> Inr (Some v)))"

definition normalizeStatement :: "string \<Rightarrow> string res" where
  "normalizeStatement s = normalizeOptionalText s dis_MaxStatementRunes (DisErr Dis_errInvalidStatement)"

definition cloneNormalizedStatement :: "string option \<Rightarrow> string option res" where
  "cloneNormalizedStatement s =
     cloneNormalizedOptional s dis_MaxStatementRunes (DisErr Dis_errInvalidStatement)"

definition normalizeTitle :: "string \<Rightarrow> string res" where
  "normalizeTitle s = normalizeOptionalText s dis_MaxTitleRunes (DisErr Dis_errInvalidEvidence)"

record dispute =
  d_ID :: ID
  d_TransactionID :: ID
  d_RequesterUserID :: ID
  d_ProviderUserID :: ID
  d_OpenedByUserID :: ID
  d_ReasonCode :: string
  d_Statement :: "string option"
  d_Status :: string
  d_ResolutionCode :: "string option"
  d_CreatedAt :: time
  d_UpdatedAt :: time
  d_ResolvedAt :: "time option"

definition dis_Participant :: "dispute \<Rightarrow> ID \<Rightarrow> bool" where
  "dis_Participant d userID \<longleftrightarrow>
     \<not> ID_IsZero userID \<and> (d_RequesterUserID d = userID \<or> d_ProviderUserID d = userID)"

text \<open>The last part of \<open>Validate\<close>: the \<open>switch\<close> on the status.\<close>

definition dis_validateStamps :: "dispute \<Rightarrow> go_error option" where
  "dis_validateStamps d =
     (if d_Status d = DisOpen \<or> d_Status d = DisUnderReview \<or> d_Status d = DisWithdrawn then
        (if d_ResolvedAt d \<noteq> None \<or> d_ResolutionCode d \<noteq> None
           then Some (DisErr Dis_errInvalidDispute) else None)
      else if d_Status d = DisResolved \<or> d_Status d = DisClosed then
        (case (d_ResolvedAt d, d_ResolutionCode d) of
           (Some x, Some code) \<Rightarrow>
             if \<not> dis_resolution_valid code then Some (DisErr Dis_errInvalidResolution)
             else if time_Before x (d_CreatedAt d) then Some (DisErr Dis_errInvalidDispute)
             else None
         | _ \<Rightarrow> Some (DisErr Dis_errInvalidDispute))
      else None)"

definition dis_Validate :: "dispute \<Rightarrow> go_error option" where
  "dis_Validate d =
     (if ID_IsZero (d_ID d) \<or> ID_IsZero (d_TransactionID d) \<or> ID_IsZero (d_RequesterUserID d) \<or>
         ID_IsZero (d_ProviderUserID d) \<or> ID_IsZero (d_OpenedByUserID d)
        then Some (DisErr Dis_errZeroID)
      else if d_RequesterUserID d = d_ProviderUserID d then Some (DisErr Dis_errInvalidDispute)
      else if \<not> dis_Participant d (d_OpenedByUserID d) then Some (DisErr Dis_errInvalidDispute)
      else if \<not> dis_reason_valid (d_ReasonCode d) then Some (DisErr Dis_errInvalidReason)
      else case (case d_Statement d of
                   None \<Rightarrow> None
                 | Some s \<Rightarrow> (case normalizeStatement s of Inl e \<Rightarrow> Some e | Inr _ \<Rightarrow> None)) of
        Some e \<Rightarrow> Some e
      | None \<Rightarrow>
      if \<not> dis_status_valid (d_Status d) then Some (DisErr Dis_errInvalidStatus)
      else if time_IsZero (d_CreatedAt d) \<or> time_Before (d_UpdatedAt d) (d_CreatedAt d)
        then Some (DisErr Dis_errInvalidDispute)
      else dis_validateStamps d)"

definition dis_RoleOf :: "dispute \<Rightarrow> ID \<Rightarrow> string" where
  "dis_RoleOf d userID =
     (if userID = d_RequesterUserID d then RoleRequester
      else if userID = d_ProviderUserID d then RoleProvider
      else [])"

definition dis_OpenedByRole :: "dispute \<Rightarrow> string" where
  "dis_OpenedByRole d =
     (if d_OpenedByUserID d = d_RequesterUserID d then RoleRequester
      else if d_OpenedByUserID d = d_ProviderUserID d then RoleProvider
      else [])"

definition cloneDispute :: "dispute \<Rightarrow> dispute" where
  "cloneDispute d = d\<lparr>d_Statement := map_option (\<lambda>v. v) (d_Statement d),
     d_ResolutionCode := map_option (\<lambda>v. v) (d_ResolutionCode d),
     d_ResolvedAt := map_option time_UTC (d_ResolvedAt d)\<rparr>"

lemma cloneDispute_id [simp]: "cloneDispute d = d"
  by (simp add: cloneDispute_def option.map_ident)

section \<open>Life cycle\<close>

record dispute_create =
  xc_TransactionID :: ID
  xc_RequesterUserID :: ID
  xc_ProviderUserID :: ID
  xc_OpenedByUserID :: ID
  xc_ReasonCode :: string
  xc_Statement :: "string option"

definition dis_CreateOpen :: "dispute_create \<Rightarrow> time \<Rightarrow> ID option \<Rightarrow> dispute res" where
  "dis_CreateOpen cmd now entropy =
     (if ID_IsZero (xc_TransactionID cmd) \<or> ID_IsZero (xc_RequesterUserID cmd) \<or>
         ID_IsZero (xc_ProviderUserID cmd) \<or> ID_IsZero (xc_OpenedByUserID cmd)
        then Inl (DisErr Dis_errZeroID)
      else if time_IsZero now then Inl (DisErr Dis_errInvalidDispute)
      else case cloneNormalizedStatement (xc_Statement cmd) of Inl e \<Rightarrow> Inl e | Inr statement \<Rightarrow>
      case NewID entropy of None \<Rightarrow> Inl (DisErr Dis_errUnavailable) | Some i \<Rightarrow>
      let d = \<lparr>d_ID = i, d_TransactionID = xc_TransactionID cmd,
               d_RequesterUserID = xc_RequesterUserID cmd, d_ProviderUserID = xc_ProviderUserID cmd,
               d_OpenedByUserID = xc_OpenedByUserID cmd, d_ReasonCode = xc_ReasonCode cmd,
               d_Statement = statement, d_Status = DisOpen, d_ResolutionCode = None,
               d_CreatedAt = time_UTC now, d_UpdatedAt = time_UTC now, d_ResolvedAt = None\<rparr>
      in case dis_Validate d of Some e \<Rightarrow> Inl e | None \<Rightarrow> Inr d)"

definition dis_withStatus :: "dispute \<Rightarrow> string \<Rightarrow> time \<Rightarrow> dispute" where
  "dis_withStatus d nxt now = d\<lparr>d_Status := nxt, d_UpdatedAt := time_UTC now\<rparr>"

definition dis_StartReview :: "dispute \<Rightarrow> time \<Rightarrow> (dispute \<times> bool) res" where
  "dis_StartReview d now =
     (if d_Status d = DisUnderReview then Inr (d, False)
      else if d_Status d \<noteq> DisOpen then Inl (DisErr Dis_errInvalidTransition)
      else let nxt = dis_withStatus d DisUnderReview now
           in case dis_Validate nxt of Some e \<Rightarrow> Inl e | None \<Rightarrow> Inr (nxt, True))"

definition dis_Resolve :: "string \<Rightarrow> dispute \<Rightarrow> time \<Rightarrow> (dispute \<times> bool) res" where
  "dis_Resolve code d now =
     (if \<not> dis_resolution_valid code then Inl (DisErr Dis_errInvalidResolution)
      else if d_Status d = DisResolved then
        (if d_ResolutionCode d = Some code then Inr (d, False) else Inl (DisErr Dis_errConflict))
      else if d_Status d \<noteq> DisUnderReview then Inl (DisErr Dis_errInvalidTransition)
      else let nxt = dis_withStatus d DisResolved now;
               nxt = nxt\<lparr>d_ResolvedAt := Some (d_UpdatedAt nxt), d_ResolutionCode := Some code\<rparr>
           in case dis_Validate nxt of Some e \<Rightarrow> Inl e | None \<Rightarrow> Inr (nxt, True))"

definition dis_Close :: "dispute \<Rightarrow> time \<Rightarrow> (dispute \<times> bool) res" where
  "dis_Close d now =
     (if d_Status d = DisClosed then Inr (d, False)
      else if d_Status d \<noteq> DisResolved then Inl (DisErr Dis_errInvalidTransition)
      else let nxt = dis_withStatus d DisClosed now
           in case dis_Validate nxt of Some e \<Rightarrow> Inl e | None \<Rightarrow> Inr (nxt, True))"

definition dis_Withdraw :: "dispute \<Rightarrow> time \<Rightarrow> (dispute \<times> bool) res" where
  "dis_Withdraw d now =
     (if d_Status d = DisWithdrawn then Inr (d, False)
      else if d_Status d \<noteq> DisOpen then Inl (DisErr Dis_errInvalidTransition)
      else let nxt = dis_withStatus d DisWithdrawn now
           in case dis_Validate nxt of Some e \<Rightarrow> Inl e | None \<Rightarrow> Inr (nxt, True))"

definition dis_AcceptsEvidence :: "dispute \<Rightarrow> bool" where
  "dis_AcceptsEvidence d \<longleftrightarrow> d_Status d = DisOpen \<or> d_Status d = DisUnderReview"

section \<open>Evidence\<close>

record evidence =
  e_ID :: ID
  e_DisputeID :: ID
  e_EvidenceType :: string
  e_Title :: string
  e_Description :: "string option"
  e_ReferenceValue :: "string option"
  e_ActorUserID :: "ID option"
  e_ActorRole :: string
  e_CreatedAt :: time

definition optional_text_err :: "string option \<Rightarrow> nat \<Rightarrow> go_error \<Rightarrow> go_error option" where
  "optional_text_err s mx invalid =
     (case s of
        None \<Rightarrow> None
      | Some t \<Rightarrow> (case normalizeOptionalText t mx invalid of Inl e \<Rightarrow> Some e | Inr _ \<Rightarrow> None))"

definition evidence_Validate :: "evidence \<Rightarrow> go_error option" where
  "evidence_Validate e =
     (if ID_IsZero (e_ID e) \<or> ID_IsZero (e_DisputeID e) then Some (DisErr Dis_errZeroID)
      else if \<not> evidence_type_valid (e_EvidenceType e) then Some (DisErr Dis_errInvalidEvidence)
      else case normalizeTitle (e_Title e) of Inl x \<Rightarrow> Some x | Inr title \<Rightarrow>
      if title \<noteq> e_Title e then Some (DisErr Dis_errInvalidEvidence)
      else case optional_text_err (e_Description e) dis_MaxDescriptionRunes
                  (DisErr Dis_errInvalidEvidence) of Some x \<Rightarrow> Some x | None \<Rightarrow>
      if evidence_forbidsReference (e_EvidenceType e) \<and> e_ReferenceValue e \<noteq> None
        then Some (DisErr Dis_errInvalidEvidence)
      else if evidence_requiresReference (e_EvidenceType e) \<and> e_ReferenceValue e = None
        then Some (DisErr Dis_errInvalidEvidence)
      else case (if evidence_requiresReference (e_EvidenceType e)
                 then optional_text_err (e_ReferenceValue e) dis_MaxReferenceRunes
                        (DisErr Dis_errInvalidEvidence)
                 else None) of Some x \<Rightarrow> Some x | None \<Rightarrow>
      if e_ActorRole e \<noteq> RoleRequester \<and> e_ActorRole e \<noteq> RoleProvider \<and> e_ActorRole e \<noteq> RoleInternal
        then Some (DisErr Dis_errInvalidEvidence)
      else if e_ActorRole e = RoleInternal \<and> e_EvidenceType e \<noteq> EvidenceInternalReference
        then Some (DisErr Dis_errInvalidEvidence)
      else if e_ActorRole e \<noteq> RoleInternal \<and> e_EvidenceType e = EvidenceInternalReference
        then Some (DisErr Dis_errInvalidEvidence)
      else if time_IsZero (e_CreatedAt e) then Some (DisErr Dis_errInvalidEvidence)
      else None)"

record evidence_command =
  ec_DisputeID :: ID
  ec_EvidenceType :: string
  ec_Title :: string
  ec_Description :: "string option"
  ec_ReferenceValue :: "string option"
  ec_ActorUserID :: "ID option"
  ec_ActorRole :: string

definition dis_CreateEvidence :: "evidence_command \<Rightarrow> time \<Rightarrow> ID option \<Rightarrow> evidence res" where
  "dis_CreateEvidence cmd now entropy =
     (if ID_IsZero (ec_DisputeID cmd) then Inl (DisErr Dis_errZeroID)
      else if time_IsZero now then Inl (DisErr Dis_errInvalidEvidence)
      else case normalizeTitle (ec_Title cmd) of Inl x \<Rightarrow> Inl x | Inr title \<Rightarrow>
      case cloneNormalizedOptional (ec_Description cmd) dis_MaxDescriptionRunes
             (DisErr Dis_errInvalidEvidence) of Inl x \<Rightarrow> Inl x | Inr desc \<Rightarrow>
      case cloneNormalizedOptional (ec_ReferenceValue cmd) dis_MaxReferenceRunes
             (DisErr Dis_errInvalidEvidence) of Inl x \<Rightarrow> Inl x | Inr ref \<Rightarrow>
      case NewID entropy of None \<Rightarrow> Inl (DisErr Dis_errUnavailable) | Some i \<Rightarrow>
      let e = \<lparr>e_ID = i, e_DisputeID = ec_DisputeID cmd, e_EvidenceType = ec_EvidenceType cmd,
               e_Title = title, e_Description = desc, e_ReferenceValue = ref,
               e_ActorUserID = ec_ActorUserID cmd,
               e_ActorRole = strings_TrimSpace (ec_ActorRole cmd), e_CreatedAt = time_UTC now\<rparr>
      in case evidence_Validate e of Some x \<Rightarrow> Inl x | None \<Rightarrow> Inr e)"

definition cloneEvidence :: "evidence \<Rightarrow> evidence" where
  "cloneEvidence e = e\<lparr>e_Description := map_option (\<lambda>v. v) (e_Description e),
     e_ReferenceValue := map_option (\<lambda>v. v) (e_ReferenceValue e),
     e_ActorUserID := map_option (\<lambda>v. v) (e_ActorUserID e)\<rparr>"

lemma cloneEvidence_id [simp]: "cloneEvidence e = e"
  by (simp add: cloneEvidence_def option.map_ident)

section \<open>The in-memory store\<close>

record dispute_mem =
  dm_byID :: "(ID, dispute) gomap"
  dm_evidence :: "(ID, evidence list) gomap"
  dm_fail :: "go_error option"

definition dis_NewMemoryStore :: dispute_mem where
  "dis_NewMemoryStore = \<lparr>dm_byID = [], dm_evidence = [], dm_fail = None\<rparr>"

definition dis_mem_SetFail :: "go_error option \<Rightarrow> dispute_mem \<Rightarrow> dispute_mem" where
  "dis_mem_SetFail err m = m\<lparr>dm_fail := err\<rparr>"

definition dis_mem_Create :: "ctx \<Rightarrow> dispute \<Rightarrow> (dispute_mem, unit) go" where
  "dis_mem_Create c d = (\<lambda>m.
     gguard (ctx_Err c) (gguard (dm_fail m) (gguard (dis_Validate d)
       (if map_of (dm_byID m) (d_ID d) \<noteq> None then gfail (DisErr Dis_errConflict)
        else if dis_status_Active (d_Status d) \<and>
            (\<exists>x \<in> set (map snd (dm_byID m)).
               d_TransactionID x = d_TransactionID d \<and> dis_status_Active (d_Status x))
          then gfail (DisErr Dis_errConflict)
        else (\<lambda>m. (m\<lparr>dm_byID := AList.update (d_ID d) (cloneDispute d) (dm_byID m)\<rparr>, Inr ()))))) m)"

definition dis_mem_Get :: "ctx \<Rightarrow> ID \<Rightarrow> (dispute_mem, dispute) go" where
  "dis_mem_Get c i = (\<lambda>m.
     gguard (ctx_Err c) (gguard (dm_fail m)
       (case map_of (dm_byID m) i of
          None \<Rightarrow> gfail (DisErr Dis_errNotFound)
        | Some d \<Rightarrow> gret (cloneDispute d))) m)"

definition dis_mem_GetActiveByTransactionID :: "ctx \<Rightarrow> ID \<Rightarrow> (dispute_mem, dispute) go" where
  "dis_mem_GetActiveByTransactionID c transactionID = (\<lambda>m.
     gguard (ctx_Err c) (gguard (dm_fail m)
       (case find (\<lambda>d. d_TransactionID d = transactionID \<and> dis_status_Active (d_Status d))
               (map snd (dm_byID m)) of
          None \<Rightarrow> gfail (DisErr Dis_errNotFound)
        | Some d \<Rightarrow> gret (cloneDispute d))) m)"

definition dis_mem_ListConcludedByTransactionID :: "ctx \<Rightarrow> ID \<Rightarrow> (dispute_mem, dispute list) go" where
  "dis_mem_ListConcludedByTransactionID c transactionID = (\<lambda>m.
     gguard (ctx_Err c) (gguard (dm_fail m)
       (gret (map cloneDispute
         (filter (\<lambda>d. d_TransactionID d = transactionID \<and> dis_status_Concluded (d_Status d))
           (map snd (dm_byID m)))))) m)"

definition dis_mem_ListForParticipant :: "ctx \<Rightarrow> ID \<Rightarrow> (dispute_mem, dispute list) go" where
  "dis_mem_ListForParticipant c userID = (\<lambda>m.
     gguard (ctx_Err c) (gguard (dm_fail m)
       (gret (newest_first d_CreatedAt d_ID (map cloneDispute
         (filter (\<lambda>d. dis_Participant d userID) (map snd (dm_byID m))))))) m)"

definition dis_mem_Update :: "ctx \<Rightarrow> dispute \<Rightarrow> time \<Rightarrow> (dispute_mem, unit) go" where
  "dis_mem_Update c d expectedUpdatedAt = (\<lambda>m.
     gguard (ctx_Err c) (gguard (dm_fail m) (gguard (dis_Validate d)
       (case map_of (dm_byID m) (d_ID d) of
          None \<Rightarrow> gfail (DisErr Dis_errNotFound)
        | Some current \<Rightarrow>
            if \<not> time_Equal (d_UpdatedAt current) expectedUpdatedAt
              then gfail (DisErr Dis_errConflict)
            else (\<lambda>m. (m\<lparr>dm_byID := AList.update (d_ID d) (cloneDispute d) (dm_byID m)\<rparr>,
                       Inr ()))))) m)"

definition evidence_of :: "dispute_mem \<Rightarrow> ID \<Rightarrow> evidence list" where
  "evidence_of m i = (case map_of (dm_evidence m) i of None \<Rightarrow> [] | Some es \<Rightarrow> es)"

definition dis_mem_AppendEvidence :: "ctx \<Rightarrow> evidence \<Rightarrow> (dispute_mem, unit) go" where
  "dis_mem_AppendEvidence c e = (\<lambda>m.
     gguard (ctx_Err c) (gguard (dm_fail m) (gguard (evidence_Validate e)
       (if map_of (dm_byID m) (e_DisputeID e) = None then gfail (DisErr Dis_errNotFound)
        else if e_ID e \<in> set (map e_ID (evidence_of m (e_DisputeID e)))
          then gfail (DisErr Dis_errConflict)
        else (\<lambda>m. (m\<lparr>dm_evidence := AList.update (e_DisputeID e)
                      (evidence_of m (e_DisputeID e) @ [cloneEvidence e]) (dm_evidence m)\<rparr>,
                   Inr ()))))) m)"

definition oldest_first :: "evidence list \<Rightarrow> evidence list" where
  "oldest_first es = sort_key (\<lambda>e. (e_CreatedAt e, e_ID e)) es"

definition dis_mem_ListEvidence :: "ctx \<Rightarrow> ID \<Rightarrow> (dispute_mem, evidence list) go" where
  "dis_mem_ListEvidence c disputeID = (\<lambda>m.
     gguard (ctx_Err c) (gguard (dm_fail m)
       (gret (oldest_first (map cloneEvidence (evidence_of m disputeID))))) m)"

section \<open>Events\<close>

definition DisEventUpdated :: string where "DisEventUpdated = ''disputes.dispute.updated''"

record dis_updated_payload =
  up_DisputeID :: string
  up_TransactionID :: string
  up_RequesterUserID :: string
  up_ProviderUserID :: string
  up_ActorUserID :: string
  up_StatusCode :: string

definition dis_updated_json :: "dis_updated_payload \<Rightarrow> json" where
  "dis_updated_json p = json_object
     [(''dispute_id'', up_DisputeID p), (''transaction_id'', up_TransactionID p),
      (''requester_user_id'', up_RequesterUserID p), (''provider_user_id'', up_ProviderUserID p),
      (''actor_user_id'', up_ActorUserID p), (''status_code'', up_StatusCode p)]"

definition dis_DecodeUpdated :: "json option \<Rightarrow> dis_updated_payload res" where
  "dis_DecodeUpdated raw =
     (case json_Unmarshal_strings [''dispute_id'', ''transaction_id'', ''requester_user_id'',
          ''provider_user_id'', ''actor_user_id'', ''status_code''] raw of
        None \<Rightarrow> Inl (DisCErr DisC_ErrInvalidEvent)
      | Some acc \<Rightarrow>
          let f = (\<lambda>k. strings_TrimSpace (string_field acc k));
              p = \<lparr>up_DisputeID = f ''dispute_id'', up_TransactionID = f ''transaction_id'',
                   up_RequesterUserID = f ''requester_user_id'',
                   up_ProviderUserID = f ''provider_user_id'',
                   up_ActorUserID = f ''actor_user_id'', up_StatusCode = f ''status_code''\<rparr>
          in if up_DisputeID p = [] \<or> up_TransactionID p = [] \<or> up_RequesterUserID p = [] \<or>
                up_ProviderUserID p = [] \<or> up_StatusCode p = []
             then Inl (DisCErr DisC_ErrInvalidEvent) else Inr p)"

definition dis_encodeUpdated :: "dispute \<Rightarrow> ID \<Rightarrow> new_event res" where
  "dis_encodeUpdated d actorUserID =
     (if ID_IsZero (d_ID d) then Inl (DisErr Dis_errUnavailable)
      else let actor = (if ID_IsZero actorUserID then [] else ID_String actorUserID)
      in Inr
          \<lparr>ev_EventType = DisEventUpdated, ev_EventVersion = 1, ev_AggregateType = ''dispute'',
           ev_AggregateID = ID_String (d_ID d),
           ev_Payload = Some (dis_updated_json
             \<lparr>up_DisputeID = ID_String (d_ID d), up_TransactionID = ID_String (d_TransactionID d),
              up_RequesterUserID = ID_String (d_RequesterUserID d),
              up_ProviderUserID = ID_String (d_ProviderUserID d),
              up_ActorUserID = actor, up_StatusCode = d_Status d\<rparr>),
           ev_IdempotencyKey =
             DisEventUpdated @ '':'' @ ID_String (d_ID d) @ '':'' @ d_Status d @ '':'' @ actor,
           ev_CorrelationID = []\<rparr>)"

section \<open>The service\<close>

record 'w dispute_store =
  ds_Create :: "ctx \<Rightarrow> dispute \<Rightarrow> ('w, unit) go"
  ds_Get :: "ctx \<Rightarrow> ID \<Rightarrow> ('w, dispute) go"
  ds_GetActiveByTransactionID :: "ctx \<Rightarrow> ID \<Rightarrow> ('w, dispute) go"
  ds_ListConcludedByTransactionID :: "ctx \<Rightarrow> ID \<Rightarrow> ('w, dispute list) go"
  ds_ListForParticipant :: "ctx \<Rightarrow> ID \<Rightarrow> ('w, dispute list) go"
  ds_Update :: "ctx \<Rightarrow> dispute \<Rightarrow> time \<Rightarrow> ('w, unit) go"
  ds_AppendEvidence :: "ctx \<Rightarrow> evidence \<Rightarrow> ('w, unit) go"
  ds_ListEvidence :: "ctx \<Rightarrow> ID \<Rightarrow> ('w, evidence list) go"

definition dispute_mem_store ::
  "('w \<Rightarrow> dispute_mem) \<Rightarrow> ((dispute_mem \<Rightarrow> dispute_mem) \<Rightarrow> 'w \<Rightarrow> 'w) \<Rightarrow> 'w dispute_store" where
  "dispute_mem_store get upd =
     \<lparr>ds_Create = (\<lambda>c d. zoom get upd (dis_mem_Create c d)),
      ds_Get = (\<lambda>c i. zoom get upd (dis_mem_Get c i)),
      ds_GetActiveByTransactionID = (\<lambda>c i. zoom get upd (dis_mem_GetActiveByTransactionID c i)),
      ds_ListConcludedByTransactionID =
        (\<lambda>c i. zoom get upd (dis_mem_ListConcludedByTransactionID c i)),
      ds_ListForParticipant = (\<lambda>c u. zoom get upd (dis_mem_ListForParticipant c u)),
      ds_Update = (\<lambda>c d v. zoom get upd (dis_mem_Update c d v)),
      ds_AppendEvidence = (\<lambda>c e. zoom get upd (dis_mem_AppendEvidence c e)),
      ds_ListEvidence = (\<lambda>c i. zoom get upd (dis_mem_ListEvidence c i))\<rparr>"

text \<open>
  The optional dependency on the deliveries is the one call \<open>observeDelivery\<close> makes. The window of the
  policy is what \<open>NewService\<close> normalised.
\<close>

record 'w dispute_service =
  dsv_store :: "'w dispute_store option"
  dsv_txns :: "(ctx \<Rightarrow> ID \<Rightarrow> ('w, TransactionRef) go) option"
  dsv_deliveries :: "(ctx \<Rightarrow> ID \<Rightarrow> ('w, DeliveryRef) go) option"
  dsv_policy :: duration
  dsv_now :: "'w \<Rightarrow> 'w \<times> time"
  dsv_rand :: "'w \<Rightarrow> 'w \<times> ID option"
  dsv_tx :: "'w transactor option"
  dsv_outbox :: "'w enqueuer option"

record dispute_input =
  xi_ReasonCode :: string
  xi_Statement :: "string option"

record evidence_input =
  ei_EvidenceType :: string
  ei_Title :: string
  ei_Description :: "string option"
  ei_ReferenceValue :: "string option"

definition dis_mapTxnErr :: "go_error \<Rightarrow> go_error" where
  [err_defs]: "dis_mapTxnErr err =
     (if err = TxnCErr TxnC_ErrZeroID then DisErr Dis_errZeroID
      else if err = TxnCErr TxnC_ErrNotFound then DisErr Dis_errNotFound
      else if ctx_error err then err
      else DisErr Dis_errUnavailable)"

definition dis_mapStoreErr :: "go_error \<Rightarrow> go_error" where
  [err_defs]: "dis_mapStoreErr err =
     (if ctx_error err then err
      else if err = DisErr Dis_errNotFound \<or> err = DbErr Db_ErrNoRows then DisErr Dis_errNotFound
      else if err = DisErr Dis_errConflict \<or> err = DbErr Db_ErrConflict then DisErr Dis_errConflict
      else if err = DisErr Dis_errUnavailable \<or> err = DbErr Db_ErrUnavailable
        then DisErr Dis_errUnavailable
      else if err \<in> DisErr ` {Dis_errStoreRequired, Dis_errZeroID, Dis_errInvalidDispute,
            Dis_errInvalidStatus, Dis_errInvalidTransition, Dis_errInvalidReason,
            Dis_errInvalidStatement, Dis_errInvalidResolution, Dis_errInvalidEvidence,
            Dis_errInvalidPolicy, Dis_errForbidden, Dis_errNotEligible, Dis_errConcluded,
            Dis_errWindowClosed}
        then err
      else DisErr Dis_errUnavailable)"

definition dis_svc_get :: "'w dispute_service \<Rightarrow> ctx \<Rightarrow> ID \<Rightarrow> ('w, dispute) go" where
  "dis_svc_get s c i =
     gneed (dsv_store s) (DisErr Dis_errStoreRequired) (\<lambda>st.
       if ID_IsZero i then gfail (DisErr Dis_errZeroID)
       else gmaperr dis_mapStoreErr (ds_Get st c i))"

definition dis_authorizeParticipant :: "'w dispute_service \<Rightarrow> ctx \<Rightarrow> ID \<Rightarrow> ID \<Rightarrow> ('w, dispute) go" where
  "dis_authorizeParticipant s c actorUserID disputeID =
     gbind (dis_svc_get s c disputeID) (\<lambda>current.
       if \<not> dis_Participant current actorUserID then gfail (DisErr Dis_errNotFound)
       else gret current)"

definition dis_svc_Get :: "'w dispute_service \<Rightarrow> ctx \<Rightarrow> ID \<Rightarrow> ID \<Rightarrow> ('w, dispute) go" where
  "dis_svc_Get s c userID disputeID = dis_authorizeParticipant s c userID disputeID"

definition dis_svc_GetInternal :: "'w dispute_service \<Rightarrow> ctx \<Rightarrow> ID \<Rightarrow> ('w, dispute) go" where
  "dis_svc_GetInternal s c disputeID = dis_svc_get s c disputeID"

definition dis_svc_ListMine :: "'w dispute_service \<Rightarrow> ctx \<Rightarrow> ID \<Rightarrow> ('w, dispute list) go" where
  "dis_svc_ListMine s c userID =
     gneed (dsv_store s) (DisErr Dis_errStoreRequired) (\<lambda>st.
       if ID_IsZero userID then gfail (DisErr Dis_errZeroID)
       else gmaperr dis_mapStoreErr (ds_ListForParticipant st c userID))"

definition dis_getTransaction :: "'w dispute_service \<Rightarrow> ctx \<Rightarrow> ID \<Rightarrow> ('w, TransactionRef) go" where
  "dis_getTransaction s c transactionID =
     gneed (dsv_txns s) (DisErr Dis_errUnavailable) (\<lambda>getTxn.
       gmaperr dis_mapTxnErr (getTxn c transactionID))"

definition dis_assertWindow :: "'w dispute_service \<Rightarrow> TransactionRef \<Rightarrow> ('w, unit) go" where
  "dis_assertWindow s ref =
     (let anchor = tr_DisputeAnchor ref
      in if time_IsZero anchor then gfail (DisErr Dis_errNotEligible)
         else gread (dsv_now s) (\<lambda>now.
           if time_Sub (time_UTC now) anchor > dsv_policy s then gfail (DisErr Dis_errWindowClosed)
           else gret ()))"

definition dis_observeDelivery :: "'w dispute_service \<Rightarrow> ctx \<Rightarrow> string \<Rightarrow> ID \<Rightarrow> ('w, unit) go" where
  "dis_observeDelivery s c reason transactionID =
     (case dsv_deliveries s of
        None \<Rightarrow> gret ()
      | Some getDelivery \<Rightarrow>
          if reason \<noteq> ReasonNonDelivery then gret ()
          else gcase (getDelivery c transactionID) (\<lambda>_. gret ()) (\<lambda>_. gret ()))"

definition dis_enqueueUpdated :: "'w dispute_service \<Rightarrow> ctx \<Rightarrow> dispute \<Rightarrow> ID \<Rightarrow> ('w, unit) go" where
  "dis_enqueueUpdated s c d actorUserID =
     enqueue_event dis_mapStoreErr (dsv_outbox s) c (dis_encodeUpdated d actorUserID)"

definition dis_runMaybeTx :: "'w dispute_service \<Rightarrow> ctx \<Rightarrow> (ctx \<Rightarrow> ('w, 'a) go) \<Rightarrow> ('w, 'a) go" where
  "dis_runMaybeTx s = run_maybe_tx dis_mapStoreErr (dsv_outbox s) (dsv_tx s)"

definition dis_create_of :: "TransactionRef \<Rightarrow> ID \<Rightarrow> dispute_input \<Rightarrow> dispute_create" where
  "dis_create_of ref actorUserID inp =
     \<lparr>xc_TransactionID = tr_ID ref, xc_RequesterUserID = tr_RequesterUserID ref,
      xc_ProviderUserID = tr_ProviderUserID ref, xc_OpenedByUserID = actorUserID,
      xc_ReasonCode = xi_ReasonCode inp, xc_Statement = xi_Statement inp\<rparr>"

definition dis_svc_CreateForTransaction ::
  "'w dispute_service \<Rightarrow> ctx \<Rightarrow> ID \<Rightarrow> ID \<Rightarrow> dispute_input \<Rightarrow> ('w, dispute) go" where
  "dis_svc_CreateForTransaction s c actorUserID transactionID inp =
     gneed (dsv_store s) (DisErr Dis_errStoreRequired) (\<lambda>st.
     if ID_IsZero actorUserID \<or> ID_IsZero transactionID then gfail (DisErr Dis_errZeroID)
     else gbind (dis_getTransaction s c transactionID) (\<lambda>ref.
     if \<not> tr_Participant ref actorUserID then gfail (DisErr Dis_errNotFound)
     else gcase (ds_GetActiveByTransactionID st c transactionID)
       (\<lambda>err.
         if err \<noteq> DisErr Dis_errNotFound then gfail (dis_mapStoreErr err)
         else gbind (gmaperr dis_mapStoreErr (ds_ListConcludedByTransactionID st c transactionID))
           (\<lambda>concluded.
         if concluded \<noteq> [] then gfail (DisErr Dis_errConcluded)
         else if \<not> tr_MayOpenDispute ref then gfail (DisErr Dis_errNotEligible)
         else gbind (dis_assertWindow s ref) (\<lambda>_.
           gbind (dis_observeDelivery s c (xi_ReasonCode inp) transactionID) (\<lambda>_.
           gread (dsv_now s) (\<lambda>now. gread (dsv_rand s) (\<lambda>entropy.
           gbind (gpure (dis_CreateOpen (dis_create_of ref actorUserID inp) (time_UTC now) entropy))
             (\<lambda>created.
           gcase (dis_runMaybeTx s c (\<lambda>c.
               gcase (ds_Create st c created) (\<lambda>e. gfail (dis_mapStoreErr e)) (\<lambda>_.
               dis_enqueueUpdated s c created actorUserID)))
             (\<lambda>err.
               if err = DisErr Dis_errConflict then
                 gcase (ds_GetActiveByTransactionID st c transactionID)
                   (\<lambda>_. gfail (DisErr Dis_errConflict)) gret
               else gfail err)
             (\<lambda>_. gret created))))))))
       gret))"

definition dis_apply ::
  "'w dispute_service \<Rightarrow> ctx \<Rightarrow> dispute \<Rightarrow> ID \<Rightarrow> (dispute \<Rightarrow> time \<Rightarrow> (dispute \<times> bool) res) \<Rightarrow>
   ('w, dispute) go" where
  "dis_apply s c current actorUserID fn =
     gread (dsv_now s) (\<lambda>now.
     gbind (gpure (fn current (time_UTC now))) (\<lambda>(nxt, changed).
     if \<not> changed then gret current
     else gneed (dsv_store s) (DisErr Dis_errStoreRequired) (\<lambda>st.
       gcase (dis_runMaybeTx s c (\<lambda>c.
           gcase (ds_Update st c nxt (d_UpdatedAt current)) (\<lambda>e. gfail (dis_mapStoreErr e)) (\<lambda>_.
           dis_enqueueUpdated s c nxt actorUserID)))
         (\<lambda>err.
           if err \<noteq> DisErr Dis_errConflict then gfail err
           else gbind (dis_svc_get s c (d_ID current)) (\<lambda>latest.
             gread (dsv_now s) (\<lambda>now.
             gbind (gpure (fn latest (time_UTC now))) (\<lambda>(_, againChanged).
             if \<not> againChanged then gret latest else gfail (DisErr Dis_errConflict)))))
         (\<lambda>_. gret nxt))))"

definition dis_applyParticipant ::
  "'w dispute_service \<Rightarrow> ctx \<Rightarrow> ID \<Rightarrow> ID \<Rightarrow> (dispute \<Rightarrow> time \<Rightarrow> (dispute \<times> bool) res) \<Rightarrow>
   ('w, dispute) go" where
  "dis_applyParticipant s c actorUserID disputeID fn =
     gbind (dis_authorizeParticipant s c actorUserID disputeID) (\<lambda>current.
       dis_apply s c current actorUserID fn)"

definition dis_svc_Withdraw :: "'w dispute_service \<Rightarrow> ctx \<Rightarrow> ID \<Rightarrow> ID \<Rightarrow> ('w, dispute) go" where
  "dis_svc_Withdraw s c actorUserID disputeID =
     dis_applyParticipant s c actorUserID disputeID dis_Withdraw"

definition dis_svc_StartReview :: "'w dispute_service \<Rightarrow> ctx \<Rightarrow> ID \<Rightarrow> ('w, dispute) go" where
  "dis_svc_StartReview s c disputeID =
     gbind (dis_svc_get s c disputeID) (\<lambda>current. dis_apply s c current zero_id dis_StartReview)"

definition dis_svc_Resolve :: "'w dispute_service \<Rightarrow> ctx \<Rightarrow> ID \<Rightarrow> string \<Rightarrow> ('w, dispute) go" where
  "dis_svc_Resolve s c disputeID code =
     gbind (dis_svc_get s c disputeID) (\<lambda>current. dis_apply s c current zero_id (dis_Resolve code))"

definition dis_svc_Close :: "'w dispute_service \<Rightarrow> ctx \<Rightarrow> ID \<Rightarrow> ('w, dispute) go" where
  "dis_svc_Close s c disputeID =
     gbind (dis_svc_get s c disputeID) (\<lambda>current. dis_apply s c current zero_id dis_Close)"

definition dis_appendEvidence ::
  "'w dispute_service \<Rightarrow> ctx \<Rightarrow> dispute \<Rightarrow> evidence_command \<Rightarrow> ('w, evidence) go" where
  "dis_appendEvidence s c d cmd =
     (if \<not> dis_AcceptsEvidence d then gfail (DisErr Dis_errInvalidTransition)
      else gread (dsv_now s) (\<lambda>now. gread (dsv_rand s) (\<lambda>entropy.
        gbind (gpure (dis_CreateEvidence cmd (time_UTC now) entropy)) (\<lambda>created.
        gneed (dsv_store s) (DisErr Dis_errStoreRequired) (\<lambda>st.
          gcase (ds_AppendEvidence st c created) (\<lambda>e. gfail (dis_mapStoreErr e))
            (\<lambda>_. gret created))))))"

definition dis_svc_AddEvidence ::
  "'w dispute_service \<Rightarrow> ctx \<Rightarrow> ID \<Rightarrow> ID \<Rightarrow> evidence_input \<Rightarrow> ('w, evidence) go" where
  "dis_svc_AddEvidence s c actorUserID disputeID inp =
     gbind (dis_authorizeParticipant s c actorUserID disputeID) (\<lambda>d.
     if ei_EvidenceType inp = EvidenceInternalReference then gfail (DisErr Dis_errInvalidEvidence)
     else let role = dis_RoleOf d actorUserID
     in if role = [] then gfail (DisErr Dis_errNotFound)
     else dis_appendEvidence s c d
       \<lparr>ec_DisputeID = d_ID d, ec_EvidenceType = ei_EvidenceType inp, ec_Title = ei_Title inp,
        ec_Description = ei_Description inp, ec_ReferenceValue = ei_ReferenceValue inp,
        ec_ActorUserID = Some actorUserID, ec_ActorRole = role\<rparr>)"

definition dis_svc_AddInternalEvidence ::
  "'w dispute_service \<Rightarrow> ctx \<Rightarrow> ID \<Rightarrow> evidence_input \<Rightarrow> ID option \<Rightarrow> ('w, evidence) go" where
  "dis_svc_AddInternalEvidence s c disputeID inp actorStaffID =
     gbind (dis_svc_get s c disputeID) (\<lambda>d.
     let ty = (if ei_EvidenceType inp = [] then EvidenceInternalReference else ei_EvidenceType inp)
     in if ty \<noteq> EvidenceInternalReference then gfail (DisErr Dis_errInvalidEvidence)
     else dis_appendEvidence s c d
       \<lparr>ec_DisputeID = d_ID d, ec_EvidenceType = EvidenceInternalReference, ec_Title = ei_Title inp,
        ec_Description = ei_Description inp, ec_ReferenceValue = ei_ReferenceValue inp,
        ec_ActorUserID = actorStaffID, ec_ActorRole = RoleInternal\<rparr>)"

definition dis_listEvidence :: "'w dispute_service \<Rightarrow> ctx \<Rightarrow> ID \<Rightarrow> ('w, evidence list) go" where
  "dis_listEvidence s c disputeID =
     gneed (dsv_store s) (DisErr Dis_errStoreRequired) (\<lambda>st.
       gmaperr dis_mapStoreErr (ds_ListEvidence st c disputeID))"

definition dis_svc_ListEvidence :: "'w dispute_service \<Rightarrow> ctx \<Rightarrow> ID \<Rightarrow> ID \<Rightarrow> ('w, evidence list) go" where
  "dis_svc_ListEvidence s c userID disputeID =
     gbind (dis_authorizeParticipant s c userID disputeID) (\<lambda>_. dis_listEvidence s c disputeID)"

definition dis_svc_ListEvidenceInternal :: "'w dispute_service \<Rightarrow> ctx \<Rightarrow> ID \<Rightarrow> ('w, evidence list) go" where
  "dis_svc_ListEvidenceInternal s c disputeID =
     gbind (dis_svc_get s c disputeID) (\<lambda>_. dis_listEvidence s c disputeID)"

section \<open>The read surface for other packages\<close>

record DisputeRef =
  xr_ID :: ID
  xr_TransactionID :: ID
  xr_ReasonCode :: string
  xr_Status :: string
  xr_ResolutionCode :: "string option"

definition toDisputeRef :: "dispute \<Rightarrow> DisputeRef" where
  "toDisputeRef d =
     \<lparr>xr_ID = d_ID d, xr_TransactionID = d_TransactionID d, xr_ReasonCode = d_ReasonCode d,
      xr_Status = d_Status d, xr_ResolutionCode = d_ResolutionCode d\<rparr>"

definition mapDisputeLookupErr :: "go_error \<Rightarrow> go_error" where
  [err_defs]: "mapDisputeLookupErr err =
     (if err = DisErr Dis_errZeroID then DisCErr DisC_ErrZeroID
      else if err = DisErr Dis_errNotFound then DisCErr DisC_ErrNotFound
      else if ctx_error err then err
      else DisCErr DisC_ErrUnavailable)"

definition dis_GetDispute :: "'w dispute_service \<Rightarrow> ctx \<Rightarrow> ID \<Rightarrow> ('w, DisputeRef) go" where
  "dis_GetDispute s c disputeID =
     gcase (dis_svc_get s c disputeID) (\<lambda>err. gfail (mapDisputeLookupErr err))
       (\<lambda>d. gret (toDisputeRef d))"

section \<open>Domain operations\<close>

definition dis_base_valid :: "dispute \<Rightarrow> bool" where
  "dis_base_valid d \<longleftrightarrow>
     \<not> ID_IsZero (d_ID d) \<and> \<not> ID_IsZero (d_TransactionID d) \<and> \<not> ID_IsZero (d_RequesterUserID d) \<and>
     \<not> ID_IsZero (d_ProviderUserID d) \<and> \<not> ID_IsZero (d_OpenedByUserID d) \<and>
     d_RequesterUserID d \<noteq> d_ProviderUserID d \<and>
     (d_RequesterUserID d = d_OpenedByUserID d \<or> d_ProviderUserID d = d_OpenedByUserID d) \<and>
     dis_reason_valid (d_ReasonCode d) \<and>
     (\<forall>s. d_Statement d = Some s \<longrightarrow> (\<exists>v. normalizeStatement s = Inr v)) \<and> d_CreatedAt d \<noteq> 0"

lemma dis_Validate_split:
  "dis_Validate d = None \<longleftrightarrow>
     dis_base_valid d \<and> dis_status_valid (d_Status d) \<and> d_CreatedAt d \<le> d_UpdatedAt d \<and>
     dis_validateStamps d = None"
  by (auto simp: dis_Validate_def dis_base_valid_def dis_Participant_def
      split: sum.splits option.splits if_splits)

lemma dis_stamps_None:
  "dis_validateStamps d = None \<longleftrightarrow>
     (d_Status d = DisOpen \<or> d_Status d = DisUnderReview \<or> d_Status d = DisWithdrawn \<longrightarrow>
        d_ResolvedAt d = None \<and> d_ResolutionCode d = None) \<and>
     (d_Status d = DisResolved \<or> d_Status d = DisClosed \<longrightarrow>
        (\<exists>x code. d_ResolvedAt d = Some x \<and> d_ResolutionCode d = Some code \<and>
           dis_resolution_valid code \<and> d_CreatedAt d \<le> x))"
  by (auto simp: dis_validateStamps_def split: option.splits if_splits)

lemma dis_upd_simps [simp]:
  "dis_base_valid (d\<lparr>d_Status := s\<rparr>) = dis_base_valid d"
  "dis_base_valid (d\<lparr>d_UpdatedAt := u\<rparr>) = dis_base_valid d"
  "dis_base_valid (d\<lparr>d_ResolvedAt := x\<rparr>) = dis_base_valid d"
  "dis_base_valid (d\<lparr>d_ResolutionCode := y\<rparr>) = dis_base_valid d"
  by (simp_all add: dis_base_valid_def)

lemmas dis_op_defs = dis_StartReview_def dis_Resolve_def dis_Close_def dis_Withdraw_def

lemma dis_ops_valid:
  assumes v: "dis_Validate d = None" and t: "d_CreatedAt d \<le> now"
  shows "dis_StartReview d now =
      (if d_Status d = DisUnderReview then Inr (d, False)
       else if d_Status d = DisOpen
         then Inr (d\<lparr>d_Status := DisUnderReview, d_UpdatedAt := now\<rparr>, True)
       else Inl (DisErr Dis_errInvalidTransition))" (is ?S)
    and "dis_Resolve code d now =
      (if \<not> dis_resolution_valid code then Inl (DisErr Dis_errInvalidResolution)
       else if d_Status d = DisResolved then
         (if d_ResolutionCode d = Some code then Inr (d, False) else Inl (DisErr Dis_errConflict))
       else if d_Status d = DisUnderReview
         then Inr (d\<lparr>d_Status := DisResolved, d_UpdatedAt := now, d_ResolvedAt := Some now,
           d_ResolutionCode := Some code\<rparr>, True)
       else Inl (DisErr Dis_errInvalidTransition))" (is ?R)
    and "dis_Close d now =
      (if d_Status d = DisClosed then Inr (d, False)
       else if d_Status d = DisResolved
         then Inr (d\<lparr>d_Status := DisClosed, d_UpdatedAt := now\<rparr>, True)
       else Inl (DisErr Dis_errInvalidTransition))" (is ?C)
    and "dis_Withdraw d now =
      (if d_Status d = DisWithdrawn then Inr (d, False)
       else if d_Status d = DisOpen
         then Inr (d\<lparr>d_Status := DisWithdrawn, d_UpdatedAt := now\<rparr>, True)
       else Inl (DisErr Dis_errInvalidTransition))" (is ?W)
proof -
  note v' = v [unfolded dis_Validate_split dis_stamps_None]
  note sp = dis_Validate_split dis_stamps_None dis_status_valid_def
  have 1: "d_Status d = DisOpen \<Longrightarrow> dis_Validate (d\<lparr>d_Status := DisUnderReview, d_UpdatedAt := now\<rparr>) = None"
    using v' t by (simp add: sp)
  show ?S using 1 by (simp add: dis_StartReview_def dis_withStatus_def)
  have 2: "dis_resolution_valid code \<Longrightarrow> d_Status d = DisUnderReview \<Longrightarrow> dis_Validate
      (d\<lparr>d_Status := DisResolved, d_UpdatedAt := now, d_ResolvedAt := Some now, d_ResolutionCode := Some code\<rparr>) = None"
    using v' t by (simp add: sp)
  show ?R using 2 by (simp add: dis_Resolve_def dis_withStatus_def Let_def)
  have 3: "d_Status d = DisResolved \<Longrightarrow> dis_Validate (d\<lparr>d_Status := DisClosed, d_UpdatedAt := now\<rparr>) = None"
    using v' t by (simp add: sp)
  show ?C using 3 by (simp add: dis_Close_def dis_withStatus_def)
  have 4: "d_Status d = DisOpen \<Longrightarrow> dis_Validate (d\<lparr>d_Status := DisWithdrawn, d_UpdatedAt := now\<rparr>) = None"
    using v' t by (simp add: sp)
  show ?W using 4 by (simp add: dis_Withdraw_def dis_withStatus_def)
qed

text \<open>What the service may store over a dispute, and how far the dispute has come.\<close>

definition dis_opr :: "time \<Rightarrow> dispute \<Rightarrow> dispute \<Rightarrow> bool" where
  "dis_opr now d n \<longleftrightarrow>
     dis_StartReview d now = Inr (n, True) \<or> (\<exists>code. dis_Resolve code d now = Inr (n, True)) \<or>
     dis_Close d now = Inr (n, True) \<or> dis_Withdraw d now = Inr (n, True)"

definition dis_rank :: "string \<Rightarrow> nat" where
  "dis_rank s =
     (if s = DisOpen then 0 else if s = DisUnderReview then 1 else if s = DisResolved then 2
      else if s = DisClosed then 3 else 4)"

definition dis_frame :: "dispute \<Rightarrow> dispute \<Rightarrow> bool" where
  "dis_frame d n \<longleftrightarrow>
     d_TransactionID n = d_TransactionID d \<and> d_RequesterUserID n = d_RequesterUserID d \<and>
     d_ProviderUserID n = d_ProviderUserID d \<and> d_OpenedByUserID n = d_OpenedByUserID d \<and>
     d_ReasonCode n = d_ReasonCode d \<and> d_Statement n = d_Statement d \<and> d_CreatedAt n = d_CreatedAt d \<and>
     (dis_status_Active (d_Status n) \<longrightarrow> dis_status_Active (d_Status d)) \<and>
     (\<forall>code. d_ResolutionCode d = Some code \<longrightarrow> d_ResolutionCode n = Some code)"

lemma dis_changed:
  shows "dis_StartReview d now = Inr (n, True) \<Longrightarrow> d_Status d = DisOpen \<and> dis_Validate n = None \<and>
      n = d\<lparr>d_Status := DisUnderReview, d_UpdatedAt := now\<rparr>"
    and "dis_Resolve code d now = Inr (n, True) \<Longrightarrow> d_Status d = DisUnderReview \<and> dis_Validate n = None \<and>
      n = d\<lparr>d_Status := DisResolved, d_UpdatedAt := now, d_ResolvedAt := Some now, d_ResolutionCode := Some code\<rparr>"
    and "dis_Close d now = Inr (n, True) \<Longrightarrow> d_Status d = DisResolved \<and> dis_Validate n = None \<and>
      n = d\<lparr>d_Status := DisClosed, d_UpdatedAt := now\<rparr>"
    and "dis_Withdraw d now = Inr (n, True) \<Longrightarrow> d_Status d = DisOpen \<and> dis_Validate n = None \<and>
      n = d\<lparr>d_Status := DisWithdrawn, d_UpdatedAt := now\<rparr>"
  by (simp_all add: dis_op_defs dis_withStatus_def Let_def split: if_splits option.splits)

text \<open>On a valid dispute an operation also keeps a resolution that was given.\<close>

definition dis_opr_valid :: "time \<Rightarrow> dispute \<Rightarrow> dispute \<Rightarrow> bool" where
  "dis_opr_valid now d n \<longleftrightarrow> dis_Validate d = None \<and> dis_opr now d n"

lemma dis_oprD:
  assumes "dis_opr_valid now d n"
  shows "d_ID n = d_ID d" "d_UpdatedAt n = now" "dis_frame d n" "dis_Validate n = None"
    "\<not> dis_status_Terminal (d_Status d)" "dis_rank (d_Status d) < dis_rank (d_Status n)"
proof -
  have "dis_validateStamps d = None" and op: "dis_opr now d n"
    using assms by (simp_all add: dis_opr_valid_def dis_Validate_split)
  then have none: "d_Status d = DisOpen \<or> d_Status d = DisUnderReview \<Longrightarrow> d_ResolutionCode d = None"
    by (auto simp: dis_stamps_None)
  have st: "dis_Validate n = None \<and> \<not> dis_status_Terminal (d_Status d) \<and>
      dis_rank (d_Status d) < dis_rank (d_Status n) \<and> d_ID n = d_ID d \<and> d_UpdatedAt n = now \<and> dis_frame d n"
    using op none unfolding dis_opr_def
    by (auto dest!: dis_changed simp: dis_status_Terminal_def dis_rank_def dis_frame_def dis_status_Active_def)
  then show "d_ID n = d_ID d" "d_UpdatedAt n = now" "dis_frame d n" "dis_Validate n = None"
    "\<not> dis_status_Terminal (d_Status d)" "dis_rank (d_Status d) < dis_rank (d_Status n)"
    by blast+
qed

text \<open>All that can still happen to a concluded dispute is that it is closed, if it was resolved.\<close>

definition dis_concluded_kept :: "dispute \<Rightarrow> dispute \<Rightarrow> bool" where
  "dis_concluded_kept x y \<longleftrightarrow> (dis_status_Concluded (d_Status x) \<longrightarrow>
     y = x \<or> d_Status x = DisResolved \<and> y = x\<lparr>d_Status := DisClosed, d_UpdatedAt := d_UpdatedAt y\<rparr>)"

definition dis_forward :: "dispute \<Rightarrow> dispute \<Rightarrow> bool" where
  "dis_forward x y \<longleftrightarrow>
     d_ID y = d_ID x \<and> dis_frame x y \<and> dis_concluded_kept x y \<and>
     (y = x \<or> dis_rank (d_Status x) < dis_rank (d_Status y))"

lemma dis_frame_trans: "dis_frame x y \<Longrightarrow> dis_frame y z \<Longrightarrow> dis_frame x z"
  by (simp add: dis_frame_def)

lemma dis_concluded_kept_trans:
  assumes "dis_concluded_kept x y" and "dis_concluded_kept y z"
  shows "dis_concluded_kept x z"
proof (cases "dis_status_Concluded (d_Status x) \<and> y \<noteq> x")
  case True
  then have y: "d_Status x = DisResolved" "y = x\<lparr>d_Status := DisClosed, d_UpdatedAt := d_UpdatedAt y\<rparr>"
    using assms(1) by (auto simp: dis_concluded_kept_def)
  have "d_Status y = DisClosed" by (subst y(2)) simp
  then have "z = y" using assms(2) by (auto simp: dis_concluded_kept_def dis_status_Concluded_def)
  then show ?thesis using assms(1) by simp
qed (use assms in \<open>auto simp: dis_concluded_kept_def\<close>)

lemma dis_forward_refl [simp]: "dis_forward d d"
  by (simp add: dis_forward_def dis_frame_def dis_concluded_kept_def)

lemma dis_forward_trans: "dis_forward x y \<Longrightarrow> dis_forward y z \<Longrightarrow> dis_forward x z"
  by (auto simp: dis_forward_def intro: dis_frame_trans dis_concluded_kept_trans)

lemma dis_opr_concluded: "dis_opr_valid now x y \<Longrightarrow> dis_concluded_kept x y"
  by (auto simp: dis_opr_valid_def dis_opr_def dis_concluded_kept_def dis_status_Concluded_def dest!: dis_changed)

lemma dis_opr_forward: "dis_opr_valid now x y \<Longrightarrow> dis_forward x y"
  by (auto simp: dis_forward_def dest: dis_oprD dis_opr_concluded)

section \<open>The store keeps the contract\<close>

abbreviation dis_table :: "dispute_mem \<Rightarrow> ID \<Rightarrow> dispute option" where
  "dis_table m \<equiv> map_of (dm_byID m)"

text \<open>
  At most one dispute of a Transaction is active, and the evidence belongs to a stored dispute, is
  valid and has distinct identifiers.
\<close>

definition dis_mem_inv :: "dispute_mem \<Rightarrow> bool" where
  "dis_mem_inv m \<longleftrightarrow> wf_map (dm_byID m) \<and>
     (\<forall>k d. dis_table m k = Some d \<longrightarrow> d_ID d = k \<and> dis_Validate d = None) \<and>
     (\<forall>k l a b. dis_table m k = Some a \<longrightarrow> dis_table m l = Some b \<longrightarrow>
        d_TransactionID a = d_TransactionID b \<longrightarrow> dis_status_Active (d_Status a) \<longrightarrow>
        dis_status_Active (d_Status b) \<longrightarrow> k = l) \<and>
     (\<forall>k. evidence_of m k \<noteq> [] \<longrightarrow> dis_table m k \<noteq> None) \<and>
     (\<forall>k. \<forall>e \<in> set (evidence_of m k). e_DisputeID e = k \<and> evidence_Validate e = None) \<and>
     (\<forall>k. distinct (map e_ID (evidence_of m k)))"

lemma dis_mem_inv_new [simp]: "dis_mem_inv dis_NewMemoryStore"
  by (simp add: dis_mem_inv_def dis_NewMemoryStore_def evidence_of_def)

lemma dis_mem_invD:
  assumes "dis_mem_inv m"
  shows "wf_map (dm_byID m)"
    and "dis_table m k = Some d \<Longrightarrow> d_ID d = k"
    and "dis_table m k = Some d \<Longrightarrow> dis_Validate d = None"
    and "dis_table m k = Some a \<Longrightarrow> dis_table m l = Some b \<Longrightarrow> d_TransactionID a = d_TransactionID b \<Longrightarrow>
      dis_status_Active (d_Status a) \<Longrightarrow> dis_status_Active (d_Status b) \<Longrightarrow> k = l"
    and "evidence_of m k \<noteq> [] \<Longrightarrow> dis_table m k \<noteq> None"
    and "e \<in> set (evidence_of m k) \<Longrightarrow> e_DisputeID e = k \<and> evidence_Validate e = None"
    and "distinct (map e_ID (evidence_of m k))"
  using assms by (simp_all add: dis_mem_inv_def)

lemma evidence_of_byID [simp]: "evidence_of (m\<lparr>dm_byID := x\<rparr>) = evidence_of m"
  by (simp add: evidence_of_def fun_eq_iff)

lemma dis_mem_invI:
  assumes "wf_map (dm_byID m)"
    and "\<And>k d. dis_table m k = Some d \<Longrightarrow> d_ID d = k \<and> dis_Validate d = None"
    and "\<And>k l a b. dis_table m k = Some a \<Longrightarrow> dis_table m l = Some b \<Longrightarrow>
      d_TransactionID a = d_TransactionID b \<Longrightarrow> dis_status_Active (d_Status a) \<Longrightarrow>
      dis_status_Active (d_Status b) \<Longrightarrow> k = l"
    and "\<And>k. evidence_of m k \<noteq> [] \<Longrightarrow> dis_table m k \<noteq> None"
    and "\<And>k e. e \<in> set (evidence_of m k) \<Longrightarrow> e_DisputeID e = k \<and> evidence_Validate e = None"
    and "\<And>k. distinct (map e_ID (evidence_of m k))"
  shows "dis_mem_inv m"
  unfolding dis_mem_inv_def by (intro conjI allI impI ballI) (use assms in blast)+

text \<open>Storing a valid dispute keeps the invariant if no other dispute of its Transaction is active with it.\<close>

lemma dis_mem_inv_put:
  assumes inv: "dis_mem_inv m" and v: "dis_Validate d = None"
    and one: "\<And>k x. dis_status_Active (d_Status d) \<Longrightarrow> dis_table m k = Some x \<Longrightarrow>
      d_TransactionID x = d_TransactionID d \<Longrightarrow> dis_status_Active (d_Status x) \<Longrightarrow> k = d_ID d"
  shows "dis_mem_inv (m\<lparr>dm_byID := AList.update (d_ID d) d (dm_byID m)\<rparr>)"
proof (rule dis_mem_invI)
  let ?m = "m\<lparr>dm_byID := AList.update (d_ID d) d (dm_byID m)\<rparr>"
  note D = dis_mem_invD [OF inv]
  show "wf_map (dm_byID ?m)" using D(1) by simp
  show "d_ID x = k \<and> dis_Validate x = None" if "dis_table ?m k = Some x" for k x
    using that D(2,3) v by (simp split: if_splits)
  show "k = l" if "dis_table ?m k = Some a" "dis_table ?m l = Some b" "d_TransactionID a = d_TransactionID b"
    "dis_status_Active (d_Status a)" "dis_status_Active (d_Status b)" for k l a b
  proof (cases "k = d_ID d"; cases "l = d_ID d")
    assume "k = d_ID d" "l \<noteq> d_ID d"
    then show ?thesis using that one [of l b] by simp
  next
    assume "k \<noteq> d_ID d" "l = d_ID d"
    then show ?thesis using that one [of k a] by simp
  next
    assume "k \<noteq> d_ID d" "l \<noteq> d_ID d"
    then show ?thesis using that D(4) [of k a l b] by simp
  qed simp
  show "dis_table ?m k \<noteq> None" if "evidence_of ?m k \<noteq> []" for k
    using that D(5) [of k] by simp
  show "e_DisputeID e = k \<and> evidence_Validate e = None" if "e \<in> set (evidence_of ?m k)" for k e
    using that D(6) [of e k] by simp
  show "distinct (map e_ID (evidence_of ?m k))" for k using D(7) [of k] by simp
qed

lemma dis_mem_Create_ok:
  assumes "dis_mem_inv m"
  shows "dis_mem_Create c d m = (m', Inr u) \<longleftrightarrow>
     ctx_Err c = None \<and> dm_fail m = None \<and> dis_Validate d = None \<and> dis_table m (d_ID d) = None \<and>
     (dis_status_Active (d_Status d) \<longrightarrow>
        (\<forall>k x. dis_table m k = Some x \<longrightarrow> d_TransactionID x = d_TransactionID d \<longrightarrow>
           \<not> dis_status_Active (d_Status x))) \<and>
     m' = m\<lparr>dm_byID := AList.update (d_ID d) d (dm_byID m)\<rparr>"
proof -
  let ?P = "\<lambda>x. d_TransactionID x = d_TransactionID d \<and> dis_status_Active (d_Status x)"
  have "(\<exists>x \<in> set (map snd (dm_byID m)). ?P x) \<longleftrightarrow> (\<exists>k x. dis_table m k = Some x \<and> ?P x)"
    unfolding set_map Bex_def wf_map_snd [OF dis_mem_invD(1) [OF assms]] by blast
  moreover define A where "A \<longleftrightarrow> dis_status_Active (d_Status d) \<and> (\<exists>k x. dis_table m k = Some x \<and> ?P x)"
  ultimately have "dis_mem_Create c d m =
     gguard (ctx_Err c) (gguard (dm_fail m) (gguard (dis_Validate d)
       (if dis_table m (d_ID d) \<noteq> None then gfail (DisErr Dis_errConflict)
        else if A then gfail (DisErr Dis_errConflict)
        else (\<lambda>m. (m\<lparr>dm_byID := AList.update (d_ID d) d (dm_byID m)\<rparr>, Inr ()))))) m"
    unfolding dis_mem_Create_def by (simp only: cloneDispute_id)
  then have "dis_mem_Create c d m = (m', Inr u) \<longleftrightarrow>
     ctx_Err c = None \<and> dm_fail m = None \<and> dis_Validate d = None \<and> dis_table m (d_ID d) = None \<and>
     \<not> A \<and> m' = m\<lparr>dm_byID := AList.update (d_ID d) d (dm_byID m)\<rparr>"
    by (auto simp: gguard_def split: option.splits)
  then show ?thesis unfolding A_def by blast
qed

lemma dis_mem_Create_err: "dis_mem_Create c d m = (m', Inl e) \<Longrightarrow> m' = m"
  by (auto simp: dis_mem_Create_def gguard_def split: option.splits if_splits)

lemma dis_mem_Create_inv:
  assumes inv: "dis_mem_inv m" and cr: "dis_mem_Create c d m = (m', Inr u)"
  shows "dis_mem_inv m'"
proof -
  note ok = cr [unfolded dis_mem_Create_ok [OF inv]]
  have "dis_mem_inv (m\<lparr>dm_byID := AList.update (d_ID d) d (dm_byID m)\<rparr>)"
    by (rule dis_mem_inv_put [OF inv]) (use ok in blast)+
  then show ?thesis using ok by simp
qed

lemma dis_mem_Get_eq:
  "dis_mem_Get c i m =
     (m, case ctx_Err c of Some e \<Rightarrow> Inl e | None \<Rightarrow>
         case dm_fail m of Some e \<Rightarrow> Inl e | None \<Rightarrow>
         case dis_table m i of None \<Rightarrow> Inl (DisErr Dis_errNotFound) | Some d \<Rightarrow> Inr d)"
  by (simp add: dis_mem_Get_def gguard_def split: option.split)

lemma dis_mem_Update_ok:
  "dis_mem_Update c d v m = (m', Inr u) \<longleftrightarrow>
     ctx_Err c = None \<and> dm_fail m = None \<and> dis_Validate d = None \<and>
     (\<exists>cur. dis_table m (d_ID d) = Some cur \<and> d_UpdatedAt cur = v) \<and>
     m' = m\<lparr>dm_byID := AList.update (d_ID d) d (dm_byID m)\<rparr>"
  by (auto simp: dis_mem_Update_def gguard_def split: option.splits)

lemma dis_mem_Update_err: "dis_mem_Update c d v m = (m', Inl e) \<Longrightarrow> m' = m"
  by (auto simp: dis_mem_Update_def gguard_def split: option.splits if_splits)

lemma dis_mem_Update_inv:
  assumes inv: "dis_mem_inv m" and up: "dis_mem_Update c n v m = (m', Inr u)"
    and cur: "dis_table m (d_ID n) = Some d" and fr: "dis_frame d n"
  shows "dis_mem_inv m'"
proof -
  have ok: "m' = m\<lparr>dm_byID := AList.update (d_ID n) n (dm_byID m)\<rparr>" "dis_Validate n = None"
    using up by (simp_all add: dis_mem_Update_ok)
  have "k = d_ID n" if "dis_status_Active (d_Status n)" "dis_table m k = Some x"
    "d_TransactionID x = d_TransactionID n" "dis_status_Active (d_Status x)" for k x
    using dis_mem_invD(4) [OF inv that(2) cur] that fr by (simp add: dis_frame_def)
  from dis_mem_inv_put [OF inv ok(2) this] show ?thesis using ok(1) by simp
qed

lemma dis_mem_AppendEvidence_ok:
  "dis_mem_AppendEvidence c e m = (m', Inr u) \<longleftrightarrow>
     ctx_Err c = None \<and> dm_fail m = None \<and> evidence_Validate e = None \<and>
     dis_table m (e_DisputeID e) \<noteq> None \<and> e_ID e \<notin> set (map e_ID (evidence_of m (e_DisputeID e))) \<and>
     m' = m\<lparr>dm_evidence := AList.update (e_DisputeID e) (evidence_of m (e_DisputeID e) @ [e]) (dm_evidence m)\<rparr>"
  unfolding dis_mem_AppendEvidence_def by (auto simp: gguard_def split: option.splits)

lemma dis_mem_AppendEvidence_evidence:
  assumes "dis_mem_AppendEvidence c e m = (m', Inr u)"
  shows "evidence_of m' = (evidence_of m)(e_DisputeID e := evidence_of m (e_DisputeID e) @ [e])"
  using assms unfolding dis_mem_AppendEvidence_ok by (simp add: fun_eq_iff evidence_of_def)

lemma dis_mem_AppendEvidence_inv:
  assumes inv: "dis_mem_inv m" and ap: "dis_mem_AppendEvidence c e m = (m', Inr u)"
  shows "dis_mem_inv m'"
proof -
  note ok = ap [unfolded dis_mem_AppendEvidence_ok]
  note D = dis_mem_invD [OF inv] and ev = dis_mem_AppendEvidence_evidence [OF ap]
  have tab: "dm_byID m' = dm_byID m" using ok by simp
  show ?thesis
  proof (rule dis_mem_invI, unfold tab)
    show "wf_map (dm_byID m)" by (rule D(1))
    show "d_ID x = k \<and> dis_Validate x = None" if "dis_table m k = Some x" for k x
      using that D(2,3) by simp
    show "k = l" if "dis_table m k = Some a" "dis_table m l = Some b" "d_TransactionID a = d_TransactionID b"
      "dis_status_Active (d_Status a)" "dis_status_Active (d_Status b)" for k l a b
      using D(4) that by blast
    show "dis_table m k \<noteq> None" if "evidence_of m' k \<noteq> []" for k
      using that D(5) [of k] ok ev by (simp split: if_splits)
    show "e_DisputeID x = k \<and> evidence_Validate x = None" if "x \<in> set (evidence_of m' k)" for k x
      using that D(6) [of x k] ok ev by (auto split: if_splits)
    show "distinct (map e_ID (evidence_of m' k))" for k
      using D(7) [of k] D(7) [of "e_DisputeID e"] ok ev by simp
  qed
qed

text \<open>With the invariant, \<open>GetActiveByTransactionID\<close> finds the active dispute of the Transaction.\<close>

lemma dis_mem_GetActive_cases:
  assumes inv: "dis_mem_inv m" and "ctx_Err c = None" and "dm_fail m = None"
  obtains (found) d where "dis_mem_GetActiveByTransactionID c f m = (m, Inr d)"
      "dis_table m (d_ID d) = Some d" "d_TransactionID d = f" "dis_status_Active (d_Status d)"
    | (missing) "dis_mem_GetActiveByTransactionID c f m = (m, Inl (DisErr Dis_errNotFound))"
      "\<And>k d. dis_table m k = Some d \<Longrightarrow> d_TransactionID d = f \<Longrightarrow> \<not> dis_status_Active (d_Status d)"
proof (cases "find (\<lambda>d. d_TransactionID d = f \<and> dis_status_Active (d_Status d)) (map snd (dm_byID m))")
  case None
  then have 1: "dis_mem_GetActiveByTransactionID c f m = (m, Inl (DisErr Dis_errNotFound))"
    using assms by (simp add: dis_mem_GetActiveByTransactionID_def)
  have "\<not> dis_status_Active (d_Status d)" if "dis_table m k = Some d" "d_TransactionID d = f" for k d
    using None that map_of_SomeD [OF that(1)] by (force simp: find_None_iff)
  with 1 show ?thesis by (rule missing)
next
  case (Some d)
  then have "d \<in> snd ` set (dm_byID m)" "d_TransactionID d = f" "dis_status_Active (d_Status d)"
    using nth_mem [of _ "map snd (dm_byID m)"] by (auto simp: find_Some_iff)
  moreover obtain k where "dis_table m k = Some d"
    using wf_map_snd [OF dis_mem_invD(1) [OF inv]] calculation(1) by blast
  moreover have "dis_mem_GetActiveByTransactionID c f m = (m, Inr d)"
    using Some assms by (simp add: dis_mem_GetActiveByTransactionID_def)
  ultimately show ?thesis using found dis_mem_invD(2) [OF inv, of k d] by simp
qed

interpretation dis_mem: occ_store d_ID d_UpdatedAt dis_Validate dis_frame dis_table
  dis_mem_inv "dis_mem_Create c" "dis_mem_Get c" "dis_mem_Update c" for c
proof (unfold_locales, goal_cases)
  case (1 s k s' e)
  then show ?case by (auto simp: dis_mem_Get_eq split: option.splits)
next
  case (2 s k s' x)
  then show ?case by (simp add: dis_mem_Get_eq)
next
  case (3 s e s' u)
  then show ?case
    using dis_mem_Create_inv [of s c e s' u] by (simp add: dis_mem_Create_ok)
next
  case (4 s e s' x)
  then show ?case using dis_mem_Create_err by blast
next
  case (5 s e v s' u)
  then show ?case by (auto simp: dis_mem_Update_ok)
next
  case (6 s e v s' u cur)
  then show ?case using dis_mem_Update_inv by blast
next
  case (7 s e v s' x)
  then show ?case using dis_mem_Update_err by blast
qed (auto simp: dis_mem_invD)

abbreviation dis_step :: "ctx \<Rightarrow> (dispute_mem, dispute) conc \<Rightarrow> (dispute_mem, dispute) conc \<Rightarrow> bool" where
  "dis_step c \<equiv> occ_step (dis_mem_Create c) (dis_mem_Get c) (dis_mem_Update c) d_UpdatedAt dis_opr_valid"

section \<open>Samples\<close>

definition sample_dispute :: "string \<Rightarrow> dispute" where
  "sample_dispute s =
     \<lparr>d_ID = id_n 80, d_TransactionID = id_n 50, d_RequesterUserID = id_n 2, d_ProviderUserID = id_n 3,
      d_OpenedByUserID = id_n 2, d_ReasonCode = ReasonNonDelivery, d_Statement = None, d_Status = s,
      d_ResolutionCode = None, d_CreatedAt = 40, d_UpdatedAt = 40, d_ResolvedAt = None\<rparr>"

lemma sample_dispute_fields [simp]:
  "d_ID (sample_dispute s) = id_n 80" "d_Status (sample_dispute s) = s"
  "d_CreatedAt (sample_dispute s) = 40" "d_UpdatedAt (sample_dispute s) = 40"
  "d_TransactionID (sample_dispute s) = id_n 50"
  by (simp_all add: sample_dispute_def)

lemma sample_dispute_valid [simp]:
  "dis_Validate (sample_dispute DisOpen) = None" "dis_Validate (sample_dispute DisUnderReview) = None"
  by (simp_all add: dis_Validate_split dis_stamps_None dis_base_valid_def dis_status_valid_def
      sample_dispute_def dis_reason_valid_def)

definition sample_dispute_mem :: "string \<Rightarrow> dispute_mem" where
  "sample_dispute_mem s = \<lparr>dm_byID = [(id_n 80, sample_dispute s)], dm_evidence = [], dm_fail = None\<rparr>"

lemma sample_dispute_mem_inv [simp]: "dis_mem_inv (sample_dispute_mem DisOpen)"
  by (simp add: dis_mem_inv_def sample_dispute_mem_def wf_map_def evidence_of_def)

definition sample_evidence :: evidence where
  "sample_evidence =
     \<lparr>e_ID = id_n 90, e_DisputeID = id_n 80, e_EvidenceType = EvidencePartyStatement, e_Title = ''a'',
      e_Description = None, e_ReferenceValue = None, e_ActorUserID = Some (id_n 2),
      e_ActorRole = RoleRequester, e_CreatedAt = 41\<rparr>"

lemma sample_evidence_valid [simp]: "evidence_Validate sample_evidence = None"
proof -
  have a: "strings_TrimSpace ''a'' = ''a''" by (simp add: TrimSpace_graphic graphic_def)
  have "runes ''a'' = map (\<lambda>c. (byte_of c, [c])) ''a''" by (rule runes_ascii) simp
  then have "utf8_RuneCountInString ''a'' = 1" by (simp add: utf8_RuneCountInString_def)
  with a have "normalizeTitle ''a'' = Inr ''a''"
    by (simp add: normalizeTitle_def normalizeOptionalText_def dis_MaxTitleRunes_def)
  then show ?thesis
    by (simp add: evidence_Validate_def sample_evidence_def evidence_type_valid_def optional_text_err_def
        evidence_forbidsReference_def evidence_requiresReference_def)
qed

section \<open>Properties\<close>

text \<open>The life cycle, on every branch. On a valid dispute and a time not before its creation:
  \<open>StartReview\<close> takes open to under review, \<open>Resolve\<close> takes under review to resolved with one of the
  known resolution codes, \<open>Close\<close> takes resolved to closed, \<open>Withdraw\<close> takes open to withdrawn.
  Repeating an operation is reported as no change, except that a second resolution with another code is
  a conflict; every other call is refused.\<close>

theorem dispute_life_cycle:
  assumes "dis_Validate d = None" and "d_CreatedAt d \<le> now"
  shows "dis_StartReview d now =
      (if d_Status d = DisUnderReview then Inr (d, False)
       else if d_Status d = DisOpen
         then Inr (d\<lparr>d_Status := DisUnderReview, d_UpdatedAt := now\<rparr>, True)
       else Inl (DisErr Dis_errInvalidTransition)) \<and>
    dis_Resolve code d now =
      (if \<not> dis_resolution_valid code then Inl (DisErr Dis_errInvalidResolution)
       else if d_Status d = DisResolved then
         (if d_ResolutionCode d = Some code then Inr (d, False) else Inl (DisErr Dis_errConflict))
       else if d_Status d = DisUnderReview
         then Inr (d\<lparr>d_Status := DisResolved, d_UpdatedAt := now, d_ResolvedAt := Some now,
           d_ResolutionCode := Some code\<rparr>, True)
       else Inl (DisErr Dis_errInvalidTransition)) \<and>
    dis_Close d now =
      (if d_Status d = DisClosed then Inr (d, False)
       else if d_Status d = DisResolved
         then Inr (d\<lparr>d_Status := DisClosed, d_UpdatedAt := now\<rparr>, True)
       else Inl (DisErr Dis_errInvalidTransition)) \<and>
    dis_Withdraw d now =
      (if d_Status d = DisWithdrawn then Inr (d, False)
       else if d_Status d = DisOpen
         then Inr (d\<lparr>d_Status := DisWithdrawn, d_UpdatedAt := now\<rparr>, True)
       else Inl (DisErr Dis_errInvalidTransition))"
  using dis_ops_valid [OF assms] by blast

theorem dispute_life_cycle_witness:
  "dis_Withdraw (sample_dispute DisUnderReview) 41 = Inl (DisErr Dis_errInvalidTransition)"
  using dispute_life_cycle [of "sample_dispute DisUnderReview" 41] by simp



text \<open>Storing or updating a dispute changes no evidence.\<close>

lemma dis_mem_writes_evidence:
  assumes inv: "dis_mem_inv m" and w: "dis_mem_Create c d m = (m', r) \<or> dis_mem_Update c d v m = (m', r)"
  shows "evidence_of m' = evidence_of m"
proof -
  have "\<exists>x. m' = m\<lparr>dm_byID := x\<rparr>"
  proof (cases r)
    case (Inl x)
    then have "m' = m" using w dis_mem_Create_err dis_mem_Update_err by blast
    then show ?thesis by (intro exI [of _ "dm_byID m"]) simp
  next
    case (Inr u)
    then show ?thesis using w dis_mem_Create_ok [OF inv] dis_mem_Update_ok by blast
  qed
  then show ?thesis by auto
qed

text \<open>Evidence is append-only. A successful \<open>AppendEvidence\<close> adds exactly that piece to what
  \<open>ListEvidence\<close> returns for its dispute, oldest first, and changes neither the evidence of another
  dispute nor any dispute; what is listed is valid, belongs to the dispute and has distinct identifiers;
  and storing or updating a dispute changes no evidence.\<close>

theorem dispute_evidence_append_only:
  assumes inv: "dis_mem_inv m" and ap: "dis_mem_AppendEvidence c e m = (m', Inr ())"
  shows "dis_mem_ListEvidence c (e_DisputeID e) m' =
      (m', Inr (oldest_first (evidence_of m (e_DisputeID e) @ [e]))) \<and>
    (\<forall>k. k \<noteq> e_DisputeID e \<longrightarrow> evidence_of m' k = evidence_of m k) \<and> dm_byID m' = dm_byID m \<and>
    (\<forall>k. distinct (map e_ID (evidence_of m' k)) \<and>
      (\<forall>x \<in> set (evidence_of m' k). e_DisputeID x = k \<and> evidence_Validate x = None)) \<and>
    (\<forall>d v m'' r. dis_mem_Create c d m' = (m'', r) \<or> dis_mem_Update c d v m' = (m'', r) \<longrightarrow>
      evidence_of m'' = evidence_of m')"
proof -
  note ok = ap [unfolded dis_mem_AppendEvidence_ok] and ev = dis_mem_AppendEvidence_evidence [OF ap]
  have inv': "dis_mem_inv m'" by (rule dis_mem_AppendEvidence_inv [OF inv ap])
  have "map cloneEvidence xs = xs" for xs by (induction xs) simp_all
  then have "dis_mem_ListEvidence c (e_DisputeID e) m' =
      (m', Inr (oldest_first (evidence_of m (e_DisputeID e) @ [e])))"
    using ok ev by (simp add: dis_mem_ListEvidence_def)
  moreover have "evidence_of m'' = evidence_of m'"
    if "dis_mem_Create c d m' = (m'', r) \<or> dis_mem_Update c d v m' = (m'', r)" for d v m'' r
    using that by (rule dis_mem_writes_evidence [OF inv'])
  moreover have "dm_byID m' = dm_byID m" using ok by simp
  moreover have "\<forall>k. distinct (map e_ID (evidence_of m' k)) \<and>
      (\<forall>x \<in> set (evidence_of m' k). e_DisputeID x = k \<and> evidence_Validate x = None)"
    using dis_mem_invD(6,7) [OF inv'] by blast
  moreover have "\<forall>k. k \<noteq> e_DisputeID e \<longrightarrow> evidence_of m' k = evidence_of m k" using ev by simp
  ultimately show ?thesis by blast
qed

theorem dispute_evidence_append_only_witness:
  "\<exists>m'. dis_mem_AppendEvidence background sample_evidence (sample_dispute_mem DisOpen) = (m', Inr ()) \<and>
     dis_mem_ListEvidence background (id_n 80) m' = (m', Inr (oldest_first [sample_evidence]))"
proof -
  have i: "e_DisputeID sample_evidence = id_n 80" by (simp add: sample_evidence_def)
  obtain m' where m': "dis_mem_AppendEvidence background sample_evidence (sample_dispute_mem DisOpen) = (m', Inr ())"
    by (simp add: dis_mem_AppendEvidence_ok background_def sample_dispute_mem_def i evidence_of_def)
  moreover have "evidence_of (sample_dispute_mem DisOpen) (id_n 80) = []"
    by (simp add: sample_dispute_mem_def evidence_of_def)
  ultimately show ?thesis
    using dispute_evidence_append_only [OF sample_dispute_mem_inv m'] i by auto
qed

end
