(* ===== verification/Pg_Disputes.thy ===== *)
theory Pg_Disputes
  imports Disputes Pg "HOL-Library.Multiset"
begin

text \<open>
  The Postgres store of the package \<open>disputes\<close> (\<open>postgres.go\<close>) on the two tables of migration
  \<open>000049_disputes_core\<close>, and that it does with disputes what the in-memory store does.
\<close>

section \<open>The tables\<close>

definition dis_row :: "pg_codec \<Rightarrow> dispute \<Rightarrow> dispute" where
  "dis_row cd d = d\<lparr>d_CreatedAt := pc_time cd (d_CreatedAt d), d_UpdatedAt := pc_time cd (d_UpdatedAt d),
     d_ResolvedAt := map_option (pc_time cd) (d_ResolvedAt d)\<rparr>"

definition text_check :: "nat \<Rightarrow> string option \<Rightarrow> bool" where
  "text_check mx s \<longleftrightarrow>
     (case s of None \<Rightarrow> True | Some t \<Rightarrow> 1 \<le> utf8_RuneCountInString t \<and> utf8_RuneCountInString t \<le> mx)"

definition dis_check :: "dispute \<Rightarrow> bool" where
  "dis_check d \<longleftrightarrow>
     dis_reason_valid (d_ReasonCode d) \<and> dis_status_valid (d_Status d) \<and>
     (case d_ResolutionCode d of None \<Rightarrow> True | Some code \<Rightarrow> dis_resolution_valid code) \<and>
     text_check 2000 (d_Statement d) \<and> d_CreatedAt d \<le> d_UpdatedAt d \<and>
     d_RequesterUserID d \<noteq> d_ProviderUserID d \<and>
     (d_OpenedByUserID d = d_RequesterUserID d \<or> d_OpenedByUserID d = d_ProviderUserID d) \<and>
     (d_Status d \<in> {DisOpen, DisUnderReview, DisWithdrawn} \<and> d_ResolvedAt d = None \<and>
        d_ResolutionCode d = None \<or>
      d_Status d \<in> {DisResolved, DisClosed} \<and> d_ResolutionCode d \<noteq> None \<and>
        (case d_ResolvedAt d of None \<Rightarrow> False | Some x \<Rightarrow> d_CreatedAt d \<le> x))"

text \<open>The partial unique index: one active dispute per Transaction.\<close>

definition dis_clash :: "dispute \<Rightarrow> dispute \<Rightarrow> bool" where
  "dis_clash d e \<longleftrightarrow> d_TransactionID d = d_TransactionID e \<and>
     d_Status d \<in> {DisOpen, DisUnderReview} \<and> d_Status e \<in> {DisOpen, DisUnderReview}"

definition evidence_row :: "pg_codec \<Rightarrow> evidence \<Rightarrow> evidence" where
  "evidence_row cd e = e\<lparr>e_CreatedAt := pc_time cd (e_CreatedAt e)\<rparr>"

definition evidence_check :: "evidence \<Rightarrow> bool" where
  "evidence_check e \<longleftrightarrow>
     evidence_type_valid (e_EvidenceType e) \<and> text_check 200 (Some (e_Title e)) \<and>
     text_check 2000 (e_Description e) \<and> text_check 512 (e_ReferenceValue e) \<and>
     e_ActorRole e \<in> {RoleRequester, RoleProvider, RoleInternal} \<and>
     (e_EvidenceType e = EvidencePartyStatement \<and> e_ReferenceValue e = None \<or>
      e_EvidenceType e \<in> {EvidenceExternalReference, EvidenceInternalReference} \<and>
        e_ReferenceValue e \<noteq> None)"

section \<open>The store\<close>

definition dis_mapDBErr :: "go_error \<Rightarrow> go_error" where
  [err_defs]: "dis_mapDBErr err =
     (if err = DbErr Db_ErrNoRows then DisErr Dis_errNotFound
      else if err = DbErr Db_ErrConflict then DisErr Dis_errConflict
      else if ctx_error err then err
      else DisErr Dis_errUnavailable)"

type_synonym 'd dis_lens = "('d, (ID, dispute) gomap) lens"
type_synonym 'd evidence_lens = "('d, (ID, evidence) gomap) lens"

definition dis_pg_Create :: "pg_codec \<Rightarrow> 'd dis_lens \<Rightarrow> ctx \<Rightarrow> dispute \<Rightarrow> ('d pg, unit) go" where
  "dis_pg_Create cd l c d =
     gguard (dis_Validate d) (pg_create dis_mapDBErr l d_ID dis_check dis_clash c (dis_row cd d))"

definition dis_pg_Get :: "'d dis_lens \<Rightarrow> ctx \<Rightarrow> ID \<Rightarrow> ('d pg, dispute) go" where
  "dis_pg_Get l c i = pg_get dis_mapDBErr l c (\<lambda>d. d_ID d = i)"

definition dis_pg_GetActiveByTransactionID :: "'d dis_lens \<Rightarrow> ctx \<Rightarrow> ID \<Rightarrow> ('d pg, dispute) go" where
  "dis_pg_GetActiveByTransactionID l c transactionID =
     pg_get dis_mapDBErr l c
       (\<lambda>d. d_TransactionID d = transactionID \<and> d_Status d \<in> {DisOpen, DisUnderReview})"

definition dis_pg_ListConcludedByTransactionID :: "'d dis_lens \<Rightarrow> ctx \<Rightarrow> ID \<Rightarrow> ('d pg, dispute list) go" where
  "dis_pg_ListConcludedByTransactionID l c transactionID =
     pg_list dis_mapDBErr l c
       (\<lambda>d. d_TransactionID d = transactionID \<and> d_Status d \<in> {DisResolved, DisClosed})
       (newest_first d_CreatedAt d_ID)"

definition dis_pg_ListForParticipant :: "'d dis_lens \<Rightarrow> ctx \<Rightarrow> ID \<Rightarrow> ('d pg, dispute list) go" where
  "dis_pg_ListForParticipant l c userID =
     pg_list dis_mapDBErr l c (\<lambda>d. d_RequesterUserID d = userID \<or> d_ProviderUserID d = userID)
       (newest_first d_CreatedAt d_ID)"

definition dis_set :: "dispute \<Rightarrow> dispute \<Rightarrow> dispute" where
  "dis_set d r = r\<lparr>d_Status := d_Status d, d_ResolutionCode := d_ResolutionCode d,
     d_UpdatedAt := d_UpdatedAt d, d_ResolvedAt := d_ResolvedAt d\<rparr>"

definition dis_pg_Update :: "pg_codec \<Rightarrow> 'd dis_lens \<Rightarrow> ctx \<Rightarrow> dispute \<Rightarrow> time \<Rightarrow> ('d pg, unit) go" where
  "dis_pg_Update cd l c d expectedUpdatedAt =
     gguard (dis_Validate d)
       (pg_occ_update dis_mapDBErr (DisErr Dis_errConflict) l d_ID dis_check dis_clash c (d_ID d)
          (\<lambda>r. d_UpdatedAt r = pc_time cd expectedUpdatedAt) (dis_set (dis_row cd d)))"

text \<open>
  The foreign key of the evidence table refuses evidence for an unknown dispute, after the row itself
  has been checked.
\<close>

definition dis_pg_AppendEvidence ::
  "pg_codec \<Rightarrow> 'd dis_lens \<Rightarrow> 'd evidence_lens \<Rightarrow> ctx \<Rightarrow> evidence \<Rightarrow> ('d pg, unit) go" where
  "dis_pg_AppendEvidence cd l le c e =
     gguard (evidence_Validate e) (gmaperr dis_mapDBErr (pool_Exec c (\<lambda>d.
       case on_table (fst le) (snd le)
              (pg_insert e_ID evidence_check (\<lambda>_ _. False) (evidence_row cd e)) d of
         (d', Inl err) \<Rightarrow> (d, Inl err)
       | (d', Inr u) \<Rightarrow>
           if map_of (fst l d) (e_DisputeID e) = None then (d, Inl Pg_Other) else (d', Inr u))))"

definition dis_pg_ListEvidence :: "'d evidence_lens \<Rightarrow> ctx \<Rightarrow> ID \<Rightarrow> ('d pg, evidence list) go" where
  "dis_pg_ListEvidence le c disputeID =
     pg_list dis_mapDBErr le c (\<lambda>e. e_DisputeID e = disputeID) oldest_first"

definition dis_pg_store :: "pg_codec \<Rightarrow> 'd dis_lens \<Rightarrow> 'd evidence_lens \<Rightarrow> 'd pg dispute_store" where
  "dis_pg_store cd l le =
     \<lparr>ds_Create = dis_pg_Create cd l, ds_Get = dis_pg_Get l,
      ds_GetActiveByTransactionID = dis_pg_GetActiveByTransactionID l,
      ds_ListConcludedByTransactionID = dis_pg_ListConcludedByTransactionID l,
      ds_ListForParticipant = dis_pg_ListForParticipant l, ds_Update = dis_pg_Update cd l,
      ds_AppendEvidence = dis_pg_AppendEvidence cd l le, ds_ListEvidence = dis_pg_ListEvidence le\<rparr>"

section \<open>It does what the in-memory store does\<close>

text \<open>A dispute is storable when it and what the columns make of it are valid and its statement is in the
  normal form in which \<open>CreateOpen\<close> leaves it.\<close>

definition dis_storable :: "pg_codec \<Rightarrow> dispute \<Rightarrow> bool" where
  "dis_storable cd d \<longleftrightarrow> dis_Validate d = None \<and> dis_Validate (dis_row cd d) = None \<and>
     cloneNormalizedStatement (d_Statement d) = Inr (d_Statement d)"

lemma dis_row_fields [simp]:
  "d_ID (dis_row cd d) = d_ID d" "d_TransactionID (dis_row cd d) = d_TransactionID d"
  "d_Statement (dis_row cd d) = d_Statement d" "d_Status (dis_row cd d) = d_Status d"
  by (simp_all add: dis_row_def)

lemma dis_set_txn: "d_TransactionID (dis_set d r) = d_TransactionID r"
  by (simp add: dis_set_def)

lemma text_check_normal:
  "normalizeOptionalText s mx e = Inr s \<Longrightarrow> text_check mx (Some s)"
  using rune_count_pos [of s]
  by (auto simp: normalizeOptionalText_def text_check_def Let_def split: if_splits)

lemma dis_check_valid:
  assumes "dis_Validate d = None" and "cloneNormalizedStatement (d_Statement d) = Inr (d_Statement d)"
  shows "dis_check d"
proof -
  note v = assms(1) [unfolded dis_Validate_split]
  have "text_check 2000 (d_Statement d)"
  proof (cases "d_Statement d")
    case (Some s)
    then have "normalizeOptionalText s 2000 (DisErr Dis_errInvalidStatement) = Inr s"
      using assms(2) by (auto simp: cloneNormalizedStatement_def cloneNormalizedOptional_def
          dis_MaxStatementRunes_def split: sum.splits)
    then show ?thesis using Some text_check_normal by simp
  qed (simp add: text_check_def)
  then show ?thesis
    using v unfolding dis_stamps_None dis_check_def dis_base_valid_def dis_status_valid_def
    by (elim conjE disjE) (auto split: option.splits)
qed

lemma dis_storableD:
  assumes "dis_storable cd d"
  shows "dis_Validate d = None" "dis_Validate (dis_row cd d) = None" "dis_check (dis_row cd d)"
  using assms by (auto simp: dis_storable_def dis_check_valid)

lemma dis_clash_active:
  "dis_clash d e \<longleftrightarrow> d_TransactionID d = d_TransactionID e \<and> dis_status_Active (d_Status d) \<and>
     dis_status_Active (d_Status e)"
  by (auto simp: dis_clash_def dis_status_Active_def)

lemma dis_clash_iff:
  "list_ex (\<lambda>s. dis_clash d (snd s)) rows \<longleftrightarrow> dis_status_Active (d_Status d) \<and>
     (\<exists>x \<in> set (map snd rows). d_TransactionID x = d_TransactionID d \<and> dis_status_Active (d_Status x))"
  by (induction rows) (auto simp: dis_clash_active)

interpretation dis_pg: table_store dm_byID "\<lambda>m. dis_mem_inv m \<and> dm_fail m = None" d_ID d_UpdatedAt
  "\<lambda>d. dis_Validate d = None" dis_clash
  "\<lambda>cur d. d_TransactionID cur = d_TransactionID d \<and>
     (dis_status_Active (d_Status d) \<longrightarrow> dis_status_Active (d_Status cur))"
  "DisErr Dis_errNotFound" "DisErr Dis_errConflict" dis_mem_Create dis_mem_Get dis_mem_Update
proof (unfold_locales, goal_cases)
  case (3 m c r m' res)
  have inv: "res = Inr () \<Longrightarrow> dis_mem_inv m'" "\<And>e. res = Inl e \<Longrightarrow> m' = m"
    using 3 dis_mem_Create_inv [of m c r m' "()"] dis_mem_Create_err [of c r m m'] by auto
  have "dis_mem_Create c r m =
      (if dis_table m (d_ID r) \<noteq> None \<or> list_ex (\<lambda>s. dis_clash r (snd s)) (dm_byID m)
       then (m, Inl (DisErr Dis_errConflict))
       else (m\<lparr>dm_byID := AList.update (d_ID r) r (dm_byID m)\<rparr>, Inr ()))"
    using 3(1-3) unfolding dis_clash_iff by (simp add: dis_mem_Create_def)
  with 3(1,4) inv show ?case by (auto split: if_splits)
next
  case (4 m c k)
  then show ?case by (simp add: dis_mem_Get_eq)
next
  case (5 m c d v m' res)
  show ?case
  proof (cases "dis_table m (d_ID d)")
    case None
    then show ?thesis using 5(1-4) by (auto simp: dis_mem_Update_def)
  next
    case (Some cur)
    have inv: "dis_mem_inv m" and fr: "d_TransactionID cur = d_TransactionID d"
      "dis_status_Active (d_Status d) \<longrightarrow> dis_status_Active (d_Status cur)" using 5(1,5) Some by auto
    have one: "k = d_ID d" if "dis_status_Active (d_Status d)" "dis_table m k = Some x"
      "d_TransactionID x = d_TransactionID d" "dis_status_Active (d_Status x)" for k x
      using dis_mem_invD(4) [OF inv that(2) Some] that fr by simp
    have free: "\<not> list_ex (\<lambda>s. fst s \<noteq> d_ID d \<and> dis_clash d (snd s)) (dm_byID m)"
      unfolding rows_ex [OF dis_mem_invD(1) [OF inv], of "\<lambda>k r. k \<noteq> d_ID d \<and> dis_clash d r"]
      unfolding dis_clash_active using one by metis
    have "dis_mem_inv (m\<lparr>dm_byID := AList.update (d_ID d) d (dm_byID m)\<rparr>)"
      by (rule dis_mem_inv_put [OF inv 5(3) one])
    moreover have "dis_mem_Update c d v m =
        (if d_UpdatedAt cur \<noteq> v then (m, Inl (DisErr Dis_errConflict))
         else (m\<lparr>dm_byID := AList.update (d_ID d) d (dm_byID m)\<rparr>, Inr ()))"
      using 5(1-3) Some by (simp add: dis_mem_Update_def)
    ultimately show ?thesis using 5(1,4) free Some by (auto split: if_splits)
  qed
qed (auto simp: dis_mem_invD)

lemma dis_mapDBErr_simps [simp]:
  "dis_mapDBErr (DbErr Db_ErrNoRows) = DisErr Dis_errNotFound"
  "dis_mapDBErr (DbErr Db_ErrConflict) = DisErr Dis_errConflict"
  by (simp_all add: dis_mapDBErr_def)

lemma active_in: "s \<in> {DisOpen, DisUnderReview} \<longleftrightarrow> dis_status_Active s"
  by (auto simp: dis_status_Active_def)

lemmas dis_pg_defs = dis_pg_Create_def dis_pg_Get_def dis_pg_GetActiveByTransactionID_def
  dis_pg_ListConcludedByTransactionID_def dis_pg_ListForParticipant_def dis_pg_Update_def

section \<open>Evidence\<close>

text \<open>
  The in-memory store keeps the evidence of each dispute in a list of its own, the table keeps all of it under the
  identifiers of the pieces. They agree when every dispute has the same pieces in both.
\<close>

definition evidence_sim :: "'d evidence_lens \<Rightarrow> dispute_mem \<Rightarrow> 'd pg \<Rightarrow> bool" where
  "evidence_sim le m w \<longleftrightarrow>
     wf_map (fst le (pg_data w)) \<and> (\<forall>k e. map_of (fst le (pg_data w)) k = Some e \<longrightarrow> e_ID e = k) \<and>
     (\<forall>k. mset (filter (\<lambda>e. e_DisputeID e = k) (map snd (fst le (pg_data w)))) = mset (evidence_of m k))"

definition dis_store_sim :: "'d dis_lens \<Rightarrow> 'd evidence_lens \<Rightarrow> dispute_mem \<Rightarrow> 'd pg \<Rightarrow> bool" where
  "dis_store_sim l le m w \<longleftrightarrow> dis_pg.sim l m w \<and> evidence_sim le m w"

text \<open>Two tables of one database.\<close>

definition lenses_apart :: "('d, 'a) lens \<Rightarrow> ('d, 'b) lens \<Rightarrow> bool" where
  "lenses_apart l k \<longleftrightarrow> (\<forall>f d. fst l (snd k f d) = fst l d) \<and> (\<forall>f d. fst k (snd l f d) = fst k d)"

lemma lenses_apartD:
  assumes "lenses_apart l k"
  shows "fst l (snd k f d) = fst l d" and "fst k (snd l g d) = fst k d"
  using assms by (auto simp: lenses_apart_def)

lemma pg_create_apart:
  assumes "pg_up c w" and "lenses_apart l le" and "pg_create mp l key chk clash c r w = (w', res)"
  shows "fst le (pg_data w') = fst le (pg_data w)"
  using assms(3) lenses_apartD [OF assms(2)]
  by (auto simp: pg_create_def gmaperr_apply pool_up [OF assms(1)] split: prod.splits sum.splits)

lemma pg_get_apart:
  assumes "pg_up c w" and "lenses_apart l le" and "pg_get mp l c p w = (w', res)"
  shows "fst le (pg_data w') = fst le (pg_data w)"
  using assms(3) lenses_apartD [OF assms(2)]
  by (auto simp: pg_get_def gmaperr_apply pool_up [OF assms(1)] split: prod.splits sum.splits)

lemma pg_list_apart:
  assumes "pg_up c w" and "lenses_apart l le" and "pg_list mp l c p order w = (w', res)"
  shows "fst le (pg_data w') = fst le (pg_data w)"
  using assms(3) lenses_apartD [OF assms(2)]
  by (auto simp: pg_list_def gmaperr_apply pool_up [OF assms(1)] split: prod.splits sum.splits)

lemma pg_occ_update_apart:
  assumes up: "pg_up c w" and ap: "lenses_apart l le"
    and run: "pg_occ_update mp e l key chk clash c k cond asg w = (w', res)"
  shows "fst le (pg_data w') = fst le (pg_data w)"
proof -
  obtain w1 x where x: "pool_Exec c (on_table (fst l) (snd l) (pg_update k cond asg chk clash)) w = (w1, x)"
    by fastforce
  have 1: "fst le (pg_data w1) = fst le (pg_data w)"
    using x lenses_apartD [OF ap] by (auto simp: pool_up [OF up] split: prod.splits sum.splits)
  have "pg_up c w1" if "x = Inr n" for n
    using x that up by (auto simp: pool_up [OF up] pg_up_def split: prod.splits sum.splits)
  then show ?thesis
    using run x 1 pg_get_apart [OF _ ap]
    by (auto simp: pg_occ_update_def gcase_apply gbind_apply split: sum.splits if_splits prod.splits)
qed

lemma oldest_first_mset:
  assumes "mset xs = mset ys" and "distinct (map e_ID ys)"
  shows "oldest_first xs = oldest_first ys"
proof -
  have "set xs = set ys" using assms(1) by (rule mset_eq_setD)
  then have "inj_on (\<lambda>e. (e_CreatedAt e, e_ID e)) (set xs)"
    using assms(2) by (auto simp: distinct_map inj_on_def)
  then show ?thesis
    unfolding oldest_first_def using assms(1) by (intro sort_key_inj_key_eq) simp_all
qed

lemma update_new: "map_of rows k = None \<Longrightarrow> AList.update k v rows = rows @ [(k, v)]"
  by (induction rows) (auto split: if_splits)

text \<open>A piece of evidence is storable when it and what the columns make of it are valid and its texts are in the
  normal form in which the service leaves them.\<close>

definition evidence_storable :: "pg_codec \<Rightarrow> evidence \<Rightarrow> bool" where
  "evidence_storable cd e \<longleftrightarrow> evidence_Validate e = None \<and> evidence_Validate (evidence_row cd e) = None \<and>
     cloneNormalizedOptional (e_Description e) dis_MaxDescriptionRunes (DisErr Dis_errInvalidEvidence) = Inr (e_Description e) \<and>
     cloneNormalizedOptional (e_ReferenceValue e) dis_MaxReferenceRunes (DisErr Dis_errInvalidEvidence) = Inr (e_ReferenceValue e)"

lemma text_check_optional: "cloneNormalizedOptional s mx err = Inr s \<Longrightarrow> text_check mx s"
  by (cases s) (auto simp: cloneNormalizedOptional_def intro: text_check_normal simp: text_check_def [of _ None] split: sum.splits)

lemma evidence_row_fields [simp]:
  "e_ID (evidence_row cd e) = e_ID e" "e_DisputeID (evidence_row cd e) = e_DisputeID e"
  "e_EvidenceType (evidence_row cd e) = e_EvidenceType e" "e_Title (evidence_row cd e) = e_Title e"
  "e_Description (evidence_row cd e) = e_Description e" "e_ReferenceValue (evidence_row cd e) = e_ReferenceValue e"
  "e_ActorRole (evidence_row cd e) = e_ActorRole e"
  by (simp_all add: evidence_row_def)

lemma evidence_storable_check:
  assumes "evidence_storable cd e"
  shows "evidence_check (evidence_row cd e)"
proof -
  have v: "evidence_Validate e = None" using assms by (simp add: evidence_storable_def)
  have "normalizeTitle (e_Title e) = Inr (e_Title e)"
    using v by (auto simp: evidence_Validate_def split: if_splits sum.splits)
  then have "text_check 200 (Some (e_Title e))"
    unfolding normalizeTitle_def dis_MaxTitleRunes_def by (rule text_check_normal)
  moreover have "text_check 2000 (e_Description e)" "text_check 512 (e_ReferenceValue e)"
    using assms text_check_optional unfolding evidence_storable_def dis_MaxDescriptionRunes_def dis_MaxReferenceRunes_def
    by blast+
  moreover have "evidence_type_valid (e_EvidenceType e)" "e_ActorRole e \<in> {RoleRequester, RoleProvider, RoleInternal}"
    "e_EvidenceType e = EvidencePartyStatement \<and> e_ReferenceValue e = None \<or>
      e_EvidenceType e \<in> {EvidenceExternalReference, EvidenceInternalReference} \<and> e_ReferenceValue e \<noteq> None"
    using v by (auto simp: evidence_Validate_def evidence_type_valid_def evidence_forbidsReference_def
      evidence_requiresReference_def split: if_splits sum.splits option.splits)
  ultimately show ?thesis by (simp add: evidence_check_def)
qed

lemma append_evidence_up:
  assumes up: "pg_up c w" and ok: "lens_ok le" and ap: "lenses_apart l le" and e: "evidence_storable cd e"
    and run: "dis_pg_AppendEvidence cd l le c e w = (w', r)"
  shows "if map_of (fst le (pg_data w)) (e_ID e) \<noteq> None then r = Inl (DisErr Dis_errConflict) \<and> pg_data w' = pg_data w
    else if map_of (fst l (pg_data w)) (e_DisputeID e) = None then r = Inl (DisErr Dis_errUnavailable) \<and> pg_data w' = pg_data w
    else r = Inr () \<and> fst l (pg_data w') = fst l (pg_data w) \<and>
      fst le (pg_data w') = fst le (pg_data w) @ [(e_ID e, evidence_row cd e)]"
proof -
  have whole: "on_table (\<lambda>d. d) (\<lambda>f. f) st = st" for st :: "('a, 'b) stmt"
    by (auto simp: on_table_def fun_eq_iff split: prod.split)
  note exec = pool_up(1) [OF up, of "\<lambda>d. d" "\<lambda>f. f", unfolded whole]
  show ?thesis
    using run evidence_storable_check [OF e] e lens_okD [OF ok] lenses_apartD [OF ap]
    by (auto simp: dis_pg_AppendEvidence_def evidence_storable_def gmaperr_apply exec on_table_def pg_insert_def
      mapWriteErr_def dis_mapDBErr_def ctx_error_def update_new list_ex_iff split: if_splits option.splits)
qed

lemma evidence_sim_ids:
  assumes "evidence_sim le m w"
  shows "map_of (fst le (pg_data w)) i \<noteq> None \<longleftrightarrow> (\<exists>k. i \<in> e_ID ` set (evidence_of m k))"
proof -
  let ?rows = "fst le (pg_data w)"
  have s: "set (evidence_of m k) = {e \<in> set (map snd ?rows). e_DisputeID e = k}" for k
  proof -
    have "mset (filter (\<lambda>e. e_DisputeID e = k) (map snd ?rows)) = mset (evidence_of m k)"
      using assms by (simp add: evidence_sim_def)
    from mset_eq_setD [OF this] show ?thesis by auto
  qed
  have "map_of ?rows i \<noteq> None \<longleftrightarrow> (\<exists>e \<in> set (map snd ?rows). e_ID e = i)"
  proof
    assume "map_of ?rows i \<noteq> None"
    then obtain e where e: "map_of ?rows i = Some e" by blast
    have "e \<in> set (map snd ?rows)" using map_of_SomeD [OF e] by force
    moreover have "e_ID e = i" using assms e by (simp add: evidence_sim_def)
    ultimately show "\<exists>e \<in> set (map snd ?rows). e_ID e = i" by blast
  next
    assume "\<exists>e \<in> set (map snd ?rows). e_ID e = i"
    then obtain e where e: "e \<in> set (map snd ?rows)" "e_ID e = i" by blast
    have wf: "wf_map ?rows" using assms by (simp add: evidence_sim_def)
    obtain k where "map_of ?rows k = Some e" using e(1) wf_map_snd [OF wf] by auto
    moreover from this have "k = i" using assms e(2) by (auto simp: evidence_sim_def)
    ultimately show "map_of ?rows i \<noteq> None" by simp
  qed
  then show ?thesis using s by auto
qed

lemma append_evidence_sim:
  assumes sim: "dis_store_sim l le m w" and up: "pg_up c w" and ok: "lens_ok le" and ap: "lenses_apart l le"
    and e: "evidence_storable cd e" and run: "dis_pg_AppendEvidence cd l le c e w = (w', r)"
  shows "if \<exists>k. k \<noteq> e_DisputeID e \<and> e_ID e \<in> e_ID ` set (evidence_of m k)
      then r = Inl (DisErr Dis_errConflict) \<and> pg_data w' = pg_data w
    else if dis_table m (e_DisputeID e) = None
      then r = Inl (DisErr Dis_errUnavailable) \<and> pg_data w' = pg_data w \<and>
        dis_mem_AppendEvidence c (evidence_row cd e) m = (m, Inl (DisErr Dis_errNotFound))
    else \<exists>m'. dis_mem_AppendEvidence c (evidence_row cd e) m = (m', r) \<and> dis_store_sim l le m' w'"
proof -
  let ?e = "evidence_row cd e" and ?rows = "fst le (pg_data w)"
  have d: "dis_mem_inv m" "dm_fail m = None" "fst l (pg_data w) = dm_byID m" and es: "evidence_sim le m w"
    using sim by (auto simp: dis_store_sim_def dis_pg.sim_def)
  have c: "ctx_Err c = None" using up by (simp add: pg_up_def)
  have v: "evidence_Validate ?e = None" using e by (simp add: evidence_storable_def)
  note pg = append_evidence_up [OF up ok ap e run] and ids = evidence_sim_ids [OF es, of "e_ID e"]
  show ?thesis
  proof (cases "\<exists>k. k \<noteq> e_DisputeID e \<and> e_ID e \<in> e_ID ` set (evidence_of m k)")
    case True
    then have "map_of ?rows (e_ID e) \<noteq> None" unfolding ids by blast
    then show ?thesis using pg True by simp
  next
    case other: False
    then have here: "map_of ?rows (e_ID e) \<noteq> None \<longleftrightarrow> e_ID e \<in> e_ID ` set (evidence_of m (e_DisputeID e))"
      unfolding ids by metis
    show ?thesis
    proof (cases "dis_table m (e_DisputeID e)")
      case None
      then have "evidence_of m (e_DisputeID e) = []" using dis_mem_invD(5) [OF d(1)] by blast
      then have "map_of ?rows (e_ID e) = None" using here by simp
      moreover have "dis_mem_AppendEvidence c ?e m = (m, Inl (DisErr Dis_errNotFound))"
        using None c d(2) v by (simp add: dis_mem_AppendEvidence_def)
      ultimately show ?thesis using pg None other d(3) by simp
    next
      case (Some x)
      show ?thesis
      proof (cases "e_ID e \<in> e_ID ` set (evidence_of m (e_DisputeID e))")
        case True
        then have "dis_mem_AppendEvidence c ?e m = (m, Inl (DisErr Dis_errConflict))"
          using Some c d(2) v by (simp add: dis_mem_AppendEvidence_def)
        moreover have "r = Inl (DisErr Dis_errConflict) \<and> pg_data w' = pg_data w" using pg here True by simp
        moreover have "dis_store_sim l le m w'"
          using sim calculation(2) by (simp add: dis_store_sim_def dis_pg.sim_def evidence_sim_def)
        ultimately show ?thesis using other Some by auto
      next
        case False
        then have new: "map_of ?rows (e_ID e) = None" using here by blast
        then have p: "r = Inr ()" "fst l (pg_data w') = dm_byID m" "fst le (pg_data w') = ?rows @ [(e_ID e, ?e)]"
          using pg Some d(3) by simp_all
        define m' where
          "m' = m\<lparr>dm_evidence := AList.update (e_DisputeID e) (evidence_of m (e_DisputeID e) @ [?e]) (dm_evidence m)\<rparr>"
        have run: "dis_mem_AppendEvidence c ?e m = (m', Inr ())"
          unfolding dis_mem_AppendEvidence_ok using Some c d(2) v False by (simp add: m'_def)
        have inv: "dis_mem_inv m'" by (rule dis_mem_AppendEvidence_inv [OF d(1) run])
        have ev: "evidence_of m' = (evidence_of m)(e_DisputeID e := evidence_of m (e_DisputeID e) @ [?e])"
          using dis_mem_AppendEvidence_evidence [OF run] by simp
        have "fst ` set ?rows \<inter> {e_ID e} = {}" using new by (auto simp: map_of_eq_None_iff)
        then have "evidence_sim le m' w'"
          using es p(3) new ev by (auto simp: evidence_sim_def wf_map_def map_add_def split: option.splits)
        moreover have "dis_pg.sim l m' w'" using inv p(2) d(2) by (simp add: dis_pg.sim_def m'_def)
        ultimately show ?thesis using run p(1) other Some by (auto simp: dis_store_sim_def)
      qed
    qed
  qed
qed

lemma list_evidence_sim:
  assumes sim: "dis_store_sim l le m w" and up: "pg_up c w" and ok: "lens_ok le" and ap: "lenses_apart l le"
    and run: "dis_pg_ListEvidence le c i w = (w', r)"
  shows "dis_mem_ListEvidence c i m = (m, r) \<and> dis_store_sim l le m w'"
proof -
  have d: "dis_mem_inv m" "dm_fail m = None" and es: "evidence_sim le m w"
    using sim by (auto simp: dis_store_sim_def dis_pg.sim_def)
  have "oldest_first (filter (\<lambda>e. e_DisputeID e = i) (map snd (fst le (pg_data w)))) = oldest_first (evidence_of m i)"
    using es dis_mem_invD(7) [OF d(1)] by (intro oldest_first_mset) (auto simp: evidence_sim_def)
  moreover have "pg_data w' = pg_data w \<and>
      r = Inr (oldest_first (filter (\<lambda>e. e_DisputeID e = i) (map snd (fst le (pg_data w)))))"
    using pg_list_up [OF up ok run [unfolded dis_pg_ListEvidence_def]] .
  ultimately show ?thesis
    using up d(2) sim by (simp add: dis_mem_ListEvidence_def pg_up_def map_idI dis_store_sim_def dis_pg.sim_def evidence_sim_def)
qed

text \<open>C35. While the database answers, the Postgres store of disputes does what the in-memory one does: what it creates,
  updates, finds and lists is what the in-memory store does on the same rows, and the constraints of the
  tables never get in the way of a valid dispute or piece of evidence. Three differences are part of the
  statement: the list of concluded disputes, which the in-memory store leaves unordered, comes newest first;
  evidence for an unknown dispute is \<open>errUnavailable\<close> here and \<open>errNotFound\<close> there; and an identifier of evidence
  that another dispute uses already is a conflict here only.\<close>

theorem dis_pg_refines:
  assumes "dis_store_sim l le m w" and "pg_up c w" and "lens_ok l" and "dis_storable cd d"
    and "\<forall>cur. dis_table m (d_ID d) = Some cur \<longrightarrow> dis_set (dis_row cd d) cur = dis_row cd d \<and>
      (dis_status_Active (d_Status d) \<longrightarrow> dis_status_Active (d_Status cur))"
    and "lens_ok le" and "lenses_apart l le" and "evidence_storable cd e"
  shows "(\<exists>m' w' r. dis_pg_Create cd l c d w = (w', r) \<and>
      dis_mem_Create c (dis_row cd d) m = (m', r) \<and> dis_store_sim l le m' w') \<and>
    (\<exists>m' w' r. dis_pg_Update cd l c d v w = (w', r) \<and>
      dis_mem_Update c (dis_row cd d) (pc_time cd v) m = (m', r) \<and> dis_store_sim l le m' w') \<and>
    (\<exists>w' r. dis_pg_Get l c i w = (w', r) \<and> dis_mem_Get c i m = (m, r) \<and> dis_store_sim l le m w') \<and>
    (\<exists>w' r. dis_pg_GetActiveByTransactionID l c i w = (w', r) \<and>
      dis_mem_GetActiveByTransactionID c i m = (m, r) \<and> dis_store_sim l le m w') \<and>
    (\<exists>w' xs. dis_pg_ListConcludedByTransactionID l c i w = (w', Inr (newest_first d_CreatedAt d_ID xs)) \<and>
      dis_mem_ListConcludedByTransactionID c i m = (m, Inr xs) \<and> dis_store_sim l le m w') \<and>
    (\<exists>w' r. dis_pg_ListForParticipant l c u w = (w', r) \<and> dis_store_sim l le m w' \<and>
      (\<not> ID_IsZero u \<longrightarrow> dis_mem_ListForParticipant c u m = (m, r))) \<and>
    (\<exists>w' r. dis_pg_AppendEvidence cd l le c e w = (w', r) \<and>
      (if \<exists>k. k \<noteq> e_DisputeID e \<and> e_ID e \<in> e_ID ` set (evidence_of m k)
         then r = Inl (DisErr Dis_errConflict) \<and> pg_data w' = pg_data w
       else if dis_table m (e_DisputeID e) = None
         then r = Inl (DisErr Dis_errUnavailable) \<and> pg_data w' = pg_data w \<and>
           dis_mem_AppendEvidence c (evidence_row cd e) m = (m, Inl (DisErr Dis_errNotFound))
       else \<exists>m'. dis_mem_AppendEvidence c (evidence_row cd e) m = (m', r) \<and> dis_store_sim l le m' w')) \<and>
    (\<exists>w' r. dis_pg_ListEvidence le c i w = (w', r) \<and> dis_mem_ListEvidence c i m = (m, r) \<and> dis_store_sim l le m w')"
proof -
  obtain w1 r1 where 1: "dis_pg_Create cd l c d w = (w1, r1)" by fastforce
  obtain w2 r2 where 2: "dis_pg_Update cd l c d v w = (w2, r2)" by fastforce
  obtain w3 r3 where 3: "dis_pg_Get l c i w = (w3, r3)" by fastforce
  obtain w4 r4 where 4: "dis_pg_GetActiveByTransactionID l c i w = (w4, r4)" by fastforce
  obtain w5 r5 where 5: "dis_pg_ListForParticipant l c u w = (w5, r5)" by fastforce
  obtain w6 r6 where 6: "dis_pg_ListConcludedByTransactionID l c i w = (w6, r6)" by fastforce
  obtain w7 r7 where 7: "dis_pg_AppendEvidence cd l le c e w = (w7, r7)" by fastforce
  obtain w8 r8 where 8: "dis_pg_ListEvidence le c i w = (w8, r8)" by fastforce
  have s: "dis_pg.sim l m w" and es: "evidence_sim le m w" using assms(1) by (simp_all add: dis_store_sim_def)
  note st = dis_storableD [OF assms(4)] and ctx = assms(2) [unfolded pg_up_def]
  have inv: "dm_fail m = None" and minv: "dis_mem_inv m" using s by (simp_all add: dis_pg.sim_def)
  have c1: "\<exists>m'. dis_mem_Create c (dis_row cd d) m = (m', r1) \<and> dis_pg.sim l m' w1"
    using 1 st by (intro dis_pg.create_sim [OF s assms(2,3)]) (simp_all add: dis_pg_defs)
  have c2: "\<exists>m'. dis_mem_Update c (dis_row cd d) (pc_time cd v) m = (m', r2) \<and> dis_pg.sim l m' w2"
  proof (rule dis_pg.update_sim [where r = "dis_row cd d" and chk = dis_check, OF s assms(2,3) st(2,3),
        where mp = dis_mapDBErr and cond = "\<lambda>r. d_UpdatedAt r = pc_time cd v"
        and asg = "dis_set (dis_row cd d)"], goal_cases)
    case (3 cur)
    then show ?case using assms(5) dis_set_txn [of "dis_row cd d" cur] by auto
  qed (use 2 st(1) in \<open>simp_all add: dis_pg_defs\<close>)
  have c3: "dis_mem_Get c i m = (m, r3) \<and> dis_pg.sim l m w3"
    using 3 by (intro dis_pg.get_sim [OF s assms(2,3)]) (simp_all add: dis_pg_defs)
  have c4: "dis_pg.sim l m w4 \<and> dis_mem_GetActiveByTransactionID c i m = (m, r4)"
    using dis_pg.find_sim [OF s assms(2,3) _ 4 [unfolded dis_pg_defs active_in]] ctx inv
    by (auto simp: dis_mem_GetActiveByTransactionID_def split: option.splits)
  have c5: "dis_pg.sim l m w5 \<and> (\<not> ID_IsZero u \<longrightarrow> dis_mem_ListForParticipant c u m = (m, r5))"
    using dis_pg.list_sim [OF s assms(2,3) 5 [unfolded dis_pg_defs]] ctx inv
    by (simp add: dis_mem_ListForParticipant_def dis_Participant_def map_idI)
  have conc: "s \<in> {DisResolved, DisClosed} \<longleftrightarrow> dis_status_Concluded s" for s
    by (auto simp: dis_status_Concluded_def)
  have c6: "\<exists>xs. r6 = Inr (newest_first d_CreatedAt d_ID xs) \<and>
      dis_mem_ListConcludedByTransactionID c i m = (m, Inr xs) \<and> dis_pg.sim l m w6"
    using dis_pg.list_sim [OF s assms(2,3) 6 [unfolded dis_pg_defs conc]] ctx inv
    by (simp add: dis_mem_ListConcludedByTransactionID_def map_idI)
  note apart = pg_create_apart [OF assms(2,7)] pg_occ_update_apart [OF assms(2,7)] pg_get_apart [OF assms(2,7)]
    pg_list_apart [OF assms(2,7)]
  have same: "fst le (pg_data w1) = fst le (pg_data w)" "fst le (pg_data w2) = fst le (pg_data w)"
    "fst le (pg_data w3) = fst le (pg_data w)" "fst le (pg_data w4) = fst le (pg_data w)"
    "fst le (pg_data w5) = fst le (pg_data w)" "fst le (pg_data w6) = fst le (pg_data w)"
    using 1 2 3 4 5 6 st(1) by (auto simp: dis_pg_defs dest: apart)
  have keep: "dis_store_sim l le m' v"
    if "dis_pg.sim l m' v" "fst le (pg_data v) = fst le (pg_data w)" "evidence_of m' = evidence_of m" for m' v
    using that es by (simp add: dis_store_sim_def evidence_sim_def)
  have d1: "\<exists>m'. dis_mem_Create c (dis_row cd d) m = (m', r1) \<and> dis_store_sim l le m' w1"
    using c1 keep [OF _ same(1)] dis_mem_writes_evidence [OF minv] by blast
  have d2: "\<exists>m'. dis_mem_Update c (dis_row cd d) (pc_time cd v) m = (m', r2) \<and> dis_store_sim l le m' w2"
    using c2 keep [OF _ same(2)] dis_mem_writes_evidence [OF minv] by blast
  note c7 = append_evidence_sim [OF assms(1,2,6,7,8) 7] and c8 = list_evidence_sim [OF assms(1,2,6,7) 8]
  note keep' = keep [OF _ _ refl]
  have d3: "dis_mem_Get c i m = (m, r3) \<and> dis_store_sim l le m w3" using c3 keep' [OF _ same(3)] by blast
  have d4: "dis_store_sim l le m w4 \<and> dis_mem_GetActiveByTransactionID c i m = (m, r4)"
    using c4 keep' [OF _ same(4)] by blast
  have d5: "dis_store_sim l le m w5 \<and> (\<not> ID_IsZero u \<longrightarrow> dis_mem_ListForParticipant c u m = (m, r5))"
    using c5 keep' [OF _ same(5)] by blast
  have d6: "\<exists>xs. r6 = Inr (newest_first d_CreatedAt d_ID xs) \<and>
      dis_mem_ListConcludedByTransactionID c i m = (m, Inr xs) \<and> dis_store_sim l le m w6"
    using c6 keep' [OF _ same(6)] by blast
  show ?thesis unfolding 1 2 3 4 5 6 7 8 prod.inject
  proof (intro conjI, goal_cases)
    case 7
    show ?case using c7 by (intro exI [of _ w7] exI [of _ r7]) simp
  qed (use d1 d2 d3 d4 d5 d6 c8 in \<open>blast+\<close>)
qed

definition sample_pg_dispute :: "string \<Rightarrow> time \<Rightarrow> dispute" where
  "sample_pg_dispute s t = (sample_dispute s)\<lparr>d_CreatedAt := 40000, d_UpdatedAt := t\<rparr>"

lemma sample_pg_dispute_fields [simp]:
  "d_ID (sample_pg_dispute s t) = id_n 80" "d_UpdatedAt (sample_pg_dispute s t) = t"
  "d_Statement (sample_pg_dispute s t) = None" "d_Status (sample_pg_dispute s t) = s"
  by (simp_all add: sample_pg_dispute_def sample_dispute_def)

lemma sample_pg_dispute_valid [simp]:
  "40000 \<le> t \<Longrightarrow> s = DisOpen \<or> s = DisUnderReview \<Longrightarrow> dis_Validate (sample_pg_dispute s t) = None"
  by (auto simp: dis_Validate_split dis_stamps_None dis_base_valid_def dis_status_valid_def
      dis_reason_valid_def sample_pg_dispute_def sample_dispute_def)

lemma sample_pg_dispute_row [simp]:
  "s = DisOpen \<or> s = DisUnderReview \<Longrightarrow>
     dis_row sample_codec (sample_pg_dispute s t) = sample_pg_dispute s (t div 1000 * 1000)"
  by (auto simp: dis_row_def sample_pg_dispute_def sample_dispute_def sample_codec_def)

text \<open>Two tables side by side.\<close>

definition left_table :: "('a \<times> 'b, 'a) lens" where "left_table = (fst, apfst)"
definition right_table :: "('a \<times> 'b, 'b) lens" where "right_table = (snd, apsnd)"

lemma side_tables [simp]:
  "lens_ok left_table" "lens_ok right_table" "lenses_apart left_table right_table"
  "fst left_table d = fst d" "fst right_table d = snd d"
  by (simp_all add: left_table_def right_table_def lens_ok_def lenses_apart_def)

definition sample_pg_evidence :: evidence where
  "sample_pg_evidence = sample_evidence\<lparr>e_CreatedAt := 41000\<rparr>"

lemma sample_pg_evidence_storable [simp]:
  "evidence_storable sample_codec sample_pg_evidence" "evidence_row sample_codec sample_pg_evidence = sample_pg_evidence"
proof -
  have "evidence_Validate sample_pg_evidence = None"
    using sample_evidence_valid by (simp add: evidence_Validate_def sample_pg_evidence_def sample_evidence_def
      time_IsZero_def split: if_splits sum.splits option.splits)
  moreover show "evidence_row sample_codec sample_pg_evidence = sample_pg_evidence"
    by (simp add: evidence_row_def sample_pg_evidence_def sample_codec_def)
  ultimately show "evidence_storable sample_codec sample_pg_evidence"
    by (simp add: evidence_storable_def cloneNormalizedOptional_def) (simp add: sample_pg_evidence_def sample_evidence_def)
qed

theorem dis_pg_refines_witness:
  "(\<exists>w'. dis_pg_Update sample_codec left_table background (sample_pg_dispute DisUnderReview 50700) 40000
      (sample_pg ([(id_n 80, sample_pg_dispute DisOpen 40000)], [] :: (ID, evidence) gomap)) = (w', Inr ()) \<and>
     fst (pg_data w') = [(id_n 80, sample_pg_dispute DisUnderReview 50000)]) \<and>
   (\<exists>w'. dis_pg_AppendEvidence sample_codec left_table right_table background sample_pg_evidence
      (sample_pg ([(id_n 80, sample_pg_dispute DisOpen 40000)], [])) = (w', Inr ()))"
proof -
  let ?m = "\<lparr>dm_byID = [(id_n 80, sample_pg_dispute DisOpen 40000)], dm_evidence = [], dm_fail = None\<rparr>"
  let ?w = "sample_pg ([(id_n 80, sample_pg_dispute DisOpen 40000)], [] :: (ID, evidence) gomap)"
  let ?d = "sample_pg_dispute DisUnderReview 50700"
  have st: "dis_storable sample_codec ?d"
    by (simp add: dis_storable_def cloneNormalizedStatement_def cloneNormalizedOptional_def)
  have ev: "evidence_of ?m k = []" for k by (simp add: evidence_of_def)
  then have "dis_mem_inv ?m" by (simp add: dis_mem_inv_def wf_map_def)
  then have sim: "dis_store_sim left_table right_table ?m ?w"
    using ev by (simp add: dis_store_sim_def dis_pg.sim_def evidence_sim_def)
  have fr: "\<forall>cur. dis_table ?m (d_ID ?d) = Some cur \<longrightarrow>
      dis_set (dis_row sample_codec ?d) cur = dis_row sample_codec ?d \<and>
      (dis_status_Active (d_Status ?d) \<longrightarrow> dis_status_Active (d_Status cur))"
    by (simp add: dis_status_Active_def) (simp add: dis_set_def sample_pg_dispute_def sample_dispute_def)
  have mem: "dis_mem_Update background (sample_pg_dispute DisUnderReview 50000) 40000 ?m =
      (?m\<lparr>dm_byID := [(id_n 80, sample_pg_dispute DisUnderReview 50000)]\<rparr>, Inr ())"
    by (simp add: dis_mem_Update_def background_def)
  note ref = dis_pg_refines [OF sim sample_pg_up(1) side_tables(1) st fr side_tables(2,3) sample_pg_evidence_storable(1), of 40000]
  obtain m' w' r where u: "dis_pg_Update sample_codec left_table background ?d 40000 ?w = (w', r)"
    and m': "dis_mem_Update background (dis_row sample_codec ?d) (pc_time sample_codec 40000) ?m = (m', r)"
    and s: "dis_store_sim left_table right_table m' w'"
    using ref [THEN conjunct2, THEN conjunct1] by blast
  have "pc_time sample_codec 40000 = 40000" by (simp add: sample_codec_def)
  then have 1: "r = Inr ()" "dm_byID m' = [(id_n 80, sample_pg_dispute DisUnderReview 50000)]"
    using m' mem by auto
  have i: "e_DisputeID sample_pg_evidence = id_n 80"
    by (simp add: sample_pg_evidence_def sample_evidence_def)
  have "evidence_Validate sample_pg_evidence = None"
    using sample_pg_evidence_storable(1) by (simp add: evidence_storable_def)
  then have "\<exists>m'. dis_mem_AppendEvidence background sample_pg_evidence ?m = (m', Inr ())"
    unfolding dis_mem_AppendEvidence_ok ev i by (simp add: background_def)
  then have "\<exists>w'. dis_pg_AppendEvidence sample_codec left_table right_table background sample_pg_evidence ?w = (w', Inr ())"
    using ref [THEN conjunct2, THEN conjunct2, THEN conjunct2, THEN conjunct2, THEN conjunct2, THEN conjunct2,
      THEN conjunct1] unfolding ev i by auto
  then show ?thesis using u s 1 by (auto simp: dis_store_sim_def dis_pg.sim_def)
qed

end
