(* ===== verification/Pg_Outbox.thy ===== *)
theory Pg_Outbox
  imports Outbox Pg
begin

text \<open>
  The Postgres store of the package \<open>platform/outbox\<close> over the pool of \<open>platform/db\<close>, on the table of
  migration \<open>000008_platform_outbox\<close>. The theory \<open>Outbox\<close> models the same statements on a table of its own;
  here they run in the database of the request, so that an event and the row it reports on share a
  transaction. \<open>ev\<close> is what the columns make of a new event (microseconds, normalised \<open>JSONB\<close>).
\<close>

section \<open>The store\<close>

definition outbox_clash :: "outbox_event \<Rightarrow> outbox_event \<Rightarrow> bool" where
  "outbox_clash e f \<longleftrightarrow> oe_IdempotencyKey e \<noteq> None \<and> oe_IdempotencyKey e = oe_IdempotencyKey f"

type_synonym 'd outbox_lens = "('d, (ID, outbox_event) gomap) lens"

definition outbox_pg_Insert ::
  "(outbox_event \<Rightarrow> outbox_event) \<Rightarrow> 'd outbox_lens \<Rightarrow> ctx \<Rightarrow> outbox_event \<Rightarrow> ('d pg, unit) go" where
  "outbox_pg_Insert ev l c e = pg_create ob_mapDBErr l oe_ID outbox_check outbox_clash c (ev e)"

text \<open>The one statement of \<open>Claim\<close>: it takes the picked rows over, or fails as a whole.\<close>

definition outbox_claim_stmt ::
  "time \<Rightarrow> time \<Rightarrow> int \<Rightarrow> ((ID, outbox_event) gomap, outbox_event list) stmt" where
  "outbox_claim_stmt now until limit = (\<lambda>rows.
     let out = map (\<lambda>e. e\<lparr>oe_ClaimedAt := Some now, oe_ClaimUntil := Some until,
                            oe_Attempts := oe_Attempts e + 1\<rparr>) (claim_picked now limit (map snd rows))
     in if list_all outbox_check out then (foldl (\<lambda>m e. AList.update (oe_ID e) e m) rows out, Inr out)
        else (rows, Inl Pg_Other))"

definition outbox_pg_Claim ::
  "pg_codec \<Rightarrow> 'd outbox_lens \<Rightarrow> ctx \<Rightarrow> time \<Rightarrow> duration \<Rightarrow> int \<Rightarrow> ('d pg, outbox_event list) go" where
  "outbox_pg_Claim cd l c now lease limit =
     (if lease \<le> 0 \<or> limit \<le> 0 then gfail (ObErr Ob_ErrInvalidPolicy)
      else gmaperr ob_mapDBErr (pool_Query c (on_table (fst l) (snd l)
        (outbox_claim_stmt (pc_time cd now) (pc_time cd (now + lease)) limit))))"

definition outbox_pg_Complete :: "pg_codec \<Rightarrow> 'd outbox_lens \<Rightarrow> ctx \<Rightarrow> ID \<Rightarrow> time \<Rightarrow> ('d pg, unit) go" where
  "outbox_pg_Complete cd l c i now =
     gcase (pool_Exec c (on_table (fst l) (snd l) (pg_update i (\<lambda>e. oe_CompletedAt e = None)
              (\<lambda>e. e\<lparr>oe_CompletedAt := Some (pc_time cd now)\<rparr>) outbox_check outbox_clash)))
       (\<lambda>e. gfail (ob_mapDBErr e))
       (\<lambda>n. if n = 0 then gfail (ObErr Ob_ErrNotFound) else gret ())"

definition outbox_pg_Reschedule ::
  "pg_codec \<Rightarrow> 'd outbox_lens \<Rightarrow> ctx \<Rightarrow> ID \<Rightarrow> time \<Rightarrow> string \<Rightarrow> ('d pg, unit) go" where
  "outbox_pg_Reschedule cd l c i availableAt errorClass =
     gcase (pool_Exec c (on_table (fst l) (snd l) (pg_update i (\<lambda>e. oe_CompletedAt e = None)
              (\<lambda>e. e\<lparr>oe_AvailableAt := pc_time cd availableAt, oe_ClaimedAt := None, oe_ClaimUntil := None,
                     oe_LastErrorClass := Some errorClass\<rparr>) outbox_check outbox_clash)))
       (\<lambda>e. gfail (ob_mapDBErr e))
       (\<lambda>n. if n = 0 then gfail (ObErr Ob_ErrNotFound) else gret ())"

text \<open>\<open>UPDATE \<dots> RETURNING attempts\<close>: no row when none was updated.\<close>

definition outbox_increment_stmt :: "ID \<Rightarrow> ((ID, outbox_event) gomap, int) stmt" where
  "outbox_increment_stmt i = (\<lambda>rows.
     case pg_update i (\<lambda>e. oe_CompletedAt e = None) (\<lambda>e. e\<lparr>oe_Attempts := oe_Attempts e + 1\<rparr>)
            outbox_check outbox_clash rows of
       (rows', Inl err) \<Rightarrow> (rows', Inl err)
     | (rows', Inr n) \<Rightarrow>
         (rows', case map_of rows' i of
                   None \<Rightarrow> Inl Pg_NoRows
                 | Some e \<Rightarrow> if n = 0 then Inl Pg_NoRows else Inr (oe_Attempts e)))"

definition outbox_pg_IncrementAttempts :: "'d outbox_lens \<Rightarrow> ctx \<Rightarrow> ID \<Rightarrow> ('d pg, int) go" where
  "outbox_pg_IncrementAttempts l c i =
     gmaperr ob_mapDBErr (pool_QueryRow c (on_table (fst l) (snd l) (outbox_increment_stmt i)))"

definition outbox_pg_store ::
  "pg_codec \<Rightarrow> (outbox_event \<Rightarrow> outbox_event) \<Rightarrow> 'd outbox_lens \<Rightarrow> 'd pg outbox_store" where
  "outbox_pg_store cd ev l =
     \<lparr>os_Insert = outbox_pg_Insert ev l, os_Claim = outbox_pg_Claim cd l,
      os_Complete = outbox_pg_Complete cd l, os_Reschedule = outbox_pg_Reschedule cd l,
      os_IncrementAttempts = outbox_pg_IncrementAttempts l\<rparr>"

section \<open>The constraints hold\<close>

lemma outbox_inv_table: "outbox_inv \<lparr>od_rows = rows, od_fail = f\<rparr> \<longleftrightarrow> table_ok oe_ID outbox_check outbox_clash rows"
  unfolding outbox_inv_def table_ok_def outbox_clash_def outbox_db.simps by blast

lemma outbox_clash_sym: "outbox_clash a b \<Longrightarrow> outbox_clash b a"
  unfolding outbox_clash_def by metis

text \<open>Rewriting rows without touching their keys.\<close>

lemma outbox_rewrite_ok:
  assumes "table_ok oe_ID outbox_check outbox_clash rows" and "list_all outbox_check es"
    and "\<And>e. e \<in> set es \<Longrightarrow> \<exists>r. map_of rows (oe_ID e) = Some r \<and> oe_IdempotencyKey r = oe_IdempotencyKey e"
  shows "table_ok oe_ID outbox_check outbox_clash (foldl (\<lambda>m e. AList.update (oe_ID e) e m) rows es)"
  using assms
proof (induction es arbitrary: rows)
  case (Cons e es)
  let ?rows = "AList.update (oe_ID e) e rows"
  obtain r where r: "map_of rows (oe_ID e) = Some r" "oe_IdempotencyKey r = oe_IdempotencyKey e"
    using Cons.prems(3) [of e] by auto
  have "\<not> list_ex (\<lambda>s. fst s \<noteq> oe_ID e \<and> outbox_clash e (snd s)) rows"
  proof
    assume "list_ex (\<lambda>s. fst s \<noteq> oe_ID e \<and> outbox_clash e (snd s)) rows"
    then obtain k s where s: "(k, s) \<in> set rows" "k \<noteq> oe_ID e" "outbox_clash e s"
      by (auto simp: list_ex_iff)
    then have "map_of rows k = Some s" using wf_map_in_set [OF table_okD(1) [OF Cons.prems(1)]] by simp
    moreover have "outbox_clash r s" using s(3) r(2) unfolding outbox_clash_def by metis
    ultimately show False using table_okD(4) [OF Cons.prems(1) r(1)] s(2) by blast
  qed
  then have ok: "table_ok oe_ID outbox_check outbox_clash ?rows"
    using Cons.prems(2) by (intro table_ok_put [OF Cons.prems(1) outbox_clash_sym refl]) auto
  have "\<exists>r. map_of ?rows (oe_ID f) = Some r \<and> oe_IdempotencyKey r = oe_IdempotencyKey f" if "f \<in> set es" for f
    using Cons.prems(3) [of f] that r by auto
  from Cons.IH [OF ok _ this] Cons.prems(2) show ?case by simp
qed simp

lemma outbox_claim_ok:
  assumes ok: "table_ok oe_ID outbox_check outbox_clash rows"
    and run: "outbox_claim_stmt now until limit rows = (rows', r)"
  shows "table_ok oe_ID outbox_check outbox_clash rows'"
proof -
  define g :: "outbox_event \<Rightarrow> outbox_event" where "g = (\<lambda>e. e\<lparr>oe_ClaimedAt := Some now, oe_ClaimUntil := Some until, oe_Attempts := oe_Attempts e + 1\<rparr>)"
  let ?picked = "claim_picked now limit (map snd rows)"
  have inv: "outbox_inv \<lparr>od_rows = rows, od_fail = None\<rparr>" using ok by (simp add: outbox_inv_table)
  have row: "map_of rows (oe_ID e) = Some e" if "e \<in> set ?picked" for e
    using claim_picked_row [OF inv, of e now limit] that by simp
  have "table_ok oe_ID outbox_check outbox_clash (foldl (\<lambda>m e. AList.update (oe_ID e) e m) rows (map g ?picked))"
    if "list_all outbox_check (map g ?picked)"
    by (rule outbox_rewrite_ok [OF ok that]) (use row in \<open>auto simp: g_def\<close>)
  then show ?thesis
    using run ok by (auto simp: outbox_claim_stmt_def Let_def g_def [symmetric] split: if_splits)
qed

lemma outbox_increment_ok:
  assumes ok: "table_ok oe_ID outbox_check outbox_clash rows"
    and run: "outbox_increment_stmt i rows = (rows', r)"
  shows "table_ok oe_ID outbox_check outbox_clash rows'"
proof -
  let ?asg = "\<lambda>e :: outbox_event. e\<lparr>oe_Attempts := oe_Attempts e + 1\<rparr>"
  let ?u = "pg_update i (\<lambda>e. oe_CompletedAt e = None) ?asg outbox_check outbox_clash rows"
  obtain rows1 r1 where u: "?u = (rows1, r1)" by fastforce
  have asg: "oe_ID (?asg e) = oe_ID e" for e by simp
  have "table_ok oe_ID outbox_check outbox_clash (fst ?u)"
    using pg_update_ok [where key = oe_ID and asg = ?asg, OF ok outbox_clash_sym asg u] u by simp
  moreover have "rows' = fst ?u"
    using run by (auto simp: outbox_increment_stmt_def split: prod.splits sum.splits)
  ultimately show ?thesis by simp
qed

lemma outbox_pg_safe:
  assumes P: "table_part P l oe_ID outbox_check outbox_clash"
  shows "keeps (pg_keeps_safe P) (outbox_pg_Insert ev l c e)"
    and "keeps (pg_keeps_safe P) (outbox_pg_Claim cd l c now lease limit)"
    and "keeps (pg_keeps_safe P) (outbox_pg_Complete cd l c i now)"
    and "keeps (pg_keeps_safe P) (outbox_pg_Reschedule cd l c i now cls)"
    and "keeps (pg_keeps_safe P) (outbox_pg_IncrementAttempts l c i)"
proof -
  note on = table_part_on [OF P]
  show "keeps (pg_keeps_safe P) (outbox_pg_Insert ev l c e)"
    unfolding outbox_pg_Insert_def by (rule keeps_safe_store(1) [OF P])
  show "keeps (pg_keeps_safe P) (outbox_pg_Claim cd l c now lease limit)"
    unfolding outbox_pg_Claim_def
    by (intro safe.keeps_if safe.keeps_gfail safe.keeps_gmaperr, rule keeps_safe_pool(3), erule (1) on,
        erule (1) outbox_claim_ok)
  have upd: "keeps (pg_keeps_safe P) (pool_Exec c (on_table (fst l) (snd l)
      (pg_update i cond asg outbox_check outbox_clash)))" if "\<And>r. oe_ID (asg r) = oe_ID r" for cond asg
    by (rule keeps_safe_pool(1), erule (1) on, erule (1) pg_update_ok [where key = oe_ID and asg = asg, OF _ outbox_clash_sym that])
  show "keeps (pg_keeps_safe P) (outbox_pg_Complete cd l c i now)"
    unfolding outbox_pg_Complete_def by (intro safe.keeps_gcase safe.keeps_if safe.keeps_gfail safe.keeps_gret upd) simp
  show "keeps (pg_keeps_safe P) (outbox_pg_Reschedule cd l c i now cls)"
    unfolding outbox_pg_Reschedule_def
    by (intro safe.keeps_gcase safe.keeps_if safe.keeps_gfail safe.keeps_gret upd) simp
  show "keeps (pg_keeps_safe P) (outbox_pg_IncrementAttempts l c i)"
    unfolding outbox_pg_IncrementAttempts_def
    by (rule safe.keeps_gmaperr, rule keeps_safe_pool(2), erule (1) on, erule (1) outbox_increment_ok)
qed

lemma outbox_pg_grows:
  "keeps pg_grows (outbox_pg_Insert ev l c e)" "keeps pg_grows (outbox_pg_Claim cd l c now lease limit)"
  "keeps pg_grows (outbox_pg_Complete cd l c i now)" "keeps pg_grows (outbox_pg_Reschedule cd l c i now cls)"
  "keeps pg_grows (outbox_pg_IncrementAttempts l c i)"
  unfolding outbox_pg_Insert_def outbox_pg_Claim_def outbox_pg_Complete_def outbox_pg_Reschedule_def
    outbox_pg_IncrementAttempts_def
  by (intro grows.keeps_gcase grows.keeps_gmaperr grows.keeps_if grows.keeps_gfail grows.keeps_gret
      keeps_pg_store pg_grows_pool)+

end
