(* ===== verification/Pg_Calls.thy ===== *)
theory Pg_Calls
  imports Pg
begin

text \<open>
  Triples for calls on the database: what holds before a call, after its success and after its failure.
  They carry what a service has read to the write that relies on it.
\<close>

section \<open>Triples\<close>

definition triple ::
  "('w \<Rightarrow> bool) \<Rightarrow> ('w, 'a) go \<Rightarrow> ('a \<Rightarrow> 'w \<Rightarrow> bool) \<Rightarrow> ('w \<Rightarrow> bool) \<Rightarrow> bool" where
  "triple P m Q E \<longleftrightarrow> (\<forall>w. P w \<longrightarrow> (case m w of (w', Inl e) \<Rightarrow> E w' | (w', Inr x) \<Rightarrow> Q x w'))"

lemma tripleI:
  assumes "\<And>w w' e. P w \<Longrightarrow> m w = (w', Inl e) \<Longrightarrow> E w'"
    and "\<And>w w' x. P w \<Longrightarrow> m w = (w', Inr x) \<Longrightarrow> Q x w'"
  shows "triple P m Q E"
  using assms by (auto simp: triple_def split: prod.split sum.split)

lemma tripleD:
  assumes "triple P m Q E" and "P w"
  shows "m w = (w', Inl e) \<Longrightarrow> E w'" and "m w = (w', Inr x) \<Longrightarrow> Q x w'"
  using assms by (auto simp: triple_def)

lemma triple_end: "triple P m (\<lambda>_. Q) Q \<Longrightarrow> P w \<Longrightarrow> Q (fst (m w))"
  by (cases "m w"; cases "snd (m w)") (auto simp: triple_def)

lemma triple_gret: "(\<And>w. P w \<Longrightarrow> Q x w) \<Longrightarrow> triple P (gret x) Q E"
  and triple_gfail: "(\<And>w. P w \<Longrightarrow> E w) \<Longrightarrow> triple P (gfail e) Q E"
  and triple_gpure: "(\<And>x w. r = Inr x \<Longrightarrow> P w \<Longrightarrow> Q x w) \<Longrightarrow> (\<And>w. P w \<Longrightarrow> E w) \<Longrightarrow> triple P (gpure r) Q E"
  by (auto simp: triple_def gpure_def split: sum.split)

lemma triple_gcase:
  assumes "triple P m R H" and "\<And>e. triple H (h e) Q E" and "\<And>x. triple (R x) (k x) Q E"
  shows "triple P (gcase m h k) Q E"
  unfolding triple_def
proof (intro allI impI)
  fix w assume "P w"
  obtain w1 r where m: "m w = (w1, r)" by fastforce
  show "case gcase m h k w of (w', Inl e) \<Rightarrow> E w' | (w', Inr x) \<Rightarrow> Q x w'"
  proof (cases r)
    case (Inl e)
    then have "H w1" using tripleD(1) [OF assms(1) \<open>P w\<close>] m by simp
    then show ?thesis using assms(2) [of e] m Inl by (simp add: triple_def gcase_apply)
  next
    case (Inr x)
    then have "R x w1" using tripleD(2) [OF assms(1) \<open>P w\<close>] m by simp
    then show ?thesis using assms(3) [of x] m Inr by (simp add: triple_def gcase_apply)
  qed
qed

lemma triple_gbind:
  assumes "triple P m R E" and "\<And>x. triple (R x) (k x) Q E"
  shows "triple P (gbind m k) Q E"
  unfolding gbind_def by (rule triple_gcase [OF assms(1) triple_gfail assms(2)])

lemma triple_gmaperr: "triple P m Q E \<Longrightarrow> triple P (gmaperr f m) Q E"
  unfolding gmaperr_def by (rule triple_gcase [where R = Q and H = E]) (auto intro: triple_gret triple_gfail)

lemma triple_gguard:
  "(g = None \<Longrightarrow> triple P k Q E) \<Longrightarrow> (\<And>w. P w \<Longrightarrow> E w) \<Longrightarrow> triple P (gguard g k) Q E"
  by (cases g) (auto intro: triple_gfail)

lemma triple_gneed:
  "(\<And>x. d = Some x \<Longrightarrow> triple P (k x) Q E) \<Longrightarrow> (\<And>w. P w \<Longrightarrow> E w) \<Longrightarrow> triple P (gneed d e k) Q E"
  by (cases d) (auto intro: triple_gfail)

lemma triple_gread:
  assumes "\<And>w. P w \<Longrightarrow> P' (fst (f w))" and "\<And>x. triple P' (k x) Q E"
  shows "triple P (gread f k) Q E"
proof -
  have "case k (snd (f w)) (fst (f w)) of (w', Inl e) \<Rightarrow> E w' | (w', Inr x) \<Rightarrow> Q x w'" if "P w" for w
    using assms(1) [OF that] assms(2) [of "snd (f w)"] by (simp add: triple_def)
  then show ?thesis by (simp add: triple_def gread_apply case_prod_unfold)
qed

lemma triple_if: "(b \<Longrightarrow> triple P m Q E) \<Longrightarrow> (\<not> b \<Longrightarrow> triple P n Q E) \<Longrightarrow> triple P (if b then m else n) Q E"
  by simp

lemma triple_prod: "(\<And>x y. z = (x, y) \<Longrightarrow> triple P (f x y) Q E) \<Longrightarrow> triple P (case z of (x, y) \<Rightarrow> f x y) Q E"
  by (cases z) simp

lemma triple_weaken:
  assumes "triple P m Q E" and "\<And>w. P' w \<Longrightarrow> P w" and "\<And>x w. Q x w \<Longrightarrow> Q' x w" and "\<And>w. E w \<Longrightarrow> E' w"
  shows "triple P' m Q' E'"
  using assms by (fastforce simp: triple_def split: prod.splits sum.splits)

section \<open>Calls that only read\<close>

definition pg_same :: "'d pg \<Rightarrow> 'd pg \<Rightarrow> bool" where
  "pg_same w w' \<longleftrightarrow> pg_data w' = pg_data w \<and> pg_saved w' = pg_saved w"

interpretation same: world_order pg_same
  by unfold_locales (auto simp: pg_same_def)

lemma pg_same_read [simp]: "pg_same w (fst (pg_now w))" "pg_same w (fst (pg_rand w))"
  by (simp_all add: pg_same_def pg_now_def pg_rand_def)

lemma pg_same_get: "lens_ok l \<Longrightarrow> keeps pg_same (pg_get mp l c p)"
  and pg_same_list: "lens_ok l \<Longrightarrow> keeps pg_same (pg_list mp l c p order)"
proof -
  assume l: "lens_ok l"
  show "keeps pg_same (pg_get mp l c p)"
    unfolding keeps_def
  proof
    fix w
    obtain w' r where g: "pg_get mp l c p w = (w', r)" by fastforce
    then show "pg_same w (fst (pg_get mp l c p w))"
      using pg_get_same [OF l g] keeps_savedD [OF keeps_pg_store(2), of mp l c p w]
      by (simp add: pg_same_def)
  qed
  show "keeps pg_same (pg_list mp l c p order)"
    unfolding keeps_def
  proof
    fix w
    obtain w' r where g: "pg_list mp l c p order w = (w', r)" by fastforce
    then show "pg_same w (fst (pg_list mp l c p order w))"
      using pg_list_same [OF l g] keeps_savedD [OF keeps_pg_store(3), of mp l c p order w]
      by (simp add: pg_same_def)
  qed
qed

text \<open>The data meet the invariant, and what has been read about them.\<close>

definition holds :: "('d \<Rightarrow> bool) \<Rightarrow> ('d \<Rightarrow> bool) \<Rightarrow> 'd pg \<Rightarrow> bool" where
  "holds Inv F w \<longleftrightarrow> pg_safe Inv w \<and> F (pg_data w)"

lemma holds_safe [intro]: "holds Inv F w \<Longrightarrow> pg_safe Inv w"
  by (simp add: holds_def)

lemma holds_data: "holds Inv F w \<Longrightarrow> Inv (pg_data w) \<and> F (pg_data w)"
  by (simp add: holds_def pg_safe_def)

lemma holds_same: "pg_same w w' \<Longrightarrow> holds Inv F w \<Longrightarrow> holds Inv F w'"
  by (simp add: holds_def pg_safe_def pg_same_def)

lemma triple_same: "keeps pg_same m \<Longrightarrow> triple (holds Inv F) m (\<lambda>_. holds Inv F) (holds Inv F)"
  unfolding keeps_def by (intro tripleI) (metis fst_conv holds_same)+

lemma triple_keeps: "keeps (pg_keeps_safe Inv) m \<Longrightarrow> triple (holds Inv F) m (\<lambda>_. pg_safe Inv) (pg_safe Inv)"
  unfolding keeps_def pg_keeps_safe_def by (intro tripleI) (metis fst_conv holds_safe)+

lemma triple_read:
  assumes "lens_ok l"
  shows "triple (holds Inv F) (pg_get mp l c p)
    (\<lambda>r. holds Inv (\<lambda>d. F d \<and> find p (map snd (fst l d)) = Some r)) (holds Inv F)"
proof (rule tripleI)
  fix w w' e
  assume h: "holds Inv F w" and g: "pg_get mp l c p w = (w', Inl e)"
  then show "holds Inv F w'" using holds_same [OF _ h, of w'] pg_same_get [OF assms, of mp c p]
    unfolding keeps_def by (metis fst_conv)
next
  fix w w' r
  assume h: "holds Inv F w" and g: "pg_get mp l c p w = (w', Inr r)"
  then have "holds Inv F w'" using holds_same [OF _ h, of w'] pg_same_get [OF assms, of mp c p]
    unfolding keeps_def by (metis fst_conv)
  then show "holds Inv (\<lambda>d. F d \<and> find p (map snd (fst l d)) = Some r) w'"
    using pg_get_ok [OF assms g] by (simp add: holds_def)
qed

section \<open>Writes\<close>

lemma triple_write:
  assumes "\<And>d d' x. Inv d \<Longrightarrow> F d \<Longrightarrow> stmt d = (d', Inr x) \<Longrightarrow> Inv d'"
  shows "triple (holds Inv F) (pool_Exec c stmt) (\<lambda>_. pg_safe Inv) (pg_safe Inv)"
proof -
  have "pg_safe Inv w'" if h: "holds Inv F w" and run: "pool_Exec c stmt w = (w', r)" for w w' r
  proof -
    have s: "pg_saved w' = pg_saved w"
      using keeps_savedD [OF pg_grows_pool(1), of c stmt w] run by simp
    have "Inv (pg_data w')"
      using pool_either [OF disjI1 [OF run]] holds_data [OF h] assms by auto
    with h s show ?thesis by (simp add: holds_def pg_safe_def)
  qed
  then show ?thesis by (intro tripleI)
qed

lemma triple_create:
  assumes "\<And>d. Inv d \<Longrightarrow> F d \<Longrightarrow> chk r \<Longrightarrow> map_of (fst l d) (key r) = None \<Longrightarrow>
      \<not> list_ex (\<lambda>s. clash r (snd s)) (fst l d) \<Longrightarrow>
      Inv (snd l (\<lambda>_. AList.update (key r) r (fst l d)) d)"
  shows "triple (holds Inv F) (pg_create mp l key chk clash c r) (\<lambda>_. pg_safe Inv) (pg_safe Inv)"
  unfolding pg_create_def
proof (rule triple_gmaperr, rule triple_write)
  fix d d' x
  assume "Inv d" "F d" and st: "on_table (fst l) (snd l) (pg_insert key chk clash r) d = (d', Inr x)"
  then show "Inv d'"
    using assms [of d] by (auto simp: on_table_Inr pg_insert_def split: if_splits)
qed

lemma triple_update:
  assumes l: "lens_ok l" and "\<And>d r. Inv d \<Longrightarrow> F d \<Longrightarrow> map_of (fst l d) k = Some r \<Longrightarrow> cond r \<Longrightarrow> chk (asg r) \<Longrightarrow>
      \<not> list_ex (\<lambda>s. fst s \<noteq> k \<and> clash (asg r) (snd s)) (fst l d) \<Longrightarrow>
      Inv (snd l (\<lambda>_. AList.update k (asg r) (fst l d)) d)"
  shows "triple (holds Inv F) (pg_occ_update mp e l key chk clash c k cond asg) (\<lambda>_. pg_safe Inv) (pg_safe Inv)"
  unfolding pg_occ_update_def
proof (rule triple_gcase)
  show "triple (holds Inv F) (pool_Exec c (on_table (fst l) (snd l) (pg_update k cond asg chk clash)))
      (\<lambda>_. pg_safe Inv) (pg_safe Inv)"
  proof (rule triple_write)
    fix d d' x
    assume "Inv d" "F d" and st: "on_table (fst l) (snd l) (pg_update k cond asg chk clash) d = (d', Inr x)"
    then show "Inv d'"
      using assms(2) [of d] lens_okD(2) [OF l, of d]
      by (auto simp: on_table_Inr pg_update_def split: option.splits if_splits)
  qed
next
  have same: "pg_safe Inv w'" if "pg_safe Inv w" "pg_same w w'" for w w'
    using that by (simp add: pg_safe_def pg_same_def)
  fix x
  show "triple (pg_safe Inv) (if x = 0 then gbind (pg_get mp l c (\<lambda>r. key r = k)) (\<lambda>_. gfail e) else gret ())
      (\<lambda>_. pg_safe Inv) (pg_safe Inv)"
    using pg_same_get [OF l, of mp c "\<lambda>r. key r = k"]
    by (intro triple_if triple_gbind triple_gfail triple_gret tripleI)
      (auto simp: keeps_def dest: same intro: same)
qed (auto intro: triple_gfail)

text \<open>A unit of work on the pool: its body starts from the same data.\<close>

lemma triple_begin: "triple (holds Inv F) (pool_Begin c) (\<lambda>_. holds Inv F) (pg_safe Inv)"
proof (rule tripleI)
  fix w w' e
  assume h: "holds Inv F w" and b: "pool_Begin c w = (w', Inl e)"
  from pool_Begin_cases [OF b] h show "pg_safe Inv w'" by (simp add: holds_def pg_safe_def)
next
  fix w w' x
  assume h: "holds Inv F w" and b: "pool_Begin c w = (w', Inr x)"
  from pool_Begin_cases [OF b] h show "holds Inv F w'" by (simp add: holds_def pg_safe_def)
qed

lemma triple_commit: "triple (pg_safe Inv) (poolTx_Commit c) (\<lambda>_. pg_safe Inv) (pg_safe Inv)"
  using keeps_safe_tx(2) [of Inv c] unfolding keeps_def pg_keeps_safe_def
  by (intro tripleI) (metis fst_conv)+

lemma triple_rollback:
  assumes "triple P m (\<lambda>_. pg_safe Inv) (pg_safe Inv)"
  shows "triple P (gdefer (poolTx_Rollback c) m) (\<lambda>_. pg_safe Inv) (pg_safe Inv)"
  unfolding triple_def
proof (intro allI impI)
  fix w assume "P w"
  then have "pg_safe Inv (fst (m w))" by (rule triple_end [OF assms])
  then have "pg_safe Inv (poolTx_Rollback c (fst (m w)))"
    using keeps_safe_tx(3) [of Inv "fst (m w)" c] by (simp add: pg_keeps_safe_def)
  then show "case gdefer (poolTx_Rollback c) m w of (w', Inl e) \<Rightarrow> pg_safe Inv w' | (w', Inr x) \<Rightarrow> pg_safe Inv w'"
    by (cases "m w") (auto simp: gdefer_def split: sum.split)
qed

lemma triple_run_tx:
  assumes body: "\<And>c. triple (holds Inv F) (fn c) (\<lambda>_. pg_safe Inv) (pg_safe Inv)"
  shows "triple (holds Inv F) (run_maybe_tx mp ob (Some (PoolTransactor mp')) c fn)
    (\<lambda>_. pg_safe Inv) (pg_safe Inv)"
proof (cases "ob = None \<or> ctx_tx c")
  case True
  then have "run_maybe_tx mp ob (Some (PoolTransactor mp')) c fn = fn c"
    by (auto simp: run_maybe_tx_def split: option.split)
  then show ?thesis using body by simp
next
  case False
  then obtain o' where o: "ob = Some o'" by auto
  have run: "run_maybe_tx mp ob (Some (PoolTransactor mp')) c fn =
      gcase (gmaperr mp' (pool_Begin c)) (\<lambda>e. gfail (mp e)) (\<lambda>_.
        gdefer (poolTx_Rollback c)
          (gbind (fn (WithTx c)) (\<lambda>x. gcase (poolTx_Commit c) (\<lambda>e. gfail (mp e)) (\<lambda>_. gret x))))"
    using False by (simp add: run_maybe_tx_def o PoolTransactor_def)
  have com: "triple (pg_safe Inv) (gcase (poolTx_Commit c) (\<lambda>e. gfail (mp e)) (\<lambda>_. gret x))
      (\<lambda>_. pg_safe Inv) (pg_safe Inv)" for x :: 'b
    by (rule triple_gcase [OF triple_commit]) (auto intro: triple_gfail triple_gret)
  have fin: "triple (holds Inv F) (gdefer (poolTx_Rollback c)
      (gbind (fn (WithTx c)) (\<lambda>x. gcase (poolTx_Commit c) (\<lambda>e. gfail (mp e)) (\<lambda>_. gret x))))
      (\<lambda>_. pg_safe Inv) (pg_safe Inv)"
    by (rule triple_rollback, rule triple_gbind [OF body com])
  show ?thesis
    unfolding run by (rule triple_gcase [OF triple_gmaperr [OF triple_begin] _ fin]) (auto intro: triple_gfail)
qed

end
