(* ===== verification/Services.thy ===== *)
theory Services
  imports Needs Offers Transactions Payments Deliveries Disputes
begin

text \<open>
  What the operations of the services leave alone: whatever relation between worlds the stores, the
  outbox, the transactor, the clock and the random source of a service keep, its operations keep. The
  marketplace instantiates it with the invariant of the database and with what a running transaction
  leaves alone.
\<close>

section \<open>Keeping through optional dependencies\<close>

definition keeps_opt :: "('w \<Rightarrow> 'w \<Rightarrow> bool) \<Rightarrow> ('x \<Rightarrow> ('w, 'a) go) option \<Rightarrow> bool" where
  "keeps_opt le f \<longleftrightarrow> (\<forall>g x. f = Some g \<longrightarrow> keeps le (g x))"

definition keeps_opt2 :: "('w \<Rightarrow> 'w \<Rightarrow> bool) \<Rightarrow> ('x \<Rightarrow> 'y \<Rightarrow> ('w, 'a) go) option \<Rightarrow> bool" where
  "keeps_opt2 le f \<longleftrightarrow> (\<forall>g x y. f = Some g \<longrightarrow> keeps le (g x y))"

definition keeps_opt3 :: "('w \<Rightarrow> 'w \<Rightarrow> bool) \<Rightarrow> ('x \<Rightarrow> 'y \<Rightarrow> 'z \<Rightarrow> ('w, 'a) go) option \<Rightarrow> bool" where
  "keeps_opt3 le f \<longleftrightarrow> (\<forall>g x y z. f = Some g \<longrightarrow> keeps le (g x y z))"

definition keeps_tx :: "('w \<Rightarrow> 'w \<Rightarrow> bool) \<Rightarrow> 'w transactor option \<Rightarrow> bool" where
  "keeps_tx le tx \<longleftrightarrow> (\<forall>t c. tx = Some t \<longrightarrow>
     keeps le (tx_Begin t c) \<and> keeps le (tx_Commit t c) \<and> (\<forall>w. le w (tx_Rollback t c w)))"

lemma keeps_optD: "keeps_opt le (Some g) \<Longrightarrow> keeps le (g x)"
  and keeps_opt2D: "keeps_opt2 le (Some h) \<Longrightarrow> keeps le (h x y)"
  and keeps_opt3D: "keeps_opt3 le (Some i) \<Longrightarrow> keeps le (i x y z)"
  by (simp_all add: keeps_opt_def keeps_opt2_def keeps_opt3_def)

text \<open>A store: its reads, and its reads and updates.\<close>

definition txn_store_keeps :: "('w \<Rightarrow> 'w \<Rightarrow> bool) \<Rightarrow> 'w txn_store option \<Rightarrow> bool" where
  "txn_store_keeps le st \<longleftrightarrow> keeps_opt2 le (map_option ts_Get st) \<and>
     keeps_opt2 le (map_option ts_GetByOfferID st) \<and> keeps_opt2 le (map_option ts_ListForParticipant st) \<and>
     keeps_opt3 le (map_option ts_Update st)"

definition txn_service_keeps :: "('w \<Rightarrow> 'w \<Rightarrow> bool) \<Rightarrow> 'w txn_service \<Rightarrow> bool" where
  "txn_service_keeps le s \<longleftrightarrow> txn_store_keeps le (tsv_store s) \<and> keeps_opt2 le (tsv_offers s) \<and>
     keeps_opt2 le (map_option nl_GetNeed (tsv_needs s)) \<and> (\<forall>w. le w (fst (tsv_now s w))) \<and>
     (\<forall>w. le w (fst (tsv_rand s w))) \<and> keeps_tx le (tsv_tx s) \<and> keeps_opt2 le (tsv_outbox s)"

lemma txn_service_keepsD:
  assumes "txn_service_keeps le s"
  shows "tsv_store s = Some st \<Longrightarrow> keeps le (ts_Get st c i)"
    and "tsv_store s = Some st \<Longrightarrow> keeps le (ts_GetByOfferID st c i)"
    and "tsv_store s = Some st \<Longrightarrow> keeps le (ts_ListForParticipant st c i)"
    and "tsv_store s = Some st \<Longrightarrow> keeps le (ts_Update st c t v)"
    and "tsv_offers s = Some f \<Longrightarrow> keeps le (f c i)"
    and "tsv_needs s = Some n \<Longrightarrow> keeps le (nl_GetNeed n c i)"
    and "le w (fst (tsv_now s w))" and "le w (fst (tsv_rand s w))"
    and "tsv_tx s = Some t' \<Longrightarrow>
      keeps le (tx_Begin t' c) \<and> keeps le (tx_Commit t' c) \<and> (\<forall>w. le w (tx_Rollback t' c w))"
    and "tsv_outbox s = Some enq \<Longrightarrow> keeps le (enq c e)"
  using assms
  by (simp_all add: txn_service_keeps_def txn_store_keeps_def keeps_opt2_def keeps_opt3_def keeps_tx_def)

definition need_service_keeps :: "('w \<Rightarrow> 'w \<Rightarrow> bool) \<Rightarrow> 'w need_service \<Rightarrow> bool" where
  "need_service_keeps le s \<longleftrightarrow> keeps_opt2 le (map_option ns_Create (nsv_store s)) \<and>
     keeps_opt2 le (map_option ns_Get (nsv_store s)) \<and>
     keeps_opt2 le (map_option ns_ListByRequester (nsv_store s)) \<and>
     keeps_opt3 le (map_option ns_Update (nsv_store s)) \<and> keeps_opt2 le (nsv_categories s) \<and>
     keeps_opt2 le (nsv_candidates s) \<and> (\<forall>w. le w (fst (nsv_now s w))) \<and> (\<forall>w. le w (fst (nsv_rand s w)))"

lemma need_service_keepsD:
  assumes "need_service_keeps le s"
  shows "nsv_store s = Some st \<Longrightarrow> keeps le (ns_Create st c n)"
    and "nsv_store s = Some st \<Longrightarrow> keeps le (ns_Get st c i)"
    and "nsv_store s = Some st \<Longrightarrow> keeps le (ns_ListByRequester st c i)"
    and "nsv_store s = Some st \<Longrightarrow> keeps le (ns_Update st c n v)"
    and "nsv_categories s = Some f \<Longrightarrow> keeps le (f c i)"
    and "nsv_candidates s = Some g \<Longrightarrow> keeps le (g c q)"
    and "le w (fst (nsv_now s w))" and "le w (fst (nsv_rand s w))"
  using assms by (simp_all add: need_service_keeps_def keeps_opt2_def keeps_opt3_def)

text \<open>Of the offers, the reads, the insertion of a new one and the acceptance; of the others, the reads and
  the updates. What the remaining writes keep depends on what the service has read before.\<close>

definition offer_service_keeps :: "('w \<Rightarrow> 'w \<Rightarrow> bool) \<Rightarrow> 'w offer_service \<Rightarrow> bool" where
  "offer_service_keeps le s \<longleftrightarrow> keeps_opt2 le (map_option ofs_Create (osv_store s)) \<and>
     keeps_opt2 le (map_option ofs_Get (osv_store s)) \<and> keeps_opt2 le (map_option ofs_ListByNeed (osv_store s)) \<and>
     keeps_opt2 le (map_option ofs_ListByProvider (osv_store s)) \<and>
     keeps_opt3 le (map_option ofs_FindSubmitted (osv_store s)) \<and>
     (\<forall>st c i k t. osv_store s = Some st \<longrightarrow> keeps le (ofs_AcceptExclusive st c i k t)) \<and>
     keeps_opt2 le (map_option nl_GetNeed (osv_needs s)) \<and>
     keeps_opt3 le (map_option nl_AssertOwnedBy (osv_needs s)) \<and> keeps_opt2 le (osv_eligibility s) \<and>
     keeps_opt3 le (osv_businessOwner s) \<and> (\<forall>w. le w (fst (osv_now s w))) \<and>
     (\<forall>w. le w (fst (osv_rand s w))) \<and> keeps_tx le (osv_tx s) \<and> keeps_opt2 le (osv_outbox s)"

lemma offer_service_keepsD:
  assumes "offer_service_keeps le s"
  shows "osv_store s = Some st \<Longrightarrow> keeps le (ofs_Create st c n)"
    and "osv_store s = Some st \<Longrightarrow> keeps le (ofs_Get st c i)"
    and "osv_store s = Some st \<Longrightarrow> keeps le (ofs_ListByNeed st c i)"
    and "osv_store s = Some st \<Longrightarrow> keeps le (ofs_ListByProvider st c i)"
    and "osv_store s = Some st \<Longrightarrow> keeps le (ofs_FindSubmitted st c i k)"
    and "osv_store s = Some st \<Longrightarrow> keeps le (ofs_AcceptExclusive st c i k t)"
    and "osv_needs s = Some n' \<Longrightarrow> keeps le (nl_GetNeed n' c i)"
    and "osv_needs s = Some n' \<Longrightarrow> keeps le (nl_AssertOwnedBy n' c i k)"
    and "osv_eligibility s = Some f \<Longrightarrow> keeps le (f c q)"
    and "osv_businessOwner s = Some g \<Longrightarrow> keeps le (g c i k)"
    and "le w (fst (osv_now s w))" and "le w (fst (osv_rand s w))"
    and "osv_tx s = Some t' \<Longrightarrow>
      keeps le (tx_Begin t' c) \<and> keeps le (tx_Commit t' c) \<and> (\<forall>w. le w (tx_Rollback t' c w))"
    and "osv_outbox s = Some enq \<Longrightarrow> keeps le (enq c e)"
  using assms
  by (simp_all add: offer_service_keeps_def keeps_opt2_def keeps_opt3_def keeps_tx_def)

definition payment_service_keeps :: "('w \<Rightarrow> 'w \<Rightarrow> bool) \<Rightarrow> 'w payment_service \<Rightarrow> bool" where
  "payment_service_keeps le s \<longleftrightarrow> keeps_opt2 le (map_option ps_Get (psv_store s)) \<and>
     keeps_opt2 le (map_option ps_GetByTransactionID (psv_store s)) \<and>
     keeps_opt2 le (map_option ps_ListForParticipant (psv_store s)) \<and>
     keeps_opt3 le (map_option ps_Update (psv_store s)) \<and> keeps_opt2 le (psv_txns s) \<and>
     (\<forall>w. le w (fst (psv_now s w))) \<and> (\<forall>w. le w (fst (psv_rand s w)))"

lemma payment_service_keepsD:
  assumes "payment_service_keeps le s"
  shows "psv_store s = Some st \<Longrightarrow> keeps le (ps_Get st c i)"
    and "psv_store s = Some st \<Longrightarrow> keeps le (ps_GetByTransactionID st c i)"
    and "psv_store s = Some st \<Longrightarrow> keeps le (ps_ListForParticipant st c i)"
    and "psv_store s = Some st \<Longrightarrow> keeps le (ps_Update st c p v)"
    and "psv_txns s = Some f \<Longrightarrow> keeps le (f c i)"
    and "le w (fst (psv_now s w))" and "le w (fst (psv_rand s w))"
  using assms by (simp_all add: payment_service_keeps_def keeps_opt2_def keeps_opt3_def)

definition delivery_service_keeps :: "('w \<Rightarrow> 'w \<Rightarrow> bool) \<Rightarrow> 'w delivery_service \<Rightarrow> bool" where
  "delivery_service_keeps le s \<longleftrightarrow> keeps_opt2 le (map_option ls_Get (lsv_store s)) \<and>
     keeps_opt2 le (map_option ls_GetByTransactionID (lsv_store s)) \<and>
     keeps_opt2 le (map_option ls_ListForParticipant (lsv_store s)) \<and>
     keeps_opt3 le (map_option ls_Update (lsv_store s)) \<and> keeps_opt2 le (lsv_txns s) \<and>
     (\<forall>w. le w (fst (lsv_now s w))) \<and> (\<forall>w. le w (fst (lsv_rand s w))) \<and> keeps_tx le (lsv_tx s) \<and>
     keeps_opt2 le (lsv_outbox s)"

lemma delivery_service_keepsD:
  assumes "delivery_service_keeps le s"
  shows "lsv_store s = Some st \<Longrightarrow> keeps le (ls_Get st c i)"
    and "lsv_store s = Some st \<Longrightarrow> keeps le (ls_GetByTransactionID st c i)"
    and "lsv_store s = Some st \<Longrightarrow> keeps le (ls_ListForParticipant st c i)"
    and "lsv_store s = Some st \<Longrightarrow> keeps le (ls_Update st c d v)"
    and "lsv_txns s = Some f \<Longrightarrow> keeps le (f c i)"
    and "le w (fst (lsv_now s w))" and "le w (fst (lsv_rand s w))"
    and "lsv_tx s = Some t' \<Longrightarrow>
      keeps le (tx_Begin t' c) \<and> keeps le (tx_Commit t' c) \<and> (\<forall>w. le w (tx_Rollback t' c w))"
    and "lsv_outbox s = Some enq \<Longrightarrow> keeps le (enq c e)"
  using assms by (simp_all add: delivery_service_keeps_def keeps_opt2_def keeps_opt3_def keeps_tx_def)

definition dispute_service_keeps :: "('w \<Rightarrow> 'w \<Rightarrow> bool) \<Rightarrow> 'w dispute_service \<Rightarrow> bool" where
  "dispute_service_keeps le s \<longleftrightarrow> keeps_opt2 le (map_option ds_Get (dsv_store s)) \<and>
     keeps_opt2 le (map_option ds_GetActiveByTransactionID (dsv_store s)) \<and>
     keeps_opt2 le (map_option ds_ListConcludedByTransactionID (dsv_store s)) \<and>
     keeps_opt2 le (map_option ds_ListForParticipant (dsv_store s)) \<and>
     keeps_opt3 le (map_option ds_Update (dsv_store s)) \<and>
     keeps_opt2 le (map_option ds_AppendEvidence (dsv_store s)) \<and>
     keeps_opt2 le (map_option ds_ListEvidence (dsv_store s)) \<and> keeps_opt2 le (dsv_txns s) \<and>
     keeps_opt2 le (dsv_deliveries s) \<and>
     (\<forall>w. le w (fst (dsv_now s w))) \<and> (\<forall>w. le w (fst (dsv_rand s w))) \<and> keeps_tx le (dsv_tx s) \<and>
     keeps_opt2 le (dsv_outbox s)"

lemma dispute_service_keepsD:
  assumes "dispute_service_keeps le s"
  shows "dsv_store s = Some st \<Longrightarrow> keeps le (ds_Get st c i)"
    and "dsv_store s = Some st \<Longrightarrow> keeps le (ds_GetActiveByTransactionID st c i)"
    and "dsv_store s = Some st \<Longrightarrow> keeps le (ds_ListConcludedByTransactionID st c i)"
    and "dsv_store s = Some st \<Longrightarrow> keeps le (ds_ListForParticipant st c i)"
    and "dsv_store s = Some st \<Longrightarrow> keeps le (ds_Update st c d v)"
    and "dsv_store s = Some st \<Longrightarrow> keeps le (ds_AppendEvidence st c ev)"
    and "dsv_store s = Some st \<Longrightarrow> keeps le (ds_ListEvidence st c i)"
    and "dsv_txns s = Some f \<Longrightarrow> keeps le (f c i)"
    and "dsv_deliveries s = Some g \<Longrightarrow> keeps le (g c i)"
    and "le w (fst (dsv_now s w))" and "le w (fst (dsv_rand s w))"
    and "dsv_tx s = Some t' \<Longrightarrow>
      keeps le (tx_Begin t' c) \<and> keeps le (tx_Commit t' c) \<and> (\<forall>w. le w (tx_Rollback t' c w))"
    and "dsv_outbox s = Some enq \<Longrightarrow> keeps le (enq c e)"
  using assms by (simp_all add: dispute_service_keeps_def keeps_opt2_def keeps_opt3_def keeps_tx_def)

section \<open>The operations\<close>

context world_order
begin

lemma keeps_case_prod [intro]: "(\<And>x y. keeps le (f x y)) \<Longrightarrow> keeps le (case p of (x, y) \<Rightarrow> f x y)"
  by (cases p) simp

lemma keeps_case_option [intro]:
  "keeps le n \<Longrightarrow> (\<And>x. keeps le (f x)) \<Longrightarrow> keeps le (case d of None \<Rightarrow> n | Some x \<Rightarrow> f x)"
  by (cases d) simp_all

lemmas keeps_rules = keeps_gret keeps_gfail keeps_gpure keeps_gcase keeps_gbind keeps_gmaperr keeps_gguard
  keeps_gneed keeps_gread keeps_if keeps_case_prod keeps_case_option keeps_run_tx keeps_enqueue

lemma txn_ops_keep:
  assumes s: "txn_service_keeps le s"
  shows "keeps le (txn_svc_get s c i)" and "keeps le (txn_svc_Get s c u i)" and "keeps le (txn_svc_ListMine s c u)"
    and "keeps le (txn_GetTransaction s c i)"
    and "keeps le (txn_svc_Start s c u i)" and "keeps le (txn_svc_Complete s c u i)"
    and "keeps le (txn_svc_Cancel s c u i)"
proof -
  note D = txn_service_keepsD [OF s]
  have get: "keeps le (txn_svc_get s c i)" for c i
    unfolding txn_svc_get_def by (intro keeps_rules D(1))
  show "keeps le (txn_svc_get s c i)" by (rule get)
  have got: "keeps le (txn_svc_Get s c u i)" for c u i
    unfolding txn_svc_Get_def by (intro keeps_rules get)
  show "keeps le (txn_svc_Get s c u i)" by (rule got)
  show "keeps le (txn_svc_ListMine s c u)"
    unfolding txn_svc_ListMine_def by (intro keeps_rules D(3))
  show "keeps le (txn_GetTransaction s c i)"
    unfolding txn_GetTransaction_def by (intro keeps_rules get)
  have need: "keeps le (txn_sourceNeed s c t)" for c t
    unfolding txn_sourceNeed_def txn_getNeed_def by (intro keeps_rules D(6))
  have commit: "keeps le (txn_runMaybeTx s c (txn_commit s st u emit cur nxt))"
    if "tsv_store s = Some st" for c st u emit cur nxt
    unfolding txn_runMaybeTx_def txn_commit_def txn_enqueueCompleted_def txn_enqueueLifecycle_def
    by (intro keeps_rules D(9) D(4) [OF that] D(10))
  have app: "keeps le (txn_apply s c u i fn emit)" if "\<And>t now. keeps le (fn t now)" for c u i fn emit
    unfolding txn_apply_def by (intro keeps_rules got D(7) that commit)
  show "keeps le (txn_svc_Start s c u i)"
    unfolding txn_svc_Start_def txn_start_fn_def txn_requireNeedOpenForTxn_def
    by (intro app keeps_rules need)
  show "keeps le (txn_svc_Complete s c u i)"
    unfolding txn_svc_Complete_def txn_complete_fn_def txn_requireNeedCompletableForTxn_def
    by (intro app keeps_rules need)
  show "keeps le (txn_svc_Cancel s c u i)"
    unfolding txn_svc_Cancel_def by (intro app keeps_rules)
qed

lemma need_ops_keep:
  assumes s: "need_service_keeps le s"
  shows "keeps le (need_svc_get s c i)" and "keeps le (need_svc_GetOwned s c u i)"
    and "keeps le (need_svc_ListOwned s c u)" and "keeps le (need_svc_Create s c u n)"
    and "keeps le (need_svc_Update s c u i n)" and "keeps le (need_svc_Open s c u i)"
    and "keeps le (need_svc_Fulfill s c u i)" and "keeps le (need_svc_Cancel s c u i)"
    and "keeps le (need_svc_ExpireIfDue s c i)" and "keeps le (need_svc_ListCandidates s c u i k)"
    and "keeps le (need_GetNeed s c i)" and "keeps le (need_AssertOwnedBy s c i u)"
    and "keeps le (need_FulfillFromCompletedTransaction s c cmd)"
proof -
  note D = need_service_keepsD [OF s]
  have get: "keeps le (need_svc_get s c i)" for c i
    unfolding need_svc_get_def by (intro keeps_rules D(2))
  show "keeps le (need_svc_get s c i)" by (rule get)
  have own: "keeps le (need_svc_GetOwned s c u i)" for c u i
    unfolding need_svc_GetOwned_def by (intro keeps_rules get)
  show "keeps le (need_svc_GetOwned s c u i)" by (rule own)
  show "keeps le (need_svc_ListOwned s c u)"
    unfolding need_svc_ListOwned_def by (intro keeps_rules D(3))
  have cat: "keeps le (need_validateCategory s c k)" for c k
    unfolding need_validateCategory_def by (intro keeps_rules D(5))
  show "keeps le (need_svc_Create s c u n)"
    unfolding need_svc_Create_def by (intro keeps_rules cat D(1,7,8))
  have mut: "keeps le (need_mutateOwned s c u i fn)" for c u i fn
    unfolding need_mutateOwned_def by (intro keeps_rules own D(4,7))
  show "keeps le (need_svc_Update s c u i n)"
    unfolding need_svc_Update_def by (intro keeps_rules cat mut)
  show "keeps le (need_svc_Open s c u i)" "keeps le (need_svc_Fulfill s c u i)" "keeps le (need_svc_Cancel s c u i)"
    unfolding need_svc_Open_def need_svc_Fulfill_def need_svc_Cancel_def by (rule mut)+
  show "keeps le (need_svc_ExpireIfDue s c i)"
    unfolding need_svc_ExpireIfDue_def by (intro keeps_rules get D(4,7))
  show "keeps le (need_svc_ListCandidates s c u i k)"
    unfolding need_svc_ListCandidates_def by (intro keeps_rules own D(6))
  have ref: "keeps le (need_GetNeed s c i)" for c i
    unfolding need_GetNeed_def by (intro keeps_rules get)
  show "keeps le (need_GetNeed s c i)" by (rule ref)
  show "keeps le (need_AssertOwnedBy s c i u)"
    unfolding need_AssertOwnedBy_def by (intro keeps_rules ref)
  show "keeps le (need_FulfillFromCompletedTransaction s c cmd)"
    unfolding need_FulfillFromCompletedTransaction_def by (intro keeps_rules get D(4,7))
qed

lemma offer_ops_keep:
  assumes s: "offer_service_keeps le s"
  shows "keeps le (offer_svc_get s c i)" and "keeps le (offer_assertNeedOwner s c i u)"
    and "keeps le (offer_svc_Create s c u n)" and "keeps le (offer_svc_ListForRequester s c u i)"
    and "keeps le (offer_svc_ListMine s c u)" and "keeps le (offer_svc_Accept s c u i k)"
    and "keeps le (offer_ProviderNeedView s c u i k b)" and "keeps le (offer_GetOffer s c i)"
proof -
  note D = offer_service_keepsD [OF s]
  have get: "keeps le (offer_svc_get s c i)" for c i
    unfolding offer_svc_get_def by (intro keeps_rules D(2))
  show "keeps le (offer_svc_get s c i)" by (rule get)
  have own: "keeps le (offer_assertNeedOwner s c i u)" for c i u
    unfolding offer_assertNeedOwner_def by (intro keeps_rules D(8))
  show "keeps le (offer_assertNeedOwner s c i u)" by (rule own)
  have opn: "keeps le (offer_requireOpenNeed s c i)" for c i
    unfolding offer_requireOpenNeed_def offer_svc_getNeed_def by (intro keeps_rules D(7))
  have biz: "keeps le (offer_assertBusinessOwner s c i u)" for c i u
    unfolding offer_assertBusinessOwner_def by (intro keeps_rules D(10))
  have el: "keeps le (offer_assertEligible s c n i k)" for c n i k
    unfolding offer_assertEligible_def by (intro keeps_rules D(9))
  have ls: "keeps le (offer_svc_listByNeed s c i)" for c i
    unfolding offer_svc_listByNeed_def by (intro keeps_rules D(3))
  have ev: "keeps le (offer_enqueueTransition s c ty tr x r a)" for c ty tr x r a
    unfolding offer_enqueueTransition_def by (intro keeps_rules D(14))
  have rej: "keeps le (offer_enqueueRejected s c r xs)" for c r xs
  proof (induction xs)
    case Nil
    show ?case unfolding offer_enqueueRejected.simps by (rule keeps_gret)
  next
    case (Cons x xs)
    then show ?case unfolding offer_enqueueRejected.simps by (intro keeps_rules ev)
  qed
  show "keeps le (offer_svc_Create s c u n)"
    unfolding offer_svc_Create_def offer_runMaybeTx_def by (intro keeps_rules opn biz el ev D)
  show "keeps le (offer_svc_ListForRequester s c u i)"
    unfolding offer_svc_ListForRequester_def by (intro keeps_rules own ls)
  show "keeps le (offer_svc_ListMine s c u)"
    unfolding offer_svc_ListMine_def by (intro keeps_rules D(4))
  show "keeps le (offer_svc_Accept s c u i k)"
    unfolding offer_svc_Accept_def offer_runMaybeTx_def Let_def
    by (intro keeps_rules own opn get ls ev rej D)
  show "keeps le (offer_ProviderNeedView s c u i k b)"
    unfolding offer_ProviderNeedView_def by (intro keeps_rules opn biz el)
  show "keeps le (offer_GetOffer s c i)"
    unfolding offer_GetOffer_def by (intro keeps_rules get)
qed

lemma pay_ops_keep:
  assumes s: "payment_service_keeps le s"
  shows "keeps le (pay_svc_get s c i)" and "keeps le (pay_svc_Get s c u i)" and "keeps le (pay_svc_ListMine s c u)"
    and "keeps le (pay_svc_ApplyAuthorized s c i g)" and "keeps le (pay_svc_ApplyCaptured s c i g)"
    and "keeps le (pay_svc_ApplyCancelled s c i g)" and "keeps le (pay_svc_ApplyFailed s c i g)"
proof -
  note D = payment_service_keepsD [OF s]
  have get: "keeps le (pay_svc_get s c i)" for c i
    unfolding pay_svc_get_def by (intro keeps_rules D(1))
  show "keeps le (pay_svc_get s c i)" by (rule get)
  show "keeps le (pay_svc_Get s c u i)"
    unfolding pay_svc_Get_def by (intro keeps_rules get)
  show "keeps le (pay_svc_ListMine s c u)"
    unfolding pay_svc_ListMine_def by (intro keeps_rules D(3))
  have app: "keeps le (pay_applyInternal s c i fn)" for fn
    unfolding pay_applyInternal_def by (intro keeps_rules get D(4,6))
  show "keeps le (pay_svc_ApplyAuthorized s c i g)" "keeps le (pay_svc_ApplyCaptured s c i g)"
    "keeps le (pay_svc_ApplyCancelled s c i g)" "keeps le (pay_svc_ApplyFailed s c i g)"
    unfolding pay_svc_ApplyAuthorized_def pay_svc_ApplyCaptured_def pay_svc_ApplyCancelled_def
      pay_svc_ApplyFailed_def by (rule app)+
qed

lemma del_ops_keep:
  assumes s: "delivery_service_keeps le s"
  shows "keeps le (del_svc_Get s c u i)" and "keeps le (del_svc_ListMine s c u)"
    and "keeps le (del_svc_MarkReady s c u i)" and "keeps le (del_svc_MarkInTransit s c u i)"
    and "keeps le (del_svc_MarkDelivered s c u i)" and "keeps le (del_svc_Cancel s c u i)"
    and "keeps le (del_GetDelivery s c i)" and "keeps le (del_GetDeliveryByTransaction s c i)"
proof -
  note D = delivery_service_keepsD [OF s]
  have get: "keeps le (del_svc_get s c i)" for c i
    unfolding del_svc_get_def by (intro keeps_rules D(1))
  show "keeps le (del_svc_Get s c u i)"
    unfolding del_svc_Get_def by (intro keeps_rules get)
  show "keeps le (del_svc_ListMine s c u)"
    unfolding del_svc_ListMine_def by (intro keeps_rules D(3))
  have txn: "keeps le (del_refuseIfTransactionCancelled s c i)" for c i
    unfolding del_refuseIfTransactionCancelled_def del_getTransaction_def by (intro keeps_rules D(5))
  have app: "keeps le (del_apply s c cur u fn b)" for cur u fn b
    unfolding del_apply_def del_runMaybeTx_def del_enqueueStatus_def by (intro keeps_rules get txn D)
  have auth: "keeps le (del_authorizeParticipant s c u i)" for u i
    unfolding del_authorizeParticipant_def by (intro keeps_rules get)
  show "keeps le (del_svc_MarkReady s c u i)" "keeps le (del_svc_MarkInTransit s c u i)"
    "keeps le (del_svc_MarkDelivered s c u i)" "keeps le (del_svc_Cancel s c u i)"
    unfolding del_svc_MarkReady_def del_svc_MarkInTransit_def del_svc_MarkDelivered_def del_svc_Cancel_def
      del_applyProvider_def del_applyParticipant_def by (intro keeps_rules auth app)+
  show "keeps le (del_GetDelivery s c i)"
    unfolding del_GetDelivery_def by (intro keeps_rules get)
  show "keeps le (del_GetDeliveryByTransaction s c i)"
    unfolding del_GetDeliveryByTransaction_def by (intro keeps_rules D(2))
qed

lemma dis_ops_keep:
  assumes s: "dispute_service_keeps le s"
  shows "keeps le (dis_svc_Get s c u i)" and "keeps le (dis_svc_GetInternal s c i)"
    and "keeps le (dis_svc_ListMine s c u)" and "keeps le (dis_svc_Withdraw s c u i)"
    and "keeps le (dis_svc_StartReview s c i)" and "keeps le (dis_svc_Resolve s c i code)"
    and "keeps le (dis_svc_Close s c i)" and "keeps le (dis_svc_AddEvidence s c u i inp)"
    and "keeps le (dis_svc_AddInternalEvidence s c i inp a)" and "keeps le (dis_svc_ListEvidence s c u i)"
    and "keeps le (dis_svc_ListEvidenceInternal s c i)" and "keeps le (dis_GetDispute s c i)"
proof -
  note D = dispute_service_keepsD [OF s]
  have get: "keeps le (dis_svc_get s c i)" for c i
    unfolding dis_svc_get_def by (intro keeps_rules D(1))
  have auth: "keeps le (dis_authorizeParticipant s c u i)" for u i
    unfolding dis_authorizeParticipant_def by (intro keeps_rules get)
  show "keeps le (dis_svc_Get s c u i)" "keeps le (dis_svc_GetInternal s c i)"
    unfolding dis_svc_Get_def dis_svc_GetInternal_def by (rule auth get)+
  show "keeps le (dis_svc_ListMine s c u)"
    unfolding dis_svc_ListMine_def by (intro keeps_rules D(4))
  have app: "keeps le (dis_apply s c cur u fn)" for cur u fn
    unfolding dis_apply_def dis_runMaybeTx_def dis_enqueueUpdated_def by (intro keeps_rules get D)
  show "keeps le (dis_svc_Withdraw s c u i)" "keeps le (dis_svc_StartReview s c i)"
    "keeps le (dis_svc_Resolve s c i code)" "keeps le (dis_svc_Close s c i)"
    unfolding dis_svc_Withdraw_def dis_applyParticipant_def dis_svc_StartReview_def dis_svc_Resolve_def
      dis_svc_Close_def by (intro keeps_rules auth get app)+
  have ev: "keeps le (dis_appendEvidence s c d cmd)" for d cmd
    unfolding dis_appendEvidence_def by (intro keeps_rules D)
  show "keeps le (dis_svc_AddEvidence s c u i inp)" "keeps le (dis_svc_AddInternalEvidence s c i inp a)"
    unfolding dis_svc_AddEvidence_def dis_svc_AddInternalEvidence_def Let_def
    by (intro keeps_rules auth get ev)+
  have ls: "keeps le (dis_listEvidence s c i)"
    unfolding dis_listEvidence_def by (intro keeps_rules D(7))
  show "keeps le (dis_svc_ListEvidence s c u i)" "keeps le (dis_svc_ListEvidenceInternal s c i)"
    unfolding dis_svc_ListEvidence_def dis_svc_ListEvidenceInternal_def by (intro keeps_rules auth get ls)+
  show "keeps le (dis_GetDispute s c i)"
    unfolding dis_GetDispute_def by (intro keeps_rules get)
qed

lemma completion_keeps:
  assumes "keeps_opt2 le (map_option ts_Get (ch_store h))" and "keeps_opt2 le (ch_fulfill h)"
  shows "keeps le (completion_Handle h c e)"
proof -
  have "keeps le (ts_Get st c i)" if "ch_store h = Some st" for st c i
    using assms(1) that by (simp add: keeps_opt2_def)
  moreover have "keeps le (f c x)" if "ch_fulfill h = Some f" for f c x
    using assms(2) that by (simp add: keeps_opt2_def)
  ultimately show ?thesis unfolding completion_Handle_def by (intro keeps_rules)
qed

end

end
