(* ===== verification/Marketplace.thy ===== *)
theory Marketplace
  imports Pg_Needs Pg_Offers Pg_Transactions Pg_Payments Pg_Deliveries Pg_Disputes Pg_Outbox Pg_Calls Services
begin

text \<open>
  The marketplace: the six services over one database, wired as \<open>newBusinessesNeedsAndOffersHTTP\<close> of
  \<open>cmd/server/main.go\<close> and \<open>newTransactionCompletionHandler\<close> of \<open>cmd/worker/adapter.go\<close> wire them, the
  requests they serve as a step relation, and what holds between their tables.
\<close>

section \<open>The database\<close>

record market =
  mk_needs :: "(ID, need) gomap"
  mk_offers :: "(ID, offer) gomap"
  mk_txns :: "(ID, txn) gomap"
  mk_payments :: "(ID, payment) gomap"
  mk_deliveries :: "(ID, delivery) gomap"
  mk_disputes :: "(ID, dispute) gomap"
  mk_evidence :: "(ID, evidence) gomap"
  mk_outbox :: "(ID, outbox_event) gomap"

abbreviation needs_table :: "(market, (ID, need) gomap) lens" where
  "needs_table \<equiv> (mk_needs, mk_needs_update)"
abbreviation offers_table :: "(market, (ID, offer) gomap) lens" where
  "offers_table \<equiv> (mk_offers, mk_offers_update)"
abbreviation txns_table :: "(market, (ID, txn) gomap) lens" where
  "txns_table \<equiv> (mk_txns, mk_txns_update)"
abbreviation payments_table :: "(market, (ID, payment) gomap) lens" where
  "payments_table \<equiv> (mk_payments, mk_payments_update)"
abbreviation deliveries_table :: "(market, (ID, delivery) gomap) lens" where
  "deliveries_table \<equiv> (mk_deliveries, mk_deliveries_update)"
abbreviation disputes_table :: "(market, (ID, dispute) gomap) lens" where
  "disputes_table \<equiv> (mk_disputes, mk_disputes_update)"
abbreviation evidence_table :: "(market, (ID, evidence) gomap) lens" where
  "evidence_table \<equiv> (mk_evidence, mk_evidence_update)"
abbreviation events_table :: "(market, (ID, outbox_event) gomap) lens" where
  "events_table \<equiv> (mk_outbox, mk_outbox_update)"

lemma market_lenses [simp]:
  "lens_ok needs_table" "lens_ok offers_table" "lens_ok txns_table" "lens_ok payments_table"
  "lens_ok deliveries_table" "lens_ok disputes_table" "lens_ok evidence_table" "lens_ok events_table"
  by (simp_all add: lens_ok_def)

section \<open>The wiring\<close>

text \<open>
  What the services take from elsewhere: the database's conversions, the packages \<open>masterdata\<close> (is a
  category published?) and \<open>businesses\<close> (candidates, eligibility, ownership), which read tables of their
  own, and the settings of the outbox.
\<close>

type_synonym store = "market pg"

record market_env =
  me_codec :: pg_codec
  me_event :: "outbox_event \<Rightarrow> outbox_event"
  me_categories :: "ctx \<Rightarrow> ID \<Rightarrow> (store, unit) go"
  me_candidates :: "ctx \<Rightarrow> candidate_query \<Rightarrow> (store, service_candidate list) go"
  me_eligibility :: "ctx \<Rightarrow> eligibility_check \<Rightarrow> (store, service_candidate) go"
  me_businessOwner :: "ctx \<Rightarrow> ID \<Rightarrow> ID \<Rightarrow> (store, unit) go"
  me_letter :: "rune \<Rightarrow> bool"
  me_lease :: duration
  me_batch :: int
  me_next :: "time \<Rightarrow> int \<Rightarrow> (store, time) go"

text \<open>They do not write the tables of the marketplace.\<close>

definition market_env_ok :: "market_env \<Rightarrow> bool" where
  "market_env_ok en \<longleftrightarrow> (\<forall>c k. keeps pg_same (me_categories en c k)) \<and>
     (\<forall>c q. keeps pg_same (me_candidates en c q)) \<and> (\<forall>c q. keeps pg_same (me_eligibility en c q)) \<and>
     (\<forall>c b u. keeps pg_same (me_businessOwner en c b u)) \<and> (\<forall>t n. keeps pg_same (me_next en t n)) \<and>
     (\<forall>e. oe_ID (me_event en e) = oe_ID e \<and> oe_IdempotencyKey (me_event en e) = oe_IdempotencyKey e \<and>
       oe_EventType (me_event en e) = oe_EventType e \<and> (oe_CompletedAt e = None \<longrightarrow> oe_CompletedAt (me_event en e) = None))"

definition market_needs :: "market_env \<Rightarrow> store need_service" where
  "market_needs en =
     \<lparr>nsv_store = Some (need_pg_store (me_codec en) needs_table), nsv_categories = Some (me_categories en),
      nsv_candidates = Some (me_candidates en), nsv_now = pg_now, nsv_rand = pg_rand\<rparr>"

definition market_outbox :: "market_env \<Rightarrow> store outbox" where
  "market_outbox en =
     \<lparr>ob_store = outbox_pg_store (me_codec en) (me_event en) events_table, ob_Lease = me_lease en,
      ob_BatchSize = me_batch en, ob_next = me_next en, ob_now = pg_now, ob_rand = pg_rand,
      ob_letter = me_letter en\<rparr>"

text \<open>The producers ignore the event \<open>Enqueue\<close> returns.\<close>

definition market_enqueue :: "market_env \<Rightarrow> store enqueuer" where
  "market_enqueue en = (\<lambda>c e. gbind (ob_Enqueue (market_outbox en) c e) (\<lambda>_. gret ()))"

definition market_offers :: "market_env \<Rightarrow> store offer_service" where
  "market_offers en =
     \<lparr>osv_store = Some (offer_pg_store (me_codec en) offers_table),
      osv_needs = Some (need_lookup_of (market_needs en)), osv_eligibility = Some (me_eligibility en),
      osv_businessOwner = Some (me_businessOwner en), osv_now = pg_now, osv_rand = pg_rand,
      osv_tx = Some (PoolTransactor offer_mapStoreErr), osv_outbox = Some (market_enqueue en)\<rparr>"

definition market_txns :: "market_env \<Rightarrow> store txn_service" where
  "market_txns en =
     \<lparr>tsv_store = Some (txn_pg_store (me_codec en) txns_table),
      tsv_offers = Some (offer_GetOffer (market_offers en)),
      tsv_needs = Some (need_lookup_of (market_needs en)), tsv_now = pg_now, tsv_rand = pg_rand,
      tsv_tx = Some (PoolTransactor txn_mapStoreErr), tsv_outbox = Some (market_enqueue en)\<rparr>"

definition market_payments :: "market_env \<Rightarrow> store payment_service" where
  "market_payments en =
     \<lparr>psv_store = Some (payment_pg_store (me_codec en) payments_table),
      psv_txns = Some (txn_GetTransaction (market_txns en)), psv_now = pg_now, psv_rand = pg_rand\<rparr>"

definition market_deliveries :: "market_env \<Rightarrow> store delivery_service" where
  "market_deliveries en =
     \<lparr>lsv_store = Some (del_pg_store (me_codec en) deliveries_table),
      lsv_txns = Some (txn_GetTransaction (market_txns en)), lsv_now = pg_now, lsv_rand = pg_rand,
      lsv_tx = Some (PoolTransactor del_mapStoreErr), lsv_outbox = Some (market_enqueue en)\<rparr>"

definition market_disputes :: "market_env \<Rightarrow> store dispute_service" where
  "market_disputes en =
     \<lparr>dsv_store = Some (dis_pg_store (me_codec en) disputes_table evidence_table),
      dsv_txns = Some (txn_GetTransaction (market_txns en)),
      dsv_deliveries = Some (del_GetDeliveryByTransaction (market_deliveries en)),
      dsv_policy = dis_DefaultWindow, dsv_now = pg_now, dsv_rand = pg_rand,
      dsv_tx = Some (PoolTransactor dis_mapStoreErr), dsv_outbox = Some (market_enqueue en)\<rparr>"

text \<open>The worker's needs service has no dependencies, so it can only apply fulfilments.\<close>

definition worker_needs :: "market_env \<Rightarrow> store need_service" where
  "worker_needs en =
     \<lparr>nsv_store = Some (need_pg_store (me_codec en) needs_table), nsv_categories = None,
      nsv_candidates = None, nsv_now = pg_now, nsv_rand = pg_rand\<rparr>"

definition worker_completion :: "market_env \<Rightarrow> store completion_handler" where
  "worker_completion en =
     \<lparr>ch_store = Some (txn_pg_store (me_codec en) txns_table),
      ch_fulfill = Some (need_FulfillFromCompletedTransaction (worker_needs en))\<rparr>"

section \<open>What the tables say of each other\<close>

definition market_tables :: "market \<Rightarrow> bool" where
  "market_tables d \<longleftrightarrow>
     table_ok need_ID need_check (\<lambda>_ _. False) (mk_needs d) \<and>
     table_ok offer_ID offer_check offer_clash (mk_offers d) \<and>
     table_ok txn_ID txn_check txn_clash (mk_txns d) \<and>
     table_ok p_ID pay_check pay_clash (mk_payments d) \<and>
     table_ok dl_ID del_check del_clash (mk_deliveries d) \<and>
     table_ok d_ID dis_check dis_clash (mk_disputes d) \<and>
     table_ok e_ID evidence_check (\<lambda>_ _. False) (mk_evidence d) \<and>
     table_ok oe_ID outbox_check outbox_clash (mk_outbox d)"

text \<open>A Transaction stands on an accepted offer of its provider for a Need of its requester.\<close>

definition txn_sourced :: "(ID, need) gomap \<Rightarrow> (ID, offer) gomap \<Rightarrow> txn \<Rightarrow> bool" where
  "txn_sourced needs offers t \<longleftrightarrow>
     (\<exists>o'. map_of offers (txn_OfferID t) = Some o' \<and> offer_Status o' = OfferAccepted \<and>
        offer_NeedID o' = txn_NeedID t \<and> offer_ProviderUserID o' = txn_ProviderUserID t) \<and>
     (\<exists>n. map_of needs (txn_NeedID t) = Some n \<and> need_RequesterUserID n = txn_RequesterUserID t)"

text \<open>Payments, deliveries and disputes are between the parties of their Transaction.\<close>

definition of_txn :: "(ID, txn) gomap \<Rightarrow> ID \<Rightarrow> ID \<Rightarrow> ID \<Rightarrow> bool" where
  "of_txn txns i requester provider \<longleftrightarrow>
     (\<exists>t. map_of txns i = Some t \<and> txn_RequesterUserID t = requester \<and> txn_ProviderUserID t = provider)"

definition all_rows :: "('r \<Rightarrow> bool) \<Rightarrow> ('k, 'r) gomap \<Rightarrow> bool" where
  "all_rows P rows \<longleftrightarrow> (\<forall>k r. map_of rows k = Some r \<longrightarrow> P r)"

definition market_links :: "market \<Rightarrow> bool" where
  "market_links d \<longleftrightarrow>
     all_rows (txn_sourced (mk_needs d) (mk_offers d)) (mk_txns d) \<and>
     all_rows (\<lambda>p. of_txn (mk_txns d) (p_TransactionID p) (p_PayerUserID p) (p_PayeeUserID p)) (mk_payments d) \<and>
     all_rows (\<lambda>x. of_txn (mk_txns d) (dl_TransactionID x) (dl_RequesterUserID x) (dl_ProviderUserID x))
       (mk_deliveries d) \<and>
     all_rows (\<lambda>x. of_txn (mk_txns d) (d_TransactionID x) (d_RequesterUserID x) (d_ProviderUserID x))
       (mk_disputes d) \<and>
     all_rows (\<lambda>e. map_of (mk_disputes d) (e_DisputeID e) \<noteq> None) (mk_evidence d)"

definition market_inv :: "market \<Rightarrow> bool" where
  "market_inv d \<longleftrightarrow> market_tables d \<and> market_links d"

text \<open>Rows may be added and rewritten as long as what other tables rely on stays.\<close>

definition extends :: "('r \<Rightarrow> 'r \<Rightarrow> bool) \<Rightarrow> ('k, 'r) gomap \<Rightarrow> ('k, 'r) gomap \<Rightarrow> bool" where
  "extends fr rows rows' \<longleftrightarrow> (\<forall>k r. map_of rows k = Some r \<longrightarrow> (\<exists>r'. map_of rows' k = Some r' \<and> fr r r'))"

definition need_stays :: "need \<Rightarrow> need \<Rightarrow> bool" where
  "need_stays n n' \<longleftrightarrow> need_RequesterUserID n' = need_RequesterUserID n"

definition offer_stays :: "offer \<Rightarrow> offer \<Rightarrow> bool" where
  "offer_stays a b \<longleftrightarrow> offer_NeedID b = offer_NeedID a \<and> offer_ProviderUserID b = offer_ProviderUserID a \<and>
     (offer_Status a = OfferAccepted \<longrightarrow> offer_Status b = OfferAccepted)"

definition txn_stays :: "txn \<Rightarrow> txn \<Rightarrow> bool" where
  "txn_stays t t' \<longleftrightarrow> txn_OfferID t' = txn_OfferID t \<and> txn_NeedID t' = txn_NeedID t \<and>
     txn_RequesterUserID t' = txn_RequesterUserID t \<and> txn_ProviderUserID t' = txn_ProviderUserID t"

lemma extends_put:
  assumes "\<And>r. map_of rows k = Some r \<Longrightarrow> fr r x" and "\<And>r. fr r r"
  shows "extends fr rows (AList.update k x rows)"
  using assms by (auto simp: extends_def)

lemma all_rows_put: "all_rows P rows \<Longrightarrow> P x \<Longrightarrow> all_rows P (AList.update k x rows)"
  by (auto simp: all_rows_def)

lemma all_rows_mono: "all_rows P rows \<Longrightarrow> (\<And>r. P r \<Longrightarrow> Q r) \<Longrightarrow> all_rows Q rows"
  by (auto simp: all_rows_def)

lemma all_rowsD: "all_rows P rows \<Longrightarrow> map_of rows k = Some r \<Longrightarrow> P r"
  by (auto simp: all_rows_def)

lemma sourced_needs: "extends need_stays needs needs' \<Longrightarrow> txn_sourced needs offers t \<Longrightarrow> txn_sourced needs' offers t"
  unfolding txn_sourced_def extends_def need_stays_def by metis

lemma sourced_offers: "extends offer_stays offers offers' \<Longrightarrow> txn_sourced needs offers t \<Longrightarrow> txn_sourced needs offers' t"
  unfolding txn_sourced_def extends_def offer_stays_def by metis

lemma of_txn_extends: "extends txn_stays txns txns' \<Longrightarrow> of_txn txns i r p \<Longrightarrow> of_txn txns' i r p"
  unfolding of_txn_def extends_def txn_stays_def by metis

lemma sourced_stays: "txn_stays t t' \<Longrightarrow> txn_sourced needs offers t \<Longrightarrow> txn_sourced needs offers t'"
  unfolding txn_sourced_def txn_stays_def by simp

lemma put_needs:
  assumes "market_inv d" and "table_ok need_ID need_check (\<lambda>_ _. False) rows" and "extends need_stays (mk_needs d) rows"
  shows "market_inv (d\<lparr>mk_needs := rows\<rparr>)"
  using assms sourced_needs [OF assms(3)]
  by (auto simp: market_inv_def market_tables_def market_links_def all_rows_def)

lemma put_offers:
  assumes "market_inv d" and "table_ok offer_ID offer_check offer_clash rows" and "extends offer_stays (mk_offers d) rows"
  shows "market_inv (d\<lparr>mk_offers := rows\<rparr>)"
  using assms sourced_offers [OF assms(3)]
  by (auto simp: market_inv_def market_tables_def market_links_def all_rows_def)

lemma put_txns:
  assumes "market_inv d" and "table_ok txn_ID txn_check txn_clash rows" and "extends txn_stays (mk_txns d) rows"
    and "all_rows (txn_sourced (mk_needs d) (mk_offers d)) rows"
  shows "market_inv (d\<lparr>mk_txns := rows\<rparr>)"
  using assms of_txn_extends [OF assms(3)]
  by (auto simp: market_inv_def market_tables_def market_links_def all_rows_def)

lemma put_payments:
  assumes "market_inv d" and "table_ok p_ID pay_check pay_clash rows"
    and "all_rows (\<lambda>p. of_txn (mk_txns d) (p_TransactionID p) (p_PayerUserID p) (p_PayeeUserID p)) rows"
  shows "market_inv (d\<lparr>mk_payments := rows\<rparr>)"
  using assms by (simp add: market_inv_def market_tables_def market_links_def)

lemma put_deliveries:
  assumes "market_inv d" and "table_ok dl_ID del_check del_clash rows"
    and "all_rows (\<lambda>x. of_txn (mk_txns d) (dl_TransactionID x) (dl_RequesterUserID x) (dl_ProviderUserID x)) rows"
  shows "market_inv (d\<lparr>mk_deliveries := rows\<rparr>)"
  using assms by (simp add: market_inv_def market_tables_def market_links_def)

lemma put_disputes:
  assumes "market_inv d" and "table_ok d_ID dis_check dis_clash rows"
    and "all_rows (\<lambda>x. of_txn (mk_txns d) (d_TransactionID x) (d_RequesterUserID x) (d_ProviderUserID x)) rows"
    and "extends (\<lambda>_ _. True) (mk_disputes d) rows"
  shows "market_inv (d\<lparr>mk_disputes := rows\<rparr>)"
  using assms
  by (auto simp: market_inv_def market_tables_def market_links_def all_rows_def extends_def)

lemma put_evidence:
  assumes "market_inv d" and "table_ok e_ID evidence_check (\<lambda>_ _. False) rows"
    and "all_rows (\<lambda>e. map_of (mk_disputes d) (e_DisputeID e) \<noteq> None) rows"
  shows "market_inv (d\<lparr>mk_evidence := rows\<rparr>)"
  using assms by (simp add: market_inv_def market_tables_def market_links_def)

lemma put_outbox:
  assumes "market_inv d" and "table_ok oe_ID outbox_check outbox_clash rows"
  shows "market_inv (d\<lparr>mk_outbox := rows\<rparr>)"
  using assms by (simp add: market_inv_def market_tables_def market_links_def)

end
