(* ===== verification/Market_Stores.thy ===== *)
theory Market_Stores
  imports Marketplace
begin

text \<open>
  The stores of the marketplace: no statement of theirs breaks the invariant of the database, whatever
  the server does with it, except where the row must fit what the service has read; then the triple says
  what has to hold before.
\<close>

lemma triple_keepsI:
  assumes "triple (holds Inv (\<lambda>_. True)) m (\<lambda>_. pg_safe Inv) (pg_safe Inv)"
  shows "keeps (pg_keeps_safe Inv) m"
  unfolding keeps_def pg_keeps_safe_def
proof (intro allI impI)
  fix w assume "pg_safe Inv w"
  then have "holds Inv (\<lambda>_. True) w" by (simp add: holds_def)
  then show "pg_safe Inv (fst (m w))" by (rule triple_end [OF assms])
qed

lemma same_safe: "keeps pg_same m \<Longrightarrow> keeps (pg_keeps_safe Inv) m"
  by (rule triple_keepsI, rule triple_weaken [OF triple_same]) auto

lemma clash_syms:
  "txn_clash a b \<Longrightarrow> txn_clash b a" "del_clash x y \<Longrightarrow> del_clash y x" "dis_clash u v \<Longrightarrow> dis_clash v u"
  by (simp_all add: txn_clash_def del_clash_def dis_clash_def)

lemma market_tablesD:
  assumes "market_inv d"
  shows "table_ok need_ID need_check (\<lambda>_ _. False) (mk_needs d)"
    and "table_ok offer_ID offer_check offer_clash (mk_offers d)"
    and "table_ok txn_ID txn_check txn_clash (mk_txns d)"
    and "table_ok p_ID pay_check pay_clash (mk_payments d)"
    and "table_ok dl_ID del_check del_clash (mk_deliveries d)"
    and "table_ok d_ID dis_check dis_clash (mk_disputes d)"
    and "table_ok e_ID evidence_check (\<lambda>_ _. False) (mk_evidence d)"
    and "table_ok oe_ID outbox_check outbox_clash (mk_outbox d)"
  using assms by (simp_all add: market_inv_def market_tables_def)

lemma market_linksD:
  assumes "market_inv d"
  shows "all_rows (txn_sourced (mk_needs d) (mk_offers d)) (mk_txns d)"
    and "all_rows (\<lambda>p. of_txn (mk_txns d) (p_TransactionID p) (p_PayerUserID p) (p_PayeeUserID p)) (mk_payments d)"
    and "all_rows (\<lambda>x. of_txn (mk_txns d) (dl_TransactionID x) (dl_RequesterUserID x) (dl_ProviderUserID x))
       (mk_deliveries d)"
    and "all_rows (\<lambda>x. of_txn (mk_txns d) (d_TransactionID x) (d_RequesterUserID x) (d_ProviderUserID x))
       (mk_disputes d)"
    and "all_rows (\<lambda>e. map_of (mk_disputes d) (e_DisputeID e) \<noteq> None) (mk_evidence d)"
  using assms by (simp_all add: market_inv_def market_links_def)

text \<open>A write keeps the constraints of its table.\<close>

lemma create_ok:
  assumes "table_ok key chk clash rows" and "\<And>a b. clash a b \<Longrightarrow> clash b a" and "chk r"
    and "\<not> list_ex (\<lambda>s. clash r (snd s)) rows"
  shows "table_ok key chk clash (AList.update (key r) r rows)"
  using assms by (intro table_ok_put [where key = key and clash = clash]) (auto simp: list_ex_iff)

lemma update_ok:
  assumes "table_ok key chk clash rows" and "\<And>a b. clash a b \<Longrightarrow> clash b a" and "map_of rows k = Some r"
    and "key (asg r) = key r" and "chk (asg r)"
    and "\<not> list_ex (\<lambda>s. fst s \<noteq> k \<and> clash (asg r) (snd s)) rows"
  shows "table_ok key chk clash (AList.update k (asg r) rows)"
  using assms table_okD(2) [OF assms(1,3)] by (intro table_ok_put [where key = key and clash = clash]) auto

section \<open>Reads\<close>

lemmas same_rules = world_order.keeps_rules [OF same.world_order_axioms]
lemmas safe_rules = world_order.keeps_rules [OF safe.world_order_axioms]

lemma store_reads:
  "keeps pg_same (need_pg_Get needs_table c i)" "keeps pg_same (need_pg_ListByRequester needs_table c i)"
  "keeps pg_same (offer_pg_Get offers_table c i)" "keeps pg_same (offer_pg_ListByNeed offers_table c i)"
  "keeps pg_same (offer_pg_ListByProvider offers_table c i)" "keeps pg_same (offer_pg_FindSubmitted offers_table c i k)"
  "keeps pg_same (txn_pg_Get txns_table c i)" "keeps pg_same (txn_pg_GetByOfferID txns_table c i)"
  "keeps pg_same (txn_pg_ListForParticipant txns_table c i)"
  "keeps pg_same (pay_pg_Get payments_table c i)" "keeps pg_same (pay_pg_GetByTransactionID payments_table c i)"
  "keeps pg_same (pay_pg_ListForParticipant payments_table c i)"
  "keeps pg_same (del_pg_Get deliveries_table c i)" "keeps pg_same (del_pg_GetByTransactionID deliveries_table c i)"
  "keeps pg_same (del_pg_ListForParticipant deliveries_table c i)"
  "keeps pg_same (dis_pg_Get disputes_table c i)" "keeps pg_same (dis_pg_GetActiveByTransactionID disputes_table c i)"
  "keeps pg_same (dis_pg_ListConcludedByTransactionID disputes_table c i)"
  "keeps pg_same (dis_pg_ListForParticipant disputes_table c i)" "keeps pg_same (dis_pg_ListEvidence evidence_table c i)"
  unfolding need_pg_defs offer_pg_defs txn_pg_defs pay_pg_defs del_pg_defs dis_pg_defs
    dis_pg_ListEvidence_def dis_pg_GetActiveByTransactionID_def dis_pg_ListConcludedByTransactionID_def
  by (intro pg_same_get pg_same_list market_lenses)+

section \<open>Writes that fit whatever the row is\<close>

lemma needs_writes:
  "keeps (pg_keeps_safe market_inv) (need_pg_Create cd needs_table c n)"
  "keeps (pg_keeps_safe market_inv) (need_pg_Update cd needs_table c n v)"
proof -
  show "keeps (pg_keeps_safe market_inv) (need_pg_Create cd needs_table c n)"
    unfolding need_pg_defs
  proof (intro safe_rules, rule triple_keepsI, rule triple_create)
    fix d
    assume inv: "market_inv d" and r: "need_check (need_row cd n)"
      and new: "map_of (fst needs_table d) (need_ID (need_row cd n)) = None"
      and cl: "\<not> list_ex (\<lambda>s. False) (fst needs_table d)"
    then show "market_inv (snd needs_table (\<lambda>_. AList.update (need_ID (need_row cd n)) (need_row cd n) (fst needs_table d)) d)"
      using put_needs [OF inv create_ok [OF market_tablesD(1) [OF inv] _ r]]
        extends_put [of "mk_needs d" "need_ID (need_row cd n)" need_stays "need_row cd n"]
      by (simp add: need_stays_def)
  qed
  show "keeps (pg_keeps_safe market_inv) (need_pg_Update cd needs_table c n v)"
    unfolding need_pg_defs
  proof (intro safe_rules, rule triple_keepsI, rule triple_update [OF market_lenses(1)])
    fix d r
    let ?asg = "need_set (need_row cd n)"
    assume inv: "market_inv d" and r: "map_of (fst needs_table d) (need_ID n) = Some r" and chk: "need_check (?asg r)"
    have "table_ok need_ID need_check (\<lambda>_ _. False) (AList.update (need_ID n) (?asg r) (mk_needs d))"
      using r chk by (intro update_ok [OF market_tablesD(1) [OF inv]]) (simp_all add: need_set_def list_ex_iff)
    moreover have "extends need_stays (mk_needs d) (AList.update (need_ID n) (?asg r) (mk_needs d))"
      using r by (intro extends_put) (simp_all add: need_stays_def need_set_def)
    ultimately show "market_inv (snd needs_table (\<lambda>_. AList.update (need_ID n) (?asg r) (fst needs_table d)) d)"
      using put_needs [OF inv] by simp
  qed
qed

lemma txns_update: "keeps (pg_keeps_safe market_inv) (txn_pg_Update cd txns_table c t v)"
  unfolding txn_pg_Update_def
proof (intro safe_rules, rule triple_keepsI, rule triple_update [OF market_lenses(3)])
  fix d r
  let ?asg = "txn_set (txn_row cd t)"
  assume inv: "market_inv d" and r: "map_of (fst txns_table d) (txn_ID t) = Some r" and chk: "txn_check (?asg r)"
    and cl: "\<not> list_ex (\<lambda>s. fst s \<noteq> txn_ID t \<and> txn_clash (?asg r) (snd s)) (fst txns_table d)"
  have st: "txn_stays r (?asg r)" by (simp add: txn_stays_def txn_set_def)
  have "table_ok txn_ID txn_check txn_clash (AList.update (txn_ID t) (?asg r) (mk_txns d))"
    using r chk cl by (intro update_ok [OF market_tablesD(3) [OF inv] clash_syms(1)]) (simp_all add: txn_set_def)
  moreover have "extends txn_stays (mk_txns d) (AList.update (txn_ID t) (?asg r) (mk_txns d))"
    using r st by (intro extends_put) (simp_all add: txn_stays_def)
  moreover have "txn_sourced (mk_needs d) (mk_offers d) (?asg r)"
    using sourced_stays [OF st] all_rowsD [OF market_linksD(1) [OF inv]] r by simp
  ultimately show "market_inv (snd txns_table (\<lambda>_. AList.update (txn_ID t) (?asg r) (fst txns_table d)) d)"
    using put_txns [OF inv] all_rows_put [OF market_linksD(1) [OF inv]] by simp
qed

lemma payments_update: "keeps (pg_keeps_safe market_inv) (pay_pg_Update cd payments_table c p v)"
  unfolding pay_pg_Update_def
proof (intro safe_rules, rule triple_keepsI, rule triple_update [OF market_lenses(4)])
  fix d r
  let ?asg = "pay_set (pay_row cd p)"
  assume inv: "market_inv d" and r: "map_of (fst payments_table d) (p_ID p) = Some r" and chk: "pay_check (?asg r)"
    and cl: "\<not> list_ex (\<lambda>s. fst s \<noteq> p_ID p \<and> pay_clash (?asg r) (snd s)) (fst payments_table d)"
  have "table_ok p_ID pay_check pay_clash (AList.update (p_ID p) (?asg r) (mk_payments d))"
    using r chk cl by (intro update_ok [OF market_tablesD(4) [OF inv] pay_clash_sym]) (simp_all add: pay_set_def)
  moreover have "of_txn (mk_txns d) (p_TransactionID (?asg r)) (p_PayerUserID (?asg r)) (p_PayeeUserID (?asg r))"
    using all_rowsD [OF market_linksD(2) [OF inv]] r by (simp add: pay_set_def)
  ultimately show "market_inv (snd payments_table (\<lambda>_. AList.update (p_ID p) (?asg r) (fst payments_table d)) d)"
    using put_payments [OF inv] all_rows_put [OF market_linksD(2) [OF inv]] by simp
qed

lemma deliveries_update: "keeps (pg_keeps_safe market_inv) (del_pg_Update cd deliveries_table c x v)"
  unfolding del_pg_Update_def
proof (intro safe_rules, rule triple_keepsI, rule triple_update [OF market_lenses(5)])
  fix d r
  let ?asg = "del_set (del_row cd x)"
  assume inv: "market_inv d" and r: "map_of (fst deliveries_table d) (dl_ID x) = Some r" and chk: "del_check (?asg r)"
    and cl: "\<not> list_ex (\<lambda>s. fst s \<noteq> dl_ID x \<and> del_clash (?asg r) (snd s)) (fst deliveries_table d)"
  have "table_ok dl_ID del_check del_clash (AList.update (dl_ID x) (?asg r) (mk_deliveries d))"
    using r chk cl by (intro update_ok [OF market_tablesD(5) [OF inv] clash_syms(2)]) (simp_all add: del_set_def)
  moreover have "of_txn (mk_txns d) (dl_TransactionID (?asg r)) (dl_RequesterUserID (?asg r)) (dl_ProviderUserID (?asg r))"
    using all_rowsD [OF market_linksD(3) [OF inv]] r by (simp add: del_set_def)
  ultimately show "market_inv (snd deliveries_table (\<lambda>_. AList.update (dl_ID x) (?asg r) (fst deliveries_table d)) d)"
    using put_deliveries [OF inv] all_rows_put [OF market_linksD(3) [OF inv]] by simp
qed

lemma disputes_update: "keeps (pg_keeps_safe market_inv) (dis_pg_Update cd disputes_table c x v)"
  unfolding dis_pg_Update_def
proof (intro safe_rules, rule triple_keepsI, rule triple_update [OF market_lenses(6)])
  fix d r
  let ?asg = "dis_set (dis_row cd x)"
  assume inv: "market_inv d" and r: "map_of (fst disputes_table d) (d_ID x) = Some r" and chk: "dis_check (?asg r)"
    and cl: "\<not> list_ex (\<lambda>s. fst s \<noteq> d_ID x \<and> dis_clash (?asg r) (snd s)) (fst disputes_table d)"
  have "table_ok d_ID dis_check dis_clash (AList.update (d_ID x) (?asg r) (mk_disputes d))"
    using r chk cl by (intro update_ok [OF market_tablesD(6) [OF inv] clash_syms(3)]) (simp_all add: dis_set_def)
  moreover have "of_txn (mk_txns d) (d_TransactionID (?asg r)) (d_RequesterUserID (?asg r)) (d_ProviderUserID (?asg r))"
    using all_rowsD [OF market_linksD(4) [OF inv]] r by (simp add: dis_set_def)
  moreover have "extends (\<lambda>_ _. True) (mk_disputes d) (AList.update (d_ID x) (?asg r) (mk_disputes d))"
    by (rule extends_put) simp_all
  ultimately show "market_inv (snd disputes_table (\<lambda>_. AList.update (d_ID x) (?asg r) (fst disputes_table d)) d)"
    using put_disputes [OF inv] all_rows_put [OF market_linksD(4) [OF inv]] by simp
qed

lemma evidence_append: "keeps (pg_keeps_safe market_inv) (dis_pg_AppendEvidence cd disputes_table evidence_table c e)"
  unfolding dis_pg_AppendEvidence_def
proof (intro safe_rules, rule keeps_safe_pool(1), goal_cases)
  case (1 d d' res)
  let ?r = "evidence_row cd e"
  have id: "e_DisputeID ?r = e_DisputeID e" by (simp add: evidence_row_def)
  show ?case
  proof (cases res)
    case (Inl err)
    then have "d' = d" using 1(2) by (auto split: prod.splits sum.splits if_splits)
    then show ?thesis using 1(1) by simp
  next
    case (Inr u)
    then obtain rows where ins: "pg_insert e_ID evidence_check (\<lambda>_ _. False) ?r (mk_evidence d) = (rows, Inr u)"
      and d': "d' = d\<lparr>mk_evidence := rows\<rparr>" and fk: "map_of (mk_disputes d) (e_DisputeID e) \<noteq> None"
      using 1(2) by (auto simp: on_table_def split: prod.splits sum.splits if_splits)
    have chk: "evidence_check ?r" and rows: "rows = AList.update (e_ID ?r) ?r (mk_evidence d)"
      using ins by (auto simp: pg_insert_def split: if_splits)
    have "table_ok e_ID evidence_check (\<lambda>_ _. False) rows"
      using pg_insert_ok [OF market_tablesD(7) [OF 1(1)] _ ins] by simp
    moreover have "all_rows (\<lambda>e. map_of (mk_disputes d) (e_DisputeID e) \<noteq> None) rows"
      unfolding rows using market_linksD(5) [OF 1(1)] fk id by (intro all_rows_put) simp_all
    ultimately show ?thesis unfolding d' by (rule put_evidence [OF 1(1)])
  qed
qed

lemma outbox_writes:
  "keeps (pg_keeps_safe market_inv) (outbox_pg_Insert ev events_table c e)"
  "keeps (pg_keeps_safe market_inv) (outbox_pg_Claim cd events_table c now lease limit)"
  "keeps (pg_keeps_safe market_inv) (outbox_pg_Complete cd events_table c i now)"
  "keeps (pg_keeps_safe market_inv) (outbox_pg_Reschedule cd events_table c i now cls)"
  "keeps (pg_keeps_safe market_inv) (outbox_pg_IncrementAttempts events_table c i)"
proof -
  have "table_part market_inv events_table oe_ID outbox_check outbox_clash"
    using market_tablesD(8) put_outbox outbox_clash_sym unfolding table_part_def by simp
  note safe = outbox_pg_safe [OF this]
  show "keeps (pg_keeps_safe market_inv) (outbox_pg_Insert ev events_table c e)"
    "keeps (pg_keeps_safe market_inv) (outbox_pg_Claim cd events_table c now lease limit)"
    "keeps (pg_keeps_safe market_inv) (outbox_pg_Complete cd events_table c i now)"
    "keeps (pg_keeps_safe market_inv) (outbox_pg_Reschedule cd events_table c i now cls)"
    "keeps (pg_keeps_safe market_inv) (outbox_pg_IncrementAttempts events_table c i)"
    by (rule safe)+
qed

lemma offers_create: "keeps (pg_keeps_safe market_inv) (offer_pg_Create cd offers_table c o')"
  unfolding offer_pg_Create_def
proof (intro safe_rules, rule triple_keepsI, rule triple_create)
  fix d
  let ?r = "offer_row cd o'"
  assume inv: "market_inv d" and r: "offer_check ?r"
    and new: "map_of (fst offers_table d) (offer_ID ?r) = None"
    and cl: "\<not> list_ex (\<lambda>s. offer_clash ?r (snd s)) (fst offers_table d)"
  have "table_ok offer_ID offer_check offer_clash (AList.update (offer_ID ?r) ?r (mk_offers d))"
    using cl by (intro create_ok [OF market_tablesD(2) [OF inv] offer_clash_sym r]) simp_all
  moreover have "extends offer_stays (mk_offers d) (AList.update (offer_ID ?r) ?r (mk_offers d))"
    using new by (intro extends_put) (simp_all add: offer_stays_def)
  ultimately show "market_inv (snd offers_table (\<lambda>_. AList.update (offer_ID ?r) ?r (fst offers_table d)) d)"
    using put_offers [OF inv] by simp
qed

section \<open>Writes that rely on what was read\<close>

text \<open>An offer may be changed as long as it is not accepted.\<close>

lemma triple_offer_update:
  assumes "\<And>d cur. F d \<Longrightarrow> map_of (mk_offers d) (offer_ID o') = Some cur \<Longrightarrow> offer_Status cur \<noteq> OfferAccepted"
  shows "triple (holds market_inv F) (offer_pg_Update cd offers_table c o' v)
    (\<lambda>_. pg_safe market_inv) (pg_safe market_inv)"
  unfolding offer_pg_Update_def
proof (rule triple_gguard)
  show "triple (holds market_inv F)
     (pg_occ_update offer_mapDBErr (OfferErr Offer_errConflict) offers_table offer_ID offer_check offer_clash c
       (offer_ID o') (\<lambda>r. offer_UpdatedAt r = pc_time cd v) (offer_set (offer_row cd o')))
     (\<lambda>_. pg_safe market_inv) (pg_safe market_inv)"
  proof (rule triple_update [OF market_lenses(2)])
    fix d r
    let ?asg = "offer_set (offer_row cd o')"
    assume inv: "market_inv d" and F: "F d" and r: "map_of (fst offers_table d) (offer_ID o') = Some r"
      and chk: "offer_check (?asg r)"
      and cl: "\<not> list_ex (\<lambda>s. fst s \<noteq> offer_ID o' \<and> offer_clash (?asg r) (snd s)) (fst offers_table d)"
    have "table_ok offer_ID offer_check offer_clash (AList.update (offer_ID o') (?asg r) (mk_offers d))"
      using r chk cl by (intro update_ok [OF market_tablesD(2) [OF inv] offer_clash_sym]) (simp_all add: offer_set_def)
    moreover have "extends offer_stays (mk_offers d) (AList.update (offer_ID o') (?asg r) (mk_offers d))"
      using r assms [OF F] by (intro extends_put) (simp_all add: offer_stays_def offer_set_def)
    ultimately show "market_inv (snd offers_table (\<lambda>_. AList.update (offer_ID o') (?asg r) (fst offers_table d)) d)"
      using put_offers [OF inv] by simp
  qed
qed auto

lemma triple_offer_update_post:
  assumes "\<And>d cur. F d \<Longrightarrow> map_of (mk_offers d) (offer_ID o') = Some cur \<Longrightarrow> offer_Status cur \<noteq> OfferAccepted"
    and post: "\<And>d d' cur. F d \<Longrightarrow> mk_offers d' = AList.update (offer_ID o') cur (mk_offers d) \<Longrightarrow> F' d'"
  shows "triple (holds market_inv F) (offer_pg_Update cd offers_table c o' v)
    (\<lambda>_. holds market_inv F') (pg_safe market_inv)"
proof -
  have upd: "triple (holds market_inv F) (offer_pg_Update cd offers_table c o' v)
      (\<lambda>_. pg_safe market_inv) (pg_safe market_inv)"
    by (rule triple_offer_update) (rule assms(1))
  show ?thesis
  proof (rule tripleI)
    fix w w' e
    assume "holds market_inv F w" "offer_pg_Update cd offers_table c o' v w = (w', Inl e)"
    then show "pg_safe market_inv w'" by (rule tripleD(1) [OF upd])
  next
    fix w w' x
    assume h: "holds market_inv F w" and run: "offer_pg_Update cd offers_table c o' v w = (w', Inr x)"
    then have s: "pg_safe market_inv w'" by (rule tripleD(2) [OF upd])
    obtain cur where upd: "mk_offers (pg_data w') = AList.update (offer_ID o') cur (mk_offers (pg_data w))"
      using offer_pg_Update_ok [OF market_lenses(2) run] unfolding fst_conv by blast
    have "F (pg_data w)" using h by (simp add: holds_def)
    from post [OF this upd] s show "holds market_inv F' w'" by (simp add: holds_def)
  qed
qed

lemma triple_offer_reject:
  assumes "distinct (map offer_ID list)"
  shows "triple (holds market_inv (\<lambda>d. \<forall>r \<in> set list. offer_ID r \<noteq> offerID \<longrightarrow> map_of (mk_offers d) (offer_ID r) = Some r))
    (offer_pg_reject cd offers_table c offerID now list) (\<lambda>_. pg_safe market_inv) (pg_safe market_inv)"
  using assms
proof (induction list)
  case Nil
  show ?case unfolding offer_pg_reject.simps by (rule triple_gret) auto
next
  case (Cons x xs)
  let ?F = "\<lambda>list d. \<forall>r \<in> set list. offer_ID r \<noteq> offerID \<longrightarrow> map_of (mk_offers d) (offer_ID r) = Some r"
  have IH: "triple (holds market_inv (?F xs)) (offer_pg_reject cd offers_table c offerID now xs)
      (\<lambda>_. pg_safe market_inv) (pg_safe market_inv)"
    using Cons by simp
  show ?case
    unfolding offer_pg_reject.simps
  proof (rule triple_if, goal_cases)
    case 1
    show ?case by (rule triple_weaken [OF IH]) (simp_all add: holds_def)
  next
    case 2
    show ?case
    proof (rule triple_gbind [where R = "\<lambda>rj w. holds market_inv (?F (x # xs)) w \<and> offer_ID rj = offer_ID x"])
      show "triple (holds market_inv (?F (x # xs))) (gpure (offer_Reject x now))
          (\<lambda>rj w. holds market_inv (?F (x # xs)) w \<and> offer_ID rj = offer_ID x) (pg_safe market_inv)"
      proof (rule triple_gpure)
        fix rj w
        assume "offer_Reject x now = Inr rj" and h: "holds market_inv (?F (x # xs)) w"
        then have "offer_ID rj = offer_ID x" by (auto dest: offer_RejectD)
        with h show "holds market_inv (?F (x # xs)) w \<and> offer_ID rj = offer_ID x" by blast
      qed (rule holds_safe)
      fix rj
      have "triple (holds market_inv (\<lambda>d. ?F (x # xs) d \<and> offer_ID rj = offer_ID x))
          (gbind (offer_pg_Update cd offers_table c rj (offer_UpdatedAt x))
            (\<lambda>_. offer_pg_reject cd offers_table c offerID now xs)) (\<lambda>_. pg_safe market_inv) (pg_safe market_inv)"
      proof (rule triple_gbind [OF triple_offer_update_post IH], goal_cases)
        case (1 d cur)
        then have "cur = x" using 2 by simp
        then show ?case using 2 by simp
      next
        case (2 d d' cur)
        have "map_of (mk_offers d') (offer_ID r) = Some r" if r: "r \<in> set xs" "offer_ID r \<noteq> offerID" for r
        proof -
          have "map_of (mk_offers d) (offer_ID r) = Some r" using 2(1) r by simp
          moreover have "offer_ID r \<noteq> offer_ID x" using Cons.prems r(1) by (metis distinct.simps(2) imageI list.set_map list.simps(9))
          ultimately show ?thesis using 2 by simp
        qed
        then show ?case by blast
      qed
      then show "triple (\<lambda>w. holds market_inv (?F (x # xs)) w \<and> offer_ID rj = offer_ID x)
          (gbind (offer_pg_Update cd offers_table c rj (offer_UpdatedAt x))
            (\<lambda>_. offer_pg_reject cd offers_table c offerID now xs)) (\<lambda>_. pg_safe market_inv) (pg_safe market_inv)"
        by (rule triple_weaken) (simp_all add: holds_def)
    qed
  qed
qed

lemma offers_accept: "keeps (pg_keeps_safe market_inv) (offer_pg_acceptExclusive cd offers_table c offerID needID now)"
proof (rule triple_keepsI)
  let ?rs = "\<lambda>d. sort_key offer_ID (filter (\<lambda>o'. offer_NeedID o' = needID) (map snd (mk_offers d)))"
  let ?R = "\<lambda>list w. holds market_inv (\<lambda>d. list = ?rs d) w"
  let ?E = "pg_safe market_inv"
  have row: "map_of (mk_offers d) (offer_ID r) = Some r" if "market_inv d" "r \<in> set (?rs d)" for d r
    using table_ok_rows(2) [OF market_tablesD(2) [OF that(1)], of r "\<lambda>o'. offer_NeedID o' = needID"] that(2)
    by simp
  have dist: "distinct (map offer_ID (?rs d))" if "market_inv d" for d
    by (rule table_ok_rows(1) [OF market_tablesD(2) [OF that]])
  have list: "triple (holds market_inv (\<lambda>_. True))
      (pg_list offer_mapDBErr offers_table c (\<lambda>o'. offer_NeedID o' = needID) (sort_key offer_ID)) ?R ?E"
  proof (rule tripleI)
    fix w w' e
    assume h: "holds market_inv (\<lambda>_. True) w"
      and "pg_list offer_mapDBErr offers_table c (\<lambda>o'. offer_NeedID o' = needID) (sort_key offer_ID) w = (w', Inl e)"
    then show "?E w'"
      using triple_same [OF pg_same_list [OF market_lenses(2)], THEN tripleD(1), OF h] by blast
  next
    fix w w' rs
    assume h: "holds market_inv (\<lambda>_. True) w"
      and run: "pg_list offer_mapDBErr offers_table c (\<lambda>o'. offer_NeedID o' = needID) (sort_key offer_ID) w = (w', Inr rs)"
    have "holds market_inv (\<lambda>_. True) w'"
      by (rule triple_same [OF pg_same_list [OF market_lenses(2)], THEN tripleD(2), OF h run])
    then show "?R rs w'" using pg_list_ok [OF market_lenses(2) run] by (simp add: holds_def)
  qed
  show "triple (holds market_inv (\<lambda>_. True)) (offer_pg_acceptExclusive cd offers_table c offerID needID now)
      (\<lambda>_. pg_safe market_inv) ?E"
    unfolding offer_pg_acceptExclusive_def
  proof (rule triple_gbind [OF list])
    fix rs
    show "triple (?R rs) (case find (\<lambda>o'. offer_ID o' = offerID) rs of
       None \<Rightarrow> gfail (OfferErr Offer_errNotFound)
     | Some current \<Rightarrow>
         if offer_Status current = OfferAccepted then gret (cloneOffer current)
         else if list_ex (\<lambda>other. offer_ID other \<noteq> offerID \<and> offer_Status other = OfferAccepted) rs
           then gfail (OfferErr Offer_errConflict)
         else gbind (gpure (offer_Accept current now)) (\<lambda>nxt.
           gbind (offer_pg_Update cd offers_table c nxt (offer_UpdatedAt current)) (\<lambda>_.
           gbind (offer_pg_reject cd offers_table c offerID now rs) (\<lambda>_. gret nxt)))) (\<lambda>_. ?E) ?E"
    proof (cases "find (\<lambda>o'. offer_ID o' = offerID) rs")
      case None
      then show ?thesis by (simp add: triple_gfail [where E = ?E, OF holds_safe])
    next
      case (Some cur)
      then have cur: "cur \<in> set rs" "offer_ID cur = offerID" using find_SomeD by fastforce+
      let ?F = "\<lambda>nxt d. rs = ?rs d \<and> market_inv d \<and> offer_ID nxt = offerID"
      let ?G = "\<lambda>d. \<forall>r \<in> set rs. offer_ID r \<noteq> offerID \<longrightarrow> map_of (mk_offers d) (offer_ID r) = Some r"
      have upd: "triple (holds market_inv (?F nxt)) (offer_pg_Update cd offers_table c nxt v)
          (\<lambda>_. holds market_inv ?G) ?E" if st: "offer_Status cur \<noteq> OfferAccepted" for nxt v
      proof (rule triple_offer_update_post)
        fix d x
        assume F: "?F nxt d" and x: "map_of (mk_offers d) (offer_ID nxt) = Some x"
        have "map_of (mk_offers d) offerID = Some cur" using row [of d cur] F cur by auto
        then show "offer_Status x \<noteq> OfferAccepted" using x F st by simp
      next
        fix d d' x
        assume F: "?F nxt d" and d': "mk_offers d' = AList.update (offer_ID nxt) x (mk_offers d)"
        then show "?G d'" using row [of d] by simp
      qed
      show ?thesis
      proof (cases "offer_Status cur = OfferAccepted \<or>
          list_ex (\<lambda>other. offer_ID other \<noteq> offerID \<and> offer_Status other = OfferAccepted) rs")
        case True
        then show ?thesis using Some
          by (auto intro!: triple_gret triple_gfail holds_safe)
      next
        case False
        have d: "distinct (map offer_ID rs)" if "holds market_inv (\<lambda>d. rs = ?rs d) w" for w
          using dist [of "pg_data w"] holds_data [OF that] by auto
        show ?thesis
        proof (cases "distinct (map offer_ID rs)")
          case dr: True
          have rest: "triple (?R rs) (gbind (gpure (offer_Accept cur now)) (\<lambda>nxt.
             gbind (offer_pg_Update cd offers_table c nxt (offer_UpdatedAt cur)) (\<lambda>_.
             gbind (offer_pg_reject cd offers_table c offerID now rs) (\<lambda>_. gret nxt)))) (\<lambda>_. ?E) ?E"
          proof (rule triple_gbind [where R = "\<lambda>nxt. holds market_inv (?F nxt)"], rule triple_gpure)
            fix nxt w
            assume "offer_Accept cur now = Inr nxt" and h: "?R rs w"
            then have "offer_ID nxt = offerID" using cur by (auto dest: offer_AcceptD)
            then show "holds market_inv (?F nxt) w" using h holds_data [OF h] by (simp add: holds_def)
          next
            fix nxt
            show "triple (holds market_inv (?F nxt))
               (gbind (offer_pg_Update cd offers_table c nxt (offer_UpdatedAt cur)) (\<lambda>_.
                gbind (offer_pg_reject cd offers_table c offerID now rs) (\<lambda>_. gret nxt))) (\<lambda>_. ?E) ?E"
              using False by (intro triple_gbind [OF upd] triple_gbind [OF triple_offer_reject [OF dr]] triple_gret) auto
          qed (rule holds_safe)
          with Some False show ?thesis by simp
        next
          case dr: False
          then have "\<not> ?R rs w" for w using d by blast
          then show ?thesis by (simp add: triple_def)
        qed
      qed
    qed
  qed
qed

lemma offers_AcceptExclusive: "keeps (pg_keeps_safe market_inv) (offer_pg_AcceptExclusive cd offers_table c offerID needID now)"
  unfolding offer_pg_AcceptExclusive_def
  by (intro safe.keeps_if safe.keeps_gcase safe.keeps_gdefer safe.keeps_gbind safe.keeps_gfail safe.keeps_gret
      keeps_safe_tx offers_accept)

text \<open>A new Transaction needs its source, a new payment, delivery or dispute its Transaction.\<close>

lemma triple_txn_create:
  assumes "\<And>d. F d \<Longrightarrow> txn_sourced (mk_needs d) (mk_offers d) t"
  shows "triple (holds market_inv F) (txn_pg_Create cd txns_table c t) (\<lambda>_. pg_safe market_inv) (pg_safe market_inv)"
  unfolding txn_pg_Create_def
proof (rule triple_gguard, rule triple_create)
  fix d
  let ?r = "txn_row cd t"
  assume inv: "market_inv d" and F: "F d" and chk: "txn_check ?r"
    and new: "map_of (fst txns_table d) (txn_ID ?r) = None"
    and cl: "\<not> list_ex (\<lambda>s. txn_clash ?r (snd s)) (fst txns_table d)"
  have src: "txn_sourced (mk_needs d) (mk_offers d) ?r"
    using assms [OF F] by (simp add: txn_sourced_def txn_row_def)
  have "table_ok txn_ID txn_check txn_clash (AList.update (txn_ID ?r) ?r (mk_txns d))"
    using cl by (intro create_ok [OF market_tablesD(3) [OF inv] clash_syms(1) chk]) simp_all
  moreover have "extends txn_stays (mk_txns d) (AList.update (txn_ID ?r) ?r (mk_txns d))"
    using new by (intro extends_put) (simp_all add: txn_stays_def)
  ultimately show "market_inv (snd txns_table (\<lambda>_. AList.update (txn_ID ?r) ?r (fst txns_table d)) d)"
    using put_txns [OF inv] all_rows_put [OF market_linksD(1) [OF inv] src] by simp
qed (rule holds_safe)

lemma triple_pay_create:
  assumes "\<And>d. F d \<Longrightarrow> of_txn (mk_txns d) (p_TransactionID p) (p_PayerUserID p) (p_PayeeUserID p)"
  shows "triple (holds market_inv F) (pay_pg_Create cd payments_table c p) (\<lambda>_. pg_safe market_inv) (pg_safe market_inv)"
  unfolding pay_pg_Create_def
proof (rule triple_gguard, rule triple_create)
  fix d
  let ?r = "pay_row cd p"
  assume inv: "market_inv d" and F: "F d" and chk: "pay_check ?r"
    and cl: "\<not> list_ex (\<lambda>s. pay_clash ?r (snd s)) (fst payments_table d)"
  have src: "of_txn (mk_txns d) (p_TransactionID ?r) (p_PayerUserID ?r) (p_PayeeUserID ?r)"
    using assms [OF F] by (simp add: pay_row_def)
  have "table_ok p_ID pay_check pay_clash (AList.update (p_ID ?r) ?r (mk_payments d))"
    using cl by (intro create_ok [OF market_tablesD(4) [OF inv] pay_clash_sym chk]) simp_all
  then show "market_inv (snd payments_table (\<lambda>_. AList.update (p_ID ?r) ?r (fst payments_table d)) d)"
    using put_payments [OF inv] all_rows_put [OF market_linksD(2) [OF inv]] src by simp
qed (rule holds_safe)

lemma triple_del_create:
  assumes "\<And>d. F d \<Longrightarrow> of_txn (mk_txns d) (dl_TransactionID x) (dl_RequesterUserID x) (dl_ProviderUserID x)"
  shows "triple (holds market_inv F) (del_pg_Create cd deliveries_table c x) (\<lambda>_. pg_safe market_inv) (pg_safe market_inv)"
  unfolding del_pg_Create_def
proof (rule triple_gguard, rule triple_create)
  fix d
  let ?r = "del_row cd x"
  assume inv: "market_inv d" and F: "F d" and chk: "del_check ?r"
    and cl: "\<not> list_ex (\<lambda>s. del_clash ?r (snd s)) (fst deliveries_table d)"
  have src: "of_txn (mk_txns d) (dl_TransactionID ?r) (dl_RequesterUserID ?r) (dl_ProviderUserID ?r)"
    using assms [OF F] by (simp add: del_row_def)
  have "table_ok dl_ID del_check del_clash (AList.update (dl_ID ?r) ?r (mk_deliveries d))"
    using cl by (intro create_ok [OF market_tablesD(5) [OF inv] clash_syms(2) chk]) simp_all
  then show "market_inv (snd deliveries_table (\<lambda>_. AList.update (dl_ID ?r) ?r (fst deliveries_table d)) d)"
    using put_deliveries [OF inv] all_rows_put [OF market_linksD(3) [OF inv]] src by simp
qed (rule holds_safe)

lemma triple_dis_create:
  assumes "\<And>d. F d \<Longrightarrow> of_txn (mk_txns d) (d_TransactionID x) (d_RequesterUserID x) (d_ProviderUserID x)"
  shows "triple (holds market_inv F) (dis_pg_Create cd disputes_table c x) (\<lambda>_. pg_safe market_inv) (pg_safe market_inv)"
  unfolding dis_pg_Create_def
proof (rule triple_gguard, rule triple_create)
  fix d
  let ?r = "dis_row cd x"
  assume inv: "market_inv d" and F: "F d" and chk: "dis_check ?r"
    and cl: "\<not> list_ex (\<lambda>s. dis_clash ?r (snd s)) (fst disputes_table d)"
  have src: "of_txn (mk_txns d) (d_TransactionID ?r) (d_RequesterUserID ?r) (d_ProviderUserID ?r)"
    using assms [OF F] by (simp add: dis_row_def)
  have "table_ok d_ID dis_check dis_clash (AList.update (d_ID ?r) ?r (mk_disputes d))"
    using cl by (intro create_ok [OF market_tablesD(6) [OF inv] clash_syms(3) chk]) simp_all
  moreover have "extends (\<lambda>_ _. True) (mk_disputes d) (AList.update (d_ID ?r) ?r (mk_disputes d))"
    by (rule extends_put) simp_all
  ultimately show "market_inv (snd disputes_table (\<lambda>_. AList.update (d_ID ?r) ?r (fst disputes_table d)) d)"
    using put_disputes [OF inv] all_rows_put [OF market_linksD(4) [OF inv]] src by simp
qed (rule holds_safe)

end
