(* ===== verification/Market_Steps.thy ===== *)
theory Market_Steps
  imports Market_Stores
begin

text \<open>
  The requests the marketplace serves. Each is one step on the database, run from its first statement to
  its last; the server may refuse or lose any of them. Every operation of the six services, of the
  completion handler and of the outbox keeps the invariant of the database.
\<close>

section \<open>What the services are given\<close>

abbreviation steady :: "store \<Rightarrow> store \<Rightarrow> bool" where
  "steady \<equiv> pg_keeps_safe market_inv"

lemmas keeps_opts = keeps_opt_def keeps_opt2_def keeps_opt3_def

lemma market_envD:
  assumes "market_env_ok en"
  shows "keeps pg_same (me_categories en c k)" and "keeps pg_same (me_candidates en c q)"
    and "keeps pg_same (me_eligibility en c ch)" and "keeps pg_same (me_businessOwner en c b u)"
    and "keeps pg_same (me_next en t n)"
  using assms by (simp_all add: market_env_ok_def)

lemma pool_tx_keeps:
  "keeps_tx steady (Some (PoolTransactor mp))"
proof -
  have "keeps steady (gmaperr mp (pool_Begin c))" for c
    by (intro safe.keeps_gmaperr keeps_safe_tx)
  then show ?thesis
    using keeps_safe_tx by (auto simp: keeps_tx_def PoolTransactor_def)
qed

lemma market_enqueue_keeps: "keeps steady (market_enqueue en c e)"
proof -
  have ins: "keeps steady (os_Insert (ob_store (market_outbox en)) c x)" for x
    by (simp add: market_outbox_def outbox_pg_store_def outbox_writes)
  have rd: "steady w (fst (ob_rand (market_outbox en) w))" "steady w (fst (ob_now (market_outbox en) w))" for w
    by (simp_all add: market_outbox_def)
  show ?thesis
    unfolding market_enqueue_def ob_Enqueue_def Let_def by (intro safe_rules rd ins)
qed

lemma need_service_ok:
  assumes "market_env_ok en"
  shows "need_service_keeps steady (market_needs en)" and "need_service_keeps steady (worker_needs en)"
  using market_envD [OF assms, THEN same_safe]
  by (simp_all add: need_service_keeps_def market_needs_def worker_needs_def need_pg_store_def keeps_opts
      needs_writes store_reads [THEN same_safe])

lemma needs_same:
  assumes "market_env_ok en"
  shows "keeps pg_same (need_GetNeed (market_needs en) c i)"
    and "keeps pg_same (need_AssertOwnedBy (market_needs en) c i u)"
proof -
  have get: "keeps pg_same (need_svc_get (market_needs en) c i)" for c i
    unfolding need_svc_get_def by (intro same_rules) (auto simp: market_needs_def need_pg_store_def store_reads)
  show ref: "keeps pg_same (need_GetNeed (market_needs en) c i)" for i
    unfolding need_GetNeed_def by (intro same_rules get)
  show "keeps pg_same (need_AssertOwnedBy (market_needs en) c i u)"
    unfolding need_AssertOwnedBy_def by (intro same_rules ref)
qed

lemma offer_service_ok:
  assumes "market_env_ok en"
  shows "offer_service_keeps steady (market_offers en)"
proof -
  note pool_tx_keeps [of offer_mapStoreErr]
  then show ?thesis
    using market_envD [OF assms, THEN same_safe] needs_same [OF assms, THEN same_safe]
    by (simp add: offer_service_keeps_def market_offers_def offer_pg_store_def keeps_opts need_lookup_of_def
        offers_create offers_AcceptExclusive store_reads [THEN same_safe] market_enqueue_keeps)
qed

lemma offers_same: "keeps pg_same (offer_GetOffer (market_offers en) c i)"
proof -
  have "keeps pg_same (offer_svc_get (market_offers en) c i)"
    unfolding offer_svc_get_def by (intro same_rules) (auto simp: market_offers_def offer_pg_store_def store_reads)
  then show ?thesis unfolding offer_GetOffer_def by (intro same_rules)
qed

lemma txn_service_ok:
  assumes "market_env_ok en"
  shows "txn_service_keeps steady (market_txns en)"
  using pool_tx_keeps [of txn_mapStoreErr] needs_same [OF assms, THEN same_safe] offers_same [THEN same_safe]
  by (simp add: txn_service_keeps_def txn_store_keeps_def market_txns_def txn_pg_store_def keeps_opts need_lookup_of_def
      txns_update store_reads [THEN same_safe] market_enqueue_keeps)

lemma txns_same: "keeps pg_same (txn_GetTransaction (market_txns en) c i)"
proof -
  have "keeps pg_same (txn_svc_get (market_txns en) c i)"
    unfolding txn_svc_get_def by (intro same_rules) (auto simp: market_txns_def txn_pg_store_def store_reads)
  then show ?thesis unfolding txn_GetTransaction_def by (intro same_rules)
qed

lemma payment_service_ok: "payment_service_keeps steady (market_payments en)"
  using txns_same [THEN same_safe]
  by (simp add: payment_service_keeps_def market_payments_def payment_pg_store_def keeps_opts
      payments_update store_reads [THEN same_safe])

lemma delivery_service_ok: "delivery_service_keeps steady (market_deliveries en)"
  using pool_tx_keeps [of del_mapStoreErr] txns_same [THEN same_safe]
  by (simp add: delivery_service_keeps_def market_deliveries_def del_pg_store_def keeps_opts
      deliveries_update store_reads [THEN same_safe] market_enqueue_keeps)

lemma deliveries_same: "keeps pg_same (del_GetDeliveryByTransaction (market_deliveries en) c i)"
  unfolding del_GetDeliveryByTransaction_def
  by (intro same_rules) (auto simp: market_deliveries_def del_pg_store_def store_reads)

lemma dispute_service_ok: "dispute_service_keeps steady (market_disputes en)"
  using pool_tx_keeps [of dis_mapStoreErr] txns_same [THEN same_safe] deliveries_same [THEN same_safe]
  by (simp add: dispute_service_keeps_def market_disputes_def dis_pg_store_def keeps_opts
      disputes_update evidence_append store_reads [THEN same_safe] market_enqueue_keeps)

section \<open>What a read tells\<close>

lemma triple_fetch:
  assumes "lens_ok (g, u)" and ok: "\<And>d. Inv d \<Longrightarrow> table_ok key chk clash (g d)"
  shows "triple (holds Inv F) (pg_get mp (g, u) c (\<lambda>r. key r = i))
    (\<lambda>r. holds Inv (\<lambda>d. F d \<and> map_of (g d) i = Some r)) (holds Inv F)"
proof (rule triple_weaken [OF triple_read [OF assms(1)]])
  fix r w
  assume "holds Inv (\<lambda>d. F d \<and> find (\<lambda>r. key r = i) (map snd (fst (g, u) d)) = Some r) w"
  then have s: "pg_safe Inv w" and F: "F (pg_data w)" and inv: "Inv (pg_data w)"
    and r: "find (\<lambda>r. key r = i) (map snd (g (pg_data w))) = Some r"
    by (auto simp: holds_def pg_safe_def)
  then have "r \<in> set (filter (\<lambda>_. True) (map snd (g (pg_data w))))" and k: "key r = i"
    using find_SomeD [OF r] by auto
  then have "map_of (g (pg_data w)) i = Some r"
    using table_ok_rows(2) [OF ok [OF inv], of r "\<lambda>_. True"] by simp
  with s F show "holds Inv (\<lambda>d. F d \<and> map_of (g d) i = Some r) w" by (simp add: holds_def)
qed auto

lemma triple_clock:
  assumes "\<And>x. triple (holds Inv F) (k x) Q E"
  shows "triple (holds Inv F) (gread pg_now k) Q E"
  by (rule triple_gread [OF _ assms]) (rule holds_same [OF pg_same_read(1)])

lemma triple_draw:
  assumes "\<And>x. triple (holds Inv F) (k x) Q E"
  shows "triple (holds Inv F) (gread pg_rand k) Q E"
  by (rule triple_gread [OF _ assms]) (rule holds_same [OF pg_same_read(2)])

lemma triple_offer_get:
  "triple (holds market_inv F) (offer_svc_get (market_offers en) c i)
    (\<lambda>r. holds market_inv (\<lambda>d. F d \<and> map_of (mk_offers d) i = Some r)) (holds market_inv F)"
  using triple_fetch [OF market_lenses(2) market_tablesD(2), where F = F and mp = offer_mapDBErr and c = c and i = i]
  by (auto simp: offer_svc_get_def market_offers_def offer_pg_store_def offer_pg_Get_def
      intro!: triple_gmaperr triple_gfail)

lemma triple_need_get:
  "triple (holds market_inv F) (need_svc_get (market_needs en) c i)
    (\<lambda>r. holds market_inv (\<lambda>d. F d \<and> map_of (mk_needs d) i = Some r)) (holds market_inv F)"
  using triple_fetch [OF market_lenses(1) market_tablesD(1), where F = F and mp = need_mapDBErr and c = c and i = i]
  by (auto simp: need_svc_get_def market_needs_def need_pg_store_def need_pg_Get_def
      intro!: triple_gmaperr triple_gfail)

lemma triple_txn_get:
  "triple (holds market_inv F) (txn_svc_get (market_txns en) c i)
    (\<lambda>r. holds market_inv (\<lambda>d. F d \<and> map_of (mk_txns d) i = Some r)) (holds market_inv F)"
  using triple_fetch [OF market_lenses(3) market_tablesD(3), where F = F and mp = txn_mapDBErr and c = c and i = i]
  by (auto simp: txn_svc_get_def market_txns_def txn_pg_store_def txn_pg_Get_def
      intro!: triple_gmaperr triple_gfail)

text \<open>The references the services hand to each other.\<close>

lemma holds_add: "holds Inv F w \<Longrightarrow> (\<And>d. Inv d \<Longrightarrow> F d \<Longrightarrow> G d) \<Longrightarrow> holds Inv G w"
  by (auto simp: holds_def pg_safe_def)

lemma triple_offer_ref:
  "triple (holds market_inv F) (offer_GetOffer (market_offers en) c i)
    (\<lambda>r. holds market_inv (\<lambda>d. F d \<and> (\<exists>o'. map_of (mk_offers d) (or_ID r) = Some o' \<and> r = toOfferRef o'))) (holds market_inv F)"
  unfolding offer_GetOffer_def
proof (rule triple_gcase [OF triple_offer_get])
  fix x
  show "triple (holds market_inv (\<lambda>d. F d \<and> map_of (mk_offers d) i = Some x)) (gret (toOfferRef x))
     (\<lambda>r. holds market_inv (\<lambda>d. F d \<and> (\<exists>o'. map_of (mk_offers d) (or_ID r) = Some o' \<and> r = toOfferRef o')))
     (holds market_inv F)"
    using table_okD(2) [OF market_tablesD(2)]
    by (intro triple_gret) (fastforce elim!: holds_add simp: toOfferRef_def)
qed (auto intro: triple_gfail)

lemma triple_need_ref:
  "triple (holds market_inv F) (need_GetNeed (market_needs en) c i)
    (\<lambda>r. holds market_inv (\<lambda>d. F d \<and> (\<exists>n. map_of (mk_needs d) (nr_ID r) = Some n \<and> r = toNeedRef n))) (holds market_inv F)"
  unfolding need_GetNeed_def
proof (rule triple_gcase [OF triple_need_get])
  fix x
  show "triple (holds market_inv (\<lambda>d. F d \<and> map_of (mk_needs d) i = Some x)) (gret (toNeedRef x))
     (\<lambda>r. holds market_inv (\<lambda>d. F d \<and> (\<exists>n. map_of (mk_needs d) (nr_ID r) = Some n \<and> r = toNeedRef n)))
     (holds market_inv F)"
    using table_okD(2) [OF market_tablesD(1)]
    by (intro triple_gret) (fastforce elim!: holds_add simp: toNeedRef_def)
qed (auto intro: triple_gfail)

lemma triple_txn_ref:
  "triple (holds market_inv F) (txn_GetTransaction (market_txns en) c i)
    (\<lambda>r. holds market_inv (\<lambda>d. F d \<and> of_txn (mk_txns d) (tr_ID r) (tr_RequesterUserID r) (tr_ProviderUserID r))) (holds market_inv F)"
  unfolding txn_GetTransaction_def
proof (rule triple_gcase [OF triple_txn_get])
  fix x
  show "triple (holds market_inv (\<lambda>d. F d \<and> map_of (mk_txns d) i = Some x)) (gret (toTransactionRef x))
     (\<lambda>r. holds market_inv (\<lambda>d. F d \<and> of_txn (mk_txns d) (tr_ID r) (tr_RequesterUserID r) (tr_ProviderUserID r)))
     (holds market_inv F)"
    using table_okD(2) [OF market_tablesD(3)]
    by (intro triple_gret) (fastforce elim!: holds_add simp: toTransactionRef_def of_txn_def)
qed (auto intro: triple_gfail)

section \<open>Writes that rely on a read\<close>

lemma offer_WithdrawD:
  "offer_Withdraw o' now = Inr n \<Longrightarrow> offer_Status o' = OfferSubmitted \<and> offer_ID n = offer_ID o'"
  by (auto simp: offer_Withdraw_def split: if_splits dest: offer_transitionD)

lemma unaccepted_update:
  assumes "offer_Status cur = OfferSubmitted" and "offer_ID n = offer_ID cur"
  shows "triple (holds market_inv (\<lambda>d. G d \<and> map_of (mk_offers d) i = Some cur))
    (offer_pg_Update cd offers_table c n v) (\<lambda>_. pg_safe market_inv) (pg_safe market_inv)"
proof -
  have "triple (holds market_inv (\<lambda>d. map_of (mk_offers d) (offer_ID n) = Some cur))
      (offer_pg_Update cd offers_table c n v) (\<lambda>_. pg_safe market_inv) (pg_safe market_inv)"
    by (rule triple_offer_update) (simp add: assms(1))
  then show ?thesis
    by (rule triple_weaken) (use table_okD(2) [OF market_tablesD(2)] assms(2) in \<open>fastforce elim!: holds_add\<close>)+
qed

text \<open>The rules the operations are walked through with: every failure is safe.\<close>

lemma triple_bind_pure:
  assumes "\<And>x. r = Inr x \<Longrightarrow> triple (holds Inv F) (k x) Q (pg_safe Inv)"
  shows "triple (holds Inv F) (gbind (gpure r) k) Q (pg_safe Inv)"
  using assms by (cases r) (auto simp: triple_def gbind_def gcase_apply gpure_def)

lemma triple_bind_read:
  assumes "triple (holds Inv F) m R (holds Inv F)" and "\<And>x. triple (R x) (k x) Q (pg_safe Inv)"
  shows "triple (holds Inv F) (gbind m k) Q (pg_safe Inv)"
  by (rule triple_gbind [OF triple_weaken [OF assms(1)] assms(2)]) auto

lemma triple_ends:
  "triple (holds Inv F) (gret x) (\<lambda>_. pg_safe Inv) (pg_safe Inv)"
  "triple (holds Inv F) (gfail e) Q (pg_safe Inv)"
  "triple (pg_safe Inv) (gret x) (\<lambda>_. pg_safe Inv) (pg_safe Inv)"
  "triple (pg_safe Inv) (gfail e) Q (pg_safe Inv)"
  by (auto intro: triple_gret triple_gfail)

lemma triple_after: "keeps (pg_keeps_safe Inv) m \<Longrightarrow> triple (pg_safe Inv) m (\<lambda>_. pg_safe Inv) (pg_safe Inv)"
  by (rule triple_weaken [OF triple_keeps [of Inv m "\<lambda>_. True"]]) (simp_all add: holds_def)

lemma triple_finish:
  assumes "triple P m (\<lambda>_. pg_safe Inv) (pg_safe Inv)" and "\<And>e. keeps (pg_keeps_safe Inv) (h e)"
    and "\<And>x. keeps (pg_keeps_safe Inv) (k x)"
  shows "triple P (gcase m h k) (\<lambda>_. pg_safe Inv) (pg_safe Inv)"
  by (rule triple_gcase [OF assms(1)]) (rule triple_after, rule assms)+

lemma gneed_Some: "gneed (Some x) e k = k x"
  by simp

lemmas triple_rules = triple_ends triple_if triple_clock triple_draw triple_bind_pure

text \<open>The dependencies of the services.\<close>

lemma offer_fields:
  "osv_store (market_offers en) = Some (offer_pg_store (me_codec en) offers_table)"
  "osv_now (market_offers en) = pg_now" "osv_rand (market_offers en) = pg_rand"
  "osv_tx (market_offers en) = Some (PoolTransactor offer_mapStoreErr)"
  "ofs_Update (offer_pg_store cd offers_table) = offer_pg_Update cd offers_table"
  by (simp_all add: market_offers_def offer_pg_store_def)

lemma triple_enqueue: "keeps steady (offer_enqueueTransition (market_offers en) c ty tr x r a)"
  unfolding offer_enqueueTransition_def market_offers_def offer_service.simps
  by (intro safe_rules) (use market_enqueue_keeps in blast)

lemma withdraw_keeps: "keeps steady (offer_svc_Withdraw (market_offers en) c u i)"
  unfolding offer_svc_Withdraw_def offer_fields gneed_Some
proof (intro triple_keepsI triple_bind_read [OF triple_offer_get] triple_if triple_ends
    triple_clock triple_bind_pure)
  fix cur now n
  assume "offer_Withdraw cur (time_UTC now) = Inr n"
  then have "offer_Status cur = OfferSubmitted" "offer_ID n = offer_ID cur" using offer_WithdrawD by auto
  from unaccepted_update [OF this]
  show "triple (holds market_inv (\<lambda>d. True \<and> map_of (mk_offers d) i = Some cur))
      (gcase (offer_pg_Update (me_codec en) offers_table c n (offer_UpdatedAt cur))
        (\<lambda>e. gfail (offer_mapStoreErr e)) (\<lambda>_. gret n)) (\<lambda>_. pg_safe market_inv) (pg_safe market_inv)"
    by (intro triple_finish safe_rules)
qed

lemma reject_keeps:
  assumes "market_env_ok en"
  shows "keeps steady (offer_svc_Reject (market_offers en) c u k i)"
  unfolding offer_svc_Reject_def
proof (rule safe.keeps_gbind)
  show "keeps steady (offer_assertNeedOwner (market_offers en) c k u)"
    by (rule world_order.offer_ops_keep(2) [OF safe.world_order_axioms offer_service_ok [OF assms]])
next
  show "keeps steady (gbind (offer_svc_get (market_offers en) c i) (\<lambda>current.
     if offer_NeedID current \<noteq> k then gfail (OfferErr Offer_errNotFound)
     else if offer_Status current = OfferRejected then gret current
     else gread (osv_now (market_offers en)) (\<lambda>now.
       gbind (gpure (offer_Reject current (time_UTC now))) (\<lambda>nxt.
       gneed (osv_store (market_offers en)) (OfferErr Offer_errStoreRequired) (\<lambda>st.
       gbind (offer_runMaybeTx (market_offers en) c (\<lambda>c.
           gcase (ofs_Update st c nxt (offer_UpdatedAt current))
             (\<lambda>e. gfail (offer_mapStoreErr e)) (\<lambda>_.
           offer_enqueueTransition (market_offers en) c OfferEventRejected ''rejected'' nxt u u)))
         (\<lambda>_. gret nxt))))))"
    unfolding offer_fields gneed_Some
  proof (intro triple_keepsI triple_bind_read [OF triple_offer_get] triple_if triple_ends triple_clock
      triple_bind_pure)
    fix cur now n
    assume "offer_Reject cur (time_UTC now) = Inr n"
    then have "offer_Status cur = OfferSubmitted" "offer_ID n = offer_ID cur" by (auto dest: offer_RejectD)
    from unaccepted_update [OF this]
    have "triple (holds market_inv (\<lambda>d. True \<and> map_of (mk_offers d) i = Some cur))
        (offer_runMaybeTx (market_offers en) c (\<lambda>c.
           gcase (offer_pg_Update (me_codec en) offers_table c n (offer_UpdatedAt cur))
             (\<lambda>e. gfail (offer_mapStoreErr e)) (\<lambda>_.
           offer_enqueueTransition (market_offers en) c OfferEventRejected ''rejected'' n u u)))
        (\<lambda>_. pg_safe market_inv) (pg_safe market_inv)"
      unfolding offer_runMaybeTx_def offer_fields
      by (intro triple_run_tx triple_finish safe_rules triple_enqueue)
    then show "triple (holds market_inv (\<lambda>d. True \<and> map_of (mk_offers d) i = Some cur))
        (gbind (offer_runMaybeTx (market_offers en) c (\<lambda>c.
           gcase (offer_pg_Update (me_codec en) offers_table c n (offer_UpdatedAt cur))
             (\<lambda>e. gfail (offer_mapStoreErr e)) (\<lambda>_.
           offer_enqueueTransition (market_offers en) c OfferEventRejected ''rejected'' n u u)))
          (\<lambda>_. gret n)) (\<lambda>_. pg_safe market_inv) (pg_safe market_inv)"
      by (rule triple_gbind) (rule triple_ends)
  qed
qed

section \<open>New rows for a source that was read\<close>

lemma txn_CreatePendingD:
  assumes "txn_CreatePending src now en = Inr t"
  shows "txn_OfferID t = as_OfferID src" and "txn_NeedID t = as_NeedID src"
    and "txn_RequesterUserID t = as_RequesterUserID src" and "txn_ProviderUserID t = as_ProviderUserID src"
  using assms by (auto simp: txn_CreatePending_def Let_def split: if_splits sum.splits option.splits)

lemma pay_CreatePendingD:
  assumes "pay_CreatePending cmd now en = Inr p"
  shows "p_TransactionID p = pc_TransactionID cmd" and "p_PayerUserID p = pc_PayerUserID cmd"
    and "p_PayeeUserID p = pc_PayeeUserID cmd"
  using assms by (auto simp: pay_CreatePending_def Let_def split: if_splits sum.splits option.splits)

lemma del_CreatePendingD:
  assumes "del_CreatePending cmd now en = Inr d"
  shows "dl_TransactionID d = dc_TransactionID cmd" and "dl_RequesterUserID d = dc_RequesterUserID cmd"
    and "dl_ProviderUserID d = dc_ProviderUserID cmd"
  using assms by (auto simp: del_CreatePending_def Let_def split: if_splits sum.splits option.splits)

lemma dis_CreateOpenD:
  assumes "dis_CreateOpen cmd now en = Inr d"
  shows "d_TransactionID d = xc_TransactionID cmd" and "d_RequesterUserID d = xc_RequesterUserID cmd"
    and "d_ProviderUserID d = xc_ProviderUserID cmd"
  using assms by (auto simp: dis_CreateOpen_def Let_def split: if_splits sum.splits option.splits)

lemma txn_fields:
  "tsv_store (market_txns en) = Some (txn_pg_store (me_codec en) txns_table)"
  "tsv_offers (market_txns en) = Some (offer_GetOffer (market_offers en))"
  "tsv_needs (market_txns en) = Some (need_lookup_of (market_needs en))"
  "nl_GetNeed (need_lookup_of ns) = need_GetNeed ns"
  "tsv_now (market_txns en) = pg_now" "tsv_rand (market_txns en) = pg_rand"
  "tsv_tx (market_txns en) = Some (PoolTransactor txn_mapStoreErr)"
  "tsv_outbox (market_txns en) = Some (market_enqueue en)"
  "ts_Create (txn_pg_store cd txns_table) = txn_pg_Create cd txns_table"
  "ts_GetByOfferID (txn_pg_store cd txns_table) = txn_pg_GetByOfferID txns_table"
  by (simp_all add: market_txns_def txn_pg_store_def need_lookup_of_def)

lemma triple_txn_source:
  "triple (holds market_inv F) (txn_getOffer (market_txns en) c i)
    (\<lambda>r. holds market_inv (\<lambda>d. F d \<and> (\<exists>o'. map_of (mk_offers d) (or_ID r) = Some o' \<and> r = toOfferRef o'))) (holds market_inv F)"
  "triple (holds market_inv F) (txn_getNeed (market_txns en) c j)
    (\<lambda>r. holds market_inv (\<lambda>d. F d \<and> (\<exists>n. map_of (mk_needs d) (nr_ID r) = Some n \<and> r = toNeedRef n))) (holds market_inv F)"
  unfolding txn_getOffer_def txn_getNeed_def txn_fields gneed_Some
  by (intro triple_gmaperr triple_offer_ref triple_need_ref)+

lemma txn_sourced_ref:
  assumes "\<exists>o'. map_of offers (or_ID r) = Some o' \<and> r = toOfferRef o'"
    and "\<exists>n. map_of needs (nr_ID k) = Some n \<and> k = toNeedRef n"
    and "nr_ID k = or_NeedID r" and "or_Status r = OfferAccepted"
    and "txn_CreatePending (accepted_source_of r k) now en = Inr t"
  shows "txn_sourced needs offers t"
  using assms txn_CreatePendingD [OF assms(5)]
  by (auto simp: txn_sourced_def accepted_source_of_def toOfferRef_def toNeedRef_def)

lemma enqueue_keeps: "Some (market_enqueue en) = Some enq \<Longrightarrow> keeps steady (enq c e)"
  using market_enqueue_keeps by auto

text \<open>After the row is looked for and not found, it is still as before.\<close>

lemma triple_absent:
  assumes "keeps pg_same m" and "\<And>e. triple (holds Inv F) (h e) Q (pg_safe Inv)" and "\<And>x. triple (holds Inv F) (k x) Q (pg_safe Inv)"
  shows "triple (holds Inv F) (gcase m h k) Q (pg_safe Inv)"
  by (rule triple_gcase [OF triple_same [OF assms(1)]]) (rule assms)+

lemma triple_with:
  assumes "\<And>d. G d \<Longrightarrow> F d" and "triple (holds Inv F) m Q E"
  shows "triple (holds Inv G) m Q E"
  by (rule triple_weaken [OF assms(2)]) (auto simp: holds_def assms(1))

lemma txn_create_keeps:
  assumes "market_env_ok en"
  shows "keeps steady (txn_svc_CreateFromAcceptedOffer (market_txns en) c u i)"
  unfolding txn_svc_CreateFromAcceptedOffer_def txn_fields gneed_Some
proof (intro triple_keepsI triple_if triple_ends triple_bind_read [OF triple_txn_source(1)]
    triple_bind_read [OF triple_txn_source(2)] triple_absent [OF store_reads(8)] triple_gguard triple_clock triple_draw triple_bind_pure
    triple_finish safe_rules)
  fix r k now e t
  let ?G = "\<lambda>d. (True \<and> (\<exists>o'. map_of (mk_offers d) (or_ID r) = Some o' \<and> r = toOfferRef o')) \<and>
      (\<exists>n. map_of (mk_needs d) (nr_ID k) = Some n \<and> k = toNeedRef n)"
  assume "\<not> (nr_RequesterUserID k \<noteq> u \<or> nr_ID k \<noteq> or_NeedID r)" "\<not> or_Status r \<noteq> OfferAccepted"
    and t: "txn_CreatePending (accepted_source_of r k) (time_UTC now) e = Inr t"
  then have src: "txn_sourced (mk_needs d) (mk_offers d) t" if "?G d" for d
    using that by (intro txn_sourced_ref [OF _ _ _ _ t]) auto
  have "triple (holds market_inv ?G) (txn_pg_Create (me_codec en) txns_table c t) (\<lambda>_. pg_safe market_inv) (pg_safe market_inv)" for c
    by (rule triple_txn_create) (rule src)
  then show "triple (holds market_inv ?G)
      (txn_runMaybeTx (market_txns en) c (\<lambda>c.
         gcase (txn_pg_Create (me_codec en) txns_table c t) (\<lambda>e. gfail (txn_mapStoreErr e)) (\<lambda>_.
         txn_enqueueLifecycle (market_txns en) c TxnEventCreated ''created'' t u)))
      (\<lambda>_. pg_safe market_inv) (pg_safe market_inv)"
    unfolding txn_runMaybeTx_def txn_fields txn_enqueueLifecycle_def
    by (intro triple_run_tx triple_finish safe_rules enqueue_keeps)
qed (auto simp: store_reads store_reads [THEN same_safe])

lemma pay_fields:
  "psv_store (market_payments en) = Some (payment_pg_store (me_codec en) payments_table)"
  "psv_txns (market_payments en) = Some (txn_GetTransaction (market_txns en))"
  "psv_now (market_payments en) = pg_now" "psv_rand (market_payments en) = pg_rand"
  "ps_Create (payment_pg_store cd payments_table) = pay_pg_Create cd payments_table"
  "ps_GetByTransactionID (payment_pg_store cd payments_table) = pay_pg_GetByTransactionID payments_table"
  by (simp_all add: market_payments_def payment_pg_store_def)

lemma pay_create_keeps: "keeps steady (pay_svc_CreateForTransaction (market_payments en) c u i)"
  unfolding pay_svc_CreateForTransaction_def pay_getTransaction_def pay_fields gneed_Some
proof (intro triple_keepsI triple_if triple_ends triple_bind_read [OF triple_gmaperr [OF triple_txn_ref]]
    triple_absent [OF store_reads(11)] triple_gguard triple_gneed triple_clock triple_draw triple_bind_pure triple_finish safe_rules)
  fix r pr now e p
  assume "pay_CreatePending (pay_create_of r pr) (time_UTC now) e = Inr p"
  note D = pay_CreatePendingD [OF this]
  show "triple (holds market_inv (\<lambda>d. True \<and> of_txn (mk_txns d) (tr_ID r) (tr_RequesterUserID r) (tr_ProviderUserID r)))
      (pay_pg_Create (me_codec en) payments_table c p) (\<lambda>_. pg_safe market_inv) (pg_safe market_inv)"
    by (rule triple_pay_create) (simp add: D pay_create_of_def)
qed (auto simp: store_reads store_reads [THEN same_safe])

lemma del_fields:
  "lsv_store (market_deliveries en) = Some (del_pg_store (me_codec en) deliveries_table)"
  "lsv_txns (market_deliveries en) = Some (txn_GetTransaction (market_txns en))"
  "lsv_now (market_deliveries en) = pg_now" "lsv_rand (market_deliveries en) = pg_rand"
  "lsv_tx (market_deliveries en) = Some (PoolTransactor del_mapStoreErr)"
  "lsv_outbox (market_deliveries en) = Some (market_enqueue en)"
  "ls_Create (del_pg_store cd deliveries_table) = del_pg_Create cd deliveries_table"
  "ls_GetByTransactionID (del_pg_store cd deliveries_table) = del_pg_GetByTransactionID deliveries_table"
  by (simp_all add: market_deliveries_def del_pg_store_def)

lemma del_create_keeps: "keeps steady (del_svc_CreateForTransaction (market_deliveries en) c u i inp)"
  unfolding del_svc_CreateForTransaction_def del_getTransaction_def del_fields gneed_Some
proof (intro triple_keepsI triple_if triple_ends triple_bind_read [OF triple_gmaperr [OF triple_txn_ref]]
    triple_absent [OF store_reads(14)] triple_gguard triple_clock triple_draw triple_bind_pure triple_finish safe_rules)
  fix r now e x
  let ?G = "\<lambda>d. True \<and> of_txn (mk_txns d) (tr_ID (r :: TransactionRef)) (tr_RequesterUserID r) (tr_ProviderUserID r)"
  assume "del_CreatePending (del_create_of r inp) (time_UTC now) e = Inr x"
  note D = del_CreatePendingD [OF this]
  have "triple (holds market_inv ?G) (del_pg_Create (me_codec en) deliveries_table c x) (\<lambda>_. pg_safe market_inv)
      (pg_safe market_inv)" for c
    by (rule triple_del_create) (simp add: D del_create_of_def)
  then show "triple (holds market_inv ?G)
      (del_runMaybeTx (market_deliveries en) c (\<lambda>c.
         gcase (del_pg_Create (me_codec en) deliveries_table c x) (\<lambda>e. gfail (del_mapStoreErr e)) (\<lambda>_.
         del_enqueueStatus (market_deliveries en) c x u)))
      (\<lambda>_. pg_safe market_inv) (pg_safe market_inv)"
    unfolding del_runMaybeTx_def del_fields del_enqueueStatus_def
    by (intro triple_run_tx triple_finish safe_rules enqueue_keeps)
qed

lemma dis_fields:
  "dsv_store (market_disputes en) = Some (dis_pg_store (me_codec en) disputes_table evidence_table)"
  "dsv_txns (market_disputes en) = Some (txn_GetTransaction (market_txns en))"
  "dsv_deliveries (market_disputes en) = Some (del_GetDeliveryByTransaction (market_deliveries en))"
  "dsv_now (market_disputes en) = pg_now" "dsv_rand (market_disputes en) = pg_rand"
  "dsv_tx (market_disputes en) = Some (PoolTransactor dis_mapStoreErr)"
  "dsv_outbox (market_disputes en) = Some (market_enqueue en)"
  "ds_Create (dis_pg_store cd disputes_table evidence_table) = dis_pg_Create cd disputes_table"
  "ds_GetActiveByTransactionID (dis_pg_store cd disputes_table evidence_table) =
     dis_pg_GetActiveByTransactionID disputes_table"
  "ds_ListConcludedByTransactionID (dis_pg_store cd disputes_table evidence_table) =
     dis_pg_ListConcludedByTransactionID disputes_table"
  by (simp_all add: market_disputes_def dis_pg_store_def)

lemma dis_checks_same:
  "keeps pg_same (dis_assertWindow (market_disputes en) r)"
  "keeps pg_same (dis_observeDelivery (market_disputes en) c reason i)"
proof -
  show "keeps pg_same (dis_assertWindow (market_disputes en) r)"
    unfolding dis_assertWindow_def Let_def dis_fields by (intro same_rules pg_same_read)
  show "keeps pg_same (dis_observeDelivery (market_disputes en) c reason i)"
    unfolding dis_observeDelivery_def dis_fields option.case by (intro same_rules deliveries_same)
qed

lemma dis_create_keeps: "keeps steady (dis_svc_CreateForTransaction (market_disputes en) c u i inp)"
  unfolding dis_svc_CreateForTransaction_def dis_getTransaction_def dis_fields gneed_Some
proof (intro triple_keepsI triple_if triple_ends triple_bind_read [OF triple_gmaperr [OF triple_txn_ref]]
    triple_absent [OF store_reads(17)] triple_bind_read [OF triple_gmaperr [OF triple_same [OF store_reads(18)]]]
    triple_bind_read [OF triple_same [OF dis_checks_same(1)]] triple_bind_read [OF triple_same [OF dis_checks_same(2)]]
    triple_gguard triple_clock triple_draw triple_bind_pure triple_finish safe_rules)
  fix r now e x
  let ?G = "\<lambda>d. True \<and> of_txn (mk_txns d) (tr_ID (r :: TransactionRef)) (tr_RequesterUserID r) (tr_ProviderUserID r)"
  assume "dis_CreateOpen (dis_create_of r u inp) (time_UTC now) e = Inr x"
  note D = dis_CreateOpenD [OF this]
  have "triple (holds market_inv ?G) (dis_pg_Create (me_codec en) disputes_table c x) (\<lambda>_. pg_safe market_inv)
      (pg_safe market_inv)" for c
    by (rule triple_dis_create) (simp add: D dis_create_of_def)
  then show "triple (holds market_inv ?G)
      (dis_runMaybeTx (market_disputes en) c (\<lambda>c.
         gcase (dis_pg_Create (me_codec en) disputes_table c x) (\<lambda>e. gfail (dis_mapStoreErr e)) (\<lambda>_.
         dis_enqueueUpdated (market_disputes en) c x u)))
      (\<lambda>_. pg_safe market_inv) (pg_safe market_inv)"
    unfolding dis_runMaybeTx_def dis_fields dis_enqueueUpdated_def
    by (intro triple_run_tx triple_finish safe_rules enqueue_keeps)
qed

section \<open>The requests\<close>

text \<open>
  The operations the HTTP handlers, the expiry job and the worker call, with what the caller supplies.
  A caller's identity is the first \<open>ID\<close> of its request.
\<close>

datatype request =
    Need_Create ID need_content | Need_Update ID ID need_content | Need_Open ID ID | Need_Fulfill ID ID
  | Need_Cancel ID ID | Need_Expire ID | Need_Get ID ID | Need_List ID | Need_Candidates ID ID int
  | Offer_Create ID offer_content | Offer_Withdraw ID ID | Offer_Accept ID ID ID | Offer_Reject ID ID ID
  | Offer_List ID ID | Offer_Mine ID | Offer_NeedView ID ID ID ID
  | Txn_Create ID ID | Txn_Start ID ID | Txn_Complete ID ID | Txn_Cancel ID ID | Txn_Get ID ID | Txn_List ID
  | Pay_Create ID ID | Pay_Authorized ID provider_signal | Pay_Captured ID provider_signal
  | Pay_Cancelled ID provider_signal | Pay_Failed ID provider_signal | Pay_Get ID ID | Pay_List ID
  | Del_Create ID ID delivery_input | Del_Ready ID ID | Del_InTransit ID ID | Del_Delivered ID ID
  | Del_Cancel ID ID | Del_Get ID ID | Del_List ID
  | Dis_Create ID ID dispute_input | Dis_Withdraw ID ID | Dis_Review ID | Dis_Resolve ID string | Dis_Close ID
  | Dis_Evidence ID ID evidence_input | Dis_Internal ID evidence_input "ID option" | Dis_Get ID ID | Dis_List ID
  | Dis_Evidences ID ID
  | Events_Claim time | Events_Complete ID time | Events_Reschedule outbox_event string time
  | Events_Attempt ID | Event_Completion outbox_event

text \<open>What serving a request leaves behind; its answer does not concern the database.\<close>

abbreviation run :: "('w, 'a) go \<Rightarrow> 'w \<Rightarrow> 'w" where
  "run m w \<equiv> fst (m w)"

primrec serve :: "market_env \<Rightarrow> ctx \<Rightarrow> request \<Rightarrow> store \<Rightarrow> store" where
  "serve en c (Need_Create u n) = run (need_svc_Create (market_needs en) c u n)"
| "serve en c (Need_Update u i n) = run (need_svc_Update (market_needs en) c u i n)"
| "serve en c (Need_Open u i) = run (need_svc_Open (market_needs en) c u i)"
| "serve en c (Need_Fulfill u i) = run (need_svc_Fulfill (market_needs en) c u i)"
| "serve en c (Need_Cancel u i) = run (need_svc_Cancel (market_needs en) c u i)"
| "serve en c (Need_Expire i) = run (need_svc_ExpireIfDue (market_needs en) c i)"
| "serve en c (Need_Get u i) = run (need_svc_GetOwned (market_needs en) c u i)"
| "serve en c (Need_List u) = run (need_svc_ListOwned (market_needs en) c u)"
| "serve en c (Need_Candidates u i k) = run (need_svc_ListCandidates (market_needs en) c u i k)"
| "serve en c (Offer_Create u n) = run (offer_svc_Create (market_offers en) c u n)"
| "serve en c (Offer_Withdraw u i) = run (offer_svc_Withdraw (market_offers en) c u i)"
| "serve en c (Offer_Accept u n i) = run (offer_svc_Accept (market_offers en) c u n i)"
| "serve en c (Offer_Reject u n i) = run (offer_svc_Reject (market_offers en) c u n i)"
| "serve en c (Offer_List u n) = run (offer_svc_ListForRequester (market_offers en) c u n)"
| "serve en c (Offer_Mine u) = run (offer_svc_ListMine (market_offers en) c u)"
| "serve en c (Offer_NeedView u n b s) = run (offer_ProviderNeedView (market_offers en) c u n b s)"
| "serve en c (Txn_Create u i) = run (txn_svc_CreateFromAcceptedOffer (market_txns en) c u i)"
| "serve en c (Txn_Start u i) = run (txn_svc_Start (market_txns en) c u i)"
| "serve en c (Txn_Complete u i) = run (txn_svc_Complete (market_txns en) c u i)"
| "serve en c (Txn_Cancel u i) = run (txn_svc_Cancel (market_txns en) c u i)"
| "serve en c (Txn_Get u i) = run (txn_svc_Get (market_txns en) c u i)"
| "serve en c (Txn_List u) = run (txn_svc_ListMine (market_txns en) c u)"
| "serve en c (Pay_Create u i) = run (pay_svc_CreateForTransaction (market_payments en) c u i)"
| "serve en c (Pay_Authorized i g) = run (pay_svc_ApplyAuthorized (market_payments en) c i g)"
| "serve en c (Pay_Captured i g) = run (pay_svc_ApplyCaptured (market_payments en) c i g)"
| "serve en c (Pay_Cancelled i g) = run (pay_svc_ApplyCancelled (market_payments en) c i g)"
| "serve en c (Pay_Failed i g) = run (pay_svc_ApplyFailed (market_payments en) c i g)"
| "serve en c (Pay_Get u i) = run (pay_svc_Get (market_payments en) c u i)"
| "serve en c (Pay_List u) = run (pay_svc_ListMine (market_payments en) c u)"
| "serve en c (Del_Create u i inp) = run (del_svc_CreateForTransaction (market_deliveries en) c u i inp)"
| "serve en c (Del_Ready u i) = run (del_svc_MarkReady (market_deliveries en) c u i)"
| "serve en c (Del_InTransit u i) = run (del_svc_MarkInTransit (market_deliveries en) c u i)"
| "serve en c (Del_Delivered u i) = run (del_svc_MarkDelivered (market_deliveries en) c u i)"
| "serve en c (Del_Cancel u i) = run (del_svc_Cancel (market_deliveries en) c u i)"
| "serve en c (Del_Get u i) = run (del_svc_Get (market_deliveries en) c u i)"
| "serve en c (Del_List u) = run (del_svc_ListMine (market_deliveries en) c u)"
| "serve en c (Dis_Create u i inp) = run (dis_svc_CreateForTransaction (market_disputes en) c u i inp)"
| "serve en c (Dis_Withdraw u i) = run (dis_svc_Withdraw (market_disputes en) c u i)"
| "serve en c (Dis_Review i) = run (dis_svc_StartReview (market_disputes en) c i)"
| "serve en c (Dis_Resolve i code) = run (dis_svc_Resolve (market_disputes en) c i code)"
| "serve en c (Dis_Close i) = run (dis_svc_Close (market_disputes en) c i)"
| "serve en c (Dis_Evidence u i inp) = run (dis_svc_AddEvidence (market_disputes en) c u i inp)"
| "serve en c (Dis_Internal i inp a) = run (dis_svc_AddInternalEvidence (market_disputes en) c i inp a)"
| "serve en c (Dis_Get u i) = run (dis_svc_Get (market_disputes en) c u i)"
| "serve en c (Dis_List u) = run (dis_svc_ListMine (market_disputes en) c u)"
| "serve en c (Dis_Evidences u i) = run (dis_svc_ListEvidence (market_disputes en) c u i)"
| "serve en c (Events_Claim now) = run (ob_Claim (market_outbox en) c now)"
| "serve en c (Events_Complete i now) = run (ob_Complete (market_outbox en) c i now)"
| "serve en c (Events_Reschedule e cls now) = run (ob_Reschedule (market_outbox en) c e cls now)"
| "serve en c (Events_Attempt i) = run (ob_IncrementAttempts (market_outbox en) c i)"
| "serve en c (Event_Completion e) = run (completion_Handle (worker_completion en) c e)"

lemmas steady_order = safe.world_order_axioms [of market_inv]

lemma outbox_ops_keep:
  assumes "market_env_ok en"
  shows "keeps steady (ob_Claim (market_outbox en) c now)" and "keeps steady (ob_Complete (market_outbox en) c i now)"
    and "keeps steady (ob_Reschedule (market_outbox en) c e cls now)"
    and "keeps steady (ob_IncrementAttempts (market_outbox en) c i)"
proof -
  have clock: "steady w (fst (if time_IsZero now then ob_now (market_outbox en) w else (w, now)))" for w
    by (simp add: market_outbox_def pg_keeps_safe_def) (simp add: pg_safe_def pg_now_def)
  have nxt: "keeps steady (ob_next (market_outbox en) t n)" for t n
    using market_envD(5) [OF assms, THEN same_safe] by (simp add: market_outbox_def)
  have st: "ob_store (market_outbox en) = outbox_pg_store (me_codec en) (me_event en) events_table"
    by (simp add: market_outbox_def)
  note rules = safe_rules clock nxt outbox_writes
  show "keeps steady (ob_Claim (market_outbox en) c now)"
    unfolding ob_Claim_def st outbox_pg_store_def outbox_store.simps by (intro rules)
  show "keeps steady (ob_Complete (market_outbox en) c i now)"
    unfolding ob_Complete_def st outbox_pg_store_def outbox_store.simps by (intro rules)
  show "keeps steady (ob_Reschedule (market_outbox en) c e cls now)"
    unfolding ob_Reschedule_def st outbox_pg_store_def outbox_store.simps by (intro rules)
  show "keeps steady (ob_IncrementAttempts (market_outbox en) c i)"
    unfolding ob_IncrementAttempts_def st outbox_pg_store_def outbox_store.simps by (intro rules)
qed

lemma worker_keeps:
  assumes "market_env_ok en"
  shows "keeps steady (completion_Handle (worker_completion en) c e)"
proof (rule world_order.completion_keeps [OF steady_order])
  show "keeps_opt2 steady (map_option ts_Get (ch_store (worker_completion en)))"
    by (simp add: worker_completion_def txn_pg_store_def keeps_opt2_def store_reads [THEN same_safe])
  show "keeps_opt2 steady (ch_fulfill (worker_completion en))"
    using world_order.need_ops_keep(13) [OF steady_order need_service_ok(2) [OF assms]]
    by (simp add: worker_completion_def keeps_opt2_def)
qed

text \<open>Every request keeps the invariant, whatever the server does with its statements.\<close>

lemma serve_keeps:
  assumes "market_env_ok en"
  shows "steady w (serve en c rq w)"
proof -
  note K = world_order.need_ops_keep [OF steady_order need_service_ok(1) [OF assms]]
    world_order.offer_ops_keep [OF steady_order offer_service_ok [OF assms]]
    world_order.txn_ops_keep [OF steady_order txn_service_ok [OF assms]]
    world_order.pay_ops_keep [OF steady_order payment_service_ok]
    world_order.del_ops_keep [OF steady_order delivery_service_ok]
    world_order.dis_ops_keep [OF steady_order dispute_service_ok]
    withdraw_keeps reject_keeps [OF assms] txn_create_keeps [OF assms] pay_create_keeps del_create_keeps
    dis_create_keeps outbox_ops_keep [OF assms] worker_keeps [OF assms]
  show ?thesis
    by (cases rq) (simp_all only: serve.simps K [unfolded keeps_def])
qed

section \<open>Samples\<close>

definition sample_candidate :: service_candidate where
  "sample_candidate = \<lparr>sc_BusinessID = id_n 20, sc_BusinessDisplayName = ''b'', sc_ServiceID = id_n 21,
     sc_ServiceTitle = ''t'', sc_ServiceDescription = ''d'', sc_PriceModel = ''fixed'', sc_PriceAmount = None,
     sc_PriceCurrency = None, sc_DistanceKm = Finite 0, sc_CategoryID = None\<rparr>"

definition sample_env :: market_env where
  "sample_env = \<lparr>me_codec = sample_codec, me_event = (\<lambda>e. e), me_categories = (\<lambda>c k. gret ()),
     me_candidates = (\<lambda>c q. gret []), me_eligibility = (\<lambda>c q. gret sample_candidate),
     me_businessOwner = (\<lambda>c b u. gret ()), me_letter = (\<lambda>r. False), me_lease = 60, me_batch = 10,
     me_next = (\<lambda>t n. gret (t + 60))\<rparr>"

lemma sample_env_ok: "market_env_ok sample_env"
  by (simp add: market_env_ok_def sample_env_def)

definition sample_market :: market where
  "sample_market = \<lparr>mk_needs = [(id_n 1, sample_pg_need NeedOpen 40000)],
     mk_offers = [(id_n 10, sample_pg_offer 10 OfferAccepted 40000)],
     mk_txns = [(id_n 50, sample_pg_txn TxnActive 40000)], mk_payments = [], mk_deliveries = [],
     mk_disputes = [], mk_evidence = [], mk_outbox = []\<rparr>"

lemma sample_market_inv: "market_inv sample_market"
proof -
  have "need_check (sample_pg_need NeedOpen 40000)"
    by (simp add: need_check_def sample_pg_need_def sample_need_def budget_check_def)
  moreover have "offer_check (sample_pg_offer 10 OfferAccepted 40000)"
    by (simp add: offer_check_def)
  moreover have "txn_check (sample_pg_txn TxnActive 40000)"
    by (simp add: txn_check_def) (simp add: sample_pg_txn_def sample_txn_def)
  moreover have "txn_sourced [(id_n 1, sample_pg_need NeedOpen 40000)]
      [(id_n 10, sample_pg_offer 10 OfferAccepted 40000)] (sample_pg_txn TxnActive 40000)"
    by (simp add: txn_sourced_def sample_pg_txn_def sample_txn_def sample_pg_offer_def sample_offer_def)
  ultimately show ?thesis
    by (simp add: market_inv_def market_tables_def market_links_def sample_market_def table_ok_def wf_map_def
        all_rows_def)
qed

end
