(* ===== verification/Market.thy ===== *)
theory Market
  imports Market_Steps "HOL-Library.Code_Target_Nat"
begin

text \<open>
  The marketplace over time: the databases it reaches from an empty one, whatever is asked of it, in
  whatever order, and whatever its server refuses or loses; and what every one of them satisfies.
\<close>

section \<open>Reachable databases\<close>

text \<open>
  A step serves a request that is in no transaction yet, or nothing happens to the database: time passes,
  and what the server will do next is open.
\<close>

inductive market_step :: "market_env \<Rightarrow> store \<Rightarrow> store \<Rightarrow> bool" for en where
  serves: "\<not> ctx_tx c \<Longrightarrow> market_step en w (serve en c rq w)"
| elsewhere: "pg_same w w' \<Longrightarrow> market_step en w w'"

inductive_cases market_stepE: "market_step en w w'"

definition empty_market :: market where
  "empty_market = \<lparr>mk_needs = [], mk_offers = [], mk_txns = [], mk_payments = [], mk_deliveries = [],
     mk_disputes = [], mk_evidence = [], mk_outbox = []\<rparr>"

inductive reachable :: "market_env \<Rightarrow> store \<Rightarrow> bool" for en where
  start: "pg_data w = empty_market \<Longrightarrow> pg_saved w = None \<Longrightarrow> reachable en w"
| step: "reachable en w \<Longrightarrow> market_step en w w' \<Longrightarrow> reachable en w'"

lemma empty_market_inv: "market_inv empty_market"
  by (simp add: market_inv_def market_tables_def market_links_def empty_market_def table_ok_def wf_map_def
      all_rows_def)

lemma market_step_keeps:
  assumes "market_env_ok en" and "market_step en w w'"
  shows "steady w w'"
  using assms(2)
proof cases
  case (serves c rq)
  then show ?thesis using serve_keeps [OF assms(1)] by simp
next
  case elsewhere
  then show ?thesis by (auto simp: pg_same_def pg_keeps_safe_def pg_safe_def)
qed

lemma reachable_safe:
  assumes en: "market_env_ok en" and "reachable en w"
  shows "pg_safe market_inv w"
  using assms(2)
proof induction
  case (start w)
  then show ?case using empty_market_inv by (simp add: pg_safe_def)
next
  case (step w w')
  then show ?case using market_step_keeps [OF en] by (simp add: pg_keeps_safe_def)
qed

lemma reachable_inv: "market_env_ok en \<Longrightarrow> reachable en w \<Longrightarrow> market_inv (pg_data w)"
  using reachable_safe by (auto simp: pg_safe_def)

lemma reachable_serves:
  "reachable en w \<Longrightarrow> \<not> ctx_tx c \<Longrightarrow> reachable en (foldl (\<lambda>w rq. serve en c rq w) w rqs)"
  by (induction rqs arbitrary: w) (auto intro: step serves)

section \<open>What the tables of a reachable database say\<close>

lemma inv_txn_by_need:
  assumes inv: "market_inv d" and t: "map_of (mk_txns d) i = Some t" "map_of (mk_txns d) j = Some t'"
    and need: "txn_NeedID t = txn_NeedID t'"
  shows "i = j"
proof -
  have src: "\<exists>o'. map_of (mk_offers d) (txn_OfferID x) = Some o' \<and> offer_Status o' = OfferAccepted \<and>
      offer_NeedID o' = txn_NeedID x" if "map_of (mk_txns d) k = Some x" for k x
    using all_rowsD [OF market_linksD(1) [OF inv] that] by (auto simp: txn_sourced_def)
  obtain a b where a: "map_of (mk_offers d) (txn_OfferID t) = Some a" "offer_Status a = OfferAccepted"
      "offer_NeedID a = txn_NeedID t"
    and b: "map_of (mk_offers d) (txn_OfferID t') = Some b" "offer_Status b = OfferAccepted"
      "offer_NeedID b = txn_NeedID t'"
    using src t by blast
  then have "offer_clash a b" using need by (simp add: offer_clash_def)
  then have "txn_OfferID t = txn_OfferID t'"
    using table_okD(4) [OF market_tablesD(2) [OF inv] a(1) b(1)] by simp
  then have "txn_clash t t'" by (simp add: txn_clash_def)
  then show ?thesis using table_okD(4) [OF market_tablesD(3) [OF inv] t] by simp
qed

section \<open>A sample run\<close>

text \<open>
  A requester posts and opens a Need, a provider offers, the requester accepts, makes a Transaction of it
  and a payment for that. The database is up, no category or business is refused.
\<close>

definition sid :: "nat \<Rightarrow> ID" where
  "sid n = stamp_uuid (id_n n)"

definition sample_offer_content :: offer_content where
  "sample_offer_content = \<lparr>oc_NeedID = sid 200, oc_ProviderBusinessID = id_n 20, oc_ServiceID = id_n 21,
     oc_Message = [], oc_Price = Some sample_price\<rparr>"

definition story :: "request list" where
  "story = [Need_Create (id_n 2) sample_content, Need_Open (id_n 2) (sid 200),
     Offer_Create (id_n 3) sample_offer_content, Offer_Accept (id_n 2) (sid 200) (sid 201),
     Txn_Create (id_n 2) (sid 201), Pay_Create (id_n 2) (sid 204)]"

definition story_end :: store where
  "story_end = foldl (\<lambda>w rq. serve sample_env background rq w) (sample_pg empty_market) story"

lemma story_reachable: "reachable sample_env story_end"
proof -
  have "reachable sample_env (sample_pg empty_market)" by (rule start) (simp_all add: sample_pg_def)
  then show ?thesis unfolding story_end_def by (rule reachable_serves) (simp add: background_def)
qed

text \<open>The run ends with one row of each kind, in the state its last request put it.\<close>

definition market_view :: "market \<Rightarrow> (ID \<times> string) list list" where
  "market_view d =
     [map (\<lambda>x. (fst x, need_Status (snd x))) (mk_needs d), map (\<lambda>x. (fst x, offer_Status (snd x))) (mk_offers d),
      map (\<lambda>x. (fst x, txn_Status (snd x))) (mk_txns d), map (\<lambda>x. (fst x, p_Status (snd x))) (mk_payments d),
      map (\<lambda>x. (fst x, oe_EventType (snd x))) (mk_outbox d)]"

lemma story_rows:
  "market_view (pg_data story_end) =
     [[(sid 200, NeedOpen)], [(sid 201, OfferAccepted)], [(sid 204, TxnPending)], [(sid 206, PayPending)],
      [(sid 202, OfferEventSubmitted), (sid 203, OfferEventAccepted), (sid 205, TxnEventCreated)]]"
  by code_simp

lemma story_ids:
  "map fst (mk_needs (pg_data story_end)) = [sid 200]" "map fst (mk_txns (pg_data story_end)) = [sid 204]"
  "map fst (mk_payments (pg_data story_end)) = [sid 206]"
  using story_rows by (auto simp: market_view_def map_eq_Cons_conv)

section \<open>What every reachable database satisfies\<close>

lemma distinct_rows:
  assumes ok: "table_ok key chk clash rows"
    and one: "\<And>k l a b. map_of rows k = Some a \<Longrightarrow> map_of rows l = Some b \<Longrightarrow> P a \<Longrightarrow> P b \<Longrightarrow> f a = f b \<Longrightarrow> k = l"
  shows "distinct (map f (filter P (map snd rows)))"
proof -
  have d: "distinct (map snd rows)"
    using table_ok_rows(1) [OF ok, of "\<lambda>_. 0 :: nat" "\<lambda>_. True"] distinct_map [of key "map snd rows"]
    by (simp add: sort_key_const del: map_map)
  have row: "\<exists>k. map_of rows k = Some a" if "a \<in> set (map snd rows)" for a
    using table_ok_rows(2) [OF ok, of a "\<lambda>_. True"] that by auto
  have "inj_on f (set (filter P (map snd rows)))"
  proof (rule inj_onI)
    fix a b
    assume "a \<in> set (filter P (map snd rows))" "b \<in> set (filter P (map snd rows))" "f a = f b"
    moreover from this obtain k l where "map_of rows k = Some a" "map_of rows l = Some b"
      using row [of a] row [of b] by auto
    ultimately show "a = b" using one [of k a l b] by simp
  qed
  with d show ?thesis by (simp add: distinct_map)
qed

text \<open>C1. A Need is dealt with once: in every database the marketplace reaches, whatever the requests,
  their order and the failures of the server, no two accepted offers are for the same Need, no two
  Transactions are for the same Need, and no two payments are for the same Transaction.\<close>

theorem one_deal_per_need:
  assumes "market_env_ok en" and "reachable en w"
  shows "distinct (map offer_NeedID (filter (\<lambda>o'. offer_Status o' = OfferAccepted) (map snd (mk_offers (pg_data w))))) \<and>
    distinct (map txn_NeedID (map snd (mk_txns (pg_data w)))) \<and>
    distinct (map p_TransactionID (map snd (mk_payments (pg_data w))))"
proof (intro conjI)
  note inv = reachable_inv [OF assms]
  note O = market_tablesD(2) [OF inv] and T = market_tablesD(3) [OF inv] and P = market_tablesD(4) [OF inv]
  show "distinct (map offer_NeedID (filter (\<lambda>o'. offer_Status o' = OfferAccepted) (map snd (mk_offers (pg_data w)))))"
    by (rule distinct_rows [OF O], rule table_okD(4) [OF O]) (unfold offer_clash_def, blast+)
  have "distinct (map txn_NeedID (filter (\<lambda>_. True) (map snd (mk_txns (pg_data w)))))"
    by (rule distinct_rows [OF T]) (rule inv_txn_by_need [OF inv])
  then show "distinct (map txn_NeedID (map snd (mk_txns (pg_data w))))" by simp
  have "distinct (map p_TransactionID (filter (\<lambda>_. True) (map snd (mk_payments (pg_data w)))))"
    by (rule distinct_rows [OF P], rule table_okD(4) [OF P]) (unfold pay_clash_def, blast+)
  then show "distinct (map p_TransactionID (map snd (mk_payments (pg_data w))))" by simp
qed

theorem one_deal_per_need_witness:
  "map fst (mk_txns (pg_data story_end)) = [sid 204] \<and>
   distinct (map offer_NeedID (filter (\<lambda>o'. offer_Status o' = OfferAccepted) (map snd (mk_offers (pg_data story_end))))) \<and>
   distinct (map txn_NeedID (map snd (mk_txns (pg_data story_end)))) \<and>
   distinct (map p_TransactionID (map snd (mk_payments (pg_data story_end))))"
  using one_deal_per_need [OF sample_env_ok story_reachable] story_ids by simp

text \<open>Whom a payment is between, and what it stands on.\<close>

definition pays_for_deal :: "market \<Rightarrow> payment \<Rightarrow> bool" where
  "pays_for_deal d p \<longleftrightarrow>
     (case map_of (mk_txns d) (p_TransactionID p) of
        None \<Rightarrow> False
      | Some t \<Rightarrow>
          (case (map_of (mk_offers d) (txn_OfferID t), map_of (mk_needs d) (txn_NeedID t)) of
             (Some o', Some n) \<Rightarrow>
               offer_Status o' = OfferAccepted \<and> offer_NeedID o' = need_ID n \<and>
               p_PayerUserID p = need_RequesterUserID n \<and> p_PayeeUserID p = offer_ProviderUserID o' \<and>
               p_PayerUserID p \<noteq> p_PayeeUserID p
           | _ \<Rightarrow> False))"

text \<open>C2. Who pays and who is paid have agreed to it: in every database the marketplace reaches, each payment
  is for a Transaction on an accepted offer for a Need, by the requester of that Need, for the provider of
  that offer, and these are two different users.\<close>

theorem payments_for_deals:
  assumes "market_env_ok en" and "reachable en w"
  shows "list_all (pays_for_deal (pg_data w)) (map snd (mk_payments (pg_data w)))"
proof -
  note inv = reachable_inv [OF assms]
  have "pays_for_deal (pg_data w) p" if p: "map_of (mk_payments (pg_data w)) k = Some p" for k p
  proof -
    obtain t where t: "map_of (mk_txns (pg_data w)) (p_TransactionID p) = Some t"
      "txn_RequesterUserID t = p_PayerUserID p" "txn_ProviderUserID t = p_PayeeUserID p"
      using all_rowsD [OF market_linksD(2) [OF inv] p] by (auto simp: of_txn_def)
    have "pay_check p" by (rule table_okD(3) [OF market_tablesD(4) [OF inv] p])
    then have "p_PayerUserID p \<noteq> p_PayeeUserID p" by (simp add: pay_check_def)
    then show ?thesis
      using t all_rowsD [OF market_linksD(1) [OF inv] t(1)] table_okD(2) [OF market_tablesD(1) [OF inv]]
      by (auto simp: txn_sourced_def pays_for_deal_def)
  qed
  then show ?thesis
    using table_ok_rows(2) [OF market_tablesD(4) [OF inv], of _ "\<lambda>_. True"] by (auto simp: list_all_iff)
qed

theorem payments_for_deals_witness:
  "map fst (mk_payments (pg_data story_end)) = [sid 206] \<and>
   list_all (pays_for_deal (pg_data story_end)) (map snd (mk_payments (pg_data story_end)))"
  using payments_for_deals [OF sample_env_ok story_reachable] story_ids by simp

text \<open>C4. The invariant of the database: whatever is asked of the marketplace, in whatever order, and whatever
  its server refuses or loses, the tables keep their constraints, a Transaction stands on an accepted offer
  of its provider for a Need of its requester, and payments, deliveries, disputes and evidence hang on
  their Transactions and disputes.\<close>

theorem market_keeps_invariant:
  assumes "market_env_ok en" and "reachable en w"
  shows "market_tables (pg_data w) \<and> market_links (pg_data w)"
  using reachable_inv [OF assms] by (simp add: market_inv_def)

theorem market_keeps_invariant_witness:
  "map fst (mk_needs (pg_data story_end)) = [sid 200] \<and>
   market_tables (pg_data story_end) \<and> market_links (pg_data story_end)"
  using market_keeps_invariant [OF sample_env_ok story_reachable] story_ids by simp

end
