(* ===== verification/Completion.thy ===== *)
theory Completion
  imports Market_Steps
begin

text \<open>
  The completion of a Transaction across the services: the row and its event are written together or not
  at all, and the worker turns the event into the fulfilment of the Need.
\<close>

section \<open>A failed statement dooms its transaction\<close>

lemma pg_run_broken:
  "pg_run c stmt w = (w', Inl e) \<Longrightarrow> ctx_tx c \<Longrightarrow> pg_aborted w'"
  by (auto simp: pg_run_def pg_broken_def Let_def split: option.splits pg_fate.splits prod.splits sum.splits if_splits)

lemma pg_create_broken:
  assumes "pg_create mp l key chk clash c r w = (w', Inl e)" and "ctx_tx c"
  shows "pg_aborted w'"
proof -
  obtain e' where "pg_run c (on_table (fst l) (snd l) (pg_insert key chk clash r)) w = (w', Inl e')"
    using assms(1)
    by (auto simp: pg_create_def pool_Exec_def pg_go_def gmaperr_apply split: prod.splits sum.splits)
  then show ?thesis using assms(2) by (rule pg_run_broken)
qed

lemma reject_no_conflict: "rejectSensitive letter v \<noteq> Some (ObErr Ob_ErrConflict)"
  by (cases v) simp_all

lemma validate_no_conflict: "event_Validate letter e \<noteq> Some (ObErr Ob_ErrConflict)"
  using reject_no_conflict
  by (auto simp: event_Validate_def validatePayload_def split: option.splits json.splits)

text \<open>
  An event that is written inside a transaction: the enqueuer's tolerance of a conflict does not help,
  because the conflict has doomed the transaction.
\<close>

lemma ob_Enqueue_cases:
  assumes "ob_Enqueue (market_outbox en) c inp w = (w', r)"
  shows "(\<exists>e. r = Inl e \<and> e \<noteq> ObErr Ob_ErrConflict) \<or>
    (\<exists>i now w1 e. pg_same w w1 \<and> outbox_pg_Insert (me_event en) events_table c (event_of i now inp) w1 = (w', Inl e)) \<or>
    (\<exists>i now w1 u. pg_same w w1 \<and> outbox_pg_Insert (me_event en) events_table c (event_of i now inp) w1 = (w', Inr u))"
proof -
  have st: "ob_store (market_outbox en) = outbox_pg_store (me_codec en) (me_event en) events_table"
    "ob_rand (market_outbox en) = pg_rand" "ob_now (market_outbox en) = pg_now"
    by (simp_all add: market_outbox_def)
  show ?thesis
  proof (cases "NewID (snd (pg_rand w))")
    case None
    then show ?thesis using assms by (auto simp: ob_Enqueue_def st gread_apply split: prod.splits)
  next
    case (Some i)
    define w1 where "w1 = fst (pg_now (fst (pg_rand w)))"
    define now where "now = snd (pg_now (fst (pg_rand w)))"
    have same: "pg_same w w1" using same.le_trans [OF pg_same_read(2) pg_same_read(1)] by (simp add: w1_def)
    show ?thesis
    proof (cases "event_Validate (ob_letter (market_outbox en)) (event_of i now inp)")
      case (Some e)
      with \<open>NewID _ = Some i\<close> assms have "r = Inl e"
        by (simp add: ob_Enqueue_def st gread_apply Let_def now_def case_prod_unfold gguard_def)
      then show ?thesis using validate_no_conflict Some by fastforce
    next
      case None
      obtain w2 r' where ins: "outbox_pg_Insert (me_event en) events_table c (event_of i now inp) w1 = (w2, r')"
        by fastforce
      then have "w2 = w'"
        using \<open>NewID _ = Some i\<close> None assms
        by (auto simp: ob_Enqueue_def st gread_apply Let_def now_def w1_def case_prod_unfold gguard_def gcase_apply
            outbox_pg_store_def split: sum.splits)
      with ins have "outbox_pg_Insert (me_event en) events_table c (event_of i now inp) w1 = (w', r')" by simp
      then show ?thesis using same by (cases r') blast+
    qed
  qed
qed

lemma enqueue_in_tx:
  assumes en: "market_env_ok en" and tx: "ctx_tx c"
    and run: "enqueue_event mp (Some (market_enqueue en)) c ev w = (w', Inr u)" and ok: "\<not> pg_aborted w'"
  shows "\<exists>x inp. ev = Inr inp \<and> (\<exists>i now. x = me_event en (event_of i now inp)) \<and>
    map_of (mk_outbox (pg_data w)) (oe_ID x) = None \<and>
    pg_data w' = mk_outbox_update (\<lambda>_. AList.update (oe_ID x) x (mk_outbox (pg_data w))) (pg_data w)"
proof -
  obtain inp where ev: "ev = Inr inp"
    using run by (cases ev) (auto simp: enqueue_event_def go_apply gpure_def)
  obtain r where e: "ob_Enqueue (market_outbox en) c inp w = (w', r)"
    and r: "\<And>er. r = Inl er \<Longrightarrow> er = ObErr Ob_ErrConflict"
    using run ev
    by (auto simp: enqueue_event_def go_apply gpure_def market_enqueue_def split: prod.splits sum.splits if_splits)
  have "\<not> outbox_pg_Insert (me_event en) events_table c y w1 = (w', Inl e)" for y w1 e
    using pg_create_broken [OF _ tx, where w' = w'] ok unfolding outbox_pg_Insert_def by fastforce
  then obtain i now w1 v where w1: "pg_same w w1"
    and ins: "outbox_pg_Insert (me_event en) events_table c (event_of i now inp) w1 = (w', Inr v)"
    using ob_Enqueue_cases [OF e] r by blast
  have "pg_data w1 = pg_data w" using w1 by (simp add: pg_same_def)
  with pg_create_ok [OF ins [unfolded outbox_pg_Insert_def]] ev show ?thesis by auto
qed

section \<open>The completion\<close>

text \<open>What the operation does beside reading: at most one unit of work.\<close>

lemma txn_apply_cases:
  assumes get: "\<And>i. keeps pg_same (txn_svc_Get s c u i)" and now: "\<And>w. pg_same w (fst (tsv_now s w))"
    and fn: "\<And>t now. keeps pg_same (fn t now)"
    and run: "txn_apply s c u i fn emit w = (w', r)"
  shows "pg_same w w' \<or> (\<exists>st cur nxt now w1 w2 w3 w4 r'. tsv_store s = Some st \<and> txn_svc_Get s c u i w = (w1, Inr cur) \<and>
    pg_same w w2 \<and> fn cur (time_UTC now) w2 = (w3, Inr (nxt, True)) \<and> pg_same w w3 \<and>
    txn_runMaybeTx s c (txn_commit s st u emit cur nxt) w3 = (w4, r') \<and> pg_same w4 w')"
proof -
  define again where "again = gbind (txn_svc_Get s c u i) (\<lambda>latest. gread (tsv_now s) (\<lambda>now.
      gbind (fn latest (time_UTC now)) (\<lambda>(_, againChanged).
      if \<not> againChanged then gret latest else gfail (TxnErr Txn_errConflict))))"
  define attempt where "attempt = (\<lambda>cur nxt. gneed (tsv_store s) (TxnErr Txn_errStoreRequired) (\<lambda>st.
      gcase (txn_runMaybeTx s c (txn_commit s st u emit cur nxt))
        (\<lambda>err. if err \<noteq> TxnErr Txn_errConflict then gfail err else again) (\<lambda>_. gret nxt)))"
  have ag: "pg_same x (fst (again x))" for x
  proof -
    have "keeps pg_same again" unfolding again_def by (intro same_rules get now fn)
    then show ?thesis by (simp add: keeps_def)
  qed
  have un: "txn_apply s c u i fn emit = gbind (txn_svc_Get s c u i) (\<lambda>cur. gread (tsv_now s) (\<lambda>now.
      gbind (fn cur (time_UTC now)) (\<lambda>(nxt, changed). if \<not> changed then gret cur else attempt cur nxt)))"
    unfolding txn_apply_def attempt_def again_def by (rule refl)
  obtain w1 r1 where g: "txn_svc_Get s c u i w = (w1, r1)" by fastforce
  have s1: "pg_same w w1" using get [of i] g unfolding keeps_def by (metis fst_conv)
  show ?thesis
  proof (cases r1)
    case (Inl e)
    then show ?thesis using run g s1 by (simp add: un go_apply)
  next
    case (Inr cur)
    obtain w2 now where n: "tsv_now s w1 = (w2, now)" by fastforce
    then have s2: "pg_same w w2" using same.le_trans [OF s1 assms(2) [of w1]] by simp
    obtain w3 r3 where f: "fn cur (time_UTC now) w2 = (w3, r3)" by fastforce
    have "pg_same w2 w3" using fn [of cur "time_UTC now"] f unfolding keeps_def by (metis fst_conv)
    with s2 have s3: "pg_same w w3" by (rule same.le_trans)
    note un = un [THEN fun_cong, of w] g Inr n f run
    show ?thesis
    proof (cases "\<exists>nxt. r3 = Inr (nxt, True) \<and> tsv_store s \<noteq> None")
      case False
      then have "w' = w3"
        using un by (cases r3; cases "tsv_store s") (auto simp: go_apply gread_apply attempt_def split: if_splits)
      then show ?thesis using s3 by simp
    next
      case True
      then obtain nxt st where r3: "r3 = Inr (nxt, True)" and st: "tsv_store s = Some st" by auto
      obtain w4 r4 where t: "txn_runMaybeTx s c (txn_commit s st u emit cur nxt) w3 = (w4, r4)" by fastforce
      have "attempt cur nxt w3 = (w', r)" using un r3 by (simp add: go_apply gread_apply)
      then have "w' = w4 \<or> w' = fst (again w4)"
        using st t by (cases r4) (auto simp: go_apply attempt_def split: if_splits)
      then have "pg_same w4 w'" using ag same.le_refl by metis
      then show ?thesis using st g Inr f r3 s2 s3 t by blast
    qed
  qed
qed

lemma txn_CompleteD:
  "txn_Complete t now = Inr (n, True) \<Longrightarrow>
     txn_Status t = TxnActive \<and> txn_Status n = TxnCompleted \<and> txn_ID n = txn_ID t \<and> txn_CompletedAt n \<noteq> None"
  by (auto simp: txn_Complete_def txn_withStatus_def Let_def split: if_splits option.splits)

lemma txn_pg_Update_ok:
  assumes "txn_pg_Update cd txns_table c t v w = (w', Inr u)"
  shows "\<exists>r. map_of (mk_txns (pg_data w)) (txn_ID t) = Some r \<and>
    pg_data w' = mk_txns_update (\<lambda>_. AList.update (txn_ID t) (txn_set (txn_row cd t) r) (mk_txns (pg_data w))) (pg_data w)"
proof -
  have "pg_occ_update txn_mapDBErr (TxnErr Txn_errConflict) txns_table txn_ID txn_check txn_clash c
      (txn_ID t) (\<lambda>r. txn_UpdatedAt r = pc_time cd v) (txn_set (txn_row cd t)) w = (w', Inr u)"
    using gguard_InrD [OF assms [unfolded txn_pg_Update_def]] by blast
  from pg_occ_update_ok [OF market_lenses(3) this] show ?thesis by auto
qed

lemmas grow_rules = world_order.keeps_rules [OF grows.world_order_axioms]

lemma market_enqueue_grows: "keeps pg_grows (market_enqueue en c e)"
proof -
  have ins: "keeps pg_grows (os_Insert (ob_store (market_outbox en)) c x)" for x
    by (simp add: market_outbox_def outbox_pg_store_def outbox_pg_grows)
  have rd: "pg_grows w (fst (ob_rand (market_outbox en) w))" "pg_grows w (fst (ob_now (market_outbox en) w))" for w
    by (simp_all add: market_outbox_def)
  show ?thesis
    unfolding market_enqueue_def ob_Enqueue_def Let_def by (intro grow_rules rd ins)
qed

lemma txn_commit_grows: "keeps pg_grows (txn_commit (market_txns en) (txn_pg_store (me_codec en) txns_table) u emit cur nxt c)"
proof -
  have enq: "keeps pg_grows (enq c e)" if "Some (market_enqueue en) = Some enq" for enq e
    using that market_enqueue_grows by auto
  show ?thesis
    unfolding txn_commit_def txn_pg_store_def txn_store.simps txn_pg_Update_def txn_enqueueCompleted_def
      txn_enqueueLifecycle_def txn_fields
    by (intro grow_rules keeps_pg_store enq)
qed

lemma txn_commit_completed:
  assumes en: "market_env_ok en" and tx: "ctx_tx c"
    and run: "txn_commit (market_txns en) (txn_pg_store (me_codec en) txns_table) u ''completed'' cur nxt c w = (w', Inr v)"
    and ok: "\<not> pg_aborted w'"
  shows "\<exists>r e. map_of (mk_txns (pg_data w)) (txn_ID nxt) = Some r \<and> oe_EventType e = TxnEventCompleted \<and>
    oe_IdempotencyKey e = Some (TxnEventCompleted @ '':'' @ ID_String (txn_ID nxt)) \<and> oe_CompletedAt e = None \<and>
    map_of (mk_outbox (pg_data w)) (oe_ID e) = None \<and>
    pg_data w' = (pg_data w)\<lparr>mk_txns := AList.update (txn_ID nxt) (txn_set (txn_row (me_codec en) nxt) r) (mk_txns (pg_data w)),
      mk_outbox := AList.update (oe_ID e) e (mk_outbox (pg_data w))\<rparr>"
proof -
  obtain w1 where upd: "txn_pg_Update (me_codec en) txns_table c nxt (txn_UpdatedAt cur) w = (w1, Inr ())"
    and enq: "enqueue_event txn_mapStoreErr (Some (market_enqueue en)) c (encodeCompletedEvent nxt u) w1 = (w', Inr v)"
    using run
    by (auto simp: txn_commit_def txn_pg_store_def txn_enqueueCompleted_def txn_fields go_apply split: prod.splits sum.splits)
  obtain r where r: "map_of (mk_txns (pg_data w)) (txn_ID nxt) = Some r"
    "pg_data w1 = mk_txns_update (\<lambda>_. AList.update (txn_ID nxt) (txn_set (txn_row (me_codec en) nxt) r) (mk_txns (pg_data w))) (pg_data w)"
    using txn_pg_Update_ok [OF upd] by blast
  obtain x inp i now where x: "encodeCompletedEvent nxt u = Inr inp" "x = me_event en (event_of i now inp)"
    "map_of (mk_outbox (pg_data w1)) (oe_ID x) = None"
    "pg_data w' = mk_outbox_update (\<lambda>_. AList.update (oe_ID x) x (mk_outbox (pg_data w1))) (pg_data w1)"
    using enqueue_in_tx [OF en tx enq ok] by blast
  have "oe_EventType x = TxnEventCompleted \<and> oe_IdempotencyKey x = Some (TxnEventCompleted @ '':'' @ ID_String (txn_ID nxt)) \<and>
      oe_CompletedAt x = None"
    using x(1,2) en
    by (auto simp: encodeCompletedEvent_def market_env_ok_def event_of_def nonempty_def TxnEventCompleted_def
        TrimSpace_graphic graphic_def split: option.splits)
  then show ?thesis using r x(3,4) by auto
qed

lemma txn_Get_row:
  assumes inv: "market_inv (pg_data w)" and sv: "pg_saved w = None"
    and run: "txn_svc_Get (market_txns en) c u i w = (w1, Inr t)"
  shows "map_of (mk_txns (pg_data w)) i = Some t \<and> txn_ID t = i"
proof -
  have get: "txn_svc_get (market_txns en) c i w = (w1, Inr t)"
    using run by (auto simp: txn_svc_Get_def go_apply split: prod.splits sum.splits if_splits)
  have "holds market_inv (\<lambda>d. d = pg_data w) w" using inv sv by (simp add: holds_def pg_safe_def)
  from tripleD(2) [OF triple_txn_get this get]
  have "map_of (mk_txns (pg_data w)) i = Some t" by (auto simp: holds_def)
  then show ?thesis using table_okD(2) [OF market_tablesD(3) [OF inv]] by blast
qed

lemma txn_complete_fn_ok:
  "txn_complete_fn s c t now w = (w', Inr (n, b)) \<Longrightarrow> txn_Complete t now = Inr (n, b)"
  by (auto simp: txn_complete_fn_def go_apply gpure_def split: prod.splits sum.splits)

lemma complete_reads:
  assumes en: "market_env_ok en"
  shows "keeps pg_same (txn_svc_Get (market_txns en) c u i)"
    and "keeps pg_same (txn_complete_fn (market_txns en) c t now)"
    and "pg_same w (fst (tsv_now (market_txns en) w))"
proof -
  have st: "keeps pg_same (txn_svc_get (market_txns en) c i)" for i
    unfolding txn_svc_get_def by (intro same_rules) (auto simp: market_txns_def txn_pg_store_def store_reads)
  show "keeps pg_same (txn_svc_Get (market_txns en) c u i)" unfolding txn_svc_Get_def by (intro same_rules st)
  have "keeps pg_same (txn_getNeed (market_txns en) c j)" for j
    unfolding txn_getNeed_def txn_fields gneed_Some by (intro same_rules needs_same [OF en])
  then show "keeps pg_same (txn_complete_fn (market_txns en) c t now)"
    unfolding txn_complete_fn_def txn_requireNeedCompletableForTxn_def txn_sourceNeed_def by (intro same_rules)
  show "pg_same w (fst (tsv_now (market_txns en) w))" by (simp add: txn_fields)
qed

text \<open>The unit of work of a completion: nothing, or the row and its event.\<close>

lemma complete_unit:
  assumes en: "market_env_ok en" and sv: "pg_saved w = None" and top: "\<not> ctx_tx c"
    and run: "txn_runMaybeTx (market_txns en) c
      (txn_commit (market_txns en) (txn_pg_store (me_codec en) txns_table) u ''completed'' cur nxt) w = (w', r)"
  shows "pg_saved w' = None \<and> (pg_data w' = pg_data w \<or>
    (\<exists>t e. map_of (mk_txns (pg_data w)) (txn_ID nxt) = Some t \<and> oe_EventType e = TxnEventCompleted \<and>
      oe_IdempotencyKey e = Some (TxnEventCompleted @ '':'' @ ID_String (txn_ID nxt)) \<and> oe_CompletedAt e = None \<and>
      map_of (mk_outbox (pg_data w)) (oe_ID e) = None \<and>
      pg_data w' = (pg_data w)\<lparr>mk_txns := AList.update (txn_ID nxt) (txn_set (txn_row (me_codec en) nxt) t) (mk_txns (pg_data w)),
        mk_outbox := AList.update (oe_ID e) e (mk_outbox (pg_data w))\<rparr>))"
proof -
  have "pg_saved w' = None \<and> (pg_data w' = pg_data w \<or> (\<exists>wa wb x. pg_data wa = pg_data w \<and> \<not> pg_aborted wb \<and>
      txn_commit (market_txns en) (txn_pg_store (me_codec en) txns_table) u ''completed'' cur nxt (WithTx c) wa = (wb, Inr x) \<and>
      pg_data w' = pg_data wb))"
    using pool_unit_of_work [OF sv top txn_commit_grows run [unfolded txn_runMaybeTx_def txn_fields]] by blast
  moreover have "ctx_tx (WithTx c)" by (simp add: WithTx_def)
  ultimately show ?thesis using txn_commit_completed [OF en] by metis
qed

text \<open>C3. Completing a Transaction is all or nothing: whatever the server refuses or loses, afterwards either
  the database is as before, or the Transaction, which was active, is completed and exactly one event,
  not delivered yet and with the idempotency key of this Transaction, has joined the outbox, and nothing else has
  changed.\<close>

theorem complete_atomic:
  assumes en: "market_env_ok en" and sv: "pg_saved w = None" and top: "\<not> ctx_tx c" and inv: "market_inv (pg_data w)"
    and run: "txn_svc_Complete (market_txns en) c u i w = (w', r)"
  shows "pg_saved w' = None \<and> (pg_data w' = pg_data w \<or>
    (\<exists>t t' e. map_of (mk_txns (pg_data w)) i = Some t \<and> txn_Status t = TxnActive \<and> txn_Status t' = TxnCompleted \<and>
       oe_EventType e = TxnEventCompleted \<and> oe_IdempotencyKey e = Some (TxnEventCompleted @ '':'' @ ID_String i) \<and>
       oe_CompletedAt e = None \<and> map_of (mk_outbox (pg_data w)) (oe_ID e) = None \<and>
       pg_data w' = (pg_data w)\<lparr>mk_txns := AList.update i t' (mk_txns (pg_data w)),
         mk_outbox := AList.update (oe_ID e) e (mk_outbox (pg_data w))\<rparr>))"
proof -
  from txn_apply_cases [OF complete_reads(1) [OF en] complete_reads(3) [OF en] complete_reads(2) [OF en]
      run [unfolded txn_svc_Complete_def]]
  show ?thesis
  proof (elim disjE exE conjE)
    assume "pg_same w w'"
    then show ?thesis using sv by (simp add: pg_same_def)
  next
    fix st cur nxt now w1 w2 w3 w4 r'
    assume st: "tsv_store (market_txns en) = Some st" and get: "txn_svc_Get (market_txns en) c u i w = (w1, Inr cur)"
      and fn: "txn_complete_fn (market_txns en) c cur (time_UTC now) w2 = (w3, Inr (nxt, True))"
      and same: "pg_same w w3" "pg_same w4 w'"
      and tx: "txn_runMaybeTx (market_txns en) c (txn_commit (market_txns en) st u ''completed'' cur nxt) w3 = (w4, r')"
    have row: "map_of (mk_txns (pg_data w)) i = Some cur" "txn_ID cur = i"
      using txn_Get_row [OF inv sv get] by auto
    have nxt: "txn_Status cur = TxnActive" "txn_Status nxt = TxnCompleted" "txn_ID nxt = i"
      using txn_CompleteD [OF txn_complete_fn_ok [OF fn]] row by auto
    have st': "st = txn_pg_store (me_codec en) txns_table" using st by (simp add: txn_fields)
    have d: "pg_data w3 = pg_data w" "pg_saved w3 = None" "pg_data w' = pg_data w4" "pg_saved w' = pg_saved w4"
      using same sv by (simp_all add: pg_same_def)
    have done': "txn_Status (txn_set (txn_row (me_codec en) nxt) t) = TxnCompleted" for t
      using nxt by (simp add: txn_set_def txn_row_def)
    from complete_unit [OF en d(2) top tx [unfolded st']] show ?thesis
      unfolding d nxt using row nxt done' by blast
  qed
qed

theorem complete_atomic_witness:
  "\<exists>w' r. txn_svc_Complete (market_txns sample_env) background (id_n 2) (id_n 50)
      ((sample_pg sample_market)\<lparr>pg_fate := (\<lambda>n. if n = 5 then Lost Pg_Other else Runs)\<rparr>) = (w', r) \<and>
    (pg_data w' = sample_market \<or>
     (\<exists>t' e. txn_Status t' = TxnCompleted \<and> oe_IdempotencyKey e = Some (TxnEventCompleted @ '':'' @ ID_String (id_n 50)) \<and>
        pg_data w' = sample_market\<lparr>mk_txns := AList.update (id_n 50) t' (mk_txns sample_market),
          mk_outbox := AList.update (oe_ID e) e (mk_outbox sample_market)\<rparr>))"
proof -
  let ?w = "(sample_pg sample_market)\<lparr>pg_fate := (\<lambda>n. if n = 5 then Lost Pg_Other else Runs)\<rparr>"
  obtain w' r where run: "txn_svc_Complete (market_txns sample_env) background (id_n 2) (id_n 50) ?w = (w', r)"
    by fastforce
  have w: "pg_saved ?w = None" "\<not> ctx_tx background" "pg_data ?w = sample_market"
    by (simp_all add: sample_pg_def background_def)
  have "market_inv (pg_data ?w)" using w(3) sample_market_inv by simp
  from complete_atomic [OF sample_env_ok w(1,2) this run] w(3) run show ?thesis by auto
qed

end
