(* ===== verification/Go_Float.thy ===== *)
theory Go_Float
  imports Go_Num
begin

text \<open>
  Arithmetic on \<open>float64\<close> as the back-off computation uses it: products, conversions from and to 64-bit
  integers, comparisons. IEEE 754 rounds the exact result to the nearest of the numbers
  \<open>m * 2 ^ e\<close> with \<open>|m| < 2 ^ 53\<close> and \<open>-1074 \<le> e\<close>, ties to even \<open>m\<close>, and to an infinity from \<open>2 ^ 1024\<close> on.
  Signed zeros are not told apart.
\<close>

section \<open>Rounding\<close>

definition pow2 :: "int \<Rightarrow> rat" where
  "pow2 e = (if 0 \<le> e then 2 ^ nat e else 1 / 2 ^ nat (- e))"

fun bit_length :: "nat \<Rightarrow> nat" where
  "bit_length n = (if n = 0 then 0 else Suc (bit_length (n div 2)))"

declare bit_length.simps [simp del]

text \<open>The exponent of the highest power of two below a positive number.\<close>

definition binade :: "rat \<Rightarrow> int" where
  "binade x =
     (case quotient_of x of (a, b) \<Rightarrow>
        let k = int (bit_length (nat a)) - int (bit_length (nat b))
        in if x < pow2 k then k - 1 else k)"

definition round_even :: "rat \<Rightarrow> int" where
  "round_even x =
     (let n = \<lfloor>x\<rfloor>; r = x - of_int n
      in if 1 / 2 < r \<or> r = 1 / 2 \<and> odd n then n + 1 else n)"

definition f64_pos :: "rat \<Rightarrow> float64" where
  "f64_pos x =
     (if x = 0 then Finite 0
      else let e = max (- 1074) (binade x - 52); r = of_int (round_even (x / pow2 e)) * pow2 e
           in if 2 ^ 1024 \<le> r then PosInf else Finite r)"

fun f64_neg :: "float64 \<Rightarrow> float64" where
  "f64_neg NaN = NaN"
| "f64_neg PosInf = NegInf"
| "f64_neg NegInf = PosInf"
| "f64_neg (Finite x) = Finite (- x)"

definition f64_round :: "rat \<Rightarrow> float64" where
  "f64_round x = (if x < 0 then f64_neg (f64_pos (- x)) else f64_pos x)"

section \<open>Operations\<close>

definition f64_of_int :: "int \<Rightarrow> float64" where
  "f64_of_int i = f64_round (of_int i)"

fun f64_sign :: "float64 \<Rightarrow> rat" where
  "f64_sign NaN = 0"
| "f64_sign PosInf = 1"
| "f64_sign NegInf = - 1"
| "f64_sign (Finite x) = sgn x"

definition f64_infinity :: "rat \<Rightarrow> float64" where
  "f64_infinity s = (if s = 0 then NaN else if s < 0 then NegInf else PosInf)"

fun f64_mul :: "float64 \<Rightarrow> float64 \<Rightarrow> float64" where
  "f64_mul NaN y = NaN"
| "f64_mul x NaN = NaN"
| "f64_mul (Finite x) (Finite y) = f64_round (x * y)"
| "f64_mul x y = f64_infinity (f64_sign x * f64_sign y)"

fun float_le :: "float64 \<Rightarrow> float64 \<Rightarrow> bool" where
  "float_le NaN _ \<longleftrightarrow> False"
| "float_le _ NaN \<longleftrightarrow> False"
| "float_le (Finite x) (Finite y) \<longleftrightarrow> x \<le> y"
| "float_le NegInf _ \<longleftrightarrow> True"
| "float_le _ PosInf \<longleftrightarrow> True"
| "float_le _ _ \<longleftrightarrow> False"

text \<open>
  The conversion to an \<open>int64\<close> discards the fraction. What it makes of other values depends on the
  machine (\<open>wild\<close>).
\<close>

definition wrap64 :: "int \<Rightarrow> int" where
  "wrap64 i = (i + 2 ^ 63) mod 2 ^ 64 - 2 ^ 63"

definition f64_to_int64 :: "(float64 \<Rightarrow> int) \<Rightarrow> float64 \<Rightarrow> int" where
  "f64_to_int64 wild f =
     (case f of
        Finite x \<Rightarrow>
          let n = (if x < 0 then \<lceil>x\<rceil> else \<lfloor>x\<rfloor>)
          in if - (2 ^ 63) \<le> n \<and> n < 2 ^ 63 then n else wild f
      | _ \<Rightarrow> wild f)"

section \<open>Facts\<close>

lemma pow2_pos [simp]: "0 < pow2 e"
  by (simp add: pow2_def)

lemma pow2_add: "pow2 (a + b) = pow2 a * pow2 b"
proof -
  have n: "pow2 e = 2 powi e" for e
    by (auto simp: pow2_def power_int_def inverse_eq_divide power_one_over)
  show ?thesis unfolding n by (rule power_int_add) simp
qed

lemma pow2_le: "a \<le> b \<Longrightarrow> pow2 a \<le> pow2 b"
proof -
  assume "a \<le> b"
  then have "pow2 b = pow2 a * pow2 (b - a)" "1 \<le> pow2 (b - a)"
    using pow2_add [of a "b - a"] by (simp_all add: pow2_def)
  then show ?thesis using mult_left_mono [of 1 "pow2 (b - a)" "pow2 a"] by (simp add: less_imp_le)
qed

lemma bit_length_bounds: "0 < n \<Longrightarrow> 2 ^ (bit_length n - 1) \<le> n \<and> n < 2 ^ bit_length n \<and> 0 < bit_length n"
proof (induction n rule: bit_length.induct)
  case (1 n)
  show ?case
  proof (cases "n div 2 = 0")
    case True
    then have "n = 1" using 1 by linarith
    then show ?thesis by (simp add: bit_length.simps)
  next
    case False
    let ?b = "bit_length (n div 2)"
    have IH: "2 ^ (?b - 1) \<le> n div 2" "n div 2 < 2 ^ ?b" "0 < ?b" using 1 False by auto
    then have "2 * 2 ^ (?b - 1) = (2 :: nat) ^ ?b" by (simp add: power_eq_if)
    with IH have "2 ^ ?b \<le> n" "n < 2 * 2 ^ ?b" by linarith+
    moreover have "bit_length n = Suc ?b" using 1(2) by (subst bit_length.simps) simp
    ultimately show ?thesis by simp
  qed
qed

lemma pow2_nat: "pow2 (int n) = 2 ^ n"
  by (simp add: pow2_def)

lemma binade_le: "0 < x \<Longrightarrow> pow2 (binade x) \<le> x"
proof -
  assume x: "0 < x"
  obtain a b where q: "quotient_of x = (a, b)" by fastforce
  then have x': "x = of_int a / of_int b" and b: "0 < b"
    using quotient_of_div quotient_of_denom_pos by blast+
  then have "0 < a" using x by (simp add: zero_less_divide_iff)
  then obtain n where n: "a = int n" "0 < n" by (rule pos_int_cases)
  obtain m where m: "b = int m" "0 < m" using b by (rule pos_int_cases)
  let ?l = "bit_length n" and ?k = "bit_length m"
  note B = bit_length_bounds [OF n(2)] bit_length_bounds [OF m(2)]
  have "of_nat (2 ^ (?l - 1)) \<le> (of_nat n :: rat)" "(of_nat m :: rat) \<le> of_nat (2 ^ ?k)"
    using B by (auto intro: of_nat_mono simp del: of_nat_power)
  then have "2 ^ (?l - 1) \<le> (of_nat n :: rat)" "(of_nat m :: rat) \<le> 2 ^ ?k" by simp_all
  then have "2 ^ (?l - 1) / 2 ^ ?k \<le> x"
    unfolding x' n(1) m(1) of_int_of_nat_eq using m(2) by (intro frac_le) simp_all
  moreover have "pow2 (int ?l - int ?k - 1) * 2 ^ ?k = 2 ^ (?l - 1)"
    using pow2_add [of "int ?l - int ?k - 1" "int ?k"] pow2_nat [of "?l - 1"] pow2_nat [of ?k] B
    by (simp add: of_nat_diff)
  then have "pow2 (int ?l - int ?k - 1) = 2 ^ (?l - 1) / 2 ^ ?k" by (simp add: field_simps)
  ultimately show ?thesis
    by (simp add: binade_def q n(1) m(1) Let_def)
qed

lemma round_even_ge: "of_int n \<le> x \<Longrightarrow> n \<le> round_even x"
  using le_floor_iff [of n x] by (auto simp: round_even_def Let_def)

lemma round_even_of_int [simp]: "round_even (of_int n) = n"
  by (simp add: round_even_def)

text \<open>A whole number of at most 53 bits is not overtaken by rounding, and is its own rounding.\<close>

lemma pow2_52: "pow2 (e + 52) = 2 ^ 52 * pow2 e"
  using pow2_add [of e 52] pow2_nat [of 52] by simp

lemma f64_pos_ge:
  assumes "0 < i" and "i \<le> 2 ^ 53" and "of_int i \<le> x"
  shows "f64_pos x = PosInf \<or> (\<exists>r. f64_pos x = Finite r \<and> of_int i \<le> r)"
proof -
  define e where "e = max (- 1074) (binade x - 52)"
  have x: "0 < x" using assms(1,3) by (meson less_le_trans of_int_0_less_iff)
  have "of_int i \<le> of_int (round_even (x / pow2 e)) * pow2 e"
  proof (cases "e \<le> 0")
    case True
    then have p: "of_int (2 ^ nat (- e)) * pow2 e = 1" by (simp add: pow2_def)
    have "of_int (i * 2 ^ nat (- e)) * pow2 e = of_int i * (of_int (2 ^ nat (- e)) * pow2 e)" by simp
    then have eq: "of_int (i * 2 ^ nat (- e)) * pow2 e = of_int i" unfolding p by simp
    have "of_int (i * 2 ^ nat (- e)) \<le> x / pow2 e"
      unfolding pos_le_divide_eq [OF pow2_pos] eq by (rule assms(3))
    then have "i * 2 ^ nat (- e) \<le> round_even (x / pow2 e)" by (rule round_even_ge)
    then have "of_int (i * 2 ^ nat (- e)) * pow2 e \<le> of_int (round_even (x / pow2 e)) * pow2 e"
      by (intro mult_right_mono) (simp_all only: of_int_le_iff less_imp_le [OF pow2_pos])
    then show ?thesis unfolding eq .
  next
    case False
    then have e: "e = binade x - 52" "1 \<le> e" by (auto simp: e_def)
    have "pow2 (e + 52) \<le> x" using binade_le [OF x] e(1) by simp
    then have "of_int (2 ^ 52) \<le> x / pow2 e" by (simp add: le_divide_eq pow2_52)
    then have "2 ^ 52 \<le> round_even (x / pow2 e)" by (rule round_even_ge)
    then have big: "of_int (2 ^ 52) * pow2 e \<le> of_int (round_even (x / pow2 e)) * pow2 e"
      by (intro mult_right_mono) (simp_all only: of_int_le_iff less_imp_le [OF pow2_pos])
    have "(of_int i :: rat) \<le> of_int (2 ^ 53)" using assms(2) by (simp only: of_int_le_iff)
    also have "\<dots> = of_int (2 ^ 52) * 2" by simp
    also have "\<dots> \<le> of_int (2 ^ 52) * pow2 e"
      using pow2_le [OF e(2)] by (intro mult_left_mono) (simp_all add: pow2_def)
    also note big
    finally show ?thesis .
  qed
  then show ?thesis using x by (auto simp: f64_pos_def Let_def e_def)
qed

lemma f64_of_int_exact:
  assumes "0 < i" and "i \<le> 2 ^ 53"
  shows "f64_of_int i = Finite (of_int i)"
proof -
  let ?x = "of_int i :: rat"
  define e where "e = max (- 1074) (binade ?x - 52)"
  have x: "0 < ?x" using assms(1) by simp
  have top: "?x \<le> 2 ^ 53"
    using assms(2) of_int_le_iff [of i "2 ^ 53", where ?'a = rat] by simp
  have "\<not> 54 \<le> binade ?x"
  proof
    assume "54 \<le> binade ?x"
    then have "pow2 54 \<le> ?x" using pow2_le [of 54] binade_le [OF x] by fastforce
    with top show False by (simp add: pow2_def)
  qed
  then have e: "e \<le> 1" by (simp add: e_def)
  have "\<exists>n. ?x / pow2 e = of_int n"
  proof (cases "e = 1")
    case True
    then have "binade ?x = 53" by (simp add: e_def max_def split: if_splits)
    then have "2 ^ 53 \<le> ?x" using binade_le [OF x] by (simp add: pow2_def)
    then have "?x / pow2 e = of_int (2 ^ 52)" using top True by (simp add: pow2_def)
    then show ?thesis by blast
  next
    case False
    then have "?x / pow2 e = of_int (i * 2 ^ nat (- e))" using e by (simp add: pow2_def)
    then show ?thesis by blast
  qed
  then obtain n where n: "?x / pow2 e = of_int n" ..
  then have "of_int (round_even (?x / pow2 e)) * pow2 e = ?x" by (simp add: divide_eq_eq less_imp_neq [symmetric])
  moreover have "?x < 2 ^ 1024"
    using top by (rule le_less_trans) simp
  ultimately show ?thesis using x by (simp add: f64_of_int_def f64_round_def f64_pos_def Let_def e_def)
qed

end
