(* ===== verification/Relay.thy ===== *)
theory Relay
  imports Outbox Go_Float
begin

text \<open>
  The delivery side of \<open>platform/outbox\<close>: the back-off policy (\<open>policy.go\<close>), the registry of handlers
  (\<open>registry.go\<close>) and the relay of the worker (\<open>relay.go\<close>), which claims a batch, hands each event to its
  handler and completes or reschedules it. Logging is left out.
\<close>

section \<open>The back-off policy\<close>

record policy =
  po_BatchSize :: int
  po_Lease :: duration
  po_BackoffBase :: duration
  po_BackoffMultiplier :: float64
  po_BackoffCap :: duration
  po_Jitter :: duration

definition policy_Validate :: "policy \<Rightarrow> go_error option" where
  "policy_Validate p =
     (if po_BatchSize p \<le> 0 \<or> po_Lease p \<le> 0 then Some (ObErr Ob_ErrInvalidPolicy)
      else if po_BackoffBase p \<le> 0 \<or> float_less (po_BackoffMultiplier p) (Finite 1) \<or>
          po_BackoffCap p < po_BackoffBase p
        then Some (ObErr Ob_ErrInvalidPolicy)
      else if po_Jitter p < 0 then Some (ObErr Ob_ErrInvalidPolicy)
      else None)"

text \<open>The loop multiplies until the cap is reached or the exponent is used up.\<close>

fun backoff_loop :: "float64 \<Rightarrow> float64 \<Rightarrow> nat \<Rightarrow> float64 \<Rightarrow> float64" where
  "backoff_loop mult cap 0 delay = delay"
| "backoff_loop mult cap (Suc n) delay =
     (let delay = f64_mul delay mult
      in if float_le cap delay then cap else backoff_loop mult cap n delay)"

definition backoff_delay :: "policy \<Rightarrow> int \<Rightarrow> float64" where
  "backoff_delay p attempts =
     (let ex = (if attempts - 1 < 0 then 0 else attempts - 1);
          cap = f64_of_int (po_BackoffCap p);
          delay = backoff_loop (po_BackoffMultiplier p) cap (nat ex) (f64_of_int (po_BackoffBase p))
      in if float_less cap delay then cap else delay)"

text \<open>
  \<open>rand.Int(rand.Reader, n)\<close> is a draw below \<open>n\<close>, or an error of the reader (\<open>draw\<close>), which \<open>Reschedule\<close> reports as \<open>ErrUnavailable\<close>. It panics for
  \<open>n \<le> 0\<close>, which \<open>int64(max)+1\<close> is for the largest duration.
\<close>

datatype jitter_result = Jitter duration | Jitter_Err go_error | Jitter_Panic

definition jitter :: "('w \<Rightarrow> int \<Rightarrow> 'w \<times> int res) \<Rightarrow> duration \<Rightarrow> 'w \<Rightarrow> 'w \<times> jitter_result" where
  "jitter draw mx w =
     (if mx \<le> 0 then (w, Jitter 0)
      else if wrap64 (mx + 1) \<le> 0 then (w, Jitter_Panic)
      else case draw w (wrap64 (mx + 1)) of
          (w', Inl err) \<Rightarrow> (w', Jitter_Err err)
        | (w', Inr n) \<Rightarrow>
            if n < 0 \<or> 2 ^ 63 - 1 < n then (w', Jitter_Err (ObErr Ob_ErrUnavailable)) else (w', Jitter n))"

definition NextAvailableAt ::
  "(float64 \<Rightarrow> int) \<Rightarrow> ('w \<Rightarrow> int \<Rightarrow> 'w \<times> int res) \<Rightarrow> policy \<Rightarrow> time \<Rightarrow> int \<Rightarrow> 'w \<Rightarrow> 'w \<times> (jitter_result + time)" where
  "NextAvailableAt wild draw p now attempts w =
     (let d = f64_to_int64 wild (backoff_delay p attempts)
      in case jitter draw (po_Jitter p) w of
           (w', Jitter j) \<Rightarrow> (w', Inr (now + wrap64 (d + j)))
         | (w', r) \<Rightarrow> (w', Inl r))"

text \<open>The delays stay between the base and the cap.\<close>

lemma f64_mul_ge:
  assumes "0 < i" and "i \<le> 2 ^ 53" and "of_int i \<le> x" and "\<not> float_less m (Finite 1)" and "m \<noteq> NaN"
  shows "f64_mul (Finite x) m = PosInf \<or> (\<exists>r. f64_mul (Finite x) m = Finite r \<and> of_int i \<le> r)"
proof -
  have x: "0 < x" using assms(1,3) by (meson less_le_trans of_int_0_less_iff)
  show ?thesis
  proof (cases m)
    case (Finite y)
    then have y: "1 \<le> y" using assms(4) by simp
    then have "x \<le> x * y" using x by simp
    then have "of_int i \<le> x * y" "0 < x * y" using assms(3) x by linarith+
    then show ?thesis using f64_pos_ge [OF assms(1,2)] Finite by (simp add: f64_round_def)
  qed (use assms(4,5) x in \<open>simp_all add: f64_infinity_def\<close>)
qed

lemma backoff_loop_bounds:
  assumes i: "0 < i" "i \<le> 2 ^ 53" and cap: "of_int i \<le> c" and m: "\<not> float_less m (Finite 1)" "m \<noteq> NaN"
    and x: "of_int i \<le> x" "x \<le> c"
  shows "\<exists>r. backoff_loop m (Finite c) n (Finite x) = Finite r \<and> of_int i \<le> r \<and> r \<le> c"
  using x
proof (induction n arbitrary: x)
  case 0
  then show ?case by simp
next
  case (Suc n)
  consider "f64_mul (Finite x) m = PosInf" | r where "f64_mul (Finite x) m = Finite r" "of_int i \<le> r"
    using f64_mul_ge [OF i Suc.prems(1) m] by blast
  then show ?case
  proof cases
    case 1
    then show ?thesis using cap by simp
  next
    case 2
    then show ?thesis using cap Suc.IH [of r] by (cases "c \<le> r") simp_all
  qed
qed

lemma wrap64_id: "- (2 ^ 63) \<le> i \<Longrightarrow> i < 2 ^ 63 \<Longrightarrow> wrap64 i = i"
  by (simp add: wrap64_def)

lemma backoff_delay_bounds:
  assumes "policy_Validate p = None" and "po_BackoffMultiplier p \<noteq> NaN" and "po_BackoffCap p \<le> 2 ^ 53"
  shows "\<exists>r. backoff_delay p attempts = Finite r \<and> of_int (po_BackoffBase p) \<le> r \<and> r \<le> of_int (po_BackoffCap p)"
proof -
  have p: "0 < po_BackoffBase p" "po_BackoffBase p \<le> po_BackoffCap p" "\<not> float_less (po_BackoffMultiplier p) (Finite 1)"
    using assms(1) by (auto simp: policy_Validate_def split: if_splits)
  then have b: "f64_of_int (po_BackoffBase p) = Finite (of_int (po_BackoffBase p))"
    "f64_of_int (po_BackoffCap p) = Finite (of_int (po_BackoffCap p))"
    using assms(3) by (simp_all add: f64_of_int_exact)
  obtain r where "backoff_loop (po_BackoffMultiplier p) (Finite (of_int (po_BackoffCap p)))
      (nat (if attempts - 1 < 0 then 0 else attempts - 1)) (Finite (of_int (po_BackoffBase p))) = Finite r"
    "of_int (po_BackoffBase p) \<le> r" "r \<le> of_int (po_BackoffCap p)"
    using backoff_loop_bounds [OF p(1) _ _ p(3) assms(2), of "of_int (po_BackoffCap p)"] p(2) assms(3) by fastforce
  then show ?thesis by (simp add: backoff_delay_def b Let_def)
qed

text \<open>C19. Where the next attempt falls: for an accepted policy whose multiplier is a number, a cap of at most
  \<open>2 ^ 53\<close> nanoseconds (104 days) and a jitter below \<open>2 ^ 62\<close>, the next attempt is at least the base and at
  most the cap and the jitter away, however many attempts there were; no product, conversion or sum
  of the computation overflows.\<close>

theorem backoff_bounds:
  assumes "policy_Validate p = None" and "po_BackoffMultiplier p \<noteq> NaN" and "po_BackoffCap p \<le> 2 ^ 53"
    and "po_Jitter p < 2 ^ 62" and draw: "\<And>w m w' n. draw w m = (w', Inr n) \<Longrightarrow> 0 \<le> n \<and> n < m"
  shows "case snd (NextAvailableAt wild draw p now attempts w) of
      Inr t \<Rightarrow> now + po_BackoffBase p \<le> t \<and> t \<le> now + po_BackoffCap p + po_Jitter p
    | Inl r \<Rightarrow> r \<noteq> Jitter_Panic"
proof -
  obtain r where r: "backoff_delay p attempts = Finite r" "of_int (po_BackoffBase p) \<le> r" "r \<le> of_int (po_BackoffCap p)"
    using backoff_delay_bounds [OF assms(1-3)] by blast
  have p: "0 < po_BackoffBase p" "0 \<le> po_Jitter p"
    using assms(1) by (auto simp: policy_Validate_def split: if_splits)
  have d: "po_BackoffBase p \<le> \<lfloor>r\<rfloor>" "\<lfloor>r\<rfloor> \<le> po_BackoffCap p"
    using r by (simp_all add: le_floor_iff) linarith
  have "0 < r" using r(2) p(1) by (meson less_le_trans of_int_0_less_iff)
  moreover have "r \<le> of_int (2 ^ 53)" using r(3) assms(3) by (meson of_int_le_iff order_trans)
  ultimately have conv: "f64_to_int64 wild (backoff_delay p attempts) = \<lfloor>r\<rfloor>"
    using r(1) d p(1) assms(3) by (simp add: f64_to_int64_def Let_def)
  have sum: "wrap64 (\<lfloor>r\<rfloor> + j) = \<lfloor>r\<rfloor> + j" if "0 \<le> j" "j \<le> po_Jitter p" for j
    using that d p(1) assms(3,4) by (intro wrap64_id) auto
  have mx: "wrap64 (po_Jitter p + 1) = po_Jitter p + 1"
    using p(2) assms(4) by (intro wrap64_id) auto
  show ?thesis
    using draw [of w "po_Jitter p + 1"] p(2) sum d
    by (auto simp: NextAvailableAt_def conv jitter_def mx split: prod.splits sum.splits)
qed

definition sample_policy :: policy where
  "sample_policy = \<lparr>po_BatchSize = 10, po_Lease = 60000000000, po_BackoffBase = 1000000000,
     po_BackoffMultiplier = Finite 2, po_BackoffCap = 60000000000, po_Jitter = 500000000\<rparr>"

lemma sample_policy_sel [simp]:
  "policy_Validate sample_policy = None" "po_BackoffMultiplier sample_policy = Finite 2"
  "po_BackoffBase sample_policy = 1000000000" "po_BackoffCap sample_policy = 60000000000"
  "po_Jitter sample_policy = 500000000"
  by (simp_all add: policy_Validate_def sample_policy_def)

theorem backoff_bounds_witness:
  "case snd (NextAvailableAt (\<lambda>_. 0) (\<lambda>w m. (w, if 0 < m then Inr (m - 1) else Inl (OtherErr ''rand''))) sample_policy 7 40 ()) of
      Inr t \<Rightarrow> 7 + 1000000000 \<le> t \<and> t \<le> 7 + 60000000000 + 500000000
    | Inl r \<Rightarrow> r \<noteq> Jitter_Panic"
  by (rule backoff_bounds [where p = sample_policy, unfolded sample_policy_sel]) (auto split: if_splits)

text \<open>Without the check of the configuration, a multiplier that is not a number would get through.\<close>

lemma backoff_NaN:
  "policy_Validate (sample_policy\<lparr>po_BackoffMultiplier := NaN\<rparr>) = None"
  "backoff_delay (sample_policy\<lparr>po_BackoffMultiplier := NaN\<rparr>) 2 = NaN"
proof -
  have "f64_of_int 1000000000 = Finite 1000000000" "f64_of_int 60000000000 = Finite 60000000000"
    using f64_of_int_exact [of 1000000000] f64_of_int_exact [of 60000000000] by simp_all
  then show "policy_Validate (sample_policy\<lparr>po_BackoffMultiplier := NaN\<rparr>) = None"
    "backoff_delay (sample_policy\<lparr>po_BackoffMultiplier := NaN\<rparr>) 2 = NaN"
    by (simp_all add: policy_Validate_def sample_policy_def backoff_delay_def numeral_2_eq_2)
qed

section \<open>The registry of handlers\<close>

type_synonym 'w handler = "ctx \<Rightarrow> outbox_event \<Rightarrow> ('w, unit) go"

type_synonym 'w registry = "(string \<times> int, 'w handler) gomap"

definition registry_Register ::
  "string \<Rightarrow> int \<Rightarrow> 'w handler option \<Rightarrow> 'w registry \<Rightarrow> 'w registry \<times> go_error option" where
  "registry_Register eventType eventVersion h r =
     (case h of
        None \<Rightarrow> (r, Some (ObErr Ob_ErrHandlerRequired))
      | Some h \<Rightarrow>
          let eventType = strings_TrimSpace eventType; key = (eventType, eventVersion)
          in if eventType = [] \<or> eventVersion \<le> 0 then (r, Some (ObErr Ob_ErrInvalidEvent))
             else if map_of r key \<noteq> None then (r, Some (ObErr Ob_ErrDuplicateHandler))
             else (AList.update key h r, None))"

definition registry_Lookup :: "string \<Rightarrow> int \<Rightarrow> 'w registry \<Rightarrow> 'w handler option" where
  "registry_Lookup eventType eventVersion r = map_of r (strings_TrimSpace eventType, eventVersion)"

text \<open>A registered handler is the one that is looked up, for good.\<close>

lemma registry_Register_ok:
  assumes "registry_Register ty v (Some h) r = (r', None)"
  shows "registry_Lookup ty v r' = Some h" and "registry_Lookup ty v r = None"
    and "registry_Lookup ty' v' r = Some h' \<Longrightarrow> registry_Lookup ty' v' r' = Some h'"
  using assms by (auto simp: registry_Register_def registry_Lookup_def Let_def split: if_splits)

section \<open>The relay\<close>

text \<open>
  \<open>rl_ctx\<close> is the state of the context of \<open>Run\<close> at a moment: the calls made then see it. \<open>rl_wait\<close> waits for
  the polling interval or the end of the context.
\<close>

record 'w relay =
  rl_outbox :: "'w outbox"
  rl_registry :: "'w registry"
  rl_poll :: duration
  rl_now :: "'w \<Rightarrow> 'w \<times> time"
  rl_wait :: "ctx \<Rightarrow> duration \<Rightarrow> ('w, unit) go"
  rl_ctx :: "'w \<Rightarrow> ctx"

definition ErrorClassUnknownHandler :: string where "ErrorClassUnknownHandler = ''unknown_handler''"
definition ErrorClassHandlerFailed :: string where "ErrorClassHandlerFailed = ''handler_failed''"

text \<open>What a procedure without a result does to the world.\<close>

definition relay_reschedule :: "'w relay \<Rightarrow> outbox_event \<Rightarrow> string \<Rightarrow> 'w \<Rightarrow> 'w" where
  "relay_reschedule r event errorClass w =
     fst (gread (rl_now r) (\<lambda>now. ob_Reschedule (rl_outbox r) (rl_ctx r w) event errorClass now) w)"

definition relay_dispatch :: "'w relay \<Rightarrow> outbox_event \<Rightarrow> 'w \<Rightarrow> 'w" where
  "relay_dispatch r event w =
     (case registry_Lookup (oe_EventType event) (oe_EventVersion event) (rl_registry r) of
        None \<Rightarrow> relay_reschedule r event ErrorClassUnknownHandler w
      | Some h \<Rightarrow>
          (case h (rl_ctx r w) event w of
             (w1, Inl err) \<Rightarrow>
               if ctx_error err then w1 else relay_reschedule r event ErrorClassHandlerFailed w1
           | (w1, Inr _) \<Rightarrow>
               fst (gread (rl_now r) (\<lambda>now. ob_Complete (rl_outbox r) (rl_ctx r w1) (oe_ID event) now) w1)))"

fun relay_events :: "'w relay \<Rightarrow> outbox_event list \<Rightarrow> 'w \<Rightarrow> 'w \<times> go_error option" where
  "relay_events r [] w = (w, None)"
| "relay_events r (event # events) w =
     (case ctx_Err (rl_ctx r w) of
        Some err \<Rightarrow> (w, Some err)
      | None \<Rightarrow> relay_events r events (relay_dispatch r event w))"

definition relay_processBatch :: "'w relay \<Rightarrow> 'w \<Rightarrow> 'w \<times> int \<times> go_error option" where
  "relay_processBatch r w =
     (case gread (rl_now r) (\<lambda>now. ob_Claim (rl_outbox r) (rl_ctx r w) now) w of
        (w1, Inl err) \<Rightarrow> (w1, 0, Some err)
      | (w1, Inr events) \<Rightarrow>
          (case relay_events r events w1 of (w2, err) \<Rightarrow> (w2, int (length events), err)))"

text \<open>
  The polling loop: it runs until the context ends, so it is a partial function; \<open>None\<close> is a run that
  never returns. It only ever returns nil.
\<close>

partial_function (option) relay_runLoop :: "'w relay \<Rightarrow> 'w \<Rightarrow> 'w option" where
  "relay_runLoop r w =
     (if ctx_Err (rl_ctx r w) \<noteq> None then Some w
      else case relay_processBatch r w of (w1, n, err) \<Rightarrow>
        if (case err of None \<Rightarrow> False | Some e \<Rightarrow> ctx_error e) then Some w1
        else if 0 < n \<and> err = None then relay_runLoop r w1
        else case rl_wait r (rl_ctx r w1) (rl_poll r) w1 of
            (w2, Inl _) \<Rightarrow> Some w2
          | (w2, Inr _) \<Rightarrow> relay_runLoop r w2)"


declare relay_runLoop.simps [code]

section \<open>At-least-once delivery\<close>

definition completed :: "outbox_db \<Rightarrow> ID \<Rightarrow> bool" where
  "completed d i \<longleftrightarrow> (\<exists>e. outbox_table d i = Some e \<and> oe_CompletedAt e \<noteq> None)"

text \<open>The store of the worker: its statements, on a table reached through a field of the world.\<close>

definition table_store :: "('w \<Rightarrow> outbox_db) \<Rightarrow> ((outbox_db \<Rightarrow> outbox_db) \<Rightarrow> 'w \<Rightarrow> 'w) \<Rightarrow> 'w outbox_store" where
  "table_store get upd =
     \<lparr>os_Insert = \<lambda>c e. zoom get upd (outbox_Insert c e),
      os_Claim = \<lambda>c now lease limit. zoom get upd (outbox_Claim c now lease limit),
      os_Complete = \<lambda>c i now. zoom get upd (outbox_Complete c i now),
      os_Reschedule = \<lambda>c i t s. zoom get upd (outbox_Reschedule c i t s),
      os_IncrementAttempts = \<lambda>c i. zoom get upd (outbox_IncrementAttempts c i)\<rparr>"

text \<open>
  One move of the world as the relay may see it: the table keeps its invariant, and whatever is completed
  afterwards either was so before or has been handled (\<open>seen\<close>, the events some handler has accepted).
\<close>

definition delivers :: "('w \<Rightarrow> outbox_db) \<Rightarrow> ('w \<Rightarrow> ID set) \<Rightarrow> 'w \<Rightarrow> 'w \<Rightarrow> bool" where
  "delivers get seen w w' \<longleftrightarrow> seen w \<subseteq> seen w' \<and>
     (outbox_inv (get w) \<longrightarrow> outbox_inv (get w') \<and>
        (\<forall>i. completed (get w') i \<longrightarrow> completed (get w) i \<or> i \<in> seen w'))"

lemma delivers_refl [simp]: "delivers get seen w w"
  by (simp add: delivers_def)

lemma delivers_trans: "delivers get seen a b \<Longrightarrow> delivers get seen b c \<Longrightarrow> delivers get seen a c"
  unfolding delivers_def by blast

lemma delivers_zoom:
  assumes "\<And>f w. get (upd f w) = f (get w) \<and> seen (upd f w) = seen w"
    and "\<And>d d' x. outbox_inv d \<Longrightarrow> st d = (d', x) \<Longrightarrow> outbox_inv d' \<and> (\<forall>i. completed d' i \<longrightarrow> completed d i \<or> P i)"
    and "\<And>i. P i \<Longrightarrow> i \<in> seen w"
  shows "delivers get seen w (fst (zoom get upd st w))"
  using assms(2) [of "get w"] assms(3)
  by (auto simp: zoom_def delivers_def assms(1) split: prod.splits)

lemma completed_update_open:
  assumes "outbox_exec c (outbox_update_open i g) d = (d', x)" and "completed d' k"
  shows "completed d k \<or> (k = i \<and> (\<exists>e. oe_CompletedAt e = None \<and> oe_CompletedAt (g e) \<noteq> None))"
  using assms by (auto simp: outbox_exec_def outbox_update_open_def gguard_def completed_def
      split: option.splits if_splits)

lemma Claim_moves:
  assumes "outbox_inv d" and "outbox_Claim c now lease limit d = (d', x)"
  shows "outbox_inv d' \<and> (\<forall>i. completed d' i \<longrightarrow> completed d i \<or> False)"
proof (cases x)
  case (Inl e)
  then have "d' = d"
    using assms(2) by (auto simp: outbox_Claim_def outbox_exec_def gmaperr_apply gguard_def Let_def
        split: if_splits option.splits)
  then show ?thesis using assms(1) by simp
next
  case (Inr out)
  then show ?thesis
    using outbox_Claim_ok(3,4) [OF assms(1) assms(2) [unfolded Inr]]
    by (auto simp: completed_def split: option.splits if_splits)
qed

lemma Complete_moves:
  assumes "outbox_inv d" and "outbox_Complete c i now d = (d', x)"
  shows "outbox_inv d' \<and> (\<forall>k. completed d' k \<longrightarrow> completed d k \<or> k = i)"
proof -
  have "\<exists>s. outbox_exec c (outbox_update_open i (\<lambda>e. e\<lparr>oe_CompletedAt := Some now\<rparr>)) d = (d', s)"
    by (rule gcase_final [OF assms(2) [unfolded outbox_Complete_def], where h = "\<lambda>_. ObErr Ob_ErrNotFound"]) auto
  then show ?thesis
    using completed_update_open keeps_rows_Complete [OF assms] unfolding keeps_rows_def by blast
qed

lemma Reschedule_moves:
  assumes "outbox_inv d" and "outbox_Reschedule c i t s d = (d', x)"
  shows "outbox_inv d' \<and> (\<forall>k. completed d' k \<longrightarrow> completed d k \<or> False)"
proof -
  have "completed d k" if "completed d' k" for k
    using assms(2) that
    by (auto simp: outbox_Reschedule_def outbox_exec_def outbox_update_open_def gcase_apply gguard_def completed_def
        split: option.splits if_splits prod.splits sum.splits)
  then show ?thesis using keeps_rows_Reschedule [OF assms] unfolding keeps_rows_def by blast
qed


text \<open>
  What the calls of the relay do to the world, for any preorder \<open>R\<close> its dependencies respect. Completing an
  event may rely on \<open>Q\<close>, which holds of every event a handler has accepted.
\<close>

definition relay_deps :: "('w \<Rightarrow> 'w \<Rightarrow> bool) \<Rightarrow> (ID \<Rightarrow> 'w \<Rightarrow> bool) \<Rightarrow> 'w relay \<Rightarrow> bool" where
  "relay_deps R Q r \<longleftrightarrow>
     (\<forall>w. R w w) \<and> (\<forall>u v w. R u v \<longrightarrow> R v w \<longrightarrow> R u w) \<and> (\<forall>i w w'. Q i w \<longrightarrow> R w w' \<longrightarrow> Q i w') \<and>
     (\<forall>w. R w (fst (rl_now r w)) \<and> R w (fst (ob_now (rl_outbox r) w))) \<and>
     (\<forall>t n w. R w (fst (ob_next (rl_outbox r) t n w))) \<and> (\<forall>c d w. R w (fst (rl_wait r c d w))) \<and>
     (\<forall>c t d n w. R w (fst (os_Claim (ob_store (rl_outbox r)) c t d n w))) \<and>
     (\<forall>c i t s w. R w (fst (os_Reschedule (ob_store (rl_outbox r)) c i t s w))) \<and>
     (\<forall>c i t w. Q i w \<longrightarrow> R w (fst (os_Complete (ob_store (rl_outbox r)) c i t w))) \<and>
     (\<forall>ty v h c e w. registry_Lookup ty v (rl_registry r) = Some h \<longrightarrow> R w (fst (h c e w)) \<and>
        (\<forall>w' u. h c e w = (w', Inr u) \<longrightarrow> Q (oe_ID e) w'))"

lemma relay_depsD:
  assumes "relay_deps R Q r"
  shows "R w w" and "R u v \<Longrightarrow> R v w \<Longrightarrow> R u w" and "Q i u \<Longrightarrow> R u v \<Longrightarrow> Q i v"
    and "R w (fst (rl_now r w))" and "R w (fst (ob_now (rl_outbox r) w))"
    and "R w (fst (ob_next (rl_outbox r) t n w))" and "R w (fst (rl_wait r c d w))"
    and "R w (fst (os_Claim (ob_store (rl_outbox r)) c t d m w))"
    and "R w (fst (os_Reschedule (ob_store (rl_outbox r)) c i t s w))"
    and "Q i w \<Longrightarrow> R w (fst (os_Complete (ob_store (rl_outbox r)) c i t w))"
    and "registry_Lookup ty vn (rl_registry r) = Some h \<Longrightarrow> R w (fst (h c e w))"
    and "registry_Lookup ty vn (rl_registry r) = Some h \<Longrightarrow> h c e w = (w', Inr x) \<Longrightarrow> Q (oe_ID e) w'"
  using assms unfolding relay_deps_def by meson+

lemma gmaperr_fst [simp]: "fst (gmaperr f m w) = fst (m w)"
  by (auto simp: gmaperr_apply split: prod.split sum.split)

lemma gread_deps:
  assumes "relay_deps R Q r" and "R w (fst (f w))" and "\<And>x. R (fst (f w)) (fst (k x (fst (f w))))"
  shows "R w (fst (gread f k w))"
  using relay_depsD(2) [OF assms] by (cases "f w") (simp add: gread_apply)

lemma clock_deps: "relay_deps R Q r \<Longrightarrow> R w (fst ((\<lambda>w. if b then ob_now (rl_outbox r) w else (w, t)) w))"
  by (simp add: relay_depsD)

lemma Claim_deps: "relay_deps R Q r \<Longrightarrow> R w (fst (ob_Claim (rl_outbox r) c now w))"
  unfolding ob_Claim_def by (rule gread_deps [OF _ clock_deps]) (simp_all add: relay_depsD)

lemma Complete_deps:
  assumes ok: "relay_deps R Q r" and i: "Q i w"
  shows "R w (fst (ob_Complete (rl_outbox r) c i now w))"
proof -
  have "Q i (fst ((\<lambda>w. if time_IsZero now then ob_now (rl_outbox r) w else (w, now)) w))"
    using relay_depsD(3) [OF ok i clock_deps [OF ok]] .
  then show ?thesis
    unfolding ob_Complete_def
    by (auto intro!: gread_deps [OF ok clock_deps [OF ok]] simp: relay_depsD [OF ok])
qed

lemma Reschedule_deps:
  assumes ok: "relay_deps R Q r"
  shows "R w (fst (ob_Reschedule (rl_outbox r) c e s now w))"
proof -
  have "R v (fst (gcase (ob_next (rl_outbox r) t k) (\<lambda>_. gfail x)
      (\<lambda>nxt. gmaperr ob_mapStoreErr (os_Reschedule (ob_store (rl_outbox r)) c i nxt y)) v))" for v t k i x y
    using relay_depsD(6) [OF ok, of v t k] relay_depsD(2) [OF ok _ relay_depsD(9) [OF ok], of v]
    by (cases "ob_next (rl_outbox r) t k v") (auto simp: gcase_apply split: sum.split)
  then show ?thesis
    unfolding ob_Reschedule_def by (auto intro!: gread_deps [OF ok clock_deps [OF ok]] simp: relay_depsD(1) [OF ok])
qed

lemma reschedule_deps: "relay_deps R Q r \<Longrightarrow> R w (relay_reschedule r e s w)"
  unfolding relay_reschedule_def by (rule gread_deps) (simp_all add: relay_depsD Reschedule_deps)

lemma dispatch_deps:
  assumes ok: "relay_deps R Q r"
  shows "R w (relay_dispatch r e w)"
proof (cases "registry_Lookup (oe_EventType e) (oe_EventVersion e) (rl_registry r)")
  case None
  then show ?thesis using reschedule_deps [OF ok] by (simp add: relay_dispatch_def)
next
  case (Some h)
  obtain w1 x where h: "h (rl_ctx r w) e w = (w1, x)" by fastforce
  then have w1: "R w w1" and acc: "\<And>u. x = Inr u \<Longrightarrow> Q (oe_ID e) w1"
    using relay_depsD(11,12) [OF ok Some, where c = "rl_ctx r w" and e = e and w = w] by simp_all
  show ?thesis
  proof (cases x)
    case (Inl err)
    then show ?thesis
      using h Some w1 relay_depsD(2) [OF ok w1 reschedule_deps [OF ok]] by (simp add: relay_dispatch_def)
  next
    case (Inr u)
    have "Q (oe_ID e) (fst (rl_now r w1))"
      by (rule relay_depsD(3) [OF ok acc [OF Inr] relay_depsD(4) [OF ok]])
    then have "R w1 (fst (gread (rl_now r) (\<lambda>now. ob_Complete (rl_outbox r) (rl_ctx r w1) (oe_ID e) now) w1))"
      using relay_depsD(4) [OF ok] Complete_deps [OF ok] by (intro gread_deps [OF ok]) auto
    then show ?thesis using h Some Inr relay_depsD(2) [OF ok w1] by (simp add: relay_dispatch_def)
  qed
qed

lemma events_deps:
  assumes ok: "relay_deps R Q r"
  shows "R w (fst (relay_events r es w))"
proof (induction es arbitrary: w)
  case (Cons e es)
  then show ?case
    using relay_depsD(2) [OF ok dispatch_deps [OF ok] Cons.IH] relay_depsD(1) [OF ok] by (simp split: option.split)
qed (simp add: relay_depsD(1) [OF ok])

text \<open>A batch starts with a reading of the clock.\<close>

lemma processBatch_deps:
  assumes ok: "relay_deps R Q r"
  shows "R (fst (rl_now r w)) (fst (relay_processBatch r w))"
proof -
  obtain v t where v: "rl_now r w = (v, t)" by fastforce
  obtain w1 x where x: "ob_Claim (rl_outbox r) (rl_ctx r w) t v = (w1, x)" by fastforce
  then have m: "R v w1" using Claim_deps [OF ok, of v "rl_ctx r w" t] by simp
  then show ?thesis
    using x v relay_depsD(2) [OF ok m events_deps [OF ok]]
    by (cases x) (simp_all add: relay_processBatch_def gread_apply split_beta)
qed

lemma runLoop_deps:
  assumes ok: "relay_deps R Q r" and run: "relay_runLoop r w = Some w'"
  shows "R w w'"
  using ok
proof (induction rule: relay_runLoop.raw_induct [OF _ run, consumes 0])
  case (1 loop r w w')
  note trans = relay_depsD(2) [OF 1(3)]
  obtain w1 n err where b: "relay_processBatch r w = (w1, n, err)" by (metis prod_cases3)
  have w1: "R w w1" using trans [OF relay_depsD(4) [OF 1(3)] processBatch_deps [OF 1(3)]] b by (metis fst_conv)
  obtain w2 x where x: "rl_wait r (rl_ctx r w1) (rl_poll r) w1 = (w2, x)" by fastforce
  have "R w1 w2" using relay_depsD(7) [OF 1(3)] x by (metis fst_conv)
  then have w2: "R w w2" by (rule trans [OF w1])
  have step: "R w w'" if "loop r v = Some w'" and "R w v" for v
    using trans [OF that(2)] 1(1) [OF that(1) 1(3)] .
  show ?case
    using 1(2) b x w1 w2 step relay_depsD(1) [OF 1(3)]
    by (auto split: if_splits option.splits sum.splits)
qed

lemma processBatch_moves:
  assumes "relay_deps R Q r"
  shows "R w (fst (relay_processBatch r w))"
  by (rule relay_depsD(2) [OF assms relay_depsD(4) [OF assms] processBatch_deps [OF assms]])

text \<open>A run ends when a clock that every reading brings closer to the end of the context gets there.\<close>

lemma runLoop_ends:
  assumes ok: "relay_deps (\<lambda>w w'. left w' \<le> (left w :: nat)) Q r"
    and tick: "\<And>w. ctx_Err (rl_ctx r w) = None \<Longrightarrow> left (fst (rl_now r w)) < left w"
  shows "\<exists>w'. relay_runLoop r w = Some w'"
proof (induction "left w" arbitrary: w rule: less_induct)
  case less
  obtain w1 n err where b: "relay_processBatch r w = (w1, n, err)" by (metis prod_cases3)
  obtain w2 x where x: "rl_wait r (rl_ctx r w1) (rl_poll r) w1 = (w2, x)" by fastforce
  show ?case
  proof (cases "ctx_Err (rl_ctx r w)")
    case None
    have w1: "left w1 < left w" using processBatch_deps [OF ok, of w] b tick [OF None] by simp
    moreover have "left w2 \<le> left w1" using relay_depsD(7) [OF ok] x by (metis fst_conv)
    ultimately show ?thesis
      using less [of w1] less [of w2] b x None
      by (subst relay_runLoop.simps) (auto split: option.split sum.split)
  qed (subst relay_runLoop.simps, simp)
qed

section \<open>A calm batch\<close>

text \<open>
  No call fails: the database answers, the context lives on, and every event has a handler that accepts it and
  leaves the table of events alone. Every handler notes its own registration and the event it was handed at the
  end of \<open>calls\<close>, which nothing else changes: this record tells which handlers were called, in which order, with what.
\<close>

definition event_key :: "outbox_event \<Rightarrow> string \<times> int" where
  "event_key e = (strings_TrimSpace (oe_EventType e), oe_EventVersion e)"

type_synonym delivery_log = "((string \<times> int) \<times> outbox_event) list"

definition logged_handler ::
  "('w \<Rightarrow> outbox_db) \<Rightarrow> ('w \<Rightarrow> delivery_log) \<Rightarrow> 'w relay \<Rightarrow> string \<times> int \<Rightarrow> bool" where
  "logged_handler get calls r key \<longleftrightarrow>
     (\<exists>h. map_of (rl_registry r) key = Some h \<and>
        (\<forall>c f w. \<exists>w'. h c f w = (w', Inr ()) \<and> get w' = get w \<and> calls w' = calls w @ [(key, f)]))"

definition relay_calm ::
  "('w \<Rightarrow> outbox_db) \<Rightarrow> ((outbox_db \<Rightarrow> outbox_db) \<Rightarrow> 'w \<Rightarrow> 'w) \<Rightarrow> ('w \<Rightarrow> delivery_log) \<Rightarrow> 'w relay \<Rightarrow>
   outbox_db \<Rightarrow> bool" where
  "relay_calm get upd calls r d \<longleftrightarrow>
     ob_store (rl_outbox r) = table_store get upd \<and> (\<forall>f w. get (upd f w) = f (get w) \<and> calls (upd f w) = calls w) \<and>
     (\<forall>w. get (fst (rl_now r w)) = get w \<and> calls (fst (rl_now r w)) = calls w \<and> \<not> time_IsZero (snd (rl_now r w))) \<and>
     (\<forall>w. ctx_Err (rl_ctx r w) = None) \<and> 0 < ob_Lease (rl_outbox r) \<and> 0 < ob_BatchSize (rl_outbox r) \<and>
     od_fail d = None \<and>
     (\<forall>k e. outbox_table d k = Some e \<longrightarrow> \<not> ID_IsZero k \<and> logged_handler get calls r (event_key e))"

definition calm_event :: "('w \<Rightarrow> outbox_db) \<Rightarrow> ('w \<Rightarrow> delivery_log) \<Rightarrow> 'w relay \<Rightarrow> outbox_event \<Rightarrow> bool" where
  "calm_event get calls r e \<longleftrightarrow> \<not> ID_IsZero (oe_ID e) \<and> logged_handler get calls r (event_key e)"

lemma dispatch_completes:
  assumes calm: "relay_calm get upd calls r d" and e: "calm_event get calls r e"
    and w: "od_fail (get w) = None" "outbox_table (get w) (oe_ID e) = Some f" "oe_CompletedAt f = None"
  shows "calls (relay_dispatch r e w) = calls w @ [(event_key e, e)] \<and> (\<exists>t. get (relay_dispatch r e w) =
    (get w)\<lparr>od_rows := AList.update (oe_ID e) (f\<lparr>oe_CompletedAt := Some t\<rparr>) (od_rows (get w))\<rparr>)"
proof -
  obtain h w1 where h: "registry_Lookup (oe_EventType e) (oe_EventVersion e) (rl_registry r) = Some h"
    "h (rl_ctx r w) e w = (w1, Inr ())" "get w1 = get w" "calls w1 = calls w @ [(event_key e, e)]"
    using e unfolding calm_event_def logged_handler_def registry_Lookup_def event_key_def by blast
  obtain w2 t where t: "rl_now r w1 = (w2, t)" by fastforce
  have "get (fst (rl_now r w1)) = get w1" "calls (fst (rl_now r w1)) = calls w1" "\<not> time_IsZero (snd (rl_now r w1))" "\<not> ID_IsZero (oe_ID e)"
    "ctx_Err (rl_ctx r w1) = None" "ob_store (rl_outbox r) = table_store get upd" "\<And>f w. get (upd f w) = f (get w)" "\<And>f w. calls (upd f w) = calls w"
    using calm e by (simp_all add: relay_calm_def calm_event_def)
  then show ?thesis
    using h t w
    by (auto simp: relay_dispatch_def gread_apply ob_Complete_def gmaperr_apply table_store_def zoom_def
        outbox_Complete_def gcase_apply outbox_exec_def gguard_def outbox_update_open_def)
qed

lemma events_complete:
  assumes calm: "relay_calm get upd calls r d"
  shows "od_fail (get w) = None \<Longrightarrow> distinct (map oe_ID es) \<Longrightarrow>
    (\<And>e. e \<in> set es \<Longrightarrow> calm_event get calls r e \<and> (\<exists>f. outbox_table (get w) (oe_ID e) = Some f \<and> oe_CompletedAt f = None)) \<Longrightarrow>
    snd (relay_events r es w) = None \<and>
    calls (fst (relay_events r es w)) = calls w @ map (\<lambda>e. (event_key e, e)) es \<and>
    (\<forall>k. if k \<in> oe_ID ` set es then completed (get (fst (relay_events r es w))) k
         else outbox_table (get (fst (relay_events r es w))) k = outbox_table (get w) k)"
proof (induction es arbitrary: w)
  case (Cons e es)
  obtain f where f: "outbox_table (get w) (oe_ID e) = Some f" "oe_CompletedAt f = None" "calm_event get calls r e"
    using Cons.prems(3) [of e] by auto
  obtain t where t: "get (relay_dispatch r e w) =
      (get w)\<lparr>od_rows := AList.update (oe_ID e) (f\<lparr>oe_CompletedAt := Some t\<rparr>) (od_rows (get w))\<rparr>"
    and lg: "calls (relay_dispatch r e w) = calls w @ [(event_key e, e)]"
    using dispatch_completes [OF calm f(3) Cons.prems(1) f(1,2)] by blast
  let ?w = "relay_dispatch r e w"
  have "ctx_Err (rl_ctx r w) = None" using calm by (simp add: relay_calm_def)
  then have step: "relay_events r (e # es) w = relay_events r es ?w" by simp
  have ih: "snd (relay_events r es ?w) = None \<and>
    calls (fst (relay_events r es ?w)) = calls ?w @ map (\<lambda>e. (event_key e, e)) es \<and>
    (\<forall>k. if k \<in> oe_ID ` set es then completed (get (fst (relay_events r es ?w))) k
         else outbox_table (get (fst (relay_events r es ?w))) k = outbox_table (get ?w) k)"
  proof (rule Cons.IH)
    fix x assume x: "x \<in> set es"
    then have "oe_ID x \<in> oe_ID ` set es" by simp
    then have "oe_ID x \<noteq> oe_ID e" using Cons.prems(2) by auto
    then show "calm_event get calls r x \<and> (\<exists>f. outbox_table (get ?w) (oe_ID x) = Some f \<and> oe_CompletedAt f = None)"
      using Cons.prems(3) [of x] x t by simp
  qed (use Cons.prems t in simp_all)
  have "completed (get (fst (relay_events r es ?w))) (oe_ID e)"
    using ih Cons.prems(2) t by (force simp: completed_def)
  then show ?case
    unfolding step using ih t lg by auto
qed simp

lemma batch_delivers:
  assumes calm: "relay_calm get upd calls r (get w)" and inv: "outbox_inv (get w)"
  defines "picked \<equiv> claim_picked (snd (rl_now r w)) (ob_BatchSize (rl_outbox r)) (map snd (od_rows (get w)))"
  shows "snd (relay_processBatch r w) = (int (length picked), None)"
    and "calls (fst (relay_processBatch r w)) =
      calls w @ map (\<lambda>e. (event_key e, claim_set (snd (rl_now r w)) (ob_Lease (rl_outbox r)) e)) picked"
    and "e \<in> set picked \<Longrightarrow> completed (get (fst (relay_processBatch r w))) (oe_ID e)"
    and "k \<notin> oe_ID ` set picked \<Longrightarrow> outbox_table (get (fst (relay_processBatch r w))) k = outbox_table (get w) k"
proof -
  obtain v t where v: "rl_now r w = (v, t)" by fastforce
  have c: "get v = get w" "calls v = calls w" "\<not> time_IsZero t" "\<And>w. ctx_Err (rl_ctx r w) = None"
    "\<And>f w. get (upd f w) = f (get w)" "\<And>f w. calls (upd f w) = calls w"
    "ob_store (rl_outbox r) = table_store get upd" "0 < ob_Lease (rl_outbox r)" "0 < ob_BatchSize (rl_outbox r)"
    "od_fail (get w) = None"
    using calm v unfolding relay_calm_def by (metis fst_conv snd_conv)+
  define out where "out = map (claim_set t (ob_Lease (rl_outbox r)))
    (claim_picked t (ob_BatchSize (rl_outbox r)) (map snd (od_rows (get w))))"
  define w1 where "w1 = upd (\<lambda>_. (get w)\<lparr>od_rows := foldl (\<lambda>m e. AList.update (oe_ID e) e m) (od_rows (get w)) out\<rparr>) v"
  have cl: "outbox_Claim (rl_ctx r w) t (ob_Lease (rl_outbox r)) (ob_BatchSize (rl_outbox r)) (get w) = (get w1, Inr out)"
    using c by (simp add: outbox_Claim_def gmaperr_apply outbox_exec_def gguard_def Let_def w1_def out_def)
  have w1: "gread (rl_now r) (\<lambda>now. ob_Claim (rl_outbox r) (rl_ctx r w) now) w = (w1, Inr out)"
    using cl c(1,3) v by (simp add: gread_apply ob_Claim_def gmaperr_apply c(7) table_store_def zoom_def)
      (simp add: w1_def c(5))
  have nf: "od_fail (get w1) = None" and lw: "calls w1 = calls w" using c by (simp_all add: w1_def)
  note ok = outbox_Claim_ok [OF inv cl]
  have pk: "picked = claim_picked t (ob_BatchSize (rl_outbox r)) (map snd (od_rows (get w)))"
    using v by (simp add: picked_def)
  have out: "out = map (claim_set t (ob_Lease (rl_outbox r))) picked" using ok(2) pk by simp
  have row: "outbox_table (get w) (oe_ID e) = Some e \<and> isClaimable e t" if "e \<in> set picked" for e
    using that claim_picked_row [OF inv] set_claim_picked unfolding pk by blast
  have ev: "snd (relay_events r out w1) = None \<and>
    calls (fst (relay_events r out w1)) = calls w1 @ map (\<lambda>e. (event_key e, e)) out \<and>
    (\<forall>k. if k \<in> oe_ID ` set out then completed (get (fst (relay_events r out w1))) k
         else outbox_table (get (fst (relay_events r out w1))) k = outbox_table (get w1) k)"
  proof (rule events_complete [OF calm nf])
    show "distinct (map oe_ID out)"
      using claim_picked_distinct [OF inv] by (simp add: out pk comp_def)
    fix e assume "e \<in> set out"
    then obtain x where x: "x \<in> set picked" "e = claim_set t (ob_Lease (rl_outbox r)) x" by (auto simp: out)
    then show "calm_event get calls r e \<and> (\<exists>f. outbox_table (get w1) (oe_ID e) = Some f \<and> oe_CompletedAt f = None)"
      using calm row [OF x(1)] ok(3) pk
      by (auto simp: relay_calm_def calm_event_def claimable_where claim_set_def event_key_def)
  qed
  have ids: "oe_ID ` set out = oe_ID ` set picked" by (simp add: out image_image)
  have res: "relay_processBatch r w = (fst (relay_events r out w1), int (length picked), None)"
    using w1 ev by (simp add: relay_processBatch_def split_beta out)
  show "snd (relay_processBatch r w) = (int (length picked), None)" using res by simp
  show "calls (fst (relay_processBatch r w)) =
      calls w @ map (\<lambda>e. (event_key e, claim_set (snd (rl_now r w)) (ob_Lease (rl_outbox r)) e)) picked"
    using res ev lw v by (simp add: out event_key_def claim_set_def comp_def)
  show "completed (get (fst (relay_processBatch r w))) (oe_ID e)" if "e \<in> set picked"
    using ev that ids res by force
  show "outbox_table (get (fst (relay_processBatch r w))) k = outbox_table (get w) k" if "k \<notin> oe_ID ` set picked"
  proof -
    have "e \<notin> set picked" if "outbox_table (get w) k = Some e" for e
      using that outbox_invD(2) [OF inv] \<open>k \<notin> _\<close> by fastforce
    then show ?thesis using ev that ids res ok(3) pk by (auto split: option.split)
  qed
qed

section \<open>Properties\<close>

text \<open>
  The world of the properties below: any record with the table of events, reached by \<open>get\<close> and \<open>upd\<close>. The
  dependencies leave the table alone; a handler may write to the outbox, but completes nothing, and records
  what it has accepted in \<open>seen\<close>.
\<close>

definition relay_ok :: "('w \<Rightarrow> outbox_db) \<Rightarrow> ((outbox_db \<Rightarrow> outbox_db) \<Rightarrow> 'w \<Rightarrow> 'w) \<Rightarrow> ('w \<Rightarrow> ID set) \<Rightarrow> 'w relay \<Rightarrow> bool" where
  "relay_ok get upd seen r \<longleftrightarrow>
     (\<forall>f w. get (upd f w) = f (get w) \<and> seen (upd f w) = seen w) \<and>
     ob_store (rl_outbox r) = table_store get upd \<and>
     (\<forall>w. delivers get seen w (fst (rl_now r w)) \<and> delivers get seen w (fst (ob_now (rl_outbox r) w))) \<and>
     (\<forall>t n w. delivers get seen w (fst (ob_next (rl_outbox r) t n w))) \<and>
     (\<forall>c d w. delivers get seen w (fst (rl_wait r c d w))) \<and>
     (\<forall>ty v h c e w. registry_Lookup ty v (rl_registry r) = Some h \<longrightarrow> delivers get seen w (fst (h c e w)) \<and>
        (\<forall>w' u. h c e w = (w', Inr u) \<longrightarrow> oe_ID e \<in> seen w'))"

lemma relay_ok_deps:
  assumes "relay_ok get upd seen r"
  shows "relay_deps (delivers get seen) (\<lambda>i w. i \<in> seen w) r"
proof -
  have lens: "get (upd f w) = f (get w) \<and> seen (upd f w) = seen w" for f w
    using assms by (simp add: relay_ok_def)
  have store: "ob_store (rl_outbox r) = table_store get upd"
    using assms by (simp add: relay_ok_def)
  have C: "delivers get seen w (fst (zoom get upd (outbox_Claim c now lease limit) w))" for w c now lease limit
    by (rule delivers_zoom [where P = "\<lambda>_. False"], rule lens, erule (1) Claim_moves, simp)
  have K: "delivers get seen w (fst (zoom get upd (outbox_Complete c i now) w))" if "i \<in> seen w" for w c i now
    by (rule delivers_zoom [where P = "\<lambda>k. k = i"], rule lens, erule (1) Complete_moves) (simp add: that)
  have S: "delivers get seen w (fst (zoom get upd (outbox_Reschedule c i t s) w))" for w c i t s
    by (rule delivers_zoom [where P = "\<lambda>_. False"], rule lens, erule (1) Reschedule_moves, simp)
  have Q: "i \<in> seen w'" if "i \<in> seen w" "delivers get seen w w'" for i w w'
    using that by (auto simp: delivers_def)
  show ?thesis
    unfolding relay_deps_def store table_store_def outbox_store.simps
    by (intro conjI allI impI; (rule delivers_refl C S | erule K | erule (1) Q | erule (1) delivers_trans
        | use assms [unfolded relay_ok_def] in blast))
qed

text \<open>C10. At least once: whatever fails, times out or is rescheduled while the polling loop runs, an event that
  is completed when the loop returns was completed before or has been accepted by a registered handler; and the
  table still satisfies its constraints.\<close>

theorem relay_at_least_once:
  assumes "relay_ok get upd seen r" and "outbox_inv (get w)" and "relay_runLoop r w = Some w'"
  shows "outbox_inv (get w') \<and> (\<forall>i. completed (get w') i \<longrightarrow> completed (get w) i \<or> i \<in> seen w')"
  using runLoop_deps [OF relay_ok_deps [OF assms(1)] assms(3)] assms(2) by (auto simp: delivers_def)


text \<open>C18. The polling loop ends: if every reading of the clock brings a context that has not ended closer to
  its end, and no call of the relay takes it further away, the loop returns, however the table, the
  handlers and the database behave.\<close>

theorem relay_returns:
  assumes "relay_deps (\<lambda>w w'. left w' \<le> (left w :: nat)) (\<lambda>_ _. True) r"
    and "\<And>w. ctx_Err (rl_ctx r w) = None \<Longrightarrow> left (fst (rl_now r w)) < left w"
  shows "\<exists>w'. relay_runLoop r w = Some w' \<and> left w' \<le> left w"
  using runLoop_ends [OF assms] runLoop_deps [OF assms(1)] by blast


text \<open>A worker on a small table: each reading of the clock is one step closer to the end of its context.\<close>

record sample_world =
  sw_db :: outbox_db
  sw_left :: nat
  sw_seen :: "ID list"

definition sample_clock :: "sample_world \<Rightarrow> sample_world \<times> time" where
  "sample_clock w = (w\<lparr>sw_left := sw_left w - 1\<rparr>, 1000 - int (sw_left w))"

definition sample_handler :: "sample_world handler" where
  "sample_handler = (\<lambda>c e w. (w\<lparr>sw_seen := oe_ID e # sw_seen w\<rparr>, Inr ()))"

definition sample_relay :: "sample_world relay" where
  "sample_relay =
     \<lparr>rl_outbox = \<lparr>ob_store = table_store sw_db sw_db_update, ob_Lease = 60, ob_BatchSize = 2,
        ob_next = \<lambda>t n w. (w, Inr (t + 10)), ob_now = sample_clock, ob_rand = \<lambda>w. (w, None), ob_letter = \<lambda>_. False\<rparr>,
      rl_registry = [((''created'', 1), sample_handler)], rl_poll = 5, rl_now = sample_clock,
      rl_wait = \<lambda>c d w. (w, Inr ()),
      rl_ctx = \<lambda>w. if sw_left w = 0 then background\<lparr>ctx_Err := Some (CtxErr DeadlineExceeded)\<rparr> else background\<rparr>"

definition sample_start :: sample_world where
  "sample_start = \<lparr>sw_db = sample_outbox, sw_left = 6, sw_seen = []\<rparr>"

lemma sample_table [simp]: "od_rows sample_outbox = [(id_n 1, sample_event 1)]" "od_fail sample_outbox = None"
  by (simp_all add: sample_outbox_def)

lemma sample_lookup:
  "registry_Lookup ty v (rl_registry sample_relay) = Some h \<Longrightarrow> h = sample_handler"
  "registry_Lookup ''created'' 1 (rl_registry sample_relay) = Some sample_handler"
proof -
  have "strings_TrimSpace ''created'' = ''created''"
    by (rule TrimSpace_graphic) (simp add: graphic_def)
  then show "registry_Lookup ''created'' 1 (rl_registry sample_relay) = Some sample_handler"
    by (simp add: registry_Lookup_def sample_relay_def)
qed (auto simp: registry_Lookup_def sample_relay_def split: if_splits)

lemma sample_relay_ok: "relay_ok sw_db sw_db_update (\<lambda>w. set (sw_seen w)) sample_relay"
  unfolding relay_ok_def
  by (intro conjI allI impI; (drule sample_lookup(1))?)
    (auto simp: delivers_def sample_relay_def sample_clock_def sample_handler_def)

lemma sample_relay_timed: "relay_deps (\<lambda>w w'. sw_left w' \<le> sw_left w) (\<lambda>_ _. True) sample_relay"
  unfolding relay_deps_def
  by (intro conjI allI impI; (drule sample_lookup(1))?)
    (auto simp: sample_relay_def sample_clock_def sample_handler_def table_store_def zoom_def split: prod.split)

lemma sample_tick: "ctx_Err (rl_ctx sample_relay w) = None \<Longrightarrow> sw_left (fst (rl_now sample_relay w)) < sw_left w"
  by (simp add: sample_relay_def sample_clock_def split: if_splits)

theorem relay_returns_witness:
  "\<exists>w'. relay_runLoop sample_relay sample_start = Some w' \<and> sw_left w' \<le> sw_left sample_start"
  by (rule relay_returns [where left = sw_left, OF sample_relay_timed sample_tick])

theorem relay_at_least_once_witness:
  "\<exists>w'. relay_runLoop sample_relay sample_start = Some w' \<and> outbox_inv (sw_db w') \<and>
     (\<forall>i. completed (sw_db w') i \<longrightarrow> completed (sw_db sample_start) i \<or> i \<in> set (sw_seen w'))"
proof -
  obtain w' where w': "relay_runLoop sample_relay sample_start = Some w'"
    using runLoop_ends [where left = sw_left, OF sample_relay_timed sample_tick] by blast
  moreover have "outbox_inv (sw_db sample_start)" by (simp add: sample_start_def)
  ultimately show ?thesis using relay_at_least_once [OF sample_relay_ok _ w'] by simp
qed

text \<open>Its handler notes what it is handed.\<close>

record logging_world = sample_world +
  lw_log :: delivery_log

definition logging_relay :: "logging_world relay" where
  "logging_relay =
     \<lparr>rl_outbox = \<lparr>ob_store = table_store sw_db sw_db_update, ob_Lease = 60, ob_BatchSize = 2,
        ob_next = \<lambda>t n w. (w, Inr (t + 10)), ob_now = \<lambda>w. (w, 1000), ob_rand = \<lambda>w. (w, None), ob_letter = \<lambda>_. False\<rparr>,
      rl_registry = [((''created'', 1), \<lambda>c e w. (w\<lparr>lw_log := lw_log w @ [((''created'', 1), e)]\<rparr>, Inr ()))],
      rl_poll = 5, rl_now = \<lambda>w. (w, 1000), rl_wait = \<lambda>c d w. (w, Inr ()), rl_ctx = \<lambda>_. background\<rparr>"

definition logging_start :: logging_world where
  "logging_start = \<lparr>sw_db = sample_outbox, sw_left = 6, sw_seen = [], lw_log = []\<rparr>"


end
