(* ===== verification/Go_Parse.thy ===== *)
theory Go_Parse
  imports Go_Service Go_Time "HOL-Library.Monad_Syntax"
begin

text \<open>
  Reading instants back: \<open>time.Parse\<close> for the layouts \<open>RFC3339\<close> and \<open>RFC3339Nano\<close>, and
  \<open>Format(time.RFC3339Nano)\<close>. The two layouts accept the same texts: a fraction is optional in both. The
  library first tries a strict parser and falls back on the general one, which accepts more texts and
  agrees with it, so the model is the general one.
\<close>

section \<open>Digits\<close>

definition digit_char :: "char \<Rightarrow> bool" where
  "digit_char c \<longleftrightarrow> 0x30 \<le> byte_of c \<and> byte_of c \<le> (0x39 :: nat)"

definition digit_val :: "char \<Rightarrow> int" where
  "digit_val c = int (byte_of c) - 0x30"

definition atoi_digits :: "string \<Rightarrow> int" where
  "atoi_digits ds = foldl (\<lambda>n c. 10 * n + digit_val c) 0 ds"

lemma dec_digit_simps [simp]:
  "digit_char (dec_digit n)" "digit_val (dec_digit n) = int (n mod 10)"
proof -
  have m: "n mod 10 < 10" by simp
  then have "0x30 + n mod 10 < 256" by linarith
  then have "byte_of (dec_digit n) = 0x30 + n mod 10" by (simp add: dec_digit_def of_char_of)
  with m show "digit_char (dec_digit n)" "digit_val (dec_digit n) = int (n mod 10)"
    unfolding digit_char_def digit_val_def by linarith+
qed

lemma digits_dec: "list_all digit_char (dec n)"
  by (induction n rule: dec.induct) (subst dec.simps, simp)

lemma atoi_snoc [simp]: "atoi_digits (ds @ [c]) = 10 * atoi_digits ds + digit_val c"
  by (simp add: atoi_digits_def)

lemma atoi_dec [simp]: "atoi_digits (dec n) = int n"
proof (induction n rule: dec.induct)
  case (1 n)
  show ?case
  proof (cases "n < 10")
    case True
    then show ?thesis by (subst dec.simps) (simp add: atoi_digits_def)
  next
    case False
    have "10 * (int n div 10) + int n mod 10 = int n" by simp
    then show ?thesis
      using 1 [OF False] False by (subst dec.simps) (simp add: zdiv_int zmod_int)
  qed
qed

lemma atoi_zeros [simp]: "atoi_digits (replicate k CHR ''0'' @ ds) = atoi_digits ds"
  by (induction k) (simp_all add: atoi_digits_def digit_val_def)

lemma length_dec: "0 < w \<Longrightarrow> n < 10 ^ w \<Longrightarrow> length (dec n) \<le> w"
proof (induction n arbitrary: w rule: dec.induct)
  case (1 n)
  show ?case
  proof (cases "n < 10")
    case True
    then show ?thesis using 1 by (subst dec.simps) simp
  next
    case False
    then obtain v where v: "w = Suc v" using 1(2) by (cases w) auto
    have "v \<noteq> 0" using False 1(3) v by (cases v) auto
    moreover have "n div 10 < 10 ^ v" using 1(3) v by (simp add: less_mult_imp_div_less mult.commute)
    ultimately have "length (dec (n div 10)) \<le> v" using 1(1) [OF False] by simp
    then show ?thesis using False v by (subst dec.simps) simp
  qed
qed

lemma pad_dec_fits:
  assumes "0 < w" and "0 \<le> i" and "i < 10 ^ w"
  shows "length (pad_dec w i) = w" and "list_all digit_char (pad_dec w i)" and "atoi_digits (pad_dec w i) = i"
proof -
  have i: "nat \<bar>i\<bar> < 10 ^ w" "int (nat \<bar>i\<bar>) = i" using assms by (simp_all add: nat_less_iff)
  show "length (pad_dec w i) = w"
    using length_dec [OF assms(1) i(1)] assms(2) by (simp add: pad_dec_def Let_def)
  have "digit_char CHR ''0''" by (simp add: digit_char_def)
  then show "list_all digit_char (pad_dec w i)"
    using assms(2) digits_dec by (auto simp: pad_dec_def Let_def list_all_iff)
  have "pad_dec w i = replicate (w - length (dec (nat i))) CHR ''0'' @ dec (nat i)"
    using assms(2) by (simp add: pad_dec_def Let_def)
  then have "atoi_digits (pad_dec w i) = int (nat i)" by simp
  then show "atoi_digits (pad_dec w i) = i" using assms(2) by simp
qed

section \<open>The fraction of a second\<close>

text \<open>\<open>.999999999\<close> in a layout: the nanoseconds without trailing zeros, nothing for none.\<close>

definition trim_zeros :: "string \<Rightarrow> string" where
  "trim_zeros s = rev (dropWhile (\<lambda>c. c = CHR ''0'') (rev s))"

definition format_fraction :: "int \<Rightarrow> string" where
  "format_fraction ns = (let ds = trim_zeros (pad_dec 9 ns) in if ds = [] then [] else CHR ''.'' # ds)"

text \<open>\<open>parseNanoseconds\<close>: at most nine digits count.\<close>

definition parse_nanos :: "string \<Rightarrow> int" where
  "parse_nanos ds = (let ds = take 9 ds in atoi_digits ds * 10 ^ (9 - length ds))"

lemma trim_zeros_split: "\<exists>k. s = trim_zeros s @ replicate k CHR ''0''"
proof -
  have "rev s = takeWhile (\<lambda>c. c = CHR ''0'') (rev s) @ dropWhile (\<lambda>c. c = CHR ''0'') (rev s)" by simp
  then have "s = trim_zeros s @ rev (takeWhile (\<lambda>c. c = CHR ''0'') (rev s))"
    unfolding trim_zeros_def by (metis rev_append rev_rev_ident)
  moreover have "takeWhile (\<lambda>c. c = CHR ''0'') (rev s) = replicate (length (takeWhile (\<lambda>c. c = CHR ''0'') (rev s))) CHR ''0''"
    by (rule sym, rule replicate_length_same) (auto dest: set_takeWhileD)
  ultimately show ?thesis by (metis rev_replicate)
qed

lemma atoi_append_zeros: "atoi_digits (ds @ replicate k CHR ''0'') = atoi_digits ds * 10 ^ k"
proof (induction k)
  case (Suc k)
  have "ds @ replicate (Suc k) CHR ''0'' = (ds @ replicate k CHR ''0'') @ [CHR ''0'']"
    by (simp add: replicate_append_same)
  then show ?case using Suc by (simp only: atoi_snoc) (simp add: digit_val_def)
qed simp

lemma parse_format_fraction:
  assumes "0 \<le> ns" and "ns < 1000000000"
  shows "parse_nanos (trim_zeros (pad_dec 9 ns)) = ns" and "list_all digit_char (trim_zeros (pad_dec 9 ns))"
proof -
  obtain k where k: "pad_dec 9 ns = trim_zeros (pad_dec 9 ns) @ replicate k CHR ''0''"
    using trim_zeros_split by blast
  have p: "length (pad_dec 9 ns) = 9" "list_all digit_char (pad_dec 9 ns)" "atoi_digits (pad_dec 9 ns) = ns"
    using pad_dec_fits [of 9 ns] assms by simp_all
  have len: "length (trim_zeros (pad_dec 9 ns)) + k = 9" using p(1) arg_cong [OF k, of length] by simp
  then have "ns = atoi_digits (trim_zeros (pad_dec 9 ns)) * 10 ^ k"
    using p(3) k atoi_append_zeros by metis
  moreover have "9 - length (trim_zeros (pad_dec 9 ns)) = k" using len by simp
  ultimately show "parse_nanos (trim_zeros (pad_dec 9 ns)) = ns"
    using len by (simp add: parse_nanos_def Let_def)
  show "list_all digit_char (trim_zeros (pad_dec 9 ns))"
    using p(2) k by (metis list_all_append)
qed

section \<open>Parsing\<close>

text \<open>\<open>getnum\<close>: two digits, or one unless the field is fixed.\<close>

definition getnum :: "bool \<Rightarrow> string \<Rightarrow> (int \<times> string) option" where
  "getnum fixed s =
     (case s of
        [] \<Rightarrow> None
      | c # s1 \<Rightarrow>
          if \<not> digit_char c then None
          else case s1 of
            d # s2 \<Rightarrow> if digit_char d then Some (10 * digit_val c + digit_val d, s2)
                      else if fixed then None else Some (digit_val c, s1)
          | [] \<Rightarrow> if fixed then None else Some (digit_val c, s1))"

definition skip_char :: "char \<Rightarrow> string \<Rightarrow> string option" where
  "skip_char c s = (case s of d # s' \<Rightarrow> if d = c then Some s' else None | [] \<Rightarrow> None)"

definition in_range :: "int \<Rightarrow> int \<Rightarrow> int \<Rightarrow> unit option" where
  "in_range a b n = (if a \<le> n \<and> n \<le> b then Some () else None)"

definition get_year :: "string \<Rightarrow> (int \<times> string) option" where
  "get_year s =
     (if 4 \<le> length s \<and> list_all digit_char (take 4 s) then Some (atoi_digits (take 4 s), drop 4 s) else None)"

definition get_fraction :: "string \<Rightarrow> int \<times> string" where
  "get_fraction s =
     (case s of
        c # d # _ \<Rightarrow>
          if (c = CHR ''.'' \<or> c = CHR '','') \<and> digit_char d
          then (parse_nanos (takeWhile digit_char (tl s)), dropWhile digit_char (tl s))
          else (0, s)
      | _ \<Rightarrow> (0, s))"

text \<open>\<open>Z07:00\<close>: the offset in seconds.\<close>

definition get_zone :: "string \<Rightarrow> (int \<times> string) option" where
  "get_zone s =
     (case s of
        [] \<Rightarrow> None
      | c # s1 \<Rightarrow>
          if c = CHR ''Z'' then Some (0, s1)
          else if length s < 6 \<or> s ! 3 \<noteq> CHR '':'' then None
          else do {
            (hr, _) \<leftarrow> getnum True (take 2 s1);
            (mm, _) \<leftarrow> getnum True (take 2 (drop 4 s));
            in_range 0 24 hr;
            in_range 0 60 mm;
            sign \<leftarrow> (if c = CHR ''+'' then Some 1 else if c = CHR ''-'' then Some (- 1) else None);
            Some (sign * ((hr * 60 + mm) * 60), drop 6 s)
          })"

definition days_before_year :: "int \<Rightarrow> int" where
  "days_before_year y = (y - 1) * 365 + (y - 1) div 4 - (y - 1) div 100 + (y - 1) div 400"

definition days_of_civil :: "int \<Rightarrow> int \<Rightarrow> int \<Rightarrow> int" where
  "days_of_civil y m d = days_before_year y + sum_list (take (nat (m - 1)) (month_lengths y)) + d - 1"

definition time_Parse_RFC3339 :: "string \<Rightarrow> time option" where
  "time_Parse_RFC3339 s = do {
     (y, s) \<leftarrow> get_year s;
     s \<leftarrow> skip_char CHR ''-'' s;
     (m, s) \<leftarrow> getnum True s;
     in_range 1 12 m;
     s \<leftarrow> skip_char CHR ''-'' s;
     (d, s) \<leftarrow> getnum True s;
     s \<leftarrow> skip_char CHR ''T'' s;
     (hh, s) \<leftarrow> getnum False s;
     in_range 0 23 hh;
     s \<leftarrow> skip_char CHR '':'' s;
     (mi, s) \<leftarrow> getnum True s;
     in_range 0 59 mi;
     s \<leftarrow> skip_char CHR '':'' s;
     (sc, s) \<leftarrow> getnum True s;
     in_range 0 59 sc;
     let (ns, s) = get_fraction s;
     (z, s) \<leftarrow> get_zone s;
     (if s = [] then Some () else None);
     in_range 1 (month_lengths y ! nat (m - 1)) d;
     Some ((days_of_civil y m d * 86400 + hh * 3600 + mi * 60 + sc - z) * 1000000000 + ns)
   }"

definition time_Format_RFC3339Nano :: "time \<Rightarrow> string" where
  "time_Format_RFC3339Nano t =
     (let secs = t div 1000000000; sod = secs mod 86400;
          (y, m, d) = civil (secs div 86400)
      in pad_dec 4 y @ ''-'' @ pad_dec 2 m @ ''-'' @ pad_dec 2 d @ ''T'' @
         pad_dec 2 (sod div 3600) @ '':'' @ pad_dec 2 (sod mod 3600 div 60) @ '':'' @
         pad_dec 2 (sod mod 60) @ format_fraction (t mod 1000000000) @ ''Z'')"


section \<open>Round trips\<close>

lemma month_day_split:
  assumes "1 \<le> d" and "d \<le> sum_list ls"
  shows "\<exists>k d'. month_day ls m d = (m + int k, d') \<and> k < length ls \<and> 1 \<le> d' \<and> d' \<le> ls ! k \<and>
    d = sum_list (take k ls) + d'"
  using assms
proof (induction ls arbitrary: m d)
  case (Cons l ls)
  show ?case
  proof (cases "d \<le> l")
    case True
    then have "month_day (l # ls) m d = (m + int 0, d) \<and> 0 < length (l # ls) \<and> 1 \<le> d \<and> d \<le> (l # ls) ! 0 \<and>
      d = sum_list (take 0 (l # ls)) + d" using Cons.prems by simp
    then show ?thesis by blast
  next
    case False
    then obtain k d' where k: "month_day ls (m + 1) (d - l) = (m + 1 + int k, d')" "k < length ls" "1 \<le> d'"
      "d' \<le> ls ! k" "d - l = sum_list (take k ls) + d'"
      using Cons.IH [of "d - l" "m + 1"] Cons.prems by auto
    then have "month_day (l # ls) m d = (m + int (Suc k), d') \<and> Suc k < length (l # ls) \<and> 1 \<le> d' \<and>
      d' \<le> (l # ls) ! Suc k \<and> d = sum_list (take (Suc k) (l # ls)) + d'"
      using False by (simp add: algebra_simps)
    then show ?thesis by blast
  qed
qed simp

lemma sum_month_lengths: "sum_list (month_lengths y) = (if leap_year y then 366 else 365)"
  by (simp add: month_lengths_def)

text \<open>The decomposition of a day number into cycles of 400, 100, 4 and 1 years.\<close>

lemma capped_div:
  fixes x k q :: int
  assumes "0 \<le> x" and "x \<le> 4 * k" and "0 < k" and q: "q = min 3 (x div k)"
  shows "0 \<le> q" and "q \<le> 3" and "k * q \<le> x" and "x - k * q \<le> k" and "q < 3 \<Longrightarrow> x - k * q < k"
proof -
  have x: "x = k * (x div k) + x mod k" "0 \<le> x mod k" "x mod k < k" "0 \<le> x div k"
    using assms by (simp_all add: pos_imp_zdiv_nonneg_iff)
  show "0 \<le> q" "q \<le> 3" using x(4) q by simp_all
  have "k * q \<le> x \<and> x - k * q \<le> k \<and> (q < 3 \<longrightarrow> x - k * q < k)"
  proof (cases "x div k \<le> 3")
    case True
    then have "q = x div k" using q by simp
    then have "x - k * q = x mod k" by (simp add: minus_mult_div_eq_mod)
    then show ?thesis using x(2,3) by linarith
  next
    case False
    then have q3: "q = 3" using q by simp
    have "k * 4 \<le> k * (x div k)" using False assms(3) by (intro mult_left_mono) auto
    then have "k * 4 \<le> x" using x(1,2) by linarith
    then show ?thesis using assms(2,3) by (simp add: q3)
  qed
  then show "k * q \<le> x" "x - k * q \<le> k" "q < 3 \<Longrightarrow> x - k * q < k" by simp_all
qed

lemma div_rest: "0 \<le> s \<Longrightarrow> s < k \<Longrightarrow> n = k * q + s \<Longrightarrow> n div k = (q :: int)"
  by (simp add: div_mult_self4)

lemma mod_rest: "0 \<le> s \<Longrightarrow> s < k \<Longrightarrow> n = k * q + s \<Longrightarrow> n mod k = (s :: int)"
  by simp

lemma civil_days:
  assumes "civil n = (y, m, d)"
  shows "1 \<le> m \<and> m \<le> 12 \<and> 1 \<le> d \<and> d \<le> month_lengths y ! nat (m - 1) \<and> days_of_civil y m d = n"
proof -
  define a b where "a = n div 146097" and "b = min 3 (n mod 146097 div 36524)"
  define c r where "c = (n mod 146097 - 36524 * b) div 1461" and "r = (n mod 146097 - 36524 * b) mod 1461"
  define e where "e = min 3 (r div 365)"
  have b: "0 \<le> b" "b \<le> 3" "36524 * b \<le> n mod 146097" "n mod 146097 - 36524 * b \<le> 36524"
    "b < 3 \<Longrightarrow> n mod 146097 - 36524 * b < 36524"
    using capped_div [of "n mod 146097" 36524 b, OF _ _ _ b_def] by simp_all
  have c: "0 \<le> c" "c \<le> 24" "n mod 146097 - 36524 * b = 1461 * c + r" "0 \<le> r" "r < 1461"
  proof -
    define x where "x = n mod 146097 - 36524 * b"
    have x: "0 \<le> x" "x \<le> 36524" using b(3,4) by (simp_all add: x_def)
    then have "0 \<le> x div 1461" "x div 1461 \<le> 36524 div 1461"
      by (simp_all add: pos_imp_zdiv_nonneg_iff zdiv_mono1 del: div_pos_pos_trivial)
    then show "0 \<le> c" "c \<le> 24" "n mod 146097 - 36524 * b = 1461 * c + r" "0 \<le> r" "r < 1461"
      unfolding c_def r_def x_def [symmetric] by simp_all
  qed
  have e: "0 \<le> e" "e \<le> 3" "365 * e \<le> r" "r - 365 * e \<le> 365" "e < 3 \<Longrightarrow> r - 365 * e < 365"
    using c(4,5) capped_div [of r 365 e, OF _ _ _ e_def] by simp_all
  define Y where "Y = 400 * a + 100 * b + 4 * c + e + 1"
  have n: "n = 146097 * a + 36524 * b + 1461 * c + r"
    using c(3) div_mult_mod_eq [of n 146097] unfolding a_def by linarith
  have div: "(Y - 1) div 4 = 100 * a + 25 * b + c" "(Y - 1) div 100 = 4 * a + b" "(Y - 1) div 400 = a"
    using b(1,2) c(1,2) e(1,2)
    by (intro div_rest [of e] div_rest [of "4 * c + e"] div_rest [of "100 * b + 4 * c + e"]; simp add: Y_def)+
  have before: "days_before_year Y = n - (r - 365 * e)"
    unfolding days_before_year_def div by (simp add: n Y_def)
  have leap: "r - 365 * e = 365 \<Longrightarrow> leap_year Y"
  proof -
    assume r: "r - 365 * e = 365"
    then have e3: "e = 3" using e by force
    then have r: "r = 1460" using r by simp
    have "Y mod 4 = 0" using e3 by (intro mod_rest [of 0 _ _ "100 * a + 25 * b + c + 1"]) (simp_all add: Y_def)
    moreover have "Y mod 100 \<noteq> 0 \<or> Y mod 400 = 0"
    proof (cases "c = 24")
      case True
      then have "b = 3" using b(2,5) c(3) r by linarith
      then have "Y mod 400 = 0" using e3 True by (intro mod_rest [of 0 _ _ "a + 1"]) (simp_all add: Y_def)
      then show ?thesis by simp
    next
      case False
      then have "Y mod 100 = 4 * c + 4"
        using e3 c(1,2) by (intro mod_rest [of _ _ _ "4 * a + b"]) (simp_all add: Y_def)
      then show ?thesis using c(1) by simp
    qed
    ultimately show "leap_year Y" by (simp add: leap_year_def)
  qed
  have "1 \<le> r - 365 * e + 1" using e(3) by simp
  moreover have "r - 365 * e + 1 \<le> sum_list (month_lengths Y)"
    using e(4) leap by (cases "r - 365 * e = 365") (simp_all add: sum_month_lengths)
  ultimately obtain k d' where k: "month_day (month_lengths Y) 1 (r - 365 * e + 1) = (1 + int k, d')"
    "k < length (month_lengths Y)" "1 \<le> d'" "d' \<le> month_lengths Y ! k"
    "r - 365 * e + 1 = sum_list (take k (month_lengths Y)) + d'"
    using month_day_split by blast
  have "civil n = (Y, 1 + int k, d')"
    using k(1) unfolding civil_def Let_def a_def [symmetric] b_def [symmetric] c_def [symmetric] r_def [symmetric]
      e_def [symmetric] Y_def [symmetric] by simp
  then have "y = Y" "m = 1 + int k" "d = d'" using assms by simp_all
  moreover have "length (month_lengths Y) = 12" by (simp add: month_lengths_def)
  ultimately show ?thesis
    using k before by (simp add: days_of_civil_def)
qed


text \<open>Reading back what the two layouts write, for the years of four digits.\<close>

definition four_digit_year :: "time \<Rightarrow> bool" where
  "four_digit_year t \<longleftrightarrow> 0 \<le> fst (civil (t div 1000000000 div 86400)) \<and>
     fst (civil (t div 1000000000 div 86400)) < 10000"

lemma getnum_pad [simp]:
  assumes "0 \<le> i" and "i < 100"
  shows "getnum f (pad_dec 2 i @ s) = Some (i, s)"
proof -
  have "length (pad_dec 2 i) = 2" "list_all digit_char (pad_dec 2 i)" "atoi_digits (pad_dec 2 i) = i"
    using pad_dec_fits [of 2 i] assms by simp_all
  then obtain c d where "pad_dec 2 i = [c, d]" "digit_char c" "digit_char d" "10 * digit_val c + digit_val d = i"
    by (auto simp: length_Suc_conv numeral_2_eq_2 atoi_digits_def)
  then show ?thesis by (simp add: getnum_def)
qed

lemma get_year_pad [simp]:
  assumes "0 \<le> y" and "y < 10000"
  shows "get_year (pad_dec 4 y @ s) = Some (y, s)"
  using pad_dec_fits [of 4 y] assms by (simp add: get_year_def)

lemma skip_char_Cons [simp]: "skip_char c (c # s) = Some s"
  by (simp add: skip_char_def)

lemma get_zone_Z [simp]: "get_zone ''Z'' = Some (0, [])"
  by (simp add: get_zone_def)

lemma in_range_ok [simp]: "a \<le> n \<Longrightarrow> n \<le> b \<Longrightarrow> in_range a b n = Some ()"
  by (simp add: in_range_def)

lemma get_fraction_none [simp]: "get_fraction ''Z'' = (0, ''Z'')"
  by (simp add: get_fraction_def)

lemma get_fraction_format:
  assumes "0 \<le> ns" and "ns < 1000000000"
  shows "get_fraction (format_fraction ns @ ''Z'') = (ns, ''Z'')"
proof (cases "trim_zeros (pad_dec 9 ns)")
  case Nil
  then show ?thesis using parse_format_fraction(1) [OF assms] by (simp add: format_fraction_def parse_nanos_def atoi_digits_def)
next
  case (Cons d ds)
  note p = parse_format_fraction [OF assms, unfolded Cons]
  have z: "\<not> digit_char CHR ''Z''" by (simp add: digit_char_def)
  have "takeWhile digit_char ((d # ds) @ ''Z'') = d # ds" "dropWhile digit_char ((d # ds) @ ''Z'') = ''Z''"
    using p(2) z by (simp_all add: takeWhile_append dropWhile_append list_all_iff)
  then show ?thesis
    using p by (simp add: format_fraction_def Cons get_fraction_def)
qed

lemma parse_fields:
  assumes "0 \<le> y" "y < 10000" and "1 \<le> m" "m \<le> 12" and "1 \<le> d" "d < 100" "d \<le> month_lengths y ! nat (m - 1)"
    and "0 \<le> hh" "hh \<le> 23" and "0 \<le> mi" "mi \<le> 59" and "0 \<le> sc" "sc \<le> 59" and "get_fraction s = (ns, ''Z'')"
  shows "time_Parse_RFC3339 (pad_dec 4 y @ ''-'' @ pad_dec 2 m @ ''-'' @ pad_dec 2 d @ ''T'' @
    pad_dec 2 hh @ '':'' @ pad_dec 2 mi @ '':'' @ pad_dec 2 sc @ s) =
    Some ((days_of_civil y m d * 86400 + hh * 3600 + mi * 60 + sc) * 1000000000 + ns)"
  using assms unfolding time_Parse_RFC3339_def by (simp del: month_lengths_def)

lemma parse_civil:
  assumes y: "four_digit_year t" and c: "civil (t div 1000000000 div 86400) = (y, m, d)"
    and f: "get_fraction s = (ns, ''Z'')"
  defines "sod \<equiv> t div 1000000000 mod 86400"
  shows "time_Parse_RFC3339 (pad_dec 4 y @ ''-'' @ pad_dec 2 m @ ''-'' @ pad_dec 2 d @ ''T'' @
    pad_dec 2 (sod div 3600) @ '':'' @ pad_dec 2 (sod mod 3600 div 60) @ '':'' @ pad_dec 2 (sod mod 60) @ s) =
    Some (t - t mod 1000000000 + ns)"
proof -
  have yr: "0 \<le> y" "y < 10000" using y c by (simp_all add: four_digit_year_def)
  note cd = civil_days [OF c]
  have ml: "month_lengths y ! nat (m - 1) \<le> 31"
  proof -
    have "nat (m - 1) < 12" using cd by linarith
    then have "nat (m - 1) < length (month_lengths y)" by (simp add: month_lengths_def)
    then have "month_lengths y ! nat (m - 1) \<in> set (month_lengths y)" by simp
    then show ?thesis by (auto simp: month_lengths_def split: if_splits)
  qed
  have d: "1 \<le> d" "d \<le> 31" "d \<le> month_lengths y ! nat (m - 1)" using cd ml by simp_all
  have sod: "0 \<le> sod div 3600" "sod div 3600 \<le> 23" "0 \<le> sod mod 3600 div 60" "sod mod 3600 div 60 \<le> 59"
    "0 \<le> sod mod 60" "sod mod 60 \<le> 59"
    using pos_mod_bound [of 86400 "t div 1000000000"] pos_mod_sign [of 86400 "t div 1000000000"]
    unfolding sod_def [symmetric] by (auto simp: pos_imp_zdiv_nonneg_iff)
  have hms: "x div 3600 * 3600 + x mod 3600 div 60 * 60 + x mod 60 = x" for x :: int
  proof -
    have "x mod 3600 mod 60 = x mod 60" by (rule mod_mod_cancel) simp
    then show ?thesis using div_mult_mod_eq [of x 3600] div_mult_mod_eq [of "x mod 3600" 60] by linarith
  qed
  have sum: "days_of_civil y m d * 86400 + sod div 3600 * 3600 + sod mod 3600 div 60 * 60 + sod mod 60 = t div 1000000000"
  proof -
    have "days_of_civil y m d = t div 1000000000 div 86400" using cd by blast
    then show ?thesis using hms [of sod] div_mult_mod_eq [of "t div 1000000000" 86400] unfolding sod_def by linarith
  qed
  have "time_Parse_RFC3339 (pad_dec 4 y @ ''-'' @ pad_dec 2 m @ ''-'' @ pad_dec 2 d @ ''T'' @
    pad_dec 2 (sod div 3600) @ '':'' @ pad_dec 2 (sod mod 3600 div 60) @ '':'' @ pad_dec 2 (sod mod 60) @ s) =
    Some ((days_of_civil y m d * 86400 + sod div 3600 * 3600 + sod mod 3600 div 60 * 60 + sod mod 60) * 1000000000 + ns)"
    using yr d sod cd f by (intro parse_fields) linarith+
  then show ?thesis unfolding sum by (simp only: minus_mod_eq_div_mult)
qed

lemma parse_format_RFC3339:
  assumes "four_digit_year t"
  shows "time_Parse_RFC3339 (time_Format_RFC3339 t) = Some (t - t mod 1000000000)"
proof -
  obtain y m d where c: "civil (t div 1000000000 div 86400) = (y, m, d)" by (metis prod_cases3)
  show ?thesis
    using parse_civil [OF assms c get_fraction_none] by (simp add: time_Format_RFC3339_def c Let_def)
qed

lemma parse_format_RFC3339Nano:
  assumes "four_digit_year t"
  shows "time_Parse_RFC3339 (time_Format_RFC3339Nano t) = Some t"
proof -
  obtain y m d where c: "civil (t div 1000000000 div 86400) = (y, m, d)" by (metis prod_cases3)
  have "get_fraction (format_fraction (t mod 1000000000) @ ''Z'') = (t mod 1000000000, ''Z'')"
    by (rule get_fraction_format) simp_all
  from parse_civil [OF assms c this] show ?thesis by (simp add: time_Format_RFC3339Nano_def c Let_def)
qed

lemma graphic_RFC3339Nano: "list_all graphic (time_Format_RFC3339Nano t)"
proof -
  have c: "graphic CHR ''-''" "graphic CHR ''T''" "graphic CHR '':''" "graphic CHR ''Z''" "graphic CHR ''.''"
    by (simp_all add: graphic_def)
  have "set (trim_zeros s) \<subseteq> set s" for s
    using trim_zeros_split [of s] by (metis Un_upper1 set_append)
  then have "list_all graphic (trim_zeros (pad_dec 9 n))" for n
    using graphic_pad_dec [of 9 n] by (auto simp: list_all_iff)
  then have "list_all graphic (format_fraction n)" for n by (simp add: format_fraction_def Let_def c)
  then show ?thesis
    by (simp add: time_Format_RFC3339Nano_def Let_def graphic_pad_dec c split: prod.split)
qed

end
