(* ===== verification/Go_Codec.thy ===== *)
theory Go_Codec
  imports Go_Parse
begin

text \<open>
  Encodings of the standard library: structs with string and integer fields in \<open>encoding/json\<close>, JSON
  as text, \<open>base64.RawURLEncoding\<close> and \<open>sha256.Sum256\<close>.
\<close>

section \<open>Structs with integers\<close>

definition strconv_Itoa :: "int \<Rightarrow> string" where
  "strconv_Itoa i = pad_dec 0 i"

definition json_int :: "int \<Rightarrow> json" where
  "json_int i = JNum (strconv_Itoa i)"

text \<open>\<open>strconv.ParseInt(literal, 10, 64)\<close> on a JSON number literal.\<close>

definition parse_int64 :: "string \<Rightarrow> int option" where
  "parse_int64 s =
     (let neg = (s \<noteq> [] \<and> hd s = CHR ''-''); ds = (if neg then tl s else s);
          i = (if neg then - atoi_digits ds else atoi_digits ds)
      in if ds \<noteq> [] \<and> list_all digit_char ds \<and> - (2 ^ 63) \<le> i \<and> i < 2 ^ 63 then Some i else None)"

definition int64 :: "int \<Rightarrow> bool" where
  "int64 i \<longleftrightarrow> - (2 ^ 63) \<le> i \<and> i < 2 ^ 63"

lemma hd_dec [simp]: "digit_char (hd (dec n))" "hd (dec n) \<noteq> CHR ''-''"
proof -
  show "digit_char (hd (dec n))" using digits_dec [of n] by (metis dec_ne list.set_sel(1) list_all_iff)
  moreover have "\<not> digit_char CHR ''-''" by (simp add: digit_char_def)
  ultimately show "hd (dec n) \<noteq> CHR ''-''" by metis
qed

lemma parse_int64_Itoa [simp]: "int64 i \<Longrightarrow> parse_int64 (strconv_Itoa i) = Some i"
proof -
  assume i: "int64 i"
  then show ?thesis
    using i by (simp add: parse_int64_def strconv_Itoa_def pad_dec_def Let_def digits_dec int64_def)
qed

datatype field_kind = StringField | IntField

definition field_value :: "field_kind \<Rightarrow> json \<Rightarrow> json option option" where
  "field_value k v =
     (case (k, v) of
        (_, JNull) \<Rightarrow> Some None
      | (StringField, JStr s) \<Rightarrow> Some (Some (JStr s))
      | (IntField, JNum l) \<Rightarrow> map_option (\<lambda>i. Some (json_int i)) (parse_int64 l)
      | _ \<Rightarrow> None)"

fun unmarshal_fields ::
  "(string \<times> field_kind) list \<Rightarrow> (string \<times> json) list \<Rightarrow> (string \<times> json) list \<Rightarrow> (string \<times> json) list option" where
  "unmarshal_fields fs [] acc = Some acc"
| "unmarshal_fields fs ((k, v) # ms) acc =
     (case find (\<lambda>f. json_fold (fst f) = json_fold k) fs of
        None \<Rightarrow> unmarshal_fields fs ms acc
      | Some (f, kind) \<Rightarrow>
          (case field_value kind v of
             None \<Rightarrow> None
           | Some None \<Rightarrow> unmarshal_fields fs ms acc
           | Some (Some x) \<Rightarrow> unmarshal_fields fs ms (AList.update f x acc)))"

definition json_Unmarshal_fields :: "(string \<times> field_kind) list \<Rightarrow> json option \<Rightarrow> (string \<times> json) list option" where
  "json_Unmarshal_fields fs raw =
     (case raw of
        Some (JObj ms) \<Rightarrow> unmarshal_fields fs ms []
      | Some JNull \<Rightarrow> Some []
      | _ \<Rightarrow> None)"

definition str_field :: "(string \<times> json) list \<Rightarrow> string \<Rightarrow> string" where
  "str_field acc f = (case map_of acc f of Some (JStr s) \<Rightarrow> s | _ \<Rightarrow> [])"

definition int_field :: "(string \<times> json) list \<Rightarrow> string \<Rightarrow> int" where
  "int_field acc f = (case map_of acc f of Some (JNum l) \<Rightarrow> (case parse_int64 l of Some i \<Rightarrow> i | None \<Rightarrow> 0) | _ \<Rightarrow> 0)"

text \<open>A value as the field of a struct encodes it.\<close>

definition encoded_as :: "field_kind \<Rightarrow> json \<Rightarrow> bool" where
  "encoded_as k v \<longleftrightarrow> (case k of StringField \<Rightarrow> (\<exists>s. v = JStr s) | IntField \<Rightarrow> (\<exists>i. int64 i \<and> v = json_int i))"

lemma field_value_encoded: "encoded_as k v \<Longrightarrow> field_value k v = Some (Some v)"
  by (auto simp: encoded_as_def field_value_def json_int_def split: field_kind.splits)

lemma find_field:
  "distinct (map (json_fold \<circ> fst) fs) \<Longrightarrow> (k, kd) \<in> set fs \<Longrightarrow>
   find (\<lambda>f. json_fold (fst f) = json_fold k) fs = Some (k, kd)"
  by (induction fs) (auto simp: image_iff)

lemma unmarshal_fields_object:
  assumes "distinct (map (json_fold \<circ> fst) fs)"
    and "\<And>k v. (k, v) \<in> set ms \<Longrightarrow> \<exists>kd. (k, kd) \<in> set fs \<and> encoded_as kd v"
  shows "unmarshal_fields fs ms acc = Some (foldl (\<lambda>a (k, v). AList.update k v a) acc ms)"
  using assms(2)
proof (induction ms arbitrary: acc)
  case (Cons m ms)
  obtain k v where m: "m = (k, v)" by fastforce
  obtain kd where kd: "(k, kd) \<in> set fs" "encoded_as kd v" using Cons.prems [of k v] m by auto
  have "find (\<lambda>f. json_fold (fst f) = json_fold k) fs = Some (k, kd)"
    by (rule find_field [OF assms(1) kd(1)])
  with Cons m field_value_encoded [OF kd(2)] show ?case by simp
qed simp

lemma json_fields_roundtrip:
  assumes "list_all plain_name (map fst fs)" and "distinct (map fst fs)" and "distinct (map fst ms)"
    and "list_all (\<lambda>(k, v). \<exists>kd. (k, kd) \<in> set fs \<and> encoded_as kd v) ms"
  shows "\<exists>acc. json_Unmarshal_fields fs (Some (JObj ms)) = Some acc \<and> map_of acc = map_of ms"
proof -
  have "distinct (map (json_fold \<circ> fst) fs)"
    using distinct_fold [OF assms(1,2)] by simp
  moreover have "\<exists>kd. (k, kd) \<in> set fs \<and> encoded_as kd v" if "(k, v) \<in> set ms" for k v
    using assms(4) that by (auto simp: list_all_iff)
  ultimately have "unmarshal_fields fs ms [] = Some (foldl (\<lambda>a (k, v). AList.update k v a) [] ms)"
    by (rule unmarshal_fields_object)
  moreover have "map_of (rev ms) = map_of ms"
    using assms(3) by (simp add: map_of_inject_set distinct_map flip: rev_map)
  ultimately show ?thesis using map_of_foldl_update [of "[]" ms] by (simp add: json_Unmarshal_fields_def)
qed

section \<open>JSON as text\<close>

text \<open>\<open>utf8.AppendRune\<close> of a valid code point.\<close>

definition encode_rune :: "rune \<Rightarrow> string" where
  "encode_rune r = map char_of
     (if r < 0x80 then [r]
      else if r < 0x800 then [0xC0 + r div 64, 0x80 + r mod 64]
      else if r < 0x10000 then [0xE0 + r div 4096, 0x80 + r div 64 mod 64, 0x80 + r mod 64]
      else [0xF0 + r div 262144, 0x80 + r div 4096 mod 64, 0x80 + r div 64 mod 64, 0x80 + r mod 64])"

definition json_u4 :: "rune \<Rightarrow> string" where
  "json_u4 r = [CHR 0x5C, CHR ''u'', hex_digit (r div 4096 mod 16), hex_digit (r div 256 mod 16),
     hex_digit (r div 16 mod 16), hex_digit (r mod 16)]"

text \<open>\<open>json.Marshal\<close> escapes the HTML characters as well.\<close>

definition json_escape :: "rune \<times> string \<Rightarrow> string" where
  "json_escape u = (case u of (r, bs) \<Rightarrow>
     if r = runeError \<and> length bs = 1 then json_u4 runeError
     else if r = 0x2028 \<or> r = 0x2029 then json_u4 r
     else if r = 0x22 \<or> r = 0x5C then CHR 0x5C # bs
     else if r = 0x08 then [CHR 0x5C, CHR ''b'']
     else if r = 0x0C then [CHR 0x5C, CHR ''f'']
     else if r = 0x0A then [CHR 0x5C, CHR ''n'']
     else if r = 0x0D then [CHR 0x5C, CHR ''r'']
     else if r = 0x09 then [CHR 0x5C, CHR ''t'']
     else if r < 0x20 \<or> r = 0x3C \<or> r = 0x3E \<or> r = 0x26 then json_u4 r
     else bs)"

definition json_quote :: "string \<Rightarrow> string" where
  "json_quote s = CHR 0x22 # concat (map json_escape (runes s)) @ [CHR 0x22]"

fun join_with :: "string \<Rightarrow> string list \<Rightarrow> string" where
  "join_with sep [] = []"
| "join_with sep [s] = s"
| "join_with sep (s # ss) = s @ sep @ join_with sep ss"

function json_text :: "json \<Rightarrow> string" where
  "json_text JNull = ''null''"
| "json_text (JBool b) = (if b then ''true'' else ''false'')"
| "json_text (JNum l) = l"
| "json_text (JStr s) = json_quote s"
| "json_text (JArr vs) = ''['' @ join_with '','' (map json_text vs) @ '']''"
| "json_text (JObj ms) = CHR 0x7B # join_with '','' (map (\<lambda>m. json_quote (fst m) @ '':'' @ json_text (snd m)) ms) @ [CHR 0x7D]"
  by pat_completeness auto

lemma json_size_elem: "v \<in> set vs \<Longrightarrow> size v < size (JArr vs)"
  by (induction vs) auto

lemma json_size_member: "m \<in> set ms \<Longrightarrow> size (snd m) < size (JObj ms)"
  by (induction ms) (auto simp: prod.size_neq)

termination json_text
  by (relation "measure size") (auto dest: json_size_elem json_size_member)

section \<open>Parsing JSON\<close>

definition json_space :: "char \<Rightarrow> bool" where
  "json_space c \<longleftrightarrow> byte_of c \<in> {0x20, 0x09, 0x0A, 0x0D :: nat}"

definition skip_space :: "string \<Rightarrow> string" where
  "skip_space s = dropWhile json_space s"

definition get_u4 :: "string \<Rightarrow> (nat \<times> string) option" where
  "get_u4 s =
     (case s of
        a # b # c # d # s' \<Rightarrow>
          (case (hex_val a, hex_val b, hex_val c, hex_val d) of
             (Some w, Some x, Some y, Some z) \<Rightarrow> Some (4096 * w + 256 * x + 16 * y + z, s')
           | _ \<Rightarrow> None)
      | _ \<Rightarrow> None)"

definition surrogate :: "nat \<Rightarrow> bool" where
  "surrogate r \<longleftrightarrow> 0xD800 \<le> r \<and> r < 0xE000"

text \<open>A surrogate pair is one rune; a lone surrogate is the replacement character.\<close>

definition unescape_u :: "nat \<Rightarrow> string \<Rightarrow> string \<times> string" where
  "unescape_u r s =
     (if \<not> surrogate r then (encode_rune r, s)
      else case s of
          b # u # s' \<Rightarrow>
            (case (if b = CHR 0x5C \<and> u = CHR ''u'' then get_u4 s' else None) of
               Some (r', s'') \<Rightarrow>
                 if r < 0xDC00 \<and> 0xDC00 \<le> r' \<and> r' < 0xE000
                 then (encode_rune (0x10000 + (r - 0xD800) * 1024 + (r' - 0xDC00)), s'')
                 else (encode_rune runeError, s)
             | None \<Rightarrow> (encode_rune runeError, s))
        | _ \<Rightarrow> (encode_rune runeError, s))"

definition unescape_char :: "char \<Rightarrow> char option" where
  "unescape_char c = map_of (zip ''bfnrt/'' (map char_of [0x08, 0x0C, 0x0A, 0x0D, 0x09, 0x2F :: nat]) @
     [(CHR 0x22, CHR 0x22), (CHR 0x5C, CHR 0x5C)]) c"

text \<open>The rest of a string after its opening quote; every step of the fuel reads at least one byte.\<close>

fun parse_chars :: "nat \<Rightarrow> string \<Rightarrow> (string \<times> string) option" where
  "parse_chars 0 s = None"
| "parse_chars (Suc n) s =
     (case s of
        [] \<Rightarrow> None
      | c # s1 \<Rightarrow>
          if c = CHR 0x22 then Some ([], s1)
          else if c = CHR 0x5C then
            (case s1 of
               [] \<Rightarrow> None
             | e # s2 \<Rightarrow>
                 if e = CHR ''u'' then
                   (case get_u4 s2 of
                      None \<Rightarrow> None
                    | Some (r, s3) \<Rightarrow>
                        (case unescape_u r s3 of (t, s4) \<Rightarrow>
                           map_option (\<lambda>(u, s'). (t @ u, s')) (parse_chars n s4)))
                 else
                   (case unescape_char e of
                      None \<Rightarrow> None
                    | Some d \<Rightarrow> map_option (\<lambda>(u, s'). (d # u, s')) (parse_chars n s2)))
          else if byte_of c < (0x20 :: nat) then None
          else
            (case decode_rune s of
               Some (r, w) \<Rightarrow> map_option (\<lambda>(u, s'). (take w s @ u, s')) (parse_chars n (drop w s))
             | None \<Rightarrow> map_option (\<lambda>(u, s'). (encode_rune runeError @ u, s')) (parse_chars n s1)))"

definition parse_quoted :: "string \<Rightarrow> (string \<times> string) option" where
  "parse_quoted s = (case s of c # s1 \<Rightarrow> if c = CHR 0x22 then parse_chars (length s) s1 else None | [] \<Rightarrow> None)"

definition read_digits :: "string \<Rightarrow> (string \<times> string) option" where
  "read_digits s = (if s \<noteq> [] \<and> digit_char (hd s) then Some (takeWhile digit_char s, dropWhile digit_char s) else None)"

definition read_exponent :: "string \<Rightarrow> (string \<times> string) option" where
  "read_exponent s =
     (case s of
        e # s1 \<Rightarrow>
          if e = CHR ''e'' \<or> e = CHR ''E'' then
            (let sgn = (s1 \<noteq> [] \<and> (hd s1 = CHR ''+'' \<or> hd s1 = CHR ''-''))
             in map_option (\<lambda>(ds, s'). (e # (if sgn then [hd s1] else []) @ ds, s'))
                  (read_digits (if sgn then tl s1 else s1)))
          else Some ([], s)
      | [] \<Rightarrow> Some ([], s))"

definition read_frac :: "string \<Rightarrow> (string \<times> string) option" where
  "read_frac s =
     (case s of
        c # s1 \<Rightarrow> if c = CHR ''.'' then map_option (\<lambda>(ds, s'). (c # ds, s')) (read_digits s1) else Some ([], s)
      | [] \<Rightarrow> Some ([], s))"

text \<open>A number literal: no leading zeros.\<close>

definition read_int :: "string \<Rightarrow> (string \<times> string) option" where
  "read_int s = (if s \<noteq> [] \<and> hd s = CHR ''0'' then Some ([hd s], tl s) else read_digits s)"

definition parse_number :: "string \<Rightarrow> (string \<times> string) option" where
  "parse_number s =
     (let neg = (s \<noteq> [] \<and> hd s = CHR ''-''); s1 = (if neg then tl s else s)
      in do {
        (ds, s2) \<leftarrow> read_int s1;
        (fr, s3) \<leftarrow> read_frac s2;
        (ex, s4) \<leftarrow> read_exponent s3;
        Some ((if neg then ''-'' else []) @ ds @ fr @ ex, s4)
      })"

text \<open>
  Values. Every call below another one has less fuel, and along a text each call reads at least one
  byte, so the length of the text is fuel enough. (The library also refuses a nesting deeper than 10000.)
\<close>

fun parse_value :: "nat \<Rightarrow> string \<Rightarrow> (json \<times> string) option"
  and parse_elements :: "nat \<Rightarrow> string \<Rightarrow> (json list \<times> string) option"
  and parse_members :: "nat \<Rightarrow> string \<Rightarrow> ((string \<times> json) list \<times> string) option" where
  "parse_value 0 s = None"
| "parse_value (Suc n) s =
     (let s = skip_space s in
      case s of
        [] \<Rightarrow> None
      | c # s1 \<Rightarrow>
          if c = CHR 0x22 then map_option (\<lambda>(t, s'). (JStr t, s')) (parse_quoted s)
          else if c = CHR 0x7B then
            (let s2 = skip_space s1 in
             if s2 \<noteq> [] \<and> hd s2 = CHR 0x7D then Some (JObj [], tl s2)
             else map_option (\<lambda>(ms, s'). (JObj ms, s')) (parse_members n s2))
          else if c = CHR ''['' then
            (let s2 = skip_space s1 in
             if s2 \<noteq> [] \<and> hd s2 = CHR '']'' then Some (JArr [], tl s2)
             else map_option (\<lambda>(vs, s'). (JArr vs, s')) (parse_elements n s2))
          else if take 4 s = ''true'' then Some (JBool True, drop 4 s)
          else if take 5 s = ''false'' then Some (JBool False, drop 5 s)
          else if take 4 s = ''null'' then Some (JNull, drop 4 s)
          else map_option (\<lambda>(l, s'). (JNum l, s')) (parse_number s))"
| "parse_elements 0 s = None"
| "parse_elements (Suc n) s = do {
     (v, s1) \<leftarrow> parse_value n s;
     let s2 = skip_space s1;
     (case s2 of
        c # s3 \<Rightarrow>
          if c = CHR '']'' then Some ([v], s3)
          else if c = CHR '','' then map_option (\<lambda>(vs, s'). (v # vs, s')) (parse_elements n s3)
          else None
      | [] \<Rightarrow> None)
   }"
| "parse_members 0 s = None"
| "parse_members (Suc n) s = do {
     (k, s1) \<leftarrow> parse_quoted (skip_space s);
     s2 \<leftarrow> skip_char CHR '':'' (skip_space s1);
     (v, s3) \<leftarrow> parse_value n s2;
     (case skip_space s3 of
        c # s4 \<Rightarrow>
          if c = CHR 0x7D then Some ([(k, v)], s4)
          else if c = CHR '','' then map_option (\<lambda>(ms, s'). ((k, v) # ms, s')) (parse_members n s4)
          else None
      | [] \<Rightarrow> None)
   }"

declare parse_value.simps(2) [simp del] parse_members.simps(2) [simp del] parse_elements.simps(2) [simp del]

definition json_parse :: "string \<Rightarrow> json option" where
  "json_parse s =
     (case parse_value (length s + 1) s of
        Some (v, s') \<Rightarrow> if skip_space s' = [] then Some v else None
      | None \<Rightarrow> None)"


section \<open>Flat objects read back\<close>

text \<open>Texts without escapes, as identifiers and instants are.\<close>

definition json_safe :: "char \<Rightarrow> bool" where
  "json_safe c \<longleftrightarrow> graphic c \<and> byte_of c \<notin> {0x22, 0x5C, 0x3C, 0x3E, 0x26 :: nat}"

lemma json_safe_ascii: "list_all json_safe s \<Longrightarrow> list_all (\<lambda>c. byte_of c < 0x80) s"
  by (auto simp: json_safe_def graphic_def list_all_iff)

lemma json_safe_not [simp]: "json_safe c \<Longrightarrow> c \<noteq> CHR 0x22" "json_safe c \<Longrightarrow> c \<noteq> CHR 0x5C"
  by (auto simp: json_safe_def)

lemma json_quote_safe: "list_all json_safe s \<Longrightarrow> json_quote s = CHR 0x22 # s @ [CHR 0x22]"
proof -
  assume s: "list_all json_safe s"
  have "concat (map json_escape (map (\<lambda>c. (byte_of c, [c])) s)) = s"
    using s by (induction s) (auto simp: json_escape_def json_safe_def graphic_def runeError_def)
  then show ?thesis using runes_ascii [OF json_safe_ascii [OF s]] by (simp add: json_quote_def)
qed

lemma parse_chars_safe:
  "list_all json_safe s \<Longrightarrow> length s < n \<Longrightarrow> parse_chars n (s @ CHR 0x22 # t) = Some (s, t)"
proof (induction s arbitrary: n)
  case Nil
  then show ?case by (cases n) simp_all
next
  case (Cons c s)
  obtain m where m: "n = Suc m" using Cons.prems by (cases n) auto
  have "byte_of c < (0x80 :: nat)" "\<not> byte_of c < (0x20 :: nat)"
    using Cons.prems by (auto simp: json_safe_def graphic_def)
  then have "decode_rune (c # s @ CHR 0x22 # t) = Some (byte_of c, 1)"
    by (simp add: decode_rune.simps(2) Let_def)
  then show ?case using Cons m \<open>\<not> byte_of c < _\<close> by simp
qed

lemma parse_quoted_safe: "list_all json_safe s \<Longrightarrow> parse_quoted (json_quote s @ t) = Some (s, t)"
  using parse_chars_safe [of s "length (json_quote s @ t)" t] by (simp add: json_quote_safe parse_quoted_def)

lemma hd_dec_nonzero: "0 < n \<Longrightarrow> hd (dec n) \<noteq> CHR ''0''"
proof (induction n rule: dec.induct)
  case (1 n)
  show ?case
  proof (cases "n < 10")
    case True
    then have "byte_of (dec_digit n) = 0x30 + n" by (simp add: dec_digit_def of_char_of)
    then have "dec_digit n \<noteq> CHR ''0''" using 1(2) by auto
    then show ?thesis using True by (subst dec.simps) simp
  next
    case False
    then show ?thesis using 1(1) by (subst dec.simps) simp
  qed
qed

definition ends_number :: "string \<Rightarrow> bool" where
  "ends_number t \<longleftrightarrow> t = [] \<or> \<not> digit_char (hd t) \<and> hd t \<noteq> CHR ''.'' \<and> hd t \<noteq> CHR ''e'' \<and> hd t \<noteq> CHR ''E''"

lemma take_dec_digits:
  assumes "ends_number t"
  shows "takeWhile digit_char (dec n @ t) = dec n" and "dropWhile digit_char (dec n @ t) = t"
  using digits_dec [of n] assms
  by (cases t; auto simp: takeWhile_append dropWhile_append list_all_iff ends_number_def)+

lemma dec_zero: "dec 0 = ''0''"
proof -
  have "dec_digit 0 = CHR ''0''" by code_simp
  then show ?thesis by (subst dec.simps) simp
qed

lemma read_int_dec:
  assumes "ends_number t"
  shows "read_int (dec n @ t) = Some (dec n, t)"
proof (cases "n = 0")
  case False
  then have "hd (dec n @ t) \<noteq> CHR ''0''" using hd_dec_nonzero [of n] by simp
  then show ?thesis using take_dec_digits [OF assms, of n] by (simp add: read_int_def read_digits_def)
qed (simp add: dec_zero read_int_def)

lemma parse_number_Itoa:
  assumes t: "ends_number t"
  shows "parse_number (strconv_Itoa i @ t) = Some (strconv_Itoa i, t)"
proof -
  have "read_frac t = Some ([], t)" "read_exponent t = Some ([], t)"
    using t by (cases t; auto simp: read_frac_def read_exponent_def ends_number_def)+
  then show ?thesis
    by (simp add: parse_number_def strconv_Itoa_def pad_dec_def Let_def read_int_dec [OF t])
qed

definition flat_value :: "json \<Rightarrow> bool" where
  "flat_value v \<longleftrightarrow> (\<exists>s. v = JStr s \<and> list_all json_safe s) \<or> (\<exists>i. v = json_int i)"

definition flat_member :: "string \<times> json \<Rightarrow> bool" where
  "flat_member m \<longleftrightarrow> list_all json_safe (fst m) \<and> flat_value (snd m)"

lemma number_start: "s = strconv_Itoa i \<Longrightarrow> s \<noteq> [] \<and> (digit_char (hd s) \<or> hd s = CHR ''-'')"
  by (auto simp: strconv_Itoa_def pad_dec_def Let_def)

lemma digit_char_not:
  assumes "digit_char c \<or> c = CHR ''-''"
  shows "\<not> json_space c" "c \<noteq> CHR 0x22" "c \<noteq> CHR 0x7B" "c \<noteq> CHR ''[''" "c \<noteq> CHR ''t''" "c \<noteq> CHR ''f''" "c \<noteq> CHR ''n''"
  using assms by (auto simp: digit_char_def json_space_def)

lemma parse_value_flat:
  assumes v: "flat_value v" and t: "ends_number t"
  shows "parse_value (Suc n) (json_text v @ t) = Some (v, t)"
proof (cases "\<exists>s. v = JStr s \<and> list_all json_safe s")
  case True
  then obtain s where s: "v = JStr s" "list_all json_safe s" by blast
  have "skip_space (json_quote s @ t) = json_quote s @ t"
    by (simp add: json_quote_safe [OF s(2)] skip_space_def json_space_def)
  then show ?thesis
    using s parse_quoted_safe [OF s(2), of t] by (simp add: parse_value.simps(2) json_quote_safe [OF s(2)])
next
  case False
  then obtain i where i: "v = json_int i" using v by (auto simp: flat_value_def)
  obtain c s where c: "strconv_Itoa i = c # s" "digit_char c \<or> c = CHR ''-''"
    using number_start [OF refl, of i] by (cases "strconv_Itoa i") auto
  note d = digit_char_not [OF c(2)]
  have "skip_space (strconv_Itoa i @ t) = strconv_Itoa i @ t" using d by (simp add: c skip_space_def)
  then show ?thesis
    using parse_number_Itoa [OF t, of i] d by (simp add: parse_value.simps(2) i json_int_def c numeral_eq_Suc)
qed

lemma parse_members_flat:
  assumes "ms \<noteq> []" and "list_all flat_member ms" and "length ms < n"
  shows "parse_members n (join_with '','' (map (\<lambda>m. json_quote (fst m) @ '':'' @ json_text (snd m)) ms) @ CHR 0x7D # t) =
    Some (ms, t)"
  using assms
proof (induction ms arbitrary: n)
  case (Cons m ms)
  obtain k v where m: "m = (k, v)" by fastforce
  obtain n' where n: "n = Suc (Suc n')" using Cons.prems(3) by (cases n; cases "n - 1") auto
  have kv: "list_all json_safe k" "flat_value v" using Cons.prems(2) m by (simp_all add: flat_member_def)
  have sp: "skip_space (json_quote k @ s) = json_quote k @ s" "skip_space ('':'' @ s) = '':'' @ s"
    "skip_space (CHR '','' # s) = CHR '','' # s" "skip_space (CHR 0x7D # s) = CHR 0x7D # s" for s
    using kv(1) by (simp_all add: skip_space_def json_space_def json_quote_safe)
  have en: "ends_number (CHR '','' # s)" "ends_number (CHR 0x7D # s)" for s
    by (simp_all add: ends_number_def digit_char_def)
  show ?case
  proof (cases "ms = []")
    case True
    then show ?thesis
      using kv sp en m by (simp add: n parse_members.simps(2) parse_quoted_safe parse_value_flat)
  next
    case False
    have ih: "parse_members (Suc n') (join_with '','' (map (\<lambda>m. json_quote (fst m) @ '':'' @ json_text (snd m)) ms) @ CHR 0x7D # t) = Some (ms, t)"
      using Cons.IH [OF False, of "Suc n'"] Cons.prems n by simp
    obtain x xs where ms: "ms = x # xs" using False by (cases ms) auto
    show ?thesis
      using kv sp en m ih unfolding ms by (simp add: n parse_members.simps(2) [of "Suc n'"] parse_quoted_safe parse_value_flat)
  qed
qed simp

lemma json_parse_flat:
  assumes "list_all flat_member ms"
  shows "json_parse (json_text (JObj ms)) = Some (JObj ms)"
proof (cases "ms = []")
  case True
  then show ?thesis by (simp add: json_parse_def parse_value.simps(2) skip_space_def json_space_def)
next
  case False
  let ?f = "\<lambda>m. json_quote (fst m) @ '':'' @ json_text (snd m)"
  have len: "length ms \<le> length (join_with '','' (map ?f ms))"
  proof (induction ms rule: induct_list012)
    case (3 x y zs)
    then show ?case by (simp add: json_quote_def)
  qed (simp_all add: json_quote_def)
  have "parse_members (length (json_text (JObj ms))) (join_with '','' (map ?f ms) @ [CHR 0x7D]) = Some (ms, [])"
    using len by (intro parse_members_flat [OF False assms, where t = "[]"]) simp
  moreover obtain x xs where ms: "ms = x # xs" using False by (cases ms) auto
  have "hd (join_with '','' (map ?f ms) @ [CHR 0x7D]) = CHR 0x22"
    "skip_space (join_with '','' (map ?f ms) @ [CHR 0x7D]) = join_with '','' (map ?f ms) @ [CHR 0x7D]"
    unfolding ms by (cases xs; simp add: json_quote_def skip_space_def json_space_def)+
  ultimately show ?thesis
    by (simp add: json_parse_def parse_value.simps(2)) (simp add: skip_space_def json_space_def)
qed


section \<open>Base64\<close>

text \<open>\<open>base64.RawURLEncoding\<close>: the URL alphabet, no padding.\<close>

definition b64_alphabet :: string where
  "b64_alphabet = ''ABCDEFGHIJKLMNOPQRSTUVWXYZabcdefghijklmnopqrstuvwxyz0123456789-_''"

definition b64_digit :: "nat \<Rightarrow> char" where
  "b64_digit n = b64_alphabet ! (n mod 64)"

fun b64_Encode :: "string \<Rightarrow> string" where
  "b64_Encode [] = []"
| "b64_Encode [a] = (let n = byte_of a * 16 in [b64_digit (n div 64), b64_digit n])"
| "b64_Encode [a, b] =
     (let n = byte_of a * 1024 + byte_of b * 4 in [b64_digit (n div 4096), b64_digit (n div 64), b64_digit n])"
| "b64_Encode (a # b # c # s) =
     (let n = byte_of a * 65536 + byte_of b * 256 + byte_of c
      in b64_digit (n div 262144) # b64_digit (n div 4096) # b64_digit (n div 64) # b64_digit n # b64_Encode s)"

text \<open>The decoder skips line ends and ignores the bits left over in the last digit.\<close>

definition b64_val :: "char \<Rightarrow> nat option" where
  "b64_val c = map_of (zip b64_alphabet [0..<64]) c"

fun b64_groups :: "nat list \<Rightarrow> string option" where
  "b64_groups [] = Some []"
| "b64_groups [_] = None"
| "b64_groups [a, b] = Some [char_of ((a * 64 + b) div 16)]"
| "b64_groups [a, b, c] = (let n = a * 4096 + b * 64 + c in Some [char_of (n div 1024), char_of (n div 4 mod 256)])"
| "b64_groups (a # b # c # d # ds) =
     (let n = a * 262144 + b * 4096 + c * 64 + d
      in map_option (\<lambda>s. char_of (n div 65536) # char_of (n div 256 mod 256) # char_of (n mod 256) # s) (b64_groups ds))"

definition b64_DecodeString :: "string \<Rightarrow> string option" where
  "b64_DecodeString s =
     (let cs = filter (\<lambda>c. byte_of c \<notin> {0x0A, 0x0D :: nat}) s
      in if list_all (\<lambda>c. b64_val c \<noteq> None) cs then b64_groups (map (\<lambda>c. the (b64_val c)) cs) else None)"

lemma b64_val_digit: "b64_val (b64_digit n) = Some (n mod 64)"
proof -
  have d: "distinct b64_alphabet" "length b64_alphabet = 64" by (simp_all add: b64_alphabet_def)
  have "map_of (zip b64_alphabet [0..<64]) (b64_alphabet ! (n mod 64)) = Some ([0..<64] ! (n mod 64))"
    by (rule map_of_zip_nth) (simp_all add: d)
  then show ?thesis by (simp add: b64_val_def b64_digit_def)
qed

lemma graphic_b64_digit: "graphic (b64_digit n)"
proof -
  have "list_all graphic b64_alphabet" by (simp add: b64_alphabet_def graphic_def)
  moreover have "b64_digit n \<in> set b64_alphabet"
    unfolding b64_digit_def by (rule nth_mem) (simp add: b64_alphabet_def)
  ultimately show ?thesis by (auto simp: list_all_iff)
qed

lemma graphic_b64_Encode: "list_all graphic (b64_Encode s)"
  by (induction s rule: b64_Encode.induct) (simp_all add: Let_def graphic_b64_digit)

lemma base64_digits:
  fixes n :: nat
  shows "(n div 262144 mod 64) * 262144 + (n div 4096 mod 64) * 4096 + (n div 64 mod 64) * 64 + n mod 64 =
    n mod 16777216"
proof -
  have q: "n div 4096 = n div 64 div 64" "n div 262144 = n div 64 div 64 div 64"
    "n mod 16777216 = 64 * (64 * (64 * (n div 64 div 64 div 64 mod 64) + n div 64 div 64 mod 64) + n div 64 mod 64) + n mod 64"
    using mod_mult2_eq [of n 64 262144] mod_mult2_eq [of "n div 64" 64 4096]
      mod_mult2_eq [of "n div 64 div 64" 64 64] by (simp_all flip: div_mult2_eq)
  show ?thesis unfolding q by simp
qed

lemma base64_digits3:
  fixes n :: nat
  assumes "n < 262144"
  shows "(n div 4096 mod 64) * 4096 + (n div 64 mod 64) * 64 + n mod 64 = n"
  using base64_digits [of n] div_less [OF assms] assms by simp

lemma byte_of_less: "byte_of (c :: char) < 256"
  using nat_of_char_less_256 [of c] by simp

lemma byte_triple:
  fixes a b c :: nat
  assumes "a < 256" and "b < 256" and "c < 256" and "n = a * 65536 + b * 256 + c"
  shows "n div 65536 = a" and "n div 256 mod 256 = b" and "n mod 256 = c" and "n mod 16777216 = n"
proof -
  have n: "n = (a * 256 + b) * 256 + c" using assms(4) by simp
  have d: "n div 256 = a * 256 + b" unfolding n using assms(3) by simp
  show "n div 65536 = a" using d assms(2) div_mult2_eq [of n 256 256] by simp
  show "n div 256 mod 256 = b" using d assms(2) by simp
  show "n mod 256 = c" unfolding n by (simp only: mod_mult_self3 mod_less [OF assms(3)])
  show "n mod 16777216 = n" using assms by simp
qed

lemma b64_groups_digits: "b64_groups (map (\<lambda>c. the (b64_val c)) (b64_Encode s)) = Some s"
proof (induction s rule: b64_Encode.induct)
  case (2 a)
  let ?n = "byte_of a * 16"
  have "?n div 64 mod 64 * 64 + ?n mod 64 = ?n"
  proof -
    have "?n div 64 < 64" by (rule less_mult_imp_div_less) (use byte_of_less [of a] in linarith)
    then have "?n div 64 mod 64 = ?n div 64" by (rule mod_less)
    then show ?thesis by (simp only: div_mult_mod_eq)
  qed
  then have "char_of ((?n div 64 mod 64 * 64 + ?n mod 64) div 16) = a" by (simp only:) simp
  then show ?case
    by (simp only: b64_Encode.simps Let_def list.map b64_val_digit option.sel b64_groups.simps)
next
  case (3 a b)
  let ?n = "byte_of a * 1024 + byte_of b * 4"
  have l: "byte_of a < 256" "byte_of b < 256" by (rule byte_of_less)+
  have "?n div 4096 mod 64 * 4096 + ?n div 64 mod 64 * 64 + ?n mod 64 = ?n"
    by (rule base64_digits3) (use l in linarith)
  moreover have "?n div 1024 = byte_of a" "?n div 4 mod 256 = byte_of b"
    using byte_triple [of "byte_of a" "byte_of b" 0 "?n * 64"] l by simp_all
  ultimately have
    "char_of ((?n div 4096 mod 64 * 4096 + ?n div 64 mod 64 * 64 + ?n mod 64) div 1024) = a"
    "char_of ((?n div 4096 mod 64 * 4096 + ?n div 64 mod 64 * 64 + ?n mod 64) div 4 mod 256) = b"
    by (simp_all only: char_of_char)
  then show ?case
    by (simp only: b64_Encode.simps Let_def list.map b64_val_digit option.sel b64_groups.simps)
next
  case (4 a b c s)
  let ?n = "byte_of a * 65536 + byte_of b * 256 + byte_of c"
  note t = byte_triple [OF byte_of_less byte_of_less byte_of_less, of ?n a b c]
  have "?n div 262144 mod 64 * 262144 + ?n div 4096 mod 64 * 4096 + ?n div 64 mod 64 * 64 + ?n mod 64 = ?n"
    unfolding base64_digits by (rule t(4)) simp
  then show ?case using 4
    by (simp only: b64_Encode.simps Let_def list.map b64_val_digit option.sel b64_groups.simps t(1-3)
      option.map char_of_char)
qed simp

lemma b64_roundtrip [simp]: "b64_DecodeString (b64_Encode s) = Some s"
proof -
  have "list_all (\<lambda>c. b64_val c \<noteq> None) (b64_Encode s)"
    by (induction s rule: b64_Encode.induct) (simp_all add: Let_def b64_val_digit)
  moreover have "filter (\<lambda>c. byte_of c \<notin> {0x0A, 0x0D :: nat}) (b64_Encode s) = b64_Encode s"
    using graphic_b64_Encode [of s] by (intro filter_True) (auto simp: list_all_iff graphic_def)
  ultimately show ?thesis by (simp add: b64_DecodeString_def b64_groups_digits)
qed

lemma length_b64_Encode: "length s \<le> length (b64_Encode s)"
  by (induction s rule: b64_Encode.induct) (simp_all add: Let_def del: One_nat_def)

section \<open>SHA-256\<close>

type_synonym word32 = "32 word"

text \<open>
  The constants are the first 32 bits of the fractional parts of roots of primes: \<open>root_bits k n b r\<close> adds
  to \<open>r\<close> the lower \<open>b\<close> bits of the \<open>k\<close>-th root of \<open>n\<close>, most significant first.
\<close>

fun root_bits :: "nat \<Rightarrow> nat \<Rightarrow> nat \<Rightarrow> nat \<Rightarrow> nat" where
  "root_bits k n 0 r = r"
| "root_bits k n (Suc b) r = root_bits k n b (if (r + 2 ^ b) ^ k \<le> n then r + 2 ^ b else r)"

definition root_fraction :: "nat \<Rightarrow> nat \<Rightarrow> word32" where
  "root_fraction k p = word_of_nat (root_bits k (p * 2 ^ (32 * k)) 40 0)"

definition primes_below :: "nat \<Rightarrow> nat list" where
  "primes_below n = filter (\<lambda>p. list_all (\<lambda>d. p mod d \<noteq> 0) [2..<p]) [2..<n]"

definition sha256_K :: "word32 list" where
  "sha256_K = map (root_fraction 3) (primes_below 312)"

definition sha256_H0 :: "word32 list" where
  "sha256_H0 = map (root_fraction 2) (primes_below 20)"

fun big_endian32 :: "byte list \<Rightarrow> word32 list" where
  "big_endian32 (a # b # c # d # bs) =
     word_of_nat (unat a * 16777216 + unat b * 65536 + unat c * 256 + unat d) # big_endian32 bs"
| "big_endian32 _ = []"

definition word_bytes :: "word32 \<Rightarrow> byte list" where
  "word_bytes w = (let n = unat w in map word_of_nat [n div 16777216, n div 65536 mod 256, n div 256 mod 256, n mod 256])"

definition sha256_pad :: "byte list \<Rightarrow> byte list" where
  "sha256_pad bs =
     (let n = length bs; bits = 8 * n
      in bs @ [0x80] @ replicate ((119 - n mod 64) mod 64) 0 @
         map (\<lambda>i. word_of_nat (bits div 256 ^ i mod 256)) (rev [0..<8]))"

text \<open>The message schedule, most recent word first.\<close>

definition sha256_extend :: "word32 list \<Rightarrow> word32 list" where
  "sha256_extend ws =
     (let s0 = word_rotr 7 (ws ! 14) XOR word_rotr 18 (ws ! 14) XOR drop_bit 3 (ws ! 14);
          s1 = word_rotr 17 (ws ! 1) XOR word_rotr 19 (ws ! 1) XOR drop_bit 10 (ws ! 1)
      in (ws ! 15 + s0 + ws ! 6 + s1) # ws)"

definition sha256_schedule :: "word32 list \<Rightarrow> word32 list" where
  "sha256_schedule block = rev ((sha256_extend ^^ 48) (rev block))"

fun sha256_round :: "word32 \<times> word32 \<Rightarrow> word32 list \<Rightarrow> word32 list" where
  "sha256_round (k, w) [a, b, c, d, e, f, g, h] =
     (let s1 = word_rotr 6 e XOR word_rotr 11 e XOR word_rotr 25 e;
          ch = (e AND f) XOR (NOT e AND g);
          t1 = h + s1 + ch + k + w;
          s0 = word_rotr 2 a XOR word_rotr 13 a XOR word_rotr 22 a;
          maj = (a AND b) XOR (a AND c) XOR (b AND c)
      in [t1 + s0 + maj, a, b, c, d + t1, e, f, g])"
| "sha256_round _ st = st"

fun sha256_blocks :: "nat \<Rightarrow> word32 list \<Rightarrow> word32 list \<Rightarrow> word32 list" where
  "sha256_blocks 0 ws st = st"
| "sha256_blocks (Suc n) ws st =
     sha256_blocks n (drop 16 ws)
       (map2 (+) st (fold sha256_round (zip sha256_K (sha256_schedule (take 16 ws))) st))"

definition sha256_Sum256 :: "byte list \<Rightarrow> byte list" where
  "sha256_Sum256 bs =
     (let ws = big_endian32 (sha256_pad bs)
      in concat (map word_bytes (sha256_blocks (length ws div 16) ws sha256_H0)))"

lemma length_sha256_round: "length (sha256_round kw st) = length st"
  by (induction kw st rule: sha256_round.induct) (simp_all add: Let_def)

lemma length_sha256_Sum256 [simp]: "length (sha256_Sum256 bs) = 32"
proof -
  have f: "length (fold sha256_round kws st) = length st" for kws st
    by (induction kws arbitrary: st) (simp_all add: length_sha256_round)
  have b: "length (sha256_blocks n ws st) = length st" for n ws st
    by (induction n arbitrary: ws st) (simp_all add: f)
  have "length (primes_below 20) = 8" by code_simp
  then have h: "length sha256_H0 = 8" by (simp add: sha256_H0_def)
  have "length (concat (map word_bytes ws)) = 4 * length ws" for ws
    by (induction ws) (simp_all add: word_bytes_def Let_def)
  then show ?thesis by (simp add: sha256_Sum256_def Let_def b h)
qed

end
