(* ===== verification/Listing_Ref.thy ===== *)
theory Listing_Ref
  imports Outbox Go_Codec
begin

text \<open>
  What the package \<open>listings\<close> shows to other packages (\<open>listings/contracts/ownership.go\<close> and
  \<open>moderation.go\<close>): the owner and the visibility of a listing. The lookup itself is a parameter of its
  clients. With it, the helpers on strings and lists that the packages around listings share.
\<close>

section \<open>References to listings\<close>

definition StatusPublished :: string where "StatusPublished = ''published''"

definition ModerationStateNone :: string where "ModerationStateNone = ''none''"
definition ModerationStateRestricted :: string where "ModerationStateRestricted = ''restricted''"
definition ModerationStateRemoved :: string where "ModerationStateRemoved = ''removed''"

record listing_ref =
  lr_ID :: ID
  lr_OwnerUserID :: ID
  lr_Status :: string
  lr_ModerationState :: string

definition NormalizeModerationState :: "string \<Rightarrow> string" where
  "NormalizeModerationState raw =
     (let state = strings_TrimSpace raw in if state = [] then ModerationStateNone else state)"

definition PubliclyVisible :: "string \<Rightarrow> string \<Rightarrow> bool" where
  "PubliclyVisible status moderationState \<longleftrightarrow>
     status = StatusPublished \<and> NormalizeModerationState moderationState = ModerationStateNone"

definition ListingRef_PubliclyVisible :: "listing_ref \<Rightarrow> bool" where
  "ListingRef_PubliclyVisible r = PubliclyVisible (lr_Status r) (lr_ModerationState r)"

text \<open>The lookup \<open>ResolveListingOwner\<close> of the interface \<open>Ownership\<close>.\<close>

type_synonym 'w ownership = "ctx \<Rightarrow> ID \<Rightarrow> ('w, listing_ref) go"

section \<open>Shared helpers\<close>

text \<open>
  \<open>strings.ToLower\<close> on the runes that have a lower-case letter in ASCII (upper-case ASCII, U+0130 and
  U+212A). The other runes beyond ASCII lower to runes beyond ASCII that are no spaces, so trimming
  the result and comparing it with an ASCII word does not depend on them; they are left as they are.
\<close>

definition strings_ToLower :: "string \<Rightarrow> string" where
  "strings_ToLower s =
     concat (map (\<lambda>u. if lower_rune (fst u) < 0x80 then [char_of (lower_rune (fst u))] else snd u) (runes s))"

lemma ToLower_plain:
  assumes "list_all (\<lambda>c. graphic c \<and> \<not> (0x41 \<le> byte_of c \<and> byte_of c \<le> (0x5A :: nat))) s"
  shows "strings_ToLower s = s" and "strings_TrimSpace s = s"
proof -
  have "list_all (\<lambda>c. byte_of c < 0x80) s"
    using assms by (auto simp: list_all_iff graphic_def)
  then have "strings_ToLower s =
      concat (map (\<lambda>c. if lower_rune (byte_of c) < 0x80 then [char_of (lower_rune (byte_of c))] else [c]) s)"
    by (simp add: strings_ToLower_def runes_ascii comp_def cong: if_cong)
  also have "map (\<lambda>c. if lower_rune (byte_of c) < 0x80 then [char_of (lower_rune (byte_of c))] else [c]) s = map (\<lambda>c. [c]) s"
    using assms by (auto simp: list_all_iff lower_rune_def graphic_def)
  finally show "strings_ToLower s = s" by simp
  show "strings_TrimSpace s = s" using assms by (intro TrimSpace_graphic) (auto simp: list_all_iff)
qed

text \<open>Newest first, ties by descending identifier (\<open>sort.Slice\<close> on the text of the identifiers).\<close>

definition recent_first :: "('a \<Rightarrow> time) \<Rightarrow> ('a \<Rightarrow> ID) \<Rightarrow> 'a list \<Rightarrow> 'a list" where
  "recent_first stamp ident xs = rev (sort_key (\<lambda>x. (stamp x, ident x)) xs)"

lemma set_recent_first [simp]: "set (recent_first c i xs) = set xs"
  by (simp add: recent_first_def)

lemma length_recent_first [simp]: "length (recent_first c i xs) = length xs"
  by (simp add: recent_first_def)

text \<open>\<open>if limit > 0 && len(out) > limit { out = out[:limit] }\<close>\<close>

definition limit_to :: "int \<Rightarrow> 'a list \<Rightarrow> 'a list" where
  "limit_to limit xs = (if 0 < limit \<and> limit < int (length xs) then take (nat limit) xs else xs)"

lemma limit_to_subset: "set (limit_to n xs) \<subseteq> set xs"
  by (auto simp: limit_to_def dest: in_set_takeD)

text \<open>The bytes of a Go string and back.\<close>

definition string_bytes :: "string \<Rightarrow> byte list" where
  "string_bytes s = map (\<lambda>c. word_of_nat (byte_of c)) s"

definition bytes_string :: "byte list \<Rightarrow> string" where
  "bytes_string bs = map (\<lambda>b. char_of (unat b)) bs"

lemma string_bytes_bytes_string [simp]: "string_bytes (bytes_string bs) = bs"
proof -
  have "unat (b :: byte) mod 256 = unat b" for b
    using unsigned_less [of b, where ?'a = nat] by simp
  then show ?thesis by (simp add: string_bytes_def bytes_string_def of_char_of map_idI comp_def)
qed

lemma length_bytes_string [simp]: "length (bytes_string bs) = length bs"
  by (simp add: bytes_string_def)

lemma length_string_bytes [simp]: "length (string_bytes bs) = length bs"
  by (simp add: string_bytes_def)

lemma string_bytes_inject: "string_bytes s = string_bytes t \<longleftrightarrow> s = t"
proof -
  have "c = d" if "(word_of_nat (byte_of c) :: byte) = word_of_nat (byte_of d)" for c d :: char
  proof -
    have b: "byte_of x < 256" for x :: char by (rule byte_of_less)
    have "unat (word_of_nat (byte_of c) :: byte) = byte_of c" "unat (word_of_nat (byte_of d) :: byte) = byte_of d"
      using b [of c] b [of d] by (simp_all add: unat_of_nat)
    then show ?thesis using that by (metis of_char_eq_iff)
  qed
  then have "inj (\<lambda>c. word_of_nat (byte_of c) :: byte)" by (rule injI)
  then show ?thesis unfolding string_bytes_def by (simp add: inj_map_eq_map)
qed

end
