(* ===== verification/Verified.thy ===== *)
theory Verified
  imports Listing_Ref
begin

text \<open>
  The package \<open>verified\<close>: appointments to inspect a listing, verification flows for a transaction or a
  delivery, and the interactions that two parties confirm by presenting the secret of a challenge
  (\<open>domain.go\<close>), the in-memory store (\<open>memory.go\<close>), the service (\<open>service.go\<close>), the event (\<open>events.go\<close>,
  \<open>contracts/events.go\<close>) and the read surface (\<open>contract.go\<close>, \<open>contracts/interactions.go\<close>).
\<close>

section \<open>Data\<close>

definition VerRequested :: string where "VerRequested = ''requested''"
definition VerAccepted :: string where "VerAccepted = ''accepted''"
definition VerRejected :: string where "VerRejected = ''rejected''"
definition VerCancelled :: string where "VerCancelled = ''cancelled''"
definition VerCompleted :: string where "VerCompleted = ''completed''"
definition VerNoShow :: string where "VerNoShow = ''no_show''"

lemmas ver_status_defs = VerRequested_def VerAccepted_def VerRejected_def VerCancelled_def VerCompleted_def
  VerNoShow_def

lemma ver_status_neq [simp]:
  "VerRequested \<noteq> VerAccepted" "VerRequested \<noteq> VerRejected" "VerRequested \<noteq> VerCancelled" "VerRequested \<noteq> VerCompleted" "VerRequested \<noteq> VerNoShow"
  "VerAccepted \<noteq> VerRequested" "VerAccepted \<noteq> VerRejected" "VerAccepted \<noteq> VerCancelled" "VerAccepted \<noteq> VerCompleted" "VerAccepted \<noteq> VerNoShow"
  "VerRejected \<noteq> VerRequested" "VerRejected \<noteq> VerAccepted" "VerRejected \<noteq> VerCancelled" "VerRejected \<noteq> VerCompleted" "VerRejected \<noteq> VerNoShow"
  "VerCancelled \<noteq> VerRequested" "VerCancelled \<noteq> VerAccepted" "VerCancelled \<noteq> VerRejected" "VerCancelled \<noteq> VerCompleted" "VerCancelled \<noteq> VerNoShow"
  "VerCompleted \<noteq> VerRequested" "VerCompleted \<noteq> VerAccepted" "VerCompleted \<noteq> VerRejected" "VerCompleted \<noteq> VerCancelled" "VerCompleted \<noteq> VerNoShow"
  "VerNoShow \<noteq> VerRequested" "VerNoShow \<noteq> VerAccepted" "VerNoShow \<noteq> VerRejected" "VerNoShow \<noteq> VerCancelled" "VerNoShow \<noteq> VerCompleted"
  by (simp_all add: ver_status_defs)
definition MethodOTP :: string where "MethodOTP = ''otp''"
definition MethodQR :: string where "MethodQR = ''qr''"

lemma ver_method_neq [simp]: "MethodOTP \<noteq> MethodQR" "MethodQR \<noteq> MethodOTP"
  by (simp_all add: MethodOTP_def MethodQR_def)

definition InteractionListingInspection :: string where "InteractionListingInspection = ''listing_inspection''"
definition InteractionTransaction :: string where "InteractionTransaction = ''transaction''"
definition InteractionDelivery :: string where "InteractionDelivery = ''delivery''"

lemmas ver_type_defs = InteractionListingInspection_def InteractionTransaction_def InteractionDelivery_def

lemma ver_type_neq [simp]:
  "InteractionListingInspection \<noteq> InteractionTransaction" "InteractionListingInspection \<noteq> InteractionDelivery"
  "InteractionTransaction \<noteq> InteractionListingInspection" "InteractionTransaction \<noteq> InteractionDelivery"
  "InteractionDelivery \<noteq> InteractionListingInspection" "InteractionDelivery \<noteq> InteractionTransaction"
  by (simp_all add: ver_type_defs)
definition FlowOpen :: string where "FlowOpen = ''open''"
definition FlowCompleted :: string where "FlowCompleted = ''completed''"

lemma ver_flow_neq [simp]: "FlowOpen \<noteq> FlowCompleted" "FlowCompleted \<noteq> FlowOpen"
  by (simp_all add: FlowOpen_def FlowCompleted_def)

definition ver_MaxAppointments :: int where "ver_MaxAppointments = 50"
definition ver_MaxVerificationFlows :: int where "ver_MaxVerificationFlows = 50"
definition TokenSecretBytes :: nat where "TokenSecretBytes = 32"
definition TokenHashSize :: nat where "TokenHashSize = 32"
definition MaxOTPDigits :: int where "MaxOTPDigits = 12"

definition ver_ParseID :: "string \<Rightarrow> ID res" where
  "ver_ParseID = ParseID (VerErr Ver_errZeroID) (VerErr Ver_errZeroID)"

record ver_policy =
  vp_ChallengeTTL :: duration
  vp_OTPDigits :: int

definition ver_policy_Validate :: "ver_policy \<Rightarrow> go_error option" where
  "ver_policy_Validate p =
     (if vp_ChallengeTTL p \<le> 0 then Some (VerErr Ver_errInvalidPolicy)
      else if vp_OTPDigits p \<le> 0 \<or> MaxOTPDigits < vp_OTPDigits p then Some (VerErr Ver_errInvalidPolicy)
      else None)"

definition ver_DefaultPolicy :: ver_policy where
  "ver_DefaultPolicy = \<lparr>vp_ChallengeTTL = 5 * 60 * 1000000000, vp_OTPDigits = 6\<rparr>"

record appointment =
  va_ID :: ID
  va_ListingID :: ID
  va_RequesterUserID :: ID
  va_ProviderUserID :: ID
  va_Status :: string
  va_RequestedAt :: time
  va_ScheduledAt :: "time option"
  va_UpdatedAt :: time
  va_VerifiedInteractionID :: "ID option"

definition ver_validStatus :: "string \<Rightarrow> bool" where
  "ver_validStatus s \<longleftrightarrow> s = VerRequested \<or> s = VerAccepted \<or> s = VerRejected \<or> s = VerCancelled \<or>
     s = VerCompleted \<or> s = VerNoShow"

definition appt_Validate :: "appointment \<Rightarrow> go_error option" where
  "appt_Validate a =
     (if ID_IsZero (va_ID a) \<or> ID_IsZero (va_ListingID a) \<or> ID_IsZero (va_RequesterUserID a) \<or>
         ID_IsZero (va_ProviderUserID a) then Some (VerErr Ver_errZeroID)
      else if va_RequesterUserID a = va_ProviderUserID a then Some (VerErr Ver_errSelfAppointment)
      else if \<not> ver_validStatus (va_Status a) then Some (VerErr Ver_errInvalidStatus)
      else if time_IsZero (va_RequestedAt a) \<or> time_IsZero (va_UpdatedAt a)
        then Some (VerErr Ver_errInvalidAppointment)
      else None)"

definition appt_HasParticipant :: "appointment \<Rightarrow> ID \<Rightarrow> bool" where
  "appt_HasParticipant a userID \<longleftrightarrow>
     \<not> ID_IsZero userID \<and> (va_RequesterUserID a = userID \<or> va_ProviderUserID a = userID)"

definition ver_canCancel :: "string \<Rightarrow> bool" where
  "ver_canCancel status \<longleftrightarrow> status = VerRequested \<or> status = VerAccepted"

definition NormalizeMethod :: "string \<Rightarrow> string res" where
  "NormalizeMethod raw =
     (let m = strings_TrimSpace (strings_ToLower raw)
      in if m = MethodOTP then Inr MethodOTP
         else if m = MethodQR then Inr MethodQR
         else Inl (VerErr Ver_errInvalidMethod))"

definition NormalizeInteractionType :: "string \<Rightarrow> string res" where
  "NormalizeInteractionType raw =
     (let t = strings_TrimSpace (strings_ToLower raw)
      in if t = InteractionListingInspection then Inr InteractionListingInspection
         else if t = InteractionTransaction then Inr InteractionTransaction
         else if t = InteractionDelivery then Inr InteractionDelivery
         else Inl (VerErr Ver_errInvalidInteraction))"

definition NormalizeFlowInteractionType :: "string \<Rightarrow> string res" where
  "NormalizeFlowInteractionType raw =
     (case NormalizeInteractionType raw of
        Inl e \<Rightarrow> Inl e
      | Inr typ \<Rightarrow>
          if typ = InteractionListingInspection then Inl (VerErr Ver_errInvalidInteraction) else Inr typ)"

record challenge =
  vc_ID :: ID
  vc_AppointmentID :: ID
  vc_FlowID :: ID
  vc_Method :: string
  vc_TokenHash :: "byte list"
  vc_ExpiresAt :: time
  vc_ConsumedAt :: "time option"
  vc_CreatedAt :: time

definition chal_Validate :: "challenge \<Rightarrow> go_error option" where
  "chal_Validate c =
     (if ID_IsZero (vc_ID c) then Some (VerErr Ver_errZeroID)
      else if (\<not> ID_IsZero (vc_AppointmentID c)) = (\<not> ID_IsZero (vc_FlowID c))
        then Some (VerErr Ver_errInvalidChallenge)
      else case NormalizeMethod (vc_Method c) of Inl e \<Rightarrow> Some e | Inr _ \<Rightarrow>
      if length (vc_TokenHash c) \<noteq> TokenHashSize then Some (VerErr Ver_errInvalidChallenge)
      else if time_IsZero (vc_CreatedAt c) \<or> time_IsZero (vc_ExpiresAt c) \<or>
          \<not> time_After (vc_ExpiresAt c) (vc_CreatedAt c) then Some (VerErr Ver_errInvalidChallenge)
      else None)"

definition chal_Consumed :: "challenge \<Rightarrow> bool" where
  "chal_Consumed c \<longleftrightarrow> (case vc_ConsumedAt c of None \<Rightarrow> False | Some t \<Rightarrow> \<not> time_IsZero t)"

definition chal_Expired :: "challenge \<Rightarrow> time \<Rightarrow> bool" where
  "chal_Expired c now \<longleftrightarrow> \<not> time_Before now (vc_ExpiresAt c)"

record issued_challenge =
  ic_Challenge :: challenge
  ic_RawToken :: string
  ic_InteractionType :: string

record ver_flow =
  vf_ID :: ID
  vf_ListingID :: ID
  vf_RequesterUserID :: ID
  vf_ProviderUserID :: ID
  vf_InteractionType :: string
  vf_Status :: string
  vf_CreatedAt :: time
  vf_UpdatedAt :: time
  vf_CompletedInteractionID :: "ID option"

definition flow_Validate :: "ver_flow \<Rightarrow> go_error option" where
  "flow_Validate f =
     (if ID_IsZero (vf_ID f) \<or> ID_IsZero (vf_ListingID f) \<or> ID_IsZero (vf_RequesterUserID f) \<or>
         ID_IsZero (vf_ProviderUserID f) then Some (VerErr Ver_errZeroID)
      else if vf_RequesterUserID f = vf_ProviderUserID f then Some (VerErr Ver_errSelfAppointment)
      else case NormalizeFlowInteractionType (vf_InteractionType f) of Inl e \<Rightarrow> Some e | Inr _ \<Rightarrow>
      if vf_Status f \<noteq> FlowOpen \<and> vf_Status f \<noteq> FlowCompleted then Some (VerErr Ver_errInvalidStatus)
      else if time_IsZero (vf_CreatedAt f) \<or> time_IsZero (vf_UpdatedAt f)
        then Some (VerErr Ver_errInvalidInteraction)
      else None)"

definition flow_HasParticipant :: "ver_flow \<Rightarrow> ID \<Rightarrow> bool" where
  "flow_HasParticipant f userID \<longleftrightarrow>
     \<not> ID_IsZero userID \<and> (vf_RequesterUserID f = userID \<or> vf_ProviderUserID f = userID)"

record interaction =
  vi_ID :: ID
  vi_AppointmentID :: ID
  vi_FlowID :: ID
  vi_ListingID :: ID
  vi_RequesterUserID :: ID
  vi_ProviderUserID :: ID
  vi_InteractionType :: string
  vi_VerificationMethod :: string
  vi_VerifiedAt :: time

definition inter_Validate :: "interaction \<Rightarrow> go_error option" where
  "inter_Validate v =
     (if ID_IsZero (vi_ID v) \<or> ID_IsZero (vi_ListingID v) \<or> ID_IsZero (vi_RequesterUserID v) \<or>
         ID_IsZero (vi_ProviderUserID v) then Some (VerErr Ver_errZeroID)
      else if vi_RequesterUserID v = vi_ProviderUserID v then Some (VerErr Ver_errSelfAppointment)
      else case NormalizeInteractionType (vi_InteractionType v) of Inl e \<Rightarrow> Some e | Inr typ \<Rightarrow>
      let appt = (\<not> ID_IsZero (vi_AppointmentID v)); flow = (\<not> ID_IsZero (vi_FlowID v))
      in if typ = InteractionListingInspection \<and> (\<not> appt \<or> flow) then Some (VerErr Ver_errInvalidInteraction)
      else if (typ = InteractionTransaction \<or> typ = InteractionDelivery) \<and> (appt \<or> \<not> flow)
        then Some (VerErr Ver_errInvalidInteraction)
      else case NormalizeMethod (vi_VerificationMethod v) of Inl e \<Rightarrow> Some e | Inr _ \<Rightarrow>
      if time_IsZero (vi_VerifiedAt v) then Some (VerErr Ver_errInvalidInteraction) else None)"

definition inter_HasParticipant :: "interaction \<Rightarrow> ID \<Rightarrow> bool" where
  "inter_HasParticipant v userID \<longleftrightarrow>
     \<not> ID_IsZero userID \<and> (vi_RequesterUserID v = userID \<or> vi_ProviderUserID v = userID)"

section \<open>Secrets\<close>

text \<open>
  \<open>rand.Read\<close> of a buffer: the bytes read, or \<open>None\<close> when the reader fails.
\<close>

type_synonym 'w reader = "nat \<Rightarrow> 'w \<Rightarrow> 'w \<times> byte list option"

definition ver_NewID :: "'w reader \<Rightarrow> ('w, ID) go" where
  "ver_NewID rnd = gread (rnd 16) (\<lambda>bs.
     case NewID (map_option id_of_bytes bs) of
       None \<Rightarrow> gfail (VerErr Ver_errUnavailable) | Some i \<Rightarrow> gret i)"

definition GenerateChallengeToken :: "'w reader \<Rightarrow> ('w, string \<times> byte list) go" where
  "GenerateChallengeToken rnd = gread (rnd TokenSecretBytes) (\<lambda>bs.
     case bs of
       None \<Rightarrow> gfail (OtherErr ''rand'')
     | Some secret \<Rightarrow> gret (b64_Encode (bytes_string secret), sha256_Sum256 secret))"

definition HashChallengeToken :: "string \<Rightarrow> byte list res" where
  "HashChallengeToken raw =
     (case b64_DecodeString (strings_TrimSpace raw) of
        None \<Rightarrow> Inl (VerErr Ver_errInvalidToken)
      | Some secret \<Rightarrow>
          if length secret < TokenSecretBytes then Inl (VerErr Ver_errInvalidToken)
          else Inr (sha256_Sum256 (string_bytes secret)))"

definition all_digits :: "string \<Rightarrow> bool" where
  "all_digits raw \<longleftrightarrow> list_all (\<lambda>u. \<not> (fst u < 0x30 \<or> 0x39 < fst u)) (runes raw)"

definition HashNumericOTP :: "string \<Rightarrow> byte list res" where
  "HashNumericOTP raw =
     (let raw = strings_TrimSpace raw
      in if raw = [] then Inl (VerErr Ver_errInvalidToken)
         else if \<not> all_digits raw then Inl (VerErr Ver_errInvalidToken)
         else Inr (sha256_Sum256 (string_bytes raw)))"

definition looksLikeNumericOTP :: "string \<Rightarrow> int \<Rightarrow> bool" where
  "looksLikeNumericOTP raw digits \<longleftrightarrow> \<not> (digits \<le> 0 \<or> int (length raw) \<noteq> digits) \<and> all_digits raw"

definition HashSubmittedChallengeSecret :: "string \<Rightarrow> int \<Rightarrow> byte list res" where
  "HashSubmittedChallengeSecret raw otpDigits =
     (let raw = strings_TrimSpace raw
      in if looksLikeNumericOTP raw otpDigits then HashNumericOTP raw else HashChallengeToken raw)"

text \<open>
  \<open>generateNumericOTP\<close> draws 64-bit numbers until one lies below the largest multiple of the modulus.
  Nothing bounds the number of draws, so the loop is a partial function: \<open>None\<close> is not returning.
\<close>

definition MaxUint64 :: nat where "MaxUint64 = 2 ^ 64 - 1"

fun otp_modulus :: "nat \<Rightarrow> nat \<Rightarrow> nat option" where
  "otp_modulus 0 modulus = Some modulus"
| "otp_modulus (Suc n) modulus =
     (if MaxUint64 div 10 < modulus then None else otp_modulus n (modulus * 10))"

definition BigEndian_Uint64 :: "byte list \<Rightarrow> nat" where
  "BigEndian_Uint64 bs = foldl (\<lambda>n b. n * 256 + unat b) 0 (take 8 bs)"

definition otp_code :: "nat \<Rightarrow> nat \<Rightarrow> nat \<Rightarrow> string option" where
  "otp_code digits modulus v =
     (let limit = (MaxUint64 div modulus) * modulus
      in if limit \<le> v then None else Some (pad_dec digits (int (v mod modulus))))"

partial_function (option) otp_loop :: "'w reader \<Rightarrow> nat \<Rightarrow> nat \<Rightarrow> 'w \<Rightarrow> ('w \<times> string res) option" where
  "otp_loop rnd digits modulus w =
     (case rnd 8 w of
        (w', None) \<Rightarrow> Some (w', Inl (OtherErr ''rand''))
      | (w', Some bs) \<Rightarrow>
          (case otp_code digits modulus (BigEndian_Uint64 bs) of
             None \<Rightarrow> otp_loop rnd digits modulus w'
           | Some code \<Rightarrow> Some (w', Inr code)))"

definition generateNumericOTP :: "'w reader \<Rightarrow> int \<Rightarrow> 'w \<Rightarrow> ('w \<times> string res) option" where
  "generateNumericOTP rnd digits w =
     (if digits \<le> 0 \<or> MaxOTPDigits < digits then Some (w, Inl (VerErr Ver_errInvalidPolicy))
      else case otp_modulus (nat digits) 1 of
             None \<Rightarrow> Some (w, Inl (VerErr Ver_errInvalidPolicy))
           | Some modulus \<Rightarrow> otp_loop rnd (nat digits) modulus w)"

definition GenerateNumericOTP :: "'w reader \<Rightarrow> int \<Rightarrow> 'w \<Rightarrow> ('w \<times> (string \<times> byte list) res) option" where
  "GenerateNumericOTP rnd digits w =
     (case generateNumericOTP rnd digits w of
        None \<Rightarrow> None
      | Some (w', Inl e) \<Rightarrow> Some (w', Inl e)
      | Some (w', Inr raw) \<Rightarrow>
          (case HashNumericOTP raw of Inl e \<Rightarrow> Some (w', Inl e) | Inr hash \<Rightarrow> Some (w', Inr (raw, hash))))"

definition issueChallengeSecret ::
  "'w reader \<Rightarrow> string \<Rightarrow> int \<Rightarrow> 'w \<Rightarrow> ('w \<times> (string \<times> byte list) res) option" where
  "issueChallengeSecret rnd meth otpDigits w =
     (if meth = MethodOTP then GenerateNumericOTP rnd otpDigits w
      else if meth = MethodQR then Some (GenerateChallengeToken rnd w)
      else Some (w, Inl (VerErr Ver_errInvalidMethod)))"

section \<open>The in-memory store\<close>

text \<open>Copies of pointers and slices are copies of the values they point to.\<close>

definition cloneAppointment :: "appointment \<Rightarrow> appointment" where
  "cloneAppointment a = a\<lparr>va_ScheduledAt := map_option (\<lambda>t. time_UTC t) (va_ScheduledAt a),
     va_VerifiedInteractionID := map_option (\<lambda>v. v) (va_VerifiedInteractionID a)\<rparr>"

lemma cloneAppointment_id [simp]: "cloneAppointment a = a"
  by (simp add: cloneAppointment_def option.map_ident)

definition cloneFlow :: "ver_flow \<Rightarrow> ver_flow" where
  "cloneFlow f = f\<lparr>vf_CompletedInteractionID := map_option (\<lambda>v. v) (vf_CompletedInteractionID f)\<rparr>"

lemma cloneFlow_id [simp]: "cloneFlow f = f"
  by (simp add: cloneFlow_def option.map_ident)

record verified_mem =
  xm_appointments :: "(ID, appointment) gomap"
  xm_flows :: "(ID, ver_flow) gomap"
  xm_challenges :: "(ID, challenge) gomap"
  xm_interactions :: "(ID, interaction) gomap"
  xm_byAppt :: "(ID, ID) gomap"
  xm_byFlow :: "(ID, ID) gomap"
  xm_fail :: "go_error option"

definition ver_NewMemoryStore :: verified_mem where
  "ver_NewMemoryStore = \<lparr>xm_appointments = [], xm_flows = [], xm_challenges = [], xm_interactions = [],
     xm_byAppt = [], xm_byFlow = [], xm_fail = None\<rparr>"

definition withInteractionID :: "appointment \<Rightarrow> (ID, ID) gomap \<Rightarrow> appointment" where
  "withInteractionID a byAppt =
     (case map_of byAppt (va_ID a) of None \<Rightarrow> a | Some i \<Rightarrow> a\<lparr>va_VerifiedInteractionID := Some i\<rparr>)"

definition withFlowInteractionID :: "ver_flow \<Rightarrow> (ID, ID) gomap \<Rightarrow> ver_flow" where
  "withFlowInteractionID f byFlow =
     (case map_of byFlow (vf_ID f) of None \<Rightarrow> f | Some i \<Rightarrow> f\<lparr>vf_CompletedInteractionID := Some i\<rparr>)"

definition ver_mem_InsertAppointment :: "ctx \<Rightarrow> appointment \<Rightarrow> (verified_mem, unit) go" where
  "ver_mem_InsertAppointment c a = (\<lambda>m.
     gguard (ctx_Err c) (gguard (appt_Validate a) (gguard (xm_fail m)
       (if map_of (xm_appointments m) (va_ID a) \<noteq> None then gfail (VerErr Ver_errConflict)
        else (\<lambda>m. (m\<lparr>xm_appointments := AList.update (va_ID a) (cloneAppointment a) (xm_appointments m)\<rparr>,
                   Inr ()))))) m)"

definition ver_mem_GetAppointment :: "ctx \<Rightarrow> ID \<Rightarrow> (verified_mem, appointment) go" where
  "ver_mem_GetAppointment c i = (\<lambda>m.
     gguard (ctx_Err c) (gguard (xm_fail m)
       (case map_of (xm_appointments m) i of
          None \<Rightarrow> gfail (VerErr Ver_errNotFound)
        | Some a \<Rightarrow> gret (cloneAppointment (withInteractionID a (xm_byAppt m))))) m)"

definition ver_mem_ListAppointmentsForUser :: "ctx \<Rightarrow> ID \<Rightarrow> int \<Rightarrow> (verified_mem, appointment list) go" where
  "ver_mem_ListAppointmentsForUser c userID limit = (\<lambda>m.
     gguard (ctx_Err c) (gguard (xm_fail m)
       (gret (limit_to limit (recent_first va_UpdatedAt va_ID
         (map (\<lambda>a. cloneAppointment (withInteractionID a (xm_byAppt m)))
           (filter (\<lambda>a. appt_HasParticipant a userID) (map snd (xm_appointments m)))))))) m)"

definition ver_mem_UpdateAppointmentStatus ::
  "ctx \<Rightarrow> ID \<Rightarrow> string \<Rightarrow> string \<Rightarrow> time \<Rightarrow> (verified_mem, appointment) go" where
  "ver_mem_UpdateAppointmentStatus c i fromStatus toStatus updatedAt = (\<lambda>m.
     gguard (ctx_Err c) (gguard (xm_fail m)
       (case map_of (xm_appointments m) i of
          None \<Rightarrow> gfail (VerErr Ver_errNotFound)
        | Some a \<Rightarrow>
            if va_Status a \<noteq> fromStatus then gfail (VerErr Ver_errInvalidTransition)
            else let a = a\<lparr>va_Status := toStatus, va_UpdatedAt := time_UTC updatedAt\<rparr>
                 in gguard (appt_Validate a)
                      (\<lambda>m. (m\<lparr>xm_appointments := AList.update i (cloneAppointment a) (xm_appointments m)\<rparr>,
                            Inr (cloneAppointment a))))) m)"

text \<open>The loop of \<open>ReplaceChallenge\<close>: open challenges of the same parent expire now.\<close>

definition sameParent :: "challenge \<Rightarrow> challenge \<Rightarrow> bool" where
  "sameParent ch existing \<longleftrightarrow>
     \<not> ID_IsZero (vc_AppointmentID ch) \<and> vc_AppointmentID existing = vc_AppointmentID ch \<or>
     \<not> ID_IsZero (vc_FlowID ch) \<and> vc_FlowID existing = vc_FlowID ch"

definition expire_open :: "challenge \<Rightarrow> time \<Rightarrow> challenge \<Rightarrow> challenge" where
  "expire_open ch now existing =
     (if sameParent ch existing \<and> vc_ConsumedAt existing = None \<and> time_Before now (vc_ExpiresAt existing)
      then existing\<lparr>vc_ExpiresAt := time_UTC now\<rparr> else existing)"

definition ver_mem_ReplaceChallenge :: "ctx \<Rightarrow> challenge \<Rightarrow> time \<Rightarrow> (verified_mem, unit) go" where
  "ver_mem_ReplaceChallenge c ch now = (\<lambda>m.
     gguard (ctx_Err c) (gguard (chal_Validate ch) (gguard (xm_fail m)
       (if \<not> ID_IsZero (vc_AppointmentID ch) \<and> map_of (xm_appointments m) (vc_AppointmentID ch) = None
          then gfail (VerErr Ver_errNotFound)
        else if \<not> ID_IsZero (vc_FlowID ch) \<and> map_of (xm_flows m) (vc_FlowID ch) = None
          then gfail (VerErr Ver_errNotFound)
        else (\<lambda>m. (m\<lparr>xm_challenges := AList.update (vc_ID ch) ch
                      (map (\<lambda>(i, x). (i, expire_open ch now x)) (xm_challenges m))\<rparr>, Inr ()))))) m)"

definition ver_mem_CreateFlowWithChallenge ::
  "ctx \<Rightarrow> ver_flow \<Rightarrow> challenge \<Rightarrow> time \<Rightarrow> (verified_mem, unit) go" where
  "ver_mem_CreateFlowWithChallenge c flow ch now = (\<lambda>m.
     gguard (ctx_Err c) (gguard (flow_Validate flow) (gguard (chal_Validate ch)
       (if vc_FlowID ch \<noteq> vf_ID flow \<or> \<not> ID_IsZero (vc_AppointmentID ch)
          then gfail (VerErr Ver_errInvalidChallenge)
        else gguard (xm_fail m)
          (if map_of (xm_flows m) (vf_ID flow) \<noteq> None then gfail (VerErr Ver_errConflict)
           else if map_of (xm_challenges m) (vc_ID ch) \<noteq> None then gfail (VerErr Ver_errConflict)
           else (\<lambda>m. (m\<lparr>xm_flows := AList.update (vf_ID flow) (cloneFlow flow) (xm_flows m),
                        xm_challenges := AList.update (vc_ID ch) ch (xm_challenges m)\<rparr>, Inr ())))))) m)"

definition ver_mem_GetFlow :: "ctx \<Rightarrow> ID \<Rightarrow> (verified_mem, ver_flow) go" where
  "ver_mem_GetFlow c i = (\<lambda>m.
     gguard (ctx_Err c) (gguard (xm_fail m)
       (case map_of (xm_flows m) i of
          None \<Rightarrow> gfail (VerErr Ver_errNotFound)
        | Some f \<Rightarrow> gret (cloneFlow (withFlowInteractionID f (xm_byFlow m))))) m)"

definition ver_mem_ListFlowsForUser :: "ctx \<Rightarrow> ID \<Rightarrow> ID \<Rightarrow> int \<Rightarrow> (verified_mem, ver_flow list) go" where
  "ver_mem_ListFlowsForUser c userID listingID limit = (\<lambda>m.
     gguard (ctx_Err c) (gguard (xm_fail m)
       (gret (limit_to limit (recent_first vf_CreatedAt vf_ID
         (map (\<lambda>f. cloneFlow (withFlowInteractionID f (xm_byFlow m)))
           (filter (\<lambda>f. flow_HasParticipant f userID \<and> \<not> (\<not> ID_IsZero listingID \<and> vf_ListingID f \<noteq> listingID))
             (map snd (xm_flows m)))))))) m)"

definition ver_mem_GetChallenge :: "ctx \<Rightarrow> ID \<Rightarrow> (verified_mem, challenge) go" where
  "ver_mem_GetChallenge c i = (\<lambda>m.
     gguard (ctx_Err c) (gguard (xm_fail m)
       (case map_of (xm_challenges m) i of
          None \<Rightarrow> gfail (VerErr Ver_errNotFound) | Some ch \<Rightarrow> gret ch)) m)"

definition ver_mem_ListChallenges :: "ctx \<Rightarrow> ID \<Rightarrow> (verified_mem, challenge list) go" where
  "ver_mem_ListChallenges c appointmentID = (\<lambda>m.
     gguard (ctx_Err c) (gguard (xm_fail m)
       (gret (filter (\<lambda>ch. vc_AppointmentID ch = appointmentID) (map snd (xm_challenges m))))) m)"

definition ver_mem_GetInteraction :: "ctx \<Rightarrow> ID \<Rightarrow> (verified_mem, interaction) go" where
  "ver_mem_GetInteraction c i = (\<lambda>m.
     gguard (ctx_Err c) (gguard (xm_fail m)
       (case map_of (xm_interactions m) i of
          None \<Rightarrow> gfail (VerErr Ver_errNotFound) | Some v \<Rightarrow> gret v)) m)"

text \<open>The zero value of the struct, for the unchecked \<open>m.interactions[id]\<close>.\<close>

definition zero_interaction :: interaction where
  "zero_interaction = \<lparr>vi_ID = zero_id, vi_AppointmentID = zero_id, vi_FlowID = zero_id, vi_ListingID = zero_id,
     vi_RequesterUserID = zero_id, vi_ProviderUserID = zero_id, vi_InteractionType = [],
     vi_VerificationMethod = [], vi_VerifiedAt = 0\<rparr>"

definition ver_mem_GetInteractionByAppointment :: "ctx \<Rightarrow> ID \<Rightarrow> (verified_mem, interaction) go" where
  "ver_mem_GetInteractionByAppointment c appointmentID = (\<lambda>m.
     gguard (ctx_Err c) (gguard (xm_fail m)
       (case map_of (xm_byAppt m) appointmentID of
          None \<Rightarrow> gfail (VerErr Ver_errNotFound)
        | Some i \<Rightarrow> gret (case map_of (xm_interactions m) i of None \<Rightarrow> zero_interaction | Some v \<Rightarrow> v))) m)"

text \<open>
  The two completions. The first part, up to the call of \<open>enqueue\<close>, works on the maps under the lock:
  the first challenge of the parent with this hash in the order of the range loop decides. When
  \<open>enqueue\<close> fails, the interaction and its index entry are deleted again.
\<close>

definition find_challenge :: "(challenge \<Rightarrow> bool) \<Rightarrow> byte list \<Rightarrow> (ID, challenge) gomap \<Rightarrow> challenge option" where
  "find_challenge parent tokenHash chs =
     map_option (\<lambda>(i, ch). ch\<lparr>vc_ID := i\<rparr>)
       (find (\<lambda>(i, ch). parent ch \<and> length (vc_TokenHash ch) = length tokenHash \<and> vc_TokenHash ch = tokenHash) chs)"

definition ver_mem_complete ::
  "ctx \<Rightarrow> ID \<Rightarrow> byte list \<Rightarrow> interaction \<Rightarrow> time \<Rightarrow> (verified_mem, interaction) go" where
  "ver_mem_complete c appointmentID tokenHash interaction now = (\<lambda>m.
     gguard (ctx_Err c) (gguard (xm_fail m)
       (case map_of (xm_appointments m) appointmentID of
          None \<Rightarrow> gfail (VerErr Ver_errNotFound)
        | Some a \<Rightarrow>
            if va_Status a \<noteq> VerAccepted then gfail (VerErr Ver_errInvalidTransition)
            else case find_challenge (\<lambda>ch. vc_AppointmentID ch = appointmentID) tokenHash (xm_challenges m) of
                   None \<Rightarrow> gfail (VerErr Ver_errInvalidToken)
                 | Some match \<Rightarrow>
                     if chal_Consumed match then gfail (VerErr Ver_errChallengeConsumed)
                     else if chal_Expired match now then gfail (VerErr Ver_errExpiredChallenge)
                     else if map_of (xm_byAppt m) appointmentID \<noteq> None then gfail (VerErr Ver_errConflict)
                     else (\<lambda>m.
                       let stored = match\<lparr>vc_ConsumedAt := Some (time_UTC now)\<rparr>;
                           a = a\<lparr>va_Status := VerCompleted, va_UpdatedAt := time_UTC now\<rparr>;
                           m1 = m\<lparr>xm_challenges := AList.update (vc_ID stored) stored (xm_challenges m),
                                  xm_appointments := AList.update appointmentID (cloneAppointment a) (xm_appointments m)\<rparr>;
                           v = interaction\<lparr>vi_AppointmentID := appointmentID, vi_FlowID := zero_id,
                                 vi_InteractionType := InteractionListingInspection,
                                 vi_VerificationMethod := vc_Method match, vi_VerifiedAt := time_UTC now\<rparr>
                       in case inter_Validate v of
                            Some e \<Rightarrow> (m1, Inl e)
                          | None \<Rightarrow> (m1\<lparr>xm_interactions := AList.update (vi_ID v) v (xm_interactions m1),
                                         xm_byAppt := AList.update appointmentID (vi_ID v) (xm_byAppt m1)\<rparr>, Inr v)))) m)"

definition ver_mem_completeFlow ::
  "ctx \<Rightarrow> ID \<Rightarrow> byte list \<Rightarrow> ID \<Rightarrow> time \<Rightarrow> (verified_mem, interaction) go" where
  "ver_mem_completeFlow c flowID tokenHash interactionID now = (\<lambda>m.
     gguard (ctx_Err c) (gguard (xm_fail m)
       (case map_of (xm_flows m) flowID of
          None \<Rightarrow> gfail (VerErr Ver_errNotFound)
        | Some f \<Rightarrow>
            if vf_Status f \<noteq> FlowOpen then gfail (VerErr Ver_errInvalidTransition)
            else case find_challenge (\<lambda>ch. vc_FlowID ch = flowID) tokenHash (xm_challenges m) of
                   None \<Rightarrow> gfail (VerErr Ver_errInvalidToken)
                 | Some match \<Rightarrow>
                     if chal_Consumed match then gfail (VerErr Ver_errChallengeConsumed)
                     else if chal_Expired match now then gfail (VerErr Ver_errExpiredChallenge)
                     else if map_of (xm_byFlow m) flowID \<noteq> None then gfail (VerErr Ver_errConflict)
                     else (\<lambda>m.
                       let stored = match\<lparr>vc_ConsumedAt := Some (time_UTC now)\<rparr>;
                           f = f\<lparr>vf_Status := FlowCompleted, vf_UpdatedAt := time_UTC now\<rparr>;
                           m1 = m\<lparr>xm_challenges := AList.update (vc_ID stored) stored (xm_challenges m),
                                  xm_flows := AList.update flowID (cloneFlow f) (xm_flows m)\<rparr>;
                           v = \<lparr>vi_ID = interactionID, vi_AppointmentID = zero_id, vi_FlowID = vf_ID f,
                                vi_ListingID = vf_ListingID f, vi_RequesterUserID = vf_RequesterUserID f,
                                vi_ProviderUserID = vf_ProviderUserID f, vi_InteractionType = vf_InteractionType f,
                                vi_VerificationMethod = vc_Method match, vi_VerifiedAt = time_UTC now\<rparr>
                       in case inter_Validate v of
                            Some e \<Rightarrow> (m1, Inl e)
                          | None \<Rightarrow> (m1\<lparr>xm_interactions := AList.update (vi_ID v) v (xm_interactions m1),
                                         xm_byFlow := AList.update flowID (vi_ID v) (xm_byFlow m1)\<rparr>, Inr v)))) m)"

definition undo_appt :: "ID \<Rightarrow> ID \<Rightarrow> verified_mem \<Rightarrow> verified_mem" where
  "undo_appt i appointmentID m = m\<lparr>xm_interactions := AList.delete i (xm_interactions m),
     xm_byAppt := AList.delete appointmentID (xm_byAppt m)\<rparr>"

definition undo_flow :: "ID \<Rightarrow> ID \<Rightarrow> verified_mem \<Rightarrow> verified_mem" where
  "undo_flow i flowID m = m\<lparr>xm_interactions := AList.delete i (xm_interactions m),
     xm_byFlow := AList.delete flowID (xm_byFlow m)\<rparr>"

type_synonym 'w completed_hook = "ctx \<Rightarrow> interaction \<Rightarrow> ('w, unit) go"

definition ver_mem_CompleteVerification ::
  "('w \<Rightarrow> verified_mem) \<Rightarrow> ((verified_mem \<Rightarrow> verified_mem) \<Rightarrow> 'w \<Rightarrow> 'w) \<Rightarrow>
   ctx \<Rightarrow> ID \<Rightarrow> byte list \<Rightarrow> interaction \<Rightarrow> time \<Rightarrow> 'w completed_hook option \<Rightarrow> ('w, interaction) go" where
  "ver_mem_CompleteVerification get upd c appointmentID tokenHash interaction now enqueue =
     gbind (zoom get upd (ver_mem_complete c appointmentID tokenHash interaction now)) (\<lambda>v.
     case enqueue of
       None \<Rightarrow> gret v
     | Some enq \<Rightarrow> gcase (enq c v) (\<lambda>err w. (upd (undo_appt (vi_ID v) appointmentID) w, Inl err)) (\<lambda>_. gret v))"

definition ver_mem_CompleteFlowVerification ::
  "('w \<Rightarrow> verified_mem) \<Rightarrow> ((verified_mem \<Rightarrow> verified_mem) \<Rightarrow> 'w \<Rightarrow> 'w) \<Rightarrow>
   ctx \<Rightarrow> ID \<Rightarrow> byte list \<Rightarrow> ID \<Rightarrow> time \<Rightarrow> 'w completed_hook option \<Rightarrow> ('w, interaction) go" where
  "ver_mem_CompleteFlowVerification get upd c flowID tokenHash interactionID now enqueue =
     gbind (zoom get upd (ver_mem_completeFlow c flowID tokenHash interactionID now)) (\<lambda>v.
     case enqueue of
       None \<Rightarrow> gret v
     | Some enq \<Rightarrow> gcase (enq c v) (\<lambda>err w. (upd (undo_flow (vi_ID v) flowID) w, Inl err)) (\<lambda>_. gret v))"

section \<open>Events\<close>

definition EventTypeInteractionCompleted :: string where
  "EventTypeInteractionCompleted = ''verified.interaction.completed''"

record interaction_completed =
  iv_InteractionID :: string
  iv_AppointmentID :: string
  iv_FlowID :: string
  iv_ListingID :: string
  iv_RequesterUserID :: string
  iv_ProviderUserID :: string
  iv_InteractionType :: string
  iv_VerificationMethod :: string
  iv_VerifiedAt :: string

definition interaction_json :: "interaction_completed \<Rightarrow> json" where
  "interaction_json p = json_object
     ([(''interaction_id'', iv_InteractionID p)] @ omitempty ''appointment_id'' (iv_AppointmentID p) @
      omitempty ''flow_id'' (iv_FlowID p) @
      [(''listing_id'', iv_ListingID p), (''requester_user_id'', iv_RequesterUserID p),
       (''provider_user_id'', iv_ProviderUserID p), (''interaction_type'', iv_InteractionType p),
       (''verification_method'', iv_VerificationMethod p)] @ omitempty ''verified_at'' (iv_VerifiedAt p))"

definition interaction_names :: "string list" where
  "interaction_names = [''interaction_id'', ''appointment_id'', ''flow_id'', ''listing_id'', ''requester_user_id'',
     ''provider_user_id'', ''interaction_type'', ''verification_method'', ''verified_at'']"

definition interaction_payload_ok :: "interaction_completed \<Rightarrow> bool" where
  "interaction_payload_ok p \<longleftrightarrow>
     \<not> (iv_InteractionID p = [] \<or> iv_ListingID p = [] \<or> iv_RequesterUserID p = [] \<or> iv_ProviderUserID p = [] \<or>
        iv_InteractionType p = [] \<or> iv_VerificationMethod p = []) \<and>
     iv_RequesterUserID p \<noteq> iv_ProviderUserID p \<and>
     (if iv_InteractionType p = InteractionListingInspection
        then \<not> (iv_AppointmentID p = [] \<or> iv_FlowID p \<noteq> [])
      else if iv_InteractionType p = InteractionTransaction \<or> iv_InteractionType p = InteractionDelivery
        then \<not> (iv_FlowID p = [] \<or> iv_AppointmentID p \<noteq> [])
      else False)"

definition DecodeInteractionCompleted :: "json option \<Rightarrow> interaction_completed res" where
  "DecodeInteractionCompleted raw =
     (case json_Unmarshal_strings interaction_names raw of
        None \<Rightarrow> Inl (VerCErr VerC_ErrInvalidEvent)
      | Some acc \<Rightarrow>
          let f = (\<lambda>k. strings_TrimSpace (string_field acc k));
              p = \<lparr>iv_InteractionID = f ''interaction_id'', iv_AppointmentID = f ''appointment_id'',
                   iv_FlowID = f ''flow_id'', iv_ListingID = f ''listing_id'',
                   iv_RequesterUserID = f ''requester_user_id'', iv_ProviderUserID = f ''provider_user_id'',
                   iv_InteractionType = f ''interaction_type'',
                   iv_VerificationMethod = f ''verification_method'', iv_VerifiedAt = f ''verified_at''\<rparr>
          in if interaction_payload_ok p then Inr p else Inl (VerCErr VerC_ErrInvalidEvent))"

definition interaction_payload :: "interaction \<Rightarrow> interaction_completed" where
  "interaction_payload v =
     \<lparr>iv_InteractionID = ID_String (vi_ID v),
      iv_AppointmentID = (if ID_IsZero (vi_AppointmentID v) then [] else ID_String (vi_AppointmentID v)),
      iv_FlowID = (if ID_IsZero (vi_FlowID v) then [] else ID_String (vi_FlowID v)),
      iv_ListingID = ID_String (vi_ListingID v), iv_RequesterUserID = ID_String (vi_RequesterUserID v),
      iv_ProviderUserID = ID_String (vi_ProviderUserID v), iv_InteractionType = vi_InteractionType v,
      iv_VerificationMethod = vi_VerificationMethod v,
      iv_VerifiedAt = time_Format_RFC3339 (vi_VerifiedAt v)\<rparr>"

definition encodeInteractionCompleted :: "interaction \<Rightarrow> new_event res" where
  "encodeInteractionCompleted v =
     (let scopeID = (if ID_IsZero (vi_FlowID v) then vi_AppointmentID v else vi_FlowID v)
      in if ID_IsZero scopeID then Inl (VerErr Ver_errInvalidInteraction)
         else Inr
          \<lparr>ev_EventType = EventTypeInteractionCompleted, ev_EventVersion = 1,
           ev_AggregateType = ''verified_interaction'', ev_AggregateID = ID_String (vi_ID v),
           ev_Payload = Some (interaction_json (interaction_payload v)),
           ev_IdempotencyKey = EventTypeInteractionCompleted @ '':'' @ ID_String scopeID,
           ev_CorrelationID = []\<rparr>)"

section \<open>The service\<close>

record 'w verified_store =
  vs_InsertAppointment :: "ctx \<Rightarrow> appointment \<Rightarrow> ('w, unit) go"
  vs_GetAppointment :: "ctx \<Rightarrow> ID \<Rightarrow> ('w, appointment) go"
  vs_ListAppointmentsForUser :: "ctx \<Rightarrow> ID \<Rightarrow> int \<Rightarrow> ('w, appointment list) go"
  vs_UpdateAppointmentStatus :: "ctx \<Rightarrow> ID \<Rightarrow> string \<Rightarrow> string \<Rightarrow> time \<Rightarrow> ('w, appointment) go"
  vs_CreateFlowWithChallenge :: "ctx \<Rightarrow> ver_flow \<Rightarrow> challenge \<Rightarrow> time \<Rightarrow> ('w, unit) go"
  vs_GetFlow :: "ctx \<Rightarrow> ID \<Rightarrow> ('w, ver_flow) go"
  vs_ListFlowsForUser :: "ctx \<Rightarrow> ID \<Rightarrow> ID \<Rightarrow> int \<Rightarrow> ('w, ver_flow list) go"
  vs_ReplaceChallenge :: "ctx \<Rightarrow> challenge \<Rightarrow> time \<Rightarrow> ('w, unit) go"
  vs_GetChallenge :: "ctx \<Rightarrow> ID \<Rightarrow> ('w, challenge) go"
  vs_ListChallenges :: "ctx \<Rightarrow> ID \<Rightarrow> ('w, challenge list) go"
  vs_GetInteraction :: "ctx \<Rightarrow> ID \<Rightarrow> ('w, interaction) go"
  vs_GetInteractionByAppointment :: "ctx \<Rightarrow> ID \<Rightarrow> ('w, interaction) go"
  vs_CompleteVerification ::
    "ctx \<Rightarrow> ID \<Rightarrow> byte list \<Rightarrow> interaction \<Rightarrow> time \<Rightarrow> 'w completed_hook option \<Rightarrow> ('w, interaction) go"
  vs_CompleteFlowVerification ::
    "ctx \<Rightarrow> ID \<Rightarrow> byte list \<Rightarrow> ID \<Rightarrow> time \<Rightarrow> 'w completed_hook option \<Rightarrow> ('w, interaction) go"

definition verified_mem_store ::
  "('w \<Rightarrow> verified_mem) \<Rightarrow> ((verified_mem \<Rightarrow> verified_mem) \<Rightarrow> 'w \<Rightarrow> 'w) \<Rightarrow> 'w verified_store" where
  "verified_mem_store get upd =
     \<lparr>vs_InsertAppointment = (\<lambda>c a. zoom get upd (ver_mem_InsertAppointment c a)),
      vs_GetAppointment = (\<lambda>c i. zoom get upd (ver_mem_GetAppointment c i)),
      vs_ListAppointmentsForUser = (\<lambda>c u n. zoom get upd (ver_mem_ListAppointmentsForUser c u n)),
      vs_UpdateAppointmentStatus = (\<lambda>c i f t u. zoom get upd (ver_mem_UpdateAppointmentStatus c i f t u)),
      vs_CreateFlowWithChallenge = (\<lambda>c f ch n. zoom get upd (ver_mem_CreateFlowWithChallenge c f ch n)),
      vs_GetFlow = (\<lambda>c i. zoom get upd (ver_mem_GetFlow c i)),
      vs_ListFlowsForUser = (\<lambda>c u l n. zoom get upd (ver_mem_ListFlowsForUser c u l n)),
      vs_ReplaceChallenge = (\<lambda>c ch n. zoom get upd (ver_mem_ReplaceChallenge c ch n)),
      vs_GetChallenge = (\<lambda>c i. zoom get upd (ver_mem_GetChallenge c i)),
      vs_ListChallenges = (\<lambda>c i. zoom get upd (ver_mem_ListChallenges c i)),
      vs_GetInteraction = (\<lambda>c i. zoom get upd (ver_mem_GetInteraction c i)),
      vs_GetInteractionByAppointment = (\<lambda>c i. zoom get upd (ver_mem_GetInteractionByAppointment c i)),
      vs_CompleteVerification = ver_mem_CompleteVerification get upd,
      vs_CompleteFlowVerification = ver_mem_CompleteFlowVerification get upd\<rparr>"

record 'w verified_service =
  vsv_store :: "'w verified_store option"
  vsv_listings :: "'w ownership option"
  vsv_outbox :: "'w enqueuer option"
  vsv_policy :: ver_policy
  vsv_now :: "'w \<Rightarrow> 'w \<times> time"
  vsv_rand :: "'w reader"

definition ver_NewService ::
  "'w verified_store option \<Rightarrow> 'w ownership option \<Rightarrow> 'w enqueuer option \<Rightarrow> ver_policy \<Rightarrow>
   ('w \<Rightarrow> 'w \<times> time) \<Rightarrow> 'w reader \<Rightarrow> 'w verified_service res" where
  "ver_NewService st listings enq p now rnd =
     (case st of None \<Rightarrow> Inl (VerErr Ver_errStoreRequired) | Some _ \<Rightarrow>
      case listings of None \<Rightarrow> Inl (VerErr Ver_errListingsReq) | Some _ \<Rightarrow>
      case enq of None \<Rightarrow> Inl (VerErr Ver_errOutboxRequired) | Some _ \<Rightarrow>
      case ver_policy_Validate p of Some e \<Rightarrow> Inl e | None \<Rightarrow>
      Inr \<lparr>vsv_store = st, vsv_listings = listings, vsv_outbox = enq, vsv_policy = p, vsv_now = now, vsv_rand = rnd\<rparr>)"

definition ver_mapStoreErr :: "go_error \<Rightarrow> go_error" where
  [err_defs]: "ver_mapStoreErr err =
     (if err \<in> VerErr ` {Ver_errNotFound, Ver_errZeroID, Ver_errStoreRequired, Ver_errSelfAppointment,
          Ver_errForbidden, Ver_errInvalidStatus, Ver_errInvalidTransition, Ver_errInvalidMethod,
          Ver_errInvalidToken, Ver_errExpiredChallenge, Ver_errChallengeConsumed, Ver_errConflict,
          Ver_errInvalidAppointment, Ver_errInvalidChallenge, Ver_errInvalidInteraction,
          Ver_errInvalidPolicy, Ver_errListingsReq, Ver_errOutboxRequired} then err
      else if ctx_error err then err
      else VerErr Ver_errUnavailable)"

definition ver_mapListingErr :: "go_error \<Rightarrow> go_error" where
  [err_defs]: "ver_mapListingErr err =
     (if err = ListCErr ListC_ErrNotFound \<or> err = ListCErr ListC_ErrForbidden then VerErr Ver_errNotFound
      else if err = ListCErr ListC_ErrZeroID then VerErr Ver_errZeroID
      else VerErr Ver_errUnavailable)"

definition ver_requirePublishedOwner :: "'w verified_service \<Rightarrow> ctx \<Rightarrow> ID \<Rightarrow> ('w, ID) go" where
  "ver_requirePublishedOwner s c listingID =
     gneed (vsv_listings s) (VerErr Ver_errListingsReq) (\<lambda>resolve.
     gbind (gmaperr ver_mapListingErr (resolve c listingID)) (\<lambda>ref.
       if \<not> ListingRef_PubliclyVisible ref then gfail (VerErr Ver_errNotFound)
       else if ID_IsZero (lr_OwnerUserID ref) then gfail (VerErr Ver_errUnavailable)
       else gret (lr_OwnerUserID ref)))"

definition ver_requireParticipant :: "'w verified_store \<Rightarrow> ctx \<Rightarrow> ID \<Rightarrow> ID \<Rightarrow> ('w, appointment) go" where
  "ver_requireParticipant st c userID appointmentID =
     gbind (gmaperr ver_mapStoreErr (vs_GetAppointment st c appointmentID)) (\<lambda>a.
       if \<not> appt_HasParticipant a userID then gfail (VerErr Ver_errNotFound) else gret a)"

definition ver_svc_CreateAppointment ::
  "'w verified_service \<Rightarrow> ctx \<Rightarrow> ID \<Rightarrow> ID \<Rightarrow> time option \<Rightarrow> ('w, appointment) go" where
  "ver_svc_CreateAppointment s c requesterID listingID scheduledAt =
     gneed (vsv_store s) (VerErr Ver_errStoreRequired) (\<lambda>st.
     if ID_IsZero requesterID \<or> ID_IsZero listingID then gfail (VerErr Ver_errZeroID)
     else gbind (ver_requirePublishedOwner s c listingID) (\<lambda>providerID.
     if providerID = requesterID then gfail (VerErr Ver_errSelfAppointment)
     else gbind (ver_NewID (vsv_rand s)) (\<lambda>i.
     gread (vsv_now s) (\<lambda>now.
     let a = \<lparr>va_ID = i, va_ListingID = listingID, va_RequesterUserID = requesterID,
              va_ProviderUserID = providerID, va_Status = VerRequested, va_RequestedAt = time_UTC now,
              va_ScheduledAt = map_option time_UTC scheduledAt, va_UpdatedAt = time_UTC now,
              va_VerifiedInteractionID = None\<rparr>
     in gguard (appt_Validate a)
          (gbind (gmaperr ver_mapStoreErr (vs_InsertAppointment st c a)) (\<lambda>_. gret a))))))"

definition ver_svc_GetAppointment :: "'w verified_service \<Rightarrow> ctx \<Rightarrow> ID \<Rightarrow> ID \<Rightarrow> ('w, appointment) go" where
  "ver_svc_GetAppointment s c userID appointmentID =
     gneed (vsv_store s) (VerErr Ver_errStoreRequired) (\<lambda>st.
     if ID_IsZero userID \<or> ID_IsZero appointmentID then gfail (VerErr Ver_errZeroID)
     else ver_requireParticipant st c userID appointmentID)"

definition ver_svc_ListAppointments :: "'w verified_service \<Rightarrow> ctx \<Rightarrow> ID \<Rightarrow> ('w, appointment list) go" where
  "ver_svc_ListAppointments s c userID =
     gneed (vsv_store s) (VerErr Ver_errStoreRequired) (\<lambda>st.
     if ID_IsZero userID then gfail (VerErr Ver_errZeroID)
     else gmaperr ver_mapStoreErr (vs_ListAppointmentsForUser st c userID ver_MaxAppointments))"

definition ver_providerTransition ::
  "'w verified_service \<Rightarrow> ctx \<Rightarrow> ID \<Rightarrow> ID \<Rightarrow> string \<Rightarrow> string \<Rightarrow> ('w, appointment) go" where
  "ver_providerTransition s c userID appointmentID from to =
     gneed (vsv_store s) (VerErr Ver_errStoreRequired) (\<lambda>st.
     if ID_IsZero userID \<or> ID_IsZero appointmentID then gfail (VerErr Ver_errZeroID)
     else gbind (ver_requireParticipant st c userID appointmentID) (\<lambda>a.
     if va_ProviderUserID a \<noteq> userID then gfail (VerErr Ver_errForbidden)
     else if va_Status a \<noteq> from then gfail (VerErr Ver_errInvalidTransition)
     else gread (vsv_now s) (\<lambda>now.
       gmaperr ver_mapStoreErr (vs_UpdateAppointmentStatus st c (va_ID a) from to (time_UTC now)))))"

definition ver_svc_AcceptAppointment :: "'w verified_service \<Rightarrow> ctx \<Rightarrow> ID \<Rightarrow> ID \<Rightarrow> ('w, appointment) go" where
  "ver_svc_AcceptAppointment s c userID appointmentID =
     ver_providerTransition s c userID appointmentID VerRequested VerAccepted"

definition ver_svc_RejectAppointment :: "'w verified_service \<Rightarrow> ctx \<Rightarrow> ID \<Rightarrow> ID \<Rightarrow> ('w, appointment) go" where
  "ver_svc_RejectAppointment s c userID appointmentID =
     ver_providerTransition s c userID appointmentID VerRequested VerRejected"

definition ver_svc_CancelAppointment :: "'w verified_service \<Rightarrow> ctx \<Rightarrow> ID \<Rightarrow> ID \<Rightarrow> ('w, appointment) go" where
  "ver_svc_CancelAppointment s c userID appointmentID =
     gneed (vsv_store s) (VerErr Ver_errStoreRequired) (\<lambda>st.
     if ID_IsZero userID \<or> ID_IsZero appointmentID then gfail (VerErr Ver_errZeroID)
     else gbind (ver_requireParticipant st c userID appointmentID) (\<lambda>a.
     if \<not> ver_canCancel (va_Status a) then gfail (VerErr Ver_errInvalidTransition)
     else gread (vsv_now s) (\<lambda>now.
       gmaperr ver_mapStoreErr (vs_UpdateAppointmentStatus st c (va_ID a) (va_Status a) VerCancelled (time_UTC now)))))"

text \<open>
  A call that goes on after a loop that may not return: \<open>before\<close>, the loop, and the rest. An error of the
  loop is reported as \<open>errUnavailable\<close>.
\<close>

definition ver_then_issue ::
  "'w verified_service \<Rightarrow> string \<Rightarrow> ('w, 'a) go \<Rightarrow> ('a \<Rightarrow> string \<Rightarrow> byte list \<Rightarrow> ('w, 'b) go) \<Rightarrow>
   'w \<Rightarrow> ('w \<times> 'b res) option" where
  "ver_then_issue s meth before rest w =
     (case before w of
        (w1, Inl e) \<Rightarrow> Some (w1, Inl e)
      | (w1, Inr x) \<Rightarrow>
          (case issueChallengeSecret (vsv_rand s) meth (vp_OTPDigits (vsv_policy s)) w1 of
             None \<Rightarrow> None
           | Some (w2, Inl e) \<Rightarrow> Some (w2, Inl (VerErr Ver_errUnavailable))
           | Some (w2, Inr (raw, hash)) \<Rightarrow> Some (rest x raw hash w2)))"

definition ver_start_checks ::
  "'w verified_service \<Rightarrow> ctx \<Rightarrow> ID \<Rightarrow> ID \<Rightarrow> string \<Rightarrow> ('w, 'w verified_store \<times> appointment) go" where
  "ver_start_checks s c userID appointmentID meth =
     gneed (vsv_store s) (VerErr Ver_errStoreRequired) (\<lambda>st.
     if ID_IsZero userID \<or> ID_IsZero appointmentID then gfail (VerErr Ver_errZeroID)
     else gbind (gpure (NormalizeMethod meth)) (\<lambda>_.
     gbind (ver_requireParticipant st c userID appointmentID) (\<lambda>a.
     if va_ProviderUserID a \<noteq> userID then gfail (VerErr Ver_errForbidden)
     else if va_Status a \<noteq> VerAccepted then gfail (VerErr Ver_errInvalidTransition)
     else gret (st, a))))"

definition ver_issue_for_appt ::
  "'w verified_service \<Rightarrow> ctx \<Rightarrow> string \<Rightarrow> 'w verified_store \<times> appointment \<Rightarrow> string \<Rightarrow> byte list \<Rightarrow>
   ('w, issued_challenge) go" where
  "ver_issue_for_appt s c normalized sa raw hash =
     (case sa of (st, a) \<Rightarrow>
     gbind (ver_NewID (vsv_rand s)) (\<lambda>i.
     gread (vsv_now s) (\<lambda>now.
     let now = time_UTC now;
         ch = \<lparr>vc_ID = i, vc_AppointmentID = va_ID a, vc_FlowID = zero_id, vc_Method = normalized,
               vc_TokenHash = hash, vc_ExpiresAt = now + vp_ChallengeTTL (vsv_policy s),
               vc_ConsumedAt = None, vc_CreatedAt = now\<rparr>
     in gguard (chal_Validate ch)
          (gbind (gmaperr ver_mapStoreErr (vs_ReplaceChallenge st c ch now)) (\<lambda>_.
           gret \<lparr>ic_Challenge = ch, ic_RawToken = raw, ic_InteractionType = InteractionListingInspection\<rparr>)))))"

text \<open>The method is normalised once; where it cannot be, the checks before it decide the error.\<close>

definition normalized_method :: "string \<Rightarrow> string" where
  "normalized_method meth = (case NormalizeMethod meth of Inr m \<Rightarrow> m | Inl _ \<Rightarrow> meth)"

definition ver_svc_StartVerification ::
  "'w verified_service \<Rightarrow> ctx \<Rightarrow> ID \<Rightarrow> ID \<Rightarrow> string \<Rightarrow> 'w \<Rightarrow> ('w \<times> issued_challenge res) option" where
  "ver_svc_StartVerification s c userID appointmentID meth =
     ver_then_issue s (normalized_method meth) (ver_start_checks s c userID appointmentID meth)
       (ver_issue_for_appt s c (normalized_method meth))"

definition ver_hook :: "'w enqueuer \<Rightarrow> 'w completed_hook" where
  "ver_hook enq c v = gbind (gpure (encodeInteractionCompleted v)) (\<lambda>ev. enq c ev)"

text \<open>The interaction \<open>FinishVerification\<close> builds from the appointment it has read.\<close>

definition interaction_of :: "appointment \<Rightarrow> ID \<Rightarrow> time \<Rightarrow> interaction" where
  "interaction_of a i now =
     \<lparr>vi_ID = i, vi_AppointmentID = va_ID a, vi_FlowID = zero_id, vi_ListingID = va_ListingID a,
      vi_RequesterUserID = va_RequesterUserID a, vi_ProviderUserID = va_ProviderUserID a,
      vi_InteractionType = InteractionListingInspection, vi_VerificationMethod = [], vi_VerifiedAt = now\<rparr>"

definition ver_svc_FinishVerification ::
  "'w verified_service \<Rightarrow> ctx \<Rightarrow> ID \<Rightarrow> ID \<Rightarrow> string \<Rightarrow> ('w, interaction) go" where
  "ver_svc_FinishVerification s c userID appointmentID rawToken =
     gneed (vsv_store s) (VerErr Ver_errStoreRequired) (\<lambda>st.
     gneed (vsv_outbox s) (VerErr Ver_errOutboxRequired) (\<lambda>enq.
     if ID_IsZero userID \<or> ID_IsZero appointmentID then gfail (VerErr Ver_errZeroID)
     else gbind (gpure (HashSubmittedChallengeSecret rawToken (vp_OTPDigits (vsv_policy s)))) (\<lambda>hash.
     gbind (ver_requireParticipant st c userID appointmentID) (\<lambda>a.
     if va_RequesterUserID a \<noteq> userID then gfail (VerErr Ver_errForbidden)
     else if va_Status a \<noteq> VerAccepted then gfail (VerErr Ver_errInvalidTransition)
     else gbind (ver_NewID (vsv_rand s)) (\<lambda>interactionID.
     gread (vsv_now s) (\<lambda>now.
     gmaperr ver_mapStoreErr
       (vs_CompleteVerification st c (va_ID a) hash (interaction_of a interactionID (time_UTC now)) (time_UTC now)
         (Some (ver_hook enq)))))))))"

definition ver_flow_checks ::
  "'w verified_service \<Rightarrow> ctx \<Rightarrow> ID \<Rightarrow> ID \<Rightarrow> ID \<Rightarrow> string \<Rightarrow> string \<Rightarrow> ('w, 'w verified_store \<times> string) go" where
  "ver_flow_checks s c userID listingID requesterUserID meth interactionType =
     gneed (vsv_store s) (VerErr Ver_errStoreRequired) (\<lambda>st.
     if ID_IsZero userID \<or> ID_IsZero listingID \<or> ID_IsZero requesterUserID then gfail (VerErr Ver_errZeroID)
     else gbind (gpure (NormalizeFlowInteractionType interactionType)) (\<lambda>typ.
     gbind (gpure (NormalizeMethod meth)) (\<lambda>_.
     if requesterUserID = userID then gfail (VerErr Ver_errSelfAppointment)
     else gbind (ver_requirePublishedOwner s c listingID) (\<lambda>ownerID.
     if ownerID \<noteq> userID then gfail (VerErr Ver_errForbidden) else gret (st, typ)))))"

definition ver_issue_for_flow ::
  "'w verified_service \<Rightarrow> ctx \<Rightarrow> ID \<Rightarrow> ID \<Rightarrow> ID \<Rightarrow> string \<Rightarrow> 'w verified_store \<times> string \<Rightarrow> string \<Rightarrow> byte list \<Rightarrow>
   ('w, issued_challenge) go" where
  "ver_issue_for_flow s c userID listingID requesterUserID normalized sty raw hash =
     (case sty of (st, typ) \<Rightarrow>
     gbind (ver_NewID (vsv_rand s)) (\<lambda>flowID.
     gbind (ver_NewID (vsv_rand s)) (\<lambda>challengeID.
     gread (vsv_now s) (\<lambda>now.
     let now = time_UTC now;
         flow = \<lparr>vf_ID = flowID, vf_ListingID = listingID, vf_RequesterUserID = requesterUserID,
                 vf_ProviderUserID = userID, vf_InteractionType = typ, vf_Status = FlowOpen,
                 vf_CreatedAt = now, vf_UpdatedAt = now, vf_CompletedInteractionID = None\<rparr>;
         ch = \<lparr>vc_ID = challengeID, vc_AppointmentID = zero_id, vc_FlowID = vf_ID flow, vc_Method = normalized,
               vc_TokenHash = hash, vc_ExpiresAt = now + vp_ChallengeTTL (vsv_policy s),
               vc_ConsumedAt = None, vc_CreatedAt = now\<rparr>
     in gguard (flow_Validate flow) (gguard (chal_Validate ch)
          (gbind (gmaperr ver_mapStoreErr (vs_CreateFlowWithChallenge st c flow ch now)) (\<lambda>_.
           gret \<lparr>ic_Challenge = ch, ic_RawToken = raw, ic_InteractionType = typ\<rparr>)))))))"

definition ver_startFlowVerification ::
  "'w verified_service \<Rightarrow> ctx \<Rightarrow> ID \<Rightarrow> ID \<Rightarrow> ID \<Rightarrow> string \<Rightarrow> string \<Rightarrow> 'w \<Rightarrow> ('w \<times> issued_challenge res) option" where
  "ver_startFlowVerification s c userID listingID requesterUserID meth interactionType =
     ver_then_issue s (normalized_method meth)
       (ver_flow_checks s c userID listingID requesterUserID meth interactionType)
       (ver_issue_for_flow s c userID listingID requesterUserID (normalized_method meth))"

definition ver_svc_StartTransactionVerification ::
  "'w verified_service \<Rightarrow> ctx \<Rightarrow> ID \<Rightarrow> ID \<Rightarrow> ID \<Rightarrow> string \<Rightarrow> 'w \<Rightarrow> ('w \<times> issued_challenge res) option" where
  "ver_svc_StartTransactionVerification s c userID listingID requesterUserID meth =
     ver_startFlowVerification s c userID listingID requesterUserID meth InteractionTransaction"

definition ver_svc_StartDeliveryVerification ::
  "'w verified_service \<Rightarrow> ctx \<Rightarrow> ID \<Rightarrow> ID \<Rightarrow> ID \<Rightarrow> string \<Rightarrow> 'w \<Rightarrow> ('w \<times> issued_challenge res) option" where
  "ver_svc_StartDeliveryVerification s c userID listingID requesterUserID meth =
     ver_startFlowVerification s c userID listingID requesterUserID meth InteractionDelivery"

definition ver_svc_StartTypedVerification ::
  "'w verified_service \<Rightarrow> ctx \<Rightarrow> ID \<Rightarrow> ID \<Rightarrow> ID \<Rightarrow> string \<Rightarrow> string \<Rightarrow> 'w \<Rightarrow> ('w \<times> issued_challenge res) option" where
  "ver_svc_StartTypedVerification s c userID listingID requesterUserID meth interactionType =
     ver_startFlowVerification s c userID listingID requesterUserID meth interactionType"

definition ver_getFlow :: "'w verified_store \<Rightarrow> ctx \<Rightarrow> ID \<Rightarrow> ID \<Rightarrow> ('w, ver_flow) go" where
  "ver_getFlow st c userID flowID =
     gbind (gmaperr ver_mapStoreErr (vs_GetFlow st c flowID)) (\<lambda>f.
       if \<not> flow_HasParticipant f userID then gfail (VerErr Ver_errNotFound) else gret f)"

definition ver_svc_FinishFlowVerification ::
  "'w verified_service \<Rightarrow> ctx \<Rightarrow> ID \<Rightarrow> ID \<Rightarrow> string \<Rightarrow> ('w, interaction) go" where
  "ver_svc_FinishFlowVerification s c userID flowID rawToken =
     gneed (vsv_store s) (VerErr Ver_errStoreRequired) (\<lambda>st.
     gneed (vsv_outbox s) (VerErr Ver_errOutboxRequired) (\<lambda>enq.
     if ID_IsZero userID \<or> ID_IsZero flowID then gfail (VerErr Ver_errZeroID)
     else gbind (gpure (HashSubmittedChallengeSecret rawToken (vp_OTPDigits (vsv_policy s)))) (\<lambda>hash.
     gbind (ver_getFlow st c userID flowID) (\<lambda>f.
     if vf_RequesterUserID f \<noteq> userID then gfail (VerErr Ver_errForbidden)
     else if vf_Status f \<noteq> FlowOpen then gfail (VerErr Ver_errInvalidTransition)
     else gbind (ver_NewID (vsv_rand s)) (\<lambda>interactionID.
     gread (vsv_now s) (\<lambda>now.
     gmaperr ver_mapStoreErr
       (vs_CompleteFlowVerification st c (vf_ID f) hash interactionID (time_UTC now) (Some (ver_hook enq)))))))))"

definition ver_svc_GetFlow :: "'w verified_service \<Rightarrow> ctx \<Rightarrow> ID \<Rightarrow> ID \<Rightarrow> ('w, ver_flow) go" where
  "ver_svc_GetFlow s c userID flowID =
     gneed (vsv_store s) (VerErr Ver_errStoreRequired) (\<lambda>st.
     if ID_IsZero userID \<or> ID_IsZero flowID then gfail (VerErr Ver_errZeroID)
     else ver_getFlow st c userID flowID)"

definition ver_svc_ListFlows :: "'w verified_service \<Rightarrow> ctx \<Rightarrow> ID \<Rightarrow> ID \<Rightarrow> ('w, ver_flow list) go" where
  "ver_svc_ListFlows s c userID listingID =
     gneed (vsv_store s) (VerErr Ver_errStoreRequired) (\<lambda>st.
     if ID_IsZero userID then gfail (VerErr Ver_errZeroID)
     else gmaperr ver_mapStoreErr (vs_ListFlowsForUser st c userID listingID ver_MaxVerificationFlows))"

definition ver_svc_GetInteraction :: "'w verified_service \<Rightarrow> ctx \<Rightarrow> ID \<Rightarrow> ID \<Rightarrow> ('w, interaction) go" where
  "ver_svc_GetInteraction s c userID interactionID =
     gneed (vsv_store s) (VerErr Ver_errStoreRequired) (\<lambda>st.
     if ID_IsZero userID \<or> ID_IsZero interactionID then gfail (VerErr Ver_errZeroID)
     else gbind (gmaperr ver_mapStoreErr (vs_GetInteraction st c interactionID)) (\<lambda>v.
       if \<not> inter_HasParticipant v userID then gfail (VerErr Ver_errNotFound) else gret v))"

section \<open>The read surface for other packages\<close>

record interaction_ref =
  ir_ID :: ID
  ir_ListingID :: ID
  ir_RequesterUserID :: ID
  ir_ProviderUserID :: ID
  ir_InteractionType :: string
  ir_VerifiedAt :: time

definition mapInteractionContractErr :: "go_error \<Rightarrow> go_error" where
  [err_defs]: "mapInteractionContractErr err =
     (if err = VerErr Ver_errZeroID then VerCErr VerC_ErrZeroID
      else if err = VerErr Ver_errNotFound then VerCErr VerC_ErrNotFound
      else if err = VerErr Ver_errUnavailable \<or> err = VerErr Ver_errStoreRequired
        then VerCErr VerC_ErrUnavailable
      else err)"

definition ver_api_GetInteraction :: "'w verified_store option \<Rightarrow> ctx \<Rightarrow> ID \<Rightarrow> ('w, interaction_ref) go" where
  "ver_api_GetInteraction store c i =
     gneed store (VerCErr VerC_ErrUnavailable) (\<lambda>st.
     if ID_IsZero i then gfail (VerCErr VerC_ErrZeroID)
     else gbind (gmaperr mapInteractionContractErr (vs_GetInteraction st c i)) (\<lambda>v.
       gret \<lparr>ir_ID = vi_ID v, ir_ListingID = vi_ListingID v, ir_RequesterUserID = vi_RequesterUserID v,
             ir_ProviderUserID = vi_ProviderUserID v, ir_InteractionType = vi_InteractionType v,
             ir_VerifiedAt = vi_VerifiedAt v\<rparr>))"

section \<open>Secrets are accepted as issued\<close>

text \<open>The secret a challenge is issued with hashes, when it is presented, to the hash that was stored.\<close>

lemma otp_modulus_eq: "10 ^ n * m \<le> MaxUint64 \<Longrightarrow> 0 < m \<Longrightarrow> otp_modulus n m = Some (10 ^ n * m)"
proof (induction n arbitrary: m)
  case (Suc n)
  have "10 * m * 1 \<le> 10 * m * 10 ^ n" by (rule mult_le_mono2) simp
  moreover have "10 * m * 10 ^ n = 10 ^ Suc n * m" by simp
  ultimately have "m * 10 \<le> MaxUint64" using Suc.prems(1) by linarith
  then have "m \<le> MaxUint64 div 10" by (simp add: less_eq_div_iff_mult_less_eq)
  then show ?case using Suc.IH [of "m * 10"] Suc.prems by (simp add: ac_simps)
qed simp

lemma otp_modulus_digits:
  assumes "n \<le> 12"
  shows "otp_modulus n 1 = Some (10 ^ n)"
proof -
  have "(10::nat) ^ n \<le> 10 ^ 12" using assms by (intro power_increasing) simp_all
  then have "10 ^ n * 1 \<le> MaxUint64" by (simp add: MaxUint64_def)
  then show ?thesis using otp_modulus_eq [of n 1] by simp
qed

lemma digit_char_graphic: "digit_char c \<Longrightarrow> graphic c"
  by (auto simp: digit_char_def graphic_def)

lemma all_digits_digit_chars: "list_all digit_char s \<Longrightarrow> all_digits s"
proof -
  assume d: "list_all digit_char s"
  then have "list_all (\<lambda>c. byte_of c < 0x80) s"
    by (auto simp: list_all_iff digit_char_def)
  then show ?thesis
    using d by (auto simp: all_digits_def runes_ascii list_all_iff digit_char_def)
qed

lemma otp_code_shape:
  assumes "otp_code d (10 ^ d) v = Some code" and "0 < d"
  shows "length code = d" and "list_all digit_char code" and "atoi_digits code = int (v mod 10 ^ d)"
proof -
  have c: "code = pad_dec d (int (v mod 10 ^ d))"
    using assms(1) by (auto simp: otp_code_def Let_def split: if_splits)
  have "int (v mod 10 ^ d) < 10 ^ d" by (simp flip: of_nat_power)
  then show "length code = d" "list_all digit_char code" "atoi_digits code = int (v mod 10 ^ d)"
    using pad_dec_fits [of d "int (v mod 10 ^ d)"] assms(2) c by simp_all
qed

lemma otp_loop_code:
  assumes "otp_loop rnd d m w = Some (w', Inr code)"
  shows "\<exists>v. otp_code d m v = Some code"
proof -
  have "\<forall>w' code. r = (w', Inr code) \<longrightarrow> (\<exists>v. otp_code d m v = Some code)"
    if "otp_loop rnd d m w = Some r" for w r
    using that
  proof (induction rule: otp_loop.raw_induct [rotated 1, consumes 1])
    case (1 loop rnd d m w)
    then show ?case by (fastforce split: prod.splits option.splits)
  qed
  then show ?thesis using assms by blast
qed

text \<open>C20. What is issued is accepted: whenever a secret for a challenge is issued, under an accepted policy and
  with a reader that fills its buffer, presenting it as it was returned yields the hash that was stored.\<close>

theorem issued_secret_accepted:
  assumes "ver_policy_Validate p = None"
    and "\<And>n w w' bs. rnd n w = (w', Some bs) \<Longrightarrow> length bs = n"
    and "issueChallengeSecret rnd meth (vp_OTPDigits p) w = Some (w', Inr (raw, hash))"
  shows "HashSubmittedChallengeSecret raw (vp_OTPDigits p) = Inr hash"
proof -
  have d: "0 < vp_OTPDigits p" "vp_OTPDigits p \<le> 12"
    using assms(1) by (auto simp: ver_policy_Validate_def MaxOTPDigits_def split: if_splits)
  show ?thesis
  proof (cases "meth = MethodOTP")
    case True
    then have "\<exists>w1. generateNumericOTP rnd (vp_OTPDigits p) w = Some (w1, Inr raw) \<and> HashNumericOTP raw = Inr hash"
      using assms(3) by (auto simp: issueChallengeSecret_def GenerateNumericOTP_def split: option.splits sum.splits)
    then obtain w1 where g: "generateNumericOTP rnd (vp_OTPDigits p) w = Some (w1, Inr raw)" and h: "HashNumericOTP raw = Inr hash"
      by blast
    have "otp_loop rnd (nat (vp_OTPDigits p)) (10 ^ nat (vp_OTPDigits p)) w = Some (w1, Inr raw)"
      using g d otp_modulus_digits [of "nat (vp_OTPDigits p)"] by (simp add: generateNumericOTP_def MaxOTPDigits_def)
    then obtain v where "otp_code (nat (vp_OTPDigits p)) (10 ^ nat (vp_OTPDigits p)) v = Some raw"
      by (elim exE [OF otp_loop_code])
    note s = otp_code_shape [OF this]
    have t: "strings_TrimSpace raw = raw"
      using s(2) d by (intro TrimSpace_graphic) (auto simp: list_all_iff dest: digit_char_graphic)
    have "looksLikeNumericOTP raw (vp_OTPDigits p)"
      using s(1,2) d by (simp add: looksLikeNumericOTP_def all_digits_digit_chars)
    then show ?thesis using h t by (simp add: HashSubmittedChallengeSecret_def)
  next
    case False
    then obtain secret where sec: "raw = b64_Encode (bytes_string secret)" "hash = sha256_Sum256 secret"
        "length secret = TokenSecretBytes"
      using assms(3) assms(2) [of TokenSecretBytes w]
      by (auto simp: issueChallengeSecret_def GenerateChallengeToken_def gread_apply split: prod.splits option.splits if_splits)
    have t: "strings_TrimSpace raw = raw"
      using sec(1) graphic_b64_Encode by (intro TrimSpace_graphic) simp
    have "32 \<le> length raw"
      using length_b64_Encode [of "bytes_string secret"] sec(1,3) by (simp add: TokenSecretBytes_def)
    then have "\<not> looksLikeNumericOTP raw (vp_OTPDigits p)" using d by (simp add: looksLikeNumericOTP_def)
    then show ?thesis
      using sec t by (simp add: HashSubmittedChallengeSecret_def HashChallengeToken_def)
  qed
qed

definition zero_reader :: "unit reader" where
  "zero_reader n w = (w, Some (replicate n 0))"

theorem issued_secret_accepted_witness:
  "HashSubmittedChallengeSecret (b64_Encode (bytes_string (replicate 32 0))) (vp_OTPDigits ver_DefaultPolicy) =
   Inr (sha256_Sum256 (replicate 32 0))"
  by (rule issued_secret_accepted [where rnd = zero_reader and meth = MethodQR and w = "()" and w' = "()"])
    (simp_all add: zero_reader_def issueChallengeSecret_def GenerateChallengeToken_def TokenSecretBytes_def
      gread_apply ver_DefaultPolicy_def ver_policy_Validate_def MaxOTPDigits_def)

text \<open>A text of decimal digits is determined by its length and its value.\<close>

lemma digit_val_bounds: "digit_char c \<Longrightarrow> 0 \<le> digit_val c \<and> digit_val c \<le> 9"
  by (auto simp: digit_char_def digit_val_def)

lemma atoi_bounds: "list_all digit_char s \<Longrightarrow> 0 \<le> atoi_digits s \<and> atoi_digits s < 10 ^ length s"
proof (induction s rule: rev_induct)
  case Nil
  then show ?case by (simp add: atoi_digits_def)
next
  case (snoc c s)
  then have "0 \<le> atoi_digits s" "atoi_digits s < 10 ^ length s" "0 \<le> digit_val c" "digit_val c \<le> 9"
    using digit_val_bounds [of c] by auto
  moreover have "10 * atoi_digits s + digit_val c < 10 * 10 ^ length s" using calculation by linarith
  ultimately show ?case by simp
qed

lemma atoi_inject:
  assumes "length s = length t" and "list_all digit_char s" and "list_all digit_char t"
    and "atoi_digits s = atoi_digits t"
  shows "s = t"
  using assms
proof (induction s arbitrary: t rule: rev_induct)
  case (snoc c s)
  then obtain d u where t: "t = u @ [d]" by (cases t rule: rev_cases) auto
  have "10 * atoi_digits s + digit_val c = 10 * atoi_digits u + digit_val d" using snoc.prems(4) t by simp
  moreover have "0 \<le> digit_val c" "digit_val c \<le> 9" "0 \<le> digit_val d" "digit_val d \<le> 9"
    using snoc.prems(2,3) t digit_val_bounds by auto
  ultimately have "atoi_digits s = atoi_digits u" "digit_val c = digit_val d" by presburger+
  then show ?case using snoc t by (auto simp: digit_val_def)
qed simp

text \<open>Every code is as likely as any other: the accepted draws fall evenly on the codes.\<close>

lemma otp_code_Some:
  "otp_code d m v = Some code \<longleftrightarrow> v < (MaxUint64 div m) * m \<and> code = pad_dec d (int (v mod m))"
  by (auto simp: otp_code_def Let_def)

lemma card_residue:
  fixes k m q :: nat
  assumes "k < m"
  shows "card {v. v < q * m \<and> v mod m = k} = q"
proof -
  have "{v. v < q * m \<and> v mod m = k} = (\<lambda>i. i * m + k) ` {..<q}" (is "?A = ?B")
  proof
    show "?A \<subseteq> ?B"
    proof
      fix v assume v: "v \<in> ?A"
      then have "v div m < q" by (auto intro: less_mult_imp_div_less)
      moreover have "v = v div m * m + k" using v div_mult_mod_eq [of v m] by simp
      ultimately show "v \<in> ?B" by blast
    qed
    show "?B \<subseteq> ?A"
    proof
      fix v assume "v \<in> ?B"
      then obtain i where i: "i < q" "v = i * m + k" by blast
      then have "(i + 1) * m \<le> q * m" by (intro mult_le_mono1) simp
      then show "v \<in> ?A" using i assms by simp
    qed
  qed
  moreover have "inj_on (\<lambda>i. i * m + k) {..<q}"
    using assms by (auto simp: inj_on_def)
  ultimately show ?thesis by (simp add: card_image)
qed

text \<open>C21. No code is favoured: for every permitted width, each decimal code of that width is produced by the same
  number of the 64-bit values a draw can take, and no other text is produced at all.\<close>

theorem otp_unbiased:
  assumes "0 < d" and "d \<le> 12"
  shows "card {v. v \<le> MaxUint64 \<and> otp_code d (the (otp_modulus d 1)) v = Some code} =
    (if length code = d \<and> list_all digit_char code then MaxUint64 div 10 ^ d else 0)"
proof -
  have m: "the (otp_modulus d (Suc 0)) = 10 ^ d" using otp_modulus_digits [OF assms(2)] by simp
  define q where "q = MaxUint64 div 10 ^ d"
  have q: "q * 10 ^ d \<le> MaxUint64" unfolding q_def by (rule div_times_less_eq_dividend)
  show ?thesis
  proof (cases "length code = d \<and> list_all digit_char code")
    case True
    then have "0 \<le> atoi_digits code" "atoi_digits code < 10 ^ d" using atoi_bounds [of code] by auto
    moreover define k where "k = nat (atoi_digits code)"
    ultimately have k: "atoi_digits code = int k" "k < 10 ^ d" by (simp_all add: nat_less_iff)
    have eq: "pad_dec d (int i) = code \<longleftrightarrow> i = k" if "i < 10 ^ d" for i
    proof -
      have "int i < 10 ^ d" using that by (simp flip: of_nat_power)
      then have p: "length (pad_dec d (int i)) = d" "list_all digit_char (pad_dec d (int i))"
        "atoi_digits (pad_dec d (int i)) = int i"
        using pad_dec_fits [of d "int i"] assms(1) by simp_all
      show ?thesis using p k(1) True atoi_inject [of "pad_dec d (int i)" code] by auto
    qed
    have iff: "otp_code d (10 ^ d) v = Some code \<longleftrightarrow> v < q * 10 ^ d \<and> v mod 10 ^ d = k" for v
      using eq [of "v mod 10 ^ d"] by (auto simp: otp_code_Some q_def)
    have le: "v \<le> MaxUint64" if "v < q * 10 ^ d" for v using that q by linarith
    have "{v. v \<le> MaxUint64 \<and> otp_code d (10 ^ d) v = Some code} = {v. v < q * 10 ^ d \<and> v mod 10 ^ d = k}"
      unfolding iff using le by blast
    then show ?thesis using True m card_residue [OF k(2), of q] by (simp add: q_def)
  next
    case False
    then have "otp_code d (10 ^ d) v \<noteq> Some code" for v
      using otp_code_shape [OF _ assms(1)] by blast
    then show ?thesis using False by (auto simp: m)
  qed
qed

theorem otp_unbiased_witness:
  "card {v. v \<le> MaxUint64 \<and> otp_code 6 (the (otp_modulus 6 1)) v = Some ''042137''} = MaxUint64 div 10 ^ 6"
proof -
  have "length ''042137'' = 6 \<and> list_all digit_char ''042137''" by (simp add: digit_char_def)
  then show ?thesis by (subst otp_unbiased) simp_all
qed

end
