(* ===== verification/Verified_Runs.thy ===== *)
theory Verified_Runs
  imports Verified
begin

text \<open>
  What holds of the interactions of the package \<open>verified\<close> under any interleaving of requests on its
  in-memory store, what is lost when an event cannot be enqueued, and the event other packages decode.
\<close>

section \<open>What an interaction proves\<close>

text \<open>
  The store operations of any number of requests in any order. \<open>R\<close> collects the appointments that were
  read so far: a completion presents the interaction built from one of them, however long ago it was
  read. Identifiers are drawn fresh, and the enqueuer does not touch the store it is called from.
\<close>

definition ver_moves :: "(string \<times> string) set" where
  "ver_moves = {(VerRequested, VerAccepted), (VerRequested, VerRejected), (VerRequested, VerCancelled),
     (VerAccepted, VerCancelled)}"

definition quiet_hook :: "verified_mem completed_hook option \<Rightarrow> bool" where
  "quiet_hook enq \<longleftrightarrow> (case enq of None \<Rightarrow> True | Some f \<Rightarrow> \<forall>c v m. fst (f c v m) = m)"

inductive ver_run :: "verified_mem \<Rightarrow> appointment set \<Rightarrow> bool" where
  start: "ver_run ver_NewMemoryStore {}"
| set_fail: "ver_run m R \<Longrightarrow> ver_run (m\<lparr>xm_fail := e\<rparr>) R"
| insert_appointment: "ver_run m R \<Longrightarrow> ver_run (fst (ver_mem_InsertAppointment c a m)) R"
| read_appointment: "ver_run m R \<Longrightarrow> ver_mem_GetAppointment c i m = (m', Inr a) \<Longrightarrow> ver_run m' (insert a R)"
| update_status: "ver_run m R \<Longrightarrow> (f, t) \<in> ver_moves \<Longrightarrow>
    ver_run (fst (ver_mem_UpdateAppointmentStatus c i f t now m)) R"
| replace_challenge: "ver_run m R \<Longrightarrow> map_of (xm_challenges m) (vc_ID ch) = None \<Longrightarrow>
    ver_run (fst (ver_mem_ReplaceChallenge c ch now m)) R"
| create_flow: "ver_run m R \<Longrightarrow> ver_run (fst (ver_mem_CreateFlowWithChallenge c flow ch now m)) R"
| complete: "ver_run m R \<Longrightarrow> a \<in> R \<Longrightarrow> map_of (xm_interactions m) i = None \<Longrightarrow> quiet_hook enq \<Longrightarrow>
    ver_run (fst (ver_mem_CompleteVerification (\<lambda>m. m) (\<lambda>f. f) c (va_ID a) hash (interaction_of a i now) now enq m)) R"
| complete_flow: "ver_run m R \<Longrightarrow> map_of (xm_interactions m) i = None \<Longrightarrow> quiet_hook enq \<Longrightarrow>
    ver_run (fst (ver_mem_CompleteFlowVerification (\<lambda>m. m) (\<lambda>f. f) c fid hash i now enq m)) R"

text \<open>The parties of an appointment or a flow, which never change.\<close>

definition appt_deal :: "appointment \<Rightarrow> ID \<times> ID \<times> ID \<times> ID" where
  "appt_deal a = (va_ID a, va_ListingID a, va_RequesterUserID a, va_ProviderUserID a)"

definition flow_deal :: "ver_flow \<Rightarrow> ID \<times> ID \<times> ID \<times> ID \<times> string" where
  "flow_deal f = (vf_ID f, vf_ListingID f, vf_RequesterUserID f, vf_ProviderUserID f, vf_InteractionType f)"

definition inter_deal :: "interaction \<Rightarrow> ID \<Rightarrow> ID \<times> ID \<times> ID \<times> ID" where
  "inter_deal v i = (i, vi_ListingID v, vi_RequesterUserID v, vi_ProviderUserID v)"

text \<open>
  What stands behind an interaction: a concluded appointment or flow with the same parties, and a
  challenge of it that was consumed at that very time, before it expired, by the method on record.
\<close>

definition ver_parent :: "verified_mem \<Rightarrow> interaction \<Rightarrow> bool" where
  "ver_parent m v \<longleftrightarrow>
     (if vi_InteractionType v = InteractionListingInspection
      then map_of (xm_byAppt m) (vi_AppointmentID v) = Some (vi_ID v) \<and>
        (\<exists>a. map_of (xm_appointments m) (vi_AppointmentID v) = Some a \<and> va_Status a = VerCompleted \<and>
             appt_deal a = inter_deal v (vi_AppointmentID v))
      else map_of (xm_byFlow m) (vi_FlowID v) = Some (vi_ID v) \<and>
        (\<exists>f. map_of (xm_flows m) (vi_FlowID v) = Some f \<and> vf_Status f = FlowCompleted \<and>
             flow_deal f = (vi_FlowID v, vi_ListingID v, vi_RequesterUserID v, vi_ProviderUserID v,
               vi_InteractionType v)))"

definition ver_consumed :: "verified_mem \<Rightarrow> interaction \<Rightarrow> bool" where
  "ver_consumed m v \<longleftrightarrow>
     (\<exists>ch. map_of (xm_challenges m) (vc_ID ch) = Some ch \<and>
        (if vi_InteractionType v = InteractionListingInspection
         then vc_AppointmentID ch = vi_AppointmentID v else vc_FlowID ch = vi_FlowID v) \<and>
        vc_ConsumedAt ch = Some (vi_VerifiedAt v) \<and> vi_VerifiedAt v < vc_ExpiresAt ch \<and>
        vc_Method ch = vi_VerificationMethod v)"

definition ver_wf :: "verified_mem \<Rightarrow> bool" where
  "ver_wf m \<longleftrightarrow> wf_map (xm_challenges m) \<and>
     (\<forall>i a. map_of (xm_appointments m) i = Some a \<longrightarrow> va_ID a = i) \<and>
     (\<forall>i f. map_of (xm_flows m) i = Some f \<longrightarrow> vf_ID f = i \<and> vf_InteractionType f \<noteq> InteractionListingInspection)"

definition ver_inv :: "verified_mem \<Rightarrow> bool" where
  "ver_inv m \<longleftrightarrow> ver_wf m \<and>
     (\<forall>i v. map_of (xm_interactions m) i = Some v \<longrightarrow>
        vi_ID v = i \<and> inter_Validate v = None \<and> ver_parent m v \<and> ver_consumed m v)"

definition ver_reads :: "verified_mem \<Rightarrow> appointment set \<Rightarrow> bool" where
  "ver_reads m R \<longleftrightarrow> (\<forall>a \<in> R. \<exists>b. map_of (xm_appointments m) (va_ID a) = Some b \<and> appt_deal b = appt_deal a)"

text \<open>What no operation takes back.\<close>

definition ver_keeps :: "verified_mem \<Rightarrow> verified_mem \<Rightarrow> bool" where
  "ver_keeps m m' \<longleftrightarrow>
     (\<forall>i a. map_of (xm_appointments m) i = Some a \<longrightarrow>
        (\<exists>b. map_of (xm_appointments m') i = Some b \<and> appt_deal b = appt_deal a \<and>
             (va_Status a = VerCompleted \<longrightarrow> va_Status b = VerCompleted))) \<and>
     (\<forall>i f. map_of (xm_flows m) i = Some f \<longrightarrow>
        (\<exists>g. map_of (xm_flows m') i = Some g \<and> flow_deal g = flow_deal f \<and>
             (vf_Status f = FlowCompleted \<longrightarrow> vf_Status g = FlowCompleted))) \<and>
     (\<forall>i ch. map_of (xm_challenges m) i = Some ch \<and> chal_Consumed ch \<longrightarrow> map_of (xm_challenges m') i = Some ch) \<and>
     (\<forall>i x. map_of (xm_byAppt m) i = Some x \<longrightarrow> map_of (xm_byAppt m') i = Some x) \<and>
     (\<forall>i x. map_of (xm_byFlow m) i = Some x \<longrightarrow> map_of (xm_byFlow m') i = Some x)"

lemma ver_keeps_refl [simp]: "ver_keeps m m"
  by (simp add: ver_keeps_def)

lemma ver_keeps_fail [simp]: "ver_keeps m (m\<lparr>xm_fail := e\<rparr>)" "ver_wf (m\<lparr>xm_fail := e\<rparr>) = ver_wf m"
  by (simp_all add: ver_keeps_def ver_wf_def)

lemma ver_reads_keeps: "ver_reads m R \<Longrightarrow> ver_keeps m m' \<Longrightarrow> ver_reads m' R"
  unfolding ver_reads_def ver_keeps_def by metis

lemma inter_Validate_D:
  assumes "inter_Validate v = None"
  shows "vi_VerifiedAt v \<noteq> 0"
  using assms by (auto simp: inter_Validate_def Let_def split: if_splits sum.splits)

lemma ver_parent_keeps: "ver_parent m v \<Longrightarrow> ver_keeps m m' \<Longrightarrow> ver_parent m' v"
  unfolding ver_parent_def ver_keeps_def by (smt (verit))

lemma ver_consumed_keeps:
  assumes "ver_consumed m v" and "inter_Validate v = None" and "ver_keeps m m'"
  shows "ver_consumed m' v"
proof -
  obtain ch where ch: "map_of (xm_challenges m) (vc_ID ch) = Some ch" "vc_ConsumedAt ch = Some (vi_VerifiedAt v)"
    "vi_VerifiedAt v < vc_ExpiresAt ch" "vc_Method ch = vi_VerificationMethod v"
    "if vi_InteractionType v = InteractionListingInspection
     then vc_AppointmentID ch = vi_AppointmentID v else vc_FlowID ch = vi_FlowID v"
    using assms(1) by (auto simp: ver_consumed_def)
  have "chal_Consumed ch" using ch(2) inter_Validate_D [OF assms(2)] by (simp add: chal_Consumed_def)
  then have "map_of (xm_challenges m') (vc_ID ch) = Some ch" using ch(1) assms(3) by (simp add: ver_keeps_def)
  then show ?thesis using ch unfolding ver_consumed_def by blast
qed

text \<open>A step that keeps what there was and adds at most one well-founded interaction keeps the invariant.\<close>

lemma ver_inv_step:
  assumes "ver_inv m" and "ver_keeps m m'" and "ver_wf m'"
    and "\<And>i v. map_of (xm_interactions m') i = Some v \<Longrightarrow>
      map_of (xm_interactions m) i = Some v \<or>
      vi_ID v = i \<and> inter_Validate v = None \<and> ver_parent m' v \<and> ver_consumed m' v"
  shows "ver_inv m'"
  using assms ver_parent_keeps [OF _ assms(2)] ver_consumed_keeps [OF _ _ assms(2)]
  unfolding ver_inv_def by metis

lemmas ver_mem_defs = ver_mem_InsertAppointment_def ver_mem_UpdateAppointmentStatus_def ver_mem_ReplaceChallenge_def
  ver_mem_CreateFlowWithChallenge_def

lemma ver_insert_keeps:
  assumes "ver_wf m" and m'_def: "m' = fst (ver_mem_InsertAppointment c a m)"
  shows "ver_keeps m m'" and "ver_wf m'" and "xm_interactions m' = xm_interactions m"
  using assms
  by (auto simp: ver_mem_InsertAppointment_def gguard_def ver_keeps_def ver_wf_def split: option.splits)

lemma ver_update_keeps:
  assumes "ver_wf m" and "(f, t) \<in> ver_moves" and m'_def: "m' = fst (ver_mem_UpdateAppointmentStatus c i f t now m)"
  shows "ver_keeps m m'" and "ver_wf m'" and "xm_interactions m' = xm_interactions m"
  using assms
  by (auto simp: ver_mem_UpdateAppointmentStatus_def gguard_def ver_keeps_def ver_wf_def ver_moves_def
      appt_deal_def Let_def split: option.splits)

lemma ver_replace_keeps:
  assumes "ver_wf m" and "map_of (xm_challenges m) (vc_ID ch) = None" and m'_def: "m' = fst (ver_mem_ReplaceChallenge c ch now m)"
  shows "ver_keeps m m'" and "ver_wf m'" and "xm_interactions m' = xm_interactions m"
proof -
  have mo: "map_of (map (\<lambda>(i, x). (i, expire_open ch now x)) chs) i = map_option (expire_open ch now) (map_of chs i)"
    for chs :: "(ID, challenge) gomap" and i
    by (induction chs) auto
  have c: "expire_open ch now x = x" if "chal_Consumed x" for x
    using that by (auto simp: expire_open_def chal_Consumed_def split: option.splits)
  have w: "wf_map (map (\<lambda>(i, x). (i, expire_open ch now x)) chs) = wf_map chs" for chs :: "(ID, challenge) gomap"
    by (simp add: wf_map_def comp_def case_prod_beta)
  show "xm_interactions m' = xm_interactions m"
    by (simp add: m'_def ver_mem_ReplaceChallenge_def gguard_def split: option.splits)
  show "ver_keeps m m'"
    using assms(2) c
    by (auto simp: m'_def ver_mem_ReplaceChallenge_def gguard_def ver_keeps_def mo split: option.splits)
  show "ver_wf m'"
    using assms(1) w
    by (auto simp: m'_def ver_mem_ReplaceChallenge_def gguard_def ver_wf_def split: option.splits)
qed

lemma inspection_normal:
  "NormalizeInteractionType InteractionListingInspection = Inr InteractionListingInspection"
  "NormalizeInteractionType InteractionTransaction = Inr InteractionTransaction"
  "NormalizeInteractionType InteractionDelivery = Inr InteractionDelivery"
proof -
  have "list_all (\<lambda>c. graphic c \<and> \<not> (0x41 \<le> byte_of c \<and> byte_of c \<le> (0x5A :: nat))) t"
    if "t = InteractionListingInspection \<or> t = InteractionTransaction \<or> t = InteractionDelivery" for t
    using that by (auto simp: ver_type_defs graphic_def)
  then show "NormalizeInteractionType InteractionListingInspection = Inr InteractionListingInspection"
    "NormalizeInteractionType InteractionTransaction = Inr InteractionTransaction"
    "NormalizeInteractionType InteractionDelivery = Inr InteractionDelivery"
    by (simp_all add: NormalizeInteractionType_def ToLower_plain)
qed

lemma flow_Validate_type: "flow_Validate f = None \<Longrightarrow> vf_InteractionType f \<noteq> InteractionListingInspection"
  using inspection_normal(1)
  by (auto simp: flow_Validate_def NormalizeFlowInteractionType_def split: if_splits sum.splits)

lemma ver_create_cases:
  "fst (ver_mem_CreateFlowWithChallenge c flow ch now m) = m \<or>
   flow_Validate flow = None \<and> map_of (xm_flows m) (vf_ID flow) = None \<and> map_of (xm_challenges m) (vc_ID ch) = None \<and>
   fst (ver_mem_CreateFlowWithChallenge c flow ch now m) =
     m\<lparr>xm_flows := AList.update (vf_ID flow) flow (xm_flows m),
       xm_challenges := AList.update (vc_ID ch) ch (xm_challenges m)\<rparr>"
  by (simp add: ver_mem_CreateFlowWithChallenge_def gguard_def split: option.splits)

lemma ver_create_keeps:
  assumes "ver_wf m" and m'_def: "m' = fst (ver_mem_CreateFlowWithChallenge c flow ch now m)"
  shows "ver_keeps m m'" and "ver_wf m'" and "xm_interactions m' = xm_interactions m"
  using assms(1) ver_create_cases [of c flow ch now m]
  unfolding m'_def ver_wf_def ver_keeps_def by (elim disjE conjE; simp add: flow_Validate_type)+

lemma ver_read_row:
  assumes "ver_mem_GetAppointment c i m = (m', Inr a)" and "ver_wf m"
  shows "m' = m" and "\<exists>b. map_of (xm_appointments m) (va_ID a) = Some b \<and> appt_deal b = appt_deal a"
  using assms
  by (auto simp: ver_mem_GetAppointment_def gguard_def ver_wf_def withInteractionID_def appt_deal_def split: option.splits)

text \<open>The two completions: refused, consumed without an interaction, or confirmed.\<close>

lemma zoom_id: "zoom (\<lambda>m. m) (\<lambda>f. f) g = g"
  by (rule ext) (simp add: zoom_def split: prod.split)

lemma find_challenge_D:
  assumes "find_challenge p h chs = Some ch" and "wf_map chs"
  shows "\<exists>old. map_of chs (vc_ID ch) = Some old \<and> ch = old\<lparr>vc_ID := vc_ID ch\<rparr> \<and> p old \<and> vc_TokenHash ch = h"
proof -
  obtain i old where f: "find (\<lambda>(i, ch). p ch \<and> length (vc_TokenHash ch) = length h \<and> vc_TokenHash ch = h) chs = Some (i, old)"
    and ch: "ch = old\<lparr>vc_ID := i\<rparr>"
    using assms(1) by (auto simp: find_challenge_def)
  have "x \<in> set xs \<and> P x" if "find P xs = Some x" for P and xs :: "(ID \<times> challenge) list" and x
    using that by (induction xs) (auto split: if_splits)
  from this [OF f] have "(i, old) \<in> set chs" "p old" "vc_TokenHash old = h" by auto
  then show ?thesis using ch assms(2) wf_map_in_set by fastforce
qed

definition appt_consumed :: "verified_mem \<Rightarrow> ID \<Rightarrow> appointment \<Rightarrow> challenge \<Rightarrow> time \<Rightarrow> verified_mem" where
  "appt_consumed m i b ch now =
     m\<lparr>xm_challenges := AList.update (vc_ID ch) (ch\<lparr>vc_ConsumedAt := Some now\<rparr>) (xm_challenges m),
       xm_appointments := AList.update i (b\<lparr>va_Status := VerCompleted, va_UpdatedAt := now\<rparr>) (xm_appointments m)\<rparr>"

definition flow_consumed :: "verified_mem \<Rightarrow> ID \<Rightarrow> ver_flow \<Rightarrow> challenge \<Rightarrow> time \<Rightarrow> verified_mem" where
  "flow_consumed m i f ch now =
     m\<lparr>xm_challenges := AList.update (vc_ID ch) (ch\<lparr>vc_ConsumedAt := Some now\<rparr>) (xm_challenges m),
       xm_flows := AList.update i (f\<lparr>vf_Status := FlowCompleted, vf_UpdatedAt := now\<rparr>) (xm_flows m)\<rparr>"

lemma ver_complete_cases:
  assumes "ver_mem_complete c i h v now m = (m', r)"
  obtains (refused) e where "m' = m" and "r = Inl e"
  | (taken) b ch where "map_of (xm_appointments m) i = Some b" and "va_Status b = VerAccepted"
      and "find_challenge (\<lambda>ch. vc_AppointmentID ch = i) h (xm_challenges m) = Some ch"
      and "\<not> chal_Consumed ch" and "\<not> chal_Expired ch now" and "map_of (xm_byAppt m) i = None"
      and "let v' = v\<lparr>vi_AppointmentID := i, vi_FlowID := zero_id, vi_InteractionType := InteractionListingInspection,
             vi_VerificationMethod := vc_Method ch, vi_VerifiedAt := now\<rparr>; m1 = appt_consumed m i b ch now
           in case inter_Validate v' of
                Some e \<Rightarrow> m' = m1 \<and> r = Inl e
              | None \<Rightarrow> m' = m1\<lparr>xm_interactions := AList.update (vi_ID v) v' (xm_interactions m),
                   xm_byAppt := AList.update i (vi_ID v) (xm_byAppt m)\<rparr> \<and> r = Inr v'"
  using assms
  by (auto simp: ver_mem_complete_def gguard_def appt_consumed_def Let_def split: option.splits if_splits)

lemma ver_completeFlow_cases:
  assumes "ver_mem_completeFlow c i h vid now m = (m', r)"
  obtains (refused) e where "m' = m" and "r = Inl e"
  | (taken) f ch where "map_of (xm_flows m) i = Some f" and "vf_Status f = FlowOpen"
      and "find_challenge (\<lambda>ch. vc_FlowID ch = i) h (xm_challenges m) = Some ch"
      and "\<not> chal_Consumed ch" and "\<not> chal_Expired ch now" and "map_of (xm_byFlow m) i = None"
      and "let v' = \<lparr>vi_ID = vid, vi_AppointmentID = zero_id, vi_FlowID = vf_ID f, vi_ListingID = vf_ListingID f,
             vi_RequesterUserID = vf_RequesterUserID f, vi_ProviderUserID = vf_ProviderUserID f,
             vi_InteractionType = vf_InteractionType f, vi_VerificationMethod = vc_Method ch, vi_VerifiedAt = now\<rparr>;
             m1 = flow_consumed m i f ch now
           in case inter_Validate v' of
                Some e \<Rightarrow> m' = m1 \<and> r = Inl e
              | None \<Rightarrow> m' = m1\<lparr>xm_interactions := AList.update vid v' (xm_interactions m),
                   xm_byFlow := AList.update i vid (xm_byFlow m)\<rparr> \<and> r = Inr v'"
  using assms
  by (auto simp: ver_mem_completeFlow_def gguard_def flow_consumed_def Let_def split: option.splits if_splits)

lemma ver_consumed_wf:
  assumes "ver_wf m"
  shows "map_of (xm_appointments m) i = Some b \<Longrightarrow> ver_wf (appt_consumed m i b ch now)"
    and "map_of (xm_flows m) i = Some f \<Longrightarrow> ver_wf (flow_consumed m i f ch now)"
  using assms by (simp_all add: ver_wf_def appt_consumed_def flow_consumed_def)

lemma ver_unconsumed:
  assumes "find_challenge p h (xm_challenges m) = Some ch" and "ver_wf m" and "\<not> chal_Consumed ch"
    and "map_of (xm_challenges m) i = Some x" and "chal_Consumed x"
  shows "vc_ID ch \<noteq> i"
proof -
  obtain old where "map_of (xm_challenges m) (vc_ID ch) = Some old" "ch = old\<lparr>vc_ID := vc_ID ch\<rparr>"
    using find_challenge_D [OF assms(1)] assms(2) by (auto simp: ver_wf_def)
  moreover have "chal_Consumed (old\<lparr>vc_ID := k\<rparr>) = chal_Consumed old" for k
    by (simp add: chal_Consumed_def)
  ultimately show ?thesis using assms(3-5) by (metis option.inject)
qed

lemma appt_consumed_keeps:
  assumes "ver_wf m" and "map_of (xm_appointments m) i = Some b" and "va_Status b = VerAccepted"
    and "find_challenge (\<lambda>ch. vc_AppointmentID ch = i) h (xm_challenges m) = Some ch" and "\<not> chal_Consumed ch"
  shows "ver_keeps m (appt_consumed m i b ch now)"
  using ver_unconsumed [OF assms(4,1,5)] assms(2,3)
  by (auto simp: ver_keeps_def appt_consumed_def appt_deal_def)

lemma flow_consumed_keeps:
  assumes "ver_wf m" and "map_of (xm_flows m) i = Some f" and "vf_Status f = FlowOpen"
    and "find_challenge (\<lambda>ch. vc_FlowID ch = i) h (xm_challenges m) = Some ch" and "\<not> chal_Consumed ch"
  shows "ver_keeps m (flow_consumed m i f ch now)"
  using ver_unconsumed [OF assms(4,1,5)] assms(2,3)
  by (auto simp: ver_keeps_def flow_consumed_def flow_deal_def)

lemma ver_keeps_index:
  assumes "ver_keeps m m1" and "map_of (xm_byAppt m1) = map_of (xm_byAppt m)"
    and "map_of (xm_byFlow m1) = map_of (xm_byFlow m)"
  shows "map_of (xm_byAppt m) i = None \<Longrightarrow>
      ver_keeps m (m1\<lparr>xm_interactions := is, xm_byAppt := AList.update i x (xm_byAppt m)\<rparr>)"
    and "map_of (xm_byFlow m) i = None \<Longrightarrow>
      ver_keeps m (m1\<lparr>xm_interactions := is, xm_byFlow := AList.update i x (xm_byFlow m)\<rparr>)"
    and "map_of (xm_byAppt m) i = None \<Longrightarrow>
      ver_keeps m (m1\<lparr>xm_interactions := is, xm_byAppt := AList.delete i (AList.update i x (xm_byAppt m))\<rparr>)"
    and "map_of (xm_byFlow m) i = None \<Longrightarrow>
      ver_keeps m (m1\<lparr>xm_interactions := is, xm_byFlow := AList.delete i (AList.update i x (xm_byFlow m))\<rparr>)"
  using assms unfolding ver_keeps_def by auto

lemma ver_wf_index [simp]:
  "ver_wf (m\<lparr>xm_interactions := is, xm_byAppt := ix\<rparr>) = ver_wf m"
  "ver_wf (m\<lparr>xm_interactions := is, xm_byFlow := ix\<rparr>) = ver_wf m"
  by (simp_all add: ver_wf_def)

text \<open>A confirmed completion adds an interaction with everything that has to stand behind it.\<close>

lemma appt_confirmed:
  assumes "ver_wf m" and b: "map_of (xm_appointments m) i = Some b" "appt_deal b = appt_deal a" "i = va_ID a"
    and ch: "find_challenge (\<lambda>ch. vc_AppointmentID ch = i) h (xm_challenges m) = Some ch" "\<not> chal_Expired ch now"
    and v: "v = (interaction_of a vid t)\<lparr>vi_AppointmentID := i, vi_FlowID := zero_id,
      vi_InteractionType := InteractionListingInspection, vi_VerificationMethod := vc_Method ch, vi_VerifiedAt := now\<rparr>"
    and m': "m' = (appt_consumed m i b ch now)\<lparr>xm_interactions := is, xm_byAppt := AList.update i vid (xm_byAppt m)\<rparr>"
  shows "ver_parent m' v" and "ver_consumed m' v"
proof -
  obtain old where old: "ch = old\<lparr>vc_ID := vc_ID ch\<rparr>" "vc_AppointmentID old = i"
    using find_challenge_D [OF ch(1)] assms(1) by (auto simp: ver_wf_def)
  have "vc_AppointmentID ch = i" using old by (metis challenge.select_convs(2) challenge.surjective challenge.update_convs(1))
  then show "ver_consumed m' v"
    using ch(2) by (auto simp: ver_consumed_def v m' appt_consumed_def chal_Expired_def
        intro!: exI [of _ "ch\<lparr>vc_ConsumedAt := Some now\<rparr>"])
  show "ver_parent m' v"
    using b by (simp add: ver_parent_def v m' appt_consumed_def interaction_of_def appt_deal_def inter_deal_def)
qed

lemma flow_confirmed:
  assumes "ver_wf m" and f: "map_of (xm_flows m) i = Some f" "vf_InteractionType f \<noteq> InteractionListingInspection"
    and ch: "find_challenge (\<lambda>ch. vc_FlowID ch = i) h (xm_challenges m) = Some ch" "\<not> chal_Expired ch now"
    and v: "v = \<lparr>vi_ID = vid, vi_AppointmentID = zero_id, vi_FlowID = vf_ID f, vi_ListingID = vf_ListingID f,
             vi_RequesterUserID = vf_RequesterUserID f, vi_ProviderUserID = vf_ProviderUserID f,
             vi_InteractionType = vf_InteractionType f, vi_VerificationMethod = vc_Method ch, vi_VerifiedAt = now\<rparr>"
    and m': "m' = (flow_consumed m i f ch now)\<lparr>xm_interactions := is, xm_byFlow := AList.update i vid (xm_byFlow m)\<rparr>"
  shows "ver_parent m' v" and "ver_consumed m' v"
proof -
  have i: "vf_ID f = i" using assms(1) f(1) by (simp add: ver_wf_def)
  obtain old where old: "ch = old\<lparr>vc_ID := vc_ID ch\<rparr>" "vc_FlowID old = i"
    using find_challenge_D [OF ch(1)] assms(1) by (auto simp: ver_wf_def)
  have "vc_FlowID ch = i" using old by (metis challenge.select_convs(3) challenge.surjective challenge.update_convs(1))
  then show "ver_consumed m' v"
    using ch(2) f(2) i by (auto simp: ver_consumed_def v m' flow_consumed_def chal_Expired_def
        intro!: exI [of _ "ch\<lparr>vc_ConsumedAt := Some now\<rparr>"])
  show "ver_parent m' v"
    using f i by (simp add: ver_parent_def v m' flow_consumed_def flow_deal_def)
qed

lemma ver_complete_step:
  assumes inv: "ver_inv m" and b0: "map_of (xm_appointments m) i = Some b0" "appt_deal b0 = appt_deal a" "i = va_ID a"
    and fresh: "map_of (xm_interactions m) vid = None"
    and run: "ver_mem_complete c i h (interaction_of a vid t) now m = (m', r)"
  shows "ver_inv m' \<and> ver_keeps m m' \<and>
    (case r of Inl _ \<Rightarrow> True
     | Inr v \<Rightarrow> vi_ID v = vid \<and> ver_inv (undo_appt vid i m') \<and> ver_keeps m (undo_appt vid i m'))"
  using run
proof (cases rule: ver_complete_cases)
  case refused
  then show ?thesis using inv by simp
next
  case (taken b ch)
  let ?m1 = "appt_consumed m i b ch now"
  define v where "v = (interaction_of a vid t)\<lparr>vi_AppointmentID := i, vi_FlowID := zero_id,
    vi_InteractionType := InteractionListingInspection, vi_VerificationMethod := vc_Method ch, vi_VerifiedAt := now\<rparr>"
  have wf: "ver_wf m" using inv by (simp add: ver_inv_def)
  have keeps: "ver_keeps m ?m1" using appt_consumed_keeps [OF wf taken(1-4)] .
  have wf1: "ver_wf ?m1" using ver_consumed_wf(1) [OF wf taken(1)] .
  have same: "xm_interactions ?m1 = xm_interactions m" "xm_byAppt ?m1 = xm_byAppt m" "xm_byFlow ?m1 = xm_byFlow m"
    by (simp_all add: appt_consumed_def)
  have inv1: "ver_inv ?m1" by (rule ver_inv_step [OF inv keeps wf1]) (simp add: same)
  show ?thesis
  proof (cases "inter_Validate v")
    case (Some e)
    then have "m' = ?m1" "r = Inl e" using taken(7) by (simp_all add: v_def Let_def)
    then show ?thesis using inv1 keeps by simp
  next
    case None
    define m2 where "m2 = ?m1\<lparr>xm_interactions := AList.update vid v (xm_interactions m),
      xm_byAppt := AList.update i vid (xm_byAppt m)\<rparr>"
    have m': "m' = m2" "r = Inr v" "vi_ID v = vid"
      using taken(7) None by (simp_all add: v_def m2_def Let_def interaction_of_def)
    have k2: "ver_keeps m m2" unfolding m2_def by (rule ver_keeps_index(1) [OF keeps]) (simp_all add: same taken(6))
    have "appt_deal b = appt_deal a" using taken(1) b0 by simp
    from appt_confirmed [OF wf taken(1) this b0(3) taken(3,5) v_def m2_def]
    have "ver_parent m2 v" "ver_consumed m2 v" .
    then have i2: "ver_inv m2"
      by (intro ver_inv_step [OF inv k2]) (use None m'(3) wf1 in \<open>auto simp: m2_def split: if_splits\<close>)
    have u: "undo_appt vid i m2 = ?m1\<lparr>xm_interactions := AList.delete vid (AList.update vid v (xm_interactions m)),
      xm_byAppt := AList.delete i (AList.update i vid (xm_byAppt m))\<rparr>" by (simp add: undo_appt_def m2_def)
    have ku: "ver_keeps m (undo_appt vid i m2)"
      unfolding u by (rule ver_keeps_index(3) [OF keeps]) (simp_all add: same taken(6))
    have "ver_inv (undo_appt vid i m2)"
      by (rule ver_inv_step [OF inv ku]) (use wf1 in \<open>auto simp: u split: if_splits\<close>)
    then show ?thesis using i2 k2 ku m' by simp
  qed
qed

lemma ver_completeFlow_step:
  assumes inv: "ver_inv m" and fresh: "map_of (xm_interactions m) vid = None"
    and run: "ver_mem_completeFlow c i h vid now m = (m', r)"
  shows "ver_inv m' \<and> ver_keeps m m' \<and>
    (case r of Inl _ \<Rightarrow> True
     | Inr v \<Rightarrow> vi_ID v = vid \<and> ver_inv (undo_flow vid i m') \<and> ver_keeps m (undo_flow vid i m'))"
  using run
proof (cases rule: ver_completeFlow_cases)
  case refused
  then show ?thesis using inv by simp
next
  case (taken f ch)
  let ?m1 = "flow_consumed m i f ch now"
  define v where "v = \<lparr>vi_ID = vid, vi_AppointmentID = zero_id, vi_FlowID = vf_ID f, vi_ListingID = vf_ListingID f,
    vi_RequesterUserID = vf_RequesterUserID f, vi_ProviderUserID = vf_ProviderUserID f,
    vi_InteractionType = vf_InteractionType f, vi_VerificationMethod = vc_Method ch, vi_VerifiedAt = now\<rparr>"
  have wf: "ver_wf m" using inv by (simp add: ver_inv_def)
  have keeps: "ver_keeps m ?m1" using flow_consumed_keeps [OF wf taken(1-4)] .
  have wf1: "ver_wf ?m1" using ver_consumed_wf(2) [OF wf taken(1)] .
  have same: "xm_interactions ?m1 = xm_interactions m" "xm_byAppt ?m1 = xm_byAppt m" "xm_byFlow ?m1 = xm_byFlow m"
    by (simp_all add: flow_consumed_def)
  have inv1: "ver_inv ?m1" by (rule ver_inv_step [OF inv keeps wf1]) (simp add: same)
  show ?thesis
  proof (cases "inter_Validate v")
    case (Some e)
    then have "m' = ?m1" "r = Inl e" using taken(7) by (simp_all add: v_def Let_def)
    then show ?thesis using inv1 keeps by simp
  next
    case None
    define m2 where "m2 = ?m1\<lparr>xm_interactions := AList.update vid v (xm_interactions m),
      xm_byFlow := AList.update i vid (xm_byFlow m)\<rparr>"
    have m': "m' = m2" "r = Inr v" "vi_ID v = vid"
      using taken(7) None by (simp_all add: v_def m2_def Let_def)
    have k2: "ver_keeps m m2" unfolding m2_def by (rule ver_keeps_index(2) [OF keeps]) (simp_all add: same taken(6))
    have "vf_InteractionType f \<noteq> InteractionListingInspection" using wf taken(1) by (auto simp: ver_wf_def)
    from flow_confirmed [OF wf taken(1) this taken(3,5) v_def m2_def]
    have "ver_parent m2 v" "ver_consumed m2 v" .
    then have i2: "ver_inv m2"
      by (intro ver_inv_step [OF inv k2]) (use None m'(3) wf1 in \<open>auto simp: m2_def split: if_splits\<close>)
    have u: "undo_flow vid i m2 = ?m1\<lparr>xm_interactions := AList.delete vid (AList.update vid v (xm_interactions m)),
      xm_byFlow := AList.delete i (AList.update i vid (xm_byFlow m))\<rparr>" by (simp add: undo_flow_def m2_def)
    have ku: "ver_keeps m (undo_flow vid i m2)"
      unfolding u by (rule ver_keeps_index(4) [OF keeps]) (simp_all add: same taken(6))
    have "ver_inv (undo_flow vid i m2)"
      by (rule ver_inv_step [OF inv ku]) (use wf1 in \<open>auto simp: u split: if_splits\<close>)
    then show ?thesis using i2 k2 ku m' by simp
  qed
qed

text \<open>The hook runs after the first part and changes nothing; its failure undoes the new entries.\<close>

lemma ver_hooked:
  assumes "quiet_hook enq"
    and "g m = (m1, r)" and "P m1" and "\<And>v. r = Inr v \<Longrightarrow> P (undo v m1)"
  shows "P (fst (gbind (zoom (\<lambda>m. m) (\<lambda>f. f) g) (\<lambda>v. case enq of None \<Rightarrow> gret v
      | Some enq \<Rightarrow> gcase (enq c v) (\<lambda>err w. (undo v w, Inl err)) (\<lambda>_. gret v)) m))"
proof -
  let ?w = "fst (gbind (zoom (\<lambda>m. m) (\<lambda>f. f) g) (\<lambda>v. case enq of None \<Rightarrow> gret v
    | Some enq \<Rightarrow> gcase (enq c v) (\<lambda>err w. (undo v w, Inl err)) (\<lambda>_. gret v)) m)"
  have "?w = m1 \<or> (\<exists>v. r = Inr v \<and> ?w = undo v m1)"
  proof (cases r)
    case (Inl e)
    then show ?thesis using assms(2) by (simp add: zoom_id gbind_apply)
  next
    case (Inr v)
    show ?thesis
    proof (cases enq)
      case None
      then show ?thesis using assms(2) Inr by (simp add: zoom_id gbind_apply)
    next
      case (Some f)
      obtain m2 r2 where f: "f c v m1 = (m2, r2)" by fastforce
      have "fst (f c v m1) = m1" using assms(1) Some unfolding quiet_hook_def by simp
      then have "m2 = m1" using f by simp
      then show ?thesis
        using assms(2) Inr Some f by (cases r2) (simp_all add: zoom_id gbind_apply gcase_apply)
    qed
  qed
  then show ?thesis
  proof (elim disjE exE conjE)
    assume e: "?w = m1"
    show ?thesis unfolding e by (rule assms(3))
  next
    fix v
    assume "r = Inr v" and e: "?w = undo v m1"
    show ?thesis unfolding e by (rule assms(4)) fact
  qed
qed

lemma ver_run_inv: "ver_run m R \<Longrightarrow> ver_inv m \<and> ver_reads m R"
proof (induction rule: ver_run.induct)
  case start
  then show ?case by (simp add: ver_inv_def ver_wf_def ver_reads_def ver_NewMemoryStore_def)
next
  case (set_fail m R e)
  then have "ver_inv (m\<lparr>xm_fail := e\<rparr>)"
    by (intro ver_inv_step [of m "m\<lparr>xm_fail := e\<rparr>"]) (auto simp: ver_inv_def)
  then show ?case using set_fail ver_reads_keeps by auto
next
  case (insert_appointment m R c a)
  then have "ver_wf m" by (simp add: ver_inv_def)
  note k = ver_insert_keeps [OF this refl, of c a]
  have "ver_inv (fst (ver_mem_InsertAppointment c a m))"
    by (rule ver_inv_step [OF _ k(1,2)]) (use insert_appointment k(3) in simp_all)
  then show ?case using insert_appointment ver_reads_keeps [OF _ k(1)] by blast
next
  case (read_appointment m R c i m' a)
  then show ?case using ver_read_row [of c i m m' a] by (auto simp: ver_inv_def ver_reads_def)
next
  case (update_status m R f t c i now)
  then have "ver_wf m" by (simp add: ver_inv_def)
  note k = ver_update_keeps [OF this update_status(2) refl, of c i now]
  have "ver_inv (fst (ver_mem_UpdateAppointmentStatus c i f t now m))"
    by (rule ver_inv_step [OF _ k(1,2)]) (use update_status k(3) in simp_all)
  then show ?case using update_status ver_reads_keeps [OF _ k(1)] by blast
next
  case (replace_challenge m R ch c now)
  then have "ver_wf m" by (simp add: ver_inv_def)
  note k = ver_replace_keeps [OF this replace_challenge(2) refl, of c now]
  have "ver_inv (fst (ver_mem_ReplaceChallenge c ch now m))"
    by (rule ver_inv_step [OF _ k(1,2)]) (use replace_challenge k(3) in simp_all)
  then show ?case using replace_challenge ver_reads_keeps [OF _ k(1)] by blast
next
  case (create_flow m R c flow ch now)
  then have "ver_wf m" by (simp add: ver_inv_def)
  note k = ver_create_keeps [OF this refl, of c flow ch now]
  have "ver_inv (fst (ver_mem_CreateFlowWithChallenge c flow ch now m))"
    by (rule ver_inv_step [OF _ k(1,2)]) (use create_flow k(3) in simp_all)
  then show ?case using create_flow ver_reads_keeps [OF _ k(1)] by blast
next
  case (complete m R a i enq c hash now)
  obtain b where b: "map_of (xm_appointments m) (va_ID a) = Some b" "appt_deal b = appt_deal a"
    using complete by (auto simp: ver_reads_def)
  obtain m1 r where run: "ver_mem_complete c (va_ID a) hash (interaction_of a i now) now m = (m1, r)" by fastforce
  have inv: "ver_inv m" using complete by simp
  have s: "ver_inv m1" "ver_keeps m m1"
    "\<And>v. r = Inr v \<Longrightarrow> ver_inv (undo_appt (vi_ID v) (va_ID a) m1) \<and> ver_keeps m (undo_appt (vi_ID v) (va_ID a) m1)"
    using ver_complete_step [OF inv b refl complete(3) run] by auto
  have "ver_inv m' \<and> ver_keeps m m'"
    if "m' = fst (ver_mem_CompleteVerification (\<lambda>m. m) (\<lambda>f. f) c (va_ID a) hash (interaction_of a i now) now enq m)" for m'
    unfolding that ver_mem_CompleteVerification_def
    by (rule ver_hooked [where P = "\<lambda>x. ver_inv x \<and> ver_keeps m x" and m = m
        and g = "ver_mem_complete c (va_ID a) hash (interaction_of a i now) now"])
      (use s run complete(4) in auto)
  then show ?case using complete ver_reads_keeps by blast
next
  case (complete_flow m R i enq c fid hash now)
  obtain m1 r where run: "ver_mem_completeFlow c fid hash i now m = (m1, r)" by fastforce
  have inv: "ver_inv m" using complete_flow by simp
  have s: "ver_inv m1" "ver_keeps m m1"
    "\<And>v. r = Inr v \<Longrightarrow> ver_inv (undo_flow (vi_ID v) fid m1) \<and> ver_keeps m (undo_flow (vi_ID v) fid m1)"
    using ver_completeFlow_step [OF inv complete_flow(2) run] by auto
  have "ver_inv m' \<and> ver_keeps m m'"
    if "m' = fst (ver_mem_CompleteFlowVerification (\<lambda>m. m) (\<lambda>f. f) c fid hash i now enq m)" for m'
    unfolding that ver_mem_CompleteFlowVerification_def
    by (rule ver_hooked [where P = "\<lambda>x. ver_inv x \<and> ver_keeps m x" and m = m
        and g = "ver_mem_completeFlow c fid hash i now"])
      (use s run complete_flow(3) in auto)
  then show ?case using complete_flow ver_reads_keeps by blast
qed

text \<open>C11. What an interaction proves: under any interleaving of requests, every interaction on record is valid and
  backed by its appointment or flow, which is concluded and has the same listing and parties, and by a
  challenge of it that was consumed at the time on record, by the method on record and before it
  expired; and no appointment or flow has two interactions.\<close>

theorem verified_sound:
  assumes "ver_run m R" and "map_of (xm_interactions m) i = Some v"
  shows "vi_ID v = i \<and> inter_Validate v = None \<and> ver_parent m v \<and> ver_consumed m v \<and>
    (\<forall>j w. map_of (xm_interactions m) j = Some w \<and> vi_InteractionType w = InteractionListingInspection \<and>
       vi_InteractionType v = InteractionListingInspection \<and> vi_AppointmentID w = vi_AppointmentID v \<longrightarrow> j = i) \<and>
    (\<forall>j w. map_of (xm_interactions m) j = Some w \<and> vi_InteractionType w \<noteq> InteractionListingInspection \<and>
       vi_InteractionType v \<noteq> InteractionListingInspection \<and> vi_FlowID w = vi_FlowID v \<longrightarrow> j = i)"
proof -
  have inv: "vi_ID w = j \<and> inter_Validate w = None \<and> ver_parent m w \<and> ver_consumed m w"
    if "map_of (xm_interactions m) j = Some w" for j w
    using ver_run_inv [OF assms(1)] that by (simp add: ver_inv_def)
  have "j = i" if "map_of (xm_interactions m) j = Some w" "vi_AppointmentID w = vi_AppointmentID v"
      "vi_InteractionType w = InteractionListingInspection" "vi_InteractionType v = InteractionListingInspection" for j w
    using inv [OF that(1)] inv [OF assms(2)] that(2-4) by (simp add: ver_parent_def)
  moreover have "j = i" if "map_of (xm_interactions m) j = Some w" "vi_FlowID w = vi_FlowID v"
      "vi_InteractionType w \<noteq> InteractionListingInspection" "vi_InteractionType v \<noteq> InteractionListingInspection" for j w
    using inv [OF that(1)] inv [OF assms(2)] that(2-4) by (simp add: ver_parent_def)
  ultimately show ?thesis using inv [OF assms(2)] by blast
qed

text \<open>A run: an appointment is requested, accepted, read, challenged and confirmed.\<close>

definition sample_appt :: appointment where
  "sample_appt = \<lparr>va_ID = id_n 9, va_ListingID = id_n 2, va_RequesterUserID = id_n 3, va_ProviderUserID = id_n 4,
     va_Status = VerRequested, va_RequestedAt = 5, va_ScheduledAt = None, va_UpdatedAt = 5,
     va_VerifiedInteractionID = None\<rparr>"

definition sample_challenge :: challenge where
  "sample_challenge = \<lparr>vc_ID = id_n 6, vc_AppointmentID = id_n 9, vc_FlowID = zero_id, vc_Method = MethodQR,
     vc_TokenHash = replicate 32 1, vc_ExpiresAt = 100, vc_ConsumedAt = None, vc_CreatedAt = 7\<rparr>"

definition sample_ready :: verified_mem where
  "sample_ready = ver_NewMemoryStore\<lparr>xm_appointments := [(id_n 9, sample_appt\<lparr>va_Status := VerAccepted, va_UpdatedAt := 6\<rparr>)],
     xm_challenges := [(id_n 6, sample_challenge)]\<rparr>"

definition sample_interaction :: interaction where
  "sample_interaction = (interaction_of sample_appt (id_n 8) 9)\<lparr>vi_VerificationMethod := MethodQR\<rparr>"

lemma method_normal [simp]: "NormalizeMethod MethodQR = Inr MethodQR" "NormalizeMethod MethodOTP = Inr MethodOTP"
proof -
  have "list_all (\<lambda>c. graphic c \<and> \<not> (0x41 \<le> byte_of c \<and> byte_of c \<le> (0x5A :: nat))) m"
    if "m = MethodQR \<or> m = MethodOTP" for m
    using that by (auto simp: MethodQR_def MethodOTP_def graphic_def)
  then show "NormalizeMethod MethodQR = Inr MethodQR" "NormalizeMethod MethodOTP = Inr MethodOTP"
    by (simp_all add: NormalizeMethod_def ToLower_plain)
qed

lemma zero_id_zero [simp]: "ID_IsZero zero_id"
  by (simp add: ID_IsZero_def)

lemmas ver_sample_defs = sample_appt_def sample_challenge_def sample_ready_def sample_interaction_def
  background_def ver_NewMemoryStore_def interaction_of_def

lemma sample_ready_run: "ver_run sample_ready {sample_appt\<lparr>va_Status := VerAccepted, va_UpdatedAt := 6\<rparr>}"
proof -
  have v: "appt_Validate sample_appt = None" "appt_Validate (sample_appt\<lparr>va_Status := VerAccepted, va_UpdatedAt := 6\<rparr>) = None"
    by (simp_all add: appt_Validate_def sample_appt_def ver_validStatus_def)
  let ?m1 = "fst (ver_mem_InsertAppointment background sample_appt ver_NewMemoryStore)"
  have m1: "?m1 = ver_NewMemoryStore\<lparr>xm_appointments := [(id_n 9, sample_appt)]\<rparr>"
    using v(1) by (simp add: ver_mem_InsertAppointment_def background_def ver_NewMemoryStore_def)
      (simp add: sample_appt_def)
  let ?a = "sample_appt\<lparr>va_Status := VerAccepted, va_UpdatedAt := 6\<rparr>"
  let ?m2 = "fst (ver_mem_UpdateAppointmentStatus background (id_n 9) VerRequested VerAccepted 6 ?m1)"
  have st: "va_Status sample_appt = VerRequested" by (simp add: sample_appt_def)
  have m2: "?m2 = ver_NewMemoryStore\<lparr>xm_appointments := [(id_n 9, ?a)]\<rparr>"
    unfolding m1 using v(2) st
    by (simp add: ver_mem_UpdateAppointmentStatus_def background_def ver_NewMemoryStore_def Let_def)
  have "ver_run ?m2 {}"
    by (intro ver_run.update_status ver_run.insert_appointment ver_run.start) (simp add: ver_moves_def)
  moreover have "ver_mem_GetAppointment background (id_n 9) ?m2 = (?m2, Inr ?a)"
    unfolding m2 by (simp add: ver_mem_GetAppointment_def background_def ver_NewMemoryStore_def withInteractionID_def)
  ultimately have "ver_run ?m2 {?a}" by (rule ver_run.read_appointment)
  then have "ver_run (fst (ver_mem_ReplaceChallenge background sample_challenge 7 ?m2)) {?a}"
    by (rule ver_run.replace_challenge) (unfold m2, simp add: ver_NewMemoryStore_def)
  moreover have "fst (ver_mem_ReplaceChallenge background sample_challenge 7 ?m2) = sample_ready"
    unfolding m2 by (simp add: ver_mem_ReplaceChallenge_def chal_Validate_def ver_sample_defs TokenHashSize_def)
  ultimately show ?thesis by simp
qed

lemma sample_complete:
  "ver_mem_complete background (id_n 9) (replicate 32 1) (interaction_of sample_appt (id_n 8) 9) 9 sample_ready =
   ((appt_consumed sample_ready (id_n 9) (sample_appt\<lparr>va_Status := VerAccepted, va_UpdatedAt := 6\<rparr>) sample_challenge 9)
      \<lparr>xm_interactions := [(id_n 8, sample_interaction)], xm_byAppt := [(id_n 9, id_n 8)]\<rparr>, Inr sample_interaction)"
  by (simp add: ver_mem_complete_def ver_sample_defs find_challenge_def chal_Consumed_def chal_Expired_def
      appt_consumed_def inter_Validate_def inspection_normal Let_def)

theorem verified_sound_witness:
  "\<exists>m R. ver_run m R \<and> map_of (xm_interactions m) (id_n 8) = Some sample_interaction \<and>
     ver_parent m sample_interaction \<and> ver_consumed m sample_interaction"
proof -
  let ?a = "sample_appt\<lparr>va_Status := VerAccepted, va_UpdatedAt := 6\<rparr>"
  let ?m = "fst (ver_mem_CompleteVerification (\<lambda>m. m) (\<lambda>f. f) background (va_ID ?a) (replicate 32 1)
    (interaction_of ?a (id_n 8) 9) 9 None sample_ready)"
  have i: "va_ID ?a = id_n 9" "interaction_of ?a (id_n 8) 9 = interaction_of sample_appt (id_n 8) 9"
    by (simp_all add: sample_appt_def interaction_of_def)
  have "ver_run ?m {?a}"
    by (intro ver_run.complete sample_ready_run) (simp_all add: sample_ready_def ver_NewMemoryStore_def quiet_hook_def)
  moreover have "map_of (xm_interactions ?m) (id_n 8) = Some sample_interaction"
    unfolding i ver_mem_CompleteVerification_def by (simp add: zoom_id gbind_apply sample_complete)
  ultimately show ?thesis using verified_sound by blast
qed

text \<open>
  The in-memory store deletes the interaction again when its event cannot be enqueued, but leaves the
  appointment completed and the challenge consumed.
\<close>

text \<open>C38. A confirmation is lost with its event: when the enqueuer refuses the event, the in-memory store reports the
  error with the appointment completed and no interaction for it, and from then on every further
  attempt to confirm the appointment is refused as an invalid transition.\<close>

theorem confirmation_lost_with_event:
  assumes "quiet_hook (Some enq)" and "ver_mem_complete c i h v now m = (m1, Inr v')" and "enq c v' m1 = (m1, Inl e)"
  shows "let (m2, r) = ver_mem_CompleteVerification (\<lambda>m. m) (\<lambda>f. f) c i h v now (Some enq) m
    in r = Inl e \<and> map_of (xm_byAppt m2) i = None \<and> map_option va_Status (map_of (xm_appointments m2) i) = Some VerCompleted \<and>
       (\<forall>h' v2 now' enq'. snd (ver_mem_CompleteVerification (\<lambda>m. m) (\<lambda>f. f) c i h' v2 now' enq' m2) =
          Inl (VerErr Ver_errInvalidTransition))"
proof -
  have c: "ctx_Err c = None" "xm_fail m = None"
    using assms(2) by (auto simp: ver_mem_complete_def gguard_def split: option.splits)
  have r: "ver_mem_CompleteVerification (\<lambda>m. m) (\<lambda>f. f) c i h v now (Some enq) m = (undo_appt (vi_ID v') i m1, Inl e)"
    using assms(2,3) by (simp add: ver_mem_CompleteVerification_def zoom_id gbind_apply gcase_apply)
  have m1: "map_option va_Status (map_of (xm_appointments m1) i) = Some VerCompleted" "xm_fail m1 = None"
    using assms(2) c(2)
    by (cases rule: ver_complete_cases, simp, auto simp: Let_def appt_consumed_def split: option.splits)+
  then have m2: "map_option va_Status (map_of (xm_appointments (undo_appt (vi_ID v') i m1)) i) = Some VerCompleted"
    "xm_fail (undo_appt (vi_ID v') i m1) = None" "map_of (xm_byAppt (undo_appt (vi_ID v') i m1)) i = None"
    by (simp_all add: undo_appt_def)
  then have "snd (ver_mem_complete c i h' v2 now' (undo_appt (vi_ID v') i m1)) = Inl (VerErr Ver_errInvalidTransition)"
    for h' v2 now'
    using c(1) by (auto simp: ver_mem_complete_def)
  then have "snd (ver_mem_CompleteVerification (\<lambda>m. m) (\<lambda>f. f) c i h' v2 now' enq' (undo_appt (vi_ID v') i m1)) =
      Inl (VerErr Ver_errInvalidTransition)" for h' v2 now' enq'
    by (simp add: ver_mem_CompleteVerification_def zoom_id gbind_apply split: prod.split sum.split) (metis sum.simps snd_conv)
  then show ?thesis using m2 by (simp add: r)
qed

theorem confirmation_lost_with_event_witness:
  "snd (ver_mem_CompleteVerification (\<lambda>m. m) (\<lambda>f. f) background (id_n 9) (replicate 32 1)
     (interaction_of sample_appt (id_n 8) 9) 9 (Some (\<lambda>c v m. (m, Inl (ObErr Ob_ErrUnavailable)))) sample_ready) =
   Inl (ObErr Ob_ErrUnavailable)"
  using confirmation_lost_with_event [of "\<lambda>c v m. (m, Inl (ObErr Ob_ErrUnavailable))", OF _ sample_complete]
  by (simp add: quiet_hook_def Let_def case_prod_beta)

text \<open>What the service enqueues is what other packages decode.\<close>

lemma interaction_payload_decodes:
  assumes "interaction_payload_ok p" and "iv_VerifiedAt p \<noteq> []"
    and trim: "\<And>s. s \<in> {iv_InteractionID p, iv_AppointmentID p, iv_FlowID p, iv_ListingID p, iv_RequesterUserID p,
      iv_ProviderUserID p, iv_InteractionType p, iv_VerificationMethod p, iv_VerifiedAt p} \<Longrightarrow> strings_TrimSpace s = s"
  shows "DecodeInteractionCompleted (Some (interaction_json p)) = Inr p"
proof -
  let ?ms = "[(''interaction_id'', iv_InteractionID p)] @ omitempty ''appointment_id'' (iv_AppointmentID p) @
      omitempty ''flow_id'' (iv_FlowID p) @
      [(''listing_id'', iv_ListingID p), (''requester_user_id'', iv_RequesterUserID p),
       (''provider_user_id'', iv_ProviderUserID p), (''interaction_type'', iv_InteractionType p),
       (''verification_method'', iv_VerificationMethod p)] @ omitempty ''verified_at'' (iv_VerifiedAt p)"
  have "list_all plain_name interaction_names" "distinct interaction_names" "fst ` set ?ms \<subseteq> set interaction_names"
    "distinct (map fst ?ms)"
    by (simp_all add: interaction_names_def plain_name_def omitempty_def)
  from json_roundtrip [OF this]
  obtain acc where acc: "json_Unmarshal_strings interaction_names (Some (interaction_json p)) = Some acc"
    and fld: "string_field acc = (\<lambda>k. case map_of ?ms k of None \<Rightarrow> [] | Some v \<Rightarrow> v)"
    by (auto simp: interaction_json_def)
  have f: "string_field acc ''interaction_id'' = iv_InteractionID p" "string_field acc ''appointment_id'' = iv_AppointmentID p"
    "string_field acc ''flow_id'' = iv_FlowID p" "string_field acc ''listing_id'' = iv_ListingID p"
    "string_field acc ''requester_user_id'' = iv_RequesterUserID p"
    "string_field acc ''provider_user_id'' = iv_ProviderUserID p"
    "string_field acc ''interaction_type'' = iv_InteractionType p"
    "string_field acc ''verification_method'' = iv_VerificationMethod p" "string_field acc ''verified_at'' = iv_VerifiedAt p"
    unfolding fld by (simp_all add: omitempty_def map_add_def)
  show ?thesis
    unfolding DecodeInteractionCompleted_def acc option.case Let_def f using trim assms(1) by (cases p) simp
qed

text \<open>An interaction with the normalised names the service writes.\<close>

definition inter_normal :: "interaction \<Rightarrow> bool" where
  "inter_normal v \<longleftrightarrow> inter_Validate v = None \<and> vi_VerificationMethod v \<in> {MethodOTP, MethodQR} \<and>
     vi_InteractionType v \<in> {InteractionListingInspection, InteractionTransaction, InteractionDelivery}"

lemma inter_normal_scope:
  assumes "inter_normal v"
  shows "vi_RequesterUserID v \<noteq> vi_ProviderUserID v"
    and "if vi_InteractionType v = InteractionListingInspection
     then \<not> ID_IsZero (vi_AppointmentID v) \<and> ID_IsZero (vi_FlowID v)
     else ID_IsZero (vi_AppointmentID v) \<and> \<not> ID_IsZero (vi_FlowID v)"
proof -
  have "NormalizeInteractionType (vi_InteractionType v) = Inr (vi_InteractionType v)"
    using assms inspection_normal by (auto simp: inter_normal_def)
  then show "vi_RequesterUserID v \<noteq> vi_ProviderUserID v"
    "if vi_InteractionType v = InteractionListingInspection
     then \<not> ID_IsZero (vi_AppointmentID v) \<and> ID_IsZero (vi_FlowID v)
     else ID_IsZero (vi_AppointmentID v) \<and> \<not> ID_IsZero (vi_FlowID v)"
    using assms by (auto simp: inter_normal_def inter_Validate_def Let_def split: if_splits)
qed

lemma ver_words:
  assumes "s \<in> {MethodOTP, MethodQR, InteractionListingInspection, InteractionTransaction, InteractionDelivery}"
  shows "strings_TrimSpace s = s" and "s \<noteq> []"
  using assms by (auto simp: MethodOTP_def MethodQR_def ver_type_defs graphic_def intro!: TrimSpace_graphic)

lemma interaction_payload_good:
  assumes "inter_normal v"
  shows "interaction_payload_ok (interaction_payload v)"
proof -
  have ne: "ID_String x \<noteq> []" for x by (simp add: ID_String_def Let_def)
  have "vi_VerificationMethod v \<noteq> []" "vi_InteractionType v \<noteq> []"
    using assms ver_words(2) by (auto simp: inter_normal_def)
  moreover have "vi_InteractionType v = InteractionListingInspection \<or> vi_InteractionType v = InteractionTransaction \<or>
      vi_InteractionType v = InteractionDelivery" using assms by (simp add: inter_normal_def)
  ultimately show ?thesis
    using inter_normal_scope [OF assms]
    by (simp add: interaction_payload_ok_def interaction_payload_def ID_String_inject ne split: if_splits)
qed

lemma interaction_event_roundtrip:
  assumes "inter_normal v"
  shows "\<exists>ev. encodeInteractionCompleted v = Inr ev \<and>
    DecodeInteractionCompleted (ev_Payload ev) = Inr (interaction_payload v)"
proof -
  let ?p = "interaction_payload v"
  have w: "strings_TrimSpace (vi_VerificationMethod v) = vi_VerificationMethod v"
    "strings_TrimSpace (vi_InteractionType v) = vi_InteractionType v"
    using assms ver_words(1) by (auto simp: inter_normal_def)
  have e: "strings_TrimSpace [] = []" by (simp add: TrimSpace_graphic)
  have "strings_TrimSpace s = s" if "s \<in> {iv_InteractionID ?p, iv_AppointmentID ?p, iv_FlowID ?p, iv_ListingID ?p,
      iv_RequesterUserID ?p, iv_ProviderUserID ?p, iv_InteractionType ?p, iv_VerificationMethod ?p, iv_VerifiedAt ?p}" for s
    using that w e by (elim insertE emptyE) (simp_all add: interaction_payload_def split: if_splits)
  then have "DecodeInteractionCompleted (Some (interaction_json ?p)) = Inr ?p"
    by (intro interaction_payload_decodes interaction_payload_good assms) (simp_all add: interaction_payload_def)
  then show ?thesis
    using inter_normal_scope(2) [OF assms] by (simp add: encodeInteractionCompleted_def split: if_splits)
qed

end
