(* ===== verification/Reviews.thy ===== *)
theory Reviews
  imports Verified
begin

text \<open>
  The package \<open>reviews\<close>: a requester reviews a verified inspection of a listing within a window
  (\<open>domain.go\<close>, \<open>service.go\<close>), the in-memory store with its index by interaction (\<open>memory.go\<close>), the public
  pages of a listing with their cursors (\<open>cursor.go\<close>) and the event other packages project (\<open>events.go\<close>,
  \<open>contracts/events.go\<close>).
\<close>

section \<open>Data\<close>

definition rev_MaxBodyBytes :: nat where "rev_MaxBodyBytes = 4000"
definition rev_MaxReviews :: int where "rev_MaxReviews = 50"
definition rev_MaxPublicReviews :: int where "rev_MaxPublicReviews = 20"
definition rev_MinRating :: int where "rev_MinRating = 1"
definition rev_MaxRating :: int where "rev_MaxRating = 5"
definition rev_DefaultCreationWindow :: duration where "rev_DefaultCreationWindow = 24 * hour"

definition rev_ParseID :: "string \<Rightarrow> ID res" where
  "rev_ParseID = ParseID (RevErr Rev_errZeroID) (RevErr Rev_errZeroID)"

record rev_policy =
  rp_CreationWindow :: duration

definition rev_policy_Validate :: "rev_policy \<Rightarrow> go_error option" where
  "rev_policy_Validate p = (if rp_CreationWindow p \<le> 0 then Some (RevErr Rev_errInvalidPolicy) else None)"

definition rev_DefaultPolicy :: rev_policy where
  "rev_DefaultPolicy = \<lparr>rp_CreationWindow = rev_DefaultCreationWindow\<rparr>"

record review =
  rw_ID :: ID
  rw_VerifiedInteractionID :: ID
  rw_ListingID :: ID
  rw_ReviewerUserID :: ID
  rw_ProviderUserID :: ID
  rw_Body :: "string option"
  rw_ListingAccuracy :: int
  rw_ProviderService :: int
  rw_CreatedAt :: time
  rw_UpdatedAt :: time

record public_review =
  pw_ID :: ID
  pw_Body :: "string option"
  pw_ListingAccuracy :: int
  pw_ProviderService :: int
  pw_CreatedAt :: time

record public_query =
  pq_ListingID :: ID
  pq_Cursor :: string
  pq_Limit :: int

record public_page =
  pp_Reviews :: "public_review list"
  pp_NextCursor :: string

definition toPublicReview :: "review \<Rightarrow> public_review" where
  "toPublicReview r =
     \<lparr>pw_ID = rw_ID r, pw_Body = rw_Body r, pw_ListingAccuracy = rw_ListingAccuracy r,
      pw_ProviderService = rw_ProviderService r, pw_CreatedAt = rw_CreatedAt r\<rparr>"

definition rev_ValidateRating :: "int \<Rightarrow> go_error option" where
  "rev_ValidateRating n =
     (if n < rev_MinRating \<or> rev_MaxRating < n then Some (RevErr Rev_errInvalidRating) else None)"

definition rev_NormalizeBody :: "string \<Rightarrow> string option res" where
  "rev_NormalizeBody raw =
     (let body = strings_TrimSpace raw
      in if body = [] then Inr None
         else if rev_MaxBodyBytes < length body then Inl (RevErr Rev_errInvalidBody)
         else Inr (Some body))"

definition rev_Validate :: "review \<Rightarrow> go_error option" where
  "rev_Validate r =
     (if ID_IsZero (rw_ID r) \<or> ID_IsZero (rw_VerifiedInteractionID r) \<or> ID_IsZero (rw_ListingID r) \<or>
         ID_IsZero (rw_ReviewerUserID r) \<or> ID_IsZero (rw_ProviderUserID r) then Some (RevErr Rev_errZeroID)
      else if rw_ReviewerUserID r = rw_ProviderUserID r then Some (RevErr Rev_errSelfReview)
      else case rev_ValidateRating (rw_ListingAccuracy r) of Some e \<Rightarrow> Some e | None \<Rightarrow>
      case rev_ValidateRating (rw_ProviderService r) of Some e \<Rightarrow> Some e | None \<Rightarrow>
      case (case rw_Body r of
              None \<Rightarrow> None
            | Some b \<Rightarrow> (case rev_NormalizeBody b of Inl e \<Rightarrow> Some e | Inr _ \<Rightarrow> None)) of Some e \<Rightarrow> Some e | None \<Rightarrow>
      if time_IsZero (rw_CreatedAt r) \<or> time_IsZero (rw_UpdatedAt r) then Some (RevErr Rev_errInvalidReview)
      else None)"

record eligibility =
  el_Eligible :: bool
  el_ExpiresAt :: "time option"
  el_AlreadyReviewed :: bool

record review_input =
  rn_VerifiedInteractionID :: ID
  rn_Body :: string
  rn_ListingAccuracy :: int
  rn_ProviderService :: int

definition rev_ExpiresAt :: "rev_policy \<Rightarrow> time \<Rightarrow> time" where
  "rev_ExpiresAt p verifiedAt = time_UTC verifiedAt + rp_CreationWindow p"

definition rev_WithinWindow :: "rev_policy \<Rightarrow> time \<Rightarrow> time \<Rightarrow> bool" where
  "rev_WithinWindow p verifiedAt now \<longleftrightarrow>
     \<not> time_IsZero verifiedAt \<and> time_Before (time_UTC now) (rev_ExpiresAt p verifiedAt)"

section \<open>Cursors\<close>

definition cursorVersion :: int where "cursorVersion = 1"

record listing_cursor =
  lc_CreatedAt :: time
  lc_ID :: ID

definition cursor_wire :: "(string \<times> field_kind) list" where
  "cursor_wire = [(''v'', IntField), (''l'', StringField), (''t'', StringField), (''i'', StringField)]"

definition cursor_json :: "ID \<Rightarrow> public_review \<Rightarrow> json" where
  "cursor_json listingID row =
     JObj [(''v'', json_int cursorVersion), (''l'', JStr (ID_String listingID)),
           (''t'', JStr (time_Format_RFC3339Nano (pw_CreatedAt row))), (''i'', JStr (ID_String (pw_ID row)))]"

definition encodePublicCursor :: "ID \<Rightarrow> public_review \<Rightarrow> string res" where
  "encodePublicCursor listingID row =
     (if ID_IsZero listingID \<or> ID_IsZero (pw_ID row) \<or> time_IsZero (pw_CreatedAt row)
        then Inl (RevErr Rev_errInvalidQuery)
      else Inr (b64_Encode (json_text (cursor_json listingID row))))"

definition decodePublicCursor :: "string \<Rightarrow> ID \<Rightarrow> listing_cursor res" where
  "decodePublicCursor raw listingID =
     (case b64_DecodeString raw of None \<Rightarrow> Inl (RevErr Rev_errInvalidQuery) | Some b \<Rightarrow>
      case json_Unmarshal_fields cursor_wire (json_parse b) of None \<Rightarrow> Inl (RevErr Rev_errInvalidQuery) | Some w \<Rightarrow>
      if int_field w ''v'' \<noteq> cursorVersion \<or> strings_TrimSpace (str_field w ''l'') = [] \<or>
         strings_TrimSpace (str_field w ''t'') = [] \<or> strings_TrimSpace (str_field w ''i'') = []
        then Inl (RevErr Rev_errInvalidQuery)
      else case rev_ParseID (str_field w ''l'') of Inl _ \<Rightarrow> Inl (RevErr Rev_errInvalidQuery) | Inr lid \<Rightarrow>
      if lid \<noteq> listingID then Inl (RevErr Rev_errInvalidQuery)
      else case rev_ParseID (str_field w ''i'') of Inl _ \<Rightarrow> Inl (RevErr Rev_errInvalidQuery) | Inr rid \<Rightarrow>
      case time_Parse_RFC3339 (str_field w ''t'') of None \<Rightarrow> Inl (RevErr Rev_errInvalidQuery) | Some ts \<Rightarrow>
      Inr \<lparr>lc_CreatedAt = time_UTC ts, lc_ID = rid\<rparr>)"

definition afterListingCursor :: "review \<Rightarrow> listing_cursor option \<Rightarrow> bool" where
  "afterListingCursor r cursor \<longleftrightarrow>
     (case cursor of
        None \<Rightarrow> True
      | Some c \<Rightarrow>
          if time_Before (rw_CreatedAt r) (lc_CreatedAt c) then True
          else if time_After (rw_CreatedAt r) (lc_CreatedAt c) then False
          else rw_ID r < lc_ID c)"

definition normalizePublicLimit :: "int \<Rightarrow> int res" where
  "normalizePublicLimit limit =
     (let limit = (if limit = 0 then rev_MaxPublicReviews else limit)
      in if limit < 1 \<or> rev_MaxPublicReviews < limit then Inl (RevErr Rev_errInvalidQuery) else Inr limit)"

section \<open>The in-memory store\<close>

definition cloneReview :: "review \<Rightarrow> review" where
  "cloneReview r = r\<lparr>rw_Body := map_option (\<lambda>v. v) (rw_Body r)\<rparr>"

lemma cloneReview_id [simp]: "cloneReview r = r"
  by (simp add: cloneReview_def option.map_ident)

record review_mem =
  wm_byID :: "(ID, review) gomap"
  wm_byInteraction :: "(ID, ID) gomap"
  wm_fail :: "go_error option"

definition rev_NewMemoryStore :: review_mem where
  "rev_NewMemoryStore = \<lparr>wm_byID = [], wm_byInteraction = [], wm_fail = None\<rparr>"

definition rev_mem_insert :: "ctx \<Rightarrow> review \<Rightarrow> (review_mem, unit) go" where
  "rev_mem_insert c r = (\<lambda>m.
     gguard (ctx_Err c) (gguard (rev_Validate r) (gguard (wm_fail m)
       (if map_of (wm_byInteraction m) (rw_VerifiedInteractionID r) \<noteq> None then gfail (RevErr Rev_errConflict)
        else if map_of (wm_byID m) (rw_ID r) \<noteq> None then gfail (RevErr Rev_errConflict)
        else (\<lambda>m. (m\<lparr>wm_byID := AList.update (rw_ID r) (cloneReview r) (wm_byID m),
                     wm_byInteraction := AList.update (rw_VerifiedInteractionID r) (rw_ID r) (wm_byInteraction m)\<rparr>,
                   Inr ()))))) m)"

definition rev_mem_remove :: "review \<Rightarrow> review_mem \<Rightarrow> review_mem" where
  "rev_mem_remove r m = m\<lparr>wm_byID := AList.delete (rw_ID r) (wm_byID m),
     wm_byInteraction := AList.delete (rw_VerifiedInteractionID r) (wm_byInteraction m)\<rparr>"

text \<open>The lock is released while the hook runs.\<close>

definition rev_mem_InsertReview ::
  "('w \<Rightarrow> review_mem) \<Rightarrow> ((review_mem \<Rightarrow> review_mem) \<Rightarrow> 'w \<Rightarrow> 'w) \<Rightarrow>
   ctx \<Rightarrow> review \<Rightarrow> (ctx \<Rightarrow> ('w, unit) go) option \<Rightarrow> ('w, unit) go" where
  "rev_mem_InsertReview get upd c r enqueue =
     gbind (zoom get upd (rev_mem_insert c r)) (\<lambda>_.
     case enqueue of
       None \<Rightarrow> gret ()
     | Some enq \<Rightarrow> gcase (enq c) (\<lambda>err w. (upd (rev_mem_remove r) w, Inl err)) (\<lambda>_. gret ()))"

definition zero_review :: review where
  "zero_review = \<lparr>rw_ID = zero_id, rw_VerifiedInteractionID = zero_id, rw_ListingID = zero_id,
     rw_ReviewerUserID = zero_id, rw_ProviderUserID = zero_id, rw_Body = None, rw_ListingAccuracy = 0,
     rw_ProviderService = 0, rw_CreatedAt = 0, rw_UpdatedAt = 0\<rparr>"

definition rev_mem_GetByInteraction :: "ctx \<Rightarrow> ID \<Rightarrow> (review_mem, review) go" where
  "rev_mem_GetByInteraction c i = (\<lambda>m.
     gguard (ctx_Err c) (gguard (wm_fail m)
       (case map_of (wm_byInteraction m) i of
          None \<Rightarrow> gfail (RevErr Rev_errNotFound)
        | Some j \<Rightarrow> gret (cloneReview (case map_of (wm_byID m) j of None \<Rightarrow> zero_review | Some r \<Rightarrow> r)))) m)"

definition rev_mem_ListForReviewer :: "ctx \<Rightarrow> ID \<Rightarrow> int \<Rightarrow> (review_mem, review list) go" where
  "rev_mem_ListForReviewer c reviewerUserID limit = (\<lambda>m.
     gguard (ctx_Err c) (gguard (wm_fail m)
       (let limit = (if limit \<le> 0 then rev_MaxReviews else limit)
        in gret (limit_to limit (recent_first rw_CreatedAt rw_ID
             (map cloneReview (filter (\<lambda>r. rw_ReviewerUserID r = reviewerUserID) (map snd (wm_byID m)))))))) m)"

definition rev_mem_ListForListing ::
  "ctx \<Rightarrow> ID \<Rightarrow> listing_cursor option \<Rightarrow> int \<Rightarrow> (review_mem, review list) go" where
  "rev_mem_ListForListing c listingID cursor limit = (\<lambda>m.
     gguard (ctx_Err c) (gguard (wm_fail m)
       (if ID_IsZero listingID then gfail (RevErr Rev_errZeroID)
        else let limit = (if limit \<le> 0 then rev_MaxPublicReviews else limit)
        in gret (limit_to limit (recent_first rw_CreatedAt rw_ID
             (map cloneReview (filter (\<lambda>r. rw_ListingID r = listingID \<and> afterListingCursor r cursor)
               (map snd (wm_byID m)))))))) m)"

section \<open>Events\<close>

definition EventTypeVerifiedCreated :: string where "EventTypeVerifiedCreated = ''reviews.verified.created''"

record verified_created =
  vp_ReviewID :: string
  vp_VerifiedInteractionID :: string
  vp_ListingID :: string
  vp_ReviewerUserID :: string
  vp_ProviderUserID :: string
  vp_ListingAccuracy :: int
  vp_ProviderService :: int
  vp_CreatedAt :: string

definition created_fields :: "(string \<times> field_kind) list" where
  "created_fields = [(''review_id'', StringField), (''verified_interaction_id'', StringField),
     (''listing_id'', StringField), (''reviewer_user_id'', StringField), (''provider_user_id'', StringField),
     (''listing_accuracy'', IntField), (''provider_service'', IntField), (''created_at'', StringField)]"

definition created_json :: "verified_created \<Rightarrow> json" where
  "created_json p = JObj
     ([(''review_id'', JStr (vp_ReviewID p)), (''verified_interaction_id'', JStr (vp_VerifiedInteractionID p)),
       (''listing_id'', JStr (vp_ListingID p)), (''reviewer_user_id'', JStr (vp_ReviewerUserID p)),
       (''provider_user_id'', JStr (vp_ProviderUserID p)), (''listing_accuracy'', json_int (vp_ListingAccuracy p)),
       (''provider_service'', json_int (vp_ProviderService p))] @
      (if vp_CreatedAt p = [] then [] else [(''created_at'', JStr (vp_CreatedAt p))]))"

definition DecodeVerifiedCreated :: "json option \<Rightarrow> verified_created res" where
  "DecodeVerifiedCreated raw =
     (case json_Unmarshal_fields created_fields raw of
        None \<Rightarrow> Inl (RevErr RevC_ErrInvalidEvent)
      | Some acc \<Rightarrow>
          let f = (\<lambda>k. strings_TrimSpace (str_field acc k));
              p = \<lparr>vp_ReviewID = f ''review_id'', vp_VerifiedInteractionID = f ''verified_interaction_id'',
                   vp_ListingID = f ''listing_id'', vp_ReviewerUserID = f ''reviewer_user_id'',
                   vp_ProviderUserID = f ''provider_user_id'',
                   vp_ListingAccuracy = int_field acc ''listing_accuracy'',
                   vp_ProviderService = int_field acc ''provider_service'', vp_CreatedAt = f ''created_at''\<rparr>
          in if vp_ReviewID p = [] \<or> vp_VerifiedInteractionID p = [] \<or> vp_ListingID p = [] \<or>
                vp_ReviewerUserID p = [] \<or> vp_ProviderUserID p = [] \<or> vp_CreatedAt p = []
               then Inl (RevErr RevC_ErrInvalidEvent)
             else if vp_ReviewerUserID p = vp_ProviderUserID p then Inl (RevErr RevC_ErrInvalidEvent)
             else if vp_ListingAccuracy p < 1 \<or> 5 < vp_ListingAccuracy p \<or>
                vp_ProviderService p < 1 \<or> 5 < vp_ProviderService p then Inl (RevErr RevC_ErrInvalidEvent)
             else Inr p)"

definition created_payload :: "review \<Rightarrow> verified_created" where
  "created_payload r =
     \<lparr>vp_ReviewID = ID_String (rw_ID r), vp_VerifiedInteractionID = ID_String (rw_VerifiedInteractionID r),
      vp_ListingID = ID_String (rw_ListingID r), vp_ReviewerUserID = ID_String (rw_ReviewerUserID r),
      vp_ProviderUserID = ID_String (rw_ProviderUserID r), vp_ListingAccuracy = rw_ListingAccuracy r,
      vp_ProviderService = rw_ProviderService r, vp_CreatedAt = time_Format_RFC3339 (rw_CreatedAt r)\<rparr>"

definition encodeVerifiedCreated :: "review \<Rightarrow> new_event res" where
  "encodeVerifiedCreated r = Inr
     \<lparr>ev_EventType = EventTypeVerifiedCreated, ev_EventVersion = 1, ev_AggregateType = ''review'',
      ev_AggregateID = ID_String (rw_ID r), ev_Payload = Some (created_json (created_payload r)),
      ev_IdempotencyKey = EventTypeVerifiedCreated @ '':'' @ ID_String (rw_VerifiedInteractionID r),
      ev_CorrelationID = []\<rparr>"

section \<open>The service\<close>

record 'w review_store =
  ws_InsertReview :: "ctx \<Rightarrow> review \<Rightarrow> (ctx \<Rightarrow> ('w, unit) go) option \<Rightarrow> ('w, unit) go"
  ws_GetByInteraction :: "ctx \<Rightarrow> ID \<Rightarrow> ('w, review) go"
  ws_ListForReviewer :: "ctx \<Rightarrow> ID \<Rightarrow> int \<Rightarrow> ('w, review list) go"
  ws_ListForListing :: "ctx \<Rightarrow> ID \<Rightarrow> listing_cursor option \<Rightarrow> int \<Rightarrow> ('w, review list) go"

definition review_mem_store ::
  "('w \<Rightarrow> review_mem) \<Rightarrow> ((review_mem \<Rightarrow> review_mem) \<Rightarrow> 'w \<Rightarrow> 'w) \<Rightarrow> 'w review_store" where
  "review_mem_store get upd =
     \<lparr>ws_InsertReview = rev_mem_InsertReview get upd,
      ws_GetByInteraction = (\<lambda>c i. zoom get upd (rev_mem_GetByInteraction c i)),
      ws_ListForReviewer = (\<lambda>c u n. zoom get upd (rev_mem_ListForReviewer c u n)),
      ws_ListForListing = (\<lambda>c l cur n. zoom get upd (rev_mem_ListForListing c l cur n))\<rparr>"

record 'w review_service =
  wsv_store :: "'w review_store option"
  wsv_verified :: "(ctx \<Rightarrow> ID \<Rightarrow> ('w, interaction_ref) go) option"
  wsv_listings :: "'w ownership option"
  wsv_outbox :: "'w enqueuer option"
  wsv_policy :: rev_policy
  wsv_now :: "'w \<Rightarrow> 'w \<times> time"
  wsv_rand :: "'w \<Rightarrow> 'w \<times> ID option"

definition rev_NewService ::
  "'w review_store option \<Rightarrow> (ctx \<Rightarrow> ID \<Rightarrow> ('w, interaction_ref) go) option \<Rightarrow> 'w ownership option \<Rightarrow>
   'w enqueuer option \<Rightarrow> rev_policy \<Rightarrow> ('w \<Rightarrow> 'w \<times> time) \<Rightarrow> ('w \<Rightarrow> 'w \<times> ID option) \<Rightarrow> 'w review_service res" where
  "rev_NewService st verified listings enq p now rnd =
     (case st of None \<Rightarrow> Inl (RevErr Rev_errStoreRequired) | Some _ \<Rightarrow>
      case verified of None \<Rightarrow> Inl (RevErr Rev_errVerifiedReq) | Some _ \<Rightarrow>
      case listings of None \<Rightarrow> Inl (RevErr Rev_errListingsReq) | Some _ \<Rightarrow>
      case enq of None \<Rightarrow> Inl (RevErr Rev_errOutboxRequired) | Some _ \<Rightarrow>
      case rev_policy_Validate p of Some e \<Rightarrow> Inl e | None \<Rightarrow>
      Inr \<lparr>wsv_store = st, wsv_verified = verified, wsv_listings = listings, wsv_outbox = enq,
           wsv_policy = p, wsv_now = now, wsv_rand = rnd\<rparr>)"

definition rev_mapVerifiedErr :: "go_error \<Rightarrow> go_error" where
  [err_defs]: "rev_mapVerifiedErr err =
     (if err = VerCErr VerC_ErrZeroID then RevErr Rev_errZeroID
      else if err = VerCErr VerC_ErrNotFound then RevErr Rev_errNotFound
      else RevErr Rev_errUnavailable)"

definition rev_mapStoreErr :: "go_error \<Rightarrow> go_error" where
  [err_defs]: "rev_mapStoreErr err =
     (if err \<in> RevErr ` {Rev_errZeroID, Rev_errInvalidBody, Rev_errInvalidRating, Rev_errInvalidReview,
          Rev_errSelfReview, Rev_errNotFound, Rev_errConflict, Rev_errNotEligible, Rev_errStoreRequired,
          Rev_errUnavailable, Rev_errListingsReq, Rev_errInvalidQuery} then err
      else RevErr Rev_errUnavailable)"

definition rev_mapListingErr :: "go_error \<Rightarrow> go_error" where
  [err_defs]: "rev_mapListingErr err =
     (if err = ListCErr ListC_ErrNotFound \<or> err = ListCErr ListC_ErrForbidden then RevErr Rev_errNotFound
      else if err = ListCErr ListC_ErrZeroID then RevErr Rev_errZeroID
      else RevErr Rev_errUnavailable)"

definition rev_requirePublishedListing :: "'w review_service \<Rightarrow> ctx \<Rightarrow> ID \<Rightarrow> ('w, unit) go" where
  "rev_requirePublishedListing s c listingID =
     gneed (wsv_listings s) (RevErr Rev_errListingsReq) (\<lambda>resolve.
     gbind (gmaperr rev_mapListingErr (resolve c listingID)) (\<lambda>ref.
       if lr_Status ref \<noteq> StatusPublished then gfail (RevErr Rev_errNotFound) else gret ()))"

definition rev_requireRequesterInteraction ::
  "'w review_service \<Rightarrow> ctx \<Rightarrow> ID \<Rightarrow> ID \<Rightarrow> ('w, interaction_ref) go" where
  "rev_requireRequesterInteraction s c reviewerUserID verifiedInteractionID =
     gneed (wsv_verified s) (RevErr Rev_errVerifiedReq) (\<lambda>lookup.
     gbind (gmaperr rev_mapVerifiedErr (lookup c verifiedInteractionID)) (\<lambda>ref.
       if ir_RequesterUserID ref \<noteq> reviewerUserID then gfail (RevErr Rev_errNotFound) else gret ref))"

definition rev_alreadyReviewed :: "'w review_store \<Rightarrow> ctx \<Rightarrow> ID \<Rightarrow> ('w, bool) go" where
  "rev_alreadyReviewed st c i =
     gcase (ws_GetByInteraction st c i)
       (\<lambda>err. if err = RevErr Rev_errNotFound then gret False else gfail (rev_mapStoreErr err))
       (\<lambda>_. gret True)"

definition reviewable :: "interaction_ref \<Rightarrow> bool" where
  "reviewable ref \<longleftrightarrow>
     \<not> (ID_IsZero (ir_ID ref) \<or> ID_IsZero (ir_ListingID ref) \<or> ID_IsZero (ir_RequesterUserID ref) \<or>
        ID_IsZero (ir_ProviderUserID ref)) \<and>
     \<not> time_IsZero (ir_VerifiedAt ref) \<and> ir_InteractionType ref = InteractionListingInspection"

definition rev_page :: "ID \<Rightarrow> int \<Rightarrow> review list \<Rightarrow> public_page res" where
  "rev_page listingID limit rows =
     (if limit < int (length rows)
      then let rows = take (nat limit) rows; last = toPublicReview (rows ! nat (limit - 1))
           in case encodePublicCursor listingID last of
                Inl e \<Rightarrow> Inl e
              | Inr nxt \<Rightarrow> Inr \<lparr>pp_Reviews = map toPublicReview rows, pp_NextCursor = nxt\<rparr>
      else Inr \<lparr>pp_Reviews = map toPublicReview rows, pp_NextCursor = []\<rparr>)"

definition rev_svc_ListPublicForListing :: "'w review_service \<Rightarrow> ctx \<Rightarrow> public_query \<Rightarrow> ('w, public_page) go" where
  "rev_svc_ListPublicForListing s c q =
     gneed (wsv_store s) (RevErr Rev_errStoreRequired) (\<lambda>st.
     if ID_IsZero (pq_ListingID q) then gfail (RevErr Rev_errZeroID)
     else gbind (gpure (normalizePublicLimit (pq_Limit q))) (\<lambda>limit.
     let raw = strings_TrimSpace (pq_Cursor q)
     in gbind (if raw = [] then gret None
               else gbind (gpure (decodePublicCursor raw (pq_ListingID q))) (\<lambda>cur. gret (Some cur))) (\<lambda>cursor.
     gbind (rev_requirePublishedListing s c (pq_ListingID q)) (\<lambda>_.
     gbind (gmaperr rev_mapStoreErr (ws_ListForListing st c (pq_ListingID q) cursor (limit + 1))) (\<lambda>rows.
     gpure (rev_page (pq_ListingID q) limit rows))))))"

definition rev_svc_Eligibility :: "'w review_service \<Rightarrow> ctx \<Rightarrow> ID \<Rightarrow> ID \<Rightarrow> ('w, eligibility) go" where
  "rev_svc_Eligibility s c reviewerUserID verifiedInteractionID =
     gneed (wsv_store s) (RevErr Rev_errStoreRequired) (\<lambda>st.
     if ID_IsZero reviewerUserID \<or> ID_IsZero verifiedInteractionID then gfail (RevErr Rev_errZeroID)
     else gbind (rev_requireRequesterInteraction s c reviewerUserID verifiedInteractionID) (\<lambda>ref.
     gbind (rev_alreadyReviewed st c verifiedInteractionID) (\<lambda>already.
     let result = (\<lambda>inWindow. gret \<lparr>el_Eligible = (\<not> already \<and> reviewable ref \<and> inWindow),
           el_ExpiresAt = Some (rev_ExpiresAt (wsv_policy s) (ir_VerifiedAt ref)), el_AlreadyReviewed = already\<rparr>)
     in if \<not> already \<and> reviewable ref
        then gread (wsv_now s) (\<lambda>now. result (rev_WithinWindow (wsv_policy s) (ir_VerifiedAt ref) now))
        else result False)))"

text \<open>The conjunctions of the code stop at the first false operand, so the clock is not always read.\<close>

definition rev_svc_Create :: "'w review_service \<Rightarrow> ctx \<Rightarrow> ID \<Rightarrow> review_input \<Rightarrow> ('w, review) go" where
  "rev_svc_Create s c reviewerUserID inp =
     gneed (wsv_store s) (RevErr Rev_errStoreRequired) (\<lambda>st.
     if ID_IsZero reviewerUserID \<or> ID_IsZero (rn_VerifiedInteractionID inp) then gfail (RevErr Rev_errZeroID)
     else gguard (rev_ValidateRating (rn_ListingAccuracy inp)) (gguard (rev_ValidateRating (rn_ProviderService inp))
     (gbind (gpure (rev_NormalizeBody (rn_Body inp))) (\<lambda>body.
     gbind (rev_requireRequesterInteraction s c reviewerUserID (rn_VerifiedInteractionID inp)) (\<lambda>ref.
     if \<not> reviewable ref then gfail (RevErr Rev_errNotEligible)
     else gread (wsv_now s) (\<lambda>now.
     if \<not> rev_WithinWindow (wsv_policy s) (ir_VerifiedAt ref) now then gfail (RevErr Rev_errNotEligible)
     else gbind (rev_alreadyReviewed st c (rn_VerifiedInteractionID inp)) (\<lambda>already.
     if already then gfail (RevErr Rev_errConflict)
     else gread (wsv_rand s) (\<lambda>entropy.
     case NewID entropy of None \<Rightarrow> gfail (RevErr Rev_errUnavailable) | Some i \<Rightarrow>
     gread (wsv_now s) (\<lambda>now.
     let r = \<lparr>rw_ID = i, rw_VerifiedInteractionID = ir_ID ref, rw_ListingID = ir_ListingID ref,
              rw_ReviewerUserID = reviewerUserID, rw_ProviderUserID = ir_ProviderUserID ref, rw_Body = body,
              rw_ListingAccuracy = rn_ListingAccuracy inp, rw_ProviderService = rn_ProviderService inp,
              rw_CreatedAt = time_UTC now, rw_UpdatedAt = time_UTC now\<rparr>
     in gguard (rev_Validate r)
          (gbind (gpure (encodeVerifiedCreated r)) (\<lambda>ev.
           gneed (wsv_outbox s) (RevErr Rev_errOutboxRequired) (\<lambda>enq.
           gbind (gmaperr rev_mapStoreErr (ws_InsertReview st c r (Some (\<lambda>c. enq c ev)))) (\<lambda>_. gret r)))))))))))))"

definition rev_svc_ListMine :: "'w review_service \<Rightarrow> ctx \<Rightarrow> ID \<Rightarrow> ('w, review list) go" where
  "rev_svc_ListMine s c reviewerUserID =
     gneed (wsv_store s) (RevErr Rev_errStoreRequired) (\<lambda>st.
     if ID_IsZero reviewerUserID then gfail (RevErr Rev_errZeroID)
     else gmaperr rev_mapStoreErr (ws_ListForReviewer st c reviewerUserID rev_MaxReviews))"

section \<open>Cursors read back\<close>

lemma json_safe_graphic: "list_all json_safe s \<Longrightarrow> list_all graphic s"
  by (auto simp: json_safe_def list_all_iff)

lemma json_safe_hex: "list_all json_safe (hex_bytes bs)"
proof -
  have "json_safe (hex_digit n)" if "n < 16" for n
    using hex_digit_byte [OF that] that by (auto simp: json_safe_def graphic_def)
  then show ?thesis
    using unat_byte_div by (auto simp: hex_bytes_def hex_byte_def list_all_iff)
qed

lemma json_safe_ID [simp]: "list_all json_safe (ID_String x)"
  using json_safe_hex by (simp add: ID_String_def Let_def list_all_append json_safe_def graphic_def)

lemma json_safe_Nano [simp]: "list_all json_safe (time_Format_RFC3339Nano t)"
proof -
  have d: "json_safe c" if "digit_char c" for c
    using that by (auto simp: json_safe_def graphic_def digit_char_def)
  have c: "json_safe CHR ''-''" "json_safe CHR ''T''" "json_safe CHR '':''" "json_safe CHR ''Z''" "json_safe CHR ''.''"
    "json_safe CHR ''0''"
    by (simp_all add: json_safe_def graphic_def)
  have p: "list_all json_safe (pad_dec w n)" for w n
    using digits_dec [of "nat \<bar>n\<bar>"] c d by (auto simp: pad_dec_def Let_def list_all_iff)
  have "set (trim_zeros s) \<subseteq> set s" for s
    using trim_zeros_split [of s] by (metis Un_upper1 set_append)
  then have "list_all json_safe (trim_zeros (pad_dec 9 n))" for n
    using p [of 9 n] by (auto simp: list_all_iff)
  then have "list_all json_safe (format_fraction n)" for n by (simp add: format_fraction_def Let_def c)
  then show ?thesis
    by (simp add: time_Format_RFC3339Nano_def Let_def p c split: prod.split)
qed

text \<open>A cursor reads back as the position of the row it was made from.\<close>

lemma cursor_roundtrip:
  assumes "encodePublicCursor listingID row = Inr raw" and "four_digit_year (pw_CreatedAt row)"
  shows "decodePublicCursor raw listingID = Inr \<lparr>lc_CreatedAt = pw_CreatedAt row, lc_ID = pw_ID row\<rparr>"
    and "raw \<noteq> []" and "strings_TrimSpace raw = raw"
proof -
  have nz: "\<not> ID_IsZero listingID" "\<not> ID_IsZero (pw_ID row)"
    and raw: "raw = b64_Encode (json_text (cursor_json listingID row))"
    using assms(1) by (auto simp: encodePublicCursor_def split: if_splits)
  have flat: "json_parse (json_text (cursor_json listingID row)) = Some (cursor_json listingID row)"
    unfolding cursor_json_def
    by (rule json_parse_flat)
      (auto simp: flat_member_def flat_value_def json_safe_def graphic_def json_int_def)
  let ?ms = "[(''v'', json_int cursorVersion), (''l'', JStr (ID_String listingID)),
    (''t'', JStr (time_Format_RFC3339Nano (pw_CreatedAt row))), (''i'', JStr (ID_String (pw_ID row)))]"
  have "list_all plain_name (map fst cursor_wire)" "distinct (map fst cursor_wire)" "distinct (map fst ?ms)"
    "list_all (\<lambda>(k, v). \<exists>kd. (k, kd) \<in> set cursor_wire \<and> encoded_as kd v) ?ms"
    by (auto simp: cursor_wire_def plain_name_def encoded_as_def int64_def cursorVersion_def intro: exI [of _ 1])
  from json_fields_roundtrip [OF this]
  obtain acc where acc: "json_Unmarshal_fields cursor_wire (Some (cursor_json listingID row)) = Some acc"
    and mo: "map_of acc = map_of ?ms" by (auto simp: cursor_json_def)
  have f: "int_field acc ''v'' = cursorVersion" "str_field acc ''l'' = ID_String listingID"
    "str_field acc ''t'' = time_Format_RFC3339Nano (pw_CreatedAt row)" "str_field acc ''i'' = ID_String (pw_ID row)"
    by (simp_all add: int_field_def str_field_def mo json_int_def cursorVersion_def parse_int64_Itoa int64_def)
  have ne: "ID_String x \<noteq> []" "time_Format_RFC3339Nano t \<noteq> []" for x t
    by (simp_all add: ID_String_def time_Format_RFC3339Nano_def Let_def split: prod.split)
  have tr: "strings_TrimSpace (time_Format_RFC3339Nano t) = time_Format_RFC3339Nano t" for t
    by (rule TrimSpace_graphic) (simp add: graphic_RFC3339Nano)
  show "decodePublicCursor raw listingID = Inr \<lparr>lc_CreatedAt = pw_CreatedAt row, lc_ID = pw_ID row\<rparr>"
    using nz ne tr parse_format_RFC3339Nano [OF assms(2)]
    by (simp add: decodePublicCursor_def raw flat acc f rev_ParseID_def ParseID_String)
  show "strings_TrimSpace raw = raw" unfolding raw by (rule TrimSpace_graphic) (rule graphic_b64_Encode)
  have "json_text (cursor_json listingID row) \<noteq> []" by (simp add: cursor_json_def)
  then show "raw \<noteq> []" using length_b64_Encode [of "json_text (cursor_json listingID row)"] by (auto simp: raw)
qed

section \<open>Following the cursors\<close>

text \<open>A client that asks for page after page until no cursor comes back, at most \<open>n\<close> times.\<close>

fun follow_pages ::
  "'w review_service \<Rightarrow> ctx \<Rightarrow> ID \<Rightarrow> int \<Rightarrow> nat \<Rightarrow> string \<Rightarrow> ('w, public_review list) go" where
  "follow_pages s c l limit 0 cursor = gfail (OtherErr ''too many pages'')"
| "follow_pages s c l limit (Suc n) cursor =
     gbind (rev_svc_ListPublicForListing s c \<lparr>pq_ListingID = l, pq_Cursor = cursor, pq_Limit = limit\<rparr>) (\<lambda>p.
     if pp_NextCursor p = [] then gret (pp_Reviews p)
     else gbind (follow_pages s c l limit n (pp_NextCursor p)) (\<lambda>rest. gret (pp_Reviews p @ rest)))"

definition rev_key :: "review \<Rightarrow> time \<times> ID" where
  "rev_key r = (rw_CreatedAt r, rw_ID r)"

definition listing_reviews :: "ID \<Rightarrow> review_mem \<Rightarrow> review list" where
  "listing_reviews l m = recent_first rw_CreatedAt rw_ID (filter (\<lambda>r. rw_ListingID r = l) (map snd (wm_byID m)))"

lemma recent_first_filter: "recent_first f g (filter P xs) = filter P (recent_first f g xs)"
  by (simp add: recent_first_def filter_sort flip: rev_filter)

lemma recent_first_strict:
  assumes "distinct (map g xs)"
  shows "sorted_wrt (\<lambda>a b. (f b, g b) < (f a, g a)) (recent_first f g xs)"
proof -
  let ?k = "\<lambda>x. (f x, g x)"
  have "distinct (map ?k xs)" using assms by (auto simp: distinct_map inj_on_def)
  then have "distinct (map ?k (sort_key ?k xs))" by (simp add: distinct_map)
  moreover have "sorted (map ?k (sort_key ?k xs))" by simp
  ultimately have "sorted_wrt (<) (map ?k (sort_key ?k xs))" by (simp add: strict_sorted_iff)
  then show ?thesis by (simp add: recent_first_def sorted_wrt_rev sorted_wrt_map)
qed

lemma filter_after:
  assumes "sorted_wrt (\<lambda>a b. k b < (k a :: 'b :: linorder)) (pre @ x # suf)"
  shows "filter (\<lambda>r. k r < k x) (pre @ x # suf) = suf"
  using assms by (auto simp: sorted_wrt_append filter_empty_conv filter_id_conv dest: less_asym)

lemma afterListingCursor_key:
  "afterListingCursor r (Some \<lparr>lc_CreatedAt = rw_CreatedAt x, lc_ID = rw_ID x\<rparr>) \<longleftrightarrow> rev_key r < rev_key x"
  by (auto simp: afterListingCursor_def rev_key_def less_prod_def)

text \<open>What the pages rest on: the store holds rows with their own keys, and their listing is published.\<close>

definition rev_rows_ok :: "review_mem \<Rightarrow> bool" where
  "rev_rows_ok m \<longleftrightarrow> wf_map (wm_byID m) \<and> wm_fail m = None \<and>
     (\<forall>(i, r) \<in> set (wm_byID m). rw_ID r = i \<and> rev_Validate r = None \<and> four_digit_year (rw_CreatedAt r))"

definition pages_ready ::
  "('w \<Rightarrow> review_mem) \<Rightarrow> ((review_mem \<Rightarrow> review_mem) \<Rightarrow> 'w \<Rightarrow> 'w) \<Rightarrow> 'w review_service \<Rightarrow> ctx \<Rightarrow> ID \<Rightarrow> 'w \<Rightarrow> bool" where
  "pages_ready get upd s c l w \<longleftrightarrow>
     wsv_store s = Some (review_mem_store get upd) \<and> upd (\<lambda>_. get w) w = w \<and> ctx_Err c = None \<and>
     \<not> ID_IsZero l \<and> rev_rows_ok (get w) \<and>
     (case wsv_listings s of
        None \<Rightarrow> False
      | Some resolve \<Rightarrow>
          (case resolve c l w of (w', Inr ref) \<Rightarrow> w' = w \<and> lr_Status ref = StatusPublished | _ \<Rightarrow> False))"

lemma rev_Validate_D: "rev_Validate r = None \<Longrightarrow> \<not> ID_IsZero (rw_ID r) \<and> rw_CreatedAt r \<noteq> 0"
  by (simp add: rev_Validate_def split: if_splits option.splits)

lemma rev_rows_okD:
  assumes "rev_rows_ok m" and "r \<in> set (listing_reviews l m)"
  shows "\<not> ID_IsZero (rw_ID r)" and "rw_CreatedAt r \<noteq> 0" and "four_digit_year (rw_CreatedAt r)"
proof -
  obtain i where "(i, r) \<in> set (wm_byID m)" using assms(2) by (auto simp: listing_reviews_def)
  then have "rev_Validate r = None" "four_digit_year (rw_CreatedAt r)" using assms(1) by (auto simp: rev_rows_ok_def)
  then show "\<not> ID_IsZero (rw_ID r)" "rw_CreatedAt r \<noteq> 0" "four_digit_year (rw_CreatedAt r)"
    using rev_Validate_D by blast+
qed

lemma listing_reviews_strict:
  assumes "rev_rows_ok m"
  shows "sorted_wrt (\<lambda>a b. rev_key b < rev_key a) (listing_reviews l m)"
proof -
  have eq: "map rw_ID (map snd (wm_byID m)) = map fst (wm_byID m)"
    using assms by (auto simp: rev_rows_ok_def)
  have "distinct (map rw_ID (map snd (wm_byID m)))"
    unfolding eq using assms by (simp add: rev_rows_ok_def wf_map_def)
  then have "distinct (map rw_ID (filter (\<lambda>r. rw_ListingID r = l) (map snd (wm_byID m))))"
    by (rule distinct_map_filter)
  from recent_first_strict [OF this] show ?thesis by (simp add: listing_reviews_def rev_key_def)
qed

text \<open>One page: the rows after the cursor, up to the limit, and a cursor when there are more.\<close>

lemma page_at:
  assumes ready: "pages_ready get upd s c l w" and lim: "1 \<le> limit" "limit \<le> 20"
    and cur: "if raw = [] then cur = None else decodePublicCursor raw l = Inr x \<and> cur = Some x"
    and trim: "strings_TrimSpace raw = raw"
  shows "rev_svc_ListPublicForListing s c \<lparr>pq_ListingID = l, pq_Cursor = raw, pq_Limit = limit\<rparr> w =
    (w, rev_page l limit (limit_to (limit + 1)
      (filter (\<lambda>r. afterListingCursor r cur) (listing_reviews l (get w)))))"
proof -
  obtain resolve ref where r: "wsv_listings s = Some resolve" "resolve c l w = (w, Inr ref)" "lr_Status ref = StatusPublished"
    using ready by (auto simp: pages_ready_def split: option.splits prod.splits sum.splits)
  have m: "ctx_Err c = None" "wm_fail (get w) = None" "upd (\<lambda>_. get w) w = w" "\<not> ID_IsZero l"
    "wsv_store s = Some (review_mem_store get upd)"
    using ready by (auto simp: pages_ready_def rev_rows_ok_def)
  have n: "normalizePublicLimit limit = Inr limit" using lim by (simp add: normalizePublicLimit_def rev_MaxPublicReviews_def)
  have f: "filter (\<lambda>r. rw_ListingID r = l \<and> afterListingCursor r cur) rows =
      filter (\<lambda>r. afterListingCursor r cur) (filter (\<lambda>r. rw_ListingID r = l) rows)" for rows
    by (simp add: conj_commute)
  have cl: "cloneReview = (\<lambda>r. r)" by (rule ext) simp
  have rows: "rev_mem_ListForListing c l cur (limit + 1) (get w) = (get w, Inr (limit_to (limit + 1)
      (filter (\<lambda>r. afterListingCursor r cur) (listing_reviews l (get w)))))"
    using m(1,2,4) lim(1) unfolding rev_mem_ListForListing_def listing_reviews_def f Let_def
    by (simp add: recent_first_filter cl del: filter_filter)
  have st: "gmaperr rev_mapStoreErr (ws_ListForListing (review_mem_store get upd) c l cur (limit + 1)) w =
      (w, Inr (limit_to (limit + 1) (filter (\<lambda>r. afterListingCursor r cur) (listing_reviews l (get w)))))"
    by (simp add: gmaperr_apply review_mem_store_def zoom_def rows m(3))
  have pub: "rev_requirePublishedListing s c l w = (w, Inr ())"
    using r by (simp add: rev_requirePublishedListing_def gbind_apply gmaperr_apply)
  have k: "gbind (if raw = [] then gret None else gbind (gpure (decodePublicCursor raw l)) (\<lambda>cur. gret (Some cur))) k = k cur"
    for k :: "listing_cursor option \<Rightarrow> ('a, public_page) go"
    using cur by (cases "raw = []") (simp_all add: fun_eq_iff gbind_apply)
  show ?thesis
    unfolding rev_svc_ListPublicForListing_def m(5) public_query.select_convs gneed_simps n gpure_simps gbind_gret
      trim Let_def k if_not_P [OF m(4)]
    by (simp only: gbind_apply pub st sum.case prod.case gpure_def)
qed

lemma rev_page_all:
  assumes "int (length S) \<le> limit"
  shows "rev_page l limit (limit_to (limit + 1) S) = Inr \<lparr>pp_Reviews = map toPublicReview S, pp_NextCursor = []\<rparr>"
  using assms by (simp add: rev_page_def limit_to_def)

lemma rev_page_more:
  assumes "0 < k" and "k < length S" and "encodePublicCursor l (toPublicReview (S ! (k - 1))) = Inr nxt"
  shows "rev_page l (int k) (limit_to (int k + 1) S) =
    Inr \<lparr>pp_Reviews = map toPublicReview (take k S), pp_NextCursor = nxt\<rparr>"
proof -
  have t: "limit_to (int k + 1) S = take (Suc k) S" using assms(2) by (auto simp: limit_to_def nat_add_distrib)
  have i: "nat (int k - 1) = k - 1" by simp
  have "int k < int (length (take (Suc k) S))" using assms(2) by simp
  then show ?thesis
    using assms(1,3) unfolding rev_page_def t Let_def by (simp add: i min_def)
qed

text \<open>From any suffix of the listing on, following the cursors yields exactly that suffix.\<close>

lemma follow_from:
  assumes ready: "pages_ready get upd s c l w" and lim: "1 \<le> limit" "limit \<le> 20"
  shows "length S < n \<Longrightarrow> listing_reviews l (get w) = pre @ S \<Longrightarrow>
    (if raw = [] then cur = None else decodePublicCursor raw l = Inr x \<and> cur = Some x) \<Longrightarrow>
    strings_TrimSpace raw = raw \<Longrightarrow>
    filter (\<lambda>r. afterListingCursor r cur) (listing_reviews l (get w)) = S \<Longrightarrow>
    follow_pages s c l limit n raw w = (w, Inr (map toPublicReview S))"
proof (induction n arbitrary: S pre raw cur x)
  case (Suc n)
  note page = page_at [OF ready lim Suc.prems(3,4), unfolded Suc.prems(5)]
  show ?case
  proof (cases "int (length S) \<le> limit")
    case True
    then show ?thesis using page rev_page_all [OF True] by (simp add: gbind_apply)
  next
    case False
    obtain k where k: "0 < k" "k < length S" "limit = int k"
      using False lim by (metis int_eq_iff not_less of_nat_less_iff order_less_le_trans zero_less_imp_eq_int zero_less_one)
    define last where "last = S ! (k - 1)"
    have S: "S = take (k - 1) S @ last # drop k S"
      using k id_take_nth_drop [of "k - 1" S] by (simp add: last_def)
    have mem: "last \<in> set (listing_reviews l (get w))" using Suc.prems(2) k by (simp add: last_def)
    have ok: "rev_rows_ok (get w)" "\<not> ID_IsZero l" using ready by (auto simp: pages_ready_def)
    note lastD = rev_rows_okD [OF ok(1) mem]
    obtain nxt where nxt: "encodePublicCursor l (toPublicReview last) = Inr nxt"
      using lastD(1,2) ok(2) by (auto simp: encodePublicCursor_def toPublicReview_def)
    have y: "four_digit_year (pw_CreatedAt (toPublicReview last))" using lastD(3) by (simp add: toPublicReview_def)
    note rt = cursor_roundtrip [OF nxt y]
    let ?cur = "\<lparr>lc_CreatedAt = rw_CreatedAt last, lc_ID = rw_ID last\<rparr>"
    have L: "listing_reviews l (get w) = (pre @ take (k - 1) S) @ last # drop k S" using Suc.prems(2) S by simp
    have "filter (\<lambda>r. afterListingCursor r (Some ?cur)) (listing_reviews l (get w)) = drop k S"
      unfolding afterListingCursor_key L
      by (rule filter_after) (use listing_reviews_strict [OF ok(1), of l] L in simp)
    moreover have "listing_reviews l (get w) = (pre @ take k S) @ drop k S" using Suc.prems(2) by simp
    moreover have "length (drop k S) < n" using k(1,2) Suc.prems(1) by simp
    moreover have "decodePublicCursor nxt l = Inr ?cur" using rt(1) by (simp add: toPublicReview_def)
    ultimately have "follow_pages s c l limit n nxt w = (w, Inr (map toPublicReview (drop k S)))"
      by (intro Suc.IH [where pre = "pre @ take k S" and cur = "Some ?cur" and x = ?cur]) (simp_all add: rt(2,3))
    moreover have "map toPublicReview (take k S) @ map toPublicReview (drop k S) = map toPublicReview S"
      by (simp flip: map_append)
    ultimately show ?thesis
      using page rev_page_more [OF k(1,2) nxt [unfolded last_def]] rt(2) k(3) by (simp add: gbind_apply)
  qed
qed simp

text \<open>C22. The pages are complete: while the store does not change, following the cursors from the first page returns
  every review of a published listing exactly once, newest first, whatever the size of a page. The years
  of the reviews have four digits, which the text of a cursor can hold.\<close>

theorem pages_complete:
  assumes "pages_ready get upd s c l w" and "0 \<le> limit" and "limit \<le> 20" and "length (wm_byID (get w)) < n"
  shows "follow_pages s c l limit n [] w = (w, Inr (map toPublicReview (listing_reviews l (get w))))"
proof -
  have "rev_svc_ListPublicForListing s c \<lparr>pq_ListingID = l, pq_Cursor = raw, pq_Limit = 0\<rparr> =
      rev_svc_ListPublicForListing s c \<lparr>pq_ListingID = l, pq_Cursor = raw, pq_Limit = 20\<rparr>" for raw
    by (simp add: rev_svc_ListPublicForListing_def normalizePublicLimit_def rev_MaxPublicReviews_def cong: if_cong)
  note that = this
  have lim0: "follow_pages s c l 0 n = follow_pages s c l 20 n"
  proof (induction n)
    case (Suc n)
    show ?case by (rule ext) (simp only: follow_pages.simps Suc.IH that)
  qed (rule ext, simp only: follow_pages.simps)
  have len: "length (listing_reviews l (get w)) < n"
    by (rule le_less_trans [OF _ assms(4)]) (simp add: listing_reviews_def filter_map)
  have tr: "strings_TrimSpace [] = []" by (simp add: TrimSpace_graphic)
  have "follow_pages s c l limit' n [] w = (w, Inr (map toPublicReview (listing_reviews l (get w))))"
    if "1 \<le> limit'" "limit' \<le> 20" for limit'
    by (rule follow_from [OF assms(1) that len, where pre = "[]" and cur = None and x = undefined])
      (simp_all add: tr afterListingCursor_def)
  from this [of limit] this [of 20] show ?thesis using assms(2,3) lim0 by (cases "limit = 0") auto
qed


definition sample_review :: "nat \<Rightarrow> int \<Rightarrow> review" where
  "sample_review n t =
     \<lparr>rw_ID = id_n n, rw_VerifiedInteractionID = id_n (n + 40), rw_ListingID = id_n 2, rw_ReviewerUserID = id_n 3,
      rw_ProviderUserID = id_n 4, rw_Body = None, rw_ListingAccuracy = 5, rw_ProviderService = 4,
      rw_CreatedAt = t, rw_UpdatedAt = t\<rparr>"

lemma sample_review_simps:
  "rw_ID (sample_review n t) = id_n n" "rw_VerifiedInteractionID (sample_review n t) = id_n (n + 40)"
  "rw_ListingID (sample_review n t) = id_n 2" "rw_CreatedAt (sample_review n t) = t"
  by (simp_all add: sample_review_def)

definition sample_reviews :: review_mem where
  "sample_reviews = rev_NewMemoryStore\<lparr>
     wm_byID := [(id_n 10, sample_review 10 7), (id_n 11, sample_review 11 8), (id_n 12, sample_review 12 7)]\<rparr>"

definition sample_review_service :: "review_mem review_service" where
  "sample_review_service =
     \<lparr>wsv_store = Some (review_mem_store (\<lambda>m. m) (\<lambda>f. f)), wsv_verified = None,
      wsv_listings = Some (\<lambda>c l m. (m, Inr \<lparr>lr_ID = l, lr_OwnerUserID = id_n 4, lr_Status = StatusPublished,
        lr_ModerationState = ModerationStateNone\<rparr>)),
      wsv_outbox = None, wsv_policy = rev_DefaultPolicy, wsv_now = (\<lambda>m. (m, 9)), wsv_rand = (\<lambda>m. (m, None))\<rparr>"

lemma sample_pages_ready:
  "pages_ready (\<lambda>m. m) (\<lambda>f. f) sample_review_service background (id_n 2) sample_reviews"
proof -
  have "rev_Validate (sample_review n 7) = None" "rev_Validate (sample_review n 8) = None" if "2 \<le> n" "n < 200" for n
    using that by (simp_all add: rev_Validate_def sample_review_def rev_ValidateRating_def rev_MinRating_def rev_MaxRating_def)
  moreover have "four_digit_year 7" "four_digit_year 8" by code_simp+
  ultimately show ?thesis
    by (simp add: pages_ready_def rev_rows_ok_def sample_reviews_def sample_review_service_def rev_NewMemoryStore_def
      background_def wf_map_def sample_review_simps)
qed

lemma id_n_le [simp]: "n < 256 \<Longrightarrow> m < 256 \<Longrightarrow> id_n n \<le> id_n m \<longleftrightarrow> n \<le> m"
proof -
  assume "n < 256" "m < 256"
  then have "(word_of_nat n :: byte) \<le> word_of_nat m \<longleftrightarrow> n \<le> m"
    by (simp add: word_le_nat_alt unsigned_of_nat take_bit_nat_eq_self)
  moreover have "replicate k (0 :: byte) @ [x] \<le> replicate k 0 @ [y] \<longleftrightarrow> x \<le> y" for k x y
    by (induction k) auto
  ultimately show ?thesis by (simp only: less_eq_ID_def id_bytes_id_n)
qed

theorem pages_complete_witness:
  "follow_pages sample_review_service background (id_n 2) 1 4 [] sample_reviews =
     (sample_reviews, Inr (map toPublicReview [sample_review 11 8, sample_review 12 7, sample_review 10 7]))"
proof -
  have "listing_reviews (id_n 2) sample_reviews = [sample_review 11 8, sample_review 12 7, sample_review 10 7]"
    by (simp add: listing_reviews_def sample_reviews_def rev_NewMemoryStore_def recent_first_def sample_review_def)
  then show ?thesis
    using pages_complete [OF sample_pages_ready, of 1 4] by (simp add: sample_reviews_def rev_NewMemoryStore_def)
qed

section \<open>What the store keeps\<close>

text \<open>
  The calls of any number of clients on the in-memory store, in any order. An insertion is two steps with
  the hook between them: \<open>P\<close> holds the reviews whose hook still runs. When the hook succeeds nothing
  more happens, when it fails the review is removed again.
\<close>

inductive rev_run :: "review_mem \<Rightarrow> review set \<Rightarrow> bool" where
  start: "rev_run rev_NewMemoryStore {}"
| set_fail: "rev_run m P \<Longrightarrow> rev_run (m\<lparr>wm_fail := e\<rparr>) P"
| insert_row: "rev_run m P \<Longrightarrow> rev_mem_insert c r m = (m', Inr ()) \<Longrightarrow> rev_run m' (insert r P)"
| enqueued: "rev_run m P \<Longrightarrow> r \<in> P \<Longrightarrow> rev_run m (P - {r})"
| undo: "rev_run m P \<Longrightarrow> r \<in> P \<Longrightarrow> rev_run (rev_mem_remove r m) (P - {r})"

text \<open>One call of \<open>InsertReview\<close> is such a sequence of steps, whatever its hook does in between.\<close>

lemma InsertReview_steps:
  assumes "rev_run m P" and "\<And>m. enq c m = (m, h)"
    and "rev_mem_InsertReview (\<lambda>m. m) (\<lambda>f. f) c r (Some enq) m = (m', x)"
  shows "\<exists>P'. rev_run m' P'"
proof (cases "rev_mem_insert c r m")
  case (Pair m1 i)
  show ?thesis
  proof (cases i)
    case (Inl e)
    then have "m1 = m" using Pair
      by (auto simp: rev_mem_insert_def gguard_def split: option.splits if_splits)
    then show ?thesis using assms Pair Inl by (auto simp: rev_mem_InsertReview_def zoom_def gbind_apply)
  next
    case (Inr u)
    then have "rev_run m1 (insert r P)" using Pair assms(1) rev_run.insert_row by auto
    then have "\<exists>P'. rev_run m1 P'" "\<exists>P'. rev_run (rev_mem_remove r m1) P'" using rev_run.undo by blast+
    then show ?thesis
      using assms(2,3) Pair Inr by (cases h) (auto simp: rev_mem_InsertReview_def zoom_def gbind_apply gcase_apply)
  qed
qed

text \<open>The two maps of the store agree, and the pending reviews are in it.\<close>

definition rev_index :: "(ID \<Rightarrow> review option) \<Rightarrow> (ID \<Rightarrow> ID option) \<Rightarrow> bool" where
  "rev_index b x \<longleftrightarrow>
     (\<forall>i r. b i = Some r \<longrightarrow> rw_ID r = i \<and> rev_Validate r = None \<and> x (rw_VerifiedInteractionID r) = Some i) \<and>
     (\<forall>v i. x v = Some i \<longrightarrow> (\<exists>r. b i = Some r \<and> rw_VerifiedInteractionID r = v))"

definition rev_inv :: "review_mem \<Rightarrow> review set \<Rightarrow> bool" where
  "rev_inv m P \<longleftrightarrow> wf_map (wm_byID m) \<and> wf_map (wm_byInteraction m) \<and>
     rev_index (map_of (wm_byID m)) (map_of (wm_byInteraction m)) \<and>
     (\<forall>r \<in> P. map_of (wm_byID m) (rw_ID r) = Some r)"

lemma rev_index_insert:
  assumes "rev_index b x" and "rev_Validate r = None" and "b (rw_ID r) = None" and "x (rw_VerifiedInteractionID r) = None"
  shows "rev_index (b(rw_ID r \<mapsto> r)) (x(rw_VerifiedInteractionID r \<mapsto> rw_ID r))"
  using assms unfolding rev_index_def by (auto; metis option.distinct(1))

lemma rev_index_remove:
  assumes "rev_index b x" and "b (rw_ID r) = Some r"
  shows "rev_index (b(rw_ID r := None)) (x(rw_VerifiedInteractionID r := None))"
proof -
  have 1: "rw_VerifiedInteractionID s \<noteq> rw_VerifiedInteractionID r" if "b i = Some s" "i \<noteq> rw_ID r" for i s
    using assms that unfolding rev_index_def by (metis option.inject)
  have 2: "x v \<noteq> Some (rw_ID r)" if "v \<noteq> rw_VerifiedInteractionID r" for v
    using assms that unfolding rev_index_def by (metis option.inject)
  show ?thesis
    using assms(1) 1 2 unfolding rev_index_def by (simp add: fun_upd_def)
qed

lemma rev_mem_insert_InrD:
  assumes "rev_mem_insert c r m = (m', Inr ())"
  shows "rev_Validate r = None" and "map_of (wm_byInteraction m) (rw_VerifiedInteractionID r) = None"
    and "map_of (wm_byID m) (rw_ID r) = None"
    and "m' = m\<lparr>wm_byID := AList.update (rw_ID r) r (wm_byID m),
        wm_byInteraction := AList.update (rw_VerifiedInteractionID r) (rw_ID r) (wm_byInteraction m)\<rparr>"
  using assms by (auto simp: rev_mem_insert_def dest!: gguard_InrD split: if_splits)

lemma rev_run_inv: "rev_run m P \<Longrightarrow> rev_inv m P"
proof (induction rule: rev_run.induct)
  case start
  then show ?case by (simp add: rev_inv_def rev_index_def rev_NewMemoryStore_def)
next
  case (set_fail m P e)
  then show ?case by (simp add: rev_inv_def)
next
  case (insert_row m P c r m')
  note new = rev_mem_insert_InrD [OF insert_row.hyps(2)]
  have "rw_ID s \<noteq> rw_ID r" if "s \<in> P" for s using insert_row.IH that new(3) by (auto simp: rev_inv_def)
  then show ?case using insert_row.IH new(1,2,3) rev_index_insert unfolding new(4) rev_inv_def by simp
next
  case (enqueued m P r)
  then show ?case by (simp add: rev_inv_def)
next
  case (undo m P r)
  have row: "map_of (wm_byID m) (rw_ID r) = Some r" using undo by (simp add: rev_inv_def)
  have "rw_ID s \<noteq> rw_ID r" if "s \<in> P - {r}" for s
    using undo.IH that row by (auto simp: rev_inv_def)
  then show ?case using undo.IH rev_index_remove [where b = "map_of (wm_byID m)", OF _ row] unfolding rev_inv_def rev_mem_remove_def by simp
qed

text \<open>C23. An interaction is reviewed at most once: after any interleaving of insertions, failed hooks and reads,
  every review of the store is valid, two reviews of one interaction are the same, and asking for the
  review of its interaction finds it.\<close>

theorem one_review_per_interaction:
  assumes "rev_run m P" and "map_of (wm_byID m) i = Some r"
  shows "rev_Validate r = None \<and>
    (\<forall>j s. map_of (wm_byID m) j = Some s \<and> rw_VerifiedInteractionID s = rw_VerifiedInteractionID r \<longrightarrow> s = r) \<and>
    (wm_fail m = None \<longrightarrow>
      rev_mem_GetByInteraction background (rw_VerifiedInteractionID r) m = (m, Inr r))"
proof -
  have inv: "rev_inv m P" using rev_run_inv [OF assms(1)] .
  then have r: "rev_Validate r = None" "map_of (wm_byInteraction m) (rw_VerifiedInteractionID r) = Some i"
    using assms(2) by (auto simp: rev_inv_def rev_index_def)
  have "s = r" if "map_of (wm_byID m) j = Some s" "rw_VerifiedInteractionID s = rw_VerifiedInteractionID r" for j s
    using inv assms(2) that unfolding rev_inv_def rev_index_def by (metis option.inject)
  then show ?thesis using r assms(2)
    by (auto simp: rev_mem_GetByInteraction_def background_def)
qed

theorem one_review_per_interaction_witness:
  "\<exists>m. rev_run m {sample_review 10 7} \<and> map_of (wm_byID m) (id_n 10) = Some (sample_review 10 7) \<and>
     rev_mem_GetByInteraction background (id_n 50) m = (m, Inr (sample_review 10 7))"
proof -
  let ?m = "fst (rev_mem_insert background (sample_review 10 7) rev_NewMemoryStore)"
  have v: "rev_Validate (sample_review 10 7) = None"
    by (simp add: rev_Validate_def sample_review_def rev_ValidateRating_def rev_MinRating_def rev_MaxRating_def)
  then have s: "rev_mem_insert background (sample_review 10 7) rev_NewMemoryStore = (?m, Inr ())"
    and row: "map_of (wm_byID ?m) (id_n 10) = Some (sample_review 10 7)" "wm_fail ?m = None"
    by (simp_all add: rev_mem_insert_def rev_NewMemoryStore_def background_def sample_review_def)
  have run: "rev_run ?m {sample_review 10 7}" by (rule rev_run.insert_row [OF rev_run.start s])
  from one_review_per_interaction [OF run row(1)] run row show ?thesis by (auto simp: sample_review_def)
qed

section \<open>Who may review\<close>

text \<open>C24. A review that is created is about an interaction of its author: the lookup showed it in this call, the
  author was its requester, it was a completed inspection, its window was open at a reading of the
  clock, and the review carries the listing and the provider of that interaction, valid ratings and
  the normalised text.\<close>

theorem review_create_checks:
  assumes "rev_svc_Create s c u inp w = (w', Inr r)"
  shows "\<exists>lookup wa wb ref. wsv_verified s = Some lookup \<and> lookup c (rn_VerifiedInteractionID inp) wa = (wb, Inr ref) \<and>
    ir_RequesterUserID ref = u \<and> reviewable ref \<and>
    (\<exists>wc. rev_WithinWindow (wsv_policy s) (ir_VerifiedAt ref) (snd (wsv_now s wc))) \<and>
    rw_VerifiedInteractionID r = ir_ID ref \<and> rw_ListingID r = ir_ListingID ref \<and>
    rw_ReviewerUserID r = u \<and> rw_ProviderUserID r = ir_ProviderUserID ref \<and>
    rev_NormalizeBody (rn_Body inp) = Inr (rw_Body r) \<and> rev_Validate r = None"
proof -
  obtain st body w1 w2 w3 ref lookup i where
    "rev_NormalizeBody (rn_Body inp) = Inr body" "wsv_verified s = Some lookup"
    "lookup c (rn_VerifiedInteractionID inp) w1 = (w2, Inr ref)" "ir_RequesterUserID ref = u" "reviewable ref"
    "rev_WithinWindow (wsv_policy s) (ir_VerifiedAt ref) (snd (wsv_now s w2))"
    "r = \<lparr>rw_ID = i, rw_VerifiedInteractionID = ir_ID ref, rw_ListingID = ir_ListingID ref,
              rw_ReviewerUserID = u, rw_ProviderUserID = ir_ProviderUserID ref, rw_Body = body,
              rw_ListingAccuracy = rn_ListingAccuracy inp, rw_ProviderService = rn_ProviderService inp,
              rw_CreatedAt = w3, rw_UpdatedAt = w3\<rparr>"
    "rev_Validate r = None"
    using assms unfolding rev_svc_Create_def rev_requireRequesterInteraction_def Let_def
    by (elim go_InrE) auto
  then show ?thesis by auto
qed


definition sample_review_input :: review_input where
  "sample_review_input = \<lparr>rn_VerifiedInteractionID = id_n 50, rn_Body = [], rn_ListingAccuracy = 5, rn_ProviderService = 4\<rparr>"

definition sample_create_service :: "review_mem review_service" where
  "sample_create_service = sample_review_service\<lparr>
     wsv_verified := Some (\<lambda>c i m. (m, Inr \<lparr>ir_ID = i, ir_ListingID = id_n 2, ir_RequesterUserID = id_n 3,
        ir_ProviderUserID = id_n 4, ir_InteractionType = InteractionListingInspection, ir_VerifiedAt = 8\<rparr>)),
     wsv_outbox := Some (\<lambda>c e m. (m, Inr ())), wsv_rand := (\<lambda>m. (m, Some (id_n 7)))\<rparr>"

theorem review_create_checks_witness:
  "\<exists>w' r. rev_svc_Create sample_create_service background (id_n 3) sample_review_input rev_NewMemoryStore = (w', Inr r) \<and>
     rw_VerifiedInteractionID r = id_n 50 \<and> rw_ListingID r = id_n 2 \<and> rw_Body r = None"
proof -
  have body: "rev_NormalizeBody [] = Inr None" by (simp add: rev_NormalizeBody_def TrimSpace_graphic)
  have r5: "rev_ValidateRating 5 = None" "rev_ValidateRating 4 = None"
    by (simp_all add: rev_ValidateRating_def rev_MinRating_def rev_MaxRating_def)
  have i: "NewID (Some (id_n 7)) = Some (stamp_uuid (id_n 7))" "\<not> ID_IsZero (stamp_uuid (id_n 7))"
    by (simp_all add: NewID_def ID_IsZero_def zero_id_not_stamped)
  define f where "f r = projr (encodeVerifiedCreated r)" for r
  have f: "encodeVerifiedCreated r = Inr (f r)" for r by (simp add: f_def encodeVerifiedCreated_def)
  define ref where "ref = \<lparr>ir_ID = id_n 50, ir_ListingID = id_n 2, ir_RequesterUserID = id_n 3,
        ir_ProviderUserID = id_n 4, ir_InteractionType = InteractionListingInspection, ir_VerifiedAt = 8\<rparr>"
  let ?s = sample_create_service
  have s: "wsv_store ?s = Some (review_mem_store (\<lambda>m. m) (\<lambda>f. f))" "wsv_outbox ?s = Some (\<lambda>c e m. (m, Inr ()))"
    "wsv_now ?s = (\<lambda>m. (m, 9))" "wsv_rand ?s = (\<lambda>m. (m, Some (id_n 7)))" "wsv_policy ?s = rev_DefaultPolicy"
    by (simp_all add: sample_create_service_def sample_review_service_def)
  have l: "rev_requireRequesterInteraction ?s background (id_n 3) (id_n 50) m = (m, Inr ref)" for m
    by (simp add: rev_requireRequesterInteraction_def sample_create_service_def ref_def gbind_apply gmaperr_apply)
  have w: "reviewable ref" "rev_WithinWindow rev_DefaultPolicy (ir_VerifiedAt ref) 9"
    by (simp_all add: ref_def reviewable_def rev_WithinWindow_def rev_ExpiresAt_def
      rev_DefaultPolicy_def rev_DefaultCreationWindow_def hour_def)
  have a: "rev_alreadyReviewed (review_mem_store (\<lambda>m. m) (\<lambda>f. f)) background (id_n 50) rev_NewMemoryStore =
      (rev_NewMemoryStore, Inr False)"
    by (simp add: rev_alreadyReviewed_def review_mem_store_def zoom_def rev_mem_GetByInteraction_def rev_NewMemoryStore_def
      background_def gcase_apply)
  define r where "r = \<lparr>rw_ID = stamp_uuid (id_n 7), rw_VerifiedInteractionID = ir_ID ref, rw_ListingID = ir_ListingID ref,
     rw_ReviewerUserID = id_n 3, rw_ProviderUserID = ir_ProviderUserID ref, rw_Body = None, rw_ListingAccuracy = 5,
     rw_ProviderService = 4, rw_CreatedAt = time_UTC 9, rw_UpdatedAt = time_UTC 9\<rparr>"
  have v: "rev_Validate r = None" by (simp add: r_def rev_Validate_def r5 i ref_def)
  have "\<exists>m. ws_InsertReview (review_mem_store (\<lambda>m. m) (\<lambda>f. f)) background r
      (Some (\<lambda>c m. (m, Inr ()))) rev_NewMemoryStore = (m, Inr ())"
    by (simp add: review_mem_store_def rev_mem_InsertReview_def rev_mem_insert_def rev_NewMemoryStore_def zoom_def
      background_def v gbind_apply gcase_apply)
  then obtain m where ins: "ws_InsertReview (review_mem_store (\<lambda>m. m) (\<lambda>f. f)) background r
      (Some (\<lambda>c m. (m, Inr ()))) rev_NewMemoryStore = (m, Inr ())" by blast
  have "\<exists>w' r. rev_svc_Create ?s background (id_n 3) sample_review_input rev_NewMemoryStore = (w', Inr r)"
    by (simp add: rev_svc_Create_def s sample_review_input_def body r5 i gbind_apply gmaperr_apply gread_apply l w a Let_def
      r_def [symmetric] v f ins del: time_UTC_def)
  then obtain w' r where run:
    "rev_svc_Create sample_create_service background (id_n 3) sample_review_input rev_NewMemoryStore = (w', Inr r)" by blast
  from review_create_checks [OF run] run body show ?thesis
    by (auto simp: sample_create_service_def sample_review_input_def)
qed

section \<open>What other packages read\<close>

text \<open>The event of a created review is decoded to the review it was made of.\<close>

lemma created_payload_decodes:
  assumes "rev_Validate r = None"
  shows "\<exists>ev. encodeVerifiedCreated r = Inr ev \<and> DecodeVerifiedCreated (ev_Payload ev) = Inr (created_payload r)"
proof -
  let ?p = "created_payload r"
  let ?ms = "[(''review_id'', JStr (vp_ReviewID ?p)), (''verified_interaction_id'', JStr (vp_VerifiedInteractionID ?p)),
       (''listing_id'', JStr (vp_ListingID ?p)), (''reviewer_user_id'', JStr (vp_ReviewerUserID ?p)),
       (''provider_user_id'', JStr (vp_ProviderUserID ?p)), (''listing_accuracy'', json_int (vp_ListingAccuracy ?p)),
       (''provider_service'', json_int (vp_ProviderService ?p)), (''created_at'', JStr (vp_CreatedAt ?p))]"
  have v: "rw_ReviewerUserID r \<noteq> rw_ProviderUserID r" "1 \<le> rw_ListingAccuracy r" "rw_ListingAccuracy r \<le> 5"
    "1 \<le> rw_ProviderService r" "rw_ProviderService r \<le> 5"
    using assms by (auto simp: rev_Validate_def rev_ValidateRating_def rev_MinRating_def rev_MaxRating_def
      split: if_splits option.splits)
  then have i: "int64 (vp_ListingAccuracy ?p)" "int64 (vp_ProviderService ?p)"
    by (simp_all add: created_payload_def int64_def)
  have "list_all plain_name (map fst created_fields)" "distinct (map fst created_fields)" "distinct (map fst ?ms)"
    by (simp_all add: created_fields_def plain_name_def)
  moreover have "list_all (\<lambda>(k, v). \<exists>kd. (k, kd) \<in> set created_fields \<and> encoded_as kd v) ?ms"
    using i by (simp add: created_fields_def encoded_as_def ex_disj_distrib conj_disj_distribR) blast
  ultimately obtain acc where acc: "json_Unmarshal_fields created_fields (Some (JObj ?ms)) = Some acc"
    and m: "map_of acc = map_of ?ms"
    using json_fields_roundtrip by blast
  have f: "str_field acc ''review_id'' = vp_ReviewID ?p" "str_field acc ''verified_interaction_id'' = vp_VerifiedInteractionID ?p"
    "str_field acc ''listing_id'' = vp_ListingID ?p" "str_field acc ''reviewer_user_id'' = vp_ReviewerUserID ?p"
    "str_field acc ''provider_user_id'' = vp_ProviderUserID ?p" "str_field acc ''created_at'' = vp_CreatedAt ?p"
    "int_field acc ''listing_accuracy'' = vp_ListingAccuracy ?p" "int_field acc ''provider_service'' = vp_ProviderService ?p"
    using i by (simp_all add: str_field_def int_field_def m json_int_def)
  have n: "created_json ?p = JObj ?ms" by (simp add: created_payload_def created_json_def)
  have ne: "ID_String x \<noteq> []" for x by (simp add: ID_String_def Let_def)
  have "DecodeVerifiedCreated (Some (created_json ?p)) = Inr ?p"
    using v unfolding n DecodeVerifiedCreated_def acc option.case Let_def f
    by (simp add: created_payload_def ID_String_inject ne)
  then show ?thesis by (simp add: encodeVerifiedCreated_def)
qed

end
