(* ===== verification/Projection.thy ===== *)
theory Projection
  imports Reviews
begin

text \<open>
  What the projections \<open>reviewaggregates\<close> and \<open>trust\<close> share: an event that carries a verified review,
  averages as decimal text, and the contract that makes repeated deliveries harmless (a locale). The
  relay delivers at least once, so an event may come again.
\<close>

section \<open>Averages\<close>

text \<open>
  \<open>(*big.Rat).FloatString\<close> of a quotient with a positive denominator: the nearest decimal of that many
  places, halves away from zero.
\<close>

definition rat_FloatString :: "nat \<Rightarrow> int \<Rightarrow> int \<Rightarrow> string" where
  "rat_FloatString prec num den =
     (let q = (2 * \<bar>num\<bar> * 10 ^ prec + den) div (2 * den)
      in (if num < 0 then ''-'' else []) @ pad_dec 0 (q div 10 ^ prec) @
         (if prec = 0 then [] else CHR ''.'' # pad_dec prec (q mod 10 ^ prec)))"

text \<open>\<open>strings.TrimRight\<close> with a cutset of one character.\<close>

definition trim_right :: "char \<Rightarrow> string \<Rightarrow> string" where
  "trim_right c s = rev (dropWhile (\<lambda>d. d = c) (rev s))"

definition formatAverage :: "int \<Rightarrow> int \<Rightarrow> string" where
  "formatAverage ratings count =
     (if count \<le> 0 then ''0''
      else let s = trim_right CHR ''.'' (trim_right CHR ''0'' (rat_FloatString 8 ratings count))
           in if s = [] \<or> s = ''-'' then ''0'' else s)"

section \<open>Events\<close>

definition rev_EventVersion :: int where "rev_EventVersion = 1"

record verified_review =
  vr_EventID :: ID
  vr_ReviewID :: ID
  vr_VerifiedInteractionID :: ID
  vr_ListingID :: ID
  vr_ReviewerUserID :: ID
  vr_ProviderUserID :: ID
  vr_ListingAccuracy :: int
  vr_ProviderService :: int
  vr_CreatedAt :: time

text \<open>
  The instant of an event, or of its row when the payload has none. \<open>time.Parse\<close> reads a fraction whether or
  not the layout has one, so the second layout of the code reads what the first one does.
\<close>

definition parse_instant :: "go_error \<Rightarrow> string \<Rightarrow> time \<Rightarrow> time res" where
  "parse_instant errInvalid raw fallback =
     (if raw = [] then if time_IsZero fallback then Inl errInvalid else Inr (time_UTC fallback)
      else case time_Parse_RFC3339 raw of
             Some t \<Rightarrow> Inr (time_UTC t)
           | None \<Rightarrow> (case time_Parse_RFC3339 raw of Some t \<Rightarrow> Inr (time_UTC t) | None \<Rightarrow> Inl errInvalid))"

text \<open>
  Both packages read the event of a review with the same code; they differ in the error, which replaces
  the one of \<open>ParseID\<close>.
\<close>

definition review_of_event :: "go_error \<Rightarrow> outbox_event \<Rightarrow> verified_review res" where
  "review_of_event errInvalid e =
     (let parse = ParseID errInvalid errInvalid
      in if oe_EventType e \<noteq> EventTypeVerifiedCreated \<or> oe_EventVersion e \<noteq> rev_EventVersion then Inl errInvalid
      else if ID_IsZero (oe_ID e) then Inl errInvalid
      else case DecodeVerifiedCreated (oe_Payload e) of Inl _ \<Rightarrow> Inl errInvalid | Inr p \<Rightarrow>
      case parse (vp_ReviewID p) of Inl e \<Rightarrow> Inl e | Inr reviewID \<Rightarrow>
      case parse (vp_VerifiedInteractionID p) of Inl e \<Rightarrow> Inl e | Inr interactionID \<Rightarrow>
      case parse (vp_ListingID p) of Inl e \<Rightarrow> Inl e | Inr listingID \<Rightarrow>
      case parse (vp_ReviewerUserID p) of Inl e \<Rightarrow> Inl e | Inr reviewer \<Rightarrow>
      case parse (vp_ProviderUserID p) of Inl e \<Rightarrow> Inl e | Inr provider \<Rightarrow>
      case parse_instant errInvalid (vp_CreatedAt p) (oe_CreatedAt e) of Inl e \<Rightarrow> Inl e | Inr createdAt \<Rightarrow>
      Inr \<lparr>vr_EventID = oe_ID e, vr_ReviewID = reviewID, vr_VerifiedInteractionID = interactionID,
           vr_ListingID = listingID, vr_ReviewerUserID = reviewer, vr_ProviderUserID = provider,
           vr_ListingAccuracy = vp_ListingAccuracy p, vr_ProviderService = vp_ProviderService p,
           vr_CreatedAt = createdAt\<rparr>)"

text \<open>The event of a review is read as that review, its instant cut to whole seconds.\<close>

lemma review_of_event_created:
  assumes "rev_Validate r = None" and "four_digit_year (rw_CreatedAt r)" and "encodeVerifiedCreated r = Inr ev"
    and "oe_EventType e = ev_EventType ev" "oe_EventVersion e = ev_EventVersion ev" "oe_Payload e = ev_Payload ev"
    and "\<not> ID_IsZero (oe_ID e)"
  shows "review_of_event err e = Inr
    \<lparr>vr_EventID = oe_ID e, vr_ReviewID = rw_ID r, vr_VerifiedInteractionID = rw_VerifiedInteractionID r,
     vr_ListingID = rw_ListingID r, vr_ReviewerUserID = rw_ReviewerUserID r, vr_ProviderUserID = rw_ProviderUserID r,
     vr_ListingAccuracy = rw_ListingAccuracy r, vr_ProviderService = rw_ProviderService r,
     vr_CreatedAt = rw_CreatedAt r - rw_CreatedAt r mod 1000000000\<rparr>"
proof -
  have d: "DecodeVerifiedCreated (oe_Payload e) = Inr (created_payload r)"
    using created_payload_decodes [OF assms(1)] assms(3,6) by auto
  have t: "oe_EventType e = EventTypeVerifiedCreated" "oe_EventVersion e = rev_EventVersion"
    using assms(3,4,5) by (auto simp: encodeVerifiedCreated_def rev_EventVersion_def)
  have z: "\<not> ID_IsZero (rw_ID r)" "\<not> ID_IsZero (rw_VerifiedInteractionID r)" "\<not> ID_IsZero (rw_ListingID r)"
    "\<not> ID_IsZero (rw_ReviewerUserID r)" "\<not> ID_IsZero (rw_ProviderUserID r)"
    using assms(1) by (auto simp: rev_Validate_def split: if_splits)
  show ?thesis
    unfolding review_of_event_def d t
    by (simp add: assms(7) created_payload_def ParseID_String z parse_instant_def parse_format_RFC3339 [OF assms(2)])
qed

section \<open>Repeated deliveries\<close>

text \<open>
  A projection folds deliveries into a state that remembers which events it has processed. The contract:
  an event it has processed changes nothing, any other is recorded.
\<close>

fun first_deliveries :: "('e \<Rightarrow> 'k) \<Rightarrow> 'k set \<Rightarrow> 'e list \<Rightarrow> 'e list" where
  "first_deliveries key seen [] = []"
| "first_deliveries key seen (e # es) =
     (if key e \<in> seen then first_deliveries key seen es
      else e # first_deliveries key (insert (key e) seen) es)"

lemma first_deliveries_keys:
  "key ` set (first_deliveries key seen es) = key ` set es - seen" "distinct (map key (first_deliveries key seen es))"
  "set (first_deliveries key seen es) \<subseteq> set es"
proof -
  show sub: "set (first_deliveries key seen es) \<subseteq> set es"
    by (induction es arbitrary: seen) (simp_all, blast+)
  have keys: "key ` set (first_deliveries key seen es) = key ` set es - seen" for es seen
    by (induction es arbitrary: seen) auto
  then show "key ` set (first_deliveries key seen es) = key ` set es - seen" .
  show "distinct (map key (first_deliveries key seen es))"
  proof (induction es arbitrary: seen)
    case (Cons e es)
    then show ?case using keys by auto
  qed simp
qed

text \<open>Where a key belongs to one thing only, the first deliveries carry each thing once.\<close>

lemma first_deliveries_content:
  assumes "inj_on f (g ` set es)" and "\<And>e. e \<in> set es \<Longrightarrow> key e = f (g e)"
  shows "distinct (map g (first_deliveries key {} es))" and "g ` set (first_deliveries key {} es) = g ` set es"
proof -
  let ?fs = "first_deliveries key {} es"
  have sub: "set ?fs \<subseteq> set es" by (rule first_deliveries_keys)
  have im: "key ` S = f ` (g ` S)" if "S \<subseteq> set es" for S
    unfolding image_image by (rule image_cong) (use assms(2) that in auto)
  have "map key ?fs = map f (map g ?fs)"
    unfolding map_map by (rule map_cong) (use assms(2) sub in auto)
  then have "distinct (map f (map g ?fs))"
    using first_deliveries_keys(2) [of key "{}" es] by (simp only:)
  then show "distinct (map g ?fs)" using distinct_map [of f "map g ?fs"] by (simp only:)
  have "f ` (g ` set ?fs) = f ` (g ` set es)"
    using first_deliveries_keys(1) [of key "{}" es] im [OF sub] im [OF subset_refl] by simp
  then show "g ` set ?fs = g ` set es"
    by (rule inj_on_image_eq_iff [OF assms(1), THEN iffD1, rotated 2]) (use sub in auto)
qed

lemma filtered_card:
  assumes "distinct xs"
  shows "length (filter P xs) = card {x \<in> set xs. P x}"
    and "sum_list (map g (filter P xs)) = (\<Sum>x\<in>{x \<in> set xs. P x}. g x)"
  using distinct_card [of "filter P xs"] sum_list_distinct_conv_sum_set [of "filter P xs" g] assms by simp_all

locale projection =
  fixes key :: "'e \<Rightarrow> 'k"
    and valid :: "'e \<Rightarrow> bool"
    and processed :: "'s \<Rightarrow> 'k set"
    and invar :: "'s \<Rightarrow> bool"
    and step :: "'e \<Rightarrow> 's \<Rightarrow> 's"
  assumes repeat_harmless: "valid e \<Longrightarrow> invar s \<Longrightarrow> key e \<in> processed s \<Longrightarrow> step e s = s"
    and step_records: "valid e \<Longrightarrow> invar s \<Longrightarrow> processed (step e s) = insert (key e) (processed s)"
    and step_invar: "valid e \<Longrightarrow> invar s \<Longrightarrow> invar (step e s)"
begin

text \<open>Any number of deliveries of each event amounts to the first one of each.\<close>

lemma once_each:
  "invar s \<Longrightarrow> (\<And>e. e \<in> set es \<Longrightarrow> valid e) \<Longrightarrow>
   fold step es s = fold step (first_deliveries key (processed s) es) s"
  by (induction es arbitrary: s) (auto simp: repeat_harmless step_records step_invar insert_absorb)

lemma processed_after:
  "invar s \<Longrightarrow> (\<And>e. e \<in> set es \<Longrightarrow> valid e) \<Longrightarrow>
   invar (fold step es s) \<and> processed (fold step es s) = processed s \<union> key ` set es"
  by (induction es arbitrary: s) (auto simp: step_records step_invar)

text \<open>A property of the fresh deliveries so far, kept by every one of them, holds after any deliveries.\<close>

lemma fresh_induct:
  assumes valid: "\<And>e. e \<in> set es \<Longrightarrow> valid e" and start: "invar s" "processed s = {}" "P [] s"
    and fresh: "\<And>ds e s. P ds s \<Longrightarrow> invar s \<Longrightarrow> e \<in> set es \<Longrightarrow> key e \<notin> processed s \<Longrightarrow> P (ds @ [e]) (step e s)"
  shows "P (first_deliveries key {} es) (fold step es s)"
proof -
  have "P (ds @ first_deliveries key (processed s) fs) (fold step fs s)"
    if "P ds s" "invar s" "set fs \<subseteq> set es" for ds fs s
    using that
  proof (induction fs arbitrary: ds s)
    case (Cons e fs)
    have v: "valid e" using valid Cons.prems by auto
    show ?case
    proof (cases "key e \<in> processed s")
      case True
      then show ?thesis using Cons repeat_harmless [OF v] by auto
    next
      case False
      then have "P (ds @ [e]) (step e s)" using fresh Cons.prems by auto
      from Cons.IH [OF this step_invar [OF v]] show ?thesis
        using Cons.prems False step_records [OF v] by auto
    qed
  qed simp
  from this [of "[]" s es] show ?thesis using start by simp
qed

end

end
