(* ===== verification/Aggregates.thy ===== *)
theory Aggregates
  imports Projection
begin

text \<open>
  The package \<open>reviewaggregates\<close>: the number and the sum of the ratings per listing and per provider, folded
  from the events of verified reviews (\<open>domain.go\<close>, \<open>memory.go\<close>, \<open>projector.go\<close>, \<open>handler.go\<close>, \<open>service.go\<close>).
\<close>

section \<open>Data\<close>

definition agg_MinRating :: int where "agg_MinRating = 1"
definition agg_MaxRating :: int where "agg_MaxRating = 5"

record rating_summary =
  rs_ReviewCount :: int
  rs_RatingSum :: int
  rs_UpdatedAt :: time

definition summary_Validate :: "rating_summary \<Rightarrow> go_error option" where
  "summary_Validate s =
     (if rs_ReviewCount s < 0 \<or> rs_RatingSum s < 0 then Some (AggErr Agg_errInvalidSummary)
      else if rs_ReviewCount s = 0
        then if rs_RatingSum s \<noteq> 0 then Some (AggErr Agg_errInvalidSummary) else None
      else if rs_RatingSum s < rs_ReviewCount s * agg_MinRating \<or> rs_ReviewCount s * agg_MaxRating < rs_RatingSum s
        then Some (AggErr Agg_errInvalidSummary)
      else if time_IsZero (rs_UpdatedAt s) then Some (AggErr Agg_errInvalidSummary)
      else None)"

definition AverageNumber :: "rating_summary \<Rightarrow> string option" where
  "AverageNumber s =
     (if rs_ReviewCount s = 0 then None else Some (formatAverage (rs_RatingSum s) (rs_ReviewCount s)))"

definition ZeroSummary :: rating_summary where
  "ZeroSummary = \<lparr>rs_ReviewCount = 0, rs_RatingSum = 0, rs_UpdatedAt = 0\<rparr>"

definition validRating :: "int \<Rightarrow> bool" where
  "validRating v \<longleftrightarrow> agg_MinRating \<le> v \<and> v \<le> agg_MaxRating"

definition agg_review_Validate :: "verified_review \<Rightarrow> go_error option" where
  "agg_review_Validate e =
     (if ID_IsZero (vr_EventID e) \<or> ID_IsZero (vr_ReviewID e) \<or> ID_IsZero (vr_VerifiedInteractionID e) \<or>
         ID_IsZero (vr_ListingID e) \<or> ID_IsZero (vr_ReviewerUserID e) \<or> ID_IsZero (vr_ProviderUserID e)
        then Some (AggErr Agg_errZeroID)
      else if vr_ReviewerUserID e = vr_ProviderUserID e then Some (AggErr Agg_errInvalidEvent)
      else if \<not> validRating (vr_ListingAccuracy e) \<or> \<not> validRating (vr_ProviderService e)
        then Some (AggErr Agg_errInvalidRating)
      else if time_IsZero (vr_CreatedAt e) then Some (AggErr Agg_errInvalidEvent)
      else None)"

section \<open>The in-memory store\<close>

record agg_mem =
  gm_processed :: "(ID, unit) gomap"
  gm_listings :: "(ID, rating_summary) gomap"
  gm_providers :: "(ID, rating_summary) gomap"
  gm_fail :: "go_error option"

definition agg_NewMemoryStore :: agg_mem where
  "agg_NewMemoryStore = \<lparr>gm_processed = [], gm_listings = [], gm_providers = [], gm_fail = None\<rparr>"

definition agg_bump :: "(ID, rating_summary) gomap \<Rightarrow> ID \<Rightarrow> int \<Rightarrow> time \<Rightarrow> (ID, rating_summary) gomap res" where
  "agg_bump dest key rating now =
     (let row = (case map_of dest key of None \<Rightarrow> ZeroSummary | Some r \<Rightarrow> r);
          row = row\<lparr>rs_ReviewCount := rs_ReviewCount row + 1, rs_RatingSum := rs_RatingSum row + rating,
                    rs_UpdatedAt := time_UTC now\<rparr>
      in case summary_Validate row of Some e \<Rightarrow> Inl e | None \<Rightarrow> Inr (AList.update key row dest))"

definition agg_mem_ApplyVerified :: "ctx \<Rightarrow> verified_review \<Rightarrow> time \<Rightarrow> (agg_mem, unit) go" where
  "agg_mem_ApplyVerified c e now = (\<lambda>m.
     gguard (ctx_Err c) (gguard (agg_review_Validate e) (gguard (gm_fail m)
       (if map_of (gm_processed m) (vr_EventID e) \<noteq> None then gret ()
        else (\<lambda>m.
          let m = m\<lparr>gm_processed := AList.update (vr_EventID e) () (gm_processed m)\<rparr>
          in case agg_bump (gm_listings m) (vr_ListingID e) (vr_ListingAccuracy e) now of
               Inl err \<Rightarrow> (m, Inl err)
             | Inr ls \<Rightarrow>
                 let m = m\<lparr>gm_listings := ls\<rparr>
                 in case agg_bump (gm_providers m) (vr_ProviderUserID e) (vr_ProviderService e) now of
                      Inl err \<Rightarrow> (m, Inl err)
                    | Inr ps \<Rightarrow> (m\<lparr>gm_providers := ps\<rparr>, Inr ()))))) m)"

definition agg_mem_get ::
  "ctx \<Rightarrow> (agg_mem \<Rightarrow> (ID, rating_summary) gomap) \<Rightarrow> ID \<Rightarrow> (agg_mem, rating_summary) go" where
  "agg_mem_get c src i = (\<lambda>m.
     gguard (ctx_Err c)
       (if ID_IsZero i then gfail (AggErr Agg_errZeroID)
        else gguard (gm_fail m)
          (case map_of (src m) i of None \<Rightarrow> gfail (AggErr Agg_errNotFound) | Some r \<Rightarrow> gret r)) m)"

definition agg_mem_GetListingAccuracy :: "ctx \<Rightarrow> ID \<Rightarrow> (agg_mem, rating_summary) go" where
  "agg_mem_GetListingAccuracy c = agg_mem_get c gm_listings"

definition agg_mem_GetProviderService :: "ctx \<Rightarrow> ID \<Rightarrow> (agg_mem, rating_summary) go" where
  "agg_mem_GetProviderService c = agg_mem_get c gm_providers"

section \<open>The projector\<close>

record 'w agg_store =
  gs_ApplyVerified :: "ctx \<Rightarrow> verified_review \<Rightarrow> time \<Rightarrow> ('w, unit) go"
  gs_GetListingAccuracy :: "ctx \<Rightarrow> ID \<Rightarrow> ('w, rating_summary) go"
  gs_GetProviderService :: "ctx \<Rightarrow> ID \<Rightarrow> ('w, rating_summary) go"

definition agg_mem_store :: "('w \<Rightarrow> agg_mem) \<Rightarrow> ((agg_mem \<Rightarrow> agg_mem) \<Rightarrow> 'w \<Rightarrow> 'w) \<Rightarrow> 'w agg_store" where
  "agg_mem_store get upd =
     \<lparr>gs_ApplyVerified = (\<lambda>c e now. zoom get upd (agg_mem_ApplyVerified c e now)),
      gs_GetListingAccuracy = (\<lambda>c i. zoom get upd (agg_mem_GetListingAccuracy c i)),
      gs_GetProviderService = (\<lambda>c i. zoom get upd (agg_mem_GetProviderService c i))\<rparr>"

record 'w agg_projector =
  gp_store :: "'w agg_store option"
  gp_now :: "'w \<Rightarrow> 'w \<times> time"

definition agg_NewProjector :: "'w agg_store option \<Rightarrow> ('w \<Rightarrow> 'w \<times> time) \<Rightarrow> 'w agg_projector res" where
  "agg_NewProjector st now =
     (case st of None \<Rightarrow> Inl (AggErr Agg_errStoreRequired) | Some _ \<Rightarrow> Inr \<lparr>gp_store = st, gp_now = now\<rparr>)"

definition agg_mapStoreErr :: "go_error \<Rightarrow> go_error" where
  [err_defs]: "agg_mapStoreErr err =
     (if ctx_error err then err
      else if err \<in> AggErr ` {Agg_errNotFound, Agg_errZeroID, Agg_errInvalidEvent, Agg_errInvalidRating,
          Agg_errInvalidSummary, Agg_errStoreRequired} then err
      else AggErr Agg_errUnavailable)"

definition agg_Apply :: "'w agg_projector \<Rightarrow> ctx \<Rightarrow> verified_review \<Rightarrow> ('w, unit) go" where
  "agg_Apply p c e =
     gneed (gp_store p) (AggErr Agg_errStoreRequired) (\<lambda>st.
     gguard (agg_review_Validate e)
       (gread (gp_now p) (\<lambda>now. gmaperr agg_mapStoreErr (gs_ApplyVerified st c e now))))"

definition agg_read :: "('w, rating_summary) go \<Rightarrow> ('w, rating_summary) go" where
  "agg_read m = gcase m
     (\<lambda>err. if err = AggErr Agg_errNotFound then gret ZeroSummary else gfail (agg_mapStoreErr err)) gret"

definition agg_ListingAccuracy :: "'w agg_projector \<Rightarrow> ctx \<Rightarrow> ID \<Rightarrow> ('w, rating_summary) go" where
  "agg_ListingAccuracy p c i =
     gneed (gp_store p) (AggErr Agg_errStoreRequired) (\<lambda>st.
     if ID_IsZero i then gfail (AggErr Agg_errZeroID) else agg_read (gs_GetListingAccuracy st c i))"

definition agg_ProviderService :: "'w agg_projector \<Rightarrow> ctx \<Rightarrow> ID \<Rightarrow> ('w, rating_summary) go" where
  "agg_ProviderService p c i =
     gneed (gp_store p) (AggErr Agg_errStoreRequired) (\<lambda>st.
     if ID_IsZero i then gfail (AggErr Agg_errZeroID) else agg_read (gs_GetProviderService st c i))"

definition verifiedFromOutbox :: "outbox_event \<Rightarrow> verified_review res" where
  "verifiedFromOutbox = review_of_event (AggErr Agg_errInvalidEvent)"

definition agg_Handle :: "'w agg_projector \<Rightarrow> ctx \<Rightarrow> outbox_event \<Rightarrow> ('w, unit) go" where
  "agg_Handle p c e = gbind (gpure (verifiedFromOutbox e)) (agg_Apply p c)"

definition KnownReviewAggregateEvent :: "string \<Rightarrow> int \<Rightarrow> bool" where
  "KnownReviewAggregateEvent eventType version \<longleftrightarrow>
     eventType = EventTypeVerifiedCreated \<and> version = rev_EventVersion"

text \<open>The service passes its reads on.\<close>

definition agg_svc_ListingAccuracy :: "'w agg_projector option \<Rightarrow> ctx \<Rightarrow> ID \<Rightarrow> ('w, rating_summary) go" where
  "agg_svc_ListingAccuracy s c i = gneed s (AggErr Agg_errStoreRequired) (\<lambda>p. agg_ListingAccuracy p c i)"

definition agg_svc_ProviderServiceMe :: "'w agg_projector option \<Rightarrow> ctx \<Rightarrow> ID \<Rightarrow> ('w, rating_summary) go" where
  "agg_svc_ProviderServiceMe s c i = gneed s (AggErr Agg_errStoreRequired) (\<lambda>p. agg_ProviderService p c i)"

section \<open>What the summaries say\<close>

text \<open>One delivery: an event and the time of its application.\<close>

type_synonym agg_delivery = "verified_review \<times> time"

definition agg_valid :: "agg_delivery \<Rightarrow> bool" where
  "agg_valid d \<longleftrightarrow> agg_review_Validate (fst d) = None \<and> snd d \<noteq> 0"

definition agg_step :: "agg_delivery \<Rightarrow> agg_mem \<Rightarrow> agg_mem" where
  "agg_step d m = fst (agg_mem_ApplyVerified background (fst d) (snd d) m)"

definition agg_processed :: "agg_mem \<Rightarrow> ID set" where
  "agg_processed m = dom (map_of (gm_processed m))"

text \<open>The summary of a list of ratings, with the time of the last of them.\<close>

definition summary_of :: "(int \<times> time) list \<Rightarrow> rating_summary option" where
  "summary_of rs = (if rs = [] then None
     else Some \<lparr>rs_ReviewCount = int (length rs), rs_RatingSum = sum_list (map fst rs), rs_UpdatedAt = snd (last rs)\<rparr>)"

definition listing_ratings :: "ID \<Rightarrow> agg_delivery list \<Rightarrow> (int \<times> time) list" where
  "listing_ratings l ds = map (\<lambda>(e, t). (vr_ListingAccuracy e, t)) (filter (\<lambda>(e, t). vr_ListingID e = l) ds)"

definition provider_ratings :: "ID \<Rightarrow> agg_delivery list \<Rightarrow> (int \<times> time) list" where
  "provider_ratings u ds = map (\<lambda>(e, t). (vr_ProviderService e, t)) (filter (\<lambda>(e, t). vr_ProviderUserID e = u) ds)"

lemma sum_list_rated:
  "list_all (\<lambda>r. validRating (fst r)) rs \<Longrightarrow>
   int (length rs) \<le> sum_list (map fst rs) \<and> sum_list (map fst rs) \<le> 5 * int (length rs)"
  by (induction rs) (auto simp: validRating_def agg_MinRating_def agg_MaxRating_def)

lemma agg_bump_summary:
  assumes "map_of dest k = summary_of rs" and "list_all (\<lambda>r. validRating (fst r)) (rs @ [(x, t)])" and "t \<noteq> 0"
  shows "\<exists>dest'. agg_bump dest k x t = Inr dest' \<and> map_of dest' = (map_of dest)(k := summary_of (rs @ [(x, t)]))"
proof -
  have row: "(case map_of dest k of None \<Rightarrow> ZeroSummary | Some r \<Rightarrow> r)
      \<lparr>rs_ReviewCount := rs_ReviewCount (case map_of dest k of None \<Rightarrow> ZeroSummary | Some r \<Rightarrow> r) + 1,
       rs_RatingSum := rs_RatingSum (case map_of dest k of None \<Rightarrow> ZeroSummary | Some r \<Rightarrow> r) + x,
       rs_UpdatedAt := time_UTC t\<rparr> = the (summary_of (rs @ [(x, t)]))"
    by (simp add: assms(1) summary_of_def ZeroSummary_def)
  have "summary_Validate (the (summary_of (rs @ [(x, t)]))) = None"
    using sum_list_rated [OF assms(2)] assms(3)
    by (simp add: summary_Validate_def summary_of_def agg_MinRating_def agg_MaxRating_def)
  then show ?thesis unfolding agg_bump_def Let_def row by (simp add: summary_of_def)
qed

text \<open>After the fresh deliveries \<open>ds\<close> the two maps hold exactly their summaries.\<close>

definition agg_exact :: "agg_delivery list \<Rightarrow> agg_mem \<Rightarrow> bool" where
  "agg_exact ds m \<longleftrightarrow> gm_fail m = None \<and> list_all agg_valid ds \<and>
     (\<forall>l. map_of (gm_listings m) l = summary_of (listing_ratings l ds)) \<and>
     (\<forall>u. map_of (gm_providers m) u = summary_of (provider_ratings u ds))"

lemma agg_ratings_valid:
  "list_all agg_valid ds \<Longrightarrow> list_all (\<lambda>r. validRating (fst r)) (listing_ratings l ds)"
  "list_all agg_valid ds \<Longrightarrow> list_all (\<lambda>r. validRating (fst r)) (provider_ratings l ds)"
  by (auto simp: listing_ratings_def provider_ratings_def list_all_iff agg_valid_def agg_review_Validate_def split: if_splits)

lemma agg_step_exact:
  assumes "agg_exact ds m" and "agg_valid (e, t)" and "vr_EventID e \<notin> agg_processed m"
  shows "agg_exact (ds @ [(e, t)]) (agg_step (e, t) m)"
    and "agg_processed (agg_step (e, t) m) = insert (vr_EventID e) (agg_processed m)"
    and "snd (agg_mem_ApplyVerified background e t m) = Inr ()"
proof -
  have v: "agg_review_Validate e = None" "t \<noteq> 0" using assms(2) by (simp_all add: agg_valid_def)
  have ds: "list_all agg_valid (ds @ [(e, t)])" using assms(1,2) by (simp add: agg_exact_def)
  let ?l = "vr_ListingID e" and ?u = "vr_ProviderUserID e"
  have ls: "listing_ratings l (ds @ [(e, t)]) =
      (if l = ?l then listing_ratings l ds @ [(vr_ListingAccuracy e, t)] else listing_ratings l ds)" for l
    by (simp add: listing_ratings_def)
  have ps: "provider_ratings u (ds @ [(e, t)]) =
      (if u = ?u then provider_ratings u ds @ [(vr_ProviderService e, t)] else provider_ratings u ds)" for u
    by (simp add: provider_ratings_def)
  have lv: "list_all (\<lambda>r. validRating (fst r)) (listing_ratings ?l ds @ [(vr_ListingAccuracy e, t)])"
    "list_all (\<lambda>r. validRating (fst r)) (provider_ratings ?u ds @ [(vr_ProviderService e, t)])"
    using agg_ratings_valid [OF ds] ls [of ?l] ps [of ?u] by metis+
  obtain L where L: "agg_bump (gm_listings m) ?l (vr_ListingAccuracy e) t = Inr L"
    "map_of L = (map_of (gm_listings m))(?l := summary_of (listing_ratings ?l ds @ [(vr_ListingAccuracy e, t)]))"
    using agg_bump_summary [OF _ lv(1) v(2), of "gm_listings m" ?l] assms(1) by (auto simp: agg_exact_def)
  obtain U where U: "agg_bump (gm_providers m) ?u (vr_ProviderService e) t = Inr U"
    "map_of U = (map_of (gm_providers m))(?u := summary_of (provider_ratings ?u ds @ [(vr_ProviderService e, t)]))"
    using agg_bump_summary [OF _ lv(2) v(2), of "gm_providers m" ?u] assms(1) by (auto simp: agg_exact_def)
  have run: "agg_mem_ApplyVerified background e t m =
      (m\<lparr>gm_processed := AList.update (vr_EventID e) () (gm_processed m), gm_listings := L, gm_providers := U\<rparr>, Inr ())"
    using assms(1,3) L(1) U(1)
    by (simp add: agg_mem_ApplyVerified_def background_def v agg_exact_def agg_processed_def domIff Let_def)
  show "agg_exact (ds @ [(e, t)]) (agg_step (e, t) m)"
    using assms(1) ds L(2) U(2) by (simp add: agg_exact_def agg_step_def run ls ps)
  show "agg_processed (agg_step (e, t) m) = insert (vr_EventID e) (agg_processed m)"
    by (simp add: agg_processed_def agg_step_def run)
  show "snd (agg_mem_ApplyVerified background e t m) = Inr ()" by (simp add: run)
qed

lemma agg_step_again:
  assumes "agg_valid (e, t)" and "vr_EventID e \<in> agg_processed m" and "gm_fail m = None"
  shows "agg_mem_ApplyVerified background e t m = (m, Inr ())"
  using assms by (auto simp: agg_mem_ApplyVerified_def background_def agg_valid_def agg_processed_def)

lemma agg_step_records:
  assumes "agg_valid (e, t)" and "gm_fail m = None"
  shows "agg_processed (agg_step (e, t) m) = insert (vr_EventID e) (agg_processed m)" "gm_fail (agg_step (e, t) m) = None"
  using assms
  by (auto simp: agg_step_def agg_mem_ApplyVerified_def background_def agg_valid_def agg_processed_def Let_def
    split: sum.split)

text \<open>The store keeps the contract while it is up. What the handler does with an event is such a step.\<close>

interpretation agg: projection "vr_EventID \<circ> fst" agg_valid agg_processed "\<lambda>m. gm_fail (m :: agg_mem) = None" agg_step
proof
  fix d and m :: agg_mem assume d: "agg_valid d" and m: "gm_fail m = None"
  show "agg_step d m = m" if "(vr_EventID \<circ> fst) d \<in> agg_processed m"
    using agg_step_again [of "fst d" "snd d" m] d m that by (simp add: agg_step_def)
  show "agg_processed (agg_step d m) = insert ((vr_EventID \<circ> fst) d) (agg_processed m)" "gm_fail (agg_step d m) = None"
    using agg_step_records [of "fst d" "snd d" m] d m by simp_all
qed

lemma agg_Handle_step:
  assumes "verifiedFromOutbox e = Inr v" and "agg_valid (v, t)"
  shows "fst (agg_Handle \<lparr>gp_store = Some (agg_mem_store (\<lambda>m. m) (\<lambda>f. f)), gp_now = (\<lambda>m. (m, t))\<rparr> background e m) =
    agg_step (v, t) m"
  using assms
  by (simp add: agg_Handle_def agg_Apply_def agg_valid_def agg_step_def agg_mem_store_def zoom_def gread_apply gmaperr_apply
    split: prod.split sum.split)

lemma ratings_count:
  assumes "distinct (map fst fs)" and "R = {e \<in> fst ` set fs. P e}"
    and "rs = map (\<lambda>(e, t). (g e, t)) (filter (\<lambda>(e, t). P e) fs)"
  shows "length rs = card R" and "sum_list (map fst rs) = (\<Sum>e\<in>R. g e)" and "rs = [] \<longleftrightarrow> R = {}"
proof -
  have m: "map fst (filter (\<lambda>(e, t). P e) fs) = filter P (map fst fs)"
    by (induction fs) auto
  have R: "R = set (filter P (map fst fs))" using assms(2) by auto
  note fc = filtered_card [OF assms(1), where P = P]
  have l: "length rs = length (filter P (map fst fs))" unfolding assms(3) m [symmetric] by simp
  then show "length rs = card R" using R fc(1) by simp
  have "map fst rs = map g (filter P (map fst fs))"
    unfolding assms(3) m [symmetric] by (simp add: case_prod_beta)
  then show "sum_list (map fst rs) = (\<Sum>e\<in>R. g e)"
    using R fc(2) [of g] by simp
  show "rs = [] \<longleftrightarrow> R = {}" using l R by (metis length_0_conv set_empty)
qed

lemma summary_of_ratings:
  assumes "list_all (\<lambda>r. validRating (fst r)) rs" and "list_all (\<lambda>r. snd r \<noteq> 0) rs" and "summary_of rs = Some s"
  shows "rs \<noteq> [] \<and> rs_ReviewCount s = int (length rs) \<and> rs_RatingSum s = sum_list (map fst rs) \<and> summary_Validate s = None"
proof -
  have "rs \<noteq> []" and s: "s = \<lparr>rs_ReviewCount = int (length rs), rs_RatingSum = sum_list (map fst rs), rs_UpdatedAt = snd (last rs)\<rparr>"
    using assms(3) by (auto simp: summary_of_def split: if_splits)
  moreover have "snd (last rs) \<noteq> 0" using assms(2) \<open>rs \<noteq> []\<close> by (auto simp: list_all_iff)
  ultimately show ?thesis
    using sum_list_rated [OF assms(1)] by (simp add: summary_Validate_def agg_MinRating_def agg_MaxRating_def)
qed

text \<open>C28. The summaries are exact. The relay delivers events at least once, in any order. Whatever it delivered, a
  listing's summary counts each of the reviews of that listing among the delivered events once, sums
  their ratings, and there is no summary when there is none; so for providers.\<close>

theorem aggregates_exact:
  assumes "\<And>d. d \<in> set ds \<Longrightarrow> agg_valid d" and "inj_on vr_EventID (fst ` set ds)"
  shows "let m = fold agg_step ds agg_NewMemoryStore; E = fst ` set ds in
    (let R = {e \<in> E. vr_ListingID e = l} in
       case map_of (gm_listings m) l of
         None \<Rightarrow> R = {}
       | Some s \<Rightarrow> R \<noteq> {} \<and> rs_ReviewCount s = int (card R) \<and> rs_RatingSum s = (\<Sum>e\<in>R. vr_ListingAccuracy e) \<and>
           summary_Validate s = None) \<and>
    (let R = {e \<in> E. vr_ProviderUserID e = u} in
       case map_of (gm_providers m) u of
         None \<Rightarrow> R = {}
       | Some s \<Rightarrow> R \<noteq> {} \<and> rs_ReviewCount s = int (card R) \<and> rs_RatingSum s = (\<Sum>e\<in>R. vr_ProviderService e) \<and>
           summary_Validate s = None)"
proof -
  let ?fs = "first_deliveries (vr_EventID \<circ> fst) {} ds"
  have ex: "agg_exact ?fs (fold agg_step ds agg_NewMemoryStore)"
  proof (rule agg.fresh_induct)
    show "agg_exact (fs @ [d]) (agg_step d m)"
      if "agg_exact fs m" "d \<in> set ds" "(vr_EventID \<circ> fst) d \<notin> agg_processed m" for fs d m
      using agg_step_exact(1) [of fs m "fst d" "snd d"] assms(1) that by simp
  qed (use assms(1) in \<open>simp_all add: agg_NewMemoryStore_def agg_processed_def agg_exact_def summary_of_def
      listing_ratings_def provider_ratings_def\<close>)
  have d: "distinct (map fst ?fs)" and s: "fst ` set ?fs = fst ` set ds"
    using first_deliveries_content [OF assms(2), of "vr_EventID \<circ> fst"] by simp_all
  have v: "list_all agg_valid ?fs" using ex by (simp add: agg_exact_def)
  have t: "list_all (\<lambda>r. snd r \<noteq> 0) (listing_ratings l ?fs)" "list_all (\<lambda>r. snd r \<noteq> 0) (provider_ratings u ?fs)"
    using v by (auto simp: listing_ratings_def provider_ratings_def list_all_iff agg_valid_def)
  note lc = ratings_count [OF d, unfolded s, OF refl listing_ratings_def]
  note pc = ratings_count [OF d, unfolded s, OF refl provider_ratings_def]
  have "case map_of (gm_listings (fold agg_step ds agg_NewMemoryStore)) l of
      None \<Rightarrow> {e \<in> fst ` set ds. vr_ListingID e = l} = {}
    | Some sm \<Rightarrow> {e \<in> fst ` set ds. vr_ListingID e = l} \<noteq> {} \<and>
        rs_ReviewCount sm = int (card {e \<in> fst ` set ds. vr_ListingID e = l}) \<and>
        rs_RatingSum sm = (\<Sum>e\<in>{e \<in> fst ` set ds. vr_ListingID e = l}. vr_ListingAccuracy e) \<and> summary_Validate sm = None"
  proof (cases "summary_of (listing_ratings l ?fs)")
    case None
    then show ?thesis using ex lc(3) [of l] by (simp add: agg_exact_def summary_of_def split: if_splits)
  next
    case (Some sm)
    from summary_of_ratings [OF agg_ratings_valid(1) [OF v] t(1) Some]
    show ?thesis using ex Some lc(1,2,3) [of l] by (simp add: agg_exact_def)
  qed
  moreover have "case map_of (gm_providers (fold agg_step ds agg_NewMemoryStore)) u of
      None \<Rightarrow> {e \<in> fst ` set ds. vr_ProviderUserID e = u} = {}
    | Some sm \<Rightarrow> {e \<in> fst ` set ds. vr_ProviderUserID e = u} \<noteq> {} \<and>
        rs_ReviewCount sm = int (card {e \<in> fst ` set ds. vr_ProviderUserID e = u}) \<and>
        rs_RatingSum sm = (\<Sum>e\<in>{e \<in> fst ` set ds. vr_ProviderUserID e = u}. vr_ProviderService e) \<and> summary_Validate sm = None"
  proof (cases "summary_of (provider_ratings u ?fs)")
    case None
    then show ?thesis using ex pc(3) [of u] by (simp add: agg_exact_def summary_of_def split: if_splits)
  next
    case (Some sm)
    from summary_of_ratings [OF agg_ratings_valid(2) [OF v] t(2) Some]
    show ?thesis using ex Some pc(1,2,3) [of u] by (simp add: agg_exact_def)
  qed
  ultimately show ?thesis unfolding Let_def by (rule conjI)
qed

text \<open>Two events of one listing, the first of them delivered twice.\<close>

definition sample_rated :: "nat \<Rightarrow> int \<Rightarrow> verified_review" where
  "sample_rated n x =
     \<lparr>vr_EventID = id_n n, vr_ReviewID = id_n 10, vr_VerifiedInteractionID = id_n 50, vr_ListingID = id_n 2,
      vr_ReviewerUserID = id_n 3, vr_ProviderUserID = id_n 4, vr_ListingAccuracy = x, vr_ProviderService = 4,
      vr_CreatedAt = 7\<rparr>"

theorem aggregates_exact_witness:
  "\<exists>s. map_of (gm_listings (fold agg_step [(sample_rated 20 5, 8), (sample_rated 21 2, 9), (sample_rated 20 5, 10)]
     agg_NewMemoryStore)) (id_n 2) = Some s \<and> rs_ReviewCount s = 2 \<and> rs_RatingSum s = 7"
proof -
  let ?ds = "[(sample_rated 20 5, 8), (sample_rated 21 2, 9), (sample_rated 20 5, 10 :: time)]"
  have f: "vr_EventID (sample_rated n x) = id_n n" "vr_ListingID (sample_rated n x) = id_n 2"
    "vr_ListingAccuracy (sample_rated n x) = x" for n x
    by (simp_all add: sample_rated_def)
  have "agg_valid d" if "d \<in> set ?ds" for d
    using that by (auto simp: agg_valid_def agg_review_Validate_def sample_rated_def validRating_def agg_MinRating_def agg_MaxRating_def)
  moreover have "inj_on vr_EventID (fst ` set ?ds)" by (auto simp: inj_on_def f)
  ultimately have m: "let R = {e \<in> fst ` set ?ds. vr_ListingID e = id_n 2} in
       case map_of (gm_listings (fold agg_step ?ds agg_NewMemoryStore)) (id_n 2) of
         None \<Rightarrow> R = {}
       | Some s \<Rightarrow> R \<noteq> {} \<and> rs_ReviewCount s = int (card R) \<and> rs_RatingSum s = (\<Sum>e\<in>R. vr_ListingAccuracy e) \<and>
           summary_Validate s = None"
    using aggregates_exact [of ?ds "id_n 2" "id_n 4"] unfolding Let_def by blast
  have ne: "sample_rated 20 5 \<noteq> sample_rated 21 2" using f(3) by (metis numeral_eq_iff semiring_norm(85,88))
  have R: "{e \<in> fst ` set ?ds. vr_ListingID e = id_n 2} = {sample_rated 20 5, sample_rated 21 2}" by (auto simp: f)
  show ?thesis using m ne unfolding R Let_def by (auto simp: f split: option.splits)
qed

end
