(* ===== verification/Trust.thy ===== *)
theory Trust
  imports Projection
begin

text \<open>
  The package \<open>trust\<close>: profiles of users and the history of their verified interactions, folded from the events
  of completed interactions and of verified reviews (\<open>domain.go\<close>, \<open>memory.go\<close>, \<open>projector.go\<close>, \<open>handler.go\<close>,
  \<open>service.go\<close>).
\<close>

section \<open>Data\<close>

definition LevelNew :: string where "LevelNew = ''new''"
definition LevelVerified :: string where "LevelVerified = ''verified''"
definition LevelEstablished :: string where "LevelEstablished = ''established''"

definition validLevel :: "string \<Rightarrow> bool" where
  "validLevel level \<longleftrightarrow> level \<in> {LevelNew, LevelVerified, LevelEstablished}"

definition RoleRequester :: string where "RoleRequester = ''requester''"
definition RoleProvider :: string where "RoleProvider = ''provider''"
definition trust_MinRating :: int where "trust_MinRating = 1"
definition trust_MaxRating :: int where "trust_MaxRating = 5"

record level_policy =
  lp_VerifiedMin :: int
  lp_EstablishedMin :: int

definition DefaultLevelPolicy :: level_policy where
  "DefaultLevelPolicy = \<lparr>lp_VerifiedMin = 1, lp_EstablishedMin = 5\<rparr>"

definition level_policy_Validate :: "level_policy \<Rightarrow> go_error option" where
  "level_policy_Validate p =
     (if lp_VerifiedMin p < 1 \<or> lp_EstablishedMin p \<le> lp_VerifiedMin p then Some (TrustErr Trust_errInvalidPolicy) else None)"

definition policy_Level :: "level_policy \<Rightarrow> int \<Rightarrow> string" where
  "policy_Level p verifiedCount =
     (if lp_EstablishedMin p \<le> verifiedCount then LevelEstablished
      else if lp_VerifiedMin p \<le> verifiedCount then LevelVerified
      else LevelNew)"

record user_profile =
  up_UserID :: ID
  up_VerifiedInteractionCount :: int
  up_ProviderVerifiedInteractionCount :: int
  up_RequesterVerifiedInteractionCount :: int
  up_LastVerifiedInteractionAt :: "time option"
  up_VerifiedReviewCount :: int
  up_ProviderServiceReviewCount :: int
  up_ProviderServiceRatingSum :: int
  up_LastVerifiedReviewAt :: "time option"
  up_LastProviderServiceReviewAt :: "time option"
  up_TrustLevel :: string
  up_UpdatedAt :: time

definition profile_Validate :: "user_profile \<Rightarrow> go_error option" where
  "profile_Validate p =
     (if ID_IsZero (up_UserID p) then Some (TrustErr Trust_errZeroID)
      else if up_VerifiedInteractionCount p < 0 \<or> up_ProviderVerifiedInteractionCount p < 0 \<or>
              up_RequesterVerifiedInteractionCount p < 0 then Some (TrustErr Trust_errInvalidProfile)
      else if up_VerifiedInteractionCount p \<noteq> up_ProviderVerifiedInteractionCount p + up_RequesterVerifiedInteractionCount p
        then Some (TrustErr Trust_errInvalidProfile)
      else if up_VerifiedReviewCount p < 0 \<or> up_ProviderServiceReviewCount p < 0 \<or> up_ProviderServiceRatingSum p < 0
        then Some (TrustErr Trust_errInvalidProfile)
      else if (if up_ProviderServiceReviewCount p = 0 then up_ProviderServiceRatingSum p \<noteq> 0
               else up_ProviderServiceRatingSum p < up_ProviderServiceReviewCount p * trust_MinRating \<or>
                 up_ProviderServiceReviewCount p * trust_MaxRating < up_ProviderServiceRatingSum p)
        then Some (TrustErr Trust_errInvalidProfile)
      else if \<not> validLevel (up_TrustLevel p) then Some (TrustErr Trust_errInvalidProfile)
      else if time_IsZero (up_UpdatedAt p) then Some (TrustErr Trust_errInvalidProfile)
      else None)"

definition ProviderServiceAverage :: "user_profile \<Rightarrow> string option" where
  "ProviderServiceAverage p =
     (if up_ProviderServiceReviewCount p = 0 then None
      else Some (formatAverage (up_ProviderServiceRatingSum p) (up_ProviderServiceReviewCount p)))"

definition ZeroProfile :: "ID \<Rightarrow> time \<Rightarrow> user_profile" where
  "ZeroProfile userID now =
     \<lparr>up_UserID = userID, up_VerifiedInteractionCount = 0, up_ProviderVerifiedInteractionCount = 0,
      up_RequesterVerifiedInteractionCount = 0, up_LastVerifiedInteractionAt = None, up_VerifiedReviewCount = 0,
      up_ProviderServiceReviewCount = 0, up_ProviderServiceRatingSum = 0, up_LastVerifiedReviewAt = None,
      up_LastProviderServiceReviewAt = None, up_TrustLevel = LevelNew, up_UpdatedAt = time_UTC now\<rparr>"

record public_passport =
  pt_Level :: string
  pt_VerifiedInteractionCount :: int
  pt_ProviderVerifiedInteractionCount :: int
  pt_ProviderServiceReviewCount :: int
  pt_ProviderServiceAverage :: "string option"
  pt_LastVerifiedInteractionAt :: "time option"

definition ToPublicPassport :: "user_profile \<Rightarrow> public_passport" where
  "ToPublicPassport p =
     \<lparr>pt_Level = up_TrustLevel p, pt_VerifiedInteractionCount = up_VerifiedInteractionCount p,
      pt_ProviderVerifiedInteractionCount = up_ProviderVerifiedInteractionCount p,
      pt_ProviderServiceReviewCount = up_ProviderServiceReviewCount p,
      pt_ProviderServiceAverage = ProviderServiceAverage p,
      pt_LastVerifiedInteractionAt = up_LastVerifiedInteractionAt p\<rparr>"

record history_entry =
  he_InteractionID :: ID
  he_UserID :: ID
  he_Role :: string
  he_ListingID :: ID
  he_InteractionType :: string
  he_VerificationMethod :: string
  he_VerifiedAt :: time

definition knownInteractionType :: "string \<Rightarrow> bool" where
  "knownInteractionType typ \<longleftrightarrow> typ \<in> {InteractionListingInspection, InteractionTransaction, InteractionDelivery}"

definition countsTowardTrustLevel :: "string \<Rightarrow> bool" where
  "countsTowardTrustLevel typ \<longleftrightarrow> typ = InteractionListingInspection"

definition history_Validate :: "history_entry \<Rightarrow> go_error option" where
  "history_Validate h =
     (if ID_IsZero (he_InteractionID h) \<or> ID_IsZero (he_UserID h) \<or> ID_IsZero (he_ListingID h) then Some (TrustErr Trust_errZeroID)
      else if he_Role h \<noteq> RoleRequester \<and> he_Role h \<noteq> RoleProvider then Some (TrustErr Trust_errInvalidEvent)
      else if \<not> knownInteractionType (he_InteractionType h) \<or> strings_TrimSpace (he_VerificationMethod h) = []
        then Some (TrustErr Trust_errInvalidEvent)
      else if time_IsZero (he_VerifiedAt h) then Some (TrustErr Trust_errInvalidEvent)
      else None)"

record completed_interaction =
  ci_EventID :: ID
  ci_InteractionID :: ID
  ci_ListingID :: ID
  ci_RequesterUserID :: ID
  ci_ProviderUserID :: ID
  ci_InteractionType :: string
  ci_VerificationMethod :: string
  ci_VerifiedAt :: time

definition completed_Validate :: "completed_interaction \<Rightarrow> go_error option" where
  "completed_Validate c =
     (if ID_IsZero (ci_EventID c) \<or> ID_IsZero (ci_InteractionID c) \<or> ID_IsZero (ci_ListingID c) \<or>
         ID_IsZero (ci_RequesterUserID c) \<or> ID_IsZero (ci_ProviderUserID c) then Some (TrustErr Trust_errZeroID)
      else if ci_RequesterUserID c = ci_ProviderUserID c then Some (TrustErr Trust_errInvalidEvent)
      else if \<not> knownInteractionType (ci_InteractionType c) \<or> strings_TrimSpace (ci_VerificationMethod c) = []
        then Some (TrustErr Trust_errInvalidEvent)
      else if time_IsZero (ci_VerifiedAt c) then Some (TrustErr Trust_errInvalidEvent)
      else None)"

definition trust_review_Validate :: "verified_review \<Rightarrow> go_error option" where
  "trust_review_Validate e =
     (if ID_IsZero (vr_EventID e) \<or> ID_IsZero (vr_ReviewID e) \<or> ID_IsZero (vr_VerifiedInteractionID e) \<or>
         ID_IsZero (vr_ListingID e) \<or> ID_IsZero (vr_ReviewerUserID e) \<or> ID_IsZero (vr_ProviderUserID e)
        then Some (TrustErr Trust_errZeroID)
      else if vr_ReviewerUserID e = vr_ProviderUserID e then Some (TrustErr Trust_errInvalidEvent)
      else if vr_ProviderService e < trust_MinRating \<or> trust_MaxRating < vr_ProviderService e
        then Some (TrustErr Trust_errInvalidEvent)
      else if vr_ListingAccuracy e < trust_MinRating \<or> trust_MaxRating < vr_ListingAccuracy e
        then Some (TrustErr Trust_errInvalidEvent)
      else if time_IsZero (vr_CreatedAt e) then Some (TrustErr Trust_errInvalidEvent)
      else None)"

section \<open>The in-memory store\<close>

text \<open>\<open>historyKey\<close> is a pair of the interaction and the user.\<close>

record trust_mem =
  tm_processed :: "(ID, unit) gomap"
  tm_profiles :: "(ID, user_profile) gomap"
  tm_history :: "(ID \<times> ID, history_entry) gomap"
  tm_fail :: "go_error option"

definition trust_NewMemoryStore :: trust_mem where
  "trust_NewMemoryStore = \<lparr>tm_processed = [], tm_profiles = [], tm_history = [], tm_fail = None\<rparr>"

text \<open>\<open>if p == nil || at.After(*p)\<close>: the later of two instants.\<close>

definition later_of :: "time option \<Rightarrow> time \<Rightarrow> time option" where
  "later_of prev t =
     (case prev of None \<Rightarrow> Some (time_UTC t) | Some l \<Rightarrow> if time_After t l then Some (time_UTC t) else Some l)"

definition stored_profile :: "trust_mem \<Rightarrow> ID \<Rightarrow> time \<Rightarrow> user_profile" where
  "stored_profile m userID now = (case map_of (tm_profiles m) userID of None \<Rightarrow> ZeroProfile userID now | Some p \<Rightarrow> p)"

definition put_profile :: "ID \<Rightarrow> user_profile \<Rightarrow> (trust_mem, unit) go" where
  "put_profile userID p = (\<lambda>m.
     gguard (profile_Validate p)
       (\<lambda>m. (m\<lparr>tm_profiles := AList.update userID p (tm_profiles m)\<rparr>, Inr ())) m)"

definition trust_bump :: "ID \<Rightarrow> string \<Rightarrow> time \<Rightarrow> level_policy \<Rightarrow> time \<Rightarrow> (trust_mem, unit) go" where
  "trust_bump userID role verifiedAt policy now = (\<lambda>m.
     let p = stored_profile m userID now;
         p = p\<lparr>up_VerifiedInteractionCount := up_VerifiedInteractionCount p + 1\<rparr>
     in if role \<noteq> RoleRequester \<and> role \<noteq> RoleProvider then (m, Inl (TrustErr Trust_errInvalidEvent))
     else let p = (if role = RoleRequester
             then p\<lparr>up_RequesterVerifiedInteractionCount := up_RequesterVerifiedInteractionCount p + 1\<rparr>
             else p\<lparr>up_ProviderVerifiedInteractionCount := up_ProviderVerifiedInteractionCount p + 1\<rparr>);
         p = p\<lparr>up_LastVerifiedInteractionAt := later_of (up_LastVerifiedInteractionAt p) verifiedAt,
               up_TrustLevel := policy_Level policy (up_VerifiedInteractionCount p),
               up_UpdatedAt := time_UTC now\<rparr>
     in put_profile userID p m)"

definition trust_bumpReviewer :: "ID \<Rightarrow> time \<Rightarrow> time \<Rightarrow> (trust_mem, unit) go" where
  "trust_bumpReviewer userID createdAt now = (\<lambda>m.
     let p = stored_profile m userID now;
         p = p\<lparr>up_VerifiedReviewCount := up_VerifiedReviewCount p + 1,
               up_LastVerifiedReviewAt := later_of (up_LastVerifiedReviewAt p) createdAt,
               up_UpdatedAt := time_UTC now\<rparr>
     in put_profile userID p m)"

definition trust_bumpProviderService :: "ID \<Rightarrow> int \<Rightarrow> time \<Rightarrow> time \<Rightarrow> (trust_mem, unit) go" where
  "trust_bumpProviderService userID rating createdAt now = (\<lambda>m.
     let p = stored_profile m userID now;
         p = p\<lparr>up_ProviderServiceReviewCount := up_ProviderServiceReviewCount p + 1,
               up_ProviderServiceRatingSum := up_ProviderServiceRatingSum p + rating,
               up_LastProviderServiceReviewAt := later_of (up_LastProviderServiceReviewAt p) createdAt,
               up_UpdatedAt := time_UTC now\<rparr>
     in put_profile userID p m)"

definition trust_insertHistory :: "history_entry \<Rightarrow> level_policy \<Rightarrow> time \<Rightarrow> (trust_mem, unit) go" where
  "trust_insertHistory row policy now = (\<lambda>m.
     gguard (history_Validate row)
       (let key = (he_InteractionID row, he_UserID row)
        in if map_of (tm_history m) key \<noteq> None then gret ()
        else (\<lambda>m.
          let m = m\<lparr>tm_history := AList.update key row (tm_history m)\<rparr>
          in if \<not> countsTowardTrustLevel (he_InteractionType row) then (m, Inr ())
          else trust_bump (he_UserID row) (he_Role row) (he_VerifiedAt row) policy now m)) m)"

definition history_of :: "completed_interaction \<Rightarrow> ID \<Rightarrow> string \<Rightarrow> history_entry" where
  "history_of e userID role =
     \<lparr>he_InteractionID = ci_InteractionID e, he_UserID = userID, he_Role = role, he_ListingID = ci_ListingID e,
      he_InteractionType = ci_InteractionType e, he_VerificationMethod = ci_VerificationMethod e,
      he_VerifiedAt = time_UTC (ci_VerifiedAt e)\<rparr>"

text \<open>Both operations begin with the same test of the processed events.\<close>

definition trust_once :: "ID \<Rightarrow> (trust_mem, unit) go \<Rightarrow> (trust_mem, unit) go" where
  "trust_once eventID k = (\<lambda>m.
     gguard (tm_fail m)
       (if map_of (tm_processed m) eventID \<noteq> None then gret ()
        else (\<lambda>m. k (m\<lparr>tm_processed := AList.update eventID () (tm_processed m)\<rparr>))) m)"

definition trust_mem_ApplyCompleted :: "ctx \<Rightarrow> completed_interaction \<Rightarrow> level_policy \<Rightarrow> time \<Rightarrow> (trust_mem, unit) go" where
  "trust_mem_ApplyCompleted c e policy now =
     gguard (ctx_Err c) (gguard (completed_Validate e) (gguard (level_policy_Validate policy)
       (trust_once (ci_EventID e)
         (gbind (trust_insertHistory (history_of e (ci_RequesterUserID e) RoleRequester) policy now) (\<lambda>_.
          gbind (trust_insertHistory (history_of e (ci_ProviderUserID e) RoleProvider) policy now) gret)))))"

definition trust_mem_ApplyVerifiedReview :: "ctx \<Rightarrow> verified_review \<Rightarrow> time \<Rightarrow> (trust_mem, unit) go" where
  "trust_mem_ApplyVerifiedReview c e now =
     gguard (ctx_Err c) (gguard (trust_review_Validate e)
       (trust_once (vr_EventID e)
         (gbind (trust_bumpReviewer (vr_ReviewerUserID e) (vr_CreatedAt e) now) (\<lambda>_.
          trust_bumpProviderService (vr_ProviderUserID e) (vr_ProviderService e) (vr_CreatedAt e) now))))"

definition cloneProfile :: "user_profile \<Rightarrow> user_profile" where
  "cloneProfile p = p\<lparr>up_LastVerifiedInteractionAt := map_option time_UTC (up_LastVerifiedInteractionAt p),
     up_LastVerifiedReviewAt := map_option time_UTC (up_LastVerifiedReviewAt p),
     up_LastProviderServiceReviewAt := map_option time_UTC (up_LastProviderServiceReviewAt p)\<rparr>"

definition trust_mem_GetProfile :: "ctx \<Rightarrow> ID \<Rightarrow> (trust_mem, user_profile) go" where
  "trust_mem_GetProfile c userID = (\<lambda>m.
     gguard (ctx_Err c)
       (if ID_IsZero userID then gfail (TrustErr Trust_errZeroID)
        else gguard (tm_fail m)
          (case map_of (tm_profiles m) userID of
             None \<Rightarrow> gfail (TrustErr Trust_errNotFound)
           | Some p \<Rightarrow> gret (cloneProfile p))) m)"

definition trust_mem_ListHistory :: "ctx \<Rightarrow> ID \<Rightarrow> (trust_mem, history_entry list) go" where
  "trust_mem_ListHistory c userID = (\<lambda>m.
     gguard (ctx_Err c) (gguard (tm_fail m)
       (gret (filter (\<lambda>row. he_UserID row = userID) (map snd (tm_history m))))) m)"

section \<open>The projector\<close>

record 'w trust_store =
  us_ApplyCompleted :: "ctx \<Rightarrow> completed_interaction \<Rightarrow> level_policy \<Rightarrow> time \<Rightarrow> ('w, unit) go"
  us_ApplyVerifiedReview :: "ctx \<Rightarrow> verified_review \<Rightarrow> time \<Rightarrow> ('w, unit) go"
  us_GetProfile :: "ctx \<Rightarrow> ID \<Rightarrow> ('w, user_profile) go"
  us_ListHistory :: "ctx \<Rightarrow> ID \<Rightarrow> ('w, history_entry list) go"

definition trust_mem_store :: "('w \<Rightarrow> trust_mem) \<Rightarrow> ((trust_mem \<Rightarrow> trust_mem) \<Rightarrow> 'w \<Rightarrow> 'w) \<Rightarrow> 'w trust_store" where
  "trust_mem_store get upd =
     \<lparr>us_ApplyCompleted = (\<lambda>c e p now. zoom get upd (trust_mem_ApplyCompleted c e p now)),
      us_ApplyVerifiedReview = (\<lambda>c e now. zoom get upd (trust_mem_ApplyVerifiedReview c e now)),
      us_GetProfile = (\<lambda>c i. zoom get upd (trust_mem_GetProfile c i)),
      us_ListHistory = (\<lambda>c i. zoom get upd (trust_mem_ListHistory c i))\<rparr>"

record 'w trust_projector =
  tp_store :: "'w trust_store option"
  tp_policy :: level_policy
  tp_now :: "'w \<Rightarrow> 'w \<times> time"

definition trust_NewProjector ::
  "'w trust_store option \<Rightarrow> level_policy \<Rightarrow> ('w \<Rightarrow> 'w \<times> time) \<Rightarrow> 'w trust_projector res" where
  "trust_NewProjector st policy now =
     (case st of None \<Rightarrow> Inl (TrustErr Trust_errStoreRequired) | Some _ \<Rightarrow>
      case level_policy_Validate policy of Some e \<Rightarrow> Inl e | None \<Rightarrow>
      Inr \<lparr>tp_store = st, tp_policy = policy, tp_now = now\<rparr>)"

definition trust_mapStoreErr :: "go_error \<Rightarrow> go_error" where
  [err_defs]: "trust_mapStoreErr err =
     (if ctx_error err then err
      else if err \<in> TrustErr ` {Trust_errNotFound, Trust_errZeroID, Trust_errInvalidEvent, Trust_errInvalidPolicy,
          Trust_errInvalidProfile, Trust_errStoreRequired} then err
      else TrustErr Trust_errUnavailable)"

definition trust_Apply :: "'w trust_projector \<Rightarrow> ctx \<Rightarrow> completed_interaction \<Rightarrow> ('w, unit) go" where
  "trust_Apply p c e =
     gneed (tp_store p) (TrustErr Trust_errStoreRequired) (\<lambda>st.
     gguard (completed_Validate e)
       (if \<not> knownInteractionType (ci_InteractionType e) then gfail (TrustErr Trust_errInvalidEvent)
        else gread (tp_now p) (\<lambda>now. gmaperr trust_mapStoreErr (us_ApplyCompleted st c e (tp_policy p) now))))"

definition trust_ApplyVerifiedReview :: "'w trust_projector \<Rightarrow> ctx \<Rightarrow> verified_review \<Rightarrow> ('w, unit) go" where
  "trust_ApplyVerifiedReview p c e =
     gneed (tp_store p) (TrustErr Trust_errStoreRequired) (\<lambda>st.
     gguard (trust_review_Validate e)
       (gread (tp_now p) (\<lambda>now. gmaperr trust_mapStoreErr (us_ApplyVerifiedReview st c e now))))"

definition trust_Profile :: "'w trust_projector \<Rightarrow> ctx \<Rightarrow> ID \<Rightarrow> ('w, user_profile) go" where
  "trust_Profile p c userID =
     gneed (tp_store p) (TrustErr Trust_errStoreRequired) (\<lambda>st.
     if ID_IsZero userID then gfail (TrustErr Trust_errZeroID)
     else gcase (us_GetProfile st c userID)
       (\<lambda>err. if err = TrustErr Trust_errNotFound then gread (tp_now p) (\<lambda>now. gret (ZeroProfile userID now))
              else gfail (trust_mapStoreErr err)) gret)"

definition trust_History :: "'w trust_projector \<Rightarrow> ctx \<Rightarrow> ID \<Rightarrow> ('w, history_entry list) go" where
  "trust_History p c userID =
     gneed (tp_store p) (TrustErr Trust_errStoreRequired) (\<lambda>st.
     if ID_IsZero userID then gfail (TrustErr Trust_errZeroID)
     else gmaperr trust_mapStoreErr (us_ListHistory st c userID))"

definition ver_EventVersion :: int where "ver_EventVersion = 1"

definition completedFromOutbox :: "outbox_event \<Rightarrow> completed_interaction res" where
  "completedFromOutbox e =
     (let bad = TrustErr Trust_errInvalidEvent; parse = ParseID bad bad
      in if oe_EventType e \<noteq> EventTypeInteractionCompleted \<or> oe_EventVersion e \<noteq> ver_EventVersion then Inl bad
      else if ID_IsZero (oe_ID e) then Inl bad
      else case DecodeInteractionCompleted (oe_Payload e) of Inl _ \<Rightarrow> Inl bad | Inr p \<Rightarrow>
      case parse (iv_InteractionID p) of Inl e \<Rightarrow> Inl e | Inr interactionID \<Rightarrow>
      case parse (iv_ListingID p) of Inl e \<Rightarrow> Inl e | Inr listingID \<Rightarrow>
      case parse (iv_RequesterUserID p) of Inl e \<Rightarrow> Inl e | Inr requester \<Rightarrow>
      case parse (iv_ProviderUserID p) of Inl e \<Rightarrow> Inl e | Inr provider \<Rightarrow>
      case parse_instant bad (iv_VerifiedAt p) (oe_CreatedAt e) of Inl e \<Rightarrow> Inl e | Inr verifiedAt \<Rightarrow>
      Inr \<lparr>ci_EventID = oe_ID e, ci_InteractionID = interactionID, ci_ListingID = listingID,
           ci_RequesterUserID = requester, ci_ProviderUserID = provider, ci_InteractionType = iv_InteractionType p,
           ci_VerificationMethod = iv_VerificationMethod p, ci_VerifiedAt = verifiedAt\<rparr>)"

definition verifiedReviewFromOutbox :: "outbox_event \<Rightarrow> verified_review res" where
  "verifiedReviewFromOutbox = review_of_event (TrustErr Trust_errInvalidEvent)"

definition trust_Handle :: "'w trust_projector \<Rightarrow> ctx \<Rightarrow> outbox_event \<Rightarrow> ('w, unit) go" where
  "trust_Handle p c e =
     (if oe_EventType e = EventTypeInteractionCompleted \<and> oe_EventVersion e = ver_EventVersion
        then gbind (gpure (completedFromOutbox e)) (trust_Apply p c)
      else if oe_EventType e = EventTypeVerifiedCreated \<and> oe_EventVersion e = rev_EventVersion
        then gbind (gpure (verifiedReviewFromOutbox e)) (trust_ApplyVerifiedReview p c)
      else gfail (TrustErr Trust_errInvalidEvent))"

definition KnownTrustEvent :: "string \<Rightarrow> int \<Rightarrow> bool" where
  "KnownTrustEvent eventType version \<longleftrightarrow>
     eventType = EventTypeInteractionCompleted \<and> version = ver_EventVersion \<or>
     eventType = EventTypeVerifiedCreated \<and> version = rev_EventVersion"

definition trust_svc_GetMe :: "'w trust_projector option \<Rightarrow> ctx \<Rightarrow> ID \<Rightarrow> ('w, user_profile) go" where
  "trust_svc_GetMe s c userID = gneed s (TrustErr Trust_errStoreRequired) (\<lambda>p. trust_Profile p c userID)"

definition trust_svc_GetPublic :: "'w trust_projector option \<Rightarrow> ctx \<Rightarrow> ID \<Rightarrow> ('w, public_passport) go" where
  "trust_svc_GetPublic s c userID = gbind (trust_svc_GetMe s c userID) (\<lambda>profile. gret (ToPublicPassport profile))"

definition trust_svc_History :: "'w trust_projector option \<Rightarrow> ctx \<Rightarrow> ID \<Rightarrow> ('w, history_entry list) go" where
  "trust_svc_History s c userID = gneed s (TrustErr Trust_errStoreRequired) (\<lambda>p. trust_History p c userID)"

section \<open>What the profiles say\<close>

text \<open>The history of a user, the part of it that counts, and the numbers of a profile.\<close>

definition trust_history :: "ID \<Rightarrow> trust_mem \<Rightarrow> history_entry list" where
  "trust_history u m = filter (\<lambda>row. he_UserID row = u) (map snd (tm_history m))"

definition counted :: "history_entry list \<Rightarrow> history_entry list" where
  "counted hs = filter (\<lambda>row. countsTowardTrustLevel (he_InteractionType row)) hs"

definition profile_nums ::
  "level_policy \<Rightarrow> history_entry list \<Rightarrow> verified_review list \<Rightarrow> verified_review list \<Rightarrow> user_profile \<Rightarrow> bool" where
  "profile_nums pol hs wrote about p \<longleftrightarrow>
     up_VerifiedInteractionCount p = int (length (counted hs)) \<and>
     up_ProviderVerifiedInteractionCount p = int (length (filter (\<lambda>r. he_Role r = RoleProvider) (counted hs))) \<and>
     up_RequesterVerifiedInteractionCount p = int (length (filter (\<lambda>r. he_Role r = RoleRequester) (counted hs))) \<and>
     up_VerifiedReviewCount p = int (length wrote) \<and>
     up_ProviderServiceReviewCount p = int (length about) \<and>
     up_ProviderServiceRatingSum p = sum_list (map vr_ProviderService about) \<and>
     up_TrustLevel p = policy_Level pol (up_VerifiedInteractionCount p)"

definition profile_ok ::
  "level_policy \<Rightarrow> ID \<Rightarrow> history_entry list \<Rightarrow> verified_review list \<Rightarrow> verified_review list \<Rightarrow> user_profile option \<Rightarrow> bool" where
  "profile_ok pol u hs wrote about po \<longleftrightarrow>
     (case po of
        None \<Rightarrow> counted hs = [] \<and> wrote = [] \<and> about = []
      | Some p \<Rightarrow> up_UserID p = u \<and> profile_nums pol hs wrote about p)"

text \<open>\<open>W\<close> and \<open>A\<close> are the reviews counted so far for their authors and for their providers.\<close>

definition trust_inv :: "level_policy \<Rightarrow> verified_review list \<Rightarrow> verified_review list \<Rightarrow> trust_mem \<Rightarrow> bool" where
  "trust_inv pol W A m \<longleftrightarrow>
     wf_map (tm_history m) \<and>
     (\<forall>(k, row) \<in> set (tm_history m). k = (he_InteractionID row, he_UserID row) \<and> he_Role row \<in> {RoleRequester, RoleProvider}) \<and>
     list_all (\<lambda>e. 1 \<le> vr_ProviderService e \<and> vr_ProviderService e \<le> 5) A \<and>
     (\<forall>u. profile_ok pol u (trust_history u m) (filter (\<lambda>e. vr_ReviewerUserID e = u) W)
        (filter (\<lambda>e. vr_ProviderUserID e = u) A) (map_of (tm_profiles m) u))"

lemma roles_differ [simp]: "RoleRequester \<noteq> RoleProvider" "RoleProvider \<noteq> RoleRequester"
  by (simp_all add: RoleRequester_def RoleProvider_def)

lemma policy_zero: "level_policy_Validate pol = None \<Longrightarrow> policy_Level pol 0 = LevelNew"
  by (auto simp: level_policy_Validate_def policy_Level_def split: if_splits)

lemma validLevel_policy [simp]: "validLevel (policy_Level pol n)"
  by (simp add: validLevel_def policy_Level_def)

lemma stored_nums:
  assumes "profile_ok pol u hs wrote about (map_of (tm_profiles m) u)" and "level_policy_Validate pol = None"
  shows "profile_nums pol hs wrote about (stored_profile m u now)" and "up_UserID (stored_profile m u now) = u"
  using assms policy_zero [OF assms(2)]
  by (auto simp: profile_ok_def stored_profile_def profile_nums_def ZeroProfile_def split: option.splits)

lemma split_roles:
  "list_all (\<lambda>r. he_Role r \<in> {RoleRequester, RoleProvider}) hs \<Longrightarrow>
   length (filter (\<lambda>r. he_Role r = RoleProvider) hs) + length (filter (\<lambda>r. he_Role r = RoleRequester) hs) = length hs"
  by (induction hs) auto

lemma sum_list_service:
  "list_all (\<lambda>e. 1 \<le> vr_ProviderService e \<and> vr_ProviderService e \<le> 5) es \<Longrightarrow>
   int (length es) \<le> sum_list (map vr_ProviderService es) \<and> sum_list (map vr_ProviderService es) \<le> 5 * int (length es)"
  by (induction es) auto

lemma nums_valid:
  assumes "profile_nums pol hs wrote about p" and "\<not> ID_IsZero (up_UserID p)" and "up_UpdatedAt p \<noteq> 0"
    and "list_all (\<lambda>r. he_Role r \<in> {RoleRequester, RoleProvider}) hs"
    and "list_all (\<lambda>e. 1 \<le> vr_ProviderService e \<and> vr_ProviderService e \<le> 5) about"
  shows "profile_Validate p = None"
proof -
  have "list_all (\<lambda>r. he_Role r \<in> {RoleRequester, RoleProvider}) (counted hs)"
    using assms(4) by (auto simp: counted_def list_all_iff)
  from split_roles [OF this]
  have "int (length (counted hs)) = int (length (filter (\<lambda>r. he_Role r = RoleProvider) (counted hs))) +
      int (length (filter (\<lambda>r. he_Role r = RoleRequester) (counted hs)))" by linarith
  then show ?thesis
    using assms(1,2,3) sum_list_service [OF assms(5)]
    by (simp add: profile_Validate_def profile_nums_def trust_MinRating_def trust_MaxRating_def)
qed

text \<open>Each of the three updates of a profile adds to one of the lists it counts.\<close>

lemma bumped_nums:
  assumes "profile_nums pol hs wrote about p"
  shows "he_Role row = RoleRequester \<Longrightarrow> countsTowardTrustLevel (he_InteractionType row) \<Longrightarrow>
      profile_nums pol (hs @ [row]) wrote about
        (p\<lparr>up_VerifiedInteractionCount := up_VerifiedInteractionCount p + 1,
           up_RequesterVerifiedInteractionCount := up_RequesterVerifiedInteractionCount p + 1,
           up_LastVerifiedInteractionAt := x, up_TrustLevel := policy_Level pol (up_VerifiedInteractionCount p + 1),
           up_UpdatedAt := y\<rparr>)"
    and "he_Role row = RoleProvider \<Longrightarrow> countsTowardTrustLevel (he_InteractionType row) \<Longrightarrow>
      profile_nums pol (hs @ [row]) wrote about
        (p\<lparr>up_VerifiedInteractionCount := up_VerifiedInteractionCount p + 1,
           up_ProviderVerifiedInteractionCount := up_ProviderVerifiedInteractionCount p + 1,
           up_LastVerifiedInteractionAt := x, up_TrustLevel := policy_Level pol (up_VerifiedInteractionCount p + 1),
           up_UpdatedAt := y\<rparr>)"
    and "profile_nums pol hs (wrote @ [e]) about
        (p\<lparr>up_VerifiedReviewCount := up_VerifiedReviewCount p + 1, up_LastVerifiedReviewAt := x, up_UpdatedAt := y\<rparr>)"
    and "profile_nums pol hs wrote (about @ [e])
        (p\<lparr>up_ProviderServiceReviewCount := up_ProviderServiceReviewCount p + 1,
           up_ProviderServiceRatingSum := up_ProviderServiceRatingSum p + vr_ProviderService e,
           up_LastProviderServiceReviewAt := x, up_UpdatedAt := y\<rparr>)"
  using assms by (simp_all add: profile_nums_def counted_def)

lemma uncounted_nums:
  "\<not> countsTowardTrustLevel (he_InteractionType row) \<Longrightarrow> counted (hs @ [row]) = counted hs"
  by (simp add: counted_def)

lemma uncounted_ok:
  "\<not> countsTowardTrustLevel (he_InteractionType row) \<Longrightarrow>
   profile_ok pol u (hs @ [row]) wrote about po = profile_ok pol u hs wrote about po"
  by (simp add: profile_ok_def profile_nums_def uncounted_nums split: option.split)

lemma update_fresh: "k \<notin> fst ` set xs \<Longrightarrow> AList.update k v xs = xs @ [(k, v)]"
  by (induction xs) auto

text \<open>Storing the profile of one user, when its numbers are those of lists that grew for this user only.\<close>

lemma put_profile_inv:
  assumes nums: "profile_nums pol (trust_history v m) (filter (\<lambda>e. vr_ReviewerUserID e = v) W)
      (filter (\<lambda>e. vr_ProviderUserID e = v) A) p"
    and p: "up_UserID p = v" "\<not> ID_IsZero v" "up_UpdatedAt p \<noteq> 0"
    and rows: "wf_map (tm_history m)" "list_all (\<lambda>e. 1 \<le> vr_ProviderService e \<and> vr_ProviderService e \<le> 5) A"
      "\<forall>(k, row) \<in> set (tm_history m). k = (he_InteractionID row, he_UserID row) \<and> he_Role row \<in> {RoleRequester, RoleProvider}"
    and others: "\<And>u. u \<noteq> v \<Longrightarrow> profile_ok pol u (trust_history u m) (filter (\<lambda>e. vr_ReviewerUserID e = u) W)
      (filter (\<lambda>e. vr_ProviderUserID e = u) A) (map_of (tm_profiles m) u)"
  shows "put_profile v p m = (m\<lparr>tm_profiles := AList.update v p (tm_profiles m)\<rparr>, Inr ()) \<and>
    trust_inv pol W A (m\<lparr>tm_profiles := AList.update v p (tm_profiles m)\<rparr>)"
proof -
  have "list_all (\<lambda>r. he_Role r \<in> {RoleRequester, RoleProvider}) (trust_history v m)"
    using rows(3) by (auto simp: trust_history_def list_all_iff)
  moreover have "list_all (\<lambda>e. 1 \<le> vr_ProviderService e \<and> vr_ProviderService e \<le> 5) (filter (\<lambda>e. vr_ProviderUserID e = v) A)"
    using rows(2) by (auto simp: list_all_iff)
  ultimately have "profile_Validate p = None" using nums_valid [OF nums] p by blast
  moreover have "trust_history u (m\<lparr>tm_profiles := x\<rparr>) = trust_history u m" for u x by (simp add: trust_history_def)
  ultimately show ?thesis
    using nums p(1) rows others by (simp add: put_profile_def trust_inv_def profile_ok_def)
qed

definition trust_frame :: "trust_mem \<Rightarrow> trust_mem \<Rightarrow> bool" where
  "trust_frame m m' \<longleftrightarrow> tm_processed m' = tm_processed m \<and> tm_fail m' = tm_fail m"

lemma trust_insertHistory_inv:
  assumes inv: "trust_inv pol W A m" and row: "history_Validate row = None"
    and pol: "level_policy_Validate pol = None" and now: "now \<noteq> 0"
  shows "\<exists>m'. trust_insertHistory row pol now m = (m', Inr ()) \<and> trust_inv pol W A m' \<and> trust_frame m m' \<and>
    fst ` set (tm_history m') = insert (he_InteractionID row, he_UserID row) (fst ` set (tm_history m))"
proof (cases "map_of (tm_history m) (he_InteractionID row, he_UserID row)")
  case (Some r)
  then show ?thesis
    using inv row by (auto simp: trust_insertHistory_def trust_frame_def dest: map_of_SomeD intro: rev_image_eqI)
next
  case None
  let ?k = "(he_InteractionID row, he_UserID row)" and ?v = "he_UserID row"
  let ?m = "m\<lparr>tm_history := tm_history m @ [(?k, row)]\<rparr>"
  have new: "?k \<notin> fst ` set (tm_history m)" using None by (simp add: map_of_eq_None_iff)
  have v: "he_Role row \<in> {RoleRequester, RoleProvider}" "\<not> ID_IsZero ?v"
    using row by (auto simp: history_Validate_def split: if_splits)
  have run: "trust_insertHistory row pol now m =
      (if \<not> countsTowardTrustLevel (he_InteractionType row) then (?m, Inr ())
       else trust_bump ?v (he_Role row) (he_VerifiedAt row) pol now ?m)"
    using row None update_fresh [OF new] by (simp add: trust_insertHistory_def Let_def)
  have h: "trust_history u ?m = (if u = ?v then trust_history u m @ [row] else trust_history u m)" for u
    by (simp add: trust_history_def)
  have rows: "wf_map (tm_history ?m)" "list_all (\<lambda>e. 1 \<le> vr_ProviderService e \<and> vr_ProviderService e \<le> 5) A"
    "\<forall>(k, row) \<in> set (tm_history ?m). k = (he_InteractionID row, he_UserID row) \<and> he_Role row \<in> {RoleRequester, RoleProvider}"
    using inv new v(1) by (auto simp: trust_inv_def wf_map_def)
  have ok: "profile_ok pol u (trust_history u m) (filter (\<lambda>e. vr_ReviewerUserID e = u) W)
      (filter (\<lambda>e. vr_ProviderUserID e = u) A) (map_of (tm_profiles m) u)" for u
    using inv by (simp add: trust_inv_def)
  show ?thesis
  proof (cases "countsTowardTrustLevel (he_InteractionType row)")
    case False
    have "profile_ok pol u (trust_history u ?m) (filter (\<lambda>e. vr_ReviewerUserID e = u) W)
      (filter (\<lambda>e. vr_ProviderUserID e = u) A) (map_of (tm_profiles ?m) u)" for u
      using ok [of u] uncounted_ok [OF False] unfolding h by (cases "u = ?v") simp_all
    then have "trust_inv pol W A ?m" using rows by (simp add: trust_inv_def)
    then show ?thesis using run False by (simp add: trust_frame_def)
  next
    case True
    have st: "stored_profile ?m ?v now = stored_profile m ?v now" by (simp add: stored_profile_def)
    note nums = stored_nums [OF ok pol, of ?v now]
    obtain p where p: "trust_bump ?v (he_Role row) (he_VerifiedAt row) pol now ?m = put_profile ?v p ?m"
      "profile_nums pol (trust_history ?v m @ [row]) (filter (\<lambda>e. vr_ReviewerUserID e = ?v) W)
         (filter (\<lambda>e. vr_ProviderUserID e = ?v) A) p" "up_UserID p = ?v" "up_UpdatedAt p \<noteq> 0"
    proof (cases "he_Role row = RoleRequester")
      case r: True
      show ?thesis
        by (rule that [OF _ bumped_nums(1) [OF nums(1) r True]])
          (use r nums(2) now in \<open>simp_all add: trust_bump_def Let_def st\<close>)
    next
      case False
      then have r: "he_Role row = RoleProvider" using v(1) by simp
      show ?thesis
        by (rule that [OF _ bumped_nums(2) [OF nums(1) r True]])
          (use r nums(2) now in \<open>simp_all add: trust_bump_def Let_def st\<close>)
    qed
    have "put_profile ?v p ?m = (?m\<lparr>tm_profiles := AList.update ?v p (tm_profiles ?m)\<rparr>, Inr ()) \<and>
        trust_inv pol W A (?m\<lparr>tm_profiles := AList.update ?v p (tm_profiles ?m)\<rparr>)"
      by (rule put_profile_inv [OF _ p(3) v(2) p(4) rows]) (use p(2) ok in \<open>simp_all add: h\<close>)
    then show ?thesis using run True p(1) by (simp add: trust_frame_def)
  qed
qed

section \<open>Deliveries\<close>

text \<open>A delivery: the event of an interaction or of a review, and the time of its application.\<close>

type_synonym trust_delivery = "(completed_interaction + verified_review) \<times> time"

definition event_key :: "completed_interaction + verified_review \<Rightarrow> ID" where
  "event_key x = (case x of Inl e \<Rightarrow> ci_EventID e | Inr e \<Rightarrow> vr_EventID e)"

definition trust_valid :: "level_policy \<Rightarrow> trust_delivery \<Rightarrow> bool" where
  "trust_valid pol d \<longleftrightarrow> level_policy_Validate pol = None \<and> snd d \<noteq> 0 \<and>
     (case fst d of Inl e \<Rightarrow> completed_Validate e = None | Inr e \<Rightarrow> trust_review_Validate e = None)"

definition trust_step :: "level_policy \<Rightarrow> trust_delivery \<Rightarrow> trust_mem \<Rightarrow> trust_mem" where
  "trust_step pol d m =
     (case fst d of
        Inl e \<Rightarrow> fst (trust_mem_ApplyCompleted background e pol (snd d) m)
      | Inr e \<Rightarrow> fst (trust_mem_ApplyVerifiedReview background e (snd d) m))"

definition trust_processed :: "trust_mem \<Rightarrow> ID set" where
  "trust_processed m = dom (map_of (tm_processed m))"

text \<open>What the handler does with an event is such a step.\<close>

lemma trust_Handle_step:
  assumes "trust_valid pol (x, t)"
    and "case x of Inl i \<Rightarrow> completedFromOutbox e = Inr i | Inr r \<Rightarrow> verifiedReviewFromOutbox e = Inr r"
  shows "fst (trust_Handle \<lparr>tp_store = Some (trust_mem_store (\<lambda>m. m) (\<lambda>f. f)), tp_policy = pol, tp_now = (\<lambda>m. (m, t))\<rparr>
      background e m) = trust_step pol (x, t) m"
proof (cases x)
  case (Inl i)
  then have c: "completedFromOutbox e = Inr i" and v: "completed_Validate i = None" using assms by (simp_all add: trust_valid_def)
  have t: "oe_EventType e = EventTypeInteractionCompleted" "oe_EventVersion e = ver_EventVersion"
    using c by (auto simp: completedFromOutbox_def Let_def split: if_splits)
  have k: "knownInteractionType (ci_InteractionType i)" using v by (auto simp: completed_Validate_def split: if_splits)
  show ?thesis
    by (simp add: trust_Handle_def t c trust_Apply_def v k trust_mem_store_def zoom_def gread_apply gmaperr_apply
      trust_step_def Inl split: prod.split sum.split)
next
  case (Inr r)
  then have c: "verifiedReviewFromOutbox e = Inr r" and v: "trust_review_Validate r = None"
    using assms by (simp_all add: trust_valid_def)
  have t: "oe_EventType e = EventTypeVerifiedCreated" "oe_EventVersion e = rev_EventVersion"
    using c by (auto simp: verifiedReviewFromOutbox_def review_of_event_def Let_def split: if_splits)
  have ne: "EventTypeVerifiedCreated \<noteq> EventTypeInteractionCompleted"
    by (simp add: EventTypeVerifiedCreated_def EventTypeInteractionCompleted_def)
  show ?thesis
    by (simp add: trust_Handle_def t ne c trust_ApplyVerifiedReview_def v trust_mem_store_def zoom_def gread_apply
      gmaperr_apply trust_step_def Inr split: prod.split sum.split)
qed

text \<open>No part of an application touches the processed events but the test that opens it.\<close>

lemma put_profile_frame: "trust_frame m (fst (put_profile v p m))"
  by (cases "profile_Validate p") (simp_all add: put_profile_def trust_frame_def)

lemma bumps_frame:
  "trust_frame m (fst (trust_bump v r a pol t m))" "trust_frame m (fst (trust_bumpReviewer v a t m))"
  "trust_frame m (fst (trust_bumpProviderService v x a t m))"
  using put_profile_frame
  by (simp_all add: trust_bump_def trust_bumpReviewer_def trust_bumpProviderService_def Let_def trust_frame_def)

lemma trust_frame_trans: "trust_frame a b \<Longrightarrow> trust_frame b c \<Longrightarrow> trust_frame a c"
  by (simp add: trust_frame_def)

lemma insertHistory_frame: "trust_frame m (fst (trust_insertHistory row pol t m))"
proof (cases "history_Validate row")
  case None
  have "trust_frame m (m\<lparr>tm_history := x\<rparr>)" for x by (simp add: trust_frame_def)
  then show ?thesis
    using None bumps_frame(1) trust_frame_trans
    by (auto simp: trust_insertHistory_def Let_def trust_frame_def)
qed (simp add: trust_insertHistory_def trust_frame_def)

lemma frame_gbind:
  assumes "\<And>m. trust_frame m (fst (f m))" and "\<And>x m. trust_frame m (fst (g x m))"
  shows "trust_frame m (fst (gbind f g m))"
proof -
  obtain m1 r where f: "f m = (m1, r)" by fastforce
  have "trust_frame m m1" using assms(1) [of m] f by simp
  then show ?thesis using f assms(2) trust_frame_trans by (cases r) (auto simp: gbind_apply)
qed

lemma trust_once_apply:
  assumes "tm_fail m = None"
  shows "trust_once i k m = (if i \<in> trust_processed m then (m, Inr ())
    else k (m\<lparr>tm_processed := AList.update i () (tm_processed m)\<rparr>))"
  using assms by (auto simp: trust_once_def trust_processed_def)

lemma trust_once_frame:
  assumes "tm_fail m = None" and "\<And>m. trust_frame m (fst (k m))"
  shows "trust_processed (fst (trust_once i k m)) = insert i (trust_processed m)" and "tm_fail (fst (trust_once i k m)) = None"
  using assms(2) [of "m\<lparr>tm_processed := AList.update i () (tm_processed m)\<rparr>"] assms(1)
  by (auto simp: trust_once_apply trust_frame_def trust_processed_def)

lemma trust_step_once:
  assumes "trust_valid pol (x, t)"
  shows "\<exists>k. (\<forall>m. trust_step pol (x, t) m = fst (trust_once (event_key x) k m)) \<and> (\<forall>m. trust_frame m (fst (k m)))"
proof (cases x)
  case (Inl e)
  let ?k = "gbind (trust_insertHistory (history_of e (ci_RequesterUserID e) RoleRequester) pol t) (\<lambda>_.
       gbind (trust_insertHistory (history_of e (ci_ProviderUserID e) RoleProvider) pol t) gret)"
  have "trust_step pol (x, t) m = fst (trust_once (event_key x) ?k m)" for m
    using assms Inl by (simp add: trust_step_def trust_mem_ApplyCompleted_def background_def trust_valid_def event_key_def)
  moreover have "trust_frame m (fst (?k m))" for m
    by (intro frame_gbind insertHistory_frame) (simp add: trust_frame_def)
  ultimately show ?thesis by blast
next
  case (Inr e)
  let ?k = "gbind (trust_bumpReviewer (vr_ReviewerUserID e) (vr_CreatedAt e) t) (\<lambda>_.
       trust_bumpProviderService (vr_ProviderUserID e) (vr_ProviderService e) (vr_CreatedAt e) t)"
  have "trust_step pol (x, t) m = fst (trust_once (event_key x) ?k m)" for m
    using assms Inr by (simp add: trust_step_def trust_mem_ApplyVerifiedReview_def background_def trust_valid_def event_key_def)
  moreover have "trust_frame m (fst (?k m))" for m by (intro frame_gbind bumps_frame)
  ultimately show ?thesis by blast
qed

interpretation trust: projection "event_key \<circ> fst" "trust_valid pol" trust_processed
  "\<lambda>m. tm_fail (m :: trust_mem) = None" "trust_step pol" for pol
proof
  fix d and m :: trust_mem assume d: "trust_valid pol d" and m: "tm_fail m = None"
  obtain k where k: "\<And>m. trust_step pol d m = fst (trust_once ((event_key \<circ> fst) d) k m)"
    "\<And>m. trust_frame m (fst (k m))"
    using trust_step_once [of pol "fst d" "snd d"] d by auto
  show "trust_step pol d m = m" if "(event_key \<circ> fst) d \<in> trust_processed m"
    using that unfolding k(1) trust_once_apply [OF m] by simp
  show "trust_processed (trust_step pol d m) = insert ((event_key \<circ> fst) d) (trust_processed m)"
    "tm_fail (trust_step pol d m) = None"
    unfolding k(1) using trust_once_frame [OF m k(2)] by simp_all
qed

section \<open>Profiles are exact\<close>

text \<open>The events of the fresh deliveries, apart.\<close>

fun lefts :: "('a + 'b) list \<Rightarrow> 'a list" where
  "lefts [] = []"
| "lefts (Inl x # xs) = x # lefts xs"
| "lefts (Inr y # xs) = lefts xs"

fun rights :: "('a + 'b) list \<Rightarrow> 'b list" where
  "rights [] = []"
| "rights (Inl x # xs) = rights xs"
| "rights (Inr y # xs) = y # rights xs"

lemma set_lefts [simp]: "set (lefts xs) = {x. Inl x \<in> set xs}"
  by (induction xs rule: lefts.induct) auto

lemma set_rights [simp]: "set (rights xs) = {y. Inr y \<in> set xs}"
  by (induction xs rule: rights.induct) auto

lemma distinct_rights: "distinct xs \<Longrightarrow> distinct (rights xs)"
  by (induction xs rule: rights.induct) auto

lemma lefts_append [simp]: "lefts (xs @ ys) = lefts xs @ lefts ys"
  by (induction xs rule: lefts.induct) auto

lemma rights_append [simp]: "rights (xs @ ys) = rights xs @ rights ys"
  by (induction xs rule: rights.induct) auto

definition party_keys :: "completed_interaction list \<Rightarrow> (ID \<times> ID) set" where
  "party_keys es = (\<Union>e\<in>set es. {(ci_InteractionID e, ci_RequesterUserID e), (ci_InteractionID e, ci_ProviderUserID e)})"

lemma party_keys_append: "party_keys (xs @ [e]) = party_keys xs \<union> party_keys [e]"
  by (auto simp: party_keys_def)

definition trust_exact :: "level_policy \<Rightarrow> trust_delivery list \<Rightarrow> trust_mem \<Rightarrow> bool" where
  "trust_exact pol ds m \<longleftrightarrow>
     trust_inv pol (rights (map fst ds)) (rights (map fst ds)) m \<and>
     fst ` set (tm_history m) = party_keys (lefts (map fst ds))"

lemma trust_inv_processed: "trust_inv pol W A (m\<lparr>tm_processed := x\<rparr>) \<longleftrightarrow> trust_inv pol W A m"
  by (simp add: trust_inv_def trust_history_def)

lemma history_of_valid:
  assumes "completed_Validate e = None"
  shows "history_Validate (history_of e (ci_RequesterUserID e) RoleRequester) = None"
    and "history_Validate (history_of e (ci_ProviderUserID e) RoleProvider) = None"
  using assms by (auto simp: completed_Validate_def history_Validate_def history_of_def split: if_splits)

lemma trust_completed_exact:
  assumes "trust_inv pol W A m" and "completed_Validate e = None" and "level_policy_Validate pol = None" and "t \<noteq> 0"
  shows "\<exists>m'. (gbind (trust_insertHistory (history_of e (ci_RequesterUserID e) RoleRequester) pol t) (\<lambda>_.
       gbind (trust_insertHistory (history_of e (ci_ProviderUserID e) RoleProvider) pol t) gret)) m = (m', Inr ()) \<and>
    trust_inv pol W A m' \<and> fst ` set (tm_history m') = fst ` set (tm_history m) \<union> party_keys [e]"
proof -
  note v = history_of_valid [OF assms(2)]
  obtain m1 where m1: "trust_insertHistory (history_of e (ci_RequesterUserID e) RoleRequester) pol t m = (m1, Inr ())"
    "trust_inv pol W A m1"
    "fst ` set (tm_history m1) = insert (ci_InteractionID e, ci_RequesterUserID e) (fst ` set (tm_history m))"
    using trust_insertHistory_inv [OF assms(1) v(1) assms(3,4)] by (auto simp: history_of_def)
  obtain m2 where m2: "trust_insertHistory (history_of e (ci_ProviderUserID e) RoleProvider) pol t m1 = (m2, Inr ())"
    "trust_inv pol W A m2"
    "fst ` set (tm_history m2) = insert (ci_InteractionID e, ci_ProviderUserID e) (fst ` set (tm_history m1))"
    using trust_insertHistory_inv [OF m1(2) v(2) assms(3,4)] by (auto simp: history_of_def)
  show ?thesis using m1 m2 by (auto simp: gbind_apply party_keys_def)
qed

lemma trust_inv_rows:
  assumes "trust_inv pol W A m"
  shows "wf_map (tm_history m)" "list_all (\<lambda>e. 1 \<le> vr_ProviderService e \<and> vr_ProviderService e \<le> 5) A"
    "\<forall>(k, row) \<in> set (tm_history m). k = (he_InteractionID row, he_UserID row) \<and> he_Role row \<in> {RoleRequester, RoleProvider}"
    "profile_ok pol u (trust_history u m) (filter (\<lambda>e. vr_ReviewerUserID e = u) W)
      (filter (\<lambda>e. vr_ProviderUserID e = u) A) (map_of (tm_profiles m) u)"
  using assms by (simp_all add: trust_inv_def)

lemma trust_reviewed_exact:
  assumes inv: "trust_inv pol W A m" and e: "trust_review_Validate e = None" and pol: "level_policy_Validate pol = None"
    and t: "t \<noteq> 0"
  shows "\<exists>m'. (gbind (trust_bumpReviewer (vr_ReviewerUserID e) (vr_CreatedAt e) t) (\<lambda>_.
       trust_bumpProviderService (vr_ProviderUserID e) (vr_ProviderService e) (vr_CreatedAt e) t)) m = (m', Inr ()) \<and>
    trust_inv pol (W @ [e]) (A @ [e]) m' \<and> tm_history m' = tm_history m"
proof -
  let ?r = "vr_ReviewerUserID e" and ?v = "vr_ProviderUserID e"
  have z: "\<not> ID_IsZero ?r" "\<not> ID_IsZero ?v" "1 \<le> vr_ProviderService e" "vr_ProviderService e \<le> 5"
    using e by (auto simp: trust_review_Validate_def trust_MinRating_def trust_MaxRating_def split: if_splits)
  note old = stored_nums [OF trust_inv_rows(4) [OF inv] pol, of ?r t]
  define p where "p = (let q = stored_profile m ?r t in q\<lparr>up_VerifiedReviewCount := up_VerifiedReviewCount q + 1,
     up_LastVerifiedReviewAt := later_of (up_LastVerifiedReviewAt q) (vr_CreatedAt e), up_UpdatedAt := time_UTC t\<rparr>)"
  have p: "up_UserID p = ?r" "up_UpdatedAt p \<noteq> 0" using old(2) t by (simp_all add: p_def Let_def)
  let ?m1 = "m\<lparr>tm_profiles := AList.update ?r p (tm_profiles m)\<rparr>"
  have "put_profile ?r p m = (?m1, Inr ()) \<and> trust_inv pol (W @ [e]) A ?m1"
  proof (rule put_profile_inv [OF _ p(1) z(1) p(2) trust_inv_rows(1,2,3) [OF inv]])
    show "profile_nums pol (trust_history ?r m) (filter (\<lambda>f. vr_ReviewerUserID f = ?r) (W @ [e]))
        (filter (\<lambda>f. vr_ProviderUserID f = ?r) A) p"
      using bumped_nums(3) [OF old(1)] by (simp add: p_def Let_def)
  qed (use trust_inv_rows(4) [OF inv] in simp)
  then have m1: "trust_bumpReviewer ?r (vr_CreatedAt e) t m = (?m1, Inr ())" and inv1: "trust_inv pol (W @ [e]) A ?m1"
    by (simp_all add: trust_bumpReviewer_def p_def Let_def)
  note old1 = stored_nums [OF trust_inv_rows(4) [OF inv1] pol, of ?v t]
  define q where "q = (let q = stored_profile ?m1 ?v t in q\<lparr>up_ProviderServiceReviewCount := up_ProviderServiceReviewCount q + 1,
     up_ProviderServiceRatingSum := up_ProviderServiceRatingSum q + vr_ProviderService e,
     up_LastProviderServiceReviewAt := later_of (up_LastProviderServiceReviewAt q) (vr_CreatedAt e), up_UpdatedAt := time_UTC t\<rparr>)"
  have q: "up_UserID q = ?v" "up_UpdatedAt q \<noteq> 0" using old1(2) t by (simp_all add: q_def Let_def)
  let ?m2 = "?m1\<lparr>tm_profiles := AList.update ?v q (tm_profiles ?m1)\<rparr>"
  have A: "list_all (\<lambda>e. 1 \<le> vr_ProviderService e \<and> vr_ProviderService e \<le> 5) (A @ [e])"
    using trust_inv_rows(2) [OF inv1] z by simp
  have "put_profile ?v q ?m1 = (?m2, Inr ()) \<and> trust_inv pol (W @ [e]) (A @ [e]) ?m2"
  proof (rule put_profile_inv [OF _ q(1) z(2) q(2) trust_inv_rows(1) [OF inv1] A trust_inv_rows(3) [OF inv1]])
    show "profile_nums pol (trust_history ?v ?m1) (filter (\<lambda>f. vr_ReviewerUserID f = ?v) (W @ [e]))
        (filter (\<lambda>f. vr_ProviderUserID f = ?v) (A @ [e])) q"
      using bumped_nums(4) [OF old1(1)] by (simp add: q_def Let_def)
    show "profile_ok pol u (trust_history u ?m1) (filter (\<lambda>f. vr_ReviewerUserID f = u) (W @ [e]))
        (filter (\<lambda>f. vr_ProviderUserID f = u) (A @ [e])) (map_of (tm_profiles ?m1) u)" if "u \<noteq> ?v" for u
      using trust_inv_rows(4) [OF inv1, of u] that by simp
  qed
  then have m2: "trust_bumpProviderService ?v (vr_ProviderService e) (vr_CreatedAt e) t ?m1 = (?m2, Inr ())"
    and inv2: "trust_inv pol (W @ [e]) (A @ [e]) ?m2"
    by (simp_all add: trust_bumpProviderService_def q_def Let_def)
  show ?thesis using m1 m2 inv2 by (simp add: gbind_apply)
qed

lemma trust_step_exact:
  assumes "trust_exact pol ds m" and "trust_valid pol d" and "tm_fail m = None" and "event_key (fst d) \<notin> trust_processed m"
  shows "trust_exact pol (ds @ [d]) (trust_step pol d m)"
proof -
  let ?m = "m\<lparr>tm_processed := AList.update (event_key (fst d)) () (tm_processed m)\<rparr>"
  have inv: "trust_inv pol (rights (map fst ds)) (rights (map fst ds)) ?m" and h: "fst ` set (tm_history ?m) = party_keys (lefts (map fst ds))"
    using assms(1) by (simp_all add: trust_exact_def trust_inv_processed)
  have pol: "level_policy_Validate pol = None" "snd d \<noteq> 0" using assms(2) by (simp_all add: trust_valid_def)
  show ?thesis
  proof (cases "fst d")
    case (Inl e)
    then have e: "completed_Validate e = None" using assms(2) by (simp add: trust_valid_def)
    from trust_completed_exact [OF inv e pol] h show ?thesis
      using Inl assms(3,4) by (elim exE conjE) (simp add: trust_step_def trust_mem_ApplyCompleted_def background_def e pol trust_once_apply
        event_key_def trust_exact_def party_keys_append)
  next
    case (Inr e)
    then have e: "trust_review_Validate e = None" using assms(2) by (simp add: trust_valid_def)
    from trust_reviewed_exact [OF inv e pol] h show ?thesis
      using Inr assms(3,4) by (elim exE conjE) (simp add: trust_step_def trust_mem_ApplyVerifiedReview_def background_def e trust_once_apply
        event_key_def trust_exact_def)
  qed
qed

lemma distinct_filtered_pairs:
  "distinct (map (\<lambda>r. (f r, g r)) rs) \<Longrightarrow> distinct (map f (filter (\<lambda>r. g r = u) rs))"
  by (induction rs) force+

lemma trust_history_keys:
  assumes "trust_inv pol W A m"
  shows "distinct (map he_InteractionID (trust_history u m))"
    and "he_InteractionID ` set (trust_history u m) = {i. (i, u) \<in> fst ` set (tm_history m)}"
proof -
  have k: "map fst (tm_history m) = map (\<lambda>r. (he_InteractionID r, he_UserID r)) (map snd (tm_history m))"
    using trust_inv_rows(3) [OF assms] by auto
  have "distinct (map fst (tm_history m))" using trust_inv_rows(1) [OF assms] by (simp add: wf_map_def)
  then have "distinct (map (\<lambda>r. (he_InteractionID r, he_UserID r)) (map snd (tm_history m)))" unfolding k .
  then show "distinct (map he_InteractionID (trust_history u m))"
    unfolding trust_history_def by (rule distinct_filtered_pairs)
  show "he_InteractionID ` set (trust_history u m) = {i. (i, u) \<in> fst ` set (tm_history m)}"
    using trust_inv_rows(3) [OF assms] by (force simp: trust_history_def)
qed

text \<open>C29. Trust profiles are exact. Whatever the relay delivered, in any order and however often: the history of a
  user has one entry for each verified interaction that was delivered and that the user took part in;
  the profile counts exactly the inspections among them, split by role, and its level is the level of
  that number and of nothing else; each delivered review counts once for its author and once, with its
  rating, for its provider; and a user without a profile has nothing that counts.\<close>

theorem trust_profiles_exact:
  assumes "\<And>d. d \<in> set ds \<Longrightarrow> trust_valid pol d" and "inj_on event_key (fst ` set ds)"
  shows "\<exists>hist. let m = fold (trust_step pol) ds trust_NewMemoryStore; R = {e. Inr e \<in> fst ` set ds} in
    trust_mem_ListHistory background u m = (m, Inr hist) \<and> distinct (map he_InteractionID hist) \<and>
    he_InteractionID ` set hist =
      {ci_InteractionID e |e. Inl e \<in> fst ` set ds \<and> u \<in> {ci_RequesterUserID e, ci_ProviderUserID e}} \<and>
    (case map_of (tm_profiles m) u of
       None \<Rightarrow> counted hist = [] \<and> (\<forall>e\<in>R. u \<notin> {vr_ReviewerUserID e, vr_ProviderUserID e})
     | Some p \<Rightarrow>
         up_VerifiedInteractionCount p = int (length (counted hist)) \<and>
         up_RequesterVerifiedInteractionCount p = int (length (filter (\<lambda>r. he_Role r = RoleRequester) (counted hist))) \<and>
         up_ProviderVerifiedInteractionCount p = int (length (filter (\<lambda>r. he_Role r = RoleProvider) (counted hist))) \<and>
         up_TrustLevel p = policy_Level pol (int (length (counted hist))) \<and>
         up_VerifiedReviewCount p = int (card {e \<in> R. vr_ReviewerUserID e = u}) \<and>
         up_ProviderServiceReviewCount p = int (card {e \<in> R. vr_ProviderUserID e = u}) \<and>
         up_ProviderServiceRatingSum p = (\<Sum>e\<in>{e \<in> R. vr_ProviderUserID e = u}. vr_ProviderService e))"
proof -
  let ?fs = "first_deliveries (event_key \<circ> fst) {} ds" and ?m = "fold (trust_step pol) ds trust_NewMemoryStore"
  let ?R = "{e. Inr e \<in> fst ` set ds}"
  have ex: "trust_exact pol ?fs ?m"
  proof (rule trust.fresh_induct [where pol = pol])
    show "trust_exact pol (fs @ [d]) (trust_step pol d m)"
      if "trust_exact pol fs m" "tm_fail m = None" "d \<in> set ds" "(event_key \<circ> fst) d \<notin> trust_processed m" for fs d m
      using trust_step_exact [of pol fs m d] assms(1) that by simp
  qed (use assms(1) in \<open>simp_all add: trust_NewMemoryStore_def trust_processed_def trust_exact_def trust_inv_def profile_ok_def
      trust_history_def counted_def party_keys_def\<close>)
  have up: "tm_fail ?m = None"
    using trust.processed_after [of trust_NewMemoryStore ds pol] assms(1) by (simp add: trust_NewMemoryStore_def)
  have d: "distinct (map fst ?fs)" and s: "fst ` set ?fs = fst ` set ds"
    using first_deliveries_content [OF assms(2), of "event_key \<circ> fst"] by simp_all
  have R: "set (rights (map fst ?fs)) = ?R" "distinct (rights (map fst ?fs))"
    using s distinct_rights [OF d] by simp_all
  have L: "set (lefts (map fst ?fs)) = {e. Inl e \<in> fst ` set ds}" using s by simp
  note card = filtered_card [OF R(2), unfolded R(1)]
  have inv: "trust_inv pol (rights (map fst ?fs)) (rights (map fst ?fs)) ?m"
    and keys: "fst ` set (tm_history ?m) = party_keys (lefts (map fst ?fs))"
    using ex by (simp_all add: trust_exact_def)
  let ?hist = "trust_history u ?m"
  have "trust_mem_ListHistory background u ?m = (?m, Inr ?hist)"
    using up by (simp add: trust_mem_ListHistory_def background_def trust_history_def)
  moreover have "distinct (map he_InteractionID ?hist)"
    using trust_history_keys(1) [OF inv] .
  moreover have "he_InteractionID ` set ?hist =
      {ci_InteractionID e |e. Inl e \<in> fst ` set ds \<and> u \<in> {ci_RequesterUserID e, ci_ProviderUserID e}}"
    unfolding trust_history_keys(2) [OF inv] keys party_keys_def L by auto
  moreover have "case map_of (tm_profiles ?m) u of
       None \<Rightarrow> counted ?hist = [] \<and> (\<forall>e\<in>?R. u \<notin> {vr_ReviewerUserID e, vr_ProviderUserID e})
     | Some p \<Rightarrow>
         up_VerifiedInteractionCount p = int (length (counted ?hist)) \<and>
         up_RequesterVerifiedInteractionCount p = int (length (filter (\<lambda>r. he_Role r = RoleRequester) (counted ?hist))) \<and>
         up_ProviderVerifiedInteractionCount p = int (length (filter (\<lambda>r. he_Role r = RoleProvider) (counted ?hist))) \<and>
         up_TrustLevel p = policy_Level pol (int (length (counted ?hist))) \<and>
         up_VerifiedReviewCount p = int (card {e \<in> ?R. vr_ReviewerUserID e = u}) \<and>
         up_ProviderServiceReviewCount p = int (card {e \<in> ?R. vr_ProviderUserID e = u}) \<and>
         up_ProviderServiceRatingSum p = (\<Sum>e\<in>{e \<in> ?R. vr_ProviderUserID e = u}. vr_ProviderService e)"
  proof (cases "map_of (tm_profiles ?m) u")
    case None
    then have n: "counted ?hist = []" "filter (\<lambda>e. vr_ReviewerUserID e = u) (rights (map fst ?fs)) = []"
      "filter (\<lambda>e. vr_ProviderUserID e = u) (rights (map fst ?fs)) = []"
      using trust_inv_rows(4) [OF inv, of u] by (simp_all add: profile_ok_def)
    from n(2,3) have "\<forall>e\<in>?R. u \<notin> {vr_ReviewerUserID e, vr_ProviderUserID e}"
      unfolding filter_empty_conv R(1) by blast
    then show ?thesis using None n(1) by simp
  next
    case (Some p)
    then have "profile_nums pol ?hist (filter (\<lambda>e. vr_ReviewerUserID e = u) (rights (map fst ?fs)))
        (filter (\<lambda>e. vr_ProviderUserID e = u) (rights (map fst ?fs))) p"
      using trust_inv_rows(4) [OF inv, of u] by (simp add: profile_ok_def)
    then show ?thesis unfolding profile_nums_def card using Some by simp
  qed
  ultimately show ?thesis unfolding Let_def by (intro exI [of _ ?hist] conjI)
qed

text \<open>An inspection delivered twice and a review.\<close>

definition sample_done :: completed_interaction where
  "sample_done =
     \<lparr>ci_EventID = id_n 30, ci_InteractionID = id_n 50, ci_ListingID = id_n 2, ci_RequesterUserID = id_n 3,
      ci_ProviderUserID = id_n 4, ci_InteractionType = InteractionListingInspection, ci_VerificationMethod = ''otp'',
      ci_VerifiedAt = 6\<rparr>"

definition sample_trust_review :: verified_review where
  "sample_trust_review =
     \<lparr>vr_EventID = id_n 31, vr_ReviewID = id_n 10, vr_VerifiedInteractionID = id_n 50, vr_ListingID = id_n 2,
      vr_ReviewerUserID = id_n 3, vr_ProviderUserID = id_n 4, vr_ListingAccuracy = 5, vr_ProviderService = 4,
      vr_CreatedAt = 7\<rparr>"

theorem trust_profiles_exact_witness:
  "\<exists>p. map_of (tm_profiles (fold (trust_step DefaultLevelPolicy)
       [(Inl sample_done, 8), (Inr sample_trust_review, 9), (Inl sample_done, 10)] trust_NewMemoryStore)) (id_n 4) = Some p \<and>
     up_ProviderServiceRatingSum p = 4 \<and> up_ProviderServiceReviewCount p = 1"
proof -
  let ?ds = "[(Inl sample_done, 8), (Inr sample_trust_review, 9), (Inl sample_done, 10)] :: trust_delivery list"
  have "strings_TrimSpace ''otp'' = ''otp''" by (simp add: TrimSpace_graphic graphic_def)
  then have "trust_valid DefaultLevelPolicy d" if "d \<in> set ?ds" for d
    using that by (auto simp: trust_valid_def level_policy_Validate_def DefaultLevelPolicy_def completed_Validate_def
      sample_done_def trust_review_Validate_def sample_trust_review_def trust_MinRating_def trust_MaxRating_def
      knownInteractionType_def)
  moreover have "inj_on event_key (fst ` set ?ds)"
    by (auto simp: inj_on_def event_key_def sample_done_def sample_trust_review_def)
  ultimately have m: "\<exists>hist. let R = {e. Inr e \<in> fst ` set ?ds} in
     (case map_of (tm_profiles (fold (trust_step DefaultLevelPolicy) ?ds trust_NewMemoryStore)) (id_n 4) of
       None \<Rightarrow> counted hist = [] \<and> (\<forall>e\<in>R. id_n 4 \<notin> {vr_ReviewerUserID e, vr_ProviderUserID e})
     | Some p \<Rightarrow> up_ProviderServiceReviewCount p = int (card {e \<in> R. vr_ProviderUserID e = id_n 4}) \<and>
         up_ProviderServiceRatingSum p = (\<Sum>e\<in>{e \<in> R. vr_ProviderUserID e = id_n 4}. vr_ProviderService e))"
    using trust_profiles_exact [of ?ds DefaultLevelPolicy "id_n 4"] unfolding Let_def
    by (auto split: option.splits)
  have R: "{e. Inr e \<in> fst ` set ?ds} = {sample_trust_review}" by auto
  have "{e \<in> {sample_trust_review}. vr_ProviderUserID e = id_n 4} = {sample_trust_review}"
    by (auto simp: sample_trust_review_def)
  with m show ?thesis unfolding R Let_def by (auto simp: sample_trust_review_def split: option.splits)
qed

end
