(* ===== verification/Listings.thy ===== *)
theory Listings
  imports Listing_Ref Occ_Store Go_Float
begin

text \<open>
  The package \<open>listings\<close>: the values of attributes and their check against a published form (\<open>schema.go\<close>), the
  listing with its life cycle and the moderation of its visibility (\<open>domain.go\<close>), the in-memory store, the
  service with the events that keep the search index up to date (\<open>service.go\<close>, \<open>events.go\<close>), and what other
  packages read (\<open>ownership.go\<close>, \<open>snapshot.go\<close>).
\<close>

section \<open>Attributes\<close>

text \<open>
  The dynamic types the code tells apart. \<open>GInt\<close> is an \<open>int\<close>, \<open>int32\<close> or \<open>int64\<close>, \<open>GUint\<close> one of the unsigned
  types, \<open>GNumber\<close> the literal of a \<open>json.Number\<close>, \<open>GOther\<close> a value of any other type.
\<close>

datatype go_any =
    GNil | GStr string | GBool bool | GNumber string | GInt int | GUint nat | GFloat64 float64 | GFloat32 float64
  | GList "go_any list" | GMap "(string \<times> go_any) list" | GOther

type_synonym attributes = "(string, go_any) gomap"

definition attr_char :: "char \<Rightarrow> bool" where
  "attr_char c \<longleftrightarrow> 0x61 \<le> byte_of c \<and> byte_of c \<le> 0x7A \<or> is_digit c"

definition attrKeyPattern :: "string \<Rightarrow> bool" where
  "attrKeyPattern s \<longleftrightarrow>
     (case s of
        [] \<Rightarrow> False
      | c # cs \<Rightarrow> attr_char c \<and> list_all (\<lambda>c. attr_char c \<or> c = CHR ''.'' \<or> c = CHR ''_'' \<or> c = CHR ''-'') cs)"

definition list_element_ok :: "go_any \<Rightarrow> bool" where
  "list_element_ok v \<longleftrightarrow>
     (case v of GStr _ \<Rightarrow> True | GBool _ \<Rightarrow> True | GNumber _ \<Rightarrow> True | GFloat64 _ \<Rightarrow> True | GInt _ \<Rightarrow> True | _ \<Rightarrow> False)"

definition validAttributeValue :: "go_any \<Rightarrow> bool" where
  "validAttributeValue v \<longleftrightarrow>
     (case v of
        GStr _ \<Rightarrow> True | GBool _ \<Rightarrow> True | GNumber _ \<Rightarrow> True
      | GFloat64 _ \<Rightarrow> True | GInt _ \<Rightarrow> True | GUint _ \<Rightarrow> True
      | GList xs \<Rightarrow> list_all list_element_ok xs
      | _ \<Rightarrow> False)"

definition ValidateAttributesShape :: "attributes option \<Rightarrow> go_error option" where
  "ValidateAttributesShape attrs =
     (case attrs of
        None \<Rightarrow> Some (ListErr List_errInvalidAttributes)
      | Some m \<Rightarrow>
          if list_all (\<lambda>(k, v). attrKeyPattern k \<and> validAttributeValue v) m then None
          else Some (ListErr List_errInvalidAttributes))"

text \<open>
  The attributes of a listing are only read and copied, and a nil map reads like an empty one, so the record
  below keeps no nil map. The attributes of a content may be nil, which the checks of its shape notice.
\<close>

definition attributes_of :: "attributes option \<Rightarrow> attributes" where
  "attributes_of m = (case m of None \<Rightarrow> [] | Some kvs \<Rightarrow> kvs)"

definition cloneAttributes :: "attributes option \<Rightarrow> attributes option" where
  "cloneAttributes m = (case m of None \<Rightarrow> Some [] | Some kvs \<Rightarrow> Some kvs)"

section \<open>Forms\<close>

text \<open>What \<open>masterdata/contracts/form.go\<close> shows of a published form.\<close>

definition ValueTypeText :: string where "ValueTypeText = ''text''"
definition ValueTypeInteger :: string where "ValueTypeInteger = ''integer''"
definition ValueTypeDecimal :: string where "ValueTypeDecimal = ''decimal''"
definition ValueTypeBoolean :: string where "ValueTypeBoolean = ''boolean''"
definition ValueTypeEnum :: string where "ValueTypeEnum = ''enum''"

record published_field =
  pf_Code :: string
  pf_ValueType :: string
  pf_Required :: bool
  pf_Constraints :: "(string, go_any) gomap option"
  pf_EnumOptionCodes :: "string list"

record published_form =
  pm_CategoryID :: ID
  pm_SchemaVersion :: int
  pm_Fields :: "published_field list"

text \<open>The literals of \<open>json.Number\<close> are those of JSON numbers, which start with a digit or a minus sign.\<close>

definition asJSONInteger :: "go_any \<Rightarrow> int option" where
  "asJSONInteger v = (case v of GInt i \<Rightarrow> Some i | GNumber s \<Rightarrow> parse_int64 s | _ \<Rightarrow> None)"

text \<open>
  \<open>json.Number.Float64\<close> on the literals of JSON numbers: the nearest \<open>float64\<close> of the decimal, an error when that is
  infinite. The decoder of JSON makes no other literals.
\<close>

definition split_number :: "string \<Rightarrow> (bool \<times> string \<times> string \<times> int) option" where
  "split_number s =
     (let neg = (s \<noteq> [] \<and> hd s = CHR ''-''); s = (if neg then tl s else s);
          whole = takeWhile is_digit s; s = dropWhile is_digit s;
          dot = (s \<noteq> [] \<and> hd s = CHR ''.''); s = (if dot then tl s else s);
          part = (if dot then takeWhile is_digit s else []); s = (if dot then dropWhile is_digit s else s)
      in if whole = [] \<or> dot \<and> part = [] then None
      else if s = [] then Some (neg, whole, part, 0)
      else if hd s \<noteq> CHR ''e'' \<and> hd s \<noteq> CHR ''E'' then None
      else let s = tl s; eneg = (s \<noteq> [] \<and> hd s = CHR ''-'');
               s = (if s \<noteq> [] \<and> (hd s = CHR ''-'' \<or> hd s = CHR ''+'') then tl s else s)
           in if s = [] \<or> \<not> list_all is_digit s then None
              else Some (neg, whole, part, (if eneg then - 1 else 1) * int (digits_value s)))"

definition json_Number_Float64 :: "string \<Rightarrow> float64 option" where
  "json_Number_Float64 s =
     (case split_number s of
        None \<Rightarrow> None
      | Some (neg, whole, part, e) \<Rightarrow>
          let n = of_nat (digits_value (whole @ part)); k = e - int (length part);
              x = (if 0 \<le> k then n * 10 ^ nat k else n / 10 ^ nat (- k));
              f = f64_round (if neg then - x else x)
          in case f of Finite _ \<Rightarrow> Some f | _ \<Rightarrow> None)"

definition asJSONNumber :: "go_any \<Rightarrow> float64 option" where
  "asJSONNumber v =
     (case v of GInt i \<Rightarrow> Some (f64_of_int i) | GFloat32 f \<Rightarrow> Some f | GFloat64 f \<Rightarrow> Some f
      | GNumber s \<Rightarrow> json_Number_Float64 s | _ \<Rightarrow> None)"

text \<open>The first of the keys that is present decides, whether or not its value is a number.\<close>

fun constraintNumber :: "(string, go_any) gomap \<Rightarrow> string list \<Rightarrow> float64 option" where
  "constraintNumber c [] = None"
| "constraintNumber c (k # ks) = (case map_of c k of Some v \<Rightarrow> asJSONNumber v | None \<Rightarrow> constraintNumber c ks)"

definition applyNumericConstraints :: "float64 \<Rightarrow> (string, go_any) gomap option \<Rightarrow> go_error option" where
  "applyNumericConstraints n c =
     (case c of
        None \<Rightarrow> None
      | Some c \<Rightarrow>
          if (case constraintNumber c [''min''] of Some mn \<Rightarrow> float_less n mn | None \<Rightarrow> False)
            then Some (ListErr List_errInvalidAttributes)
          else if (case constraintNumber c [''max''] of Some mx \<Rightarrow> float_less mx n | None \<Rightarrow> False)
            then Some (ListErr List_errInvalidAttributes)
          else None)"

definition applyTextConstraints :: "string \<Rightarrow> (string, go_any) gomap option \<Rightarrow> go_error option" where
  "applyTextConstraints s c =
     (case c of
        None \<Rightarrow> None
      | Some c \<Rightarrow>
          let n = f64_of_int (int (utf8_RuneCountInString s))
          in if (case constraintNumber c [''minLength'', ''min_length''] of Some mn \<Rightarrow> float_less n mn | None \<Rightarrow> False)
            then Some (ListErr List_errInvalidAttributes)
          else if (case constraintNumber c [''maxLength'', ''max_length''] of Some mx \<Rightarrow> float_less mx n | None \<Rightarrow> False)
            then Some (ListErr List_errInvalidAttributes)
          else None)"

definition validateAttributeValue :: "published_field \<Rightarrow> go_any \<Rightarrow> go_error option" where
  "validateAttributeValue f v =
     (if pf_ValueType f = ValueTypeText then
        (case v of GStr s \<Rightarrow> applyTextConstraints s (pf_Constraints f) | _ \<Rightarrow> Some (ListErr List_errInvalidAttributes))
      else if pf_ValueType f = ValueTypeInteger then
        (case asJSONInteger v of
           Some n \<Rightarrow> applyNumericConstraints (f64_of_int n) (pf_Constraints f)
         | None \<Rightarrow> Some (ListErr List_errInvalidAttributes))
      else if pf_ValueType f = ValueTypeDecimal then
        (case asJSONNumber v of
           Some n \<Rightarrow> applyNumericConstraints n (pf_Constraints f)
         | None \<Rightarrow> Some (ListErr List_errInvalidAttributes))
      else if pf_ValueType f = ValueTypeBoolean then
        (case v of GBool _ \<Rightarrow> None | _ \<Rightarrow> Some (ListErr List_errInvalidAttributes))
      else if pf_ValueType f = ValueTypeEnum then
        (case v of
           GStr s \<Rightarrow> if s \<in> set (pf_EnumOptionCodes f) then None else Some (ListErr List_errInvalidAttributes)
         | _ \<Rightarrow> Some (ListErr List_errInvalidAttributes))
      else Some (ListErr List_errInvalidAttributes))"

text \<open>The loop over the fields of the form, after the check that no attribute is unknown.\<close>

fun check_fields :: "attributes \<Rightarrow> published_field list \<Rightarrow> go_error option" where
  "check_fields attrs [] = None"
| "check_fields attrs (f # fs) =
     (case map_of attrs (pf_Code f) of
        None \<Rightarrow> if pf_Required f then Some (ListErr List_errInvalidAttributes) else check_fields attrs fs
      | Some v \<Rightarrow>
          if v = GNil then Some (ListErr List_errInvalidAttributes)
          else case validateAttributeValue f v of Some e \<Rightarrow> Some e | None \<Rightarrow> check_fields attrs fs)"

definition validateAttributesAgainstForm :: "attributes option \<Rightarrow> published_form \<Rightarrow> go_error option" where
  "validateAttributesAgainstForm attrs form =
     (case attrs of
        None \<Rightarrow> Some (ListErr List_errInvalidAttributes)
      | Some m \<Rightarrow>
          if \<not> list_all (\<lambda>(k, v). k \<in> pf_Code ` set (pm_Fields form)) m then Some (ListErr List_errInvalidAttributes)
          else check_fields m (pm_Fields form))"

section \<open>The listing\<close>

definition ListDraft :: string where "ListDraft = ''draft''"
definition ListReady :: string where "ListReady = ''ready''"
definition ListVerificationPending :: string where "ListVerificationPending = ''verification_pending''"
definition ListPublished :: string where "ListPublished = ''published''"
definition ListArchived :: string where "ListArchived = ''archived''"

definition ModerationNone :: string where "ModerationNone = ''none''"
definition ModerationRestricted :: string where "ModerationRestricted = ''restricted''"
definition ModerationRemoved :: string where "ModerationRemoved = ''removed''"

definition ParseModerationState :: "string \<Rightarrow> string res" where
  "ParseModerationState raw =
     (let s = strings_TrimSpace raw
      in if s = [] \<or> s = ModerationNone then Inr ModerationNone
         else if s = ModerationRestricted \<or> s = ModerationRemoved then Inr s
         else Inl (ListErr List_errInvalidModeration))"

definition mod_state_valid :: "string \<Rightarrow> bool" where
  "mod_state_valid s \<longleftrightarrow> s \<in> {[], ModerationNone, ModerationRestricted, ModerationRemoved}"

definition mod_state_Normalized :: "string \<Rightarrow> string" where
  "mod_state_Normalized s = (if s = [] then ModerationNone else s)"

definition hidesPublic :: "string \<Rightarrow> bool" where
  "hidesPublic s \<longleftrightarrow> mod_state_Normalized s = ModerationRestricted \<or> mod_state_Normalized s = ModerationRemoved"

definition list_status_valid :: "string \<Rightarrow> bool" where
  "list_status_valid s \<longleftrightarrow> s \<in> {ListDraft, ListReady, ListVerificationPending, ListPublished, ListArchived}"

definition list_ParseID :: "string \<Rightarrow> ID res" where
  "list_ParseID = ParseID (ListErr List_errInvalidListing) (ListErr List_errZeroID)"

record list_content =
  ct_CategoryID :: ID
  ct_CategorySchemaVersion :: int
  ct_Title :: string
  ct_Description :: string
  ct_PriceAmount :: "string option"
  ct_PriceCurrency :: "string option"
  ct_Attributes :: "attributes option"

text \<open>\<open>validatePrice\<close> trims the two strings in place: the trimmed pair is its result.\<close>

definition list_validatePrice :: "string option \<Rightarrow> string option \<Rightarrow> (string option \<times> string option) res" where
  "list_validatePrice amount currency =
     (case (amount, currency) of
        (None, None) \<Rightarrow> Inr (None, None)
      | (Some a, Some cur) \<Rightarrow>
          let a = strings_TrimSpace a; cur = strings_TrimSpace cur
          in if a = [] \<or> \<not> amountPattern a \<or> \<not> currencyPattern cur then Inl (ListErr List_errInvalidPrice)
             else Inr (Some a, Some cur)
      | _ \<Rightarrow> Inl (ListErr List_errInvalidPrice))"

definition list_content_normalized :: "list_content \<Rightarrow> list_content res" where
  "list_content_normalized c =
     (let title = strings_TrimSpace (ct_Title c); desc = strings_TrimSpace (ct_Description c)
      in if ID_IsZero (ct_CategoryID c) \<or> ct_CategorySchemaVersion c \<le> 0 then Inl (ListErr List_errInvalidContent)
      else case list_validatePrice (ct_PriceAmount c) (ct_PriceCurrency c) of Inl e \<Rightarrow> Inl e | Inr (a, cur) \<Rightarrow>
        let attrs = cloneAttributes (ct_Attributes c)
        in case ValidateAttributesShape attrs of Some e \<Rightarrow> Inl e | None \<Rightarrow>
          Inr (c\<lparr>ct_Title := title, ct_Description := desc, ct_PriceAmount := a, ct_PriceCurrency := cur,
                 ct_Attributes := attrs\<rparr>))"

record listing =
  li_ID :: ID
  li_OwnerUserID :: ID
  li_Status :: string
  li_CategoryID :: ID
  li_CategorySchemaVersion :: int
  li_Title :: string
  li_Description :: string
  li_PriceAmount :: "string option"
  li_PriceCurrency :: "string option"
  li_Attributes :: attributes
  li_CreatedAt :: time
  li_UpdatedAt :: time
  li_PublishedAt :: "time option"
  li_ArchivedAt :: "time option"
  li_ModerationState :: string

definition before_creation :: "time option \<Rightarrow> time \<Rightarrow> bool" where
  "before_creation t created \<longleftrightarrow> (case t of None \<Rightarrow> False | Some t \<Rightarrow> time_Before t created)"

definition list_Validate :: "listing \<Rightarrow> go_error option" where
  "list_Validate l =
     (if ID_IsZero (li_ID l) \<or> ID_IsZero (li_OwnerUserID l) \<or> ID_IsZero (li_CategoryID l) then Some (ListErr List_errZeroID)
      else if \<not> list_status_valid (li_Status l) then Some (ListErr List_errInvalidStatus)
      else if \<not> mod_state_valid (li_ModerationState l) then Some (ListErr List_errInvalidModeration)
      else if li_CategorySchemaVersion l \<le> 0 then Some (ListErr List_errInvalidContent)
      else if li_Title l \<noteq> strings_TrimSpace (li_Title l) \<or> li_Description l \<noteq> strings_TrimSpace (li_Description l)
        then Some (ListErr List_errInvalidContent)
      else case list_validatePrice (li_PriceAmount l) (li_PriceCurrency l) of Inl e \<Rightarrow> Some e | Inr _ \<Rightarrow>
      case ValidateAttributesShape (cloneAttributes (Some (li_Attributes l))) of Some e \<Rightarrow> Some e | None \<Rightarrow>
      if time_IsZero (li_CreatedAt l) \<or> time_Before (li_UpdatedAt l) (li_CreatedAt l) then Some (ListErr List_errInvalidListing)
      else if before_creation (li_PublishedAt l) (li_CreatedAt l) then Some (ListErr List_errInvalidListing)
      else if before_creation (li_ArchivedAt l) (li_CreatedAt l) then Some (ListErr List_errInvalidListing)
      else if li_Status l = ListPublished \<and> li_PublishedAt l = None then Some (ListErr List_errInvalidListing)
      else if li_Status l = ListArchived \<and> li_ArchivedAt l = None then Some (ListErr List_errInvalidListing)
      else None)"

text \<open>Every operation ends by validating the value it returns.\<close>

definition list_validated :: "listing \<Rightarrow> listing res" where
  "list_validated l = (case list_Validate l of Some e \<Rightarrow> Inl e | None \<Rightarrow> Inr l)"

definition list_NewDraft :: "ID \<Rightarrow> list_content \<Rightarrow> time \<Rightarrow> ID option \<Rightarrow> listing res" where
  "list_NewDraft owner content now entropy =
     (if ID_IsZero owner then Inl (ListErr List_errZeroID)
      else if time_IsZero now then Inl (ListErr List_errInvalidListing)
      else case list_content_normalized content of Inl e \<Rightarrow> Inl e | Inr c \<Rightarrow>
      case NewID entropy of None \<Rightarrow> Inl (ListErr List_errUnavailable) | Some i \<Rightarrow>
      list_validated
        \<lparr>li_ID = i, li_OwnerUserID = owner, li_Status = ListDraft, li_CategoryID = ct_CategoryID c,
         li_CategorySchemaVersion = ct_CategorySchemaVersion c, li_Title = ct_Title c,
         li_Description = ct_Description c, li_PriceAmount = ct_PriceAmount c, li_PriceCurrency = ct_PriceCurrency c,
         li_Attributes = attributes_of (ct_Attributes c), li_CreatedAt = now, li_UpdatedAt = now, li_PublishedAt = None,
         li_ArchivedAt = None, li_ModerationState = ModerationNone\<rparr>)"

definition list_UpdateDraft :: "listing \<Rightarrow> list_content \<Rightarrow> time \<Rightarrow> listing res" where
  "list_UpdateDraft l content now =
     (if li_Status l \<noteq> ListDraft then Inl (ListErr List_errInvalidTransition)
      else case list_content_normalized content of Inl e \<Rightarrow> Inl e | Inr c \<Rightarrow>
      if time_Before now (li_CreatedAt l) then Inl (ListErr List_errInvalidListing)
      else list_validated
        (l\<lparr>li_CategoryID := ct_CategoryID c, li_CategorySchemaVersion := ct_CategorySchemaVersion c,
           li_Title := ct_Title c, li_Description := ct_Description c, li_PriceAmount := ct_PriceAmount c,
           li_PriceCurrency := ct_PriceCurrency c, li_Attributes := attributes_of (ct_Attributes c), li_UpdatedAt := now\<rparr>))"

definition list_MarkReady :: "listing \<Rightarrow> time \<Rightarrow> listing res" where
  "list_MarkReady l now =
     (if li_Status l \<noteq> ListDraft then Inl (ListErr List_errInvalidTransition)
      else if strings_TrimSpace (li_Title l) = [] \<or> strings_TrimSpace (li_Description l) = []
        then Inl (ListErr List_errInvalidContent)
      else if time_Before now (li_CreatedAt l) then Inl (ListErr List_errInvalidListing)
      else list_validated (l\<lparr>li_Status := ListReady, li_UpdatedAt := now\<rparr>))"

definition list_Archive :: "listing \<Rightarrow> time \<Rightarrow> listing res" where
  "list_Archive l now =
     (if li_Status l = ListArchived then Inl (ListErr List_errInvalidTransition)
      else if time_Before now (li_CreatedAt l) then Inl (ListErr List_errInvalidListing)
      else list_validated (l\<lparr>li_Status := ListArchived, li_ArchivedAt := Some now, li_UpdatedAt := now\<rparr>))"

definition PubliclyReadable :: "listing \<Rightarrow> bool" where
  "PubliclyReadable l \<longleftrightarrow> li_Status l = ListPublished \<and> \<not> hidesPublic (li_ModerationState l)"

definition list_ApplyModeration :: "listing \<Rightarrow> string \<Rightarrow> time \<Rightarrow> listing res" where
  "list_ApplyModeration l state now =
     (case ParseModerationState state of Inl e \<Rightarrow> Inl e | Inr parsed \<Rightarrow>
      if parsed = ModerationNone then Inl (ListErr List_errInvalidModeration)
      else if time_Before now (li_CreatedAt l) then Inl (ListErr List_errInvalidListing)
      else list_validated (l\<lparr>li_ModerationState := parsed, li_UpdatedAt := now\<rparr>))"

definition list_ClearModeration :: "listing \<Rightarrow> time \<Rightarrow> listing res" where
  "list_ClearModeration l now =
     (if time_Before now (li_CreatedAt l) then Inl (ListErr List_errInvalidListing)
      else list_validated (l\<lparr>li_ModerationState := ModerationNone, li_UpdatedAt := now\<rparr>))"

definition list_Publish :: "listing \<Rightarrow> time \<Rightarrow> bool \<Rightarrow> listing res" where
  "list_Publish l now eligible =
     (if \<not> eligible then Inl (ListErr List_errPublishNotEligible)
      else if li_Status l \<noteq> ListReady \<and> li_Status l \<noteq> ListVerificationPending
        then Inl (ListErr List_errInvalidTransition)
      else if strings_TrimSpace (li_Title l) = [] \<or> strings_TrimSpace (li_Description l) = []
        then Inl (ListErr List_errInvalidContent)
      else if time_Before now (li_CreatedAt l) then Inl (ListErr List_errInvalidListing)
      else list_validated (l\<lparr>li_Status := ListPublished, li_PublishedAt := Some now, li_UpdatedAt := now\<rparr>))"

section \<open>The in-memory store\<close>

definition list_clone :: "listing \<Rightarrow> listing" where
  "list_clone l = l\<lparr>li_Attributes := attributes_of (cloneAttributes (Some (li_Attributes l)))\<rparr>"

lemma list_clone_id [simp]: "list_clone l = l"
  by (simp add: list_clone_def attributes_of_def cloneAttributes_def)

record list_mem =
  sm_byID :: "(ID, listing) gomap"
  sm_fail :: "go_error option"

definition list_NewMemoryStore :: list_mem where
  "list_NewMemoryStore = \<lparr>sm_byID = [], sm_fail = None\<rparr>"

definition list_mem_SetFail :: "go_error option \<Rightarrow> list_mem \<Rightarrow> list_mem" where
  "list_mem_SetFail e m = m\<lparr>sm_fail := e\<rparr>"

definition list_mem_Create :: "ctx \<Rightarrow> listing \<Rightarrow> (list_mem, unit) go" where
  "list_mem_Create c l = (\<lambda>m.
     gguard (ctx_Err c) (gguard (sm_fail m) (gguard (list_Validate l)
       (if map_of (sm_byID m) (li_ID l) \<noteq> None then gfail (ListErr List_errConflict)
        else (\<lambda>m. (m\<lparr>sm_byID := AList.update (li_ID l) (list_clone l) (sm_byID m)\<rparr>, Inr ()))))) m)"

definition list_mem_Snapshot :: "list_mem \<Rightarrow> (ID, listing) gomap" where
  "list_mem_Snapshot m = map (\<lambda>(k, l). (k, list_clone l)) (sm_byID m)"

definition list_mem_Restore :: "(ID, listing) gomap \<Rightarrow> list_mem \<Rightarrow> list_mem" where
  "list_mem_Restore rows m = m\<lparr>sm_byID := map (\<lambda>(k, l). (k, list_clone l)) rows\<rparr>"

definition list_mem_Get :: "ctx \<Rightarrow> ID \<Rightarrow> (list_mem, listing) go" where
  "list_mem_Get c i = (\<lambda>m.
     gguard (ctx_Err c) (gguard (sm_fail m)
       (case map_of (sm_byID m) i of
          None \<Rightarrow> gfail (ListErr List_errNotFound)
        | Some l \<Rightarrow> gret (list_clone l))) m)"

definition list_mem_Update :: "ctx \<Rightarrow> listing \<Rightarrow> time \<Rightarrow> (list_mem, unit) go" where
  "list_mem_Update c l expected = (\<lambda>m.
     gguard (ctx_Err c) (gguard (sm_fail m) (gguard (list_Validate l)
       (case map_of (sm_byID m) (li_ID l) of
          None \<Rightarrow> gfail (ListErr List_errNotFound)
        | Some cur \<Rightarrow>
            if \<not> time_Equal (li_UpdatedAt cur) expected then gfail (ListErr List_errConflict)
            else (\<lambda>m. (m\<lparr>sm_byID := AList.update (li_ID l) (list_clone l) (sm_byID m)\<rparr>, Inr ()))))) m)"

definition list_mem_ListByOwner :: "ctx \<Rightarrow> ID \<Rightarrow> (list_mem, listing list) go" where
  "list_mem_ListByOwner c owner = (\<lambda>m.
     gguard (ctx_Err c) (gguard (sm_fail m)
       (gret (newest_first li_CreatedAt li_ID (map list_clone (filter (\<lambda>l. li_OwnerUserID l = owner) (map snd (sm_byID m))))))) m)"

section \<open>Events\<close>

definition EventTypePublished :: string where "EventTypePublished = ''listings.listing.published''"
definition EventTypeUpdated :: string where "EventTypeUpdated = ''listings.listing.updated''"
definition EventTypeArchived :: string where "EventTypeArchived = ''listings.listing.archived''"
definition list_EventVersion :: int where "list_EventVersion = 1"

text \<open>\<open>time.UnixNano\<close>: nanoseconds since 1970, with the wrap-around of an \<open>int64\<close>.\<close>

definition UnixNano :: "time \<Rightarrow> int" where
  "UnixNano t = wrap64 (t - 62135596800 * 1000000000)"

definition encodeListingEvent :: "string \<Rightarrow> ID \<Rightarrow> time \<Rightarrow> new_event res" where
  "encodeListingEvent eventType listingID at' = Inr
     \<lparr>ev_EventType = eventType, ev_EventVersion = list_EventVersion, ev_AggregateType = ''listing'',
      ev_AggregateID = ID_String listingID, ev_Payload = Some (json_object [(''listing_id'', ID_String listingID)]),
      ev_IdempotencyKey = eventType @ '':'' @ ID_String listingID @ '':'' @ strconv_Itoa (UnixNano at'),
      ev_CorrelationID = []\<rparr>"

definition DecodeListingIDPayload :: "json option \<Rightarrow> string res" where
  "DecodeListingIDPayload raw =
     (case json_Unmarshal_strings [''listing_id''] raw of
        None \<Rightarrow> Inl (ListCErr ListC_ErrInvalidEvent)
      | Some acc \<Rightarrow>
          let i = strings_TrimSpace (string_field acc ''listing_id'')
          in if i = [] then Inl (ListCErr ListC_ErrInvalidEvent) else Inr i)"

definition lifecycleEventType :: "listing \<Rightarrow> listing \<Rightarrow> string option" where
  "lifecycleEventType previous next' =
     (if li_Status next' = ListPublished \<and> li_Status previous \<noteq> ListPublished then Some EventTypePublished
      else if li_Status next' = ListArchived \<and> li_Status previous \<noteq> ListArchived then Some EventTypeArchived
      else if li_Status next' = ListPublished \<and> li_Status previous = ListPublished then Some EventTypeUpdated
      else if mod_state_Normalized (li_ModerationState previous) \<noteq> mod_state_Normalized (li_ModerationState next')
        then Some EventTypeUpdated
      else None)"

section \<open>The service\<close>

record 'w list_store =
  lst_Create :: "ctx \<Rightarrow> listing \<Rightarrow> ('w, unit) go"
  lst_Get :: "ctx \<Rightarrow> ID \<Rightarrow> ('w, listing) go"
  lst_Update :: "ctx \<Rightarrow> listing \<Rightarrow> time \<Rightarrow> ('w, unit) go"
  lst_ListByOwner :: "ctx \<Rightarrow> ID \<Rightarrow> ('w, listing list) go"

definition list_mem_store :: "('w \<Rightarrow> list_mem) \<Rightarrow> ((list_mem \<Rightarrow> list_mem) \<Rightarrow> 'w \<Rightarrow> 'w) \<Rightarrow> 'w list_store" where
  "list_mem_store get upd =
     \<lparr>lst_Create = (\<lambda>c l. zoom get upd (list_mem_Create c l)), lst_Get = (\<lambda>c i. zoom get upd (list_mem_Get c i)),
      lst_Update = (\<lambda>c l t. zoom get upd (list_mem_Update c l t)),
      lst_ListByOwner = (\<lambda>c u. zoom get upd (list_mem_ListByOwner c u))\<rparr>"

record 'w list_service =
  lgs_store :: "'w list_store option"
  lgs_forms :: "(ctx \<Rightarrow> ID \<Rightarrow> int \<Rightarrow> ('w, published_form) go) option"
  lgs_now :: "'w \<Rightarrow> 'w \<times> time"
  lgs_rand :: "'w \<Rightarrow> 'w \<times> ID option"
  lgs_tx :: "'w transactor option"
  lgs_outbox :: "'w enqueuer option"

definition list_NewService ::
  "'w list_store option \<Rightarrow> (ctx \<Rightarrow> ID \<Rightarrow> int \<Rightarrow> ('w, published_form) go) option \<Rightarrow> ('w \<Rightarrow> 'w \<times> time) \<Rightarrow>
   ('w \<Rightarrow> 'w \<times> ID option) \<Rightarrow> 'w list_service res" where
  "list_NewService st forms now rnd =
     (case st of
        None \<Rightarrow> Inl (ListErr List_errStoreRequired)
      | Some _ \<Rightarrow> Inr \<lparr>lgs_store = st, lgs_forms = forms, lgs_now = now, lgs_rand = rnd, lgs_tx = None, lgs_outbox = None\<rparr>)"

definition list_SetOutbox :: "'w transactor option \<Rightarrow> 'w enqueuer option \<Rightarrow> 'w list_service \<Rightarrow> 'w list_service" where
  "list_SetOutbox tx enq s = s\<lparr>lgs_tx := tx, lgs_outbox := enq\<rparr>"

definition list_mapStoreErr :: "go_error \<Rightarrow> go_error" where
  [err_defs]: "list_mapStoreErr err =
     (if ctx_error err then err
      else if err = ListErr List_errNotFound \<or> err = DbErr Db_ErrNoRows then ListErr List_errNotFound
      else if err = ListErr List_errConflict \<or> err = DbErr Db_ErrConflict then ListErr List_errConflict
      else if err = ListErr List_errUnavailable \<or> err = DbErr Db_ErrUnavailable then ListErr List_errUnavailable
      else if err \<in> ListErr ` {List_errStoreRequired, List_errZeroID, List_errInvalidListing, List_errInvalidStatus,
          List_errInvalidTransition, List_errInvalidAttributes, List_errInvalidPrice, List_errInvalidContent,
          List_errInvalidCategorySchema, List_errPublishNotEligible, List_errForbidden, List_errInvalidModeration} then err
      else ListErr List_errUnavailable)"

definition mapMasterDataErr :: "go_error \<Rightarrow> go_error" where
  [err_defs]: "mapMasterDataErr err =
     (if ctx_error err then err
      else if err = MdCErr MdC_ErrZeroID \<or> err = MdCErr MdC_ErrNotFound then ListErr List_errInvalidCategorySchema
      else if err = MdCErr MdC_ErrUnavailable then ListErr List_errUnavailable
      else ListErr List_errUnavailable)"

definition mapContractApplyErr :: "go_error \<Rightarrow> go_error" where
  [err_defs]: "mapContractApplyErr err =
     (if err = ListErr List_errZeroID then ListCErr ListC_ErrZeroID
      else if err = ListErr List_errNotFound then ListCErr ListC_ErrNotFound
      else if err = ListErr List_errConflict then ListCErr ListC_ErrConflict
      else if err = ListErr List_errInvalidModeration then ListCErr ListC_ErrInvalidModerationState
      else if ctx_error err then err
      else ListCErr ListC_ErrUnavailable)"

definition validateBoundAttributes ::
  "'w list_service \<Rightarrow> ctx \<Rightarrow> ID \<Rightarrow> int \<Rightarrow> attributes option \<Rightarrow> ('w, unit) go" where
  "validateBoundAttributes s c categoryID schemaVersion attrs =
     gneed (lgs_forms s) (ListErr List_errUnavailable) (\<lambda>resolve.
     gbind (gmaperr mapMasterDataErr (resolve c categoryID schemaVersion)) (\<lambda>form.
     if pm_CategoryID form \<noteq> categoryID \<or> pm_SchemaVersion form \<noteq> schemaVersion
       then gfail (ListErr List_errInvalidCategorySchema)
     else gguard (validateAttributesAgainstForm attrs form) (gret ())))"

definition list_emitLifecycle :: "'w list_service \<Rightarrow> ctx \<Rightarrow> listing \<Rightarrow> listing \<Rightarrow> ('w, unit) go" where
  "list_emitLifecycle s c previous next' =
     (case lgs_outbox s of
        None \<Rightarrow> gret ()
      | Some enq \<Rightarrow>
          (case lifecycleEventType previous next' of
             None \<Rightarrow> gret ()
           | Some ty \<Rightarrow>
               gbind (gpure (encodeListingEvent ty (li_ID next') (li_UpdatedAt next'))) (\<lambda>ev.
               gmaperr list_mapStoreErr (enq c ev))))"

text \<open>\<open>fn\<close> may read the database, as the check of attributes does.\<close>

definition list_mutate ::
  "'w list_service \<Rightarrow> ctx \<Rightarrow> ID \<Rightarrow> time \<Rightarrow> (listing \<Rightarrow> time \<Rightarrow> ('w, listing) go) \<Rightarrow> ('w, listing) go" where
  "list_mutate s c i expected fn =
     gneed (lgs_store s) (ListErr List_errStoreRequired) (\<lambda>st.
     if ID_IsZero i then gfail (ListErr List_errZeroID)
     else gbind (gmaperr list_mapStoreErr (lst_Get st c i)) (\<lambda>cur.
     if \<not> time_Equal (li_UpdatedAt cur) expected then gfail (ListErr List_errConflict)
     else gread (lgs_now s) (\<lambda>now.
     gbind (fn cur (time_UTC now)) (\<lambda>nxt.
     gbind (run_maybe_tx list_mapStoreErr (lgs_outbox s) (lgs_tx s) c (\<lambda>c.
       gbind (gmaperr list_mapStoreErr (lst_Update st c nxt expected)) (\<lambda>_.
       list_emitLifecycle s c cur nxt))) (\<lambda>_.
     gret nxt)))))"

definition list_svc_CreateDraft :: "'w list_service \<Rightarrow> ctx \<Rightarrow> ID \<Rightarrow> list_content \<Rightarrow> ('w, listing) go" where
  "list_svc_CreateDraft s c owner content =
     gneed (lgs_store s) (ListErr List_errStoreRequired) (\<lambda>st.
     gread (lgs_now s) (\<lambda>now.
     gread (lgs_rand s) (\<lambda>entropy.
     gbind (gpure (list_NewDraft owner content (time_UTC now) entropy)) (\<lambda>l.
     gbind (validateBoundAttributes s c (li_CategoryID l) (li_CategorySchemaVersion l) (Some (li_Attributes l))) (\<lambda>_.
     gbind (gmaperr list_mapStoreErr (lst_Create st c l)) (\<lambda>_.
     gret l))))))"

definition list_svc_Get :: "'w list_service \<Rightarrow> ctx \<Rightarrow> ID \<Rightarrow> ('w, listing) go" where
  "list_svc_Get s c i =
     gneed (lgs_store s) (ListErr List_errStoreRequired) (\<lambda>st.
     if ID_IsZero i then gfail (ListErr List_errZeroID) else gmaperr list_mapStoreErr (lst_Get st c i))"

definition list_svc_GetPublished :: "'w list_service \<Rightarrow> ctx \<Rightarrow> ID \<Rightarrow> ('w, listing) go" where
  "list_svc_GetPublished s c i =
     gbind (list_svc_Get s c i) (\<lambda>l. if \<not> PubliclyReadable l then gfail (ListErr List_errNotFound) else gret l)"

definition list_svc_ListByOwner :: "'w list_service \<Rightarrow> ctx \<Rightarrow> ID \<Rightarrow> ('w, listing list) go" where
  "list_svc_ListByOwner s c owner =
     gneed (lgs_store s) (ListErr List_errStoreRequired) (\<lambda>st.
     if ID_IsZero owner then gfail (ListErr List_errZeroID)
     else gmaperr list_mapStoreErr (lst_ListByOwner st c owner))"

definition list_svc_UpdateDraft :: "'w list_service \<Rightarrow> ctx \<Rightarrow> ID \<Rightarrow> time \<Rightarrow> list_content \<Rightarrow> ('w, listing) go" where
  "list_svc_UpdateDraft s c i expected content = list_mutate s c i expected (\<lambda>l now.
     if ct_CategoryID content \<noteq> li_CategoryID l \<or> ct_CategorySchemaVersion content \<noteq> li_CategorySchemaVersion l
       then gfail (ListErr List_errInvalidContent)
     else gbind (validateBoundAttributes s c (li_CategoryID l) (li_CategorySchemaVersion l) (ct_Attributes content)) (\<lambda>_.
       gpure (list_UpdateDraft l content now)))"

definition list_svc_MarkReady :: "'w list_service \<Rightarrow> ctx \<Rightarrow> ID \<Rightarrow> time \<Rightarrow> ('w, listing) go" where
  "list_svc_MarkReady s c i expected = list_mutate s c i expected (\<lambda>l now. gpure (list_MarkReady l now))"

definition list_svc_Archive :: "'w list_service \<Rightarrow> ctx \<Rightarrow> ID \<Rightarrow> time \<Rightarrow> ('w, listing) go" where
  "list_svc_Archive s c i expected = list_mutate s c i expected (\<lambda>l now. gpure (list_Archive l now))"

definition list_svc_Publish :: "'w list_service \<Rightarrow> ctx \<Rightarrow> ID \<Rightarrow> time \<Rightarrow> bool \<Rightarrow> ('w, listing) go" where
  "list_svc_Publish s c i expected eligible =
     list_mutate s c i expected (\<lambda>l now. gpure (list_Publish l now eligible))"

record moderation_input =
  mi_ListingID :: ID
  mi_State :: string

definition moderation_input_Validate :: "moderation_input \<Rightarrow> go_error option" where
  "moderation_input_Validate inp =
     (if ID_IsZero (mi_ListingID inp) then Some (ListCErr ListC_ErrZeroID)
      else let state = NormalizeModerationState (mi_State inp)
      in if state = ModerationStateRestricted \<or> state = ModerationStateRemoved then None
         else if state = ModerationStateNone then Some (ListCErr ListC_ErrModerationNotEnforced)
         else Some (ListCErr ListC_ErrInvalidModerationState))"

definition list_svc_ApplyModerationState :: "'w list_service \<Rightarrow> ctx \<Rightarrow> moderation_input \<Rightarrow> ('w, unit) go" where
  "list_svc_ApplyModerationState s c inp =
     gguard (moderation_input_Validate inp)
       (gbind (gmaperr mapContractApplyErr (gpure (ParseModerationState (mi_State inp)))) (\<lambda>state.
        gbind (gmaperr mapContractApplyErr (list_svc_Get s c (mi_ListingID inp))) (\<lambda>cur.
        gbind (gmaperr mapContractApplyErr (list_mutate s c (mi_ListingID inp) (li_UpdatedAt cur)
          (\<lambda>l now. gpure (list_ApplyModeration l state now)))) (\<lambda>_. gret ()))))"

definition list_svc_ClearModerationState :: "'w list_service \<Rightarrow> ctx \<Rightarrow> ID \<Rightarrow> ('w, unit) go" where
  "list_svc_ClearModerationState s c i =
     (if ID_IsZero i then gfail (ListCErr ListC_ErrZeroID)
      else gbind (gmaperr mapContractApplyErr (list_svc_Get s c i)) (\<lambda>cur.
        gbind (gmaperr mapContractApplyErr (list_mutate s c i (li_UpdatedAt cur)
          (\<lambda>l now. gpure (list_ClearModeration l now)))) (\<lambda>_. gret ())))"

section \<open>What other packages read\<close>

definition mapOwnershipErr :: "go_error \<Rightarrow> go_error" where
  [err_defs]: "mapOwnershipErr err =
     (if err = ListErr List_errZeroID then ListCErr ListC_ErrZeroID
      else if err = ListErr List_errNotFound then ListCErr ListC_ErrNotFound
      else if err = ListErr List_errForbidden then ListCErr ListC_ErrForbidden
      else if err = ListErr List_errConflict then ListCErr ListC_ErrConflict
      else if err = ListErr List_errInvalidModeration then ListCErr ListC_ErrInvalidModerationState
      else if err = ListErr List_errUnavailable \<or> err = ListErr List_errStoreRequired then ListCErr ListC_ErrUnavailable
      else ListCErr ListC_ErrUnavailable)"

definition ResolveListingOwner :: "'w list_service \<Rightarrow> 'w ownership" where
  "ResolveListingOwner s = (\<lambda>c i.
     gbind (gmaperr mapOwnershipErr (list_svc_Get s c i)) (\<lambda>l.
     gret \<lparr>lr_ID = li_ID l, lr_OwnerUserID = li_OwnerUserID l, lr_Status = li_Status l,
           lr_ModerationState = mod_state_Normalized (li_ModerationState l)\<rparr>))"

record eids_subject =
  es_ID :: ID
  es_OwnerUserID :: ID
  es_CategoryID :: ID

definition ResolveListingEIDSSubject :: "'w list_service \<Rightarrow> ctx \<Rightarrow> ID \<Rightarrow> ('w, eids_subject) go" where
  "ResolveListingEIDSSubject s c i =
     gbind (gmaperr mapOwnershipErr (list_svc_Get s c i)) (\<lambda>l.
     gret \<lparr>es_ID = li_ID l, es_OwnerUserID = li_OwnerUserID l, es_CategoryID = li_CategoryID l\<rparr>)"

definition AssertListingOwnedBy :: "'w list_service \<Rightarrow> ctx \<Rightarrow> ID \<Rightarrow> ID \<Rightarrow> ('w, unit) go" where
  "AssertListingOwnedBy s c listingID userID =
     (if ID_IsZero listingID \<or> ID_IsZero userID then gfail (ListCErr ListC_ErrZeroID)
      else gbind (ResolveListingOwner s c listingID) (\<lambda>ref.
        if lr_OwnerUserID ref \<noteq> userID then gfail (ListCErr ListC_ErrForbidden) else gret ()))"

definition list_assertOwnedBy :: "'w list_service \<Rightarrow> ctx \<Rightarrow> ID \<Rightarrow> ID \<Rightarrow> ('w, unit) go" where
  "list_assertOwnedBy s c listingID userID =
     (if ID_IsZero listingID \<or> ID_IsZero userID then gfail (ListErr List_errZeroID)
      else gbind (list_svc_Get s c listingID) (\<lambda>l.
        if li_OwnerUserID l \<noteq> userID then gfail (ListErr List_errForbidden) else gret ()))"

record listing_snapshot =
  sn_ID :: ID
  sn_Status :: string
  sn_ModerationState :: string
  sn_CategoryID :: ID
  sn_CategorySchemaVersion :: int
  sn_Title :: string
  sn_Description :: string
  sn_PriceAmount :: "string option"
  sn_PriceCurrency :: "string option"
  sn_Attributes :: "attributes option"
  sn_PublishedAt :: "time option"
  sn_UpdatedAt :: time

definition GetListingSnapshot :: "'w list_service \<Rightarrow> ctx \<Rightarrow> ID \<Rightarrow> ('w, listing_snapshot) go" where
  "GetListingSnapshot s c i =
     gbind (gmaperr mapOwnershipErr (list_svc_Get s c i)) (\<lambda>l.
     gret \<lparr>sn_ID = li_ID l, sn_Status = li_Status l, sn_ModerationState = mod_state_Normalized (li_ModerationState l),
           sn_CategoryID = li_CategoryID l, sn_CategorySchemaVersion = li_CategorySchemaVersion l,
           sn_Title = li_Title l, sn_Description = li_Description l, sn_PriceAmount = li_PriceAmount l,
           sn_PriceCurrency = li_PriceCurrency l, sn_Attributes = cloneAttributes (Some (li_Attributes l)),
           sn_PublishedAt = li_PublishedAt l, sn_UpdatedAt = li_UpdatedAt l\<rparr>)"

section \<open>What the operations keep\<close>

text \<open>What the service may store over a listing.\<close>

definition list_opr :: "time \<Rightarrow> listing \<Rightarrow> listing \<Rightarrow> bool" where
  "list_opr now l n \<longleftrightarrow>
     (\<exists>content. list_UpdateDraft l content now = Inr n) \<or> list_MarkReady l now = Inr n \<or> list_Archive l now = Inr n \<or>
     (\<exists>eligible. list_Publish l now eligible = Inr n) \<or> (\<exists>state. list_ApplyModeration l state now = Inr n) \<or>
     list_ClearModeration l now = Inr n"

definition list_rank :: "string \<Rightarrow> nat" where
  "list_rank s =
     (if s = ListDraft then 0 else if s = ListReady then 1 else if s = ListVerificationPending then 2
      else if s = ListPublished then 3 else 4)"

text \<open>What a reader sees of the content.\<close>

definition list_terms :: "listing \<Rightarrow> ID \<times> int \<times> string \<times> string \<times> string option \<times> string option \<times> attributes" where
  "list_terms l = (li_CategoryID l, li_CategorySchemaVersion l, li_Title l, li_Description l, li_PriceAmount l,
     li_PriceCurrency l, li_Attributes l)"

definition list_frame :: "listing \<Rightarrow> listing \<Rightarrow> bool" where
  "list_frame l n \<longleftrightarrow>
     li_OwnerUserID n = li_OwnerUserID l \<and> li_CreatedAt n = li_CreatedAt l \<and>
     list_rank (li_Status l) \<le> list_rank (li_Status n) \<and>
     (li_Status l \<noteq> ListDraft \<longrightarrow> list_terms n = list_terms l) \<and>
     (li_Status l = ListArchived \<longrightarrow> li_Status n = ListArchived \<and> li_ArchivedAt n = li_ArchivedAt l) \<and>
     (li_Status l \<in> {ListPublished, ListArchived} \<longrightarrow>
        li_Status n \<in> {ListPublished, ListArchived} \<and> li_PublishedAt n = li_PublishedAt l)"

lemma list_states [simp]:
  "ListDraft \<noteq> ListReady" "ListDraft \<noteq> ListVerificationPending" "ListDraft \<noteq> ListPublished" "ListDraft \<noteq> ListArchived"
  "ListReady \<noteq> ListVerificationPending" "ListReady \<noteq> ListPublished" "ListReady \<noteq> ListArchived"
  "ListVerificationPending \<noteq> ListPublished" "ListVerificationPending \<noteq> ListArchived" "ListPublished \<noteq> ListArchived"
  "ListReady \<noteq> ListDraft" "ListVerificationPending \<noteq> ListDraft" "ListPublished \<noteq> ListDraft" "ListArchived \<noteq> ListDraft"
  "ListVerificationPending \<noteq> ListReady" "ListPublished \<noteq> ListReady" "ListArchived \<noteq> ListReady"
  "ListPublished \<noteq> ListVerificationPending" "ListArchived \<noteq> ListVerificationPending" "ListArchived \<noteq> ListPublished"
  by (simp_all add: ListDraft_def ListReady_def ListVerificationPending_def ListPublished_def ListArchived_def)

lemma list_validated_InrD: "list_validated l = Inr n \<Longrightarrow> n = l \<and> list_Validate n = None"
  by (auto simp: list_validated_def split: option.splits)

lemma list_frame_refl [simp]: "list_frame l l"
  by (simp add: list_frame_def)

lemma list_rank_draft: "list_rank s = 0 \<longleftrightarrow> s = ListDraft"
  by (simp add: list_rank_def)

lemma list_rank_archived: "list_status_valid s \<Longrightarrow> list_rank s = 4 \<longleftrightarrow> s = ListArchived"
  by (auto simp: list_rank_def list_status_valid_def)

text \<open>One lemma per operation, with what its guards have checked.\<close>

lemma list_UpdateDraft_D:
  assumes "list_UpdateDraft l content now = Inr n"
  shows "li_Status l = ListDraft \<and> li_Status n = ListDraft \<and> li_ID n = li_ID l \<and> li_UpdatedAt n = now \<and> list_frame l n \<and>
    li_ModerationState n = li_ModerationState l \<and> list_Validate n = None"
  using assms by (auto simp: list_UpdateDraft_def list_frame_def dest!: list_validated_InrD split: if_splits sum.splits)

lemma list_MarkReady_D:
  assumes "list_MarkReady l now = Inr n"
  shows "li_Status l = ListDraft \<and> n = l\<lparr>li_Status := ListReady, li_UpdatedAt := now\<rparr> \<and> list_frame l n \<and> list_Validate n = None"
  using assms by (auto simp: list_MarkReady_def list_frame_def list_rank_def dest!: list_validated_InrD split: if_splits)

lemma list_Archive_D:
  assumes "list_Archive l now = Inr n"
  shows "li_Status l \<noteq> ListArchived \<and> n = l\<lparr>li_Status := ListArchived, li_ArchivedAt := Some now, li_UpdatedAt := now\<rparr> \<and>
    list_frame l n \<and> list_Validate n = None"
  using assms by (auto simp: list_Archive_def list_frame_def list_rank_def list_terms_def dest!: list_validated_InrD split: if_splits)

lemma list_Publish_D:
  assumes "list_Publish l now eligible = Inr n"
  shows "eligible \<and> li_Status l \<in> {ListReady, ListVerificationPending} \<and>
    n = l\<lparr>li_Status := ListPublished, li_PublishedAt := Some now, li_UpdatedAt := now\<rparr> \<and> list_frame l n \<and> list_Validate n = None"
  using assms by (auto simp: list_Publish_def list_frame_def list_rank_def list_terms_def dest!: list_validated_InrD split: if_splits)

lemma list_ApplyModeration_D:
  assumes "list_ApplyModeration l state now = Inr n"
  shows "\<exists>s \<in> {ModerationRestricted, ModerationRemoved}. n = l\<lparr>li_ModerationState := s, li_UpdatedAt := now\<rparr> \<and>
    list_frame l n \<and> list_Validate n = None"
  using assms
  by (auto simp: list_ApplyModeration_def list_frame_def list_terms_def ParseModerationState_def Let_def
    dest!: list_validated_InrD split: if_splits)

lemma list_ClearModeration_D:
  assumes "list_ClearModeration l now = Inr n"
  shows "n = l\<lparr>li_ModerationState := ModerationNone, li_UpdatedAt := now\<rparr> \<and> list_frame l n \<and> list_Validate n = None"
  using assms by (auto simp: list_ClearModeration_def list_frame_def list_terms_def dest!: list_validated_InrD split: if_splits)

lemma list_oprD:
  assumes "list_opr now l n"
  shows "li_ID n = li_ID l \<and> li_UpdatedAt n = now \<and> list_frame l n \<and> list_Validate n = None"
  using assms unfolding list_opr_def
  by (elim disjE exE) (auto dest: list_UpdateDraft_D list_MarkReady_D list_Archive_D list_Publish_D list_ApplyModeration_D
    list_ClearModeration_D)

lemma list_frame_trans:
  assumes "list_frame l n" and "list_frame n p"
  shows "list_frame l p"
proof -
  have "li_Status n \<noteq> ListDraft" if "li_Status l \<noteq> ListDraft"
    using assms(1) that list_rank_draft by (metis list_frame_def le_zero_eq)
  then show ?thesis using assms unfolding list_frame_def by auto
qed

section \<open>The store keeps the contract\<close>

abbreviation list_table :: "list_mem \<Rightarrow> ID \<Rightarrow> listing option" where
  "list_table m \<equiv> map_of (sm_byID m)"

definition list_mem_inv :: "list_mem \<Rightarrow> bool" where
  "list_mem_inv m \<longleftrightarrow> wf_map (sm_byID m) \<and> (\<forall>k l. list_table m k = Some l \<longrightarrow> li_ID l = k \<and> list_Validate l = None)"

lemma list_mem_inv_new [simp]: "list_mem_inv list_NewMemoryStore"
  by (simp add: list_mem_inv_def list_NewMemoryStore_def)

lemma list_mem_Create_ok:
  "list_mem_Create c l m = (m', Inr u) \<longleftrightarrow>
     ctx_Err c = None \<and> sm_fail m = None \<and> list_Validate l = None \<and> list_table m (li_ID l) = None \<and>
     m' = m\<lparr>sm_byID := AList.update (li_ID l) l (sm_byID m)\<rparr>"
  by (auto simp: list_mem_Create_def gguard_def split: option.splits)

lemma list_mem_Create_err: "list_mem_Create c l m = (m', Inl e) \<Longrightarrow> m' = m"
  by (auto simp: list_mem_Create_def gguard_def split: option.splits if_splits)

lemma list_mem_Get_eq:
  "list_mem_Get c i m =
     (m, case ctx_Err c of Some e \<Rightarrow> Inl e | None \<Rightarrow>
         case sm_fail m of Some e \<Rightarrow> Inl e | None \<Rightarrow>
         case list_table m i of None \<Rightarrow> Inl (ListErr List_errNotFound) | Some l \<Rightarrow> Inr l)"
  by (simp add: list_mem_Get_def gguard_def split: option.split)

lemma list_mem_Update_ok:
  "list_mem_Update c l v m = (m', Inr u) \<longleftrightarrow>
     ctx_Err c = None \<and> sm_fail m = None \<and> list_Validate l = None \<and>
     (\<exists>cur. list_table m (li_ID l) = Some cur \<and> li_UpdatedAt cur = v) \<and>
     m' = m\<lparr>sm_byID := AList.update (li_ID l) l (sm_byID m)\<rparr>"
  by (auto simp: list_mem_Update_def gguard_def split: option.splits)

lemma list_mem_Update_err: "list_mem_Update c l v m = (m', Inl e) \<Longrightarrow> m' = m"
  by (auto simp: list_mem_Update_def gguard_def split: option.splits if_splits)

interpretation list_mem: occ_store li_ID li_UpdatedAt list_Validate list_frame list_table list_mem_inv
  "list_mem_Create c" "list_mem_Get c" "list_mem_Update c" for c
  by unfold_locales
    (auto simp: list_mem_Get_eq list_mem_Create_ok list_mem_Update_ok list_mem_inv_def
      dest: list_mem_Create_err list_mem_Update_err split: option.splits)

abbreviation list_step :: "ctx \<Rightarrow> (list_mem, listing) conc \<Rightarrow> (list_mem, listing) conc \<Rightarrow> bool" where
  "list_step c \<equiv> occ_step (list_mem_Create c) (list_mem_Get c) (list_mem_Update c) li_UpdatedAt list_opr"


section \<open>Visibility and the search index\<close>

text \<open>What makes a listing visible or invisible, or changes what is seen, has an event.\<close>

lemma lifecycle_announces:
  assumes "list_opr now l n" and "PubliclyReadable l \<noteq> PubliclyReadable n \<or> PubliclyReadable n"
  shows "lifecycleEventType l n \<noteq> None"
proof -
  have "li_Status l = ListPublished \<longrightarrow> li_Status n \<in> {ListPublished, ListArchived}"
    using list_oprD [OF assms(1)] by (auto simp: list_frame_def)
  then show ?thesis
    using assms(2) by (auto simp: lifecycleEventType_def PubliclyReadable_def hidesPublic_def)
qed

text \<open>The requests that change a listing.\<close>

datatype list_request =
    ReqUpdateDraft ID time list_content | ReqMarkReady ID time | ReqArchive ID time | ReqPublish ID time bool
  | ReqModerate moderation_input | ReqClear ID

fun req_listing :: "list_request \<Rightarrow> ID" where
  "req_listing (ReqUpdateDraft i t k) = i"
| "req_listing (ReqMarkReady i t) = i"
| "req_listing (ReqArchive i t) = i"
| "req_listing (ReqPublish i t b) = i"
| "req_listing (ReqModerate inp) = mi_ListingID inp"
| "req_listing (ReqClear i) = i"

fun list_serve :: "'w list_service \<Rightarrow> ctx \<Rightarrow> list_request \<Rightarrow> ('w, unit) go" where
  "list_serve s c (ReqUpdateDraft i t k) = gbind (list_svc_UpdateDraft s c i t k) (\<lambda>_. gret ())"
| "list_serve s c (ReqMarkReady i t) = gbind (list_svc_MarkReady s c i t) (\<lambda>_. gret ())"
| "list_serve s c (ReqArchive i t) = gbind (list_svc_Archive s c i t) (\<lambda>_. gret ())"
| "list_serve s c (ReqPublish i t b) = gbind (list_svc_Publish s c i t b) (\<lambda>_. gret ())"
| "list_serve s c (ReqModerate inp) = list_svc_ApplyModerationState s c inp"
| "list_serve s c (ReqClear i) = list_svc_ClearModerationState s c i"

lemma list_mutate_InrD:
  assumes run: "list_mutate s c i expected fn w = (w', Inr n)" and st: "lgs_store s = Some st"
    and fn: "\<And>l now wa wb n. fn l now wa = (wb, Inr n) \<Longrightarrow> list_opr now l n"
  shows "\<exists>cur now wa wb c' wc wd we. lst_Get st c i wa = (wb, Inr cur) \<and> li_UpdatedAt cur = expected \<and>
    list_opr now cur n \<and> lst_Update st c' n expected wc = (wd, Inr ()) \<and> list_emitLifecycle s c' cur n wd = (we, Inr ())"
proof -
  obtain cur now wa wb wc wd c' we wf wg wh where "lst_Get st c i wa = (wb, Inr cur)" "li_UpdatedAt cur = expected"
    and step: "fn cur (time_UTC now) wc = (wd, Inr n)"
    and "lst_Update st c' n expected we = (wf, Inr ())" "list_emitLifecycle s c' cur n wg = (wh, Inr ())" "wg = wf"
    using run unfolding list_mutate_def st
    by (elim go_InrE run_maybe_tx_InrE) auto
  then show ?thesis using fn [OF step] by blast
qed

definition changes_listing :: "'w list_service \<Rightarrow> ctx \<Rightarrow> ID \<Rightarrow> bool" where
  "changes_listing s c i \<longleftrightarrow> (\<exists>expected fn wx wy n. list_mutate s c i expected fn wx = (wy, Inr n) \<and>
      (\<forall>l now wa wb n. fn l now wa = (wb, Inr n) \<longrightarrow> list_opr now l n))"

lemma changes_listingI:
  "list_mutate s c i expected fn wx = (wy, Inr n) \<Longrightarrow>
   (\<And>l now wa wb n. fn l now wa = (wb, Inr n) \<Longrightarrow> list_opr now l n) \<Longrightarrow> changes_listing s c i"
  unfolding changes_listing_def by blast

lemma gpure_opr: "gpure r wa = (wb, Inr n) \<Longrightarrow> r = Inr n"
  by (simp add: gpure_def)

lemma list_serve_changes:
  assumes "list_serve s c req w = (w', Inr ())"
  shows "changes_listing s c (req_listing req)"
proof (cases req)
  case (ReqUpdateDraft i t k)
  then show ?thesis using assms unfolding ReqUpdateDraft list_serve.simps list_svc_UpdateDraft_def req_listing.simps
    by (elim gbind_InrE, elim changes_listingI) (elim go_InrE, auto simp: list_opr_def)
next
  case (ReqMarkReady i t)
  then show ?thesis using assms unfolding ReqMarkReady list_serve.simps list_svc_MarkReady_def req_listing.simps
    by (elim gbind_InrE, elim changes_listingI) (drule gpure_opr, auto simp: list_opr_def)
next
  case (ReqArchive i t)
  then show ?thesis using assms unfolding ReqArchive list_serve.simps list_svc_Archive_def req_listing.simps
    by (elim gbind_InrE, elim changes_listingI) (drule gpure_opr, auto simp: list_opr_def)
next
  case (ReqPublish i t b)
  then show ?thesis using assms unfolding ReqPublish list_serve.simps list_svc_Publish_def req_listing.simps
    by (elim gbind_InrE, elim changes_listingI) (drule gpure_opr, auto simp: list_opr_def)
next
  case (ReqModerate inp)
  then show ?thesis using assms unfolding ReqModerate list_serve.simps list_svc_ApplyModerationState_def req_listing.simps
    by (elim go_InrE, elim changes_listingI) (drule gpure_opr, auto simp: list_opr_def)
next
  case (ReqClear i)
  then show ?thesis using assms unfolding ReqClear list_serve.simps list_svc_ClearModerationState_def req_listing.simps
    by (elim go_InrE, elim changes_listingI) (drule gpure_opr, auto simp: list_opr_def)
qed

lemma changes_listingD:
  assumes "changes_listing s c i" and st: "lgs_store s = Some st"
  shows "\<exists>cur now n wa wb c' wc wd we. lst_Get st c i wa = (wb, Inr cur) \<and> list_opr now cur n \<and>
    lst_Update st c' n (li_UpdatedAt cur) wc = (wd, Inr ()) \<and> list_emitLifecycle s c' cur n wd = (we, Inr ())"
proof -
  obtain expected fn wx wy n where run: "list_mutate s c i expected fn wx = (wy, Inr n)"
    and fn: "\<And>l now wa wb n. fn l now wa = (wb, Inr n) \<Longrightarrow> list_opr now l n"
    using assms(1) unfolding changes_listing_def by blast
  have "\<exists>cur now wa wb c' wc wd we. lst_Get st c i wa = (wb, Inr cur) \<and> li_UpdatedAt cur = expected \<and>
    list_opr now cur n \<and> lst_Update st c' n expected wc = (wd, Inr ()) \<and> list_emitLifecycle s c' cur n wd = (we, Inr ())"
    by (rule list_mutate_InrD [OF run st]) (rule fn)
  then show ?thesis by blast
qed

lemma listing_event_decodes:
  "\<exists>ev. encodeListingEvent ty i at' = Inr ev \<and> DecodeListingIDPayload (ev_Payload ev) = Inr (ID_String i)"
proof -
  let ?ms = "[(''listing_id'', ID_String i)]"
  obtain acc where acc: "json_Unmarshal_strings [''listing_id''] (Some (json_object ?ms)) = Some acc"
    and fld: "string_field acc = (\<lambda>k. case map_of ?ms k of None \<Rightarrow> [] | Some v \<Rightarrow> v)"
    using json_roundtrip [of "[''listing_id'']" ?ms] by (auto simp: plain_name_def)
  show ?thesis
    by (simp add: encodeListingEvent_def DecodeListingIDPayload_def acc fld Let_def)
qed

lemma emit_InrD:
  assumes "list_emitLifecycle s c cur n w = (w', Inr u)" and "lgs_outbox s = Some enq"
    and "lifecycleEventType cur n = Some ty" and "encodeListingEvent ty (li_ID n) (li_UpdatedAt n) = Inr ev"
  shows "\<exists>we. enq c ev w = (we, Inr ())"
proof -
  have "gmaperr list_mapStoreErr (enq c ev) w = (w', Inr u)"
    using assms by (simp add: list_emitLifecycle_def gpure_def gbind_apply)
  then show ?thesis by (auto elim: gmaperr_InrE)
qed

text \<open>C26. Visibility changes are announced. In a service with an outbox, every request that succeeds has replaced the
  listing by the result of an operation of the domain, against the version it had read; and if the change
  shows or hides the listing, or the listing stays visible, an event was enqueued in the same unit of
  work, right after the update, whose payload decodes to the identifier of the listing.\<close>

theorem visibility_announced:
  assumes "list_serve s c req w = (w', Inr ())" and "lgs_store s = Some st" and "lgs_outbox s = Some enq"
  shows "\<exists>cur now n wa wb c' wc wd. lst_Get st c (req_listing req) wa = (wb, Inr cur) \<and> list_opr now cur n \<and>
    lst_Update st c' n (li_UpdatedAt cur) wc = (wd, Inr ()) \<and>
    (PubliclyReadable cur \<noteq> PubliclyReadable n \<or> PubliclyReadable n \<longrightarrow>
      (\<exists>ev we. enq c' ev wd = (we, Inr ()) \<and> DecodeListingIDPayload (ev_Payload ev) = Inr (ID_String (li_ID cur))))"
proof -
  obtain cur now n wa wb c' wc wd we where g: "lst_Get st c (req_listing req) wa = (wb, Inr cur)" "list_opr now cur n"
    "lst_Update st c' n (li_UpdatedAt cur) wc = (wd, Inr ())" and em: "list_emitLifecycle s c' cur n wd = (we, Inr ())"
    using changes_listingD [OF list_serve_changes [OF assms(1)] assms(2)] by blast
  have "\<exists>ev we. enq c' ev wd = (we, Inr ()) \<and> DecodeListingIDPayload (ev_Payload ev) = Inr (ID_String (li_ID cur))"
    if vis: "PubliclyReadable cur \<noteq> PubliclyReadable n \<or> PubliclyReadable n"
  proof -
    obtain ty where ty: "lifecycleEventType cur n = Some ty" using lifecycle_announces [OF g(2) vis] by blast
    have i: "li_ID n = li_ID cur" using list_oprD [OF g(2)] by simp
    obtain ev where ev: "encodeListingEvent ty (li_ID n) (li_UpdatedAt n) = Inr ev"
      "DecodeListingIDPayload (ev_Payload ev) = Inr (ID_String (li_ID n))" using listing_event_decodes by blast
    from emit_InrD [OF em assms(3) ty ev(1)]
    show ?thesis using ev(2) i by auto
  qed
  then show ?thesis using g by blast
qed

text \<open>Closed instances: a listing of Boya that its owner publishes and archives.\<close>

definition sample_listing :: "string \<Rightarrow> time \<Rightarrow> listing" where
  "sample_listing status t =
     \<lparr>li_ID = id_n 1, li_OwnerUserID = id_n 2, li_Status = status, li_CategoryID = id_n 3, li_CategorySchemaVersion = 1,
      li_Title = ''Boya'', li_Description = ''Boya'', li_PriceAmount = None, li_PriceCurrency = None, li_Attributes = [],
      li_CreatedAt = 1, li_UpdatedAt = t, li_PublishedAt = Some 1, li_ArchivedAt = None, li_ModerationState = ModerationNone\<rparr>"

definition sample_list_mem :: "string \<Rightarrow> list_mem" where
  "sample_list_mem status = \<lparr>sm_byID = [(id_n 1, sample_listing status 1)], sm_fail = None\<rparr>"

definition sample_list_service :: "list_mem list_service" where
  "sample_list_service =
     \<lparr>lgs_store = Some (list_mem_store (\<lambda>m. m) (\<lambda>f. f)), lgs_forms = None, lgs_now = (\<lambda>m. (m, 2)), lgs_rand = (\<lambda>m. (m, None)),
      lgs_tx = None, lgs_outbox = Some (\<lambda>c ev. gret ())\<rparr>"

lemma sample_listing_valid [simp]:
  "list_status_valid status \<Longrightarrow> status \<noteq> ListArchived \<Longrightarrow> 1 \<le> t \<Longrightarrow> list_Validate (sample_listing status t) = None"
  by (simp add: list_Validate_def sample_listing_def list_validatePrice_def ValidateAttributesShape_def cloneAttributes_def
    mod_state_valid_def before_creation_def)

lemma sample_archived:
  "list_Archive (sample_listing ListPublished 1) 2 =
     Inr ((sample_listing ListArchived 2)\<lparr>li_ArchivedAt := Some 2\<rparr>)"
  "list_Validate ((sample_listing ListArchived 2)\<lparr>li_ArchivedAt := Some 2\<rparr>) = None"
  by (simp_all add: list_Archive_def list_validated_def list_Validate_def sample_listing_def list_validatePrice_def
    ValidateAttributesShape_def cloneAttributes_def mod_state_valid_def before_creation_def list_status_valid_def)

theorem visibility_announced_witness:
  "\<exists>w'. list_serve sample_list_service background (ReqArchive (id_n 1) 1) (sample_list_mem ListPublished) = (w', Inr ()) \<and>
     (\<exists>cur now n wa wb c' wc wd. lst_Get (list_mem_store (\<lambda>m. m) (\<lambda>f. f)) background (id_n 1) wa = (wb, Inr cur) \<and>
        list_opr now cur n \<and> lst_Update (list_mem_store (\<lambda>m. m) (\<lambda>f. f)) c' n (li_UpdatedAt cur) wc = (wd, Inr ()) \<and>
        (PubliclyReadable cur \<noteq> PubliclyReadable n \<longrightarrow>
          (\<exists>ev :: new_event. DecodeListingIDPayload (ev_Payload ev) = Inr (ID_String (li_ID cur)))))"
proof -
  let ?n = "(sample_listing ListArchived 2)\<lparr>li_ArchivedAt := Some 2\<rparr>"
  have s: "lgs_store sample_list_service = Some (list_mem_store (\<lambda>m. m) (\<lambda>f. f))"
    "lgs_outbox sample_list_service = Some (\<lambda>c ev. gret ())" "lgs_tx sample_list_service = None"
    "lgs_now sample_list_service = (\<lambda>m. (m, 2))"
    by (simp_all add: sample_list_service_def)
  have g: "lst_Get (list_mem_store (\<lambda>m. m) (\<lambda>f. f)) background (id_n 1) (sample_list_mem ListPublished) =
      (sample_list_mem ListPublished, Inr (sample_listing ListPublished 1))"
    by (simp add: list_mem_store_def zoom_def list_mem_Get_eq background_def sample_list_mem_def)
  have "\<exists>m. lst_Update (list_mem_store (\<lambda>m. m) (\<lambda>f. f)) background ?n 1 (sample_list_mem ListPublished) = (m, Inr ())"
    by (simp add: list_mem_store_def zoom_def list_mem_Update_ok background_def sample_list_mem_def sample_archived(2))
      (simp add: sample_listing_def)
  then obtain m where u: "lst_Update (list_mem_store (\<lambda>m. m) (\<lambda>f. f)) background ?n 1 (sample_list_mem ListPublished) =
      (m, Inr ())" by blast
  have ver: "li_UpdatedAt (sample_listing ListPublished 1) = 1" by (simp add: sample_listing_def)
  have "\<exists>w'. list_emitLifecycle sample_list_service background (sample_listing ListPublished 1) ?n m = (w', Inr ())"
    by (simp add: list_emitLifecycle_def s encodeListingEvent_def gpure_def gbind_apply gmaperr_apply split: option.split)
  then have run: "\<exists>w'. list_serve sample_list_service background (ReqArchive (id_n 1) 1) (sample_list_mem ListPublished) =
      (w', Inr ())"
    by (auto simp: list_svc_Archive_def list_mutate_def s g u ver gbind_apply gmaperr_apply gread_apply gneed_def gpure_def
      sample_archived(1) run_maybe_tx_def simp del: One_nat_def)
  then obtain w' where r: "list_serve sample_list_service background (ReqArchive (id_n 1) 1)
      (sample_list_mem ListPublished) = (w', Inr ())" by blast
  obtain cur now n wa wb c' wc wd where g: "lst_Get (list_mem_store (\<lambda>m. m) (\<lambda>f. f)) background (id_n 1) wa = (wb, Inr cur)"
    "list_opr now cur n" "lst_Update (list_mem_store (\<lambda>m. m) (\<lambda>f. f)) c' n (li_UpdatedAt cur) wc = (wd, Inr ())"
    and v: "PubliclyReadable cur \<noteq> PubliclyReadable n \<longrightarrow>
      (\<exists>ev :: new_event. DecodeListingIDPayload (ev_Payload ev) = Inr (ID_String (li_ID cur)))"
    using visibility_announced [OF r s(1,2)] unfolding req_listing.simps by blast
  show ?thesis using r g v by (intro exI conjI)
qed


section \<open>What is entered fits the published form\<close>

definition value_of_type :: "published_field \<Rightarrow> go_any \<Rightarrow> bool" where
  "value_of_type f v \<longleftrightarrow>
     pf_ValueType f = ValueTypeText \<and> (\<exists>s. v = GStr s) \<or>
     pf_ValueType f = ValueTypeInteger \<and> asJSONInteger v \<noteq> None \<or>
     pf_ValueType f = ValueTypeDecimal \<and> asJSONNumber v \<noteq> None \<or>
     pf_ValueType f = ValueTypeBoolean \<and> (\<exists>b. v = GBool b) \<or>
     pf_ValueType f = ValueTypeEnum \<and> (\<exists>s \<in> set (pf_EnumOptionCodes f). v = GStr s)"

lemma validateAttributeValue_type: "validateAttributeValue f v = None \<Longrightarrow> value_of_type f v"
  by (auto simp: validateAttributeValue_def value_of_type_def split: if_splits go_any.splits option.splits)

text \<open>The limits on the length of a text and on numbers: the first key that names a number decides.\<close>

definition within_limits :: "float64 \<Rightarrow> (string, go_any) gomap option \<Rightarrow> string list \<Rightarrow> string list \<Rightarrow> bool" where
  "within_limits n c mins maxs \<longleftrightarrow>
     (\<forall>cs. c = Some cs \<longrightarrow> (\<forall>mn. constraintNumber cs mins = Some mn \<longrightarrow> \<not> float_less n mn) \<and>
       (\<forall>mx. constraintNumber cs maxs = Some mx \<longrightarrow> \<not> float_less mx n))"

definition value_in_limits :: "published_field \<Rightarrow> go_any \<Rightarrow> bool" where
  "value_in_limits f v \<longleftrightarrow>
     (\<forall>s. pf_ValueType f = ValueTypeText \<and> v = GStr s \<longrightarrow>
        within_limits (f64_of_int (int (utf8_RuneCountInString s))) (pf_Constraints f)
          [''minLength'', ''min_length''] [''maxLength'', ''max_length'']) \<and>
     (\<forall>n. pf_ValueType f = ValueTypeInteger \<and> asJSONInteger v = Some n \<longrightarrow>
        within_limits (f64_of_int n) (pf_Constraints f) [''min''] [''max'']) \<and>
     (\<forall>x. pf_ValueType f = ValueTypeDecimal \<and> asJSONNumber v = Some x \<longrightarrow>
        within_limits x (pf_Constraints f) [''min''] [''max''])"

lemma numeric_limits: "applyNumericConstraints n c = None \<longleftrightarrow> within_limits n c [''min''] [''max'']"
  by (auto simp: applyNumericConstraints_def within_limits_def split: option.splits)

lemma text_limits: "applyTextConstraints s c = None \<longleftrightarrow>
    within_limits (f64_of_int (int (utf8_RuneCountInString s))) c [''minLength'', ''min_length''] [''maxLength'', ''max_length'']"
  by (auto simp: applyTextConstraints_def within_limits_def Let_def split: option.splits)

lemma value_types [simp]:
  "ValueTypeText \<noteq> ValueTypeInteger" "ValueTypeText \<noteq> ValueTypeDecimal" "ValueTypeInteger \<noteq> ValueTypeDecimal"
  "ValueTypeInteger \<noteq> ValueTypeText" "ValueTypeDecimal \<noteq> ValueTypeText" "ValueTypeDecimal \<noteq> ValueTypeInteger"
  by (simp_all add: ValueTypeText_def ValueTypeInteger_def ValueTypeDecimal_def)

lemma validateAttributeValue_limits: "validateAttributeValue f v = None \<Longrightarrow> value_in_limits f v"
  by (auto simp: validateAttributeValue_def value_in_limits_def numeric_limits text_limits split: if_splits go_any.splits option.splits)

definition fits_form :: "attributes \<Rightarrow> published_form \<Rightarrow> bool" where
  "fits_form attrs form \<longleftrightarrow>
     fst ` set attrs \<subseteq> pf_Code ` set (pm_Fields form) \<and>
     (\<forall>f \<in> set (pm_Fields form). pf_Required f \<longrightarrow> pf_Code f \<in> fst ` set attrs) \<and>
     (\<forall>f \<in> set (pm_Fields form). \<forall>v. map_of attrs (pf_Code f) = Some v \<longrightarrow> value_of_type f v \<and> value_in_limits f v)"

lemma check_fields_fits:
  "check_fields attrs fs = None \<Longrightarrow> f \<in> set fs \<Longrightarrow>
     (pf_Required f \<longrightarrow> pf_Code f \<in> fst ` set attrs) \<and>
     (\<forall>v. map_of attrs (pf_Code f) = Some v \<longrightarrow> value_of_type f v \<and> value_in_limits f v)"
proof (induction fs)
  case (Cons g fs)
  have g: "(pf_Required g \<longrightarrow> pf_Code g \<in> fst ` set attrs) \<and>
      (\<forall>v. map_of attrs (pf_Code g) = Some v \<longrightarrow> value_of_type g v \<and> value_in_limits g v)"
    using Cons.prems(1)
    by (auto intro: validateAttributeValue_type validateAttributeValue_limits dest: map_of_SomeD
      simp: image_iff split: option.splits if_splits) (metis map_of_SomeD fst_conv)
  have "check_fields attrs fs = None" using Cons.prems(1) by (auto split: option.splits if_splits)
  then show ?case using Cons g by auto
qed simp

lemma validated_fits: "validateAttributesAgainstForm (Some attrs) form = None \<Longrightarrow> fits_form attrs form"
  using check_fields_fits [of attrs "pm_Fields form"]
  by (auto simp: validateAttributesAgainstForm_def fits_form_def list_all_iff split: if_splits)

lemma validateBound_InrD:
  assumes "validateBoundAttributes s c cat v attrs w = (w', Inr u)"
  shows "\<exists>resolve wa wb form m. lgs_forms s = Some resolve \<and> resolve c cat v wa = (wb, Inr form) \<and>
    pm_CategoryID form = cat \<and> pm_SchemaVersion form = v \<and> attrs = Some m \<and> fits_form m form"
  using assms unfolding validateBoundAttributes_def
  by (elim go_InrE) (cases attrs, auto simp: validateAttributesAgainstForm_def [of None] intro: validated_fits)

lemma list_UpdateDraft_content:
  assumes "list_UpdateDraft l k now = Inr n"
  shows "li_CategoryID n = ct_CategoryID k \<and> li_CategorySchemaVersion n = ct_CategorySchemaVersion k \<and>
    li_Attributes n = attributes_of (ct_Attributes k)"
  using assms
  by (auto simp: list_UpdateDraft_def list_content_normalized_def Let_def cloneAttributes_def attributes_of_def
    dest!: list_validated_InrD split: if_splits sum.splits option.splits)

lemma list_mutate_result:
  assumes "list_mutate s c i expected fn w = (w', Inr n)"
  shows "\<exists>cur now wa wb. fn cur now wa = (wb, Inr n)"
  using assms unfolding list_mutate_def by (elim go_InrE) auto

text \<open>C27. Drafts fit the form they were entered with. A draft that is created or updated carries attributes that a form
  published for its category and schema version, resolved in this call, allows: no attribute outside the
  form, a value for every required field, and every value of the type, among the options and within the
  limits of its field.\<close>

theorem drafts_fit_form:
  assumes "list_svc_CreateDraft s c owner k w = (w', Inr l) \<or> list_svc_UpdateDraft s c i t k w = (w', Inr l)"
  shows "\<exists>resolve wa wb form. lgs_forms s = Some resolve \<and>
    resolve c (li_CategoryID l) (li_CategorySchemaVersion l) wa = (wb, Inr form) \<and>
    pm_CategoryID form = li_CategoryID l \<and> pm_SchemaVersion form = li_CategorySchemaVersion l \<and>
    fits_form (li_Attributes l) form"
proof -
  have "\<exists>wa wb. validateBoundAttributes s c (li_CategoryID l) (li_CategorySchemaVersion l) a wa = (wb, Inr ()) \<and>
      attributes_of a = li_Attributes l" if "a = Some (li_Attributes l)" and
      "list_svc_CreateDraft s c owner k w = (w', Inr l)" for a
    using that unfolding list_svc_CreateDraft_def by (elim go_InrE) (auto simp: attributes_of_def)
  moreover have "\<exists>wa wb. validateBoundAttributes s c (li_CategoryID l) (li_CategorySchemaVersion l) (ct_Attributes k) wa =
      (wb, Inr ()) \<and> attributes_of (ct_Attributes k) = li_Attributes l" if "list_svc_UpdateDraft s c i t k w = (w', Inr l)"
    using list_mutate_result [OF that [unfolded list_svc_UpdateDraft_def]]
    by (elim exE go_InrE) (drule list_UpdateDraft_content, auto)
  ultimately obtain a wa wb where "validateBoundAttributes s c (li_CategoryID l) (li_CategorySchemaVersion l) a wa =
      (wb, Inr ())" "attributes_of a = li_Attributes l"
    using assms by blast
  then show ?thesis using validateBound_InrD by (fastforce simp: attributes_of_def)
qed

section \<open>One answer to who may read\<close>

text \<open>The three surfaces that show a valid listing agree on its visibility.\<close>

lemma readable_agrees:
  assumes "list_Validate l = None"
  shows "PubliclyReadable l \<longleftrightarrow> PubliclyVisible (li_Status l) (mod_state_Normalized (li_ModerationState l))"
proof -
  have t: "strings_TrimSpace ModerationNone = ModerationNone" "strings_TrimSpace ModerationRestricted = ModerationRestricted"
    "strings_TrimSpace ModerationRemoved = ModerationRemoved"
    by (simp_all add: ModerationNone_def ModerationRestricted_def ModerationRemoved_def TrimSpace_graphic graphic_def)
  have d: "ModerationNone \<noteq> []" "ModerationRestricted \<noteq> []" "ModerationRemoved \<noteq> []" "ModerationNone \<noteq> ModerationRestricted"
    "ModerationNone \<noteq> ModerationRemoved" "ModerationNone = ModerationStateNone" "ListPublished = StatusPublished"
    by (simp_all add: ModerationNone_def ModerationRestricted_def ModerationRemoved_def ModerationStateNone_def
      ListPublished_def StatusPublished_def)
  have "li_ModerationState l \<in> {[], ModerationNone, ModerationRestricted, ModerationRemoved}"
    using assms by (auto simp: list_Validate_def mod_state_valid_def split: if_splits)
  then show ?thesis
    using t d by (auto simp: PubliclyReadable_def PubliclyVisible_def hidesPublic_def mod_state_Normalized_def
      NormalizeModerationState_def Let_def)
qed

definition sample_form_field :: published_field where
  "sample_form_field =
     \<lparr>pf_Code = ''oda'', pf_ValueType = ValueTypeInteger, pf_Required = True, pf_Constraints = None, pf_EnumOptionCodes = []\<rparr>"

definition sample_draft_service :: "list_mem list_service" where
  "sample_draft_service = sample_list_service
     \<lparr>lgs_forms := Some (\<lambda>c i v. gret \<lparr>pm_CategoryID = i, pm_SchemaVersion = v, pm_Fields = [sample_form_field]\<rparr>),
      lgs_rand := (\<lambda>m. (m, Some (id_n 7)))\<rparr>"

definition sample_list_content :: list_content where
  "sample_list_content =
     \<lparr>ct_CategoryID = id_n 3, ct_CategorySchemaVersion = 1, ct_Title = ''Boya'', ct_Description = ''Boya'', ct_PriceAmount = None,
      ct_PriceCurrency = None, ct_Attributes = Some [(''oda'', GInt 3)]\<rparr>"

theorem drafts_fit_form_witness:
  "\<exists>w' l. list_svc_CreateDraft sample_draft_service background (id_n 2) sample_list_content list_NewMemoryStore = (w', Inr l) \<and>
     fits_form (li_Attributes l) \<lparr>pm_CategoryID = li_CategoryID l, pm_SchemaVersion = li_CategorySchemaVersion l,
       pm_Fields = [sample_form_field]\<rparr>"
proof -
  have i: "NewID (Some (id_n 7)) = Some (stamp_uuid (id_n 7))" "\<not> ID_IsZero (stamp_uuid (id_n 7))"
    by (simp_all add: NewID_def ID_IsZero_def zero_id_not_stamped)
  let ?l = "\<lparr>li_ID = stamp_uuid (id_n 7), li_OwnerUserID = id_n 2, li_Status = ListDraft, li_CategoryID = id_n 3,
      li_CategorySchemaVersion = 1, li_Title = ''Boya'', li_Description = ''Boya'', li_PriceAmount = None, li_PriceCurrency = None,
      li_Attributes = [(''oda'', GInt 3)], li_CreatedAt = 2, li_UpdatedAt = 2, li_PublishedAt = None, li_ArchivedAt = None,
      li_ModerationState = ModerationNone\<rparr>"
  have a: "ValidateAttributesShape (Some [(''oda'', GInt 3)]) = None"
    by (simp add: ValidateAttributesShape_def attrKeyPattern_def attr_char_def validAttributeValue_def)
  have v: "list_Validate ?l = None"
    by (simp add: list_Validate_def i a list_validatePrice_def cloneAttributes_def mod_state_valid_def before_creation_def
      list_status_valid_def)
  have n: "list_NewDraft (id_n 2) sample_list_content 2 (Some (id_n 7)) = Inr ?l"
    using v by (simp add: list_NewDraft_def list_content_normalized_def sample_list_content_def list_validatePrice_def
      cloneAttributes_def attributes_of_def a i list_validated_def Let_def)
  have "\<exists>w'. list_svc_CreateDraft sample_draft_service background (id_n 2) sample_list_content list_NewMemoryStore = (w', Inr ?l)"
    by (simp add: list_svc_CreateDraft_def sample_draft_service_def sample_list_service_def gread_apply gbind_apply n gpure_def
      validateBoundAttributes_def validateAttributesAgainstForm_def sample_form_field_def validateAttributeValue_def
      asJSONInteger_def applyNumericConstraints_def gmaperr_apply list_mem_store_def zoom_def list_mem_Create_def
      list_NewMemoryStore_def background_def v ValueTypeInteger_def ValueTypeText_def)
  then obtain w' where run: "list_svc_CreateDraft sample_draft_service background (id_n 2) sample_list_content
      list_NewMemoryStore = (w', Inr ?l)" by blast
  from drafts_fit_form [OF disjI1 [OF run]] run show ?thesis
    by (fastforce simp: sample_draft_service_def)
qed

end
